(* ===== verification/HolyPrelude.thy ===== *)
theory HolyPrelude
  imports Complex_Main "HOL-Library.Word"
begin

text \<open>
  Shared vocabulary of the development: the machine types of the C++ sources, the
  fixed-size bit sets that \<^verbatim>\<open>std::bitset\<close> stands for, the collections of simplification
  rules the component theories fill, and the few generic lemmas on lists, maps and words
  that more than one component uses.  Nothing here models a line of the repository.
\<close>

unbundle bit_operations_syntax

section \<open>Machine types\<close>

text \<open>
  Widths are those of the Linux x86-64 build, the platform the repository supports first:
  \<^verbatim>\<open>size_t\<close> has 64 bits and \<^verbatim>\<open>unsigned int\<close> 32.  A C++ \<^verbatim>\<open>int\<close> that is
  only compared or used as an index is an \<open>int\<close>.
\<close>

type_synonym u8 = "8 word"
type_synonym u16 = "16 word"
type_synonym u32 = "32 word"
type_synonym u64 = "64 word"
type_synonym size_t = "64 word"

text \<open>The largest value of \<^verbatim>\<open>int\<close>, \<^verbatim>\<open>std::numeric_limits<int>::max()\<close>.\<close>

definition INT_MAX :: nat where
  "INT_MAX = 2147483647"

named_theorems size_simps \<open>rules that move a comparison of size_t values to nat\<close>
named_theorems policy_simps \<open>definitions of the boolean policy functions\<close>
named_theorems handler_simps \<open>unfolding rules of the per-client handlers\<close>
named_theorems pins_keep \<open>operations that keep the pin accounting\<close>
named_theorems lp_steps \<open>operations that are sequences of primitive steps of the module\<close>

declare word_less_nat_alt [size_simps] and word_le_nat_alt [size_simps]

lemma unat_sub_le [size_simps]: "b \<le> a \<Longrightarrow> unat (a - b) = unat a - unat b"
  for a b :: "'a::len word"
  by (rule unat_sub)

lemma unat_add_no_overflow:
  "unat a + unat b < 2 ^ LENGTH('a) \<Longrightarrow> unat (a + b) = unat a + unat b"
  for a b :: "'a::len word"
  by (simp add: unat_word_ariths)

lemma unat_mult_no_overflow:
  "unat a * unat b < 2 ^ LENGTH('a) \<Longrightarrow> unat (a * b) = unat a * unat b"
  for a b :: "'a::len word"
  by (simp add: unat_word_ariths)

lemma unat_of_nat_small: "n < 2 ^ LENGTH('a) \<Longrightarrow> unat (of_nat n :: 'a::len word) = n"
  by (simp add: unat_of_nat take_bit_nat_eq_self)

lemma unat_2p: "k < LENGTH('a) \<Longrightarrow> unat (2 ^ k :: 'a::len word) = 2 ^ k"
  using unat_of_nat_small [of "2 ^ k", where 'a = 'a] by simp

lemma unat_bound: "unat w < 2 ^ LENGTH('a)" for w :: "'a::len word"
  by (rule unsigned_less)

lemma of_nat_unat_word: "of_nat (unat w) = w" for w :: "'a::len word"
  by simp

lemma ucast_of_nat_unat: "ucast w = of_nat (unat w)"
  by (simp add: ucast_eq uint_nat del: of_nat_unat)

lemma unat_ucast_up:
  "LENGTH('a) \<le> LENGTH('b) \<Longrightarrow> unat (ucast w :: 'b::len word) = unat w"
  for w :: "'a::len word"
  by (simp add: unsigned_ucast_eq take_bit_nat_eq_self order.strict_trans2 [OF unsigned_less])

lemma uint_ucast_up:
  "LENGTH('a) \<le> LENGTH('b) \<Longrightarrow> uint (ucast w :: 'b::len word) = uint w"
  for w :: "'a::len word"
  by (simp add: uint_nat unat_ucast_up del: of_nat_unat)

section \<open>Bit sets\<close>

text \<open>
  A \<^verbatim>\<open>std::bitset<N>\<close> is a list of \<open>N\<close> bits: \<^verbatim>\<open>set\<close>, \<^verbatim>\<open>reset\<close> and \<^verbatim>\<open>test\<close>
  are list updates and lookups.
\<close>

type_synonym bitset = "bool list"

definition bitset_elems :: "bitset \<Rightarrow> nat set" where
  "bitset_elems b = {i. i < length b \<and> b ! i}"

lemma bitset_elems_replicate [simp]: "bitset_elems (replicate n False) = {}"
  by (auto simp: bitset_elems_def)

lemma bitset_elems_set [simp]:
  "i < length b \<Longrightarrow> bitset_elems (b[i := True]) = insert i (bitset_elems b)"
  by (auto simp: bitset_elems_def nth_list_update)

lemma bitset_elems_reset [simp]: "bitset_elems (b[i := False]) = bitset_elems b - {i}"
  by (cases "i < length b") (auto simp: bitset_elems_def nth_list_update split: if_splits)

lemma bitset_elems_test: "i < length b \<Longrightarrow> b ! i \<longleftrightarrow> i \<in> bitset_elems b"
  by (simp add: bitset_elems_def)

lemma bitset_elems_range: "i \<in> bitset_elems b \<Longrightarrow> i < length b"
  by (simp add: bitset_elems_def)

lemma finite_bitset_elems [simp]: "finite (bitset_elems b)"
  by (rule finite_subset [of _ "{..<length b}"]) (auto simp: bitset_elems_def)

section \<open>Lists of slots\<close>

lemma removeAll_split:
  "y \<noteq> x \<Longrightarrow> removeAll y (us @ x # vs) = removeAll y us @ x # removeAll y vs"
  by simp

lemma find_append_case:
  "find P (xs @ ys) = (case find P xs of Some x \<Rightarrow> Some x | None \<Rightarrow> find P ys)"
  by (induction xs) auto

lemma length_removeAll_le: "length (removeAll x xs) \<le> length xs"
  by (induction xs) (auto intro: le_SucI)

lemma distinct_int_length_le:
  assumes "distinct xs" and "\<forall>x \<in> set xs. 0 \<le> x \<and> x < int n"
  shows "length xs \<le> n"
proof -
  have "card (set xs) \<le> card {0..<int n}"
    using assms(2) by (intro card_mono) auto
  then show ?thesis
    using assms(1) by (simp add: distinct_card)
qed

end
