(* ===== verification/SlotQueues.thy ===== *)
theory SlotQueues
  imports HolyPrelude
begin

text \<open>
  The fixed-capacity containers at the top of
  \<^verbatim>\<open>source/modules/gmoddatapack_luapack_policy.h\<close> (namespace
  \<^verbatim>\<open>HolyLib::LuaPack::Policy\<close>): \<^verbatim>\<open>PinnedCanonicalFileSet\<close>,
  \<^verbatim>\<open>RequiredStubQueue\<close> and \<^verbatim>\<open>RoundRobinSlotScheduler\<close>.  The template
  parameter \<^verbatim>\<open>Capacity\<close> (\<^verbatim>\<open>SlotCount\<close>) is the length of the bit set a container
  holds.  The two queues share one contract, the locale \<open>coalescing_fifo\<close>: an element is
  queued at most once, keeps its place in the line, and is served after at most as many
  \<^verbatim>\<open>Pop\<close>s as it has predecessors.
\<close>

section \<open>PinnedCanonicalFileSet\<close>

type_synonym PinnedCanonicalFileSet = bitset

definition PinnedCanonicalFileSet_new :: "nat \<Rightarrow> PinnedCanonicalFileSet" where
  "PinnedCanonicalFileSet_new Capacity = replicate Capacity False"

definition PinnedCanonicalFileSet_Reset :: "PinnedCanonicalFileSet \<Rightarrow> PinnedCanonicalFileSet" where
  "PinnedCanonicalFileSet_Reset files = replicate (length files) False"

definition PinnedCanonicalFileSet_Mark :: "int \<Rightarrow> PinnedCanonicalFileSet \<Rightarrow> PinnedCanonicalFileSet" where
  "PinnedCanonicalFileSet_Mark fileID files =
     (if 0 \<le> fileID \<and> nat fileID < length files then files[nat fileID := True] else files)"

definition PinnedCanonicalFileSet_Invalidate ::
  "int \<Rightarrow> PinnedCanonicalFileSet \<Rightarrow> PinnedCanonicalFileSet" where
  "PinnedCanonicalFileSet_Invalidate fileID files =
     (if 0 \<le> fileID \<and> nat fileID < length files then files[nat fileID := False] else files)"

definition PinnedCanonicalFileSet_Contains :: "int \<Rightarrow> PinnedCanonicalFileSet \<Rightarrow> bool" where
  "PinnedCanonicalFileSet_Contains fileID files \<longleftrightarrow>
     0 \<le> fileID \<and> nat fileID < length files \<and> files ! nat fileID"

text \<open>The file IDs a set holds.\<close>

definition pinned_ids :: "PinnedCanonicalFileSet \<Rightarrow> int set" where
  "pinned_ids files = {x. PinnedCanonicalFileSet_Contains x files}"

lemma length_Mark [simp]: "length (PinnedCanonicalFileSet_Mark x fs) = length fs"
  by (simp add: PinnedCanonicalFileSet_Mark_def)

lemma length_Invalidate [simp]: "length (PinnedCanonicalFileSet_Invalidate x fs) = length fs"
  by (simp add: PinnedCanonicalFileSet_Invalidate_def)

lemma length_PinnedReset [simp]: "length (PinnedCanonicalFileSet_Reset fs) = length fs"
  by (simp add: PinnedCanonicalFileSet_Reset_def)

lemma pinned_ids_new [simp]: "pinned_ids (PinnedCanonicalFileSet_new n) = {}"
  by (auto simp: pinned_ids_def PinnedCanonicalFileSet_Contains_def PinnedCanonicalFileSet_new_def)

lemma pinned_ids_Reset [simp]: "pinned_ids (PinnedCanonicalFileSet_Reset fs) = {}"
  by (auto simp: pinned_ids_def PinnedCanonicalFileSet_Contains_def PinnedCanonicalFileSet_Reset_def)

lemma pinned_ids_Mark:
  "pinned_ids (PinnedCanonicalFileSet_Mark x fs) =
     (if 0 \<le> x \<and> nat x < length fs then insert x (pinned_ids fs) else pinned_ids fs)"
  by (auto simp: pinned_ids_def PinnedCanonicalFileSet_Contains_def PinnedCanonicalFileSet_Mark_def
      nth_list_update)

lemma pinned_ids_Invalidate:
  "pinned_ids (PinnedCanonicalFileSet_Invalidate x fs) = pinned_ids fs - {x}"
  by (auto simp: pinned_ids_def PinnedCanonicalFileSet_Contains_def
      PinnedCanonicalFileSet_Invalidate_def nth_list_update split: if_splits)

lemma pinned_ids_range: "x \<in> pinned_ids fs \<Longrightarrow> 0 \<le> x \<and> x < int (length fs)"
  by (auto simp: pinned_ids_def PinnedCanonicalFileSet_Contains_def)

lemma Contains_iff [simp]: "PinnedCanonicalFileSet_Contains x fs \<longleftrightarrow> x \<in> pinned_ids fs"
  by (simp add: pinned_ids_def)

lemma finite_pinned_ids [simp]: "finite (pinned_ids fs)"
  by (rule finite_subset [of _ "{0..<int (length fs)}"]) (auto dest: pinned_ids_range)

section \<open>RequiredStubQueue\<close>

datatype RequiredStubEnqueueResult = Queued | AlreadyQueued | OutOfRange

record RequiredStubQueue =
  rsq_files :: "int list"
  rsq_queued :: PinnedCanonicalFileSet

definition RequiredStubQueue_new :: "nat \<Rightarrow> RequiredStubQueue" where
  "RequiredStubQueue_new Capacity =
     \<lparr>rsq_files = [], rsq_queued = PinnedCanonicalFileSet_new Capacity\<rparr>"

definition RequiredStubQueue_Enqueue ::
  "int \<Rightarrow> RequiredStubQueue \<Rightarrow> RequiredStubEnqueueResult \<times> RequiredStubQueue" where
  "RequiredStubQueue_Enqueue fileID q =
     (if fileID < 0 \<or> length (rsq_queued q) \<le> nat fileID then (OutOfRange, q)
      else if PinnedCanonicalFileSet_Contains fileID (rsq_queued q) then (AlreadyQueued, q)
      else (Queued, q\<lparr>rsq_queued := PinnedCanonicalFileSet_Mark fileID (rsq_queued q),
                      rsq_files := rsq_files q @ [fileID]\<rparr>))"

definition RequiredStubQueue_Empty :: "RequiredStubQueue \<Rightarrow> bool" where
  "RequiredStubQueue_Empty q \<longleftrightarrow> rsq_files q = []"

definition RequiredStubQueue_Size :: "RequiredStubQueue \<Rightarrow> nat" where
  "RequiredStubQueue_Size q = length (rsq_files q)"

definition RequiredStubQueue_Front :: "RequiredStubQueue \<Rightarrow> int" where
  "RequiredStubQueue_Front q = (case rsq_files q of [] \<Rightarrow> -1 | f # _ \<Rightarrow> f)"

definition RequiredStubQueue_Pop :: "RequiredStubQueue \<Rightarrow> RequiredStubQueue" where
  "RequiredStubQueue_Pop q =
     (case rsq_files q of
        [] \<Rightarrow> q
      | f # fs \<Rightarrow> q\<lparr>rsq_queued := PinnedCanonicalFileSet_Invalidate f (rsq_queued q),
                    rsq_files := fs\<rparr>)"

definition RequiredStubQueue_Reset :: "RequiredStubQueue \<Rightarrow> RequiredStubQueue" where
  "RequiredStubQueue_Reset q =
     q\<lparr>rsq_files := [], rsq_queued := PinnedCanonicalFileSet_Reset (rsq_queued q)\<rparr>"

text \<open>The deque holds each marked ID once, and nothing else.\<close>

definition rsq_inv :: "RequiredStubQueue \<Rightarrow> bool" where
  "rsq_inv q \<longleftrightarrow> distinct (rsq_files q) \<and> set (rsq_files q) = pinned_ids (rsq_queued q)"

section \<open>RoundRobinSlotScheduler\<close>

record RoundRobinSlotScheduler =
  rrs_active :: "int list"
  rrs_scheduled :: bitset

definition RoundRobinSlotScheduler_new :: "nat \<Rightarrow> RoundRobinSlotScheduler" where
  "RoundRobinSlotScheduler_new SlotCount =
     \<lparr>rrs_active = [], rrs_scheduled = replicate SlotCount False\<rparr>"

definition RoundRobinSlotScheduler_Schedule ::
  "int \<Rightarrow> RoundRobinSlotScheduler \<Rightarrow> bool \<times> RoundRobinSlotScheduler" where
  "RoundRobinSlotScheduler_Schedule slot s =
     (if slot < 0 \<or> length (rrs_scheduled s) \<le> nat slot \<or> rrs_scheduled s ! nat slot
      then (False, s)
      else (True, s\<lparr>rrs_scheduled := (rrs_scheduled s)[nat slot := True],
                    rrs_active := rrs_active s @ [slot]\<rparr>))"

definition RoundRobinSlotScheduler_TakeNext ::
  "RoundRobinSlotScheduler \<Rightarrow> int \<times> RoundRobinSlotScheduler" where
  "RoundRobinSlotScheduler_TakeNext s =
     (case rrs_active s of
        [] \<Rightarrow> (-1, s)
      | slot # rest \<Rightarrow> (slot, s\<lparr>rrs_active := rest,
                               rrs_scheduled := (rrs_scheduled s)[nat slot := False]\<rparr>))"

definition RoundRobinSlotScheduler_Unschedule ::
  "int \<Rightarrow> RoundRobinSlotScheduler \<Rightarrow> RoundRobinSlotScheduler" where
  "RoundRobinSlotScheduler_Unschedule slot s =
     (if slot < 0 \<or> length (rrs_scheduled s) \<le> nat slot then s
      else s\<lparr>rrs_scheduled := (rrs_scheduled s)[nat slot := False],
             rrs_active := removeAll slot (rrs_active s)\<rparr>)"

definition RoundRobinSlotScheduler_IsScheduled :: "int \<Rightarrow> RoundRobinSlotScheduler \<Rightarrow> bool" where
  "RoundRobinSlotScheduler_IsScheduled slot s \<longleftrightarrow>
     0 \<le> slot \<and> nat slot < length (rrs_scheduled s) \<and> rrs_scheduled s ! nat slot"

definition RoundRobinSlotScheduler_Empty :: "RoundRobinSlotScheduler \<Rightarrow> bool" where
  "RoundRobinSlotScheduler_Empty s \<longleftrightarrow> rrs_active s = []"

definition RoundRobinSlotScheduler_Size :: "RoundRobinSlotScheduler \<Rightarrow> nat" where
  "RoundRobinSlotScheduler_Size s = length (rrs_active s)"

definition RoundRobinSlotScheduler_Reset :: "RoundRobinSlotScheduler \<Rightarrow> RoundRobinSlotScheduler" where
  "RoundRobinSlotScheduler_Reset s =
     s\<lparr>rrs_active := [], rrs_scheduled := replicate (length (rrs_scheduled s)) False\<rparr>"

definition rrs_inv :: "RoundRobinSlotScheduler \<Rightarrow> bool" where
  "rrs_inv s \<longleftrightarrow> distinct (rrs_active s) \<and>
     set (rrs_active s) = int ` bitset_elems (rrs_scheduled s)"

section \<open>The shared contract: a coalescing first-in first-out queue\<close>

text \<open>
  \<open>admits q x\<close> says that \<open>x\<close> is in the range the container tracks.  The client
  language of the contract is a list of steps: a push (which may coalesce), a take that
  serves the front element, and a cancel.
\<close>

datatype fifo_step = Push int | Take | Cancel int

definition takes :: "fifo_step list \<Rightarrow> nat" where
  "takes steps = length (filter (\<lambda>s. s = Take) steps)"

lemma takes_simps [simp]:
  "takes [] = 0"
  "takes (Take # ss) = Suc (takes ss)"
  "takes (Push x # ss) = takes ss"
  "takes (Cancel x # ss) = takes ss"
  by (simp_all add: takes_def)

text \<open>Running steps yields the final queue and the elements served, in order.\<close>

fun fifo_run :: "(int \<Rightarrow> 'q \<Rightarrow> 'q) \<Rightarrow> ('q \<Rightarrow> int) \<Rightarrow> ('q \<Rightarrow> 'q) \<Rightarrow> (int \<Rightarrow> 'q \<Rightarrow> 'q) \<Rightarrow> ('q \<Rightarrow> bool)
    \<Rightarrow> fifo_step list \<Rightarrow> 'q \<Rightarrow> 'q \<times> int list" where
  "fifo_run enq front deq cancel isempty [] q = (q, [])"
| "fifo_run enq front deq cancel isempty (Push x # ss) q =
     fifo_run enq front deq cancel isempty ss (enq x q)"
| "fifo_run enq front deq cancel isempty (Cancel x # ss) q =
     fifo_run enq front deq cancel isempty ss (cancel x q)"
| "fifo_run enq front deq cancel isempty (Take # ss) q =
     (if isempty q then fifo_run enq front deq cancel isempty ss q
      else (let (q', out) = fifo_run enq front deq cancel isempty ss (deq q)
            in (q', front q # out)))"

locale coalescing_fifo =
  fixes enq :: "int \<Rightarrow> 'q \<Rightarrow> 'q"
    and front :: "'q \<Rightarrow> int"
    and deq :: "'q \<Rightarrow> 'q"
    and isempty :: "'q \<Rightarrow> bool"
    and items :: "'q \<Rightarrow> int list"
    and capacity :: "'q \<Rightarrow> nat"
    and inv :: "'q \<Rightarrow> bool"
  assumes items_enq: "inv q \<Longrightarrow> items (enq x q) =
      (if 0 \<le> x \<and> x < int (capacity q) \<and> x \<notin> set (items q) then items q @ [x] else items q)"
    and items_deq: "inv q \<Longrightarrow> items (deq q) = tl (items q)"
    and front_items: "inv q \<Longrightarrow> items q \<noteq> [] \<Longrightarrow> front q = hd (items q)"
    and empty_items: "inv q \<Longrightarrow> isempty q \<longleftrightarrow> items q = []"
    and inv_items: "inv q \<Longrightarrow> distinct (items q) \<and> (\<forall>x \<in> set (items q). 0 \<le> x \<and> x < int (capacity q))"
    and inv_enq: "inv q \<Longrightarrow> inv (enq x q)"
    and inv_deq: "inv q \<Longrightarrow> inv (deq q)"
    and capacity_enq: "capacity (enq x q) = capacity q"
    and capacity_deq: "capacity (deq q) = capacity q"
begin

lemma items_bounded: "inv q \<Longrightarrow> length (items q) \<le> capacity q"
  using inv_items [of q] by (auto intro: distinct_int_length_le)

text \<open>Pushing a batch appends exactly its first occurrences that are in range and new.\<close>

lemma enq_all:
  "inv q \<Longrightarrow> inv (fold enq xs q) \<and> capacity (fold enq xs q) = capacity q \<and>
     set (items (fold enq xs q)) =
       set (items q) \<union> {x \<in> set xs. 0 \<le> x \<and> x < int (capacity q)} \<and>
     (\<exists>zs. items (fold enq xs q) = items q @ zs)"
proof (induction xs arbitrary: q)
  case Nil
  then show ?case by simp
next
  case (Cons x xs)
  have "inv (enq x q)" using Cons.prems by (rule inv_enq)
  from Cons.IH [OF this] show ?case
    using Cons.prems by (auto simp: items_enq capacity_enq)
qed

text \<open>From an empty queue, a batch of pushes leaves the first occurrences in arrival order.\<close>

lemma enq_all_order:
  "inv q \<Longrightarrow> items q = [] \<Longrightarrow>
     items (fold enq xs q) =
       rev (remdups (rev (filter (\<lambda>x. 0 \<le> x \<and> x < int (capacity q)) xs)))"
proof (induction xs rule: rev_induct)
  case Nil
  then show ?case by simp
next
  case (snoc x xs)
  then show ?case
    using enq_all [of q xs] by (auto simp: items_enq)
qed

lemma run_pushes:
  "fifo_run enq front deq cancel isempty (map Push xs @ ss) q =
     fifo_run enq front deq cancel isempty ss (fold enq xs q)"
  by (induction xs arbitrary: q) simp_all

lemma run_takes:
  "inv q \<Longrightarrow>
     snd (fifo_run enq front deq cancel isempty (replicate n Take) q) = take n (items q)"
proof (induction n arbitrary: q)
  case 0
  then show ?case by simp
next
  case (Suc n)
  have IH: "snd (fifo_run enq front deq cancel isempty (replicate n Take) (deq q)) =
      take n (tl (items q))"
    using Suc.IH [OF inv_deq] Suc.prems by (simp add: items_deq)
  show ?case
    using Suc IH by (cases "items q") (auto simp: empty_items front_items split: prod.splits)
qed

end

locale cancellable_fifo = coalescing_fifo +
  fixes cancel :: "int \<Rightarrow> 'a \<Rightarrow> 'a"
  assumes items_cancel: "inv q \<Longrightarrow> items (cancel x q) = removeAll x (items q)"
    and inv_cancel: "inv q \<Longrightarrow> inv (cancel x q)"
    and capacity_cancel: "capacity (cancel x q) = capacity q"
begin

lemma run_inv:
  "inv q \<Longrightarrow> inv (fst (fifo_run enq front deq cancel isempty ss q)) \<and>
     capacity (fst (fifo_run enq front deq cancel isempty ss q)) = capacity q"
proof (induction ss arbitrary: q)
  case Nil
  then show ?case by simp
next
  case (Cons s ss)
  then show ?case
    by (cases s)
      (auto simp: inv_enq inv_deq inv_cancel capacity_enq capacity_deq capacity_cancel
        split: prod.splits dest: Cons.IH [OF inv_deq])
qed

text \<open>
  Bounded waiting.  An element with \<open>length us\<close> predecessors is served within
  \<open>length us + 1\<close> takes, however pushes and cancels of other elements interleave.
\<close>

lemma served_in_order:
  "inv q \<Longrightarrow> items q = us @ x # vs \<Longrightarrow> Cancel x \<notin> set ss \<Longrightarrow> length us < takes ss \<Longrightarrow>
     x \<in> set (snd (fifo_run enq front deq cancel isempty ss q))"
proof (induction ss arbitrary: q us vs)
  case Nil
  then show ?case by simp
next
  case (Cons s ss)
  show ?case
  proof (cases s)
    case (Push y)
    have "\<exists>vs'. items (enq y q) = us @ x # vs'"
      using Cons.prems(1,2) by (simp add: items_enq)
    then show ?thesis
      using Push Cons.IH [OF inv_enq] Cons.prems by auto
  next
    case (Cancel y)
    then have "items (cancel y q) = removeAll y us @ x # removeAll y vs"
      using Cons.prems by (auto simp: items_cancel)
    moreover have "length (removeAll y us) < takes ss"
      using Cancel Cons.prems(4) length_removeAll_le [of y us]
      by (simp only: takes_simps)
    ultimately show ?thesis
      using Cancel Cons.IH [OF inv_cancel [OF Cons.prems(1)]] Cons.prems(3) by auto
  next
    case Take
    have ne: "\<not> isempty q" and fr: "front q = hd (items q)"
      using Cons.prems(1,2) by (simp_all add: empty_items front_items)
    show ?thesis
    proof (cases us)
      case Nil
      then show ?thesis using Take ne fr Cons.prems(2) by (auto split: prod.splits)
    next
      case (Cons u us')
      then have "items (deq q) = us' @ x # vs" and "length us' < takes ss"
        using Cons.prems Take by (simp_all add: items_deq)
      then show ?thesis
        using Take ne Cons.IH [OF inv_deq [OF Cons.prems(1)]] Cons.prems(3)
        by (force split: prod.splits)
    qed
  qed
qed

end

section \<open>Both queues provide the contract\<close>

lemma RequiredStubQueue_Pop_simps:
  "rsq_files (RequiredStubQueue_Pop q) = tl (rsq_files q)"
  by (simp add: RequiredStubQueue_Pop_def split: list.split)

lemma length_rsq_queued [simp]:
  "length (rsq_queued (snd (RequiredStubQueue_Enqueue x q))) = length (rsq_queued q)"
  "length (rsq_queued (RequiredStubQueue_Pop q)) = length (rsq_queued q)"
  by (simp_all add: RequiredStubQueue_Enqueue_def RequiredStubQueue_Pop_def split: list.split)

lemma rsq_inv_new [simp]: "rsq_inv (RequiredStubQueue_new n)"
  by (simp add: rsq_inv_def RequiredStubQueue_new_def)

lemma rsq_inv_Enqueue: "rsq_inv q \<Longrightarrow> rsq_inv (snd (RequiredStubQueue_Enqueue x q))"
  by (auto simp: rsq_inv_def RequiredStubQueue_Enqueue_def pinned_ids_Mark)

lemma rsq_inv_Pop: "rsq_inv q \<Longrightarrow> rsq_inv (RequiredStubQueue_Pop q)"
  by (cases "rsq_files q")
    (auto simp: rsq_inv_def RequiredStubQueue_Pop_def pinned_ids_Invalidate)

lemma rsq_inv_Reset [simp]: "rsq_inv (RequiredStubQueue_Reset q)"
  by (simp add: rsq_inv_def RequiredStubQueue_Reset_def)

interpretation rsq: coalescing_fifo
  "\<lambda>x q. snd (RequiredStubQueue_Enqueue x q)" RequiredStubQueue_Front RequiredStubQueue_Pop
  RequiredStubQueue_Empty rsq_files "\<lambda>q. length (rsq_queued q)" rsq_inv
proof unfold_locales
  fix q :: RequiredStubQueue and x :: int
  assume inv: "rsq_inv q"
  then show "rsq_files (snd (RequiredStubQueue_Enqueue x q)) =
      (if 0 \<le> x \<and> x < int (length (rsq_queued q)) \<and> x \<notin> set (rsq_files q)
       then rsq_files q @ [x] else rsq_files q)"
    by (auto simp: RequiredStubQueue_Enqueue_def rsq_inv_def)
  show "rsq_files q \<noteq> [] \<Longrightarrow> RequiredStubQueue_Front q = hd (rsq_files q)"
    by (simp add: RequiredStubQueue_Front_def split: list.split)
  show "distinct (rsq_files q) \<and>
      (\<forall>x\<in>set (rsq_files q). 0 \<le> x \<and> x < int (length (rsq_queued q)))"
    using inv by (auto simp: rsq_inv_def dest: pinned_ids_range)
qed (simp_all add: RequiredStubQueue_Pop_simps RequiredStubQueue_Empty_def rsq_inv_Enqueue
    rsq_inv_Pop)

lemma IsScheduled_bits:
  "RoundRobinSlotScheduler_IsScheduled x s \<longleftrightarrow> x \<in> int ` bitset_elems (rrs_scheduled s)"
  by (auto simp: RoundRobinSlotScheduler_IsScheduled_def bitset_elems_def image_iff
      intro: exI [of _ "nat x"])

lemma IsScheduled_iff:
  "rrs_inv s \<Longrightarrow> RoundRobinSlotScheduler_IsScheduled x s \<longleftrightarrow> x \<in> set (rrs_active s)"
  by (simp add: rrs_inv_def IsScheduled_bits)

lemma int_image_remove: "0 \<le> x \<Longrightarrow> int ` (A - {nat x}) = int ` A - {x}"
  by auto

lemma rrs_active_nonneg: "rrs_inv s \<Longrightarrow> x \<in> set (rrs_active s) \<Longrightarrow> 0 \<le> x"
  by (auto simp: rrs_inv_def)

lemma rrs_active_range:
  "rrs_inv s \<Longrightarrow> x \<in> set (rrs_active s) \<Longrightarrow> x < int (length (rrs_scheduled s))"
  by (auto simp: rrs_inv_def dest: bitset_elems_range)

lemma Schedule_guard:
  "rrs_inv s \<Longrightarrow> (x < 0 \<or> length (rrs_scheduled s) \<le> nat x \<or> rrs_scheduled s ! nat x) \<longleftrightarrow>
     \<not> (0 \<le> x \<and> x < int (length (rrs_scheduled s)) \<and> x \<notin> set (rrs_active s))"
  using IsScheduled_iff [of s x] by (auto simp: RoundRobinSlotScheduler_IsScheduled_def)

lemma length_rrs_scheduled [simp]:
  "length (rrs_scheduled (snd (RoundRobinSlotScheduler_Schedule x s))) = length (rrs_scheduled s)"
  "length (rrs_scheduled (snd (RoundRobinSlotScheduler_TakeNext s))) = length (rrs_scheduled s)"
  "length (rrs_scheduled (RoundRobinSlotScheduler_Unschedule x s)) = length (rrs_scheduled s)"
  by (simp_all add: RoundRobinSlotScheduler_Schedule_def RoundRobinSlotScheduler_TakeNext_def
      RoundRobinSlotScheduler_Unschedule_def split: list.split)

lemma rrs_inv_new [simp]: "rrs_inv (RoundRobinSlotScheduler_new n)"
  by (simp add: rrs_inv_def RoundRobinSlotScheduler_new_def)

lemma rrs_inv_Schedule: "rrs_inv s \<Longrightarrow> rrs_inv (snd (RoundRobinSlotScheduler_Schedule x s))"
  by (simp add: RoundRobinSlotScheduler_Schedule_def Schedule_guard) (auto simp: rrs_inv_def)

lemma rrs_inv_TakeNext: "rrs_inv s \<Longrightarrow> rrs_inv (snd (RoundRobinSlotScheduler_TakeNext s))"
proof (cases "rrs_active s")
  case (Cons a as)
  assume inv: "rrs_inv s"
  then have "0 \<le> a" using Cons by (auto intro: rrs_active_nonneg)
  then show ?thesis
    using inv Cons
    by (auto simp: rrs_inv_def RoundRobinSlotScheduler_TakeNext_def int_image_remove)
qed (simp add: RoundRobinSlotScheduler_TakeNext_def)

lemma rrs_inv_Unschedule: "rrs_inv s \<Longrightarrow> rrs_inv (RoundRobinSlotScheduler_Unschedule x s)"
  by (simp add: rrs_inv_def RoundRobinSlotScheduler_Unschedule_def int_image_remove
      distinct_removeAll)

lemma rrs_inv_Reset [simp]: "rrs_inv (RoundRobinSlotScheduler_Reset s)"
  by (simp add: rrs_inv_def RoundRobinSlotScheduler_Reset_def)

interpretation rrs: cancellable_fifo
  "\<lambda>x s. snd (RoundRobinSlotScheduler_Schedule x s)"
  "\<lambda>s. fst (RoundRobinSlotScheduler_TakeNext s)"
  "\<lambda>s. snd (RoundRobinSlotScheduler_TakeNext s)"
  RoundRobinSlotScheduler_Empty rrs_active "\<lambda>s. length (rrs_scheduled s)" rrs_inv
  RoundRobinSlotScheduler_Unschedule
proof unfold_locales
  fix s :: RoundRobinSlotScheduler and x :: int
  assume inv: "rrs_inv s"
  then show "rrs_active (snd (RoundRobinSlotScheduler_Schedule x s)) =
      (if 0 \<le> x \<and> x < int (length (rrs_scheduled s)) \<and> x \<notin> set (rrs_active s)
       then rrs_active s @ [x] else rrs_active s)"
    by (auto simp: RoundRobinSlotScheduler_Schedule_def Schedule_guard)
  show "distinct (rrs_active s) \<and>
      (\<forall>x\<in>set (rrs_active s). 0 \<le> x \<and> x < int (length (rrs_scheduled s)))"
    using inv rrs_active_nonneg [OF inv] rrs_active_range [OF inv] by (simp add: rrs_inv_def)
  show "rrs_active (RoundRobinSlotScheduler_Unschedule x s) = removeAll x (rrs_active s)"
    using rrs_active_nonneg [OF inv, of x] rrs_active_range [OF inv, of x]
    by (cases "x \<in> set (rrs_active s)") (auto simp: RoundRobinSlotScheduler_Unschedule_def)
  show "rrs_inv (snd (RoundRobinSlotScheduler_TakeNext s))"
    using inv by (rule rrs_inv_TakeNext)
  show "rrs_active (snd (RoundRobinSlotScheduler_TakeNext s)) = tl (rrs_active s)"
    by (simp add: RoundRobinSlotScheduler_TakeNext_def split: list.split)
  show "rrs_active s \<noteq> [] \<Longrightarrow> fst (RoundRobinSlotScheduler_TakeNext s) = hd (rrs_active s)"
    by (simp add: RoundRobinSlotScheduler_TakeNext_def split: list.split)
qed (simp_all add: RoundRobinSlotScheduler_Empty_def rrs_inv_Schedule rrs_inv_Unschedule)

section \<open>Properties\<close>

text \<open>The operations of a \<^verbatim>\<open>RequiredStubQueue\<close>, run from construction.\<close>

datatype rsq_op = RsqEnqueue int | RsqPop | RsqReset

fun rsq_step :: "rsq_op \<Rightarrow> RequiredStubQueue \<Rightarrow> RequiredStubQueue" where
  "rsq_step (RsqEnqueue x) q = snd (RequiredStubQueue_Enqueue x q)"
| "rsq_step RsqPop q = RequiredStubQueue_Pop q"
| "rsq_step RsqReset q = RequiredStubQueue_Reset q"

definition rsq_run :: "nat \<Rightarrow> rsq_op list \<Rightarrow> RequiredStubQueue" where
  "rsq_run Capacity ops = fold rsq_step ops (RequiredStubQueue_new Capacity)"

lemma rsq_step_inv:
  "rsq_inv q \<Longrightarrow> rsq_inv (rsq_step op q) \<and> length (rsq_queued (rsq_step op q)) = length (rsq_queued q)"
  by (cases op) (simp_all add: rsq_inv_Enqueue rsq_inv_Pop RequiredStubQueue_Reset_def
      rsq_inv_Reset [unfolded RequiredStubQueue_Reset_def])

lemma rsq_run_inv: "rsq_inv (rsq_run n ops) \<and> length (rsq_queued (rsq_run n ops)) = n"
  unfolding rsq_run_def
proof (induction ops rule: rev_induct)
  case Nil
  then show ?case by (simp add: RequiredStubQueue_new_def rsq_inv_def PinnedCanonicalFileSet_new_def
      pinned_ids_new [unfolded PinnedCanonicalFileSet_new_def])
next
  case (snoc op ops)
  then show ?case by (simp add: rsq_step_inv)
qed

text \<open>
  Whatever sequence of \<^verbatim>\<open>Enqueue\<close>, \<^verbatim>\<open>Pop\<close> and \<^verbatim>\<open>Reset\<close> calls is
  made on a fresh \<^verbatim>\<open>RequiredStubQueue<Capacity>\<close>, the deque holds every queued
  file ID exactly once, the membership bit set agrees with the deque, every ID is in range,
  and the queue never grows past \<^verbatim>\<open>Capacity\<close> entries: a repeated request cannot
  amplify the reliable burst.
\<close>

theorem RequiredStubQueue_bounded_unique:
  "distinct (rsq_files (rsq_run Capacity ops)) \<and>
   set (rsq_files (rsq_run Capacity ops)) = pinned_ids (rsq_queued (rsq_run Capacity ops)) \<and>
   set (rsq_files (rsq_run Capacity ops)) \<subseteq> {0..<int Capacity} \<and>
   RequiredStubQueue_Size (rsq_run Capacity ops) \<le> Capacity"
proof -
  have inv: "rsq_inv (rsq_run Capacity ops)" and
    cap: "length (rsq_queued (rsq_run Capacity ops)) = Capacity"
    using rsq_run_inv by blast+
  show ?thesis
    using rsq.items_bounded [OF inv] rsq.inv_items [OF inv] inv cap
    by (auto simp: RequiredStubQueue_Size_def rsq_inv_def)
qed

text \<open>
  Draining a \<^verbatim>\<open>RequiredStubQueue\<close> after a batch of requests serves exactly the
  distinct in-range file IDs of the batch, in the order of their first request.
\<close>

theorem RequiredStubQueue_drain_order:
  "snd (fifo_run (\<lambda>x q. snd (RequiredStubQueue_Enqueue x q)) RequiredStubQueue_Front
      RequiredStubQueue_Pop (\<lambda>x q. q) RequiredStubQueue_Empty
      (map Push xs @ replicate (length xs) Take) (RequiredStubQueue_new Capacity)) =
   rev (remdups (rev (filter (\<lambda>x. 0 \<le> x \<and> x < int Capacity) xs)))"
proof -
  let ?q = "RequiredStubQueue_new Capacity"
  have new: "rsq_inv ?q" "rsq_files ?q = []" "length (rsq_queued ?q) = Capacity"
    by (simp_all add: RequiredStubQueue_new_def PinnedCanonicalFileSet_new_def rsq_inv_def
        pinned_ids_new [unfolded PinnedCanonicalFileSet_new_def])
  have len: "length (remdups (rev (filter P xs))) \<le> length xs" for P :: "int \<Rightarrow> bool"
    by (rule le_trans [OF length_remdups_leq]) simp
  show ?thesis
    using rsq.enq_all [OF new(1), of xs] rsq.enq_all_order [OF new(1,2), of xs]
    by (simp add: rsq.run_pushes rsq.run_takes new(3) len)
qed

text \<open>
  Bounded waiting in the round-robin scheduler: a scheduled slot with \<open>length us\<close>
  slots ahead of it is returned by one of the next \<open>length us + 1\<close> calls of
  \<^verbatim>\<open>TakeNext\<close>, however calls of \<^verbatim>\<open>Schedule\<close> for any slot (repeated engine
  polls of the same slot included) and of \<^verbatim>\<open>Unschedule\<close> for other slots interleave.
\<close>

theorem RoundRobinSlotScheduler_bounded_wait:
  assumes "rrs_inv s" and "rrs_active s = us @ slot # vs"
    and "Cancel slot \<notin> set steps" and "length us < takes steps"
  shows "slot \<in> set (snd (fifo_run (\<lambda>x s. snd (RoundRobinSlotScheduler_Schedule x s))
      (\<lambda>s. fst (RoundRobinSlotScheduler_TakeNext s)) (\<lambda>s. snd (RoundRobinSlotScheduler_TakeNext s))
      RoundRobinSlotScheduler_Unschedule RoundRobinSlotScheduler_Empty steps s))"
  using assms by (rule rrs.served_in_order)

theorem RoundRobinSlotScheduler_bounded_wait_witness:
  "2 \<in> set (snd (fifo_run (\<lambda>x s. snd (RoundRobinSlotScheduler_Schedule x s))
      (\<lambda>s. fst (RoundRobinSlotScheduler_TakeNext s)) (\<lambda>s. snd (RoundRobinSlotScheduler_TakeNext s))
      RoundRobinSlotScheduler_Unschedule RoundRobinSlotScheduler_Empty
      [Push 3, Take, Push 1, Cancel 3, Take]
      \<lparr>rrs_active = [1, 2], rrs_scheduled = [False, True, True, False]\<rparr>))"
proof (rule RoundRobinSlotScheduler_bounded_wait [where us = "[1]" and vs = "[]"])
  show "rrs_inv \<lparr>rrs_active = [1, 2], rrs_scheduled = [False, True, True, False]\<rparr>"
    by (auto simp: rrs_inv_def bitset_elems_def less_Suc_eq numeral_eq_Suc nth_Cons'
        split: if_splits)
qed simp_all

end
