(* ===== verification/DeliveryPolicy.thy ===== *)
theory DeliveryPolicy
  imports HolyPrelude
begin

text \<open>
  The decision functions of \<^verbatim>\<open>source/modules/gmoddatapack_luapack_policy.h\<close>: which
  delivery lane a client is on, whether a baseline or a file goes out natively, as a
  canonical stub or not at all, when registration and server-info work may run, and when an
  active client needs its advertised hash refreshed.
\<close>

section \<open>Scheduling of server-info baselines and registration refreshes\<close>

definition ShouldScheduleLuaPackServerInfo ::
  "bool \<Rightarrow> bool \<Rightarrow> bool \<Rightarrow> bool \<Rightarrow> bool \<Rightarrow> bool \<Rightarrow> bool \<Rightarrow> bool" where
  [policy_simps]: "ShouldScheduleLuaPackServerInfo enabled canonicalRegistration registrationRefreshPending
     sendServerInfoPending connectedState validSlot channelReady \<longleftrightarrow>
     (registrationRefreshPending \<or> (enabled \<and> canonicalRegistration)) \<and>
     sendServerInfoPending \<and> connectedState \<and> validSlot \<and> channelReady"

definition BoundedRegistrationRefreshEnd :: "size_t \<Rightarrow> size_t \<Rightarrow> size_t \<Rightarrow> size_t" where
  "BoundedRegistrationRefreshEnd nextFile totalN budget =
     (if totalN \<le> nextFile \<or> budget = 0 then min nextFile totalN
      else if totalN - nextFile \<le> budget then totalN else nextFile + budget)"

definition FirstClientLuaRegistration :: "size_t \<Rightarrow> size_t" where
  "FirstClientLuaRegistration registeredStrings = (if registeredStrings = 0 then 0 else 1)"

definition ClientLuaRegistrationCount :: "size_t \<Rightarrow> size_t" where
  "ClientLuaRegistrationCount registeredStrings =
     (if registeredStrings = 0 then 0 else registeredStrings - 1)"

definition CanCompleteRegistrationRefresh :: "bool \<Rightarrow> bool \<Rightarrow> size_t \<Rightarrow> size_t \<Rightarrow> bool" where
  [policy_simps]: "CanCompleteRegistrationRefresh initialPassComplete initRefreshed unresolvedFiles
     pendingSourceHashes \<longleftrightarrow>
     initialPassComplete \<and> initRefreshed \<and> unresolvedFiles = 0 \<and> pendingSourceHashes = 0"

definition InitialMapBasePending :: "bool \<Rightarrow> bool \<Rightarrow> bool \<Rightarrow> bool \<Rightarrow> bool" where
  [policy_simps]: "InitialMapBasePending enabled required currentBaseAvailable baseWorkPending \<longleftrightarrow>
     enabled \<and> required \<and> \<not> currentBaseAvailable \<and> baseWorkPending"

definition QueuedServerInfoIdentityMatches ::
  "bool \<Rightarrow> bool \<Rightarrow> bool \<Rightarrow> bool \<Rightarrow> bool \<Rightarrow> bool \<Rightarrow> bool \<Rightarrow> bool" where
  [policy_simps]: "QueuedServerInfoIdentityMatches sameClient sameChannel sameSlot sameUserID
     sameChallenge connectedState sendServerInfoPending \<longleftrightarrow>
     sameClient \<and> sameChannel \<and> sameSlot \<and> sameUserID \<and> sameChallenge \<and> connectedState \<and>
     sendServerInfoPending"

definition CanUsePinnedRequiredStub :: "bool \<Rightarrow> bool \<Rightarrow> bool \<Rightarrow> bool \<Rightarrow> size_t \<Rightarrow> bool" where
  [policy_simps]: "CanUsePinnedRequiredStub enabled canonicalRegistration filePinned payloadAvailable
     compressedBytes \<longleftrightarrow>
     enabled \<and> canonicalRegistration \<and> filePinned \<and> payloadAvailable \<and> 32 \<le> compressedBytes"

text \<open>
  The generic index operations: \<^verbatim>\<open>Index\<close> is an \<^verbatim>\<open>unordered_set\<close> of paths,
  \<^verbatim>\<open>Files\<close> an \<^verbatim>\<open>unordered_map\<close> keyed by path.
\<close>

definition UpdateNativeDeltaIndex :: "'k set \<Rightarrow> 'k \<Rightarrow> bool \<Rightarrow> 'k set" where
  "UpdateNativeDeltaIndex nativeDeltas key nativeDelta =
     (if nativeDelta then insert key nativeDeltas else nativeDeltas - {key})"

definition MarkBasePathsNative :: "'k set \<Rightarrow> ('k \<rightharpoonup> 'v) \<Rightarrow> 'k set" where
  "MarkBasePathsNative nativeDeltas baseFiles = nativeDeltas \<union> dom baseFiles"

datatype BaselineHashDisposition = ReusePublished | OverrideCached | OverrideComputed

definition SelectBaselineHashDisposition :: "bool \<Rightarrow> bool \<Rightarrow> BaselineHashDisposition" where
  "SelectBaselineHashDisposition publishedMatches cachedIdentity =
     (if publishedMatches then ReusePublished
      else if cachedIdentity then OverrideCached else OverrideComputed)"

section \<open>Lanes\<close>

datatype Lane = NativeRescue | NativeOptOut | NativeRecovery | RequiredLane

datatype BaseAvailability = Missing | Unusable | Ready

datatype Action = ActNative | ActCanonicalStub | ActReject

definition ResolveLane :: "bool \<Rightarrow> bool \<Rightarrow> string option \<Rightarrow> Lane" where
  "ResolveLane required allowOptOut tvNoChat =
     (let optedOut = allowOptOut \<and> tvNoChat = Some ''no_gluapack''
      in if optedOut then NativeOptOut else if required then RequiredLane else NativeRescue)"

record 'client ResolvedClientLane =
  rcl_client :: "'client option"
  rcl_lane :: Lane

text \<open>
  \<^verbatim>\<open>lookup\<close> resolves a slot to a client; \<open>getUserSetting\<close> is the engine's
  \<^verbatim>\<open>GetUserSetting\<close> of a client object.
\<close>

definition ResolveClientLane ::
  "int \<Rightarrow> bool \<Rightarrow> bool \<Rightarrow> (int \<Rightarrow> 'client option) \<Rightarrow> ('client \<Rightarrow> string \<Rightarrow> string option)
     \<Rightarrow> 'client ResolvedClientLane" where
  "ResolveClientLane slot required allowOptOut lookup getUserSetting =
     (let client = lookup slot
      in \<lparr>rcl_client = client,
          rcl_lane = ResolveLane required allowOptOut
            (case client of Some c \<Rightarrow> getUserSetting c ''tv_nochat'' | None \<Rightarrow> None)\<rparr>)"

definition CanConsumeRequiredRecovery :: "bool \<Rightarrow> bool \<Rightarrow> bool" where
  [policy_simps]: "CanConsumeRequiredRecovery recoveryEnabled resolvedIdentity \<longleftrightarrow>
     recoveryEnabled \<and> resolvedIdentity"

definition NeedsConnectionEpochAtBaseline :: "u64 \<Rightarrow> bool" where
  [policy_simps]: "NeedsConnectionEpochAtBaseline connectionSerial \<longleftrightarrow> connectionSerial = 0"

definition ShouldPinCurrentBaseForBaseline :: "Lane \<Rightarrow> bool \<Rightarrow> bool \<Rightarrow> bool" where
  [policy_simps]: "ShouldPinCurrentBaseForBaseline lane hasPinnedBase currentBaseAvailable \<longleftrightarrow>
     lane = RequiredLane \<and> \<not> hasPinnedBase \<and> currentBaseAvailable"

definition RequiredFailureIdentityReady :: "bool \<Rightarrow> bool \<Rightarrow> bool \<Rightarrow> bool" where
  [policy_simps]: "RequiredFailureIdentityReady recoveryEnabled resolvedIdentity authenticatedIdentity \<longleftrightarrow>
     \<not> recoveryEnabled \<or> (resolvedIdentity \<and> authenticatedIdentity)"

definition RequiredFailureIdentityMatches :: "bool \<Rightarrow> u64 \<Rightarrow> u64 \<Rightarrow> bool" where
  [policy_simps]: "RequiredFailureIdentityMatches previouslyResolved expectedAccount authenticatedAccount \<longleftrightarrow>
     authenticatedAccount \<noteq> 0 \<and>
     (\<not> previouslyResolved \<or> expectedAccount = authenticatedAccount)"

definition RejectUnavailableRequiredAdmission :: "bool \<Rightarrow> bool \<Rightarrow> bool \<Rightarrow> bool" where
  [policy_simps]: "RejectUnavailableRequiredAdmission enabled required canonicalRegistration \<longleftrightarrow>
     enabled \<and> required \<and> \<not> canonicalRegistration"

definition UsesCanonicalRegistration :: "bool \<Rightarrow> bool \<Rightarrow> bool" where
  [policy_simps]: "UsesCanonicalRegistration enabled canonicalRegistration \<longleftrightarrow>
     enabled \<and> canonicalRegistration"

definition UsesPassthroughProcessing :: "bool \<Rightarrow> bool" where
  [policy_simps]: "UsesPassthroughProcessing enabled \<longleftrightarrow> enabled"

definition RegistrationModeMatches :: "bool \<Rightarrow> bool \<Rightarrow> bool \<Rightarrow> bool \<Rightarrow> bool" where
  [policy_simps]: "RegistrationModeMatches cachedCanonical cachedPassthrough enabled canonicalRegistration \<longleftrightarrow>
     cachedCanonical = UsesCanonicalRegistration enabled canonicalRegistration \<and>
     cachedPassthrough = UsesPassthroughProcessing enabled"

definition RegistrationNeedsHashPublication ::
  "bool \<Rightarrow> bool \<Rightarrow> bool \<Rightarrow> bool \<Rightarrow> bool \<Rightarrow> bool \<Rightarrow> bool \<Rightarrow> bool" where
  [policy_simps]: "RegistrationNeedsHashPublication cachedCanonical cachedPassthrough hasSource
     contentReady hashPublished enabled canonicalRegistration \<longleftrightarrow>
     \<not> hasSource \<or> \<not> contentReady \<or> \<not> hashPublished \<or>
     \<not> RegistrationModeMatches cachedCanonical cachedPassthrough enabled canonicalRegistration"

definition NeedsOrderedCanonicalHash :: "bool \<Rightarrow> bool \<Rightarrow> bool \<Rightarrow> bool" where
  [policy_simps]: "NeedsOrderedCanonicalHash clientActive nativeHashKnown publishedHashMatchesCanonical \<longleftrightarrow>
     clientActive \<or> nativeHashKnown \<or> publishedHashMatchesCanonical"

section \<open>Baseline and file decisions\<close>

definition NeedsPerClientNativeHashes :: "Lane \<Rightarrow> bool" where
  "NeedsPerClientNativeHashes lane \<longleftrightarrow>
     lane = RequiredLane \<or> lane = NativeRecovery \<or> lane = NativeOptOut \<or> lane = NativeRescue"

definition ShouldPreserveRecoveryLifecycle ::
  "bool \<Rightarrow> bool \<Rightarrow> bool \<Rightarrow> bool \<Rightarrow> bool \<Rightarrow> bool \<Rightarrow> bool" where
  [policy_simps]: "ShouldPreserveRecoveryLifecycle gameLayerCallback nativeRecovery active
     recoveryStateCleared identityMatches ownsConsumedRecovery \<longleftrightarrow>
     gameLayerCallback \<and> nativeRecovery \<and> \<not> active \<and> \<not> recoveryStateCleared \<and>
     identityMatches \<and> ownsConsumedRecovery"

definition ShouldKeepInvokedRecoveryHandoff :: "bool \<Rightarrow> bool \<Rightarrow> bool" where
  [policy_simps]: "ShouldKeepInvokedRecoveryHandoff gameLayerCallback invoked \<longleftrightarrow>
     gameLayerCallback \<and> invoked"

definition ShouldIgnoreLateRecoveryFailure :: "bool \<Rightarrow> bool \<Rightarrow> bool \<Rightarrow> bool" where
  [policy_simps]: "ShouldIgnoreLateRecoveryFailure nativeRecovery ownsConsumedRecovery recoveryStateCleared \<longleftrightarrow>
     nativeRecovery \<and> (ownsConsumedRecovery \<or> recoveryStateCleared)"

text \<open>Seconds are real numbers; the clock arithmetic of the file needs no rounding beyond \<open>* 0.5\<close>.\<close>

definition RecoveryHandoffWindow :: "real \<Rightarrow> real" where
  "RecoveryHandoffWindow recoveryTtlSeconds =
     (if recoveryTtlSeconds \<le> 0 then 0
      else let halfTtl = recoveryTtlSeconds * (1 / 2)
           in if halfTtl < 30 then halfTtl else 30)"

definition SelectBaseline :: "Lane \<Rightarrow> bool \<Rightarrow> BaseAvailability \<Rightarrow> Action" where
  "SelectBaseline lane canonicalRegistration base =
     (if lane \<noteq> RequiredLane then ActNative
      else if \<not> canonicalRegistration \<or> base \<noteq> Ready then ActReject else ActCanonicalStub)"

definition SelectFile :: "Lane \<Rightarrow> bool \<Rightarrow> BaseAvailability \<Rightarrow> bool \<Rightarrow> bool \<Rightarrow> Action" where
  "SelectFile lane canonicalRegistration base bootstrap nativeDelta =
     (if lane \<noteq> RequiredLane then ActNative
      else if \<not> canonicalRegistration \<or> base \<noteq> Ready then ActReject
      else if bootstrap \<or> nativeDelta then ActNative else ActCanonicalStub)"

definition ShouldBuildMapBase :: "bool \<Rightarrow> bool \<Rightarrow> bool" where
  [policy_simps]: "ShouldBuildMapBase hasMapBase buildRequested \<longleftrightarrow> \<not> hasMapBase \<and> buildRequested"

definition IsNativeDelta :: "bool \<Rightarrow> string \<Rightarrow> string \<Rightarrow> bool" where
  [policy_simps]: "IsNativeDelta baseContainsPath baseIdentity currentIdentity \<longleftrightarrow>
     \<not> baseContainsPath \<or> baseIdentity \<noteq> currentIdentity"

text \<open>\<^verbatim>\<open>unordered_set::insert(...).second\<close>: whether the key was new.\<close>

definition RegisterExactKey :: "'k set \<Rightarrow> 'k \<Rightarrow> bool \<times> 'k set" where
  "RegisterExactKey keys key = (key \<notin> keys, insert key keys)"

text \<open>A file is rejected exactly when its baseline is, whatever the file is.\<close>

lemma SelectFile_Reject_iff:
  "SelectFile lane canon base boot delta = ActReject \<longleftrightarrow> SelectBaseline lane canon base = ActReject"
  by (simp add: SelectFile_def SelectBaseline_def)

lemma SelectFile_Stub_iff:
  "SelectFile lane canon base boot delta = ActCanonicalStub \<longleftrightarrow>
     SelectBaseline lane canon base = ActCanonicalStub \<and> \<not> boot \<and> \<not> delta"
  by (simp add: SelectFile_def SelectBaseline_def)

lemma SelectFile_lane: "lane \<noteq> RequiredLane \<Longrightarrow> SelectFile lane canon base boot delta = ActNative"
  by (simp add: SelectFile_def)

lemma SelectBaseline_lane: "lane \<noteq> RequiredLane \<Longrightarrow> SelectBaseline lane canon base = ActNative"
  by (simp add: SelectBaseline_def)

lemma NeedsPerClientNativeHashes_all: "NeedsPerClientNativeHashes lane"
  by (cases lane) (simp_all add: NeedsPerClientNativeHashes_def)

section \<open>Active refreshes\<close>

datatype ActiveHashRefreshAction = RefreshNone | RefreshNative | RefreshCanonical

datatype ActiveHashRefreshEntryAction = EntryRetry | EntryRepairForcedSourceHash | EntryReady

record ActiveHashRefreshAttemptBudget =
  ahb_limit :: size_t
  ahb_attempts :: size_t

definition ActiveHashRefreshAttemptBudget_new :: "size_t \<Rightarrow> ActiveHashRefreshAttemptBudget" where
  "ActiveHashRefreshAttemptBudget_new limit =
     \<lparr>ahb_limit = (if limit = 0 then 1 else limit), ahb_attempts = 0\<rparr>"

definition ActiveHashRefreshAttemptBudget_TryConsume ::
  "ActiveHashRefreshAttemptBudget \<Rightarrow> bool \<times> ActiveHashRefreshAttemptBudget" where
  "ActiveHashRefreshAttemptBudget_TryConsume b =
     (if ahb_limit b \<le> ahb_attempts b then (False, b)
      else (True, b\<lparr>ahb_attempts := ahb_attempts b + 1\<rparr>))"

definition ActiveHashRefreshAttemptBudget_Exhausted :: "ActiveHashRefreshAttemptBudget \<Rightarrow> bool" where
  "ActiveHashRefreshAttemptBudget_Exhausted b \<longleftrightarrow> ahb_limit b \<le> ahb_attempts b"

definition NextActiveHashRefreshSlot :: "int \<Rightarrow> int \<Rightarrow> int" where
  "NextActiveHashRefreshSlot attemptedSlot slotCount =
     (if 0 \<le> attemptedSlot \<and> attemptedSlot + 1 < slotCount then attemptedSlot + 1 else 0)"

definition SelectActiveHashRefreshEntryAction ::
  "bool \<Rightarrow> bool \<Rightarrow> bool \<Rightarrow> bool \<Rightarrow> bool \<Rightarrow> bool \<Rightarrow> ActiveHashRefreshEntryAction" where
  "SelectActiveHashRefreshEntryAction forceRefresh passthrough hasSource sourceHashReady
     contentHashReady hashPublished =
     (if \<not> hasSource \<or> \<not> contentHashReady \<or> \<not> hashPublished then EntryRetry
      else if \<not> sourceHashReady
      then (if forceRefresh \<and> passthrough then EntryRepairForcedSourceHash else EntryRetry)
      else EntryReady)"

definition ShouldQueueActiveHashRefresh ::
  "bool \<Rightarrow> bool \<Rightarrow> bool \<Rightarrow> bool \<Rightarrow> bool \<Rightarrow> bool \<Rightarrow> bool" where
  [policy_simps]: "ShouldQueueActiveHashRefresh enabled canonicalRegistration registrationTransition
     publishedHashChanged initFile forceRefresh \<longleftrightarrow>
     enabled \<and> canonicalRegistration \<and> registrationTransition \<and>
     (\<not> publishedHashChanged \<or> forceRefresh) \<and> \<not> initFile"

definition ShouldCaptureAutoRefresh :: "bool \<Rightarrow> bool \<Rightarrow> bool \<Rightarrow> bool \<Rightarrow> bool \<Rightarrow> bool" where
  [policy_simps]: "ShouldCaptureAutoRefresh enabled canonicalRegistration existingRegistration
     sourceReadable sourceChanged \<longleftrightarrow>
     enabled \<and> canonicalRegistration \<and> existingRegistration \<and> sourceReadable \<and> sourceChanged"

definition ShouldQueueExplicitRefreshRecovery ::
  "bool \<Rightarrow> bool \<Rightarrow> bool \<Rightarrow> bool \<Rightarrow> bool \<Rightarrow> bool \<Rightarrow> bool" where
  [policy_simps]: "ShouldQueueExplicitRefreshRecovery explicitRecovery enabled canonicalRegistration
     existingRegistration sourceReadable sourceChanged \<longleftrightarrow>
     explicitRecovery \<and> enabled \<and> canonicalRegistration \<and> existingRegistration \<and>
     sourceReadable \<and> \<not> sourceChanged"

text \<open>Pointers are 64-bit addresses, \<^verbatim>\<open>nullptr\<close> is 0.\<close>

record ActiveLuaRefreshOwner =
  alro_client :: u64
  alro_channel :: u64
  alro_userID :: int
  alro_challenge :: int

definition ActiveLuaRefreshOwner_IsValid :: "ActiveLuaRefreshOwner \<Rightarrow> bool" where
  "ActiveLuaRefreshOwner_IsValid o' \<longleftrightarrow> alro_client o' \<noteq> 0 \<and> alro_channel o' \<noteq> 0"

definition ActiveLuaRefreshOwner_Matches ::
  "ActiveLuaRefreshOwner \<Rightarrow> ActiveLuaRefreshOwner \<Rightarrow> bool" where
  "ActiveLuaRefreshOwner_Matches self other \<longleftrightarrow>
     ActiveLuaRefreshOwner_IsValid self \<and> ActiveLuaRefreshOwner_IsValid other \<and>
     alro_client self = alro_client other \<and> alro_channel self = alro_channel other \<and>
     alro_userID self = alro_userID other \<and> alro_challenge self = alro_challenge other"

text \<open>\<^verbatim>\<open>ActiveLuaRefreshTargets<SlotCount>\<close>: the owners captured when a publication was queued.\<close>

type_synonym ActiveLuaRefreshTargets = "int \<rightharpoonup> ActiveLuaRefreshOwner"

definition ActiveLuaRefreshTargets_Capture ::
  "int \<Rightarrow> int \<Rightarrow> ActiveLuaRefreshOwner \<Rightarrow> ActiveLuaRefreshTargets \<Rightarrow> ActiveLuaRefreshTargets" where
  "ActiveLuaRefreshTargets_Capture SlotCount slot o' owners =
     (if 0 \<le> slot \<and> slot < SlotCount \<and> ActiveLuaRefreshOwner_IsValid o'
      then owners(slot \<mapsto> o') else owners)"

definition ActiveLuaRefreshTargets_Empty :: "ActiveLuaRefreshTargets \<Rightarrow> bool" where
  "ActiveLuaRefreshTargets_Empty owners \<longleftrightarrow> dom owners = {}"

definition ActiveLuaRefreshTargets_Matches ::
  "int \<Rightarrow> ActiveLuaRefreshOwner \<Rightarrow> ActiveLuaRefreshTargets \<Rightarrow> bool" where
  "ActiveLuaRefreshTargets_Matches slot current owners \<longleftrightarrow>
     (case owners slot of None \<Rightarrow> False | Some found \<Rightarrow> ActiveLuaRefreshOwner_Matches found current)"

section \<open>Advertised hashes\<close>

definition NativeHashMatches :: "(int \<rightharpoonup> 'h) \<Rightarrow> int \<Rightarrow> 'h \<Rightarrow> bool" where
  "NativeHashMatches hashes fileID current \<longleftrightarrow>
     (case hashes fileID of None \<Rightarrow> False | Some known \<Rightarrow> known = current)"

definition LatestAdvertisedHashMatches ::
  "(int \<rightharpoonup> 'h) \<Rightarrow> (int \<rightharpoonup> 'h) \<Rightarrow> int \<Rightarrow> 'h \<Rightarrow> bool" where
  "LatestAdvertisedHashMatches nativeHashes pendingHashes fileID current \<longleftrightarrow>
     (case pendingHashes fileID of
        Some pending \<Rightarrow> pending = current
      | None \<Rightarrow> NativeHashMatches nativeHashes fileID current)"

definition SelectActiveHashRefresh ::
  "bool \<Rightarrow> Action \<Rightarrow> (int \<rightharpoonup> 'h) \<Rightarrow> (int \<rightharpoonup> 'h) \<Rightarrow> int \<Rightarrow> 'h \<Rightarrow> 'h \<Rightarrow> bool
     \<Rightarrow> ActiveHashRefreshAction" where
  "SelectActiveHashRefresh clientActive fileAction nativeHashes pendingHashes fileID nativeHash
     canonicalHash forceRefresh =
     (if \<not> clientActive then RefreshNone
      else if fileAction = ActNative
      then (if \<not> forceRefresh \<and>
               LatestAdvertisedHashMatches nativeHashes pendingHashes fileID nativeHash
            then RefreshNone else RefreshNative)
      else if fileAction = ActCanonicalStub
      then (let needsRestore = (case pendingHashes fileID of
                  Some pending \<Rightarrow> pending \<noteq> canonicalHash
                | None \<Rightarrow> nativeHashes fileID \<noteq> None)
            in if forceRefresh \<or> needsRestore then RefreshCanonical else RefreshNone)
      else RefreshNone)"

definition RememberNativeHash :: "(int \<rightharpoonup> 'h) \<Rightarrow> int \<Rightarrow> 'h \<Rightarrow> (int \<rightharpoonup> 'h)" where
  "RememberNativeHash hashes fileID current = hashes(fileID \<mapsto> current)"

definition RestoreCanonicalHash :: "(int \<rightharpoonup> 'h) \<Rightarrow> int \<Rightarrow> bool \<times> (int \<rightharpoonup> 'h)" where
  "RestoreCanonicalHash hashes fileID = (hashes fileID \<noteq> None, hashes(fileID := None))"

section \<open>Properties\<close>

lemma BoundedRegistrationRefreshEnd_unat:
  "unat n \<le> unat totalN \<Longrightarrow>
     unat (BoundedRegistrationRefreshEnd n totalN budget) = min (unat totalN) (unat n + unat budget)"
proof (cases "totalN \<le> n \<or> budget = 0")
  case True
  moreover assume "unat n \<le> unat totalN"
  ultimately show ?thesis
    by (auto simp: BoundedRegistrationRefreshEnd_def min_def size_simps)
next
  case False
  assume le: "unat n \<le> unat totalN"
  show ?thesis
  proof (cases "totalN - n \<le> budget")
    case True
    then show ?thesis using False le
      by (simp add: BoundedRegistrationRefreshEnd_def size_simps)
  next
    case False': False
    then have "unat n + unat budget < unat totalN"
      using le by (simp add: size_simps)
    moreover have "unat totalN < 2 ^ 64" using unsigned_less [of totalN] by simp
    ultimately have "unat (n + budget) = unat n + unat budget"
      by (intro unat_add_no_overflow) simp
    then show ?thesis
      using False False' \<open>unat n + unat budget < unat totalN\<close>
      by (simp add: BoundedRegistrationRefreshEnd_def)
  qed
qed

lemma BoundedRegistrationRefreshEnd_iterate:
  "unat n \<le> unat totalN \<Longrightarrow>
     unat (((\<lambda>n. BoundedRegistrationRefreshEnd n totalN budget) ^^ k) n) =
       min (unat totalN) (unat n + k * unat budget)"
proof (induction k)
  case 0
  then show ?case by simp
next
  case (Suc k)
  then show ?case
    by (simp add: BoundedRegistrationRefreshEnd_unat)
qed

text \<open>
  The registration sweep is exact and never overflows.  Starting at the first real entry of
  \<^verbatim>\<open>client_lua_files\<close> (index 0 is the engine's sentinel), \<open>k\<close> frames of the
  bounded sweep reach exactly the smaller of the table size and \<open>k\<close> budgets past the
  start, so every frame with work left and a non-zero budget advances, no entry is skipped or
  visited twice, and \<open>size_t\<close> arithmetic does not wrap even for extreme budgets.
\<close>

theorem registration_sweep_progress:
  "unat (((\<lambda>n. BoundedRegistrationRefreshEnd n totalN budget) ^^ k) (FirstClientLuaRegistration totalN)) =
   min (unat totalN) (unat (FirstClientLuaRegistration totalN) + k * unat budget)"
proof (rule BoundedRegistrationRefreshEnd_iterate)
  show "unat (FirstClientLuaRegistration totalN) \<le> unat totalN"
  proof (cases "totalN = 0")
    case False
    then have "0 < unat totalN" by (simp add: unat_gt_0)
    then show ?thesis using False by (simp add: FirstClientLuaRegistration_def)
  qed (simp add: FirstClientLuaRegistration_def)
qed

end
