(* ===== verification/RefreshDrain.thy ===== *)
theory RefreshDrain
  imports DeliveryPolicy
begin

text \<open>
  The drain of active hash refreshes for one file
  (\<^verbatim>\<open>DrainActiveLuaHashRefreshes\<close> in \<^verbatim>\<open>source/modules/gmoddatapack.cpp\<close>): the
  loop over the player slots, with its attempt budget, forced and failed slots, the hash
  bookkeeping per client, and the decision whether and where the file is retried.  The
  channels are outside the model: sending a transaction is a function of a channel state.
\<close>

section \<open>Definitions\<close>

datatype ActiveLuaRefreshResult = Appended | RetryLater | RejectRefresh

text \<open>
  What the loop reads of the world: whether the slot is still held by the owner captured when
  the publication was queued, the per-file baseline action of the client, and staging the hash
  and body for a slot (native or canonical) on the channels.
\<close>

record ('h, 'x) drain_env =
  de_matches :: "int \<Rightarrow> bool"
  de_action :: "int \<Rightarrow> Action"
  de_send :: "int \<Rightarrow> bool \<Rightarrow> 'h \<Rightarrow> 'x \<Rightarrow> ActiveLuaRefreshResult \<times> 'x"

record ('h, 'x) drain_state =
  ds_nativeHashes :: "int \<Rightarrow> (int \<rightharpoonup> 'h)"
  ds_pendingHashes :: "int \<Rightarrow> (int \<rightharpoonup> 'h)"
  ds_forcedSlots :: bitset
  ds_failedSlots :: bitset
  ds_attemptBudget :: ActiveHashRefreshAttemptBudget
  ds_resumeSlot :: int
  ds_deferredForBudget :: bool
  ds_updatedFile :: bool
  ds_nativeUpdates :: nat
  ds_canonicalUpdates :: nat
  ds_failedAttempts :: nat
  ds_channels :: 'x
  ds_disconnected :: "int list"

definition reset_slot :: "int \<Rightarrow> ('h, 'x) drain_state \<Rightarrow> ('h, 'x) drain_state" where
  "reset_slot slot s =
     s\<lparr>ds_forcedSlots := (ds_forcedSlots s)[nat slot := False],
       ds_failedSlots := (ds_failedSlots s)[nat slot := False]\<rparr>"

text \<open>The bookkeeping after both the hash and the matching body were appended.\<close>

definition SettleActiveRefresh ::
  "bool \<Rightarrow> int \<Rightarrow> int \<Rightarrow> 'h \<Rightarrow> ('h, 'x) drain_state \<Rightarrow> ('h, 'x) drain_state" where
  "SettleActiveRefresh native slot fileID desiredHash s =
     (let s1 = s\<lparr>ds_pendingHashes := (ds_pendingHashes s)(slot := (ds_pendingHashes s slot)(fileID := None))\<rparr>;
          s2 = (if native
                then s1\<lparr>ds_nativeHashes := (ds_nativeHashes s1)(slot :=
                          RememberNativeHash (ds_nativeHashes s1 slot) fileID desiredHash),
                        ds_nativeUpdates := ds_nativeUpdates s1 + 1\<rparr>
                else s1\<lparr>ds_nativeHashes := (ds_nativeHashes s1)(slot :=
                          snd (RestoreCanonicalHash (ds_nativeHashes s1 slot) fileID)),
                        ds_canonicalUpdates := ds_canonicalUpdates s1 + 1\<rparr>)
      in reset_slot slot (s2\<lparr>ds_updatedFile := True\<rparr>))"

text \<open>One iteration of the slot loop; the flag is false at the \<^verbatim>\<open>break\<close>.\<close>

definition drain_slot ::
  "('h, 'x) drain_env \<Rightarrow> int \<Rightarrow> int \<Rightarrow> 'h \<Rightarrow> 'h \<Rightarrow> int \<Rightarrow> ('h, 'x) drain_state
     \<Rightarrow> bool \<times> ('h, 'x) drain_state" where
  "drain_slot E SlotCount fileID sourceHash canonicalHash slot s =
     (if \<not> de_matches E slot then (True, reset_slot slot s)
      else
        (let forceRefresh = ds_forcedSlots s ! nat slot;
             refresh = SelectActiveHashRefresh True (de_action E slot) (ds_nativeHashes s slot)
               (ds_pendingHashes s slot) fileID sourceHash canonicalHash forceRefresh
         in if refresh = RefreshNone then (True, reset_slot slot s)
            else
              (let (consumed, budget) = ActiveHashRefreshAttemptBudget_TryConsume (ds_attemptBudget s)
               in if \<not> consumed then (False, s\<lparr>ds_deferredForBudget := True, ds_resumeSlot := slot\<rparr>)
                  else
                    (let native = (refresh = RefreshNative);
                         desiredHash = (if native then sourceHash else canonicalHash);
                         (result, channels) = de_send E slot native desiredHash (ds_channels s);
                         s1 = s\<lparr>ds_attemptBudget := budget, ds_channels := channels,
                                ds_resumeSlot := NextActiveHashRefreshSlot slot SlotCount\<rparr>
                     in (True,
                         case result of
                           RetryLater \<Rightarrow>
                             s1\<lparr>ds_failedSlots := (ds_failedSlots s1)[nat slot := True],
                                ds_failedAttempts := ds_failedAttempts s1 + 1\<rparr>
                         | RejectRefresh \<Rightarrow>
                             reset_slot slot (s1\<lparr>ds_disconnected := ds_disconnected s1 @ [slot]\<rparr>)
                         | Appended \<Rightarrow> SettleActiveRefresh native slot fileID desiredHash s1)))))"

fun drain_slots ::
  "('h, 'x) drain_env \<Rightarrow> int \<Rightarrow> int \<Rightarrow> 'h \<Rightarrow> 'h \<Rightarrow> int list \<Rightarrow> ('h, 'x) drain_state
     \<Rightarrow> ('h, 'x) drain_state" where
  "drain_slots E SlotCount fileID sourceHash canonicalHash [] s = s"
| "drain_slots E SlotCount fileID sourceHash canonicalHash (slot # slots) s =
     (let (continue, s') = drain_slot E SlotCount fileID sourceHash canonicalHash slot s
      in if continue then drain_slots E SlotCount fileID sourceHash canonicalHash slots s' else s')"

definition firstFailedSlot :: "bitset \<Rightarrow> int" where
  "firstFailedSlot failedSlots =
     (case find (\<lambda>i. failedSlots ! i) [0..<length failedSlots] of None \<Rightarrow> 0 | Some i \<Rightarrow> int i)"

text \<open>
  One file of the drain, from \<open>startSlot\<close>: the slot loop, then the retry entry (next slot,
  forced slots, failed slots, and whether the pass was completed so the retry is delayed).
\<close>

record drain_retry =
  dr_nextSlot :: int
  dr_forcedSlots :: bitset
  dr_failedSlots :: bitset
  dr_delayed :: bool

definition drain_file ::
  "('h, 'x) drain_env \<Rightarrow> int \<Rightarrow> int \<Rightarrow> 'h \<Rightarrow> 'h \<Rightarrow> int \<Rightarrow> ('h, 'x) drain_state
     \<Rightarrow> drain_retry option \<times> ('h, 'x) drain_state" where
  "drain_file E SlotCount fileID sourceHash canonicalHash startSlot s0 =
     (let s = drain_slots E SlotCount fileID sourceHash canonicalHash [startSlot..SlotCount - 1]
                (s0\<lparr>ds_updatedFile := False, ds_deferredForBudget := False, ds_resumeSlot := startSlot\<rparr>)
      in if ds_deferredForBudget s \<or> True \<in> set (ds_failedSlots s)
         then (let completedPass = \<not> ds_deferredForBudget s;
                   resumeSlot = (if completedPass then firstFailedSlot (ds_failedSlots s)
                                 else ds_resumeSlot s)
               in (Some \<lparr>dr_nextSlot = resumeSlot, dr_forcedSlots = ds_forcedSlots s,
                         dr_failedSlots = ds_failedSlots s, dr_delayed = completedPass\<rparr>, s))
         else (None, s))"

section \<open>What a pass leaves behind\<close>

text \<open>The identity a client holds for a file: a pending update, else a native hash, else the canonical one.\<close>

definition advertised_hash :: "'h \<Rightarrow> int \<Rightarrow> int \<Rightarrow> ('h, 'x) drain_state \<Rightarrow> 'h" where
  "advertised_hash canonicalHash fileID slot s =
     (case ds_pendingHashes s slot fileID of Some h \<Rightarrow> h
      | None \<Rightarrow> (case ds_nativeHashes s slot fileID of Some h \<Rightarrow> h | None \<Rightarrow> canonicalHash))"

definition desired_hash :: "('h, 'x) drain_env \<Rightarrow> 'h \<Rightarrow> 'h \<Rightarrow> int \<Rightarrow> 'h" where
  "desired_hash E sourceHash canonicalHash slot =
     (if de_action E slot = ActNative then sourceHash else canonicalHash)"

text \<open>Recipients the pass is responsible for and has not brought up to date.\<close>

definition unsettled ::
  "('h, 'x) drain_env \<Rightarrow> int \<Rightarrow> 'h \<Rightarrow> 'h \<Rightarrow> ('h, 'x) drain_state \<Rightarrow> int set" where
  "unsettled E fileID sourceHash canonicalHash s =
     {slot. de_matches E slot \<and> de_action E slot \<noteq> ActReject \<and> slot \<notin> set (ds_disconnected s) \<and>
        advertised_hash canonicalHash fileID slot s \<noteq> desired_hash E sourceHash canonicalHash slot}"

definition failed_set :: "('h, 'x) drain_state \<Rightarrow> int set" where
  "failed_set s = int ` bitset_elems (ds_failedSlots s)"

text \<open>One iteration touches only its own slot.\<close>

definition same_slot :: "int \<Rightarrow> ('h, 'x) drain_state \<Rightarrow> ('h, 'x) drain_state \<Rightarrow> bool" where
  "same_slot slot s s' \<longleftrightarrow>
     ds_nativeHashes s' slot = ds_nativeHashes s slot \<and>
     ds_pendingHashes s' slot = ds_pendingHashes s slot \<and>
     (slot \<in> set (ds_disconnected s') \<longleftrightarrow> slot \<in> set (ds_disconnected s)) \<and>
     (slot \<in> failed_set s' \<longleftrightarrow> slot \<in> failed_set s)"

lemma same_slot_refl [simp]: "same_slot x s s"
  by (simp add: same_slot_def)

lemma same_slot_trans: "same_slot x s s' \<Longrightarrow> same_slot x s' s'' \<Longrightarrow> same_slot x s s''"
  by (simp add: same_slot_def)

lemma same_slot_unsettled:
  "same_slot x s s' \<Longrightarrow>
     x \<in> unsettled E fileID h c s' \<longleftrightarrow> x \<in> unsettled E fileID h c s"
  by (simp add: same_slot_def unsettled_def advertised_hash_def cong: option.case_cong)

lemma int_neq_nat: "0 \<le> x \<Longrightarrow> x \<noteq> int i \<Longrightarrow> nat x \<noteq> i"
  by auto

lemma drain_slot_length [simp]:
  "length (ds_failedSlots (snd (drain_slot E n f h c x s))) = length (ds_failedSlots s)"
  "length (ds_forcedSlots (snd (drain_slot E n f h c x s))) = length (ds_forcedSlots s)"
  by (auto simp: drain_slot_def reset_slot_def SettleActiveRefresh_def Let_def
      split: ActiveLuaRefreshResult.splits prod.splits)

lemma drain_slot_same:
  assumes "y \<noteq> x" and "0 \<le> x"
  shows "same_slot y s (snd (drain_slot E n f h c x s))"
proof -
  have idx: "y \<in> int ` bitset_elems (b[nat x := v]) \<longleftrightarrow> y \<in> int ` bitset_elems b" for b v
    using assms by (auto simp: bitset_elems_def nth_list_update image_iff split: if_splits)
  show ?thesis
    using assms by (auto simp: same_slot_def failed_set_def idx drain_slot_def reset_slot_def
      SettleActiveRefresh_def Let_def split: ActiveLuaRefreshResult.splits prod.splits)
qed

text \<open>An iteration that does not break leaves its slot settled, or marked as failed.\<close>

lemma drain_slot_settles:
  assumes "drain_slot E n f h c x s = (True, s')" and "0 \<le> x" and "nat x < length (ds_failedSlots s)"
  shows "x \<in> unsettled E f h c s' \<longrightarrow> x \<in> failed_set s'"
proof (cases "de_action E x")
  case ActReject
  then show ?thesis by (simp add: unsettled_def)
next
  case ActNative
  then show ?thesis
    using assms
    by (auto simp: drain_slot_def unsettled_def advertised_hash_def desired_hash_def failed_set_def
        reset_slot_def SettleActiveRefresh_def SelectActiveHashRefresh_def LatestAdvertisedHashMatches_def
        NativeHashMatches_def RememberNativeHash_def Let_def image_iff
        split: if_splits option.splits ActiveLuaRefreshResult.splits prod.splits)
next
  case ActCanonicalStub
  then show ?thesis
    using assms
    by (auto simp: drain_slot_def unsettled_def advertised_hash_def desired_hash_def failed_set_def
        reset_slot_def SettleActiveRefresh_def SelectActiveHashRefresh_def RestoreCanonicalHash_def
        Let_def image_iff
        split: if_splits option.splits ActiveLuaRefreshResult.splits prod.splits)
qed

lemma drain_slot_break:
  assumes "drain_slot E n f h c x s = (False, s')"
  shows "s' = s\<lparr>ds_deferredForBudget := True, ds_resumeSlot := x\<rparr>"
  using assms by (auto simp: drain_slot_def Let_def split: if_splits prod.splits)

lemma drain_slot_budget:
  "ahb_limit (ds_attemptBudget (snd (drain_slot E n f h c x s))) = ahb_limit (ds_attemptBudget s)"
  "ahb_attempts (ds_attemptBudget s) \<le> ahb_limit (ds_attemptBudget s) \<Longrightarrow>
     ahb_attempts (ds_attemptBudget (snd (drain_slot E n f h c x s))) \<le> ahb_limit (ds_attemptBudget s)"
  by (auto simp: drain_slot_def reset_slot_def SettleActiveRefresh_def Let_def
      ActiveHashRefreshAttemptBudget_TryConsume_def not_le inc_le
      split: ActiveLuaRefreshResult.splits prod.splits if_splits)

lemma drain_slots_length [simp]:
  "length (ds_failedSlots (drain_slots E n f h c xs s)) = length (ds_failedSlots s)"
  by (induction xs arbitrary: s) (simp_all add: case_prod_beta Let_def)

lemma drain_slots_same:
  assumes "y \<notin> set xs" and "list_all (\<lambda>x. 0 \<le> x) xs"
  shows "same_slot y s (drain_slots E n f h c xs s)"
  using assms
proof (induction xs arbitrary: s)
  case Nil
  then show ?case by simp
next
  case (Cons x xs)
  obtain go s1 where s1: "drain_slot E n f h c x s = (go, s1)" by fastforce
  have "same_slot y s s1" using drain_slot_same [of y x s E n f h c] Cons.prems s1 by simp
  moreover have "same_slot y s1 (drain_slots E n f h c xs s1)" using Cons by simp
  ultimately show ?case using s1 same_slot_trans by auto
qed

lemma drain_slots_budget:
  "ahb_limit (ds_attemptBudget (drain_slots E n f h c xs s)) = ahb_limit (ds_attemptBudget s)"
  "ahb_attempts (ds_attemptBudget s) \<le> ahb_limit (ds_attemptBudget s) \<Longrightarrow>
     ahb_attempts (ds_attemptBudget (drain_slots E n f h c xs s)) \<le> ahb_limit (ds_attemptBudget s)"
proof (induction xs arbitrary: s)
  case (Cons x xs)
  case 1
  then show ?case
    by (simp add: case_prod_beta Let_def Cons.IH(1) drain_slot_budget(1))
  case 2
  then show ?case
    using Cons.IH(2) [of "snd (drain_slot E n f h c x s)"] drain_slot_budget [where E = E and n = n and f = f and h = h and c = c and x = x and s = s]
    by (simp add: case_prod_beta Let_def)
qed simp_all

lemma drain_slots_settle:
  assumes "sorted xs" and "distinct xs" and "list_all (\<lambda>x. 0 \<le> x \<and> nat x < length (ds_failedSlots s)) xs"
    and "x \<in> set xs" and "x \<in> unsettled E f h c (drain_slots E n f h c xs s)"
  shows "x \<in> failed_set (drain_slots E n f h c xs s) \<or>
    (ds_deferredForBudget (drain_slots E n f h c xs s) \<and> ds_resumeSlot (drain_slots E n f h c xs s) \<le> x)"
  using assms
proof (induction xs arbitrary: s)
  case Nil
  then show ?case by simp
next
  case (Cons y ys)
  obtain go s1 where s1: "drain_slot E n f h c y s = (go, s1)" by fastforce
  show ?case
  proof (cases go)
    case False
    then have "s1 = s\<lparr>ds_deferredForBudget := True, ds_resumeSlot := y\<rparr>"
      using drain_slot_break [of E n f h c y s s1] s1 by simp
    then show ?thesis using Cons.prems(1,4) s1 False by auto
  next
    case True
    let ?s2 = "drain_slots E n f h c ys s1"
    have eq: "drain_slots E n f h c (y # ys) s = ?s2" using s1 True by simp
    have len: "length (ds_failedSlots s1) = length (ds_failedSlots s)"
      using drain_slot_length(1) [of E n f h c y s] s1 by simp
    show ?thesis
    proof (cases "x = y")
      case x: True
      have same: "same_slot x s1 ?s2"
        using Cons.prems(2,3) x by (intro drain_slots_same) (auto simp: list_all_iff)
      have "x \<in> unsettled E f h c s1"
        using Cons.prems(5) same_slot_unsettled [OF same] unfolding eq by simp
      then have "x \<in> failed_set s1"
        using drain_slot_settles [of E n f h c y s s1] s1 True Cons.prems(3) x by simp
      then show ?thesis using same unfolding eq by (simp add: same_slot_def)
    next
      case False
      then show ?thesis
        using Cons.IH [of s1] Cons.prems len unfolding eq by simp
    qed
  qed
qed

lemma firstFailed_le:
  assumes "x \<in> int ` bitset_elems b"
  shows "firstFailedSlot b \<le> x"
proof -
  obtain i where i: "x = int i" "i < length b" "b ! i" using assms by (auto simp: bitset_elems_def)
  obtain j where j: "find (\<lambda>i. b ! i) [0..<length b] = Some j"
    using i by (cases "find (\<lambda>i. b ! i) [0..<length b]") (auto simp: find_None_iff)
  have "j \<le> i" using j i by (force simp: find_Some_iff not_less [symmetric])
  then show ?thesis by (simp add: firstFailedSlot_def j i(1))
qed

lemma firstFailed_less:
  assumes "True \<in> set b"
  shows "firstFailedSlot b < int (length b)"
proof -
  obtain i where "i < length b" "b ! i" using assms by (auto simp: in_set_conv_nth)
  then obtain j where j: "find (\<lambda>i. b ! i) [0..<length b] = Some j"
    by (cases "find (\<lambda>i. b ! i) [0..<length b]") (auto simp: find_None_iff)
  then have "j < length b" by (auto simp: find_Some_iff)
  with j show ?thesis by (simp add: firstFailedSlot_def)
qed

text \<open>A deferred pass resumes at a slot of its own range.\<close>

lemma drain_slots_resume:
  assumes "list_all (\<lambda>x. 0 \<le> x \<and> x < n) xs" and "\<not> ds_deferredForBudget s"
    and "ds_deferredForBudget (drain_slots E n f h c xs s)"
  shows "ds_resumeSlot (drain_slots E n f h c xs s) \<in> set xs"
  using assms
proof (induction xs arbitrary: s)
  case Nil
  then show ?case by simp
next
  case (Cons y ys)
  obtain go s1 where s1: "drain_slot E n f h c y s = (go, s1)" by fastforce
  have "go \<Longrightarrow> \<not> ds_deferredForBudget s1"
    using s1 Cons.prems(2) by (auto simp: drain_slot_def reset_slot_def SettleActiveRefresh_def Let_def
        split: if_splits prod.splits ActiveLuaRefreshResult.splits)
  then show ?case
    using Cons s1 drain_slot_break [of E n f h c y s s1] by (cases go) auto
qed

text \<open>After the slots from \<open>startSlot\<close> on, given that the unsettled ones before it are marked.\<close>

lemma pass_settles:
  assumes "length (ds_failedSlots s0) = nat SlotCount" and "0 \<le> startSlot"
    and "unsettled E fileID sourceHash canonicalHash s0 \<inter> {0..<startSlot} \<subseteq> failed_set s0"
    and s: "s = drain_slots E SlotCount fileID sourceHash canonicalHash [startSlot..SlotCount - 1]
      (s0\<lparr>ds_updatedFile := False, ds_deferredForBudget := False, ds_resumeSlot := startSlot\<rparr>)"
  shows "x < startSlot \<Longrightarrow> ds_nativeHashes s x = ds_nativeHashes s0 x \<and> ds_pendingHashes s x = ds_pendingHashes s0 x"
    and "\<lbrakk>x \<in> unsettled E fileID sourceHash canonicalHash s; x \<in> {0..<SlotCount}\<rbrakk> \<Longrightarrow>
      x \<in> failed_set s \<or> (ds_deferredForBudget s \<and> ds_resumeSlot s \<le> x)"
proof -
  let ?s0 = "s0\<lparr>ds_updatedFile := False, ds_deferredForBudget := False, ds_resumeSlot := startSlot\<rparr>"
  let ?xs = "[startSlot..SlotCount - 1]"
  have xs: "sorted ?xs" "distinct ?xs" "list_all (\<lambda>x. 0 \<le> x \<and> nat x < length (ds_failedSlots ?s0)) ?xs"
    using assms(1,2) by (auto simp: list_all_iff)
  have before: "same_slot x ?s0 s" if "x < startSlot" for x
    unfolding s using that assms(2) by (intro drain_slots_same) (auto simp: list_all_iff)
  then show "x < startSlot \<Longrightarrow> ds_nativeHashes s x = ds_nativeHashes s0 x \<and> ds_pendingHashes s x = ds_pendingHashes s0 x"
    by (simp add: same_slot_def)
  assume x: "x \<in> unsettled E fileID sourceHash canonicalHash s" "x \<in> {0..<SlotCount}"
  show "x \<in> failed_set s \<or> (ds_deferredForBudget s \<and> ds_resumeSlot s \<le> x)"
  proof (cases "startSlot \<le> x")
    case True
    then show ?thesis using drain_slots_settle [OF xs, of x] x unfolding s by simp
  next
    case False
    note same = before [of x]
    have "x \<in> unsettled E fileID sourceHash canonicalHash s0 \<and> (x \<in> failed_set s \<longleftrightarrow> x \<in> failed_set s0)"
      using same_slot_unsettled [OF same] same False x(1)
      by (simp add: same_slot_def failed_set_def unsettled_def advertised_hash_def cong: option.case_cong)
    then show ?thesis using assms(3) x(2) False by auto
  qed
qed

text \<open>
  C22. The drain converges and loses no recipient.  Let the recipients before \<open>startSlot\<close> that are
  not up to date be marked as failed (there are none before slot 0).  Then after one pass every
  recipient, wherever his slot lies, whose advertised hash is not the one his delivery lane calls
  for (native hash for a native file, canonical hash for a stub) is marked as failed in the retry
  entry or lies at or behind the slot the next pass starts from; the slots before that one again
  satisfy the assumption, so the statement carries over from pass to pass; a pass over all slots
  is retried from the first failed slot; and without a retry entry everybody is up to date,
  rejected or disconnected.  The pass never attempts more transactions than the budget, and it
  moves no bookkeeping of a slot before \<open>startSlot\<close>.
\<close>

theorem drain_file_converges:
  assumes "length (ds_failedSlots s0) = nat SlotCount" and "0 \<le> startSlot"
    and "ahb_attempts (ds_attemptBudget s0) \<le> ahb_limit (ds_attemptBudget s0)"
    and "unsettled E fileID sourceHash canonicalHash s0 \<inter> {0..<startSlot} \<subseteq> failed_set s0"
    and "drain_file E SlotCount fileID sourceHash canonicalHash startSlot s0 = (retry, s)"
  shows "(case retry of
      None \<Rightarrow> unsettled E fileID sourceHash canonicalHash s \<inter> {0..<SlotCount} = {}
    | Some r \<Rightarrow>
        unsettled E fileID sourceHash canonicalHash s \<inter> {0..<SlotCount} \<subseteq>
          int ` bitset_elems (dr_failedSlots r) \<union> (if dr_delayed r then {} else {dr_nextSlot r..<SlotCount}) \<and>
        unsettled E fileID sourceHash canonicalHash s \<inter> {0..<dr_nextSlot r} \<subseteq> int ` bitset_elems (dr_failedSlots r) \<and>
        (dr_delayed r \<longrightarrow> (\<forall>slot \<in> int ` bitset_elems (dr_failedSlots r). dr_nextSlot r \<le> slot))) \<and>
    ahb_attempts (ds_attemptBudget s) \<le> ahb_limit (ds_attemptBudget s0) \<and>
    (slot < startSlot \<longrightarrow>
      ds_nativeHashes s slot = ds_nativeHashes s0 slot \<and> ds_pendingHashes s slot = ds_pendingHashes s0 slot)"
proof (intro conjI)
  let ?s0 = "s0\<lparr>ds_updatedFile := False, ds_deferredForBudget := False, ds_resumeSlot := startSlot\<rparr>"
  let ?u = "unsettled E fileID sourceHash canonicalHash s"
  have s: "s = drain_slots E SlotCount fileID sourceHash canonicalHash [startSlot..SlotCount - 1] ?s0"
    using assms(5) by (auto simp: drain_file_def Let_def split: if_splits)
  note settle = pass_settles(2) [OF assms(1,2,4) s]
  have failed: "True \<in> set (ds_failedSlots s)" if "x \<in> failed_set s" for x
    using that by (auto simp: failed_set_def bitset_elems_def in_set_conv_nth)
  have resume: "ds_resumeSlot s < SlotCount" if "ds_deferredForBudget s"
    using drain_slots_resume [of SlotCount "[startSlot..SlotCount - 1]" ?s0 E fileID sourceHash canonicalHash] that assms(2)
    unfolding s by (simp add: list_all_iff)
  have first: "firstFailedSlot (ds_failedSlots s) \<le> x" if "x \<in> failed_set s" for x
    using that firstFailed_le unfolding failed_set_def by blast
  show "case retry of
      None \<Rightarrow> ?u \<inter> {0..<SlotCount} = {}
    | Some r \<Rightarrow>
        ?u \<inter> {0..<SlotCount} \<subseteq>
          int ` bitset_elems (dr_failedSlots r) \<union> (if dr_delayed r then {} else {dr_nextSlot r..<SlotCount}) \<and>
        ?u \<inter> {0..<dr_nextSlot r} \<subseteq> int ` bitset_elems (dr_failedSlots r) \<and>
        (dr_delayed r \<longrightarrow> (\<forall>slot \<in> int ` bitset_elems (dr_failedSlots r). dr_nextSlot r \<le> slot))"
  proof (cases "ds_deferredForBudget s \<or> True \<in> set (ds_failedSlots s)")
    case False
    then have "retry = None" using assms(5) unfolding drain_file_def s [symmetric] Let_def by simp
    moreover have "x \<notin> ?u" if "x \<in> {0..<SlotCount}" for x using settle [OF _ that] failed [of x] False by blast
    ultimately show ?thesis by auto
  next
    case True
    then have r: "retry = Some \<lparr>dr_nextSlot = (if \<not> ds_deferredForBudget s
          then firstFailedSlot (ds_failedSlots s) else ds_resumeSlot s),
        dr_forcedSlots = ds_forcedSlots s, dr_failedSlots = ds_failedSlots s,
        dr_delayed = (\<not> ds_deferredForBudget s)\<rparr>"
      using assms(5) unfolding drain_file_def s [symmetric] Let_def by simp
    have next': "x \<in> failed_set s" if "x \<in> ?u" "0 \<le> x" "x < (if \<not> ds_deferredForBudget s
          then firstFailedSlot (ds_failedSlots s) else ds_resumeSlot s)" for x
    proof (cases "ds_deferredForBudget s")
      case deferred: True
      then show ?thesis using settle [of x] that resume by auto
    next
      case False
      have "length (ds_failedSlots s) = nat SlotCount" using assms(1) unfolding s by simp
      moreover have "firstFailedSlot (ds_failedSlots s) < int (length (ds_failedSlots s))"
        using True False by (intro firstFailed_less) simp
      ultimately have "x \<in> {0..<SlotCount}" using that False by (auto split: if_splits)
      then show ?thesis using settle [OF that(1)] False by blast
    qed
    show ?thesis
      using settle next' first unfolding r failed_set_def by auto
  qed
  show "ahb_attempts (ds_attemptBudget s) \<le> ahb_limit (ds_attemptBudget s0)"
    using drain_slots_budget(2) [of ?s0] assms(3) unfolding s by simp
  show "slot < startSlot \<longrightarrow>
      ds_nativeHashes s slot = ds_nativeHashes s0 slot \<and> ds_pendingHashes s slot = ds_pendingHashes s0 slot"
    using pass_settles(1) [OF assms(1,2,4) s] by blast
qed

text \<open>The second pass over two players: the first failed before, the second is served now.\<close>

definition second_env :: "(nat, unit) drain_env" where
  "second_env = \<lparr>de_matches = (\<lambda>_. True), de_action = (\<lambda>_. ActNative), de_send = (\<lambda>_ _ _ x. (Appended, x))\<rparr>"

definition second_pass :: "(nat, unit) drain_state" where
  "second_pass =
     \<lparr>ds_nativeHashes = (\<lambda>_. Map.empty), ds_pendingHashes = (\<lambda>_. Map.empty),
      ds_forcedSlots = [False, False], ds_failedSlots = [True, False],
      ds_attemptBudget = \<lparr>ahb_limit = 4, ahb_attempts = 0\<rparr>, ds_resumeSlot = 0,
      ds_deferredForBudget = False, ds_updatedFile = False, ds_nativeUpdates = 0,
      ds_canonicalUpdates = 0, ds_failedAttempts = 0, ds_channels = (), ds_disconnected = []\<rparr>"

theorem drain_file_converges_witness:
  "fst (drain_file second_env 2 7 5 9 1 second_pass) =
     Some \<lparr>dr_nextSlot = 0, dr_forcedSlots = [False, False], dr_failedSlots = [True, False], dr_delayed = True\<rparr> \<and>
   1 \<notin> unsettled second_env 7 5 9 (snd (drain_file second_env 2 7 5 9 1 second_pass)) \<and>
   0 \<in> unsettled second_env 7 5 9 (snd (drain_file second_env 2 7 5 9 1 second_pass))"
proof -
  let ?s = "snd (drain_file second_env 2 7 5 9 1 second_pass)"
  have r: "fst (drain_file second_env 2 7 5 9 1 second_pass) =
      Some \<lparr>dr_nextSlot = 0, dr_forcedSlots = [False, False], dr_failedSlots = [True, False], dr_delayed = True\<rparr>"
    "0 \<in> unsettled second_env 7 5 9 ?s"
    by (simp_all add: drain_file_def drain_slot_def Let_def SelectActiveHashRefresh_def second_env_def second_pass_def
        LatestAdvertisedHashMatches_def NativeHashMatches_def SettleActiveRefresh_def reset_slot_def firstFailedSlot_def
        ActiveHashRefreshAttemptBudget_TryConsume_def word_le_nat_alt unsettled_def advertised_hash_def desired_hash_def)
  have "unsettled second_env 7 5 9 second_pass \<inter> {0..<1} \<subseteq> failed_set second_pass"
    by (auto simp: failed_set_def bitset_elems_def second_pass_def intro!: image_eqI [of _ _ 0])
  from drain_file_converges [OF _ _ _ this prod.collapse [symmetric], of 2 0]
  have "unsettled second_env 7 5 9 ?s \<inter> {0..<2} \<subseteq> int ` bitset_elems [True, False]"
    by (simp add: r(1)) (simp add: second_pass_def)
  then have "1 \<notin> unsettled second_env 7 5 9 ?s" by (auto simp: bitset_elems_def)
  with r show ?thesis by blast
qed

end
