(* ===== verification/Lifecycle.thy ===== *)
theory Lifecycle
  imports HolyPrelude
begin

text \<open>
  Running a component over a sequence of operations, and the interface between a component
  and the automaton that specifies its observable life cycle: each operation emits events,
  and the component refines the automaton when every emitted event is a transition the
  automaton allows from the related state.
\<close>

section \<open>Runs\<close>

text \<open>An operation maps a state to the events it emits and the next state.\<close>

fun run_ops :: "('op \<Rightarrow> 's \<Rightarrow> 'e list \<times> 's) \<Rightarrow> 's \<Rightarrow> 'op list \<Rightarrow> 'e list \<times> 's" where
  "run_ops step s [] = ([], s)"
| "run_ops step s (op # ops) =
     (let (es, s') = step op s; (es', s'') = run_ops step s' ops in (es @ es', s''))"

text \<open>A partial automaton: no value means the event is forbidden in that state.\<close>

fun spec_run :: "('q \<Rightarrow> 'e \<Rightarrow> 'q option) \<Rightarrow> 'q \<Rightarrow> 'e list \<Rightarrow> 'q option" where
  "spec_run delta q [] = Some q"
| "spec_run delta q (e # es) =
     (case delta q e of None \<Rightarrow> None | Some q' \<Rightarrow> spec_run delta q' es)"

lemma spec_run_append [simp]:
  "spec_run delta q (xs @ ys) =
     (case spec_run delta q xs of None \<Rightarrow> None | Some q' \<Rightarrow> spec_run delta q' ys)"
  by (induction xs arbitrary: q) (auto split: option.splits)

lemma run_ops_append:
  "run_ops step s (xs @ ys) =
     (let (es, s') = run_ops step s xs; (es', s'') = run_ops step s' ys in (es @ es', s''))"
  by (induction xs arbitrary: s) (auto simp: Let_def split: prod.splits)

lemma run_ops_invariant:
  assumes "\<And>op s. I s \<Longrightarrow> I (snd (step op s))" and "I s"
  shows "I (snd (run_ops step s ops))"
  using assms(2)
proof (induction ops arbitrary: s)
  case (Cons op ops)
  obtain es s' where st: "step op s = (es, s')" by fastforce
  have "I s'" using assms(1) [OF Cons.prems, of op] st by simp
  then have "I (snd (run_ops step s' ops))" by (rule Cons.IH)
  then show ?case using st by (simp add: case_prod_beta Let_def)
qed simp

section \<open>Life-cycle refinement\<close>

locale lifecycle =
  fixes step :: "'op \<Rightarrow> 's \<Rightarrow> 'e list \<times> 's"
    and delta :: "'q \<Rightarrow> 'e \<Rightarrow> 'q option"
    and R :: "'s \<Rightarrow> 'q \<Rightarrow> bool"
  assumes simulates:
    "R s q \<Longrightarrow> \<exists>q'. spec_run delta q (fst (step op s)) = Some q' \<and> R (snd (step op s)) q'"
begin

lemma run_simulates:
  "R s q \<Longrightarrow>
     \<exists>q'. spec_run delta q (fst (run_ops step s ops)) = Some q' \<and> R (snd (run_ops step s ops)) q'"
proof (induction ops arbitrary: s q)
  case Nil
  then show ?case by simp
next
  case (Cons op ops)
  obtain es s' where st: "step op s = (es, s')" by fastforce
  obtain q' where q': "spec_run delta q es = Some q'" "R s' q'"
    using simulates [OF Cons.prems, of op] st by auto
  obtain es' s'' where rest: "run_ops step s' ops = (es', s'')" by fastforce
  from Cons.IH [OF q'(2)] show ?case using st rest q'(1) by simp
qed

lemma run_accepted: "R s q \<Longrightarrow> spec_run delta q (fst (run_ops step s ops)) \<noteq> None"
  using run_simulates by fastforce

end

end
