(* ===== verification/RecoveryTracker.thy ===== *)
theory RecoveryTracker
  imports Lifecycle
begin

text \<open>
  \<^verbatim>\<open>RequiredRecoveryTracker\<close> of \<^verbatim>\<open>source/modules/gmoddatapack_luapack_policy.h\<close>:
  the latch that lets an account whose required pack failed reconnect once over the native
  lane.  The table is the \<^verbatim>\<open>unordered_map\<close> from 64-bit accounts; time is in seconds
  and a real number (the sums \<^verbatim>\<open>now + ttl\<close> are the only arithmetic; rounding of
  doubles and NaN are outside the model).
\<close>

section \<open>State and operations\<close>

datatype RecoveryPhase = PhArmed | PhConsumed

datatype RecoveryArmResult = ArmArmed | ArmInvalid | ArmRetryExhausted

datatype RecoveryConsumeResult =
  ConsumeNone | ConsumeNative | ConsumeSameConnection | ConsumeRetryExhausted | ConsumeExpired

datatype RecoveryClearResult = ClearNone | ClearCleared | ClearSameFailedConnection

record RecoveryEntry =
  re_phase :: RecoveryPhase
  re_failedConnection :: u64
  re_recoveryConnection :: u64
  re_expiresAt :: real

type_synonym RequiredRecoveryTracker = "u64 \<rightharpoonup> RecoveryEntry"

definition RequiredRecoveryTracker_new :: RequiredRecoveryTracker where
  "RequiredRecoveryTracker_new = Map.empty"

definition entry_expired :: "RecoveryEntry \<Rightarrow> real \<Rightarrow> bool" where
  "entry_expired e now \<longleftrightarrow> re_phase e = PhArmed \<and> re_expiresAt e \<le> now"

definition RequiredRecoveryTracker_EraseExpired ::
  "u64 \<Rightarrow> real \<Rightarrow> RequiredRecoveryTracker \<Rightarrow> RequiredRecoveryTracker" where
  "RequiredRecoveryTracker_EraseExpired account now entries =
     (case entries account of
        None \<Rightarrow> entries
      | Some e \<Rightarrow> if entry_expired e now then entries(account := None) else entries)"

definition RequiredRecoveryTracker_Arm ::
  "u64 \<Rightarrow> u64 \<Rightarrow> real \<Rightarrow> real \<Rightarrow> RequiredRecoveryTracker
     \<Rightarrow> RecoveryArmResult \<times> RequiredRecoveryTracker" where
  "RequiredRecoveryTracker_Arm account connection now ttl entries =
     (if account = 0 \<or> connection = 0 \<or> ttl \<le> 0 then (ArmInvalid, entries)
      else
        (let entries1 = RequiredRecoveryTracker_EraseExpired account now entries
         in if entries1 account \<noteq> None then (ArmRetryExhausted, entries1)
            else (ArmArmed, entries1(account \<mapsto>
              \<lparr>re_phase = PhArmed, re_failedConnection = connection,
               re_recoveryConnection = 0, re_expiresAt = now + ttl\<rparr>))))"

definition RequiredRecoveryTracker_Consume ::
  "u64 \<Rightarrow> u64 \<Rightarrow> real \<Rightarrow> RequiredRecoveryTracker
     \<Rightarrow> RecoveryConsumeResult \<times> RequiredRecoveryTracker" where
  "RequiredRecoveryTracker_Consume account connection now entries =
     (if account = 0 \<or> connection = 0 then (ConsumeNone, entries)
      else
        (case entries account of
           None \<Rightarrow> (ConsumeNone, entries)
         | Some e \<Rightarrow>
             if re_phase e = PhArmed \<and> re_expiresAt e \<le> now
             then (ConsumeExpired, entries(account := None))
             else if re_phase e \<noteq> PhArmed then (ConsumeRetryExhausted, entries)
             else if re_failedConnection e = connection then (ConsumeSameConnection, entries)
             else (ConsumeNative, entries(account \<mapsto>
               e\<lparr>re_phase := PhConsumed, re_recoveryConnection := connection\<rparr>))))"

definition RequiredRecoveryTracker_Complete ::
  "u64 \<Rightarrow> u64 \<Rightarrow> RequiredRecoveryTracker \<Rightarrow> bool \<times> RequiredRecoveryTracker" where
  "RequiredRecoveryTracker_Complete account connection entries =
     (case entries account of
        None \<Rightarrow> (False, entries)
      | Some e \<Rightarrow>
          if re_phase e \<noteq> PhConsumed \<or> re_recoveryConnection e \<noteq> connection
          then (False, entries) else (True, entries(account := None)))"

definition RequiredRecoveryTracker_OwnsConsumed ::
  "u64 \<Rightarrow> u64 \<Rightarrow> RequiredRecoveryTracker \<Rightarrow> bool" where
  "RequiredRecoveryTracker_OwnsConsumed account connection entries \<longleftrightarrow>
     account \<noteq> 0 \<and> connection \<noteq> 0 \<and>
     (case entries account of
        None \<Rightarrow> False
      | Some e \<Rightarrow> re_phase e = PhConsumed \<and> re_recoveryConnection e = connection)"

definition RequiredRecoveryTracker_Clear ::
  "u64 \<Rightarrow> RequiredRecoveryTracker \<Rightarrow> bool \<times> RequiredRecoveryTracker" where
  "RequiredRecoveryTracker_Clear account entries =
     (if account = 0 then (False, entries)
      else (entries account \<noteq> None, entries(account := None)))"

definition RequiredRecoveryTracker_ClearAfterSuccessfulConnection ::
  "u64 \<Rightarrow> u64 \<Rightarrow> RequiredRecoveryTracker \<Rightarrow> RecoveryClearResult \<times> RequiredRecoveryTracker" where
  "RequiredRecoveryTracker_ClearAfterSuccessfulConnection account connection entries =
     (if account = 0 \<or> connection = 0 then (ClearNone, entries)
      else
        (case entries account of
           None \<Rightarrow> (ClearNone, entries)
         | Some e \<Rightarrow>
             if re_phase e = PhArmed \<and> re_failedConnection e = connection
             then (ClearSameFailedConnection, entries)
             else (ClearCleared, entries(account := None))))"

definition RequiredRecoveryTracker_Prune ::
  "real \<Rightarrow> RequiredRecoveryTracker \<Rightarrow> RequiredRecoveryTracker" where
  "RequiredRecoveryTracker_Prune now entries =
     (\<lambda>account. case entries account of
        None \<Rightarrow> None
      | Some e \<Rightarrow> if entry_expired e now then None else Some e)"

definition RequiredRecoveryTracker_Reset :: "RequiredRecoveryTracker \<Rightarrow> RequiredRecoveryTracker" where
  "RequiredRecoveryTracker_Reset entries = Map.empty"

definition RequiredRecoveryTracker_Size :: "RequiredRecoveryTracker \<Rightarrow> nat" where
  "RequiredRecoveryTracker_Size entries = card (dom entries)"

lemmas tracker_defs =
  RequiredRecoveryTracker_Arm_def RequiredRecoveryTracker_Consume_def
  RequiredRecoveryTracker_Complete_def RequiredRecoveryTracker_Clear_def
  RequiredRecoveryTracker_ClearAfterSuccessfulConnection_def RequiredRecoveryTracker_Prune_def
  RequiredRecoveryTracker_Reset_def RequiredRecoveryTracker_EraseExpired_def entry_expired_def

section \<open>Operation sequences and the life cycle of an account\<close>

datatype tracker_op =
    OpArm u64 u64 real real
  | OpConsume u64 u64 real
  | OpComplete u64 u64
  | OpClear u64
  | OpClearAfterSuccess u64 u64
  | OpPrune real
  | OpTrackerReset

datatype tracker_event =
    EvArmed u64 real           \<comment> \<open>connection that failed, deadline\<close>
  | EvExpired real             \<comment> \<open>time at which an armed latch was dropped\<close>
  | EvNative u64 real          \<comment> \<open>connection that went native, time\<close>
  | EvCompleted u64
  | EvCleared "u64 option"     \<comment> \<open>the connection whose success cleared the latch, if any\<close>

text \<open>The latch of \<open>a\<close> was in the table before and is not in it after.\<close>

definition vanished :: "u64 \<Rightarrow> RequiredRecoveryTracker \<Rightarrow> RequiredRecoveryTracker \<Rightarrow> bool" where
  "vanished a t t' \<longleftrightarrow> t a \<noteq> None \<and> t' a = None"

fun tracker_step ::
  "u64 \<Rightarrow> tracker_op \<Rightarrow> RequiredRecoveryTracker \<Rightarrow> tracker_event list \<times> RequiredRecoveryTracker" where
  "tracker_step a (OpArm acct conn now ttl) t =
     (let (r, t') = RequiredRecoveryTracker_Arm acct conn now ttl t
      in (if acct = a \<and> r = ArmArmed
          then (if t a \<noteq> None then [EvExpired now] else []) @ [EvArmed conn (now + ttl)]
          else if vanished a t t' then [EvExpired now] else [], t'))"
| "tracker_step a (OpConsume acct conn now) t =
     (let (r, t') = RequiredRecoveryTracker_Consume acct conn now t
      in (if acct = a \<and> r = ConsumeNative then [EvNative conn now]
          else if vanished a t t' then [EvExpired now] else [], t'))"
| "tracker_step a (OpComplete acct conn) t =
     (let (r, t') = RequiredRecoveryTracker_Complete acct conn t
      in (if acct = a \<and> r then [EvCompleted conn] else [], t'))"
| "tracker_step a (OpClear acct) t =
     (let (r, t') = RequiredRecoveryTracker_Clear acct t
      in (if acct = a \<and> r then [EvCleared None] else [], t'))"
| "tracker_step a (OpClearAfterSuccess acct conn) t =
     (let (r, t') = RequiredRecoveryTracker_ClearAfterSuccessfulConnection acct conn t
      in (if acct = a \<and> r = ClearCleared then [EvCleared (Some conn)] else [], t'))"
| "tracker_step a (OpPrune now) t =
     (let t' = RequiredRecoveryTracker_Prune now t
      in (if vanished a t t' then [EvExpired now] else [], t'))"
| "tracker_step a OpTrackerReset t =
     ([EvCleared None], RequiredRecoveryTracker_Reset t)"

text \<open>
  The specification of one account: idle, armed by a failed connection until a deadline, or
  consumed by the connection that went native.
\<close>

datatype account_phase = AIdle | AArmed u64 real | AConsumed u64

fun account_delta :: "account_phase \<Rightarrow> tracker_event \<Rightarrow> account_phase option" where
  "account_delta AIdle (EvArmed f d) = Some (AArmed f d)"
| "account_delta AIdle (EvCleared None) = Some AIdle"
| "account_delta (AArmed f d) (EvExpired now) = (if d \<le> now then Some AIdle else None)"
| "account_delta (AArmed f d) (EvNative c now) =
     (if c \<noteq> f \<and> now < d then Some (AConsumed c) else None)"
| "account_delta (AArmed f d) (EvCleared by) = (if by = Some f then None else Some AIdle)"
| "account_delta (AConsumed c) (EvCompleted c') = (if c' = c then Some AIdle else None)"
| "account_delta (AConsumed c) (EvCleared by) = Some AIdle"
| "account_delta q e = None"

definition account_abs :: "RecoveryEntry option \<Rightarrow> account_phase" where
  "account_abs latch =
     (case latch of
        None \<Rightarrow> AIdle
      | Some e \<Rightarrow>
          (case re_phase e of
             PhArmed \<Rightarrow> AArmed (re_failedConnection e) (re_expiresAt e)
           | PhConsumed \<Rightarrow> AConsumed (re_recoveryConnection e)))"

definition tracks :: "u64 \<Rightarrow> RequiredRecoveryTracker \<Rightarrow> account_phase \<Rightarrow> bool" where
  "tracks a t q \<longleftrightarrow> q = account_abs (t a)"

lemma account_abs_simps [simp]:
  "account_abs None = AIdle"
  "re_phase e = PhArmed \<Longrightarrow> account_abs (Some e) = AArmed (re_failedConnection e) (re_expiresAt e)"
  "re_phase e = PhConsumed \<Longrightarrow> account_abs (Some e) = AConsumed (re_recoveryConnection e)"
  by (simp_all add: account_abs_def)

lemma not_armed [simp]: "re_phase e \<noteq> PhArmed \<longleftrightarrow> re_phase e = PhConsumed"
  and not_consumed [simp]: "re_phase e \<noteq> PhConsumed \<longleftrightarrow> re_phase e = PhArmed"
  by (cases "re_phase e"; simp)+

lemma tracker_step_simulates:
  "spec_run account_delta (account_abs (t a)) (fst (tracker_step a op t)) =
     Some (account_abs (snd (tracker_step a op t) a))"
proof (cases "t a")
  case None
  then show ?thesis
    by (cases op) (auto simp: tracker_defs vanished_def Let_def split: option.splits if_splits)
next
  case (Some e)
  then show ?thesis
    by (cases op; cases "re_phase e")
      (auto simp: tracker_defs vanished_def Let_def split: option.splits if_splits)
qed

interpretation tracker_life: lifecycle "tracker_step a" account_delta "tracks a" for a
  by unfold_locales (simp add: tracks_def tracker_step_simulates)

section \<open>Properties\<close>

text \<open>
  C14. The recovery latch is one-shot.  Whatever sequence of calls the callbacks make, with
  whatever clock readings, the events of one account form a run of the account automaton: it
  goes native only after it was armed, before the deadline and never on the very connection
  that armed it; after it went native it can neither go native nor be armed again until that
  connection completes or the latch is cleared; only the connection that consumed the latch
  completes it; a latch is dropped as expired only at or after its deadline; and the success of
  the connection that armed it never clears it.
\<close>

theorem recovery_latch_one_shot:
  "\<exists>q. spec_run account_delta AIdle
         (fst (run_ops (tracker_step a) RequiredRecoveryTracker_new ops)) = Some q \<and>
       q = account_abs (snd (run_ops (tracker_step a) RequiredRecoveryTracker_new ops) a)"
proof -
  have "tracks a RequiredRecoveryTracker_new AIdle"
    by (simp add: tracks_def RequiredRecoveryTracker_new_def)
  from tracker_life.run_simulates [OF this, of ops] show ?thesis by (simp add: tracks_def)
qed

lemma Arm_ok:
  assumes "RequiredRecoveryTracker_Arm a f now ttl t = (ArmArmed, t')"
  shows "a \<noteq> 0 \<and> f \<noteq> 0 \<and> 0 < ttl \<and> t' = t(a \<mapsto> \<lparr>re_phase = PhArmed, re_failedConnection = f,
           re_recoveryConnection = 0, re_expiresAt = now + ttl\<rparr>)"
  using assms
  by (auto simp: RequiredRecoveryTracker_Arm_def RequiredRecoveryTracker_EraseExpired_def Let_def
      split: if_splits option.splits)

text \<open>
  A recovery can always be used.  After an accepted \<^verbatim>\<open>Arm\<close>, any other connection that
  consumes it before the deadline goes native and owns the latch; the latch then refuses a
  second consumption and a second arming whatever the clock says; completing on that
  connection succeeds and gives back the table as it was, without a latch for the account.
\<close>

theorem recovery_round:
  assumes "RequiredRecoveryTracker_Arm a f now ttl t = (ArmArmed, t1)"
    and "c \<noteq> 0" and "c \<noteq> f" and "now' < now + ttl"
  shows "\<exists>t2. RequiredRecoveryTracker_Consume a c now' t1 = (ConsumeNative, t2) \<and>
      RequiredRecoveryTracker_OwnsConsumed a c t2 \<and>
      fst (RequiredRecoveryTracker_Consume a c' u t2) \<in> {ConsumeNone, ConsumeRetryExhausted} \<and>
      fst (RequiredRecoveryTracker_Arm a c' u ttl' t2) \<in> {ArmInvalid, ArmRetryExhausted} \<and>
      RequiredRecoveryTracker_Complete a c t2 = (True, t(a := None))"
  using Arm_ok [OF assms(1)] assms(2-4)
  by (simp add: tracker_defs RequiredRecoveryTracker_OwnsConsumed_def)

theorem recovery_round_witness:
  "fst (RequiredRecoveryTracker_Consume 7 2 5
      (snd (RequiredRecoveryTracker_Arm 7 1 0 90 RequiredRecoveryTracker_new))) = ConsumeNative"
proof -
  let ?t1 = "snd (RequiredRecoveryTracker_Arm 7 1 0 90 RequiredRecoveryTracker_new)"
  have "RequiredRecoveryTracker_Arm 7 1 0 90 RequiredRecoveryTracker_new = (ArmArmed, ?t1)"
    by (simp add: tracker_defs RequiredRecoveryTracker_new_def)
  from recovery_round [OF this, where c = 2 and now' = 5 and c' = 3 and u = 5 and ttl' = 90]
  show ?thesis by auto
qed

lemma Prune_at:
  "RequiredRecoveryTracker_Prune now t a =
     (case t a of None \<Rightarrow> None | Some e \<Rightarrow> if entry_expired e now then None else Some e)"
  by (simp add: RequiredRecoveryTracker_Prune_def)

lemma entry_expired_mono: "entry_expired e now \<Longrightarrow> now \<le> now' \<Longrightarrow> entry_expired e now'"
  by (auto simp: entry_expired_def)

text \<open>
  Pruning is only housekeeping.  With a clock that does not run backwards, whether an
  account may be armed, goes native, completes or owns a consumed latch does not depend on
  whether \<^verbatim>\<open>Prune\<close> ran before; and pruning never makes the table larger.
\<close>

theorem recovery_prune_transparent:
  assumes "now \<le> now'" and "finite (dom t)"
  shows "fst (RequiredRecoveryTracker_Arm a c now' ttl (RequiredRecoveryTracker_Prune now t)) =
      fst (RequiredRecoveryTracker_Arm a c now' ttl t) \<and>
    (fst (RequiredRecoveryTracker_Consume a c now' (RequiredRecoveryTracker_Prune now t)) = ConsumeNative) =
      (fst (RequiredRecoveryTracker_Consume a c now' t) = ConsumeNative) \<and>
    fst (RequiredRecoveryTracker_Complete a c (RequiredRecoveryTracker_Prune now t)) =
      fst (RequiredRecoveryTracker_Complete a c t) \<and>
    RequiredRecoveryTracker_OwnsConsumed a c (RequiredRecoveryTracker_Prune now t) =
      RequiredRecoveryTracker_OwnsConsumed a c t \<and>
    RequiredRecoveryTracker_Size (RequiredRecoveryTracker_Prune now t) \<le>
      RequiredRecoveryTracker_Size t"
proof (intro conjI)
  show "RequiredRecoveryTracker_Size (RequiredRecoveryTracker_Prune now t) \<le>
      RequiredRecoveryTracker_Size t"
    unfolding RequiredRecoveryTracker_Size_def using assms(2)
    by (rule card_mono) (auto simp: Prune_at split: option.splits)
qed (use assms(1) in \<open>auto simp: RequiredRecoveryTracker_Arm_def RequiredRecoveryTracker_Consume_def
    RequiredRecoveryTracker_Complete_def RequiredRecoveryTracker_OwnsConsumed_def
    RequiredRecoveryTracker_EraseExpired_def Prune_at entry_expired_def Let_def
    split: option.splits if_splits\<close>)

theorem recovery_prune_transparent_witness:
  "fst (RequiredRecoveryTracker_Arm 7 3 20 90
      (RequiredRecoveryTracker_Prune 10 (snd (RequiredRecoveryTracker_Arm 7 1 0 5 Map.empty)))) =
   fst (RequiredRecoveryTracker_Arm 7 3 20 90 (snd (RequiredRecoveryTracker_Arm 7 1 0 5 Map.empty)))"
  using recovery_prune_transparent [of 10 20 "snd (RequiredRecoveryTracker_Arm 7 1 0 5 Map.empty)" 7 3 90]
  by (simp add: tracker_defs)

end
