(* ===== verification/RecoveryHandoff.thy ===== *)
theory RecoveryHandoff
  imports Lifecycle
begin

text \<open>
  \<^verbatim>\<open>RequiredRecoveryHandoff\<close> of \<^verbatim>\<open>source/modules/gmoddatapack_luapack_policy.h\<close>:
  the per-slot gate around the engine's server-side Reconnect.  Time is a real number of
  seconds, as in \<^verbatim>\<open>RecoveryTracker\<close>.
\<close>

section \<open>State and operations\<close>

datatype RecoveryHandoffPhase = HpEmpty | HpQueued | HpInvoked | HpServerInfoClaimed

datatype RecoveryHandoffResult =
    HrNone | HrInvoke | HrAlreadyInvoked | HrNotReady | HrDispatchServerInfo
  | HrBeginBaseline | HrOwnershipMismatch | HrInvalid | HrExpired

record RequiredRecoveryHandoff =
  rrh_phase :: RecoveryHandoffPhase
  rrh_account :: u64
  rrh_failedConnection :: u64
  rrh_windowSeconds :: real
  rrh_expiresAt :: real

definition RequiredRecoveryHandoff_new :: RequiredRecoveryHandoff where
  "RequiredRecoveryHandoff_new =
     \<lparr>rrh_phase = HpEmpty, rrh_account = 0, rrh_failedConnection = 0,
      rrh_windowSeconds = 0, rrh_expiresAt = 0\<rparr>"

definition RequiredRecoveryHandoff_Reset :: "RequiredRecoveryHandoff \<Rightarrow> RequiredRecoveryHandoff" where
  "RequiredRecoveryHandoff_Reset h =
     h\<lparr>rrh_phase := HpEmpty, rrh_account := 0, rrh_failedConnection := 0,
       rrh_windowSeconds := 0, rrh_expiresAt := 0\<rparr>"

definition RequiredRecoveryHandoff_Queue ::
  "u64 \<Rightarrow> u64 \<Rightarrow> real \<Rightarrow> real \<Rightarrow> RequiredRecoveryHandoff \<Rightarrow> bool \<times> RequiredRecoveryHandoff" where
  "RequiredRecoveryHandoff_Queue inputAccount inputConnection now window h =
     (if rrh_phase h \<noteq> HpEmpty \<or> inputAccount = 0 \<or> inputConnection = 0 \<or> window \<le> 0
      then (False, h)
      else (True, h\<lparr>rrh_account := inputAccount, rrh_failedConnection := inputConnection,
                     rrh_windowSeconds := window, rrh_expiresAt := now + window,
                     rrh_phase := HpQueued\<rparr>))"

definition RequiredRecoveryHandoff_TryInvoke ::
  "u64 \<Rightarrow> u64 \<Rightarrow> bool \<Rightarrow> bool \<Rightarrow> real \<Rightarrow> RequiredRecoveryHandoff
     \<Rightarrow> RecoveryHandoffResult \<times> RequiredRecoveryHandoff" where
  "RequiredRecoveryHandoff_TryInvoke currentAccount currentConnection authenticated channelReady now h =
     (if rrh_phase h = HpEmpty then (HrNone, h)
      else if rrh_expiresAt h \<le> now then (HrExpired, RequiredRecoveryHandoff_Reset h)
      else if rrh_phase h = HpInvoked \<or> rrh_phase h = HpServerInfoClaimed
      then (HrAlreadyInvoked, h)
      else if currentAccount \<noteq> rrh_account h \<or> currentConnection \<noteq> rrh_failedConnection h
      then (HrOwnershipMismatch, h)
      else if \<not> authenticated then (HrInvalid, h)
      else if \<not> channelReady then (HrInvalid, h)
      else (HrInvoke, h\<lparr>rrh_phase := HpInvoked\<rparr>))"

definition RequiredRecoveryHandoff_TryDispatchServerInfo ::
  "u64 \<Rightarrow> bool \<Rightarrow> bool \<Rightarrow> bool \<Rightarrow> real \<Rightarrow> RequiredRecoveryHandoff
     \<Rightarrow> RecoveryHandoffResult \<times> RequiredRecoveryHandoff" where
  "RequiredRecoveryHandoff_TryDispatchServerInfo currentAccount authenticated channelReady
     signonRestarted now h =
     (if rrh_phase h = HpEmpty then (HrNone, h)
      else if rrh_expiresAt h \<le> now then (HrExpired, RequiredRecoveryHandoff_Reset h)
      else if rrh_phase h = HpQueued then (HrInvalid, h)
      else if rrh_phase h = HpServerInfoClaimed then (HrAlreadyInvoked, h)
      else if currentAccount = 0 \<or> \<not> authenticated \<or> \<not> channelReady then (HrNotReady, h)
      else if currentAccount \<noteq> rrh_account h then (HrNotReady, h)
      else if \<not> signonRestarted then (HrNotReady, h)
      else (HrDispatchServerInfo,
            h\<lparr>rrh_phase := HpServerInfoClaimed, rrh_expiresAt := now + rrh_windowSeconds h\<rparr>))"

definition RequiredRecoveryHandoff_BeginBaseline ::
  "u64 \<Rightarrow> bool \<Rightarrow> real \<Rightarrow> RequiredRecoveryHandoff
     \<Rightarrow> RecoveryHandoffResult \<times> RequiredRecoveryHandoff" where
  "RequiredRecoveryHandoff_BeginBaseline currentAccount authenticated now h =
     (if rrh_phase h = HpEmpty then (HrNone, h)
      else if rrh_expiresAt h \<le> now then (HrExpired, RequiredRecoveryHandoff_Reset h)
      else if currentAccount \<noteq> rrh_account h then (HrOwnershipMismatch, h)
      else if \<not> authenticated then (HrInvalid, h)
      else if rrh_phase h \<noteq> HpInvoked \<and> rrh_phase h \<noteq> HpServerInfoClaimed then (HrInvalid, h)
      else (HrBeginBaseline, RequiredRecoveryHandoff_Reset h))"

definition RequiredRecoveryHandoff_Pending :: "RequiredRecoveryHandoff \<Rightarrow> bool" where
  "RequiredRecoveryHandoff_Pending h \<longleftrightarrow> rrh_phase h \<noteq> HpEmpty"

definition RequiredRecoveryHandoff_Invoked :: "RequiredRecoveryHandoff \<Rightarrow> bool" where
  "RequiredRecoveryHandoff_Invoked h \<longleftrightarrow>
     rrh_phase h = HpInvoked \<or> rrh_phase h = HpServerInfoClaimed"

definition RequiredRecoveryHandoff_ResetIfOwnedBy ::
  "u64 \<Rightarrow> RequiredRecoveryHandoff \<Rightarrow> bool \<times> RequiredRecoveryHandoff" where
  "RequiredRecoveryHandoff_ResetIfOwnedBy inputAccount h =
     (if inputAccount = 0 \<or> rrh_phase h = HpEmpty \<or> rrh_account h \<noteq> inputAccount
      then (False, h) else (True, RequiredRecoveryHandoff_Reset h))"

definition RequiredRecoveryHandoff_Account :: "RequiredRecoveryHandoff \<Rightarrow> u64" where
  "RequiredRecoveryHandoff_Account h = rrh_account h"

definition RequiredRecoveryHandoff_FailedConnection :: "RequiredRecoveryHandoff \<Rightarrow> u64" where
  "RequiredRecoveryHandoff_FailedConnection h = rrh_failedConnection h"

lemmas handoff_defs =
  RequiredRecoveryHandoff_Queue_def RequiredRecoveryHandoff_TryInvoke_def
  RequiredRecoveryHandoff_TryDispatchServerInfo_def RequiredRecoveryHandoff_BeginBaseline_def
  RequiredRecoveryHandoff_Reset_def RequiredRecoveryHandoff_ResetIfOwnedBy_def

section \<open>Operation sequences and the life cycle of a handoff\<close>

datatype handoff_op =
    OpQueue u64 u64 real real
  | OpTryInvoke u64 u64 bool bool real
  | OpTryDispatch u64 bool bool bool real
  | OpBeginBaseline u64 bool real
  | OpHandoffReset
  | OpResetIfOwnedBy u64

datatype handoff_event =
    EvQueued u64 u64 real real
  | EvInvoked u64 u64 real
  | EvDispatched u64 real
  | EvBaseline u64 real
  | EvHandoffExpired real
  | EvAbandoned "u64 option"

definition handoff_result_events ::
  "handoff_event \<Rightarrow> RecoveryHandoffResult \<Rightarrow> real \<Rightarrow> RecoveryHandoffResult \<Rightarrow> handoff_event list" where
  "handoff_result_events ok okResult now r =
     (if r = okResult then [ok] else if r = HrExpired then [EvHandoffExpired now] else [])"

fun handoff_step ::
  "handoff_op \<Rightarrow> RequiredRecoveryHandoff \<Rightarrow> handoff_event list \<times> RequiredRecoveryHandoff" where
  "handoff_step (OpQueue a f now w) h =
     (let (r, h') = RequiredRecoveryHandoff_Queue a f now w h
      in (if r then [EvQueued a f now w] else [], h'))"
| "handoff_step (OpTryInvoke a c auth ready now) h =
     (let (r, h') = RequiredRecoveryHandoff_TryInvoke a c auth ready now h
      in (handoff_result_events (EvInvoked a c now) HrInvoke now r, h'))"
| "handoff_step (OpTryDispatch a auth ready restarted now) h =
     (let (r, h') = RequiredRecoveryHandoff_TryDispatchServerInfo a auth ready restarted now h
      in (handoff_result_events (EvDispatched a now) HrDispatchServerInfo now r, h'))"
| "handoff_step (OpBeginBaseline a auth now) h =
     (let (r, h') = RequiredRecoveryHandoff_BeginBaseline a auth now h
      in (handoff_result_events (EvBaseline a now) HrBeginBaseline now r, h'))"
| "handoff_step OpHandoffReset h = ([EvAbandoned None], RequiredRecoveryHandoff_Reset h)"
| "handoff_step (OpResetIfOwnedBy a) h =
     (let (r, h') = RequiredRecoveryHandoff_ResetIfOwnedBy a h
      in (if r then [EvAbandoned (Some a)] else [], h'))"

text \<open>
  The specification: \<open>q\<close> is the time the handoff was queued, \<open>w\<close> its window, \<open>d\<close> the time
  the server info was dispatched.
\<close>

datatype handoff_phase =
    HIdle
  | HQueued u64 u64 real real
  | HInvoked u64 real real
  | HDispatched u64 real real real

fun handoff_delta :: "handoff_phase \<Rightarrow> handoff_event \<Rightarrow> handoff_phase option" where
  "handoff_delta HIdle (EvQueued a f now w) =
     (if a \<noteq> 0 \<and> f \<noteq> 0 \<and> 0 < w then Some (HQueued a f now w) else None)"
| "handoff_delta HIdle (EvAbandoned None) = Some HIdle"
| "handoff_delta (HQueued a f q w) (EvInvoked a' c now) =
     (if a' = a \<and> c = f \<and> now < q + w then Some (HInvoked a q w) else None)"
| "handoff_delta (HInvoked a q w) (EvDispatched a' now) =
     (if a' = a \<and> now < q + w then Some (HDispatched a q w now) else None)"
| "handoff_delta (HInvoked a q w) (EvBaseline a' now) =
     (if a' = a \<and> now < q + w then Some HIdle else None)"
| "handoff_delta (HDispatched a q w d) (EvBaseline a' now) =
     (if a' = a \<and> now < d + w \<and> now < q + 2 * w then Some HIdle else None)"
| "handoff_delta (HQueued a f q w) (EvHandoffExpired now) = (if q + w \<le> now then Some HIdle else None)"
| "handoff_delta (HInvoked a q w) (EvHandoffExpired now) = (if q + w \<le> now then Some HIdle else None)"
| "handoff_delta (HDispatched a q w d) (EvHandoffExpired now) = (if d + w \<le> now then Some HIdle else None)"
| "handoff_delta (HQueued a f q w) (EvAbandoned by) = (if by \<in> {None, Some a} then Some HIdle else None)"
| "handoff_delta (HInvoked a q w) (EvAbandoned by) = (if by \<in> {None, Some a} then Some HIdle else None)"
| "handoff_delta (HDispatched a q w d) (EvAbandoned by) =
     (if by \<in> {None, Some a} then Some HIdle else None)"
| "handoff_delta q e = None"

fun handoff_sim :: "RequiredRecoveryHandoff \<Rightarrow> handoff_phase \<Rightarrow> bool" where
  "handoff_sim h HIdle \<longleftrightarrow> rrh_phase h = HpEmpty"
| "handoff_sim h (HQueued a f q w) \<longleftrightarrow>
     rrh_phase h = HpQueued \<and> rrh_account h = a \<and> a \<noteq> 0 \<and> rrh_failedConnection h = f \<and>
     rrh_windowSeconds h = w \<and> rrh_expiresAt h = q + w"
| "handoff_sim h (HInvoked a q w) \<longleftrightarrow>
     rrh_phase h = HpInvoked \<and> rrh_account h = a \<and> a \<noteq> 0 \<and>
     rrh_windowSeconds h = w \<and> rrh_expiresAt h = q + w"
| "handoff_sim h (HDispatched a q w d) \<longleftrightarrow>
     rrh_phase h = HpServerInfoClaimed \<and> rrh_account h = a \<and> a \<noteq> 0 \<and>
     rrh_windowSeconds h = w \<and> rrh_expiresAt h = d + w \<and> d < q + w"

lemma handoff_step_simulates:
  assumes "handoff_sim h q"
  shows "\<exists>q'. spec_run handoff_delta q (fst (handoff_step op h)) = Some q' \<and>
              handoff_sim (snd (handoff_step op h)) q'"
  using assms
  by (cases q; cases op) (auto simp: handoff_defs handoff_result_events_def)

interpretation handoff_life: lifecycle handoff_step handoff_delta handoff_sim
  by unfold_locales (rule handoff_step_simulates)

section \<open>Properties\<close>

text \<open>
  C18. The reconnect primitive is invoked at most once per queued handoff, and the handoff is
  bounded in time.  For every sequence of calls the events are a run of the handoff automaton:
  an invocation needs a preceding successful \<^verbatim>\<open>Queue\<close> with the same account and the same
  failed connection, within the window, and no second invocation follows before a new
  \<^verbatim>\<open>Queue\<close>; the server info is dispatched, and the baseline begins, only after the
  invocation and for the queued account; the baseline begins before twice the window after the
  handoff was queued; nothing expires before its deadline; and only the owner (or a full reset)
  abandons a handoff.
\<close>

theorem handoff_invoked_once_and_bounded:
  "\<exists>q. spec_run handoff_delta HIdle
         (fst (run_ops handoff_step RequiredRecoveryHandoff_new ops)) = Some q \<and>
       handoff_sim (snd (run_ops handoff_step RequiredRecoveryHandoff_new ops)) q"
  by (rule handoff_life.run_simulates) (simp add: RequiredRecoveryHandoff_new_def)

end
