(* ===== verification/CppString.thy ===== *)
theory CppString
  imports HolyPrelude
begin

text \<open>
  The operations of \<^verbatim>\<open>std::string\<close> the path and key functions of the repository use:
  comparing a sub-range with a literal, searching for a character or a literal from a
  position, and the split at a separator that specifies the segment loops.
\<close>

section \<open>Searching\<close>

text \<open>\<^verbatim>\<open>s.compare(0, n, lit) == 0\<close> for a literal of length \<open>n\<close>.\<close>

definition starts_with :: "string \<Rightarrow> string \<Rightarrow> bool" where
  "starts_with s lit \<longleftrightarrow> take (length lit) s = lit"

text \<open>\<^verbatim>\<open>s.compare(s.size() - n, n, lit) == 0\<close>, guarded by \<^verbatim>\<open>s.size() >= n\<close>.\<close>

definition ends_with :: "string \<Rightarrow> string \<Rightarrow> bool" where
  "ends_with s lit \<longleftrightarrow> length lit \<le> length s \<and> drop (length s - length lit) s = lit"

text \<open>\<^verbatim>\<open>s.find(c)\<close> and \<^verbatim>\<open>s.find(lit)\<close>: the first index, or none for \<^verbatim>\<open>npos\<close>.\<close>

fun find_char :: "char \<Rightarrow> string \<Rightarrow> nat option" where
  "find_char c [] = None"
| "find_char c (x # xs) = (if x = c then Some 0 else map_option Suc (find_char c xs))"

fun find_str :: "string \<Rightarrow> string \<Rightarrow> nat option" where
  "find_str lit [] = (if lit = [] then Some 0 else None)"
| "find_str lit (x # xs) =
     (if starts_with (x # xs) lit then Some 0 else map_option Suc (find_str lit xs))"

text \<open>\<^verbatim>\<open>s.find(c, from)\<close>.\<close>

definition find_char_from :: "char \<Rightarrow> string \<Rightarrow> nat \<Rightarrow> nat option" where
  "find_char_from c s from' =
     (if length s < from' then None else map_option (\<lambda>i. from' + i) (find_char c (drop from' s)))"

lemma starts_with_append [simp]: "starts_with (lit @ s) lit"
  by (simp add: starts_with_def)

lemma starts_with_iff: "starts_with s lit \<longleftrightarrow> (\<exists>r. s = lit @ r)"
  by (metis append_eq_conv_conj append_take_drop_id starts_with_def)

lemma ends_with_iff: "ends_with s lit \<longleftrightarrow> (\<exists>r. s = r @ lit)"
  by (auto simp: ends_with_def) (metis append_take_drop_id)

lemma find_char_None [simp]: "find_char c s = None \<longleftrightarrow> c \<notin> set s"
  by (induction s) auto

lemma find_char_Some:
  "find_char c s = Some i \<Longrightarrow> i < length s \<and> s ! i = c \<and> c \<notin> set (take i s)"
proof (induction s arbitrary: i)
  case (Cons x xs)
  then show ?case by (cases i) (auto split: if_splits)
qed simp

lemma find_char_append:
  "c \<notin> set us \<Longrightarrow> find_char c (us @ c # vs) = Some (length us)"
  by (induction us) auto

lemma find_str_None: "find_str lit s = None \<longleftrightarrow> (\<forall>us vs. s \<noteq> us @ lit @ vs)"
proof (induction s)
  case Nil
  then show ?case by auto
next
  case (Cons x xs)
  show ?case
  proof (cases "starts_with (x # xs) lit")
    case True
    then obtain r where "x # xs = lit @ r" by (auto simp: starts_with_iff)
    then have "\<exists>us vs. x # xs = us @ lit @ vs" by (metis append_Nil)
    then show ?thesis using True by simp
  next
    case False
    have "(\<exists>us vs. x # xs = us @ lit @ vs) \<longleftrightarrow> (\<exists>us vs. xs = us @ lit @ vs)"
    proof
      assume "\<exists>us vs. x # xs = us @ lit @ vs"
      then obtain us vs where eq: "x # xs = us @ lit @ vs" by blast
      with False have "us \<noteq> []" by (auto simp: starts_with_iff)
      then show "\<exists>us vs. xs = us @ lit @ vs" using eq by (cases us) auto
    next
      assume "\<exists>us vs. xs = us @ lit @ vs"
      then show "\<exists>us vs. x # xs = us @ lit @ vs" by (metis append_Cons)
    qed
    then show ?thesis using False Cons by (metis find_str.simps(2) option.map_disc_iff)
  qed
qed

lemma find_str_skip:
  assumes "c \<notin> set us"
  shows "find_str (c # lit) (us @ s) = map_option (\<lambda>i. length us + i) (find_str (c # lit) s)"
  using assms
proof (induction us)
  case Nil
  then show ?case by (cases "find_str (c # lit) s") auto
next
  case (Cons u us)
  then show ?case
    by (cases "find_str (c # lit) s") (auto simp: starts_with_def)
qed

lemma find_char_from_Some:
  assumes "find_char_from c s k = Some e"
  shows "k \<le> e \<and> e < length s \<and> s ! e = c \<and> c \<notin> set (take (e - k) (drop k s))"
  using assms
  by (auto simp: find_char_from_def split: if_splits dest!: find_char_Some)

lemma drop_take_split:
  assumes "k \<le> e" and "e < length s"
  shows "drop k s = take (e - k) (drop k s) @ s ! e # drop (e + 1) s"
proof -
  have "drop k s = take (e - k) (drop k s) @ drop (e - k) (drop k s)"
    by (rule append_take_drop_id [symmetric])
  moreover have "drop (e - k) (drop k s) = drop e s" using assms(1) by simp
  moreover have "drop e s = s ! e # drop (e + 1) s"
    using Cons_nth_drop_Suc [OF assms(2)] by simp
  ultimately show ?thesis by simp
qed

lemma find_char_from_None:
  assumes "find_char_from c s k = None" and "k \<le> length s"
  shows "c \<notin> set (drop k s)"
  using assms by (auto simp: find_char_from_def)

section \<open>Splitting at a separator\<close>

fun split_at :: "char \<Rightarrow> string \<Rightarrow> string list" where
  "split_at c [] = [[]]"
| "split_at c (x # xs) =
     (if x = c then [] # split_at c xs
      else (case split_at c xs of [] \<Rightarrow> [[x]] | w # ws \<Rightarrow> (x # w) # ws))"

lemma split_at_not_Nil [simp]: "split_at c s \<noteq> []"
  by (induction s) (auto split: list.splits)

lemma split_at_no_sep: "c \<notin> set s \<Longrightarrow> split_at c s = [s]"
  by (induction s) auto

lemma split_at_append:
  "c \<notin> set us \<Longrightarrow> split_at c (us @ c # vs) = us # split_at c vs"
  by (induction us) (auto split: list.splits)

end
