(* ===== verification/RefreshPaths.thy ===== *)
theory RefreshPaths
  imports CppString
begin

text \<open>
  The refresh path functions of \<^verbatim>\<open>source/modules/gmoddatapack_luapack_policy.h\<close>:
  spellings of one Lua file are reduced to its canonical registration without accepting an
  absolute or traversing path.  A function that returns false and leaves its output
  parameter unusable is an option here.
\<close>

section \<open>Definitions\<close>

text \<open>\<^verbatim>\<open>std::replace(path.begin(), path.end(), '\\', '/')\<close>; the backslash is character 92.\<close>

definition forward_slashes :: "string \<Rightarrow> string" where
  "forward_slashes path = map (\<lambda>c. if c = CHR 0x5C then CHR ''/'' else c) path"

fun drop_dot_slash :: "string \<Rightarrow> string" where
  "drop_dot_slash (a # b # rest) =
     (if a = CHR ''.'' \<and> b = CHR ''/'' then drop_dot_slash rest else a # b # rest)"
| "drop_dot_slash path = path"

text \<open>The segment loop, from \<open>segmentStart\<close> on.\<close>

definition bad_segment :: "string \<Rightarrow> bool" where
  "bad_segment seg \<longleftrightarrow>
     (length seg = 0 \<or> (length seg = 1 \<and> seg ! 0 = CHR ''.'') \<or>
      (length seg = 2 \<and> seg ! 0 = CHR ''.'' \<and> seg ! 1 = CHR ''.''))"

function segments_ok :: "string \<Rightarrow> nat \<Rightarrow> bool" where
  "segments_ok path segmentStart =
     (if length path < segmentStart then True
      else
        (let segmentEnd = find_char_from (CHR ''/'') path segmentStart;
             seg = take ((case segmentEnd of None \<Rightarrow> length path | Some e \<Rightarrow> e) - segmentStart)
                     (drop segmentStart path)
         in if bad_segment seg then False
            else (case segmentEnd of
                    None \<Rightarrow> True
                  | Some e \<Rightarrow> segments_ok path (e + 1))))"
  by auto

termination
  by (relation "measure (\<lambda>(path, start). length path + 1 - start)")
    (auto dest!: find_char_from_Some [OF sym])

declare segments_ok.simps [simp del]

definition NormalizeExistingLuaRefreshRegistrationPath :: "string \<Rightarrow> string option" where
  "NormalizeExistingLuaRefreshRegistrationPath path0 =
     (let path = drop_dot_slash (forward_slashes path0)
      in if path = [] \<or> hd path = CHR ''/'' \<or> find_char (CHR '':'') path \<noteq> None then None
         else if starts_with path ''addons/'' \<and> find_str ''/lua/'' path = None then None
         else if path = [] \<or> length path < 5 \<or> \<not> ends_with path ''.lua'' then None
         else if \<not> segments_ok path 0 then None
         else Some path)"

definition NormalizeExistingLuaRefreshPath :: "string \<Rightarrow> string option" where
  "NormalizeExistingLuaRefreshPath path0 =
     (case NormalizeExistingLuaRefreshRegistrationPath path0 of
        None \<Rightarrow> None
      | Some path \<Rightarrow>
          if starts_with path ''lua/''
          then NormalizeExistingLuaRefreshRegistrationPath (drop 4 path)
          else if starts_with path ''addons/''
          then (case find_str ''/lua/'' path of
                  None \<Rightarrow> None
                | Some luaRoot \<Rightarrow>
                    NormalizeExistingLuaRefreshRegistrationPath (drop (luaRoot + 5) path))
          else NormalizeExistingLuaRefreshRegistrationPath path)"

datatype LuaRefreshPathResolution = InvalidPath | UnknownRegistration | ExistingRegistration

text \<open>
  The closures of \<^verbatim>\<open>ResolveExistingLuaRefreshPath\<close> share three locals: whether any
  candidate normalised, the spellings tried, and the output.
\<close>

record resolve_locals =
  rl_normalizedAny :: bool
  rl_tried :: "string set"
  rl_output :: string

definition trySpelling ::
  "(string \<Rightarrow> bool) \<Rightarrow> string \<Rightarrow> resolve_locals \<Rightarrow> bool \<times> resolve_locals" where
  "trySpelling exists spelling l =
     (if spelling \<in> rl_tried l then (False, l)
      else
        (let l1 = l\<lparr>rl_tried := insert spelling (rl_tried l)\<rparr>
         in if \<not> exists spelling then (False, l1) else (True, l1\<lparr>rl_output := spelling\<rparr>)))"

definition tryCandidate ::
  "(string \<Rightarrow> bool) \<Rightarrow> string \<Rightarrow> resolve_locals \<Rightarrow> bool \<times> resolve_locals" where
  "tryCandidate exists candidate l =
     (let (found, l1) =
        (case NormalizeExistingLuaRefreshRegistrationPath candidate of
           Some registrationPath \<Rightarrow>
             trySpelling exists registrationPath (l\<lparr>rl_normalizedAny := True\<rparr>)
         | None \<Rightarrow> (False, l))
      in if found then (True, l1)
         else (case NormalizeExistingLuaRefreshPath candidate of
                 None \<Rightarrow> (False, l1)
               | Some normalized \<Rightarrow>
                   trySpelling exists normalized (l1\<lparr>rl_normalizedAny := True\<rparr>)))"

definition ResolveExistingLuaRefreshPath ::
  "string \<Rightarrow> string \<Rightarrow> (string \<Rightarrow> bool) \<Rightarrow> LuaRefreshPathResolution \<times> string" where
  "ResolveExistingLuaRefreshPath fileRelPath fileName exists =
     (let (found1, l1) = tryCandidate exists fileName
            \<lparr>rl_normalizedAny = False, rl_tried = {}, rl_output = []\<rparr>;
          (found, l) = (if found1 then (True, l1) else tryCandidate exists fileRelPath l1)
      in if found then (ExistingRegistration, rl_output l)
         else (if rl_normalizedAny l then UnknownRegistration else InvalidPath, rl_output l))"

definition BuildLuaAutoRefreshSourcePath :: "string \<Rightarrow> string \<Rightarrow> string \<Rightarrow> string option" where
  "BuildLuaAutoRefreshSourcePath directory stem extension =
     (if extension \<noteq> ''lua'' \<or> stem = [] \<or> CHR ''/'' \<in> set stem \<or> CHR 0x5C \<in> set stem then None
      else
        (let path = (if directory \<noteq> [] \<and> last directory \<noteq> CHR ''/'' \<and> last directory \<noteq> CHR 0x5C
                     then directory @ ''/'' else directory)
         in NormalizeExistingLuaRefreshRegistrationPath (path @ stem @ ''.'' @ extension)))"

section \<open>The segment loop\<close>

text \<open>The specification of the loop: no segment is empty, \<open>.\<close> or \<open>..\<close>.\<close>

definition safe_segments :: "string list \<Rightarrow> bool" where
  "safe_segments segs \<longleftrightarrow> {'''', ''.'', ''..''} \<inter> set segs = {}"

lemma bad_segment_iff: "bad_segment seg \<longleftrightarrow> seg \<in> {'''', ''.'', ''..''}"
proof (cases seg)
  case Nil
  then show ?thesis by (simp add: bad_segment_def)
next
  case (Cons a r)
  then show ?thesis by (cases r; cases "tl r") (auto simp: bad_segment_def)
qed

lemma safe_segments_Cons [simp]:
  "safe_segments (seg # segs) \<longleftrightarrow> \<not> bad_segment seg \<and> safe_segments segs"
  by (auto simp: safe_segments_def bad_segment_iff)

lemma safe_segments_Nil [simp]: "safe_segments []"
  by (simp add: safe_segments_def)

lemma segments_ok_split:
  "start \<le> length path \<Longrightarrow>
     segments_ok path start \<longleftrightarrow> safe_segments (split_at (CHR ''/'') (drop start path))"
proof (induction path start rule: segments_ok.induct)
  case (1 path start)
  note ok = segments_ok.simps [of path start]
  show ?case
  proof (cases "find_char_from (CHR ''/'') path start")
    case None
    from find_char_from_None [OF None "1.prems"]
    have "split_at (CHR ''/'') (drop start path) = [drop start path]" by (rule split_at_no_sep)
    then show ?thesis using "1.prems" None by (simp add: ok)
  next
    case (Some e)
    let ?seg = "take (e - start) (drop start path)"
    from find_char_from_Some [OF Some]
    have e: "start \<le> e" "e < length path" "path ! e = CHR ''/''" "CHR ''/'' \<notin> set ?seg" by auto
    have "drop start path = ?seg @ CHR ''/'' # drop (e + 1) path"
      using drop_take_split [OF e(1,2)] e(3) by simp
    then have sp: "split_at (CHR ''/'') (drop start path) =
        ?seg # split_at (CHR ''/'') (drop (e + 1) path)"
      using split_at_append [OF e(4)] by metis
    show ?thesis
    proof (cases "bad_segment ?seg")
      case True
      then show ?thesis using "1.prems" Some by (simp add: ok sp)
    next
      case False
      have "segments_ok path (e + 1) \<longleftrightarrow> safe_segments (split_at (CHR ''/'') (drop (e + 1) path))"
      proof (rule "1.IH" [OF _ refl refl])
        show "\<not> length path < start" using "1.prems" by simp
        show "find_char_from (CHR ''/'') path start = Some e" by (rule Some)
        show "e + 1 \<le> length path" using e(2) by simp
        show "\<not> bad_segment (take ((case find_char_from (CHR ''/'') path start of
            None \<Rightarrow> length path | Some e \<Rightarrow> e) - start) (drop start path))"
          using False Some by simp
      qed
      then show ?thesis using "1.prems" Some False by (simp add: ok sp)
    qed
  qed
qed

definition safe_registration :: "string \<Rightarrow> bool" where
  "safe_registration path \<longleftrightarrow>
     path \<noteq> [] \<and> hd path \<noteq> CHR ''/'' \<and> {CHR '':'', CHR 0x5C} \<inter> set path = {} \<and>
     ends_with path ''.lua'' \<and> safe_segments (split_at (CHR ''/'') path)"

lemma drop_dot_slash_no_prefix: "\<not> starts_with (drop_dot_slash p) ''./''"
  by (induction p rule: drop_dot_slash.induct) (auto simp: starts_with_def)

lemma drop_dot_slash_id: "\<not> starts_with p ''./'' \<Longrightarrow> drop_dot_slash p = p"
  by (induction p rule: drop_dot_slash.induct) (auto simp: starts_with_def)

lemma set_drop_dot_slash: "set (drop_dot_slash p) \<subseteq> set p"
  by (induction p rule: drop_dot_slash.induct) auto

lemma forward_slashes_no_backslash: "CHR 0x5C \<notin> set (forward_slashes p)"
  by (auto simp: forward_slashes_def)

lemma forward_slashes_id: "CHR 0x5C \<notin> set p \<Longrightarrow> forward_slashes p = p"
  by (induction p) (auto simp: forward_slashes_def)

text \<open>The checks the function makes once the separators are normalised.\<close>

definition registration_checks :: "string \<Rightarrow> bool" where
  "registration_checks path \<longleftrightarrow>
     path \<noteq> [] \<and> hd path \<noteq> CHR ''/'' \<and> CHR '':'' \<notin> set path \<and>
     \<not> (starts_with path ''addons/'' \<and> find_str ''/lua/'' path = None) \<and>
     5 \<le> length path \<and> ends_with path ''.lua'' \<and> safe_segments (split_at (CHR ''/'') path)"

lemma Registration_eq:
  "NormalizeExistingLuaRefreshRegistrationPath p =
     (let q = drop_dot_slash (forward_slashes p) in if registration_checks q then Some q else None)"
  by (auto simp: NormalizeExistingLuaRefreshRegistrationPath_def registration_checks_def Let_def
      segments_ok_split not_less)

lemma Registration_Some:
  "NormalizeExistingLuaRefreshRegistrationPath p = Some q \<longleftrightarrow>
     q = drop_dot_slash (forward_slashes p) \<and> registration_checks q"
  by (auto simp: Registration_eq Let_def)

lemma Registration_safe:
  assumes "NormalizeExistingLuaRefreshRegistrationPath p = Some q"
  shows "safe_registration q"
  using assms set_drop_dot_slash [of "forward_slashes p"] forward_slashes_no_backslash [of p]
  by (auto simp: Registration_Some registration_checks_def safe_registration_def)

lemma Registration_idem:
  assumes "NormalizeExistingLuaRefreshRegistrationPath p = Some q"
  shows "NormalizeExistingLuaRefreshRegistrationPath q = Some q"
proof -
  from assms have q: "q = drop_dot_slash (forward_slashes p)" "registration_checks q"
    by (auto simp: Registration_Some)
  have "CHR 0x5C \<notin> set q" using set_drop_dot_slash forward_slashes_no_backslash q(1) by blast
  moreover have "\<not> starts_with q ''./''" using q(1) drop_dot_slash_no_prefix by simp
  ultimately show ?thesis
    using q(2) by (simp add: Registration_Some forward_slashes_id drop_dot_slash_id)
qed

lemma Path_is_registration:
  assumes "NormalizeExistingLuaRefreshPath p = Some q"
  shows "\<exists>r. NormalizeExistingLuaRefreshRegistrationPath r = Some q"
  using assms
  by (auto simp: NormalizeExistingLuaRefreshPath_def split: option.splits if_splits)

section \<open>Spellings\<close>

text \<open>The spellings one candidate stands for, in the order they are tried.\<close>

definition spellings :: "string \<Rightarrow> string list" where
  "spellings candidate =
     (case NormalizeExistingLuaRefreshRegistrationPath candidate of None \<Rightarrow> [] | Some r \<Rightarrow> [r]) @
     (case NormalizeExistingLuaRefreshPath candidate of None \<Rightarrow> [] | Some r \<Rightarrow> [r])"

definition untried_ok :: "(string \<Rightarrow> bool) \<Rightarrow> resolve_locals \<Rightarrow> bool" where
  "untried_ok exists l \<longleftrightarrow> (\<forall>s \<in> rl_tried l. \<not> exists s) \<and> rl_output l = []"

lemma trySpelling_spec:
  assumes "untried_ok exists l"
  shows "if exists s then trySpelling exists s l =
           (True, l\<lparr>rl_tried := insert s (rl_tried l), rl_output := s\<rparr>)
         else \<exists>l'. trySpelling exists s l = (False, l') \<and> untried_ok exists l' \<and>
                rl_normalizedAny l' = rl_normalizedAny l"
  using assms by (auto simp: trySpelling_def untried_ok_def Let_def)

lemma tryCandidate_spec:
  assumes "untried_ok exists l"
  shows "case find exists (spellings c) of
      Some s \<Rightarrow> \<exists>l'. tryCandidate exists c l = (True, l') \<and> rl_output l' = s
    | None \<Rightarrow> \<exists>l'. tryCandidate exists c l = (False, l') \<and> untried_ok exists l' \<and>
        rl_normalizedAny l' = (rl_normalizedAny l \<or> spellings c \<noteq> [])"
  using assms
  by (auto simp: tryCandidate_def spellings_def trySpelling_def untried_ok_def Let_def
      split: option.splits)

section \<open>Properties\<close>

text \<open>
  C40. A refresh path can only name a canonical registration.  Whatever spelling comes in, a
  path the function accepts is relative, contains no colon and no backslash, ends in
  \<^verbatim>\<open>.lua\<close>, has no empty, \<^verbatim>\<open>.\<close> or \<^verbatim>\<open>..\<close> segment, and is a fixed point of the
  normalisation.
\<close>

theorem refresh_path_canonical:
  assumes "NormalizeExistingLuaRefreshPath p = Some q"
  shows "safe_registration q \<and> NormalizeExistingLuaRefreshRegistrationPath q = Some q"
  using Path_is_registration [OF assms] Registration_safe Registration_idem by blast

theorem refresh_path_canonical_witness: "safe_registration ''foo/bar.lua''"
proof -
  have "NormalizeExistingLuaRefreshPath ''./lua/foo/bar.lua'' = Some ''foo/bar.lua''"
    by code_simp
  from refresh_path_canonical [OF this] show ?thesis by simp
qed

lemma safe_segments_append:
  "CHR ''/'' \<notin> set us \<Longrightarrow> safe_segments (split_at (CHR ''/'') (us @ CHR ''/'' # vs)) \<longleftrightarrow>
     \<not> bad_segment us \<and> safe_segments (split_at (CHR ''/'') vs)"
  by (simp add: split_at_append)

lemma drop_forward_safe:
  "CHR 0x5C \<notin> set p \<Longrightarrow> \<not> starts_with p ''./'' \<Longrightarrow> drop_dot_slash (forward_slashes p) = p"
  by (simp add: forward_slashes_id drop_dot_slash_id)

lemma Registration_fixed:
  assumes "NormalizeExistingLuaRefreshRegistrationPath r = Some r"
  shows "registration_checks r \<and> CHR 0x5C \<notin> set r \<and> \<not> starts_with r ''./''"
  using assms set_drop_dot_slash [of "forward_slashes r"] forward_slashes_no_backslash [of r]
    drop_dot_slash_no_prefix [of "forward_slashes r"]
  by (auto simp: Registration_Some)

lemma lua_root_spelling:
  assumes "NormalizeExistingLuaRefreshRegistrationPath r = Some r"
  shows "NormalizeExistingLuaRefreshPath (''lua/'' @ r) = Some r"
proof -
  note r = Registration_fixed [OF assms]
  have "NormalizeExistingLuaRefreshRegistrationPath (''lua/'' @ r) = Some (''lua/'' @ r)"
    unfolding Registration_Some
  proof
    show "''lua/'' @ r = drop_dot_slash (forward_slashes (''lua/'' @ r))"
      using r by (subst drop_forward_safe) (auto simp: starts_with_def)
    have "safe_segments (split_at (CHR ''/'') (''lua'' @ CHR ''/'' # r))"
      by (subst safe_segments_append) (use r in \<open>auto simp: registration_checks_def bad_segment_iff\<close>)
    then show "registration_checks (''lua/'' @ r)"
      using r by (auto simp: registration_checks_def starts_with_def ends_with_iff)
  qed
  then show ?thesis
    using assms by (simp add: NormalizeExistingLuaRefreshPath_def starts_with_def)
qed

lemma word_then_slash:
  assumes "CHR ''/'' \<notin> set name" and "starts_with (name @ CHR ''/'' # s) (w @ ''/'')"
    and "CHR ''/'' \<notin> set w"
  shows "name = w"
proof -
  from assms(2) obtain t where eq: "name @ CHR ''/'' # s = w @ CHR ''/'' # t"
    by (auto simp: starts_with_iff)
  have "Some (length name) = Some (length w)"
    using find_char_append [OF assms(1), of s] find_char_append [OF assms(3), of t]
    by (simp only: eq)
  then show ?thesis using eq by simp
qed

lemma addon_lua_root:
  assumes "CHR ''/'' \<notin> set name" and "name \<noteq> ''lua''"
  shows "find_str ''/lua/'' (''addons/'' @ name @ ''/lua/'' @ r) = Some (7 + length name)"
proof -
  let ?rest = "name @ ''/lua/'' @ r"
  have "\<not> starts_with (CHR ''/'' # ?rest) ''/lua/''"
  proof
    assume "starts_with (CHR ''/'' # ?rest) ''/lua/''"
    then have "starts_with (name @ CHR ''/'' # (''lua/'' @ r)) (''lua'' @ ''/'')"
      by (simp add: starts_with_def)
    from word_then_slash [OF assms(1) this] assms(2) show False by simp
  qed
  moreover have "find_str ''/lua/'' ?rest = Some (length name)"
    using find_str_skip [OF assms(1), of "''lua/''" "''/lua/'' @ r"] by (simp add: starts_with_def)
  ultimately have "find_str ''/lua/'' (CHR ''/'' # ?rest) = Some (Suc (length name))"
    by simp
  then show ?thesis
    using find_str_skip [of "CHR ''/''" "''addons''" "''lua/''" "CHR ''/'' # ?rest"] by simp
qed

definition addon_name :: "string \<Rightarrow> bool" where
  "addon_name name \<longleftrightarrow>
     {CHR ''/'', CHR '':'', CHR 0x5C} \<inter> set name = {} \<and> name \<notin> {'''', ''.'', ''..'', ''lua''}"

lemma addon_spelling:
  assumes "NormalizeExistingLuaRefreshRegistrationPath r = Some r" and "addon_name name"
  shows "NormalizeExistingLuaRefreshPath (''addons/'' @ name @ ''/lua/'' @ r) = Some r"
proof -
  note r = Registration_fixed [OF assms(1)]
  let ?p = "''addons/'' @ name @ ''/lua/'' @ r"
  have name: "CHR ''/'' \<notin> set name" "name \<noteq> ''lua''" using assms(2) by (auto simp: addon_name_def)
  note root = addon_lua_root [OF name, of r]
  have "NormalizeExistingLuaRefreshRegistrationPath ?p = Some ?p"
    unfolding Registration_Some
  proof
    show "?p = drop_dot_slash (forward_slashes ?p)"
      using r assms(2) by (subst drop_forward_safe) (auto simp: starts_with_def addon_name_def)
    have "safe_segments (split_at (CHR ''/'') (''addons'' @ CHR ''/'' # name @ CHR ''/'' #
        ''lua'' @ CHR ''/'' # r))"
      using r name assms(2)
      by (subst safe_segments_append, simp, subst safe_segments_append, simp, subst safe_segments_append)
        (auto simp: registration_checks_def bad_segment_iff addon_name_def)
    then show "registration_checks ?p"
      using r root assms(2)
      by (auto simp: registration_checks_def starts_with_def ends_with_iff addon_name_def)
  qed
  moreover have "drop (7 + length name + 5) ?p = r"
  proof -
    have "drop (length (''addons/'' @ name @ ''/lua/'')) ((''addons/'' @ name @ ''/lua/'') @ r) = r"
      by (rule append_eq_conv_conj [THEN iffD1, OF refl, THEN conjunct2, symmetric])
    moreover have "length (''addons/'' @ name @ ''/lua/'') = 7 + length name + 5" by simp
    ultimately show ?thesis by (simp only: append_assoc)
  qed
  ultimately show ?thesis
    using assms(1) root by (simp add: NormalizeExistingLuaRefreshPath_def starts_with_def)
qed

text \<open>
  The three spellings of a file agree.  A canonical registration that does not itself
  start with a source root, the same file under \<^verbatim>\<open>lua/\<close>, and the same file under any
  addon's \<^verbatim>\<open>addons/name/lua/\<close> (with or without a leading \<^verbatim>\<open>./\<close>) all normalise to the
  registration.
\<close>

theorem refresh_spellings_agree:
  assumes "NormalizeExistingLuaRefreshRegistrationPath r = Some r" and "addon_name name"
    and "\<not> starts_with r ''lua/''" and "\<not> starts_with r ''addons/''"
  shows "map NormalizeExistingLuaRefreshPath
      [r, ''lua/'' @ r, ''addons/'' @ name @ ''/lua/'' @ r, ''./addons/'' @ name @ ''/lua/'' @ r] =
    [Some r, Some r, Some r, Some r]"
proof -
  have "NormalizeExistingLuaRefreshPath (''./'' @ p) = NormalizeExistingLuaRefreshPath p" for p
    by (simp add: NormalizeExistingLuaRefreshPath_def Registration_eq forward_slashes_def)
  from this [of "''addons/'' @ name @ ''/lua/'' @ r"] show ?thesis
    using addon_spelling [OF assms(1,2)] lua_root_spelling [OF assms(1)] assms
    by (simp add: NormalizeExistingLuaRefreshPath_def)
qed

theorem refresh_spellings_agree_witness:
  "NormalizeExistingLuaRefreshPath ''addons/wire/lua/autorun/a.lua'' = Some ''autorun/a.lua''"
proof -
  have "NormalizeExistingLuaRefreshRegistrationPath ''autorun/a.lua'' = Some ''autorun/a.lua''"
    by code_simp
  moreover have "addon_name ''wire''" by (simp add: addon_name_def)
  ultimately show ?thesis
    using refresh_spellings_agree [of "''autorun/a.lua''" "''wire''"] by (simp add: starts_with_def)
qed

text \<open>
  Resolution finds exactly the first existing spelling.  The closures with their shared
  \<^verbatim>\<open>tried\<close> set compute a linear search: the file name's spellings before the relative
  path's; a registration is never made up, the output is empty when nothing exists, and the
  path counts as invalid only when no spelling of either candidate normalises.
\<close>

theorem resolve_finds_first_existing:
  "ResolveExistingLuaRefreshPath fileRelPath fileName exists =
     (let tries = spellings fileName @ spellings fileRelPath
      in case find exists tries of
           Some s \<Rightarrow> (ExistingRegistration, s)
         | None \<Rightarrow> (if tries = [] then InvalidPath else UnknownRegistration, []))"
proof -
  let ?l0 = "\<lparr>rl_normalizedAny = False, rl_tried = {}, rl_output = []\<rparr>"
  have ok0: "untried_ok exists ?l0" by (simp add: untried_ok_def)
  show ?thesis
  proof (cases "find exists (spellings fileName)")
    case (Some s)
    with tryCandidate_spec [OF ok0, of fileName] obtain l'
      where "tryCandidate exists fileName ?l0 = (True, l')" "rl_output l' = s" by auto
    then show ?thesis
      using Some by (simp add: ResolveExistingLuaRefreshPath_def find_append_case)
  next
    case None
    with tryCandidate_spec [OF ok0, of fileName] obtain l1
      where l1: "tryCandidate exists fileName ?l0 = (False, l1)" "untried_ok exists l1"
        "rl_normalizedAny l1 = (spellings fileName \<noteq> [])" by auto
    show ?thesis
    proof (cases "find exists (spellings fileRelPath)")
      case (Some s)
      with tryCandidate_spec [OF l1(2), of fileRelPath] obtain l'
        where "tryCandidate exists fileRelPath l1 = (True, l')" "rl_output l' = s" by auto
      then show ?thesis
        using Some None l1(1) by (simp add: ResolveExistingLuaRefreshPath_def find_append_case)
    next
      case none: None
      with tryCandidate_spec [OF l1(2), of fileRelPath] obtain l'
        where l': "tryCandidate exists fileRelPath l1 = (False, l')" "untried_ok exists l'"
          "rl_normalizedAny l' = (rl_normalizedAny l1 \<or> spellings fileRelPath \<noteq> [])" by auto
      then show ?thesis
        using None none l1
        by (simp add: ResolveExistingLuaRefreshPath_def untried_ok_def find_append_case)
    qed
  qed
qed

end
