(* ===== verification/BitStream.thy ===== *)
theory BitStream
  imports SlotQueues DeliveryPolicy
begin

text \<open>
  The bit streams the wire functions of \<^verbatim>\<open>gmoddatapack_luapack_policy.h\<close> are
  templates over.  The operations a template calls on its \<^verbatim>\<open>BitWriter\<close> or
  \<^verbatim>\<open>BitReader\<close> are a record of functions, an argument of every definition; what
  the code relies on (a write that fits appends its bits, least significant first, and leaves
  the stream without overflow; a 16-bit read that fits returns the next word) is the
  interface \<open>bit_writer\<close> and \<open>bit_reader\<close>.  The engine's \<^verbatim>\<open>bf_write\<close> and
  \<^verbatim>\<open>bf_read\<close> are not part of the repository; the interfaces are discharged on the
  \<^verbatim>\<open>TestBitWriter\<close> and \<^verbatim>\<open>TestBitReader\<close> of
  \<^verbatim>\<open>tests/luapack_map_base_policy_tests.cpp\<close>.
\<close>

section \<open>Bits on the wire\<close>

definition ubits :: "nat \<Rightarrow> u32 \<Rightarrow> bool list" where
  "ubits n v = map (bit v) [0..<n]"

definition byte_bits :: "u8 \<Rightarrow> bool list" where
  "byte_bits b = map (bit b) [0..<8]"

definition bytes_bits :: "u8 list \<Rightarrow> bool list" where
  "bytes_bits bs = concat (map byte_bits bs)"

text \<open>The value of a little-endian bit field.\<close>

definition bits_value :: "bool list \<Rightarrow> nat" where
  "bits_value bs = horner_sum of_bool 2 bs"

lemma length_ubits [simp]: "length (ubits n v) = n"
  by (simp add: ubits_def)

lemma length_byte_bits [simp]: "length (byte_bits b) = 8"
  by (simp add: byte_bits_def)

lemma byte_bits_not_Nil [simp]: "byte_bits b \<noteq> []"
  by (simp add: byte_bits_def)

lemma length_bytes_bits [simp]: "length (bytes_bits bs) = 8 * length bs"
  by (induction bs) (simp_all add: bytes_bits_def)

lemma bytes_bits_Nil [simp]: "bytes_bits [] = []"
  and bytes_bits_Cons [simp]: "bytes_bits (b # bs) = byte_bits b @ bytes_bits bs"
  by (simp_all add: bytes_bits_def)

lemma bytes_bits_append [simp]: "bytes_bits (xs @ ys) = bytes_bits xs @ bytes_bits ys"
  by (simp add: bytes_bits_def)

lemma byte_bits_inject [simp]: "byte_bits a = byte_bits b \<longleftrightarrow> a = b"
proof
  assume "byte_bits a = byte_bits b"
  then have "\<forall>i < 8. bit a i = bit b i" by (simp add: byte_bits_def)
  then show "a = b" by (intro bit_word_eqI) simp
qed simp

lemma bytes_bits_inject [simp]: "bytes_bits xs = bytes_bits ys \<longleftrightarrow> xs = ys"
proof (induction xs arbitrary: ys)
  case Nil
  then show ?case using length_bytes_bits [of ys] by (cases ys) auto
next
  case (Cons x xs)
  then show ?case
    using length_bytes_bits [of "x # xs"] by (cases ys) (auto simp: append_eq_append_conv)
qed

lemma bytes_bits_nth:
  "i < 8 * length bs \<Longrightarrow> bytes_bits bs ! i = bit (bs ! (i div 8)) (i mod 8)"
proof (induction bs arbitrary: i)
  case (Cons b bs)
  show ?case
  proof (cases "i < 8")
    case True
    then show ?thesis by (simp add: nth_append byte_bits_def)
  next
    case False
    then obtain j where j: "i = j + 8" by (metis add.commute le_Suc_ex not_less)
    with Cons.prems have "j < 8 * length bs" by simp
    from Cons.IH [OF this] show ?thesis by (simp add: nth_append j)
  qed
qed simp

lemma take_bytes_bits:
  "n \<le> 8 * length bs \<Longrightarrow>
     take n (bytes_bits bs) = map (\<lambda>i. bit (bs ! (i div 8)) (i mod 8)) [0..<n]"
  by (rule nth_equalityI) (simp_all add: bytes_bits_nth)

lemma bits_value_ubits:
  assumes "unat v < 2 ^ n"
  shows "bits_value (ubits n v) = unat v"
proof -
  have "bit (unat v) = bit v" by (rule ext) (simp add: bit_unsigned_iff)
  then have "bits_value (ubits n v) = horner_sum of_bool 2 (map (bit (unat v)) [0..<n])"
    by (simp add: bits_value_def ubits_def)
  also have "\<dots> = take_bit n (unat v)" by (rule horner_sum_bit_eq_take_bit)
  finally show ?thesis using assms by (simp add: take_bit_nat_eq_self)
qed

section \<open>Writers\<close>

record 'w BitWriter =
  GetNumBitsWritten :: "'w \<Rightarrow> int"
  GetNumBitsLeft :: "'w \<Rightarrow> int"
  IsOverflowed :: "'w \<Rightarrow> bool"
  WriteOneBit :: "int \<Rightarrow> 'w \<Rightarrow> 'w"
  WriteUBitLong :: "u32 \<Rightarrow> int \<Rightarrow> 'w \<Rightarrow> 'w"
  WriteBits :: "u8 list \<Rightarrow> int \<Rightarrow> 'w \<Rightarrow> 'w"
  WriteBytes :: "u8 list \<Rightarrow> int \<Rightarrow> 'w \<Rightarrow> 'w"

text \<open>\<open>w'\<close> is \<open>w\<close> with \<open>xs\<close> appended, no overflow, and the room used up accordingly.\<close>

definition appended ::
  "'w BitWriter \<Rightarrow> ('w \<Rightarrow> bool list) \<Rightarrow> ('w \<Rightarrow> nat) \<Rightarrow> 'w \<Rightarrow> bool list \<Rightarrow> 'w \<Rightarrow> bool" where
  "appended W bits room w xs w' \<longleftrightarrow>
     \<not> IsOverflowed W w' \<and> bits w' = bits w @ xs \<and> room w' + length xs = room w"

locale bit_writer =
  fixes W :: "'w BitWriter" and bits :: "'w \<Rightarrow> bool list" and room :: "'w \<Rightarrow> nat"
  assumes written: "\<not> IsOverflowed W w \<Longrightarrow> GetNumBitsWritten W w = int (length (bits w))"
    and bits_left: "\<not> IsOverflowed W w \<Longrightarrow> GetNumBitsLeft W w = int (room w)"
    and one_bit: "\<lbrakk>\<not> IsOverflowed W w; 1 \<le> room w\<rbrakk> \<Longrightarrow>
      appended W bits room w [b \<noteq> 0] (WriteOneBit W b w)"
    and ubit_long: "\<lbrakk>\<not> IsOverflowed W w; n \<le> room w; n \<le> 32; unat v < 2 ^ n\<rbrakk> \<Longrightarrow>
      appended W bits room w (ubits n v) (WriteUBitLong W v (int n) w)"
    and write_bits: "\<lbrakk>\<not> IsOverflowed W w; n \<le> room w; n \<le> 8 * length data\<rbrakk> \<Longrightarrow>
      appended W bits room w (take n (bytes_bits data)) (WriteBits W data (int n) w)"
    and write_bytes: "\<lbrakk>\<not> IsOverflowed W w; 8 * n \<le> room w; n \<le> length data\<rbrakk> \<Longrightarrow>
      appended W bits room w (bytes_bits (take n data)) (WriteBytes W data (int n) w)"
begin

lemma appended_refl: "\<not> IsOverflowed W w \<Longrightarrow> appended W bits room w [] w"
  by (simp add: appended_def)

lemma appended_trans:
  "\<lbrakk>appended W bits room w xs w'; appended W bits room w' ys w''\<rbrakk> \<Longrightarrow>
     appended W bits room w (xs @ ys) w''"
  by (auto simp: appended_def)

lemma appended_room: "appended W bits room w xs w' \<Longrightarrow> room w' = room w - length xs"
  by (auto simp: appended_def)

text \<open>One more write after \<open>xs\<close>, as the append functions chain them.\<close>

lemma then_one_bit:
  "\<lbrakk>appended W bits room w xs w'; length xs + 1 \<le> room w\<rbrakk> \<Longrightarrow>
     appended W bits room w (xs @ [b \<noteq> 0]) (WriteOneBit W b w')"
  by (rule appended_trans, assumption, rule one_bit) (auto simp: appended_def)

lemma then_ubit_long:
  "\<lbrakk>appended W bits room w xs w'; length xs + n \<le> room w; n \<le> 32; unat v < 2 ^ n; k = int n\<rbrakk> \<Longrightarrow>
     appended W bits room w (xs @ ubits n v) (WriteUBitLong W v k w')"
  by (hypsubst, rule appended_trans, assumption, rule ubit_long) (auto simp: appended_def)

lemma then_write_bits:
  "\<lbrakk>appended W bits room w xs w'; length xs + n \<le> room w; n \<le> 8 * length data; k = int n\<rbrakk> \<Longrightarrow>
     appended W bits room w (xs @ take n (bytes_bits data)) (WriteBits W data k w')"
  by (hypsubst, rule appended_trans, assumption, rule write_bits) (auto simp: appended_def)

lemma then_write_bytes:
  "\<lbrakk>appended W bits room w xs w'; length xs + 8 * n \<le> room w; n \<le> length data; k = int n\<rbrakk> \<Longrightarrow>
     appended W bits room w (xs @ bytes_bits (take n data)) (WriteBytes W data k w')"
  by (hypsubst, rule appended_trans, assumption, rule write_bytes) (auto simp: appended_def)

lemma appended_check:
  "\<lbrakk>appended W bits room w xs w'; \<not> IsOverflowed W w\<rbrakk> \<Longrightarrow>
     \<not> IsOverflowed W w' \<and> GetNumBitsWritten W w' - GetNumBitsWritten W w = int (length xs)"
  by (simp add: appended_def written)

end

section \<open>The test writer\<close>

record TestBitWriter =
  tbw_bits :: "bool list"
  tbw_maximumBits :: nat
  tbw_overflowed :: bool

definition TestBitWriter_new :: "nat \<Rightarrow> TestBitWriter" where
  "TestBitWriter_new maximumBits =
     \<lparr>tbw_bits = [], tbw_maximumBits = maximumBits, tbw_overflowed = False\<rparr>"

definition TestBitWriter_WriteBit :: "bool \<Rightarrow> TestBitWriter \<Rightarrow> TestBitWriter" where
  "TestBitWriter_WriteBit v w =
     (if tbw_maximumBits w \<le> length (tbw_bits w) then w\<lparr>tbw_overflowed := True\<rparr>
      else w\<lparr>tbw_bits := tbw_bits w @ [v]\<rparr>)"

definition TestBitWriter_WriteUBitLong :: "u32 \<Rightarrow> int \<Rightarrow> TestBitWriter \<Rightarrow> TestBitWriter" where
  "TestBitWriter_WriteUBitLong v bitCount =
     fold (\<lambda>i. TestBitWriter_WriteBit (bit v i)) [0..<nat bitCount]"

definition TestBitWriter_WriteBytes :: "u8 list \<Rightarrow> int \<Rightarrow> TestBitWriter \<Rightarrow> TestBitWriter" where
  "TestBitWriter_WriteBytes bytes byteCount =
     fold (\<lambda>i. TestBitWriter_WriteUBitLong (ucast (bytes ! i)) 8) [0..<nat byteCount]"

definition TestBitWriter_WriteBits :: "u8 list \<Rightarrow> int \<Rightarrow> TestBitWriter \<Rightarrow> TestBitWriter" where
  "TestBitWriter_WriteBits bytes bitCount =
     fold (\<lambda>i. TestBitWriter_WriteBit (bit (bytes ! (i div 8)) (i mod 8))) [0..<nat bitCount]"

definition TestBitWriter_ops :: "TestBitWriter BitWriter" where
  "TestBitWriter_ops =
     \<lparr>GetNumBitsWritten = (\<lambda>w. int (length (tbw_bits w))),
      GetNumBitsLeft = (\<lambda>w. if length (tbw_bits w) \<le> tbw_maximumBits w
                            then int (tbw_maximumBits w - length (tbw_bits w)) else 0),
      IsOverflowed = tbw_overflowed,
      WriteOneBit = (\<lambda>v. TestBitWriter_WriteBit (v \<noteq> 0)),
      WriteUBitLong = TestBitWriter_WriteUBitLong,
      WriteBits = TestBitWriter_WriteBits,
      WriteBytes = TestBitWriter_WriteBytes\<rparr>"

definition tbw_room :: "TestBitWriter \<Rightarrow> nat" where
  "tbw_room w = tbw_maximumBits w - length (tbw_bits w)"

abbreviation tbw_appended :: "TestBitWriter \<Rightarrow> bool list \<Rightarrow> TestBitWriter \<Rightarrow> bool" where
  "tbw_appended \<equiv> appended TestBitWriter_ops tbw_bits tbw_room"

lemma tbw_IsOverflowed [simp]: "IsOverflowed TestBitWriter_ops = tbw_overflowed"
  by (simp add: TestBitWriter_ops_def)

lemma tbw_WriteBit_fold:
  assumes "\<not> tbw_overflowed w" and "length is \<le> tbw_room w"
  shows "tbw_appended w (map f is) (fold (\<lambda>i. TestBitWriter_WriteBit (f i)) is w)"
  using assms
proof (induction "is" arbitrary: w)
  case Nil
  then show ?case by (simp add: appended_def)
next
  case (Cons i js)
  let ?w = "TestBitWriter_WriteBit (f i) w"
  have w: "\<not> tbw_overflowed ?w" "tbw_bits ?w = tbw_bits w @ [f i]" "tbw_room ?w + 1 = tbw_room w"
    using Cons.prems by (auto simp: TestBitWriter_WriteBit_def tbw_room_def)
  then have "length js \<le> tbw_room ?w" using Cons.prems(2) by simp
  from Cons.IH [OF w(1) this] show ?case using w by (auto simp: appended_def)
qed

lemma tbw_WriteUBitLong:
  assumes "\<not> tbw_overflowed w" and "n \<le> tbw_room w"
  shows "tbw_appended w (ubits n v) (TestBitWriter_WriteUBitLong v (int n) w)"
  using tbw_WriteBit_fold [of w "[0..<n]" "bit v"] assms
  by (simp add: TestBitWriter_WriteUBitLong_def ubits_def)

lemma ubits_ucast_byte: "ubits 8 (ucast b) = byte_bits b" for b :: u8
  by (simp add: ubits_def byte_bits_def bit_unsigned_iff)

lemma tbw_WriteBytes_fold:
  assumes "\<not> tbw_overflowed w" and "8 * length is \<le> tbw_room w"
  shows "tbw_appended w (bytes_bits (map f is))
           (fold (\<lambda>i. TestBitWriter_WriteUBitLong (ucast (f i)) 8) is w)"
  using assms
proof (induction "is" arbitrary: w)
  case Nil
  then show ?case by (simp add: appended_def)
next
  case (Cons i js)
  let ?w = "TestBitWriter_WriteUBitLong (ucast (f i)) 8 w"
  have w: "tbw_appended w (byte_bits (f i)) ?w"
    using tbw_WriteUBitLong [of w 8 "ucast (f i)"] Cons.prems by (simp add: ubits_ucast_byte)
  then have "\<not> tbw_overflowed ?w" "8 * length js \<le> tbw_room ?w"
    using Cons.prems(2) by (auto simp: appended_def)
  from Cons.IH [OF this] show ?case using w by (auto simp: appended_def)
qed

lemma map_nth_upt_take: "n \<le> length xs \<Longrightarrow> map ((!) xs) [0..<n] = take n xs"
  by (rule nth_equalityI) simp_all

interpretation tbw: bit_writer TestBitWriter_ops tbw_bits tbw_room
proof (unfold_locales, goal_cases)
  case (1 w)
  then show ?case by (simp add: TestBitWriter_ops_def)
next
  case (2 w)
  then show ?case by (simp add: TestBitWriter_ops_def tbw_room_def)
next
  case (3 w v)
  then show ?case using tbw_WriteBit_fold [of w "[0]" "\<lambda>_. v \<noteq> 0"] by (simp add: TestBitWriter_ops_def)
next
  case (4 w n v)
  then show ?case using tbw_WriteUBitLong [of w n v] by (simp add: TestBitWriter_ops_def)
next
  case (5 w n data)
  then show ?case
    using tbw_WriteBit_fold [of w "[0..<n]" "\<lambda>i. bit (data ! (i div 8)) (i mod 8)"]
    by (simp add: TestBitWriter_ops_def TestBitWriter_WriteBits_def take_bytes_bits)
next
  case (6 w n data)
  then show ?case
    using tbw_WriteBytes_fold [of w "[0..<n]" "(!) data"]
    by (simp add: TestBitWriter_ops_def TestBitWriter_WriteBytes_def map_nth_upt_take)
qed

end
