(* ===== verification/RequestBatch.thy ===== *)
theory RequestBatch
  imports BitStream
begin

text \<open>
  Decoding the batch of 16-bit Lua file IDs a client requests
  (\<^verbatim>\<open>DecodeRequiredRequestIds\<close> and its guard in
  \<^verbatim>\<open>gmoddatapack_luapack_policy.h\<close>), over any reader that satisfies the interface
  \<open>bit_reader\<close>.
\<close>

section \<open>Readers\<close>

record 'r BitReader =
  br_GetNumBitsLeft :: "'r \<Rightarrow> int"
  br_IsOverflowed :: "'r \<Rightarrow> bool"
  br_ReadUBitLong :: "int \<Rightarrow> 'r \<Rightarrow> u32 \<times> 'r"

text \<open>\<open>words r\<close> are the complete 16-bit words not yet read from an intact reader \<open>r\<close>.\<close>

locale bit_reader =
  fixes R :: "'r BitReader" and intact :: "'r \<Rightarrow> bool" and words :: "'r \<Rightarrow> u16 list"
  assumes intact: "intact r \<Longrightarrow> \<not> br_IsOverflowed R r"
    and left: "intact r \<Longrightarrow> br_GetNumBitsLeft R r div 16 = int (length (words r))"
    and read16: "\<lbrakk>intact r; words r = x # xs\<rbrakk> \<Longrightarrow>
      \<exists>r'. br_ReadUBitLong R 16 r = (ucast x, r') \<and> intact r' \<and> words r' = xs"

record TestBitReader =
  tbr_values :: "u16 list"
  tbr_position :: nat
  tbr_availableBits :: int
  tbr_bitsRead :: int
  tbr_overflowed :: bool

definition TestBitReader_new :: "u16 list \<Rightarrow> int \<Rightarrow> TestBitReader" where
  "TestBitReader_new values availableBits =
     \<lparr>tbr_values = values, tbr_position = 0,
      tbr_availableBits = (if 0 \<le> availableBits then availableBits else int (length values * 16)),
      tbr_bitsRead = 0, tbr_overflowed = False\<rparr>"

definition TestBitReader_ReadUBitLong :: "int \<Rightarrow> TestBitReader \<Rightarrow> u32 \<times> TestBitReader" where
  "TestBitReader_ReadUBitLong bitCount r =
     (if bitCount \<noteq> 16 \<or> tbr_availableBits r < tbr_bitsRead r + bitCount \<or>
         length (tbr_values r) \<le> tbr_position r
      then (0, r\<lparr>tbr_overflowed := True\<rparr>)
      else (ucast (tbr_values r ! tbr_position r),
            r\<lparr>tbr_bitsRead := tbr_bitsRead r + bitCount, tbr_position := tbr_position r + 1\<rparr>))"

definition TestBitReader_ops :: "TestBitReader BitReader" where
  "TestBitReader_ops =
     \<lparr>br_GetNumBitsLeft = (\<lambda>r. tbr_availableBits r - tbr_bitsRead r),
      br_IsOverflowed = tbr_overflowed,
      br_ReadUBitLong = TestBitReader_ReadUBitLong\<rparr>"

definition tbr_left :: "TestBitReader \<Rightarrow> int" where
  "tbr_left r = tbr_availableBits r - tbr_bitsRead r"

definition tbr_words :: "TestBitReader \<Rightarrow> u16 list" where
  "tbr_words r = take (nat (tbr_left r div 16)) (drop (tbr_position r) (tbr_values r))"

definition tbr_intact :: "TestBitReader \<Rightarrow> bool" where
  "tbr_intact r \<longleftrightarrow> \<not> tbr_overflowed r \<and> 0 \<le> tbr_left r \<and>
     nat (tbr_left r div 16) \<le> length (tbr_values r) - tbr_position r"

lemma tbr_read16:
  assumes "tbr_intact r" and "tbr_words r = x # xs"
  shows "\<exists>r'. TestBitReader_ReadUBitLong 16 r = (ucast x, r') \<and> tbr_intact r' \<and> tbr_words r' = xs"
proof -
  let ?d = "drop (tbr_position r) (tbr_values r)"
  obtain n where n: "nat (tbr_left r div 16) = Suc n"
    using assms(2) by (cases "nat (tbr_left r div 16)") (auto simp: tbr_words_def)
  then have left: "16 \<le> tbr_left r" by linarith
  have pos: "tbr_position r < length (tbr_values r)"
    using assms(1) n by (auto simp: tbr_intact_def)
  then have d: "?d = tbr_values r ! tbr_position r # drop (Suc (tbr_position r)) (tbr_values r)"
    by (rule Cons_nth_drop_Suc [symmetric])
  let ?r = "r\<lparr>tbr_bitsRead := tbr_bitsRead r + 16, tbr_position := Suc (tbr_position r)\<rparr>"
  have l': "tbr_left ?r = tbr_left r - 16" by (simp add: tbr_left_def)
  have n': "nat (tbr_left ?r div 16) = n" using n left l' by linarith
  have x: "x = tbr_values r ! tbr_position r" "xs = take n (drop (Suc (tbr_position r)) (tbr_values r))"
    using assms(2) n d by (auto simp: tbr_words_def)
  have "TestBitReader_ReadUBitLong 16 r = (ucast x, ?r)"
    using left pos x(1) by (simp add: TestBitReader_ReadUBitLong_def tbr_left_def)
  moreover have "tbr_intact ?r"
  proof -
    have "Suc n \<le> length (tbr_values r) - tbr_position r"
      using assms(1) n by (simp add: tbr_intact_def)
    then have "n \<le> length (tbr_values r) - Suc (tbr_position r)" by linarith
    then show ?thesis using assms(1) n' l' left by (simp add: tbr_intact_def)
  qed
  moreover have "tbr_words ?r = xs" by (simp add: tbr_words_def n' x(2))
  ultimately show ?thesis by blast
qed

interpretation tbr: bit_reader TestBitReader_ops tbr_intact tbr_words
proof unfold_locales
  fix r x xs
  assume "tbr_intact r" and "tbr_words r = x # xs"
  then show "\<exists>r'. br_ReadUBitLong TestBitReader_ops 16 r = (ucast x, r') \<and> tbr_intact r' \<and> tbr_words r' = xs"
    using tbr_read16 by (simp add: TestBitReader_ops_def)
qed (auto simp: TestBitReader_ops_def tbr_intact_def tbr_words_def tbr_left_def min_def)

section \<open>The request batch\<close>

definition CanDecodePinnedRequiredRequestBatch ::
  "bool \<Rightarrow> bool \<Rightarrow> bool \<Rightarrow> size_t \<Rightarrow> int \<Rightarrow> int \<Rightarrow> int \<Rightarrow> nat \<Rightarrow> bool" where
  "CanDecodePinnedRequiredRequestBatch enabled canonicalRegistration payloadAvailable compressedBytes
     messageBits availableBits registeredFiles trackedCapacity \<longleftrightarrow>
     CanUsePinnedRequiredStub enabled canonicalRegistration True payloadAvailable compressedBytes \<and>
     0 < messageBits \<and> messageBits \<le> availableBits \<and> messageBits mod 16 = 0 \<and>
     1 < registeredFiles \<and> nat registeredFiles \<le> trackedCapacity \<and>
     messageBits div 16 \<le> registeredFiles"

text \<open>The loop body, \<open>requestCount\<close> times.\<close>

fun decode_requests ::
  "'r BitReader \<Rightarrow> int \<Rightarrow> nat \<Rightarrow> 'r \<Rightarrow> PinnedCanonicalFileSet \<Rightarrow> size_t
     \<Rightarrow> 'r \<times> PinnedCanonicalFileSet \<times> size_t" where
  "decode_requests R registeredFiles 0 message requested uniqueRequests =
     (message, requested, uniqueRequests)"
| "decode_requests R registeredFiles (Suc count) message requested uniqueRequests =
     (let (raw, message') = br_ReadUBitLong R 16 message;
          fileID = uint raw
      in if fileID \<le> 0 \<or> registeredFiles \<le> fileID \<or> PinnedCanonicalFileSet_Contains fileID requested
         then decode_requests R registeredFiles count message' requested uniqueRequests
         else decode_requests R registeredFiles count message'
                (PinnedCanonicalFileSet_Mark fileID requested) (uniqueRequests + 1))"

definition DecodeRequiredRequestIds ::
  "'r BitReader \<Rightarrow> 'r \<Rightarrow> int \<Rightarrow> int \<Rightarrow> PinnedCanonicalFileSet
     \<Rightarrow> bool \<times> 'r \<times> PinnedCanonicalFileSet \<times> size_t" where
  "DecodeRequiredRequestIds R message messageBits registeredFiles requested =
     (if messageBits \<le> 0 \<or> br_GetNumBitsLeft R message < messageBits \<or> messageBits mod 16 \<noteq> 0 \<or>
         registeredFiles \<le> 1 \<or> length requested < nat registeredFiles \<or>
         registeredFiles < messageBits div 16
      then (False, message, requested, 0)
      else
        (let (message', requested', uniqueRequests) =
               decode_requests R registeredFiles (nat (messageBits div 16)) message requested 0
         in (\<not> br_IsOverflowed R message', message', requested', uniqueRequests)))"

text \<open>The IDs of a batch that name a registered file.\<close>

definition valid_requests :: "int \<Rightarrow> u16 list \<Rightarrow> int set" where
  "valid_requests registeredFiles ids =
     {x \<in> uint ` set ids. 0 < x \<and> x < registeredFiles}"

lemma finite_valid_requests [simp]: "finite (valid_requests n ids)"
  by (simp add: valid_requests_def)

lemma valid_requests_Nil [simp]: "valid_requests n [] = {}"
  by (simp add: valid_requests_def)

lemma valid_requests_Cons [simp]:
  "valid_requests n (w # ids) =
     (if 0 < uint w \<and> uint w < n then insert (uint w) (valid_requests n ids)
      else valid_requests n ids)"
  by (auto simp: valid_requests_def)

context bit_reader
begin

lemma decode_requests_spec:
  assumes "intact r" and "words r = ids @ rest" and "nat registeredFiles \<le> length requested"
    and "unat u + length ids < 2 ^ 64"
  shows "\<exists>r' req u'. decode_requests R registeredFiles (length ids) r requested u = (r', req, u') \<and>
      intact r' \<and> words r' = rest \<and>
      pinned_ids req = pinned_ids requested \<union> valid_requests registeredFiles ids \<and>
      unat u' = unat u + card (valid_requests registeredFiles ids - pinned_ids requested)"
  using assms
proof (induction ids arbitrary: r requested u)
  case Nil
  then show ?case by simp
next
  case (Cons w ids)
  obtain r1 where r1: "br_ReadUBitLong R 16 r = (ucast w, r1)" "intact r1" "words r1 = ids @ rest"
    using read16 [OF Cons.prems(1)] Cons.prems(2) by auto
  let ?x = "uint w"
  have x: "uint (ucast w :: u32) = ?x" by (rule uint_ucast_up) simp
  show ?case
  proof (cases "?x \<le> 0 \<or> registeredFiles \<le> ?x \<or> ?x \<in> pinned_ids requested")
    case True
    have "unat u + length ids < 2 ^ 64" using Cons.prems(4) by simp
    from Cons.IH [OF r1(2,3) Cons.prems(3) this] show ?thesis
      using True by (auto simp: r1(1) x Let_def insert_Diff_if insert_absorb)
  next
    case False
    then have pos: "0 < ?x" by linarith
    let ?req = "PinnedCanonicalFileSet_Mark ?x requested"
    have u1: "unat (u + 1) = unat u + 1"
      using Cons.prems(4) by (subst unat_add_no_overflow) auto
    have ids: "pinned_ids ?req = insert ?x (pinned_ids requested)"
    proof -
      have "0 \<le> ?x" "nat ?x < length requested" using False Cons.prems(3) by linarith+
      then show ?thesis by (simp add: pinned_ids_Mark del: nat_uint_eq)
    qed
    have "nat registeredFiles \<le> length ?req" "unat (u + 1) + length ids < 2 ^ 64"
      using Cons.prems(3,4) u1 by auto
    from Cons.IH [OF r1(2,3) this] obtain r' req u' where IH:
      "decode_requests R registeredFiles (length ids) r1 ?req (u + 1) = (r', req, u')"
      "intact r'" "words r' = rest"
      "pinned_ids req = insert ?x (pinned_ids requested) \<union> valid_requests registeredFiles ids"
      "unat u' = unat u + 1 + card (valid_requests registeredFiles ids - insert ?x (pinned_ids requested))"
      using u1 ids by auto
    let ?V = "valid_requests registeredFiles ids"
    have "insert ?x ?V - pinned_ids requested = insert ?x (?V - insert ?x (pinned_ids requested))"
      using False by auto
    then have "card (insert ?x ?V - pinned_ids requested) =
        Suc (card (?V - insert ?x (pinned_ids requested)))"
      by (simp add: card_insert_disjoint)
    then show ?thesis
      using False IH pos by (auto simp: r1(1) x Let_def)
  qed
qed

end

section \<open>Property\<close>

text \<open>
  A request batch that passed the guard is decoded exactly.  For every reader that keeps
  the documented contract, when \<^verbatim>\<open>CanDecodePinnedRequiredRequestBatch\<close> accepted the
  message (with the reader's own bit count and the capacity of the set), decoding succeeds,
  reads exactly the message, adds to the set precisely the registered file IDs it names (ID 0,
  out-of-range IDs and duplicates are ignored), and counts each newly requested file once.
\<close>

theorem request_batch_decoded_exactly:
  assumes "bit_reader R intact words" and "intact r"
    and "CanDecodePinnedRequiredRequestBatch enabled canonical payload compressedBytes
           messageBits (br_GetNumBitsLeft R r) registeredFiles (length requested)"
    and "messageBits < 2 ^ 31"
  shows "\<exists>r' req u. DecodeRequiredRequestIds R r messageBits registeredFiles requested = (True, r', req, u) \<and>
      words r' = drop (nat (messageBits div 16)) (words r) \<and>
      pinned_ids req = pinned_ids requested \<union>
        valid_requests registeredFiles (take (nat (messageBits div 16)) (words r)) \<and>
      unat u = card (valid_requests registeredFiles (take (nat (messageBits div 16)) (words r)) -
        pinned_ids requested)"
proof -
  let ?n = "nat (messageBits div 16)"
  have guard: "0 < messageBits" "messageBits \<le> br_GetNumBitsLeft R r" "messageBits mod 16 = 0"
      "1 < registeredFiles" "nat registeredFiles \<le> length requested"
      "messageBits div 16 \<le> registeredFiles"
    using assms(3) by (auto simp: CanDecodePinnedRequiredRequestBatch_def)
  have "messageBits div 16 \<le> br_GetNumBitsLeft R r div 16" by (rule zdiv_mono1 [OF guard(2)]) simp
  then have n: "?n \<le> length (words r)" using bit_reader.left [OF assms(1,2)] by simp
  have "unat (0 :: size_t) + length (take ?n (words r)) < 2 ^ 64" using assms(4) by simp
  from bit_reader.decode_requests_spec [OF assms(1,2) append_take_drop_id [symmetric] guard(5) this]
  obtain r' req u' where dec:
    "decode_requests R registeredFiles (length (take ?n (words r))) r requested 0 = (r', req, u')"
    "intact r'" "words r' = drop ?n (words r)"
    "pinned_ids req = pinned_ids requested \<union> valid_requests registeredFiles (take ?n (words r))"
    "unat u' = card (valid_requests registeredFiles (take ?n (words r)) - pinned_ids requested)"
    by auto
  have "length (take ?n (words r)) = ?n" using n by simp
  then have "DecodeRequiredRequestIds R r messageBits registeredFiles requested = (True, r', req, u')"
    using guard bit_reader.intact [OF assms(1) dec(2)] dec(1)
    by (simp add: DecodeRequiredRequestIds_def)
  then show ?thesis using dec(3-5) by blast
qed

theorem request_batch_decoded_exactly_witness:
  "\<exists>r' req. DecodeRequiredRequestIds TestBitReader_ops (TestBitReader_new [3, 0, 3, 9] (-1)) 64 5
      (PinnedCanonicalFileSet_new 8) = (True, r', req, 1)"
proof -
  let ?r = "TestBitReader_new [3, 0, 3, 9] (-1)"
  have "tbr_intact ?r" by (simp add: TestBitReader_new_def tbr_intact_def tbr_left_def)
  moreover have "CanDecodePinnedRequiredRequestBatch True True True 40 64
      (br_GetNumBitsLeft TestBitReader_ops ?r) 5 (length (PinnedCanonicalFileSet_new 8))"
    by (simp add: CanDecodePinnedRequiredRequestBatch_def CanUsePinnedRequiredStub_def
        TestBitReader_ops_def TestBitReader_new_def PinnedCanonicalFileSet_new_def word_le_nat_alt)
  moreover have "tbr_words ?r = [3, 0, 3, 9]"
    by (simp add: tbr_words_def TestBitReader_new_def tbr_left_def)
  moreover have "u = 1" if "unat u = 1" for u :: size_t
    using that by (simp add: word_unat_eq_iff)
  ultimately show ?thesis
    using request_batch_decoded_exactly [OF tbr.bit_reader_axioms, of ?r True True True 40 64 5
        "PinnedCanonicalFileSet_new 8"]
    by auto
qed

end
