(* ===== verification/LuaHashWire.thy ===== *)
theory LuaHashWire
  imports BitStream CppString
begin

text \<open>
  The reliable-stream records of an active Lua refresh
  (\<^verbatim>\<open>gmoddatapack_luapack_policy.h\<close>, \<^verbatim>\<open>ClientLuaHash*\<close> and
  \<^verbatim>\<open>ActiveLuaRefresh*\<close>): the \<^verbatim>\<open>svc_UpdateStringTable\<close> record that replaces
  the hash of one file, the native refresh payload that follows it, and the parser of that
  payload.  A pointer to \<open>n\<close> bytes is an optional byte list of that length, sizes are 64-bit
  words.
\<close>

section \<open>Sizes\<close>

definition IsSourceBitWriterStorageSizeValid :: "size_t \<Rightarrow> size_t \<Rightarrow> bool" where
  "IsSourceBitWriterStorageSizeValid storageBytes payloadBits \<longleftrightarrow>
     (let payloadBytes = payloadBits div 8 + (if payloadBits mod 8 \<noteq> 0 then 1 else 0)
      in storageBytes \<noteq> 0 \<and> storageBytes mod 4 = 0 \<and> payloadBits \<noteq> 0 \<and> payloadBytes \<le> storageBytes)"

definition ClientLuaHashBytes :: size_t where "ClientLuaHashBytes = 32"
definition ClientLuaHashBits :: size_t where "ClientLuaHashBits = ClientLuaHashBytes * 8"
definition ClientLuaHashUpdateLengthBits :: nat where "ClientLuaHashUpdateLengthBits = 20"
definition ClientLuaUserDataLengthBits :: nat where "ClientLuaUserDataLengthBits = 19"

definition ClientLuaHashUpdateBits :: "int \<Rightarrow> size_t" where
  "ClientLuaHashUpdateBits entryBits =
     (if 0 < entryBits
      then 1 + of_int entryBits + 1 + 1 + of_nat ClientLuaUserDataLengthBits + ClientLuaHashBits
      else 0)"

definition ClientLuaHashUpdateWireBits :: "int \<Rightarrow> int \<Rightarrow> int \<Rightarrow> size_t" where
  "ClientLuaHashUpdateWireBits serviceTypeBits tableBits entryBits =
     (let updateBits = ClientLuaHashUpdateBits entryBits
      in if 0 < serviceTypeBits \<and> 0 < tableBits \<and> updateBits \<noteq> 0
         then of_int serviceTypeBits + of_int tableBits + 1 +
                of_nat ClientLuaHashUpdateLengthBits + updateBits
         else 0)"

definition ActiveLuaRefreshMaximumPayloadBytes :: size_t where
  "ActiveLuaRefreshMaximumPayloadBytes = 64 * 1024"
definition ActiveLuaRefreshLengthBits :: nat where "ActiveLuaRefreshLengthBits = 20"
definition ActiveLuaRefreshMessageType :: u32 where "ActiveLuaRefreshMessageType = 1"

definition ActiveLuaRefreshPayloadBits :: "size_t \<Rightarrow> size_t \<Rightarrow> size_t" where
  "ActiveLuaRefreshPayloadBits filenameBytes bodyBytes =
     (let fields = 1 + 1 + 4
      in if filenameBytes = 0 \<or> ActiveLuaRefreshMaximumPayloadBytes - fields < filenameBytes \<or>
            bodyBytes \<le> ClientLuaHashBytes \<or>
            ActiveLuaRefreshMaximumPayloadBytes - fields - filenameBytes < bodyBytes
         then 0 else (fields + filenameBytes + bodyBytes) * 8)"

definition ActiveLuaRefreshWireBits :: "int \<Rightarrow> size_t \<Rightarrow> size_t \<Rightarrow> size_t" where
  "ActiveLuaRefreshWireBits serviceTypeBits filenameBytes bodyBytes =
     (let payloadBits = ActiveLuaRefreshPayloadBits filenameBytes bodyBytes
      in if serviceTypeBits \<le> 0 \<or> 32 \<le> serviceTypeBits \<or> payloadBits = 0 then 0
         else of_int serviceTypeBits + of_nat ActiveLuaRefreshLengthBits + payloadBits)"

text \<open>\<^verbatim>\<open>1u << bits\<close>, evaluated only behind the guards that keep \<open>bits\<close> below 32.\<close>

definition shl1 :: "int \<Rightarrow> u32" where
  "shl1 n = push_bit (nat n) 1"

section \<open>The hash update\<close>

definition AppendClientLuaHashUpdate ::
  "'w BitWriter \<Rightarrow> 'w \<Rightarrow> u32 \<Rightarrow> int \<Rightarrow> u8 list option \<Rightarrow> size_t \<Rightarrow> bool \<times> 'w" where
  "AppendClientLuaHashUpdate W output fileID entryBits hash hashBytes =
     (let updateBits = ClientLuaHashUpdateBits entryBits
      in if hash = None \<or> hashBytes \<noteq> ClientLuaHashBytes \<or> entryBits \<le> 0 \<or> 32 \<le> entryBits \<or>
            fileID = 0 \<or> shl1 entryBits \<le> fileID \<or> updateBits = 0
         then (False, output)
         else
           (let bitsBefore = GetNumBitsWritten W output;
                bitsLeft = GetNumBitsLeft W output
            in if bitsBefore < 0 \<or> bitsLeft < 0 \<or> IsOverflowed W output \<or>
                  nat bitsLeft < unat updateBits \<or> INT_MAX < unat updateBits
               then (False, output)
               else
                 (let o1 = WriteOneBit W 0 output;
                      o2 = WriteUBitLong W fileID entryBits o1;
                      o3 = WriteOneBit W 0 o2;
                      o4 = WriteOneBit W 1 o3;
                      o5 = WriteUBitLong W (ucast hashBytes) (int ClientLuaUserDataLengthBits) o4;
                      o6 = WriteBits W (the hash) (uint ClientLuaHashBits) o5
                  in (\<not> IsOverflowed W o6 \<and>
                      GetNumBitsWritten W o6 - bitsBefore = uint updateBits, o6))))"

definition AppendClientLuaHashUpdateWire ::
  "'w BitWriter \<Rightarrow> 'w \<Rightarrow> u32 \<Rightarrow> int \<Rightarrow> u32 \<Rightarrow> int \<Rightarrow> u32 \<Rightarrow> int \<Rightarrow> u8 list option \<Rightarrow> size_t
     \<Rightarrow> size_t \<Rightarrow> bool \<times> 'w" where
  "AppendClientLuaHashUpdateWire W output serviceType serviceTypeBits tableID tableBits
     fileID entryBits hash hashBytes trailingReserveBits =
     (let updateBits = ClientLuaHashUpdateBits entryBits;
          wireBits = ClientLuaHashUpdateWireBits serviceTypeBits tableBits entryBits
      in if hash = None \<or> hashBytes \<noteq> ClientLuaHashBytes \<or>
            serviceTypeBits \<le> 0 \<or> 32 \<le> serviceTypeBits \<or> tableBits \<le> 0 \<or> 32 \<le> tableBits \<or>
            entryBits \<le> 0 \<or> 32 \<le> entryBits \<or>
            shl1 serviceTypeBits \<le> serviceType \<or> shl1 tableBits \<le> tableID \<or>
            fileID = 0 \<or> shl1 entryBits \<le> fileID \<or> updateBits = 0 \<or> wireBits = 0 \<or>
            push_bit ClientLuaHashUpdateLengthBits 1 \<le> updateBits
         then (False, output)
         else
           (let bitsBefore = GetNumBitsWritten W output;
                bitsLeft = GetNumBitsLeft W output
            in if bitsBefore < 0 \<or> bitsLeft < 0 \<or> IsOverflowed W output \<or>
                  nat bitsLeft < unat wireBits \<or>
                  nat bitsLeft - unat wireBits < unat trailingReserveBits \<or> INT_MAX < unat wireBits
               then (False, output)
               else
                 (let o1 = WriteUBitLong W serviceType serviceTypeBits output;
                      o2 = WriteUBitLong W tableID tableBits o1;
                      o3 = WriteOneBit W 0 o2;
                      o4 = WriteUBitLong W (ucast updateBits) (int ClientLuaHashUpdateLengthBits) o3;
                      o5 = WriteOneBit W 0 o4;
                      o6 = WriteUBitLong W fileID entryBits o5;
                      o7 = WriteOneBit W 0 o6;
                      o8 = WriteOneBit W 1 o7;
                      o9 = WriteUBitLong W (ucast hashBytes) (int ClientLuaUserDataLengthBits) o8;
                      o10 = WriteBits W (the hash) (uint ClientLuaHashBits) o9
                  in (\<not> IsOverflowed W o10 \<and>
                      GetNumBitsWritten W o10 - bitsBefore = uint wireBits, o10))))"

section \<open>The refresh payload\<close>

definition ActiveLuaRefreshBodyMatches ::
  "u8 list \<Rightarrow> u8 list option \<Rightarrow> size_t \<Rightarrow> u8 list option \<Rightarrow> size_t \<Rightarrow> bool" where
  "ActiveLuaRefreshBodyMatches filename hash hashBytes body bodyBytes \<longleftrightarrow>
     0 \<notin> set filename \<and> hash \<noteq> None \<and> hashBytes = ClientLuaHashBytes \<and> body \<noteq> None \<and>
     ActiveLuaRefreshPayloadBits (of_nat (length filename)) bodyBytes \<noteq> 0 \<and>
     take (unat hashBytes) (the body) = take (unat hashBytes) (the hash)"

record ActiveLuaRefreshPayloadView =
  alrp_filename :: "u8 list"
  alrp_body :: "u8 list"

text \<open>\<^verbatim>\<open>while (end < size && bytes[end] != 0) ++end\<close>.\<close>

function scan_nul :: "u8 list \<Rightarrow> nat \<Rightarrow> nat \<Rightarrow> nat" where
  "scan_nul bytes size' end' =
     (if end' < size' \<and> bytes ! end' \<noteq> 0 then scan_nul bytes size' (end' + 1) else end')"
  by auto

termination
  by (relation "measure (\<lambda>(bytes, size', end'). size' - end')") auto

declare scan_nul.simps [simp del]

definition le32_value :: "u8 list \<Rightarrow> u32" where
  "le32_value l =
     ucast (l ! 0) OR push_bit 8 (ucast (l ! 1)) OR push_bit 16 (ucast (l ! 2)) OR
       push_bit 24 (ucast (l ! 3))"

text \<open>The body of the view is the borrowed range, \<open>bodyBytes\<close> bytes at \<open>bodyOffset\<close>.\<close>

definition ReadActiveLuaRefreshPayload ::
  "u8 list option \<Rightarrow> int \<Rightarrow> ActiveLuaRefreshPayloadView option" where
  "ReadActiveLuaRefreshPayload data dataBits =
     (if data = None \<or> dataBits \<le> 0 \<or> dataBits mod 8 \<noteq> 0 \<or>
         unat ActiveLuaRefreshMaximumPayloadBytes < nat (dataBits div 8)
      then None
      else
        (let bytes = the data; size' = nat (dataBits div 8)
         in if size' < 7 \<or> ucast (bytes ! 0) \<noteq> ActiveLuaRefreshMessageType then None
            else
              (let end' = scan_nul bytes size' 1
               in if end' = 1 \<or> size' \<le> end' \<or> size' - end' - 1 < 4 then None
                  else
                    (let bodyBytes = le32_value (drop (end' + 1) bytes);
                         bodyOffset = end' + 1 + 4
                     in if unat bodyBytes \<noteq> size' - bodyOffset \<or>
                           ActiveLuaRefreshPayloadBits (of_nat (end' - 1)) (ucast bodyBytes) = 0
                        then None
                        else Some \<lparr>alrp_filename = take (end' - 1) (drop 1 bytes),
                                   alrp_body = take (unat bodyBytes) (drop bodyOffset bytes)\<rparr>))))"

definition AppendActiveLuaRefreshTransaction ::
  "'w BitWriter \<Rightarrow> 'w \<Rightarrow> u32 \<Rightarrow> u32 \<Rightarrow> int \<Rightarrow> u32 \<Rightarrow> int \<Rightarrow> u32 \<Rightarrow> int \<Rightarrow> u8 list
     \<Rightarrow> u8 list option \<Rightarrow> size_t \<Rightarrow> u8 list option \<Rightarrow> size_t \<Rightarrow> bool \<times> 'w" where
  "AppendActiveLuaRefreshTransaction W output hashServiceType refreshServiceType serviceTypeBits
     tableID tableBits fileID entryBits filename hash hashBytes body bodyBytes =
     (let filenameSize = of_nat (length filename);
          refreshBits = ActiveLuaRefreshWireBits serviceTypeBits filenameSize bodyBytes
      in if \<not> ActiveLuaRefreshBodyMatches filename hash hashBytes body bodyBytes \<or>
            refreshBits = 0 \<or> shl1 serviceTypeBits \<le> refreshServiceType
         then (False, output)
         else
           (let bitsBefore = GetNumBitsWritten W output;
                (appendedHash, o1) = AppendClientLuaHashUpdateWire W output hashServiceType
                  serviceTypeBits tableID tableBits fileID entryBits hash hashBytes refreshBits
            in if \<not> appendedHash then (False, o1)
               else
                 (let o2 = WriteUBitLong W refreshServiceType serviceTypeBits o1;
                      o3 = WriteUBitLong W
                             (ucast (ActiveLuaRefreshPayloadBits filenameSize bodyBytes))
                             (int ActiveLuaRefreshLengthBits) o2;
                      o4 = WriteUBitLong W ActiveLuaRefreshMessageType 8 o3;
                      o5 = WriteBytes W filename (int (length filename)) o4;
                      o6 = WriteUBitLong W 0 8 o5;
                      o7 = WriteUBitLong W (ucast bodyBytes) 32 o6;
                      o8 = WriteBytes W (the body) (uint bodyBytes) o7
                  in (\<not> IsOverflowed W o8 \<and>
                      GetNumBitsWritten W o8 - bitsBefore =
                        uint (ClientLuaHashUpdateWireBits serviceTypeBits tableBits entryBits +
                              refreshBits), o8))))"

section \<open>The records as bit lists\<close>

definition hash_update_record :: "nat \<Rightarrow> u32 \<Rightarrow> u8 list \<Rightarrow> bool list" where
  "hash_update_record entryBits fileID hash =
     [False] @ ubits entryBits fileID @ [False] @ [True] @ ubits 19 32 @ bytes_bits hash"

definition hash_wire_record ::
  "nat \<Rightarrow> u32 \<Rightarrow> nat \<Rightarrow> u32 \<Rightarrow> nat \<Rightarrow> u32 \<Rightarrow> u8 list \<Rightarrow> bool list" where
  "hash_wire_record serviceTypeBits serviceType tableBits tableID entryBits fileID hash =
     ubits serviceTypeBits serviceType @ ubits tableBits tableID @ [False] @
     ubits 20 (of_nat (length (hash_update_record entryBits fileID hash))) @
     hash_update_record entryBits fileID hash"

definition le32 :: "u32 \<Rightarrow> u8 list" where
  "le32 n = map (\<lambda>i. ucast (drop_bit (8 * i) n)) [0..<4]"

definition refresh_payload :: "u8 list \<Rightarrow> u8 list \<Rightarrow> u8 list" where
  "refresh_payload filename body = [1] @ filename @ [0] @ le32 (of_nat (length body)) @ body"

definition refresh_record :: "nat \<Rightarrow> u32 \<Rightarrow> u8 list \<Rightarrow> u8 list \<Rightarrow> bool list" where
  "refresh_record serviceTypeBits serviceType filename body =
     ubits serviceTypeBits serviceType @
     ubits 20 (of_nat (8 * length (refresh_payload filename body))) @
     bytes_bits (refresh_payload filename body)"

lemma length_le32 [simp]: "length (le32 n) = 4"
  by (simp add: le32_def)

lemma length_hash_update_record [simp]:
  "length (hash_update_record n f h) = n + 22 + 8 * length h"
  by (simp add: hash_update_record_def)

lemma length_hash_wire_record [simp]:
  "length (hash_wire_record s st t tid n f h) = s + t + n + 43 + 8 * length h"
  by (simp add: hash_wire_record_def)

lemma length_refresh_payload [simp]:
  "length (refresh_payload f b) = 6 + length f + length b"
  by (simp add: refresh_payload_def)

lemma length_refresh_record [simp]:
  "length (refresh_record s st f b) = s + 68 + 8 * length f + 8 * length b"
  by (simp add: refresh_record_def)

lemma ubits_byte_1: "ubits 8 1 = byte_bits 1"
  and ubits_byte_0: "ubits 8 0 = byte_bits 0"
  by (simp_all add: ubits_def byte_bits_def bit_1_iff)

lemma bytes_bits_le32: "bytes_bits (le32 n) = ubits 32 n"
  by (rule nth_equalityI)
    (auto simp: bytes_bits_nth ubits_def le32_def bit_unsigned_iff bit_drop_bit_eq)

section \<open>Bounds\<close>

lemma shl1_le: "0 < n \<Longrightarrow> n < 32 \<Longrightarrow> shl1 n \<le> v \<longleftrightarrow> 2 ^ nat n \<le> unat v"
  by (simp add: shl1_def word_le_nat_alt push_bit_eq_mult unat_2p)

lemma shl1_less: "0 < n \<Longrightarrow> n < 32 \<Longrightarrow> v < shl1 n \<longleftrightarrow> unat v < 2 ^ nat n"
  using shl1_le [of n v] by (simp add: not_le [symmetric])

lemma of_int_size: "0 \<le> n \<Longrightarrow> (of_int n :: size_t) = of_nat (nat n)"
  by simp

lemma unat_size: "n < 18446744073709551616 \<Longrightarrow> unat (of_nat n :: size_t) = n"
  by (rule unat_of_nat_small) simp

lemma UpdateBits_eq:
  "0 < n \<Longrightarrow> n < 32 \<Longrightarrow> ClientLuaHashUpdateBits n = of_nat (nat n + 278)"
  by (simp add: ClientLuaHashUpdateBits_def ClientLuaUserDataLengthBits_def ClientLuaHashBits_def
      ClientLuaHashBytes_def)

lemma unat_UpdateBits:
  "0 < n \<Longrightarrow> n < 32 \<Longrightarrow> unat (ClientLuaHashUpdateBits n) = nat n + 278"
  using unat_size [of "nat n + 278"] by (simp add: UpdateBits_eq del: of_nat_add)

lemma WireBits_eq:
  assumes "0 < s" "s < 32" "0 < t" "t < 32" "0 < n" "n < 32"
  shows "ClientLuaHashUpdateWireBits s t n = of_nat (nat s + nat t + nat n + 299)"
proof -
  have "ClientLuaHashUpdateBits n \<noteq> 0"
    using unat_UpdateBits [OF assms(5,6)] by auto
  then show ?thesis
    using assms by (simp add: ClientLuaHashUpdateWireBits_def UpdateBits_eq ClientLuaHashUpdateLengthBits_def)
qed

lemma unat_WireBits:
  assumes "0 < s" "s < 32" "0 < t" "t < 32" "0 < n" "n < 32"
  shows "unat (ClientLuaHashUpdateWireBits s t n) = nat s + nat t + nat n + 299"
  unfolding WireBits_eq [OF assms] using assms by (intro unat_size) linarith

lemma PayloadBits_nonzero:
  assumes "ActiveLuaRefreshPayloadBits f b \<noteq> 0"
  shows "0 < unat f" and "32 < unat b" and "unat f + unat b + 6 \<le> 65536"
    and "unat (ActiveLuaRefreshPayloadBits f b) = 8 * (6 + unat f + unat b)"
proof -
  have guard: "f \<noteq> 0" "f \<le> 65530" "32 < b" "b \<le> 65530 - f"
    using assms
    by (auto simp: ActiveLuaRefreshPayloadBits_def ActiveLuaRefreshMaximumPayloadBytes_def
        ClientLuaHashBytes_def not_less Let_def split: if_splits)
  show "0 < unat f" using guard(1) by (simp add: unat_gt_0)
  show b: "32 < unat b" using guard(3) by (simp add: word_less_nat_alt)
  have f: "unat f \<le> 65530" using guard(2) by (simp add: word_le_nat_alt)
  have "unat (65530 - f) = 65530 - unat f" using guard(2) by (simp add: unat_sub)
  then show le: "unat f + unat b + 6 \<le> 65536" using guard(4) f by (simp add: word_le_nat_alt)
  have "f = of_nat (unat f)" "b = of_nat (unat b)" by simp_all
  then have "ActiveLuaRefreshPayloadBits f b = of_nat (8 * (6 + unat f + unat b))"
    using assms by (simp add: ActiveLuaRefreshPayloadBits_def Let_def split: if_splits)
  then show "unat (ActiveLuaRefreshPayloadBits f b) = 8 * (6 + unat f + unat b)"
    using unat_size [of "8 * (6 + unat f + unat b)"] le by simp
qed

lemma PayloadBits_nonzero_iff:
  assumes "f < 65536" and "b < 65536"
  shows "ActiveLuaRefreshPayloadBits (of_nat f) (of_nat b) \<noteq> 0 \<longleftrightarrow>
     0 < f \<and> 32 < b \<and> f + b + 6 \<le> 65536"
proof
  assume "ActiveLuaRefreshPayloadBits (of_nat f) (of_nat b) \<noteq> 0"
  from PayloadBits_nonzero(1-3) [OF this] assms show "0 < f \<and> 32 < b \<and> f + b + 6 \<le> 65536"
    by (simp add: unat_size)
next
  assume ok: "0 < f \<and> 32 < b \<and> f + b + 6 \<le> 65536"
  have u: "unat (of_nat f :: size_t) = f" "unat (of_nat b :: size_t) = b"
    using assms by (auto intro!: unat_size)
  have le: "(of_nat f :: size_t) \<le> 65530" using ok u by (simp add: word_le_nat_alt)
  have "unat (65530 - of_nat f :: size_t) = 65530 - f" using le u by (simp add: unat_sub)
  then have "\<not> (65530 - of_nat f :: size_t) < of_nat b" using ok u by (auto simp: word_less_nat_alt)
  moreover have "(of_nat f :: size_t) \<noteq> 0" using ok u by auto
  moreover have "\<not> (of_nat b :: size_t) \<le> 32" using ok u by (simp add: word_le_nat_alt)
  moreover have "unat ((6 + of_nat f + of_nat b) * 8 :: size_t) = (6 + f + b) * 8"
    using unat_size [of "(6 + f + b) * 8"] ok by simp
  ultimately show "ActiveLuaRefreshPayloadBits (of_nat f) (of_nat b) \<noteq> 0"
    using le by (auto simp: ActiveLuaRefreshPayloadBits_def ActiveLuaRefreshMaximumPayloadBytes_def
        ClientLuaHashBytes_def Let_def)
qed

section \<open>What the append functions write\<close>

text \<open>The arguments the guard lets through, for a hash buffer of \<open>hashBytes\<close> bytes.\<close>

definition field_ok :: "int \<Rightarrow> u32 \<Rightarrow> bool" where
  "field_ok n v \<longleftrightarrow> 0 < n \<and> n < 32 \<and> unat v < 2 ^ nat n"

definition hash_wire_args ::
  "u32 \<Rightarrow> int \<Rightarrow> u32 \<Rightarrow> int \<Rightarrow> u32 \<Rightarrow> int \<Rightarrow> u8 list option \<Rightarrow> size_t \<Rightarrow> bool" where
  "hash_wire_args serviceType serviceTypeBits tableID tableBits fileID entryBits hash hashBytes \<longleftrightarrow>
     hash \<noteq> None \<and> hashBytes = 32 \<and> field_ok serviceTypeBits serviceType \<and>
     field_ok tableBits tableID \<and> field_ok entryBits fileID \<and> fileID \<noteq> 0"

lemma field_ok_iff: "0 < n \<and> n < 32 \<and> \<not> shl1 n \<le> v \<longleftrightarrow> field_ok n v"
  by (auto simp: field_ok_def shl1_le)

lemma hash_wire_guard:
  "(hash = None \<or> hashBytes \<noteq> ClientLuaHashBytes \<or>
      serviceTypeBits \<le> 0 \<or> 32 \<le> serviceTypeBits \<or> tableBits \<le> 0 \<or> 32 \<le> tableBits \<or>
      entryBits \<le> 0 \<or> 32 \<le> entryBits \<or>
      shl1 serviceTypeBits \<le> serviceType \<or> shl1 tableBits \<le> tableID \<or>
      fileID = 0 \<or> shl1 entryBits \<le> fileID \<or> ClientLuaHashUpdateBits entryBits = 0 \<or>
      ClientLuaHashUpdateWireBits serviceTypeBits tableBits entryBits = 0 \<or>
      push_bit ClientLuaHashUpdateLengthBits 1 \<le> ClientLuaHashUpdateBits entryBits) \<longleftrightarrow>
    \<not> hash_wire_args serviceType serviceTypeBits tableID tableBits fileID entryBits hash hashBytes"
  (is "?L \<longleftrightarrow> \<not> ?R")
proof
  assume ?L
  show "\<not> ?R"
  proof
    assume ?R
    then have r: "0 < serviceTypeBits" "serviceTypeBits < 32" "0 < tableBits" "tableBits < 32"
        "0 < entryBits" "entryBits < 32"
      by (auto simp: hash_wire_args_def field_ok_def)
    have n: "unat (ClientLuaHashUpdateBits entryBits) < 2 ^ 20"
      using unat_UpdateBits [OF r(5,6)] r by simp
    have "ClientLuaHashUpdateBits entryBits \<noteq> 0" using unat_UpdateBits [OF r(5,6)] by auto
    moreover have "ClientLuaHashUpdateWireBits serviceTypeBits tableBits entryBits \<noteq> 0"
      using unat_WireBits [OF r] by auto
    moreover have "\<not> push_bit ClientLuaHashUpdateLengthBits 1 \<le> ClientLuaHashUpdateBits entryBits"
      using n by (simp add: ClientLuaHashUpdateLengthBits_def push_bit_eq_mult word_le_nat_alt)
    ultimately show False
      using \<open>?L\<close> \<open>?R\<close> r
      by (auto simp: hash_wire_args_def ClientLuaHashBytes_def field_ok_def shl1_le)
  qed
next
  assume "\<not> ?R"
  then show ?L
    by (auto simp: hash_wire_args_def ClientLuaHashBytes_def field_ok_iff [symmetric])
qed

context bit_writer
begin

lemma hash_wire_rejected:
  assumes "\<not> (hash_wire_args serviceType serviceTypeBits tableID tableBits fileID entryBits hash hashBytes \<and>
      \<not> IsOverflowed W output \<and>
      nat serviceTypeBits + nat tableBits + nat entryBits + 299 + unat reserve \<le> room output)"
  shows "AppendClientLuaHashUpdateWire W output serviceType serviceTypeBits tableID tableBits
      fileID entryBits hash hashBytes reserve = (False, output)"
proof (cases "hash_wire_args serviceType serviceTypeBits tableID tableBits fileID entryBits hash hashBytes")
  case False
  then show ?thesis
    unfolding AppendClientLuaHashUpdateWire_def Let_def hash_wire_guard by simp
next
  case True
  then have r: "0 < serviceTypeBits" "serviceTypeBits < 32" "0 < tableBits" "tableBits < 32"
      "0 < entryBits" "entryBits < 32"
    by (auto simp: hash_wire_args_def field_ok_def)
  let ?n = "nat serviceTypeBits + nat tableBits + nat entryBits + 299"
  consider "IsOverflowed W output"
    | "\<not> IsOverflowed W output" "room output < ?n"
    | "\<not> IsOverflowed W output" "room output - ?n < unat reserve"
    using True assms by linarith
  then show ?thesis
    unfolding AppendClientLuaHashUpdateWire_def Let_def hash_wire_guard
    using True unat_WireBits [OF r] by cases (simp_all add: bits_left)
qed

lemma hash_wire_accepted:
  assumes args: "hash_wire_args serviceType serviceTypeBits tableID tableBits fileID entryBits (Some h) hashBytes"
    and "\<not> IsOverflowed W output" and "length h = 32"
    and fits: "nat serviceTypeBits + nat tableBits + nat entryBits + 299 + unat reserve \<le> room output"
  shows "\<exists>w'. AppendClientLuaHashUpdateWire W output serviceType serviceTypeBits tableID tableBits
      fileID entryBits (Some h) hashBytes reserve = (True, w') \<and>
    appended W bits room output
      (hash_wire_record (nat serviceTypeBits) serviceType (nat tableBits) tableID (nat entryBits) fileID h) w'"
proof -
  from args have r: "0 < serviceTypeBits" "serviceTypeBits < 32" "0 < tableBits" "tableBits < 32"
      "0 < entryBits" "entryBits < 32"
    and v: "unat serviceType < 2 ^ nat serviceTypeBits" "unat tableID < 2 ^ nat tableBits"
      "unat fileID < 2 ^ nat entryBits" and hb: "hashBytes = 32"
    by (auto simp: hash_wire_args_def field_ok_def)
  let ?u = "ClientLuaHashUpdateBits entryBits"
  have u: "unat ?u = nat entryBits + 278" by (rule unat_UpdateBits [OF r(5,6)])
  have u': "ucast ?u = (of_nat (nat entryBits + 278) :: u32)"
    using u by (simp add: ucast_of_nat_unat)
  have uu: "unat (of_nat (nat entryBits + 278) :: u32) < 2 ^ 20"
    using r by (subst unat_of_nat_small) auto
  obtain N :: u32 where N: "N = of_nat (nat entryBits + 278)" by blast
  let ?o1 = "WriteUBitLong W serviceType serviceTypeBits output"
  let ?o2 = "WriteUBitLong W tableID tableBits ?o1"
  let ?o3 = "WriteOneBit W 0 ?o2"
  let ?o4 = "WriteUBitLong W N 20 ?o3"
  let ?o5 = "WriteOneBit W 0 ?o4"
  let ?o6 = "WriteUBitLong W fileID entryBits ?o5"
  let ?o7 = "WriteOneBit W 0 ?o6"
  let ?o8 = "WriteOneBit W 1 ?o7"
  let ?o9 = "WriteUBitLong W 32 19 ?o8"
  let ?o10 = "WriteBits W h 256 ?o9"
  note o1 = then_ubit_long [OF appended_refl [OF assms(2)], of "nat serviceTypeBits" serviceType serviceTypeBits]
  note o2 = then_ubit_long [OF o1, of "nat tableBits" tableID tableBits]
  note o3 = then_one_bit [OF o2, of 0]
  note o4 = then_ubit_long [OF o3, of 20 N 20]
  note o5 = then_one_bit [OF o4, of 0]
  note o6 = then_ubit_long [OF o5, of "nat entryBits" fileID entryBits]
  note o7 = then_one_bit [OF o6, of 0]
  note o8 = then_one_bit [OF o7, of 1]
  note o9 = then_ubit_long [OF o8, of 19 32 19]
  note o10 = then_write_bits [OF o9, of 256 h 256]
  have rec: "hash_wire_record (nat serviceTypeBits) serviceType (nat tableBits) tableID (nat entryBits) fileID h =
      ubits (nat serviceTypeBits) serviceType @ ubits (nat tableBits) tableID @ [False] @ ubits 20 N @
      [False] @ ubits (nat entryBits) fileID @ [False] @ [True] @ ubits 19 32 @ bytes_bits h"
    by (simp add: hash_wire_record_def N assms(3)) (simp add: hash_update_record_def add.commute)
  have app: "appended W bits room output
      (hash_wire_record (nat serviceTypeBits) serviceType (nat tableBits) tableID (nat entryBits) fileID h) ?o10"
    using o10 fits r v uu [folded N] assms(3)
    by (simp add: rec)
  from appended_check [OF app assms(2)] have "\<not> IsOverflowed W ?o10"
    "GetNumBitsWritten W ?o10 - GetNumBitsWritten W output =
      uint (ClientLuaHashUpdateWireBits serviceTypeBits tableBits entryBits)"
    using assms(3) unat_WireBits [OF r] by (simp_all add: uint_nat del: of_nat_unat)
  moreover have "nat serviceTypeBits + nat tableBits + nat entryBits \<le> 93" using r by linarith
  moreover have "\<not> room output - (nat serviceTypeBits + nat tableBits + nat entryBits + 299) < unat reserve"
    using fits by linarith
  ultimately show ?thesis
    using app args assms(2) bits_left [of "output"] written [of "output"] fits unat_WireBits [OF r] u' [folded N] hb
    unfolding AppendClientLuaHashUpdateWire_def Let_def hash_wire_guard
    by (auto simp: INT_MAX_def ClientLuaHashUpdateLengthBits_def ClientLuaUserDataLengthBits_def
        ClientLuaHashBits_def ClientLuaHashBytes_def)
qed

end

section \<open>Parsing the payload\<close>

lemma le32_value_Cons:
  "le32_value (a # b # c # d # r) =
     ucast a OR push_bit 8 (ucast b) OR push_bit 16 (ucast c) OR push_bit 24 (ucast d)"
  by (simp add: le32_value_def numeral_3_eq_3 numeral_2_eq_2)

lemma le32_eq:
  "le32 n = [ucast n, ucast (drop_bit 8 n), ucast (drop_bit 16 n), ucast (drop_bit 24 n)]"
  by (simp add: le32_def upt_rec)

lemma le32_of_value: "le32 (le32_value (a # b # c # d # r)) = [a, b, c, d]"
  unfolding le32_eq le32_value_Cons
  by (simp, intro conjI bit_word_eqI) (auto simp: bit_simps dest: bit_imp_le_length)

lemma le32_value_le32: "le32_value (le32 n @ r) = n"
proof (rule bit_word_eqI)
  fix k :: nat
  assume "k < LENGTH(32)"
  then consider "k < 8" | "8 \<le> k" "k < 16" | "16 \<le> k" "k < 24" | "24 \<le> k" "k < 32" by fastforce
  then show "bit (le32_value (le32 n @ r)) k = bit n k"
    by cases (auto simp: le32_eq le32_value_Cons bit_simps dest: bit_imp_le_length)
qed

lemma scan_nul_eq:
  assumes "start \<le> e" and "e \<le> size'" and "e < size' \<Longrightarrow> bytes ! e = 0"
    and "\<And>i. start \<le> i \<Longrightarrow> i < e \<Longrightarrow> bytes ! i \<noteq> 0"
  shows "scan_nul bytes size' start = e"
  using assms
proof (induction "e - start" arbitrary: start)
  case 0
  then show ?case by (subst scan_nul.simps) auto
next
  case (Suc n)
  then have "scan_nul bytes size' (start + 1) = e" by (intro Suc.hyps(1)) auto
  then show ?case using Suc.hyps(2) Suc.prems by (subst scan_nul.simps) auto
qed

lemma scan_nul_props:
  "start \<le> size' \<Longrightarrow>
     start \<le> scan_nul bytes size' start \<and> scan_nul bytes size' start \<le> size' \<and>
     (scan_nul bytes size' start < size' \<longrightarrow> bytes ! scan_nul bytes size' start = 0) \<and>
     (\<forall>i. start \<le> i \<longrightarrow> i < scan_nul bytes size' start \<longrightarrow> bytes ! i \<noteq> 0)"
proof (induction bytes size' start rule: scan_nul.induct)
  case (1 bytes size' start)
  show ?case
  proof (cases "start < size' \<and> bytes ! start \<noteq> 0")
    case True
    then have "scan_nul bytes size' start = scan_nul bytes size' (start + 1)"
      by (subst scan_nul.simps) simp
    with 1(1) [OF True] True show ?thesis
      by (metis Suc_eq_plus1 Suc_leI le_antisym not_less_eq_eq order.trans le_add1)
  next
    case False
    then have "scan_nul bytes size' start = start" by (subst scan_nul.simps) auto
    with False 1(2) show ?thesis by auto
  qed
qed

text \<open>The payloads the native sender may produce.\<close>

definition refresh_payload_ok :: "u8 list \<Rightarrow> u8 list \<Rightarrow> bool" where
  "refresh_payload_ok filename body \<longleftrightarrow>
     0 \<notin> set filename \<and> 0 < length filename \<and> 32 < length body \<and>
     6 + length filename + length body \<le> 65536"

lemma MaximumPayloadBytes [simp]: "unat ActiveLuaRefreshMaximumPayloadBytes = 65536"
  by (simp add: ActiveLuaRefreshMaximumPayloadBytes_def)

lemma len8_le_len32: "LENGTH(8) \<le> LENGTH(32)"
  by simp

lemma Read_whole:
  "ReadActiveLuaRefreshPayload (Some bytes) (8 * int n) =
     (let e = scan_nul bytes n 1; bodyBytes = le32_value (drop (e + 1) bytes)
      in if 65536 < n \<or> n < 7 \<or> bytes ! 0 \<noteq> 1 \<or> e = 1 \<or> n \<le> e \<or> n - e - 1 < 4 \<or>
            unat bodyBytes \<noteq> n - (e + 1 + 4) \<or>
            ActiveLuaRefreshPayloadBits (of_nat (e - 1)) (ucast bodyBytes) = 0
         then None
         else Some \<lparr>alrp_filename = take (e - 1) (drop 1 bytes),
                    alrp_body = take (unat bodyBytes) (drop (e + 1 + 4) bytes)\<rparr>)"
proof -
  have "ucast (bytes ! 0) = (1 :: u32) \<longleftrightarrow> bytes ! 0 = 1"
    by (metis unat_1 unat_ucast_up word_unat_eq_iff len8_le_len32)
  then show ?thesis
    by (auto simp: ReadActiveLuaRefreshPayload_def ActiveLuaRefreshMessageType_def Let_def)
qed

lemma drop_prefix_length: "length xs = n \<Longrightarrow> drop n (xs @ ys) = ys"
  by simp

lemma Read_encoded:
  assumes "refresh_payload_ok fn body"
  shows "ReadActiveLuaRefreshPayload (Some (refresh_payload fn body))
           (8 * int (length (refresh_payload fn body))) =
         Some \<lparr>alrp_filename = fn, alrp_body = body\<rparr>"
proof -
  let ?p = "refresh_payload fn body"
  let ?b = "of_nat (length body) :: u32"
  have ok: "0 \<notin> set fn" "0 < length fn" "32 < length body" "6 + length fn + length body \<le> 65536"
    using assms by (auto simp: refresh_payload_ok_def)
  have ub: "unat ?b = length body" using ok by (intro unat_of_nat_small) simp
  then have cb: "(ucast ?b :: size_t) = of_nat (length body)" by (simp add: ucast_of_nat_unat)
  have scan: "scan_nul ?p (length ?p) 1 = length fn + 1"
  proof (rule scan_nul_eq)
    fix i assume i: "1 \<le> i" "i < length fn + 1"
    then obtain j where j: "i = Suc j" "j < length fn" by (cases i) auto
    then have "?p ! i = fn ! (i - 1)" by (simp add: refresh_payload_def nth_append)
    moreover have "fn ! (i - 1) \<in> set fn" using i by (intro nth_mem) simp
    ultimately show "?p ! i \<noteq> 0" using ok(1) by metis
  qed (simp_all add: refresh_payload_def nth_append)
  have le: "le32_value (drop (length fn + 1 + 1) ?p) = ?b"
    by (simp add: refresh_payload_def le32_value_le32)
  have pb: "ActiveLuaRefreshPayloadBits (of_nat (length fn)) (of_nat (length body)) \<noteq> 0"
    using ok by (subst PayloadBits_nonzero_iff) auto
  have rd: "drop (length fn + 1 + 1 + 4) ?p = body"
    using drop_prefix_length [of "[1] @ fn @ [0] @ le32 ?b" "length fn + 1 + 1 + 4" body]
    by (simp add: refresh_payload_def)
  have fnr: "take (length fn) (drop 1 ?p) = fn" by (simp add: refresh_payload_def)
  have p0: "?p ! 0 = 1" by (simp add: refresh_payload_def)
  have n: "length ?p = 6 + length fn + length body" by simp
  obtain m where m: "m = length ?p" by blast
  show ?thesis
    using ok ub cb scan le pb rd fnr p0 n unfolding m [symmetric] Read_whole Let_def
    by simp
qed

lemma le32_take:
  assumes "4 \<le> length l"
  shows "le32 (le32_value l) = take 4 l"
proof -
  have "Suc (Suc (Suc (Suc 0))) \<le> length l" using assms by simp
  then obtain a b c d r where "l = a # b # c # d # r" by (auto simp: Suc_le_length_iff)
  then show ?thesis by (simp add: le32_of_value)
qed

lemma Read_decoded:
  assumes "ReadActiveLuaRefreshPayload (Some bytes) (8 * int (length bytes)) = Some v"
  shows "bytes = refresh_payload (alrp_filename v) (alrp_body v) \<and>
         refresh_payload_ok (alrp_filename v) (alrp_body v)"
proof -
  let ?n = "length bytes"
  obtain e where e: "e = scan_nul bytes ?n 1" by blast
  obtain b where b: "b = le32_value (drop (e + 1) bytes)" by blast
  note read = assms [unfolded Read_whole Let_def, folded e, folded b]
  from read have g: "?n \<le> 65536" "7 \<le> ?n" "bytes ! 0 = 1" "e \<noteq> 1" "e < ?n" "4 \<le> ?n - e - 1"
      "unat b = ?n - (e + 1 + 4)" "ActiveLuaRefreshPayloadBits (of_nat (e - 1)) (ucast b) \<noteq> 0"
    and v: "v = \<lparr>alrp_filename = take (e - 1) (drop 1 bytes),
                 alrp_body = take (unat b) (drop (e + 1 + 4) bytes)\<rparr>"
    by (auto split: if_splits)
  have "1 \<le> ?n" using g(2) by simp
  from scan_nul_props [OF this, of bytes] g(5) have
    nul: "1 \<le> e" "bytes ! e = 0" "\<forall>i. 1 \<le> i \<longrightarrow> i < e \<longrightarrow> bytes ! i \<noteq> 0"
    by (auto simp: e)
  let ?fn = "take (e - 1) (drop 1 bytes)" and ?body = "drop (e + 1 + 4) bytes"
  have body: "take (unat b) ?body = ?body" using g(7) by simp
  have "bytes = bytes ! 0 # drop 1 bytes"
    using g(2) by (cases bytes) auto
  also have "drop 1 bytes = ?fn @ bytes ! e # drop (e + 1) bytes"
    using drop_take_split [of 1 e bytes] nul(1) g(5) by simp
  also have "drop (e + 1) bytes = take 4 (drop (e + 1) bytes) @ ?body"
    by (metis append_take_drop_id drop_drop add.commute)
  also have "take 4 (drop (e + 1) bytes) = le32 b"
    using le32_take [of "drop (e + 1) bytes"] g(6) by (simp add: b)
  finally have bytes: "bytes = 1 # ?fn @ 0 # le32 b @ ?body" using g(3) nul(2) by simp
  have lb: "b = of_nat (length ?body)" 
  proof -
    have "b = of_nat (unat b)" by simp
    also have "unat b = length ?body" using g(7) by simp
    finally show ?thesis .
  qed
  have lfn: "length ?fn = e - 1" using g(5) by simp
  have "refresh_payload_ok ?fn ?body"
  proof -
    have "0 \<notin> set ?fn"
      using nul(3) g(5) by (auto simp: in_set_conv_nth)
    moreover have "(ucast b :: size_t) = of_nat (length ?body)"
      using g(7) by (simp add: ucast_of_nat_unat)
    then have "0 < e - 1 \<and> 32 < length ?body \<and> (e - 1) + length ?body + 6 \<le> 65536"
      using g(1,5,8) by (subst PayloadBits_nonzero_iff [symmetric]) auto
    ultimately show ?thesis using lfn unfolding refresh_payload_ok_def by linarith
  qed
  moreover have "bytes = refresh_payload ?fn ?body"
    unfolding refresh_payload_def using bytes lb by simp
  ultimately show ?thesis using v body by simp
qed

section \<open>The transaction\<close>

lemma unat_ActiveWireBits:
  assumes "field_ok s v" and "ActiveLuaRefreshPayloadBits f b \<noteq> 0"
  shows "unat (ActiveLuaRefreshWireBits s f b) = nat s + 68 + 8 * unat f + 8 * unat b"
proof -
  note pb = PayloadBits_nonzero [OF assms(2)]
  have s: "0 < s" "s < 32" using assms(1) by (auto simp: field_ok_def)
  have "ActiveLuaRefreshPayloadBits f b = of_nat (8 * (6 + unat f + unat b))"
    using pb(4) by (metis of_nat_unat_word)
  then have "ActiveLuaRefreshWireBits s f b = of_nat (nat s + 68 + 8 * unat f + 8 * unat b)"
    using assms(2) s by (simp add: ActiveLuaRefreshWireBits_def ActiveLuaRefreshLengthBits_def Let_def)
  then show ?thesis
    using pb(3) s unat_size [of "nat s + 68 + 8 * unat f + 8 * unat b"] by simp
qed

text \<open>The arguments of a transaction that pass every check, with the buffers they point to.\<close>

definition transaction_args ::
  "u32 \<Rightarrow> u32 \<Rightarrow> int \<Rightarrow> u32 \<Rightarrow> int \<Rightarrow> u32 \<Rightarrow> int \<Rightarrow> u8 list \<Rightarrow> u8 list option \<Rightarrow> size_t
     \<Rightarrow> u8 list option \<Rightarrow> size_t \<Rightarrow> bool" where
  "transaction_args hashServiceType refreshServiceType serviceTypeBits tableID tableBits fileID
     entryBits filename hash hashBytes body bodyBytes \<longleftrightarrow>
     hash_wire_args hashServiceType serviceTypeBits tableID tableBits fileID entryBits hash hashBytes \<and>
     field_ok serviceTypeBits refreshServiceType \<and>
     ActiveLuaRefreshBodyMatches filename hash hashBytes body bodyBytes"

definition transaction_bits :: "int \<Rightarrow> int \<Rightarrow> int \<Rightarrow> u8 list \<Rightarrow> size_t \<Rightarrow> nat" where
  "transaction_bits serviceTypeBits tableBits entryBits filename bodyBytes =
     2 * nat serviceTypeBits + nat tableBits + nat entryBits + 367 + 8 * length filename +
       8 * unat bodyBytes"

context bit_writer
begin

lemma transaction_rejected:
  assumes "\<not> (transaction_args hst rst s tid t fid n filename hash hb body bb \<and>
      \<not> IsOverflowed W output \<and> transaction_bits s t n filename bb \<le> room output)"
    and "length filename < 2 ^ 64"
  shows "AppendActiveLuaRefreshTransaction W output hst rst s tid t fid n filename hash hb body bb =
      (False, output)"
proof (cases "ActiveLuaRefreshBodyMatches filename hash hb body bb \<and>
    ActiveLuaRefreshWireBits s (of_nat (length filename)) bb \<noteq> 0 \<and> \<not> shl1 s \<le> rst")
  case False
  then show ?thesis unfolding AppendActiveLuaRefreshTransaction_def Let_def by auto
next
  case True
  let ?f = "of_nat (length filename) :: size_t"
  have pb: "ActiveLuaRefreshPayloadBits ?f bb \<noteq> 0"
    using True by (simp add: ActiveLuaRefreshBodyMatches_def)
  have "0 < s" "s < 32"
    using True by (auto simp: ActiveLuaRefreshWireBits_def Let_def split: if_splits)
  with True have rst: "field_ok s rst" using field_ok_iff by blast
  have f: "unat ?f = length filename" using assms(2) by (intro unat_size) simp
  note bits = unat_ActiveWireBits [OF rst pb, unfolded f]
  have "\<not> (hash_wire_args hst s tid t fid n hash hb \<and> \<not> IsOverflowed W output \<and>
      nat s + nat t + nat n + 299 + unat (ActiveLuaRefreshWireBits s ?f bb) \<le> room output)"
    using assms(1) True rst unfolding transaction_args_def transaction_bits_def bits by auto
  from hash_wire_rejected [OF this] show ?thesis
    using True unfolding AppendActiveLuaRefreshTransaction_def Let_def by simp
qed

text \<open>The body may be longer than the size argument says; the rest of it is not read.\<close>

lemma transaction_accepted_prefix:
  assumes args: "transaction_args hst rst s tid t fid n filename (Some h) hb (Some full) bb"
    and ovf: "\<not> IsOverflowed W output" and h: "length h = 32" and full: "unat bb \<le> length full"
    and size: "length filename < 2 ^ 64"
    and fits: "transaction_bits s t n filename bb \<le> room output"
  shows "\<exists>w'. AppendActiveLuaRefreshTransaction W output hst rst s tid t fid n filename (Some h) hb (Some full) bb =
      (True, w') \<and>
    appended W bits room output
      (hash_wire_record (nat s) hst (nat t) tid (nat n) fid h @ refresh_record (nat s) rst filename (take (unat bb) full)) w'"
proof -
  obtain body where bd: "body = take (unat bb) full" by blast
  then have body: "length body = unat bb" using full by simp
  have prefix: "take (length body) full = body" using bd body by simp
  let ?f = "of_nat (length filename) :: size_t"
  have a: "hash_wire_args hst s tid t fid n (Some h) hb" "field_ok s rst"
      "ActiveLuaRefreshBodyMatches filename (Some h) hb (Some full) bb"
    using args by (auto simp: transaction_args_def)
  have s: "0 < s" "s < 32" "unat rst < 2 ^ nat s" "\<not> shl1 s \<le> rst"
    using a(2) field_ok_iff by (auto simp: field_ok_def shl1_le)
  have pb: "ActiveLuaRefreshPayloadBits ?f bb \<noteq> 0"
    using a(3) by (simp add: ActiveLuaRefreshBodyMatches_def)
  have f: "unat ?f = length filename" using size by (intro unat_size) simp
  note pbs = PayloadBits_nonzero [OF pb, unfolded f]
  note bits = unat_ActiveWireBits [OF a(2) pb, unfolded f]
  have nz: "ActiveLuaRefreshWireBits s ?f bb \<noteq> 0" using bits by auto
  have "nat s + nat t + nat n + 299 + unat (ActiveLuaRefreshWireBits s ?f bb) \<le> room output"
    using fits unfolding transaction_bits_def bits by simp
  from hash_wire_accepted [OF a(1) ovf h this] obtain w1 where w1:
    "AppendClientLuaHashUpdateWire W output hst s tid t fid n (Some h) hb (ActiveLuaRefreshWireBits s ?f bb) = (True, w1)"
    "appended W bits room output (hash_wire_record (nat s) hst (nat t) tid (nat n) fid h) w1"
    by blast
  obtain P :: u32 where P: "P = of_nat (8 * length (refresh_payload filename body))" by blast
  have P': "ucast (ActiveLuaRefreshPayloadBits ?f bb) = P"
    by (simp only: ucast_of_nat_unat pbs(4) P body length_refresh_payload)
  have Pu: "unat P < 2 ^ 20"
    unfolding P using pbs(3) body by (subst unat_of_nat_small) auto
  obtain B :: u32 where B: "B = of_nat (length body)" by blast
  have B': "ucast bb = B" by (simp only: ucast_of_nat_unat body B)
  have Bu: "unat B < 2 ^ 32" using unsigned_less [of B] by simp
  have fit: "nat s + 68 + 8 * length filename + 8 * length body +
      length (hash_wire_record (nat s) hst (nat t) tid (nat n) fid h) \<le> room output"
    using fits h body unfolding transaction_bits_def by simp
  have rec: "refresh_record (nat s) rst filename body = ubits (nat s) rst @ ubits 20 P @ ubits 8 1 @
      bytes_bits filename @ ubits 8 0 @ ubits 32 B @ bytes_bits body"
    unfolding refresh_record_def P [symmetric]
    unfolding refresh_payload_def B [symmetric]
    by (simp add: bytes_bits_le32 ubits_byte_1 ubits_byte_0)
  obtain H where H: "H = hash_wire_record (nat s) hst (nat t) tid (nat n) fid h" by blast
  have bb: "uint bb = int (length body)" by (simp only: uint_nat body)
  let ?w2 = "WriteUBitLong W rst s w1"
  let ?w3 = "WriteUBitLong W P 20 ?w2"
  let ?w4 = "WriteUBitLong W 1 8 ?w3"
  let ?w5 = "WriteBytes W filename (int (length filename)) ?w4"
  let ?w6 = "WriteUBitLong W 0 8 ?w5"
  let ?w7 = "WriteUBitLong W B 32 ?w6"
  let ?w' = "WriteBytes W full (uint bb) ?w7"
  have o2: "appended W bits room output (H @ ubits (nat s) rst) ?w2"
    by (rule then_ubit_long [OF w1(2) [folded H]]) (use fit [folded H] s in auto)
  have o3: "appended W bits room output ((H @ ubits (nat s) rst) @ ubits 20 P) ?w3"
    by (rule then_ubit_long [OF o2]) (use fit [folded H] Pu in auto)
  have o4: "appended W bits room output (((H @ ubits (nat s) rst) @ ubits 20 P) @ ubits 8 1) ?w4"
    by (rule then_ubit_long [OF o3]) (use fit [folded H] in auto)
  have o5: "appended W bits room output
      ((((H @ ubits (nat s) rst) @ ubits 20 P) @ ubits 8 1) @ bytes_bits (take (length filename) filename)) ?w5"
    by (rule then_write_bytes [OF o4]) (use fit [folded H] in auto)
  have o6: "appended W bits room output
      (((((H @ ubits (nat s) rst) @ ubits 20 P) @ ubits 8 1) @ bytes_bits (take (length filename) filename)) @
        ubits 8 0) ?w6"
    by (rule then_ubit_long [OF o5]) (use fit [folded H] in auto)
  have o7: "appended W bits room output
      ((((((H @ ubits (nat s) rst) @ ubits 20 P) @ ubits 8 1) @ bytes_bits (take (length filename) filename)) @
        ubits 8 0) @ ubits 32 B) ?w7"
    by (rule then_ubit_long [OF o6]) (use fit [folded H] Bu in auto)
  have o8: "appended W bits room output
      (((((((H @ ubits (nat s) rst) @ ubits 20 P) @ ubits 8 1) @ bytes_bits (take (length filename) filename)) @
        ubits 8 0) @ ubits 32 B) @ bytes_bits (take (length body) full)) ?w'"
    by (rule then_write_bytes [OF o7]) (use fit [folded H] bb body full in auto)
  then have app: "appended W bits room output (H @ refresh_record (nat s) rst filename body) ?w'"
    unfolding rec by (simp add: prefix)
  have lH: "length H = nat s + nat t + nat n + 299" using h by (simp add: H)
  have "unat (ClientLuaHashUpdateWireBits s t n) = length H"
    using a(1) unat_WireBits [of s t n] lH by (simp add: hash_wire_args_def field_ok_def)
  moreover have "nat s \<le> 31" "nat t \<le> 31" "nat n \<le> 31"
    using a(1) by (auto simp: hash_wire_args_def field_ok_def)
  ultimately have "unat (ClientLuaHashUpdateWireBits s t n + ActiveLuaRefreshWireBits s ?f bb) =
      length H + (nat s + 68 + 8 * length filename + 8 * unat bb)"
    using lH pbs(3) by (subst unat_add_no_overflow) (simp_all add: bits)
  then have "uint (ClientLuaHashUpdateWireBits s t n + ActiveLuaRefreshWireBits s ?f bb) =
      int (length (H @ refresh_record (nat s) rst filename body))"
    by (simp only: uint_nat length_append length_refresh_record body)
  with appended_check [OF app ovf] show ?thesis
    using app a(3) nz s(4) w1(1) P' B'
    unfolding AppendActiveLuaRefreshTransaction_def Let_def H bd [symmetric]
    by (simp add: ActiveLuaRefreshLengthBits_def ActiveLuaRefreshMessageType_def)
qed

lemma transaction_accepted:
  assumes "transaction_args hst rst s tid t fid n filename (Some h) hb (Some body) bb"
    and "\<not> IsOverflowed W output" and "length h = 32" and body: "length body = unat bb"
    and "length filename < 2 ^ 64" and "transaction_bits s t n filename bb \<le> room output"
  shows "\<exists>w'. AppendActiveLuaRefreshTransaction W output hst rst s tid t fid n filename (Some h) hb (Some body) bb =
      (True, w') \<and>
    appended W bits room output
      (hash_wire_record (nat s) hst (nat t) tid (nat n) fid h @ refresh_record (nat s) rst filename body) w'"
  using transaction_accepted_prefix [OF assms(1-3) _ assms(5,6)] body by simp

end

section \<open>Properties\<close>

text \<open>A pointer is null or points to as many bytes as its size argument says.\<close>

definition buffer :: "u8 list option \<Rightarrow> size_t \<Rightarrow> bool" where
  "buffer p n \<longleftrightarrow> (case p of None \<Rightarrow> True | Some bs \<Rightarrow> length bs = unat n)"

text \<open>
  C35. The hash record is all or nothing and exactly framed.  Over any writer with the
  documented contract, \<^verbatim>\<open>AppendClientLuaHashUpdateWire\<close> succeeds exactly when every
  field fits its width, the hash is a 32-byte buffer, and the record plus the reserve fit the
  room left; then it appends the service type, the table ID, the one-entry bit, the 20-bit
  length of the update, and the update (explicit index, no string, userdata flag, 19-bit byte
  length, hash); otherwise the stream is untouched.
\<close>

theorem hash_wire_exact:
  assumes "bit_writer W bits room" and "buffer hash hashBytes"
    and "AppendClientLuaHashUpdateWire W output serviceType serviceTypeBits tableID tableBits
      fileID entryBits hash hashBytes reserve = (ok, w')"
  shows "ok = (hash_wire_args serviceType serviceTypeBits tableID tableBits fileID entryBits hash hashBytes \<and>
      \<not> IsOverflowed W output \<and>
      nat serviceTypeBits + nat tableBits + nat entryBits + 299 + unat reserve \<le> room output) \<and>
    (if ok then appended W bits room output (hash_wire_record (nat serviceTypeBits) serviceType
        (nat tableBits) tableID (nat entryBits) fileID (the hash)) w'
     else w' = output)"
proof (cases "hash_wire_args serviceType serviceTypeBits tableID tableBits fileID entryBits hash hashBytes \<and>
      \<not> IsOverflowed W output \<and>
      nat serviceTypeBits + nat tableBits + nat entryBits + 299 + unat reserve \<le> room output")
  case True
  then obtain h where h: "hash = Some h" "hashBytes = 32" by (auto simp: hash_wire_args_def)
  with assms(2) have "length h = 32" by (simp add: buffer_def)
  with bit_writer.hash_wire_accepted [OF assms(1)] True assms(3) h show ?thesis by fastforce
next
  case False
  from bit_writer.hash_wire_rejected [OF assms(1) False] assms(3) False show ?thesis by auto
qed

theorem hash_wire_exact_witness:
  "\<exists>w'. AppendClientLuaHashUpdateWire TestBitWriter_ops (TestBitWriter_new 400) 13 6 2 5 7 12
      (Some (replicate 32 1)) 32 0 = (True, w') \<and>
    tbw_bits w' = hash_wire_record 6 13 5 2 12 7 (replicate 32 1)"
proof -
  obtain ok w' where w': "AppendClientLuaHashUpdateWire TestBitWriter_ops (TestBitWriter_new 400) 13 6 2 5
      7 12 (Some (replicate 32 1)) 32 0 = (ok, w')" by fastforce
  have "buffer (Some (replicate 32 1)) 32" by (simp add: buffer_def)
  from hash_wire_exact [OF tbw.bit_writer_axioms this w'] w' show ?thesis
    by (auto simp: hash_wire_args_def field_ok_def TestBitWriter_new_def tbw_room_def appended_def)
qed

text \<open>
  C33. The payload parser accepts exactly what the native sender produces.  A whole message is
  parsed as file name and body precisely when it is the encoding (opcode 1, name, NUL,
  little-endian 32-bit length, body) of a non-empty NUL-free name and a body of more than 32
  bytes within the 64 KiB ceiling; parsing and encoding are inverse to each other, so a
  message with a lying length, a missing NUL or trailing bytes is rejected.
\<close>

theorem refresh_payload_roundtrip:
  "(ReadActiveLuaRefreshPayload (Some bytes) (8 * int (length bytes)) =
      Some \<lparr>alrp_filename = filename, alrp_body = body\<rparr>) =
   (bytes = refresh_payload filename body \<and> refresh_payload_ok filename body)"
  using Read_decoded [of bytes] Read_encoded [of filename body] by fastforce

lemma transaction_payload_ok:
  assumes "transaction_args hst rst s tid t fid n filename hash hb (Some body) bb"
    and "length body = unat bb" and "length filename < 2 ^ 64"
  shows "refresh_payload_ok filename body"
proof -
  have "0 \<notin> set filename" "ActiveLuaRefreshPayloadBits (of_nat (length filename)) bb \<noteq> 0"
    using assms(1) by (auto simp: transaction_args_def ActiveLuaRefreshBodyMatches_def)
  with PayloadBits_nonzero [of "of_nat (length filename)" bb] show ?thesis
    using assms(2,3) unat_size [of "length filename"] by (simp add: refresh_payload_ok_def)
qed

text \<open>
  C34. A refresh transaction publishes both records or neither.  It succeeds exactly when the
  arguments are valid (the hash equals the first 32 bytes of the body among them) and both
  records fit; then the stream gains the hash record immediately followed by the refresh
  record, whose payload the parser reads back as the same file name and body; otherwise not a
  single bit is written, so a retry after back-pressure starts from the same stream.
\<close>

theorem refresh_transaction_atomic:
  assumes "bit_writer W bits room" and "buffer hash hashBytes" and "buffer body bodyBytes"
    and "length filename < 2 ^ 64"
    and "AppendActiveLuaRefreshTransaction W output hashServiceType refreshServiceType serviceTypeBits
      tableID tableBits fileID entryBits filename hash hashBytes body bodyBytes = (ok, w')"
  shows "ok = (transaction_args hashServiceType refreshServiceType serviceTypeBits tableID tableBits
        fileID entryBits filename hash hashBytes body bodyBytes \<and> \<not> IsOverflowed W output \<and>
        transaction_bits serviceTypeBits tableBits entryBits filename bodyBytes \<le> room output) \<and>
    (if ok
     then appended W bits room output
        (hash_wire_record (nat serviceTypeBits) hashServiceType (nat tableBits) tableID
           (nat entryBits) fileID (the hash) @
         refresh_record (nat serviceTypeBits) refreshServiceType filename (the body)) w' \<and>
       ReadActiveLuaRefreshPayload (Some (refresh_payload filename (the body)))
         (8 * int (length (refresh_payload filename (the body)))) =
       Some \<lparr>alrp_filename = filename, alrp_body = the body\<rparr>
     else w' = output)"
proof (cases "transaction_args hashServiceType refreshServiceType serviceTypeBits tableID tableBits
        fileID entryBits filename hash hashBytes body bodyBytes \<and> \<not> IsOverflowed W output \<and>
        transaction_bits serviceTypeBits tableBits entryBits filename bodyBytes \<le> room output")
  case True
  then obtain h b where hb: "hash = Some h" "hashBytes = 32" "body = Some b"
    by (auto simp: transaction_args_def hash_wire_args_def ActiveLuaRefreshBodyMatches_def)
  with assms(2,3) have len: "length h = 32" "length b = unat bodyBytes" by (simp_all add: buffer_def)
  have "refresh_payload_ok filename b"
    using transaction_payload_ok [OF _ len(2) assms(4)] True hb by blast
  note read = Read_encoded [OF this]
  from bit_writer.transaction_accepted [OF assms(1) _ _ len assms(4)] True assms(5) hb read
  show ?thesis by fastforce
next
  case False
  from bit_writer.transaction_rejected [OF assms(1) False assms(4)] assms(5) False
  show ?thesis by auto
qed

theorem refresh_transaction_atomic_witness:
  "fst (AppendActiveLuaRefreshTransaction TestBitWriter_ops (TestBitWriter_new 4000) 13 31 6 2 5 7 12
      [97] (Some (replicate 32 1)) 32 (Some (replicate 33 1)) 33)"
proof -
  obtain ok w' where w': "AppendActiveLuaRefreshTransaction TestBitWriter_ops (TestBitWriter_new 4000)
      13 31 6 2 5 7 12 [97] (Some (replicate 32 1)) 32 (Some (replicate 33 1)) 33 = (ok, w')" by fastforce
  have "buffer (Some (replicate 32 1)) 32" "buffer (Some (replicate 33 1)) 33"
    "length [97 :: u8] < 2 ^ 64" by (simp_all add: buffer_def)
  note exact = refresh_transaction_atomic [OF tbw.bit_writer_axioms this w']
  have "ActiveLuaRefreshPayloadBits 1 33 \<noteq> 0"
    using PayloadBits_nonzero_iff [of 1 33] by simp
  then have "transaction_args 13 31 6 2 5 7 12 [97] (Some (replicate 32 1)) 32 (Some (replicate 33 1)) 33"
    by (simp add: transaction_args_def hash_wire_args_def field_ok_def ActiveLuaRefreshBodyMatches_def
        ClientLuaHashBytes_def)
  with exact w' show ?thesis
    by (simp add: transaction_bits_def TestBitWriter_new_def tbw_room_def)
qed

end
