(* ===== verification/StubBudget.thy ===== *)
theory StubBudget
  imports BitStream
begin

text \<open>
  Canonical placeholders on the reliable stream
  (\<^verbatim>\<open>gmoddatapack_luapack_policy.h\<close>, \<^verbatim>\<open>RequiredStub*\<close>): the saturating
  size arithmetic, the drain decision, the append, and the scratch capacity reserved for one
  bounded batch.  Sizes are 64-bit words; a saturated size is the largest word.
\<close>

section \<open>Definitions\<close>

definition SIZE_MAX :: size_t where
  "SIZE_MAX = - 1"

definition RequiredStubReliableReserveBytes :: size_t where
  "RequiredStubReliableReserveBytes = 64 * 1024"
definition RequiredStubServiceTypeBits :: nat where "RequiredStubServiceTypeBits = 6"
definition RequiredStubPayloadLengthBits :: nat where "RequiredStubPayloadLengthBits = 20"
definition RequiredStubMessageTypeBits :: nat where "RequiredStubMessageTypeBits = 8"
definition RequiredStubFileIdBits :: nat where "RequiredStubFileIdBits = 16"
definition RequiredStubOuterEnvelopeBits :: size_t where
  "RequiredStubOuterEnvelopeBits = of_nat (RequiredStubServiceTypeBits + RequiredStubPayloadLengthBits)"
definition RequiredStubPayloadEnvelopeBits :: size_t where
  "RequiredStubPayloadEnvelopeBits = of_nat (RequiredStubMessageTypeBits + RequiredStubFileIdBits)"
definition RequiredStubMaximumPayloadBits :: size_t where
  "RequiredStubMaximumPayloadBits = push_bit RequiredStubPayloadLengthBits 1 - 1"

lemmas stub_consts =
  RequiredStubServiceTypeBits_def RequiredStubPayloadLengthBits_def RequiredStubMessageTypeBits_def
  RequiredStubFileIdBits_def RequiredStubOuterEnvelopeBits_def RequiredStubPayloadEnvelopeBits_def

definition RequiredStubPayloadBits :: "size_t \<Rightarrow> size_t" where
  "RequiredStubPayloadBits compressedBytes =
     (if (SIZE_MAX - RequiredStubPayloadEnvelopeBits) div 8 < compressedBytes then SIZE_MAX
      else RequiredStubPayloadEnvelopeBits + compressedBytes * 8)"

definition RequiredStubWireBits :: "size_t \<Rightarrow> size_t" where
  "RequiredStubWireBits compressedBytes =
     (let payloadBits = RequiredStubPayloadBits compressedBytes
      in if payloadBits = SIZE_MAX \<or> SIZE_MAX - RequiredStubOuterEnvelopeBits < payloadBits then SIZE_MAX
         else RequiredStubOuterEnvelopeBits + payloadBits)"

definition CanAppendRequiredStub :: "bool \<Rightarrow> size_t \<Rightarrow> size_t \<Rightarrow> bool" where
  "CanAppendRequiredStub reliableOverflowed reliableBitsLeft compressedBytes \<longleftrightarrow>
     (let payloadBits = RequiredStubPayloadBits compressedBytes;
          wireBits = RequiredStubWireBits compressedBytes
      in \<not> reliableOverflowed \<and> payloadBits \<le> RequiredStubMaximumPayloadBits \<and>
         wireBits \<noteq> SIZE_MAX \<and> wireBits \<le> reliableBitsLeft)"

datatype RequiredStubDrainAction = DrainAppend | WaitForReliableSpace | DrainReject

definition SelectRequiredStubDrainAction ::
  "bool \<Rightarrow> bool \<Rightarrow> bool \<Rightarrow> bool \<Rightarrow> size_t \<Rightarrow> bool \<Rightarrow> bool \<Rightarrow> size_t \<Rightarrow> RequiredStubDrainAction" where
  "SelectRequiredStubDrainAction enabled canonicalRegistration filePinned payloadAvailable
     compressedBytes clientConnected reliableOverflowed reliableBitsLeft =
     (if \<not> CanUsePinnedRequiredStub enabled canonicalRegistration filePinned payloadAvailable compressedBytes \<or>
         \<not> clientConnected \<or> reliableOverflowed
      then DrainReject
      else
        (let payloadBits = RequiredStubPayloadBits compressedBytes;
             wireBits = RequiredStubWireBits compressedBytes
         in if RequiredStubMaximumPayloadBits < payloadBits \<or> wireBits = SIZE_MAX then DrainReject
            else if wireBits \<le> reliableBitsLeft then DrainAppend else WaitForReliableSpace))"

definition AppendRequiredStubWire ::
  "'w BitWriter \<Rightarrow> 'w \<Rightarrow> u32 \<Rightarrow> u32 \<Rightarrow> u32 \<Rightarrow> u8 list option \<Rightarrow> size_t \<Rightarrow> bool \<times> 'w" where
  "AppendRequiredStubWire W reliable serviceType messageType fileID compressed compressedBytes =
     (if push_bit RequiredStubServiceTypeBits 1 \<le> serviceType \<or>
         push_bit RequiredStubMessageTypeBits 1 \<le> messageType \<or>
         push_bit RequiredStubFileIdBits 1 \<le> fileID \<or> (compressed = None \<and> compressedBytes \<noteq> 0)
      then (False, reliable)
      else
        (let bitsBefore = GetNumBitsWritten W reliable;
             bitsLeft = GetNumBitsLeft W reliable;
             payloadBits = RequiredStubPayloadBits compressedBytes;
             wireBits = RequiredStubWireBits compressedBytes
         in if bitsBefore < 0 \<or> bitsLeft < 0 \<or>
               \<not> CanAppendRequiredStub (IsOverflowed W reliable) (of_int bitsLeft) compressedBytes \<or>
               INT_MAX < unat payloadBits \<or> INT_MAX < unat wireBits
            then (False, reliable)
            else
              (let r1 = WriteUBitLong W serviceType (int RequiredStubServiceTypeBits) reliable;
                   r2 = WriteUBitLong W (ucast payloadBits) (int RequiredStubPayloadLengthBits) r1;
                   r3 = WriteUBitLong W messageType (int RequiredStubMessageTypeBits) r2;
                   r4 = WriteUBitLong W fileID (int RequiredStubFileIdBits) r3;
                   r5 = WriteBytes W (case compressed of Some bs \<Rightarrow> bs | None \<Rightarrow> []) (uint compressedBytes) r4
               in (\<not> IsOverflowed W r5 \<and> GetNumBitsWritten W r5 - bitsBefore = uint wireBits, r5))))"

definition RequiredStubReliableCapacityBytes :: "size_t \<Rightarrow> size_t \<Rightarrow> size_t \<Rightarrow> size_t" where
  "RequiredStubReliableCapacityBytes stubCount compressedBytes reserveBytes =
     (let wireBits = RequiredStubWireBits compressedBytes
      in if wireBits = SIZE_MAX \<or> (stubCount \<noteq> 0 \<and> (SIZE_MAX - 7) div stubCount < wireBits) then SIZE_MAX
         else
           (let burstBytes = (wireBits * stubCount + 7) div 8
            in if SIZE_MAX - burstBytes < reserveBytes then SIZE_MAX else burstBytes + reserveBytes))"

section \<open>The size arithmetic is exact or saturates\<close>

text \<open>The largest \<^verbatim>\<open>size_t\<close> as a number, and the wire size of a stub.\<close>

abbreviation TOP :: nat where
  "TOP \<equiv> 18446744073709551615"

definition stub_bits :: "nat \<Rightarrow> nat" where
  "stub_bits compressedBytes = 50 + 8 * compressedBytes"

lemma unat_SIZE_MAX [simp]: "unat SIZE_MAX = TOP"
  by (simp add: SIZE_MAX_def unsigned_minus_1_eq_mask mask_eq_exp_minus_1)

lemma le_TOP: "unat (w :: size_t) \<le> TOP"
  using unat_bound [of w] by simp

lemma eq_SIZE_MAX: "w = SIZE_MAX \<longleftrightarrow> unat w = TOP"
  by (simp add: word_unat_eq_iff)

lemma unat_PayloadBits:
  "unat (RequiredStubPayloadBits c) = (if 24 + 8 * unat c \<le> TOP then 24 + 8 * unat c else TOP)"
proof -
  have d: "unat ((SIZE_MAX - 24) div 8) = 2305843009213693948"
    by (simp add: unat_div_distrib unat_sub word_le_nat_alt)
  have "unat (24 + c * 8) = 24 + unat c * 8" if "24 + 8 * unat c \<le> TOP"
    using that by (subst unat_add_no_overflow; simp add: unat_mult_no_overflow)
  then show ?thesis
    using d by (auto simp: RequiredStubPayloadBits_def stub_consts word_less_nat_alt)
qed

lemma unat_StubWireBits:
  "unat (RequiredStubWireBits c) = (if stub_bits (unat c) \<le> TOP then stub_bits (unat c) else TOP)"
proof -
  have d: "unat (SIZE_MAX - 26) = TOP - 26" by (simp add: unat_sub word_le_nat_alt)
  have "unat (26 + RequiredStubPayloadBits c) = 50 + 8 * unat c" if "50 + 8 * unat c \<le> TOP"
    using that by (subst unat_add_no_overflow) (auto simp: unat_PayloadBits)
  then show ?thesis
    using d by (auto simp: RequiredStubWireBits_def stub_consts stub_bits_def Let_def word_less_nat_alt
        eq_SIZE_MAX unat_PayloadBits)
qed

lemma unat_MaximumPayload: "unat RequiredStubMaximumPayloadBits = 1048575"
  by (simp add: RequiredStubMaximumPayloadBits_def stub_consts push_bit_eq_mult unat_sub word_le_nat_alt)

lemma CanAppendRequiredStub_iff:
  "CanAppendRequiredStub overflowed bitsLeft c \<longleftrightarrow>
     \<not> overflowed \<and> 24 + 8 * unat c \<le> 1048575 \<and> stub_bits (unat c) \<le> unat bitsLeft"
  by (auto simp: CanAppendRequiredStub_def Let_def word_le_nat_alt unat_MaximumPayload
      unat_PayloadBits unat_StubWireBits eq_SIZE_MAX stub_bits_def split: if_splits)

lemma SelectRequiredStubDrainAction_Append_iff:
  "SelectRequiredStubDrainAction enabled canonical pinned payload c isConnected overflowed bitsLeft = DrainAppend \<longleftrightarrow>
     CanUsePinnedRequiredStub enabled canonical pinned payload c \<and> isConnected \<and>
     CanAppendRequiredStub overflowed bitsLeft c"
  by (auto simp: SelectRequiredStubDrainAction_def CanAppendRequiredStub_def Let_def not_less)

section \<open>The record\<close>

definition stub_record :: "u32 \<Rightarrow> u32 \<Rightarrow> u32 \<Rightarrow> u8 list \<Rightarrow> bool list" where
  "stub_record serviceType messageType fileID compressed =
     ubits 6 serviceType @ ubits 20 (of_nat (24 + 8 * length compressed)) @ ubits 8 messageType @
     ubits 16 fileID @ bytes_bits compressed"

lemma length_stub_record [simp]: "length (stub_record s m f bs) = stub_bits (length bs)"
  by (simp add: stub_record_def stub_bits_def)

definition stub_fields :: "u32 \<Rightarrow> u32 \<Rightarrow> u32 \<Rightarrow> bool" where
  "stub_fields serviceType messageType fileID \<longleftrightarrow>
     unat serviceType < 64 \<and> unat messageType < 256 \<and> unat fileID < 65536"

lemma stub_field_guard:
  "(push_bit RequiredStubServiceTypeBits 1 \<le> serviceType \<or>
      push_bit RequiredStubMessageTypeBits 1 \<le> messageType \<or>
      push_bit RequiredStubFileIdBits 1 \<le> fileID \<or> P) \<longleftrightarrow>
    \<not> (stub_fields serviceType messageType fileID \<and> \<not> P)"
  by (auto simp: stub_fields_def stub_consts push_bit_eq_mult word_le_nat_alt)

context bit_writer
begin

lemma stub_rejected:
  assumes "\<not> (stub_fields st mt fid \<and> CanAppendRequiredStub (IsOverflowed W w) (of_nat (room w)) cb)"
  shows "AppendRequiredStubWire W w st mt fid compressed cb = (False, w)"
  using assms bits_left [of w]
  unfolding AppendRequiredStubWire_def Let_def stub_field_guard
  by (auto simp: CanAppendRequiredStub_iff)

lemma stub_accepted:
  assumes f: "stub_fields st mt fid" and can: "CanAppendRequiredStub (IsOverflowed W w) (of_nat (room w)) cb"
    and room: "room w < 2 ^ 31" and len: "length bs = unat cb"
  shows "\<exists>w'. AppendRequiredStubWire W w st mt fid (Some bs) cb = (True, w') \<and>
    appended W bits room w (stub_record st mt fid bs) w'"
proof -
  have ur: "unat (of_nat (room w) :: size_t) = room w" using room by (intro unat_of_nat_small) simp
  from can have ovf: "\<not> IsOverflowed W w" and small: "24 + 8 * unat cb \<le> 1048575"
    and fits: "stub_bits (unat cb) \<le> room w"
    by (auto simp: CanAppendRequiredStub_iff ur)
  have v: "unat st < 2 ^ 6" "unat mt < 2 ^ 8" "unat fid < 2 ^ 16" using f by (auto simp: stub_fields_def)
  have pb: "unat (RequiredStubPayloadBits cb) = 24 + 8 * unat cb"
    and wb: "unat (RequiredStubWireBits cb) = stub_bits (unat cb)"
    using small by (auto simp: unat_PayloadBits unat_StubWireBits stub_bits_def)
  obtain P :: u32 where P: "P = of_nat (24 + 8 * length bs)" by blast
  have P': "ucast (RequiredStubPayloadBits cb) = P" by (simp only: ucast_of_nat_unat pb P len)
  have Pu: "unat P < 2 ^ 20" unfolding P using small len by (subst unat_of_nat_small) auto
  have fit: "50 + 8 * length bs \<le> room w" using fits len by (simp add: stub_bits_def)
  have cb: "uint cb = int (length bs)" by (simp only: uint_nat len)
  let ?w1 = "WriteUBitLong W st 6 w"
  let ?w2 = "WriteUBitLong W P 20 ?w1"
  let ?w3 = "WriteUBitLong W mt 8 ?w2"
  let ?w4 = "WriteUBitLong W fid 16 ?w3"
  let ?w' = "WriteBytes W bs (uint cb) ?w4"
  have o1: "appended W bits room w ([] @ ubits 6 st) ?w1"
    by (rule then_ubit_long [OF appended_refl [OF ovf]]) (use fit v in auto)
  have o2: "appended W bits room w (([] @ ubits 6 st) @ ubits 20 P) ?w2"
    by (rule then_ubit_long [OF o1]) (use fit Pu in auto)
  have o3: "appended W bits room w ((([] @ ubits 6 st) @ ubits 20 P) @ ubits 8 mt) ?w3"
    by (rule then_ubit_long [OF o2]) (use fit v in auto)
  have o4: "appended W bits room w (((([] @ ubits 6 st) @ ubits 20 P) @ ubits 8 mt) @ ubits 16 fid) ?w4"
    by (rule then_ubit_long [OF o3]) (use fit v in auto)
  have "appended W bits room w
      ((((([] @ ubits 6 st) @ ubits 20 P) @ ubits 8 mt) @ ubits 16 fid) @ bytes_bits (take (length bs) bs)) ?w'"
    by (rule then_write_bytes [OF o4]) (use fit cb in auto)
  then have app: "appended W bits room w (stub_record st mt fid bs) ?w'"
    by (simp add: stub_record_def P)
  from appended_check [OF app ovf] have "\<not> IsOverflowed W ?w' \<and>
    GetNumBitsWritten W ?w' - GetNumBitsWritten W w = uint (RequiredStubWireBits cb)"
    by (simp only: length_stub_record uint_nat wb len not_False_eq_True simp_thms)
  then have "AppendRequiredStubWire W w st mt fid (Some bs) cb = (True, ?w')"
    using f can ovf bits_left [OF ovf] written [OF ovf] small P'
    unfolding AppendRequiredStubWire_def Let_def stub_field_guard
    by (simp add: stub_consts INT_MAX_def pb wb) (simp add: stub_bits_def)
  with app show ?thesis by blast
qed

end

section \<open>Properties\<close>

text \<open>
  The drain decision and the append agree.  For a pinned stub of a connected client, the
  decision is to append exactly when the append would succeed (service, message and file ID in
  range); a successful append writes precisely one stub record, a failed one nothing; and the
  decision to wait means the stub would fit an empty enough stream, so waiting is never
  permanent for lack of frame size.
\<close>

theorem stub_append_matches_decision:
  assumes "bit_writer W bits room" and "room w < 2 ^ 31" and "length bs = unat cb"
    and "stub_fields st mt fid"
    and "CanUsePinnedRequiredStub enabled canonical pinned payload cb"
    and "AppendRequiredStubWire W w st mt fid (Some bs) cb = (ok, w')"
  shows "(SelectRequiredStubDrainAction enabled canonical pinned payload cb True
        (IsOverflowed W w) (of_nat (room w)) = DrainAppend) = ok \<and>
    (if ok then appended W bits room w (stub_record st mt fid bs) w' else w' = w) \<and>
    ((SelectRequiredStubDrainAction enabled canonical pinned payload cb True
        (IsOverflowed W w) (of_nat (room w)) = WaitForReliableSpace) =
     (\<not> IsOverflowed W w \<and> 24 + 8 * length bs \<le> 1048575 \<and> room w < stub_bits (length bs)))"
proof -
  have ur: "unat (of_nat (room w) :: size_t) = room w"
    using assms(2) by (intro unat_of_nat_small) simp
  have wait: "(SelectRequiredStubDrainAction enabled canonical pinned payload cb True
        (IsOverflowed W w) (of_nat (room w)) = WaitForReliableSpace) =
     (\<not> IsOverflowed W w \<and> 24 + 8 * length bs \<le> 1048575 \<and> room w < stub_bits (length bs))"
    using assms(5) by (auto simp: SelectRequiredStubDrainAction_def Let_def word_less_nat_alt
        word_le_nat_alt unat_MaximumPayload unat_PayloadBits unat_StubWireBits eq_SIZE_MAX
        stub_bits_def ur assms(3) split: if_splits)
  show ?thesis
  proof (cases "CanAppendRequiredStub (IsOverflowed W w) (of_nat (room w)) cb")
    case True
    from bit_writer.stub_accepted [OF assms(1,4) True assms(2,3)] assms(6)
    have "ok" "appended W bits room w (stub_record st mt fid bs) w'" by auto
    then show ?thesis using True wait assms(5) by (simp add: SelectRequiredStubDrainAction_Append_iff)
  next
    case False
    then have "AppendRequiredStubWire W w st mt fid (Some bs) cb = (False, w)"
      by (intro bit_writer.stub_rejected [OF assms(1)]) simp
    then show ?thesis
      using False wait assms(6) by (simp add: SelectRequiredStubDrainAction_Append_iff)
  qed
qed

theorem stub_append_matches_decision_witness:
  "\<exists>w'. AppendRequiredStubWire TestBitWriter_ops (TestBitWriter_new 400) 31 4 7 (Some (replicate 32 9)) 32 =
      (True, w') \<and> tbw_bits w' = stub_record 31 4 7 (replicate 32 9)"
proof -
  obtain ok w' where w': "AppendRequiredStubWire TestBitWriter_ops (TestBitWriter_new 400) 31 4 7
      (Some (replicate 32 9)) 32 = (ok, w')" by fastforce
  have "CanUsePinnedRequiredStub True True True True 32" by (simp add: CanUsePinnedRequiredStub_def)
  moreover have "tbw_room (TestBitWriter_new 400) = 400" "\<not> tbw_overflowed (TestBitWriter_new 400)"
    by (simp_all add: tbw_room_def TestBitWriter_new_def)
  moreover have "stub_fields 31 4 7" by (simp add: stub_fields_def)
  ultimately have "ok" "tbw_appended (TestBitWriter_new 400) (stub_record 31 4 7 (replicate 32 9)) w'"
    using stub_append_matches_decision [OF tbw.bit_writer_axioms _ _ _ _ w', of True True True True]
    by (auto simp: SelectRequiredStubDrainAction_Append_iff CanAppendRequiredStub_iff stub_bits_def)
  then show ?thesis using w' by (auto simp: appended_def TestBitWriter_new_def)
qed

text \<open>Staging a burst of stubs, one file after the other.\<close>

fun append_stubs ::
  "'w BitWriter \<Rightarrow> 'w \<Rightarrow> u32 \<Rightarrow> u32 \<Rightarrow> u32 list \<Rightarrow> u8 list \<Rightarrow> size_t \<Rightarrow> bool \<times> 'w" where
  "append_stubs W w st mt [] bs cb = (True, w)"
| "append_stubs W w st mt (f # fs) bs cb =
     (let (ok, w') = AppendRequiredStubWire W w st mt f (Some bs) cb
      in if ok then append_stubs W w' st mt fs bs cb else (False, w'))"

lemma unat_CapacityBytes:
  "unat (RequiredStubReliableCapacityBytes n c r) =
     (if stub_bits (unat c) < TOP \<and> stub_bits (unat c) * unat n + 7 \<le> TOP \<and>
         (stub_bits (unat c) * unat n + 7) div 8 + unat r \<le> TOP
      then (stub_bits (unat c) * unat n + 7) div 8 + unat r else TOP)"
proof (cases "stub_bits (unat c) < TOP")
  case False
  then have "RequiredStubWireBits c = SIZE_MAX"
    by (simp add: eq_SIZE_MAX unat_StubWireBits)
  then show ?thesis using False by (simp add: RequiredStubReliableCapacityBytes_def Let_def)
next
  case True
  let ?w = "RequiredStubWireBits c" and ?s = "stub_bits (unat c)"
  have w: "unat ?w = ?s" using True by (simp add: unat_StubWireBits)
  have nmax: "?w \<noteq> SIZE_MAX" using True by (simp add: eq_SIZE_MAX w)
  have d: "unat ((SIZE_MAX - 7) div n) = (TOP - 7) div unat n"
    by (simp add: unat_div_distrib unat_sub word_le_nat_alt)
  have guard: "(n \<noteq> 0 \<and> (SIZE_MAX - 7) div n < ?w) \<longleftrightarrow> TOP < ?s * unat n + 7"
  proof (cases "n = 0")
    case False
    then have "0 < unat n" by (simp add: unat_gt_0)
    then have "(TOP - 7) div unat n < ?s \<longleftrightarrow> TOP - 7 < ?s * unat n"
      by (rule div_less_iff_less_mult)
    then show ?thesis using False by (auto simp: word_less_nat_alt d w)
  qed simp
  show ?thesis
  proof (cases "TOP < ?s * unat n + 7")
    case True': True
    then show ?thesis using guard by (auto simp: RequiredStubReliableCapacityBytes_def Let_def)
  next
    case False
    have m: "unat (?w * n) = ?s * unat n"
      using False by (subst unat_mult_no_overflow) (auto simp: w)
    have "unat (?w * n + 7) = ?s * unat n + 7"
      using False m by (subst unat_add_no_overflow) auto
    then have b: "unat ((?w * n + 7) div 8) = (?s * unat n + 7) div 8"
      by (simp add: unat_div_distrib)
    let ?b = "(?w * n + 7) div 8"
    have sb: "unat (SIZE_MAX - ?b) = TOP - unat ?b"
      using le_TOP [of ?b] by (simp add: unat_sub word_le_nat_alt)
    show ?thesis
    proof (cases "SIZE_MAX - ?b < r")
      case True
      then have "TOP < unat ?b + unat r"
        using le_TOP [of ?b] by (simp only: word_less_nat_alt sb)
      then show ?thesis
        using True guard False nmax b by (simp add: RequiredStubReliableCapacityBytes_def Let_def)
    next
      case F: False
      then have le: "unat ?b + unat r \<le> TOP"
        using le_TOP [of ?b] by (simp only: word_less_nat_alt sb)
      then have "unat (?b + r) = unat ?b + unat r"
        by (subst unat_add_no_overflow) simp_all
      then show ?thesis
        using F guard False nmax b le True
        by (auto simp: RequiredStubReliableCapacityBytes_def Let_def)
    qed
  qed
qed

context bit_writer
begin

lemma append_stubs_fit:
  assumes "\<not> IsOverflowed W w" and "room w < 2 ^ 31" and "length bs = unat cb"
    and "24 + 8 * unat cb \<le> 1048575" and "list_all (stub_fields st mt) fids"
    and "length fids * stub_bits (length bs) \<le> room w"
  shows "\<exists>w'. append_stubs W w st mt fids bs cb = (True, w') \<and>
      appended W bits room w (concat (map (\<lambda>f. stub_record st mt f bs) fids)) w'"
  using assms(1,2,5,6)
proof (induction fids arbitrary: w)
  case Nil
  then show ?case by (simp add: appended_refl)
next
  case (Cons f fs)
  have ur: "unat (of_nat (room w) :: size_t) = room w"
    using Cons.prems(2) by (intro unat_of_nat_small) simp
  have "CanAppendRequiredStub (IsOverflowed W w) (of_nat (room w)) cb"
    using Cons.prems assms(3,4) by (simp add: CanAppendRequiredStub_iff ur)
  from stub_accepted [OF _ this Cons.prems(2) assms(3), of st mt f] Cons.prems(3) obtain w1 where w1:
    "AppendRequiredStubWire W w st mt f (Some bs) cb = (True, w1)"
    "appended W bits room w (stub_record st mt f bs) w1" by auto
  then have "\<not> IsOverflowed W w1" and r: "room w1 + stub_bits (length bs) = room w"
    by (auto simp: appended_def)
  moreover have "room w1 < 2 ^ 31" "length fs * stub_bits (length bs) \<le> room w1"
    using r Cons.prems(2,4) by auto
  ultimately obtain w' where "append_stubs W w1 st mt fs bs cb = (True, w')"
    "appended W bits room w1 (concat (map (\<lambda>f. stub_record st mt f bs) fs)) w'"
    using Cons.IH [of w1] Cons.prems(3) by auto
  then show ?case using w1 appended_trans by auto
qed

end

text \<open>
  The reserved scratch capacity holds the whole burst.  When
  \<^verbatim>\<open>RequiredStubReliableCapacityBytes\<close> does not saturate, a stream with that many free
  bytes takes one stub for each of the \<open>stubCount\<close> files in sequence without a single
  rejection, the stream gains exactly their records, and the reserve stays free for unrelated
  sign-on traffic; the capacity is less than one byte larger than that.
\<close>

theorem stub_burst_fits:
  assumes "bit_writer W bits room" and "\<not> IsOverflowed W w" and "room w < 2 ^ 31"
    and "RequiredStubReliableCapacityBytes (of_nat (length fids)) cb reserve \<noteq> SIZE_MAX"
    and "8 * unat (RequiredStubReliableCapacityBytes (of_nat (length fids)) cb reserve) \<le> room w"
    and "length fids < 2 ^ 64" and "length bs = unat cb" and "24 + 8 * unat cb \<le> 1048575"
    and "list_all (stub_fields st mt) fids"
  shows "\<exists>w'. append_stubs W w st mt fids bs cb = (True, w') \<and>
      appended W bits room w (concat (map (\<lambda>f. stub_record st mt f bs) fids)) w' \<and>
      8 * unat reserve \<le> room w' \<and>
      8 * unat (RequiredStubReliableCapacityBytes (of_nat (length fids)) cb reserve) <
        length fids * stub_bits (length bs) + 8 * unat reserve + 8"
proof -
  let ?n = "length fids" and ?cap = "RequiredStubReliableCapacityBytes (of_nat (length fids)) cb reserve"
  let ?b = "stub_bits (length bs) * ?n"
  have n: "unat (of_nat ?n :: size_t) = ?n" using assms(6) by (intro unat_of_nat_small) simp
  have cap: "unat ?cap = (?b + 7) div 8 + unat reserve"
    using assms(4) unfolding eq_SIZE_MAX unat_CapacityBytes n assms(7) by (auto split: if_splits)
  then have b: "?b + 8 * unat reserve \<le> 8 * unat ?cap" "8 * unat ?cap < ?b + 8 * unat reserve + 8"
    by linarith+
  have "length fids * stub_bits (length bs) \<le> room w"
    using b(1) assms(5) by (simp add: mult.commute)
  from bit_writer.append_stubs_fit [OF assms(1-3,7-9) this] obtain w' where w':
    "append_stubs W w st mt fids bs cb = (True, w')"
    "appended W bits room w (concat (map (\<lambda>f. stub_record st mt f bs) fids)) w'" by blast
  have "length (concat (map (\<lambda>f. stub_record st mt f bs) fids)) = ?b"
    by (induction fids) simp_all
  then have "8 * unat reserve \<le> room w'"
    using w'(2) b(1) assms(5) by (simp add: appended_def)
  with w' b(2) show ?thesis by (auto simp: mult.commute)
qed

theorem stub_burst_fits_witness:
  "\<exists>w'. append_stubs TestBitWriter_ops (TestBitWriter_new 4000) 31 4 [3, 7] (replicate 32 9) 32 = (True, w') \<and>
     length (tbw_bits w') = 612"
proof -
  let ?w = "TestBitWriter_new 4000"
  have c: "unat (RequiredStubReliableCapacityBytes 2 32 64) = 141"
    by (simp add: unat_CapacityBytes stub_bits_def)
  then have "RequiredStubReliableCapacityBytes 2 32 64 \<noteq> SIZE_MAX" by (simp add: eq_SIZE_MAX)
  with c stub_burst_fits [OF tbw.bit_writer_axioms, of ?w "[3, 7]" 32 64 "replicate 32 9" 31 4]
  obtain w' where "append_stubs TestBitWriter_ops ?w 31 4 [3, 7] (replicate 32 9) 32 = (True, w')"
    "tbw_appended ?w (concat (map (\<lambda>f. stub_record 31 4 f (replicate 32 9)) [3, 7])) w'"
    by (auto simp: tbw_room_def TestBitWriter_new_def stub_fields_def)
  then show ?thesis by (auto simp: appended_def TestBitWriter_new_def stub_bits_def)
qed

end
