(* ===== verification/PackFormat.thy ===== *)
theory PackFormat
  imports CppString DeliveryPolicy "HOL-Library.Char_ord"
begin

text \<open>
  The pack object (\<^verbatim>\<open>source/modules/gmoddatapack_luapack.cpp\<close>): path keys, hex
  decoding, the writer \<^verbatim>\<open>BuildPack\<close>, its self-check \<^verbatim>\<open>ValidatePack\<close>, and
  the hex encoding of the manifest.  A \<^verbatim>\<open>std::string\<close> is a list of characters, a
  Bootil buffer a list of bytes.  Bootil's MD5 and LZMA are arguments; what the code relies on
  is that MD5 yields 32 hexadecimal digits.
\<close>

section \<open>Paths and keys\<close>

definition NormalizePath :: "string \<Rightarrow> string" where
  "NormalizePath path =
     dropWhile (\<lambda>c. c = CHR ''@'' \<or> c = CHR ''/'')
       (map (\<lambda>c. if c = CHR 0x5C then CHR ''/'' else c) path)"

definition StartsWith :: "string \<Rightarrow> string \<Rightarrow> bool" where
  "StartsWith value pre \<longleftrightarrow> length pre \<le> length value \<and> take (length pre) value = pre"

definition StripAddonPrefix :: "string \<Rightarrow> string" where
  "StripAddonPrefix path =
     (if \<not> StartsWith path ''addons/'' then path
      else (case find_char_from (CHR ''/'') path (length ''addons/'') of
              None \<Rightarrow> path
            | Some slash \<Rightarrow> drop (slash + 1) path))"

text \<open>\<^verbatim>\<open>path.find("/entities/", from)\<close>.\<close>

definition find_str_from :: "string \<Rightarrow> string \<Rightarrow> nat \<Rightarrow> nat option" where
  "find_str_from lit s from' =
     (if length s < from' then None else map_option (\<lambda>i. from' + i) (find_str lit (drop from' s)))"

definition LocalKeyFormOne :: "string \<Rightarrow> string" where
  "LocalKeyFormOne path0 =
     (let path = StripAddonPrefix (NormalizePath path0);
          path1 = (if StartsWith path ''gamemodes/''
                   then (case find_str_from ''/entities/'' path (length ''gamemodes/'') of
                           Some entities \<Rightarrow> drop (entities + length ''/entities/'') path
                         | None \<Rightarrow> drop (length ''gamemodes/'') path)
                   else path)
      in if StartsWith path1 ''lua/'' then drop (length ''lua/'') path1 else path1)"

definition LocalKeyFormTwo :: "string \<Rightarrow> string" where
  "LocalKeyFormTwo path0 =
     (let path = StripAddonPrefix (NormalizePath path0);
          path1 = (if StartsWith path ''gamemodes/'' then drop (length ''gamemodes/'') path else path)
      in if StartsWith path1 ''lua/'' then drop (length ''lua/'') path1 else path1)"

definition IsInitFile :: "string \<Rightarrow> bool" where
  "IsInitFile virtualPath \<longleftrightarrow> LocalKeyFormTwo virtualPath = ''includes/init.lua''"

section \<open>Hexadecimal keys\<close>

text \<open>
  \<^verbatim>\<open>strtoul(pair, &end, 16)\<close> on the NUL-terminated pair: optional white space, an
  optional sign, then hexadecimal digits (a \<^verbatim>\<open>0x\<close> prefix does not fit two characters
  with a digit behind it).  The result is the value and the index \<^verbatim>\<open>end\<close> points to;
  without digits nothing is consumed.
\<close>

definition is_space :: "char \<Rightarrow> bool" where
  "is_space c \<longleftrightarrow> c \<in> {CHR '' '', CHR 0x09, CHR 0x0A, CHR 0x0B, CHR 0x0C, CHR 0x0D}"

definition hex_digit :: "char \<Rightarrow> nat option" where
  "hex_digit c =
     (let n = (of_char c :: nat)
      in if 48 \<le> n \<and> n \<le> 57 then Some (n - 48)
         else if 97 \<le> n \<and> n \<le> 102 then Some (n - 87)
         else if 65 \<le> n \<and> n \<le> 70 then Some (n - 55)
         else None)"

definition strtoul16 :: "string \<Rightarrow> u64 \<times> nat" where
  "strtoul16 str =
     (let s = takeWhile (\<lambda>c. c \<noteq> CHR 0x00) str;
          spaces = length (takeWhile is_space s);
          s1 = drop spaces s;
          signed = (s1 \<noteq> [] \<and> (hd s1 = CHR ''-'' \<or> hd s1 = CHR ''+''));
          s2 = (if signed then tl s1 else s1);
          digits = takeWhile (\<lambda>c. hex_digit c \<noteq> None) s2;
          value = foldl (\<lambda>v c. v * 16 + of_nat (the (hex_digit c))) (0 :: u64) digits
      in if digits = [] then (0, 0)
         else (if signed \<and> hd s1 = CHR ''-'' then - value else value,
               spaces + (if signed then 1 else 0) + length digits))"

fun hex_pairs :: "string \<Rightarrow> u8 list option" where
  "hex_pairs (a # b # rest) =
     (let (value, end') = strtoul16 [a, b]
      in if [a, b, CHR 0x00] ! end' \<noteq> CHR 0x00 \<or> 255 < value then None
         else (case hex_pairs rest of None \<Rightarrow> None | Some bs \<Rightarrow> Some (ucast value # bs)))"
| "hex_pairs rest = Some []"

definition HexToBytes :: "string \<Rightarrow> nat \<Rightarrow> u8 list option" where
  "HexToBytes hex outputLength =
     (if length hex \<noteq> outputLength * 2 then None else hex_pairs hex)"

definition hex_char :: "u8 \<Rightarrow> char" where
  "hex_char n = ''0123456789abcdef'' ! unat (n AND 15)"

definition HexEncode :: "string \<Rightarrow> string" where
  "HexEncode value =
     concat (map (\<lambda>c. let byte = (of_char c :: u8) in [hex_char (drop_bit 4 byte), hex_char byte]) value)"

section \<open>Building and validating a pack\<close>

record FileRecord =
  fr_virtualPath :: string
  fr_sourcePath :: string
  fr_contents :: string
  fr_identity :: string
  fr_revision :: u64

record BuildTask =
  bt_files :: "FileRecord list"
  bt_packDirectory :: string
  bt_salt :: string
  bt_sourceRevision :: u64
  bt_uncompressed :: "u8 list"
  bt_compressed :: "u8 list"
  bt_md5 :: string
  bt_error :: string
  bt_complete :: bool
  bt_success :: bool

text \<open>Bootil's \<^verbatim>\<open>Hasher::MD5::String\<close>, \<^verbatim>\<open>Hasher::MD5::Easy\<close> and \<^verbatim>\<open>LZMA::Compress\<close>.\<close>

record Bootil =
  MD5_String :: "string \<Rightarrow> string"
  MD5_Easy :: "u8 list \<Rightarrow> string"
  LZMA_Compress :: "u8 list \<Rightarrow> u8 list option"

definition bytes_of :: "string \<Rightarrow> u8 list" where
  "bytes_of s = map of_char s"

definition UINT_MAX :: nat where
  "UINT_MAX = 4294967295"

definition WritePackKey :: "Bootil \<Rightarrow> u8 list \<Rightarrow> string \<Rightarrow> string \<Rightarrow> bool \<times> u8 list" where
  "WritePackKey B output salt value =
     (case HexToBytes (MD5_String B (salt @ value)) 16 of
        None \<Rightarrow> (False, output)
      | Some key \<Rightarrow> (True, output @ key))"

definition be32 :: "u32 \<Rightarrow> u8 list" where
  "be32 n = [ucast (drop_bit 24 n AND 255), ucast (drop_bit 16 n AND 255),
             ucast (drop_bit 8 n AND 255), ucast (n AND 255)]"

definition be32_value :: "u8 list \<Rightarrow> u32" where
  "be32_value d =
     push_bit 24 (ucast (d ! 0)) OR push_bit 16 (ucast (d ! 1)) OR push_bit 8 (ucast (d ! 2)) OR
       ucast (d ! 3)"

text \<open>The parse loop of \<^verbatim>\<open>ValidatePack\<close>, on the bytes from \<open>offset\<close> on.\<close>

function validate_entries ::
  "FileRecord list \<Rightarrow> u8 list \<Rightarrow> nat \<Rightarrow> nat \<Rightarrow> u8 list set \<Rightarrow> bool" where
  "validate_entries files data offset fileIndex sourceKeys =
     (if \<not> offset < length data then offset = length data \<and> fileIndex = length files
      else if length data - offset < 16 * 3 + 4 \<or> length files \<le> fileIndex then False
      else
        (let sourceKey = take 16 (drop offset data);
             (fresh, sourceKeys') = RegisterExactKey sourceKeys sourceKey
         in if \<not> fresh then False
            else
              (let offset1 = offset + 16 * 3;
                   contentLength = unat (be32_value (drop offset1 data));
                   offset2 = offset1 + 4
               in if length data - offset2 < contentLength \<or>
                     contentLength \<noteq> length (fr_contents (files ! fileIndex))
                  then False
                  else if take contentLength (drop offset2 data) \<noteq>
                          bytes_of (fr_contents (files ! fileIndex))
                  then False
                  else validate_entries files data (offset2 + contentLength) (fileIndex + 1) sourceKeys')))"
  by auto

termination
  by (relation "measure (\<lambda>(files, data, offset, fileIndex, sourceKeys). length data - offset)") auto

declare validate_entries.simps [simp del]

definition ValidatePack :: "BuildTask \<Rightarrow> bool" where
  "ValidatePack task =
     (let data = bt_uncompressed task
      in if length data < 1 then False
         else if data ! 0 \<noteq> 1 then False
         else validate_entries (bt_files task) data 1 0 {})"

text \<open>The loop over the files; \<open>Inl\<close> is an early return with its error message.\<close>

fun write_entries :: "Bootil \<Rightarrow> string \<Rightarrow> FileRecord list \<Rightarrow> u8 list \<Rightarrow> (string \<times> u8 list) + u8 list" where
  "write_entries B salt [] output = Inr output"
| "write_entries B salt (file # files) output =
     (if UINT_MAX < length (fr_contents file)
      then Inl (''a Lua source file exceeds the pack format's u32 length'', output)
      else
        (let (ok1, o1) = WritePackKey B output salt (fr_sourcePath file);
             (ok2, o2) = (if ok1 then WritePackKey B o1 salt (LocalKeyFormOne (fr_virtualPath file))
                          else (False, o1));
             (ok3, o3) = (if ok2 then WritePackKey B o2 salt (LocalKeyFormTwo (fr_virtualPath file))
                          else (False, o2))
         in if \<not> ok3 then Inl (''failed to encode an MD5 index key'', o3)
            else write_entries B salt files
                   (o3 @ be32 (of_nat (length (fr_contents file))) @ bytes_of (fr_contents file))))"

definition ascii_lower :: "char \<Rightarrow> char" where
  "ascii_lower c =
     (if CHR ''A'' \<le> c \<and> c \<le> CHR ''Z'' then char_of ((of_char c :: nat) + 32) else c)"

definition BuildPack :: "Bootil \<Rightarrow> BuildTask \<Rightarrow> BuildTask" where
  "BuildPack B task =
     (case write_entries B (bt_salt task) (bt_files task) (bt_uncompressed task @ [1]) of
        Inl (err, output) \<Rightarrow> task\<lparr>bt_uncompressed := output, bt_error := err, bt_complete := True\<rparr>
      | Inr output \<Rightarrow>
          (let t1 = task\<lparr>bt_uncompressed := output\<rparr>
           in if \<not> ValidatePack t1
              then t1\<lparr>bt_error := ''internal build-to-parse validation failed'', bt_complete := True\<rparr>
              else
                (let t2 = t1\<lparr>bt_md5 := map ascii_lower (MD5_Easy B output)\<rparr>
                 in case LZMA_Compress B output of
                      None \<Rightarrow> t2\<lparr>bt_error := ''LZMA compression failed'', bt_complete := True\<rparr>
                    | Some compressed \<Rightarrow>
                        t2\<lparr>bt_compressed := bt_compressed t2 @ compressed,
                           bt_success := True, bt_complete := True\<rparr>)))"

section \<open>Hexadecimal facts\<close>

definition is_hex :: "char \<Rightarrow> bool" where
  "is_hex c \<longleftrightarrow> hex_digit c \<noteq> None"

lemma hex_digit_bound: "hex_digit c = Some d \<Longrightarrow> d < 16"
  by (auto simp: hex_digit_def Let_def split: if_splits)

lemma hex_not_special:
  assumes "hex_digit c = Some d"
  shows "c \<noteq> CHR 0x00" and "\<not> is_space c" and "c \<noteq> CHR ''-''" and "c \<noteq> CHR ''+''"
  using assms by (auto simp: hex_digit_def is_space_def)

lemma strtoul16_hex:
  assumes "hex_digit a = Some x" and "hex_digit b = Some y"
  shows "strtoul16 [a, b] = (of_nat (x * 16 + y), 2)"
  using assms hex_not_special [OF assms(1)] hex_not_special [OF assms(2)]
  by (simp add: strtoul16_def Let_def)

lemma hex_pairs_step:
  assumes "hex_digit a = Some x" and "hex_digit b = Some y"
  shows "hex_pairs (a # b # rest) =
    (case hex_pairs rest of None \<Rightarrow> None | Some bs \<Rightarrow> Some (of_nat (x * 16 + y) # bs))"
proof -
  have le: "x * 16 + y < 256"
    using hex_digit_bound [OF assms(1)] hex_digit_bound [OF assms(2)] by simp
  then have u: "unat (of_nat (x * 16 + y) :: u64) = x * 16 + y"
    by (intro unat_of_nat_small) simp
  then have "\<not> 255 < (of_nat (x * 16 + y) :: u64)"
    using le by (simp only: word_less_nat_alt) simp
  moreover have "(ucast (of_nat (x * 16 + y) :: u64) :: u8) = of_nat (x * 16 + y)"
    by (simp only: ucast_of_nat_unat u)
  ultimately show ?thesis
    by (simp only: hex_pairs.simps strtoul16_hex [OF assms] Let_def case_prod_conv) simp
qed

lemma hex_pairs_total:
  "list_all is_hex h \<Longrightarrow> length h = 2 * n \<Longrightarrow> \<exists>bs. hex_pairs h = Some bs \<and> length bs = n"
proof (induction n arbitrary: h)
  case 0
  then show ?case by simp
next
  case (Suc n)
  then obtain a b r where h: "h = a # b # r" by (cases h; cases "tl h") auto
  then obtain x y where "hex_digit a = Some x" "hex_digit b = Some y"
    using Suc.prems(1) by (auto simp: is_hex_def)
  moreover obtain bs where "hex_pairs r = Some bs" "length bs = n"
    using Suc.IH [of r] Suc.prems h by auto
  ultimately show ?case using h by (simp only: hex_pairs_step) simp
qed

lemma hex_digits_table:
  "list_all (\<lambda>k. hex_digit (''0123456789abcdef'' ! k) = Some k) [0..<16]"
  by code_simp

lemma unat_and15: "unat (n AND 15) = unat n mod 16" for n :: u8
proof -
  have "(15 :: u8) = mask 4" by (simp add: mask_eq_exp_minus_1)
  then have "n AND 15 = take_bit 4 n" by (simp only: take_bit_eq_mask)
  then show ?thesis by (simp add: take_bit_eq_mod unat_mod_distrib)
qed

lemma hex_digit_hex_char: "hex_digit (hex_char n) = Some (unat (n AND 15))"
proof -
  have "unat (n AND 15) < 16" by (simp add: unat_and15)
  then show ?thesis using hex_digits_table by (simp add: hex_char_def list_all_iff)
qed

lemma nibbles: "(of_nat (unat (drop_bit 4 b AND 15) * 16 + unat (b AND 15)) :: u8) = b" for b :: u8
proof -
  have "unat (drop_bit 4 b) = unat b div 16"
    by (simp add: drop_bit_eq_div unat_div_distrib)
  then have "unat (drop_bit 4 b AND 15) = unat b div 16"
    using unat_bound [of b] by (simp add: unat_and15)
  then have "unat (drop_bit 4 b AND 15) * 16 + unat (b AND 15) = unat b"
    by (simp only: unat_and15 div_mult_mod_eq)
  then show ?thesis by simp
qed

text \<open>
  Hexadecimal transport is lossless.  What \<^verbatim>\<open>HexEncode\<close> writes into the
  manifest (pack directory and salt) decodes to the original bytes, and the encoding has two
  lower-case digits per byte.
\<close>

theorem hex_roundtrip:
  "HexToBytes (HexEncode s) (length s) = Some (bytes_of s) \<and> length (HexEncode s) = 2 * length s"
proof -
  have len: "length (HexEncode s) = 2 * length s"
    by (induction s) (simp_all add: HexEncode_def Let_def)
  have "hex_pairs (HexEncode s) = Some (bytes_of s)"
  proof (induction s)
    case Nil
    then show ?case by (simp add: HexEncode_def bytes_of_def)
  next
    case (Cons c s)
    let ?b = "of_char c :: u8"
    have "HexEncode (c # s) = hex_char (drop_bit 4 ?b) # hex_char ?b # HexEncode s"
      by (simp add: HexEncode_def Let_def)
    then show ?case
      using Cons.IH nibbles [of ?b]
      by (simp only: hex_pairs_step [OF hex_digit_hex_char hex_digit_hex_char]) (simp add: bytes_of_def)
  qed
  then show ?thesis using len by (simp add: HexToBytes_def)
qed

section \<open>What the writer produces\<close>

text \<open>The index key of a path under a salt, as the bytes in the pack.\<close>

definition pack_key :: "Bootil \<Rightarrow> string \<Rightarrow> string \<Rightarrow> u8 list" where
  "pack_key B salt value =
     (case HexToBytes (MD5_String B (salt @ value)) 16 of Some k \<Rightarrow> k | None \<Rightarrow> [])"

definition pack_entry :: "Bootil \<Rightarrow> string \<Rightarrow> FileRecord \<Rightarrow> u8 list" where
  "pack_entry B salt file =
     pack_key B salt (fr_sourcePath file) @
     pack_key B salt (LocalKeyFormOne (fr_virtualPath file)) @
     pack_key B salt (LocalKeyFormTwo (fr_virtualPath file)) @
     be32 (of_nat (length (fr_contents file))) @ bytes_of (fr_contents file)"

text \<open>Bootil's documented MD5 output: 32 hexadecimal digits.\<close>

definition md5_hex :: "Bootil \<Rightarrow> bool" where
  "md5_hex B \<longleftrightarrow> (\<forall>s. length (MD5_String B s) = 32 \<and> list_all is_hex (MD5_String B s))"

definition u32_files :: "FileRecord list \<Rightarrow> bool" where
  "u32_files files \<longleftrightarrow> list_all (\<lambda>f. length (fr_contents f) \<le> UINT_MAX) files"

lemma WritePackKey_ok:
  assumes "md5_hex B"
  shows "WritePackKey B output salt value = (True, output @ pack_key B salt value)"
    and "length (pack_key B salt value) = 16"
proof -
  have "length (MD5_String B (salt @ value)) = 2 * 16" "list_all is_hex (MD5_String B (salt @ value))"
    using assms by (auto simp: md5_hex_def)
  from hex_pairs_total [OF this(2,1)] this(1) obtain k where
    "HexToBytes (MD5_String B (salt @ value)) 16 = Some k" "length k = 16"
    by (auto simp: HexToBytes_def)
  then show "WritePackKey B output salt value = (True, output @ pack_key B salt value)"
    and "length (pack_key B salt value) = 16"
    by (auto simp: WritePackKey_def pack_key_def)
qed

lemma write_entries_ok:
  assumes "md5_hex B" and "u32_files files"
  shows "write_entries B salt files output = Inr (output @ concat (map (pack_entry B salt) files))"
  using assms(2)
proof (induction files arbitrary: "output")
  case (Cons f fs)
  then show ?case
    by (simp add: u32_files_def WritePackKey_ok [OF assms(1)] pack_entry_def)
qed simp

lemma length_bytes_of [simp]: "length (bytes_of s) = length s"
  by (simp add: bytes_of_def)

lemma length_be32 [simp]: "length (be32 n) = 4"
  by (simp add: be32_def)

lemma ucast_and_255: "(ucast (x AND 255) :: u8) = ucast x" for x :: u32
proof -
  have "x AND 255 = take_bit 8 x"
    by (simp add: take_bit_eq_mask mask_eq_exp_minus_1)
  then show ?thesis by (simp add: bit_eq_iff bit_simps) 
qed

lemma be32_eq:
  "be32 n = [ucast (drop_bit 24 n), ucast (drop_bit 16 n), ucast (drop_bit 8 n), ucast n]"
  by (simp add: be32_def ucast_and_255)

lemma be32_value_Cons:
  "be32_value (a # b # c # d # r) =
     push_bit 24 (ucast a) OR push_bit 16 (ucast b) OR push_bit 8 (ucast c) OR ucast d"
  by (simp add: be32_value_def numeral_3_eq_3 numeral_2_eq_2)

lemma be32_roundtrip: "be32_value (be32 n @ rest) = n"
proof (rule bit_word_eqI)
  fix k :: nat
  assume "k < LENGTH(32)"
  then consider "k < 8" | "8 \<le> k" "k < 16" | "16 \<le> k" "k < 24" | "24 \<le> k" "k < 32" by fastforce
  then show "bit (be32_value (be32 n @ rest)) k = bit n k"
    by cases (auto simp: be32_eq be32_value_Cons bit_simps dest: bit_imp_le_length)
qed

lemma unat_be32_length:
  "length s \<le> UINT_MAX \<Longrightarrow> unat (be32_value (be32 (of_nat (length s)) @ rest)) = length s"
  by (simp only: be32_roundtrip) (rule unat_of_nat_small, simp add: UINT_MAX_def)

text \<open>The layout of one entry, from the offset the parser is at.\<close>

lemma entry_layout:
  assumes "md5_hex B"
  shows "take 16 (pack_entry B salt f @ r) = pack_key B salt (fr_sourcePath f)"
    and "drop 48 (pack_entry B salt f @ r) =
      be32 (of_nat (length (fr_contents f))) @ bytes_of (fr_contents f) @ r"
    and "drop 52 (pack_entry B salt f @ r) = bytes_of (fr_contents f) @ r"
    and "length (pack_entry B salt f) = 52 + length (fr_contents f)"
  using WritePackKey_ok(2) [OF assms] by (simp_all add: pack_entry_def)

lemma validate_entries_spec:
  assumes md5: "md5_hex B" and "u32_files files"
    and "drop offset data = concat (map (pack_entry B salt) (drop i files))"
    and "offset \<le> length data" and "i \<le> length files"
  shows "validate_entries files data offset i K \<longleftrightarrow>
    distinct (map (\<lambda>f. pack_key B salt (fr_sourcePath f)) (drop i files)) \<and>
    (\<lambda>f. pack_key B salt (fr_sourcePath f)) ` set (drop i files) \<inter> K = {}"
  using assms(3-5)
proof (induction "length files - i" arbitrary: offset i K)
  case 0
  then have "drop offset data = []" "i = length files" by auto
  then show ?case using 0 by (subst validate_entries.simps) auto
next
  case (Suc n)
  let ?f = "files ! i" and ?key = "\<lambda>f. pack_key B salt (fr_sourcePath f)"
  let ?rest = "concat (map (pack_entry B salt) (drop (Suc i) files))"
  have i: "i < length files" using Suc.hyps(2) by simp
  then have files: "drop i files = ?f # drop (Suc i) files" by (simp add: Cons_nth_drop_Suc)
  have d: "drop offset data = pack_entry B salt ?f @ ?rest" using Suc.prems(1) files by simp
  note lay = entry_layout(1-3) [OF md5, where salt = salt and f = ?f and r = ?rest]
    entry_layout(4) [OF md5, where salt = salt and f = ?f]
  have len: "length data - offset = 52 + length (fr_contents ?f) + length ?rest"
    using d lay(4) by (metis length_append length_drop)
  have u: "length (fr_contents ?f) \<le> UINT_MAX"
    using assms(2) i by (auto simp: u32_files_def list_all_length)
  have key: "take 16 (drop offset data) = ?key ?f" using d lay(1) by simp
  have d48: "drop (offset + 16 * 3) data = drop 48 (drop offset data)" by (simp add: add.commute)
  have clen: "unat (be32_value (drop (offset + 16 * 3) data)) = length (fr_contents ?f)"
    unfolding d48 d lay(2) by (rule unat_be32_length [OF u])
  have d52: "drop (offset + 16 * 3 + 4) data = bytes_of (fr_contents ?f) @ ?rest"
  proof -
    have "drop (offset + 16 * 3 + 4) data = drop 52 (drop offset data)" by (simp add: add.commute)
    then show ?thesis unfolding d lay(3) .
  qed
  let ?o = "offset + 16 * 3 + 4 + length (fr_contents ?f)"
  have next_data: "drop ?o data = ?rest"
  proof -
    have "drop ?o data = drop (length (fr_contents ?f)) (drop (offset + 16 * 3 + 4) data)"
      by (simp add: ac_simps)
    then show ?thesis unfolding d52 by simp
  qed
  have next_le: "?o \<le> length data" using len Suc.prems(2) by simp
  have step: "validate_entries files data offset i K =
      (?key ?f \<notin> K \<and> validate_entries files data ?o (i + 1) (insert (?key ?f) K))"
    using len clen d52 i key
    by (subst validate_entries.simps) (auto simp: RegisterExactKey_def Let_def)
  have "n = length files - (i + 1)" using Suc.hyps(2) by simp
  from Suc.hyps(1) [OF this _ next_le, of "insert (?key ?f) K"] next_data i
  have "validate_entries files data ?o (i + 1) (insert (?key ?f) K) \<longleftrightarrow>
      distinct (map ?key (drop (Suc i) files)) \<and>
      ?key ` set (drop (Suc i) files) \<inter> insert (?key ?f) K = {}" by simp
  then show ?case unfolding step files by auto
qed

text \<open>The format the client reads, as a parser of the bytes behind the version.\<close>

function parse_entries :: "u8 list \<Rightarrow> (u8 list \<times> u8 list \<times> u8 list \<times> u8 list) list option" where
  "parse_entries d =
     (if d = [] then Some []
      else if length d < 52 then None
      else
        (let n = unat (be32_value (drop 48 d))
         in if length (drop 52 d) < n then None
            else (case parse_entries (drop (52 + n) d) of
                    None \<Rightarrow> None
                  | Some es \<Rightarrow>
                      Some ((take 16 d, take 16 (drop 16 d), take 16 (drop 32 d), take n (drop 52 d)) # es))))"
  by auto

termination
  by (relation "measure length") auto

declare parse_entries.simps [simp del]

lemma parse_written:
  assumes "md5_hex B" and "u32_files files"
  shows "parse_entries (concat (map (pack_entry B salt) files)) =
    Some (map (\<lambda>f. (pack_key B salt (fr_sourcePath f),
      pack_key B salt (LocalKeyFormOne (fr_virtualPath f)),
      pack_key B salt (LocalKeyFormTwo (fr_virtualPath f)), bytes_of (fr_contents f))) files)"
  using assms(2)
proof (induction files)
  case Nil
  then show ?case by (simp add: parse_entries.simps)
next
  case (Cons f fs)
  let ?rest = "concat (map (pack_entry B salt) fs)"
  let ?d = "pack_entry B salt f @ ?rest"
  note lay = entry_layout(1-3) [OF assms(1), where salt = salt and f = f and r = ?rest]
    entry_layout(4) [OF assms(1), where salt = salt and f = f]
  note k = WritePackKey_ok(2) [OF assms(1)]
  have u: "length (fr_contents f) \<le> UINT_MAX" using Cons.prems by (simp add: u32_files_def)
  have n: "unat (be32_value (drop 48 ?d)) = length (fr_contents f)"
    unfolding lay(2) by (rule unat_be32_length [OF u])
  have keys: "take 16 (drop 16 ?d) = pack_key B salt (LocalKeyFormOne (fr_virtualPath f))"
    "take 16 (drop 32 ?d) = pack_key B salt (LocalKeyFormTwo (fr_virtualPath f))"
    by (simp_all add: pack_entry_def k)
  have rest: "drop (52 + length (fr_contents f)) ?d = ?rest" using lay(4) by simp
  have ne: "?d \<noteq> []" "\<not> length ?d < 52" using lay(4) by auto
  have l: "\<not> length (drop 52 ?d) < length (fr_contents f)" unfolding lay(3) by simp
  have "parse_entries ?d = (case parse_entries ?rest of None \<Rightarrow> None
      | Some es \<Rightarrow> Some ((take 16 ?d, take 16 (drop 16 ?d), take 16 (drop 32 ?d),
          take (length (fr_contents f)) (drop 52 ?d)) # es))"
    by (subst parse_entries.simps) (simp only: ne l n Let_def rest if_False)
  also have "take (length (fr_contents f)) (drop 52 ?d) = bytes_of (fr_contents f)"
    unfolding lay(3) by simp
  finally show ?case
    using Cons.IH Cons.prems keys lay(1) by (simp add: u32_files_def)
qed

section \<open>Properties of the pack\<close>

abbreviation exact_keys :: "Bootil \<Rightarrow> BuildTask \<Rightarrow> u8 list list" where
  "exact_keys B task \<equiv> map (\<lambda>f. pack_key B (bt_salt task) (fr_sourcePath f)) (bt_files task)"

abbreviation pack_body :: "Bootil \<Rightarrow> BuildTask \<Rightarrow> u8 list" where
  "pack_body B task \<equiv> concat (map (pack_entry B (bt_salt task)) (bt_files task))"

lemma ValidatePack_written:
  assumes "md5_hex B" and "u32_files (bt_files task)" and "bt_uncompressed task = 1 # pack_body B task"
  shows "ValidatePack task = distinct (exact_keys B task)"
  using validate_entries_spec [OF assms(1,2), where offset = 1 and i = 0 and K = "{}"
      and salt = "bt_salt task" and data = "1 # pack_body B task"]
  by (simp add: ValidatePack_def assms(3))

lemma BuildPack_written:
  assumes "md5_hex B" and "u32_files (bt_files task)" and "bt_uncompressed task = []"
  shows "BuildPack B task =
    (let t1 = task\<lparr>bt_uncompressed := 1 # pack_body B task\<rparr>
     in if \<not> distinct (exact_keys B task)
        then t1\<lparr>bt_error := ''internal build-to-parse validation failed'', bt_complete := True\<rparr>
        else
          (let t2 = t1\<lparr>bt_md5 := map ascii_lower (MD5_Easy B (1 # pack_body B task))\<rparr>
           in case LZMA_Compress B (1 # pack_body B task) of
                None \<Rightarrow> t2\<lparr>bt_error := ''LZMA compression failed'', bt_complete := True\<rparr>
              | Some compressed \<Rightarrow>
                  t2\<lparr>bt_compressed := bt_compressed t2 @ compressed,
                     bt_success := True, bt_complete := True\<rparr>))"
proof -
  let ?t = "task\<lparr>bt_uncompressed := 1 # pack_body B task\<rparr>"
  have w: "write_entries B (bt_salt task) (bt_files task) (bt_uncompressed task @ [1]) =
      Inr (1 # pack_body B task)"
    by (simp add: write_entries_ok [OF assms(1,2)] assms(3))
  have v: "ValidatePack ?t = distinct (exact_keys B task)"
    using ValidatePack_written [OF assms(1), of ?t] assms(2) by simp
  show ?thesis by (simp add: BuildPack_def w v Let_def)
qed

text \<open>
  C17. A pack is published exactly when its index is unambiguous, and what is published can be
  read back.  For files within the format's 32-bit length and an MD5 of 32 hexadecimal digits,
  the build of a fresh task completes; it succeeds exactly when no two files share their exact
  index key and the compression succeeds; the object then is the version byte followed by one
  entry per file, and parsing it yields, in order, each file's three index keys and its exact
  contents.  Colliding keys end in the validation error and publish nothing.
\<close>

theorem BuildPack_correct:
  assumes "md5_hex B" and "u32_files (bt_files task)"
    and "bt_uncompressed task = []" and "bt_compressed task = []" and "\<not> bt_success task"
  shows "bt_complete (BuildPack B task) \<and>
    bt_success (BuildPack B task) =
      (distinct (exact_keys B task) \<and> LZMA_Compress B (1 # pack_body B task) \<noteq> None) \<and>
    bt_uncompressed (BuildPack B task) = 1 # pack_body B task \<and>
    parse_entries (tl (bt_uncompressed (BuildPack B task))) =
      Some (map (\<lambda>f. (pack_key B (bt_salt task) (fr_sourcePath f),
        pack_key B (bt_salt task) (LocalKeyFormOne (fr_virtualPath f)),
        pack_key B (bt_salt task) (LocalKeyFormTwo (fr_virtualPath f)),
        bytes_of (fr_contents f))) (bt_files task)) \<and>
    (bt_success (BuildPack B task) \<longrightarrow>
      LZMA_Compress B (1 # pack_body B task) = Some (bt_compressed (BuildPack B task)) \<and>
      bt_md5 (BuildPack B task) = map ascii_lower (MD5_Easy B (1 # pack_body B task))) \<and>
    (\<not> distinct (exact_keys B task) \<longrightarrow>
      bt_error (BuildPack B task) = ''internal build-to-parse validation failed'')"
  using assms(4,5) parse_written [OF assms(1,2), of "bt_salt task"]
  by (auto simp: BuildPack_written [OF assms(1-3)] Let_def split: option.splits)

theorem BuildPack_correct_witness:
  "bt_success (BuildPack \<lparr>MD5_String = (\<lambda>s. replicate 32 (CHR ''a'')), MD5_Easy = (\<lambda>d. ''A1''),
      LZMA_Compress = Some\<rparr>
    \<lparr>bt_files = [\<lparr>fr_virtualPath = ''lua/a.lua'', fr_sourcePath = ''lua/a.lua'', fr_contents = ''x'',
        fr_identity = '''', fr_revision = 1\<rparr>],
     bt_packDirectory = ''d'', bt_salt = ''s'', bt_sourceRevision = 1, bt_uncompressed = [],
     bt_compressed = [], bt_md5 = '''', bt_error = '''', bt_complete = False, bt_success = False\<rparr>)"
  (is "bt_success (BuildPack ?B ?t)")
proof -
  have "md5_hex ?B" by (simp add: md5_hex_def is_hex_def hex_digit_def list_all_iff)
  moreover have "u32_files (bt_files ?t)" by (simp add: u32_files_def UINT_MAX_def)
  ultimately show ?thesis using BuildPack_correct [of ?B ?t] by simp
qed

lemma StartsWith_append [simp]: "StartsWith (p @ s) p"
  by (simp add: StartsWith_def)

lemma NormalizePath_skip:
  assumes "set pre \<subseteq> {CHR ''@'', CHR ''/'', CHR 0x5C}" and "p \<noteq> []"
    and "hd p \<notin> {CHR ''@'', CHR ''/'', CHR 0x5C}" and "CHR 0x5C \<notin> set p"
  shows "NormalizePath (pre @ p) = p"
proof -
  have id: "map (\<lambda>c. if c = CHR 0x5C then CHR ''/'' else c) p = p"
    using assms(4) by (induction p) auto
  have "dropWhile (\<lambda>c. c = CHR ''@'' \<or> c = CHR ''/'')
      (map (\<lambda>c. if c = CHR 0x5C then CHR ''/'' else c) pre @ q) = 
      dropWhile (\<lambda>c. c = CHR ''@'' \<or> c = CHR ''/'') q" for q
    using assms(1) by (induction pre) auto
  then show ?thesis
    using assms(2,3) id by (cases p) (auto simp: NormalizePath_def)
qed

lemma StripAddonPrefix_addon:
  assumes "CHR ''/'' \<notin> set name"
  shows "StripAddonPrefix (''addons/'' @ name @ ''/'' @ p) = p"
proof -
  have "find_char_from (CHR ''/'') (''addons/'' @ name @ ''/'' @ p) 7 = Some (7 + length name)"
    using find_char_append [OF assms, of p] by (simp add: find_char_from_def)
  moreover have "drop (7 + length name + 1) (''addons/'' @ name @ ''/'' @ p) = p"
  proof -
    have "drop (length (''addons/'' @ name @ ''/'')) ((''addons/'' @ name @ ''/'') @ p) = p"
      by (rule append_eq_conv_conj [THEN iffD1, OF refl, THEN conjunct2, symmetric])
    moreover have "length (''addons/'' @ name @ ''/'') = 7 + length name + 1" by simp
    ultimately show ?thesis by (simp only: append_assoc)
  qed
  ultimately show ?thesis by (simp add: StripAddonPrefix_def StartsWith_def eval_nat_numeral)
qed

text \<open>
  The bootstrap file is recognised wherever an addon provides it.  However the path is
  written (leading \<^verbatim>\<open>@\<close>, slashes or backslashes), \<^verbatim>\<open>lua/includes/init.lua\<close> of any addon, and
  the base file itself, count as the init file, so the bootstrap is injected and never stubbed.
\<close>

theorem init_file_of_any_addon:
  assumes "set pre \<subseteq> {CHR ''@'', CHR ''/'', CHR 0x5C}"
    and "{CHR ''/'', CHR 0x5C} \<inter> set name = {}"
  shows "IsInitFile (pre @ ''addons/'' @ name @ ''/lua/includes/init.lua'') \<and>
    IsInitFile (pre @ ''lua/includes/init.lua'') \<and> IsInitFile (pre @ ''includes/init.lua'')"
proof -
  have name: "CHR ''/'' \<notin> set name" "CHR 0x5C \<notin> set name" using assms(2) by auto
  have n: "NormalizePath (pre @ ''addons/'' @ name @ ''/lua/includes/init.lua'') =
      ''addons/'' @ name @ ''/'' @ ''lua/includes/init.lua''"
    using name by (subst NormalizePath_skip [OF assms(1)]) auto
  have "StripAddonPrefix (NormalizePath (pre @ ''addons/'' @ name @ ''/lua/includes/init.lua'')) =
      ''lua/includes/init.lua''"
    unfolding n by (rule StripAddonPrefix_addon [OF name(1)])
  moreover have "NormalizePath (pre @ ''lua/includes/init.lua'') = ''lua/includes/init.lua''"
    "NormalizePath (pre @ ''includes/init.lua'') = ''includes/init.lua''"
    by (subst NormalizePath_skip [OF assms(1)]; simp)+
  ultimately show ?thesis
    by (simp add: IsInitFile_def LocalKeyFormTwo_def StripAddonPrefix_def StartsWith_def)
qed

theorem init_file_of_any_addon_witness: "IsInitFile ''@addons/dash/lua/includes/init.lua''"
  using init_file_of_any_addon [of "''@''" "''dash''"] by simp

end
