(* ===== verification/LuaPackState.thy ===== *)
theory LuaPackState
  imports PackFormat RecoveryTracker RecoveryHandoff
begin

text \<open>
  The state of \<^verbatim>\<open>source/modules/gmoddatapack_luapack.cpp\<close> and the operations on pins,
  identities, lanes and the manifest.  The world is the module's \<^verbatim>\<open>State\<close>, its console
  variables and the state of the engine; the engine calls the module makes are a record of
  functions (they may run module callbacks, so a call maps worlds to worlds).  A
  \<^verbatim>\<open>ClientPin\<close> reference always is \<^verbatim>\<open>state.clients[slot]\<close>, so the operations
  take the slot.  Log output is not modelled; a call takes no time on the clock.
\<close>

section \<open>Configuration\<close>

record ConVars =
  cv_enable :: bool
  cv_packdir :: string
  cv_downloadurl_policy :: string
  cv_ingest_url :: string
  cv_ingest_method :: string
  cv_downloadable_limit :: int
  cv_retention_ttl :: real
  cv_object_retention_ttl :: real
  cv_ready_deadline :: real
  cv_required :: bool
  cv_allow_optout :: bool
  cv_required_recovery :: bool
  cv_required_recovery_ttl :: real
  cv_optimistic :: bool
  cv_optimistic_prefix_files :: int
  cv_optimistic_prefix_bytes :: int
  cv_unready_ttl :: real
  cv_manifest :: string

record Config =
  cfg_enabled :: bool
  cfg_packDirectory :: string
  cfg_downloadUrlPolicy :: string
  cfg_ingestUrl :: string
  cfg_ingestMethod :: string
  cfg_downloadableLimit :: u32
  cfg_generationRetentionSeconds :: real
  cfg_objectRetentionSeconds :: real
  cfg_readyDeadlineSeconds :: real
  cfg_requiredStubbing :: bool
  cfg_allowOptOut :: bool
  cfg_requiredRecovery :: bool
  cfg_requiredRecoveryTtlSeconds :: real
  cfg_optimisticStubbing :: bool
  cfg_optimisticPrefixFiles :: u32
  cfg_optimisticPrefixBytes :: u64
  cfg_unreadyTtlSeconds :: real

definition RefreshConfig :: "ConVars \<Rightarrow> Config" where
  "RefreshConfig v =
     \<lparr>cfg_enabled = cv_enable v, cfg_packDirectory = cv_packdir v,
      cfg_downloadUrlPolicy = cv_downloadurl_policy v, cfg_ingestUrl = cv_ingest_url v,
      cfg_ingestMethod = cv_ingest_method v, cfg_downloadableLimit = of_int (cv_downloadable_limit v),
      cfg_generationRetentionSeconds = cv_retention_ttl v,
      cfg_objectRetentionSeconds =
        (if 0 < cv_object_retention_ttl v then max (cv_object_retention_ttl v) (cv_retention_ttl v)
         else cv_object_retention_ttl v),
      cfg_readyDeadlineSeconds = cv_ready_deadline v, cfg_requiredStubbing = cv_required v,
      cfg_allowOptOut = cv_allow_optout v, cfg_requiredRecovery = cv_required_recovery v,
      cfg_requiredRecoveryTtlSeconds = cv_required_recovery_ttl v,
      cfg_optimisticStubbing = cv_optimistic v,
      cfg_optimisticPrefixFiles = of_int (cv_optimistic_prefix_files v),
      cfg_optimisticPrefixBytes = of_int (cv_optimistic_prefix_bytes v),
      cfg_unreadyTtlSeconds = cv_unready_ttl v\<rparr>"

section \<open>Module state\<close>

record Generation =
  gen_id :: string
  gen_md5 :: string
  gen_salt :: string
  gen_resourcePath :: string
  gen_sourceRevision :: u64
  gen_publishedAt :: real
  gen_engineDownloadable :: bool
  gen_compressedStub :: "u8 list option"
  gen_compressedRequiredStub :: "u8 list option"
  gen_files :: "string \<rightharpoonup> string"
  gen_nativeDeltas :: "string set"
  gen_pins :: u32

record ClientPin =
  cp_generation :: string
  cp_deadline :: real
  cp_ready :: bool
  cp_everReady :: bool
  cp_active :: bool
  cp_fallback :: bool
  cp_holdsPin :: bool
  cp_deliveryLaneResolved :: bool
  cp_requiredLane :: bool
  cp_optOut :: bool
  cp_nativeLane :: bool
  cp_requiredRecovery :: bool
  cp_resolvedIdentity :: bool
  cp_authenticatedIdentity :: bool
  cp_recoveryStateCleared :: bool
  cp_disconnectIssued :: bool
  cp_steamID64 :: u64
  cp_connectionSerial :: u64
  cp_networkID :: string
  cp_nativeLatched :: bool
  cp_joinSummaryLogged :: bool
  cp_joinNativeFiles :: u32
  cp_joinOptimisticStubs :: u32
  cp_joinRequiredStubs :: u32
  cp_joinReadyStubs :: u32
  cp_joinNativeBytes :: u64

definition ClientPin_new :: ClientPin where
  "ClientPin_new =
     \<lparr>cp_generation = '''', cp_deadline = 0, cp_ready = False, cp_everReady = False, cp_active = False,
      cp_fallback = True, cp_holdsPin = False, cp_deliveryLaneResolved = False,
      cp_requiredLane = False, cp_optOut = False, cp_nativeLane = False, cp_requiredRecovery = False,
      cp_resolvedIdentity = False, cp_authenticatedIdentity = False, cp_recoveryStateCleared = False,
      cp_disconnectIssued = False, cp_steamID64 = 0, cp_connectionSerial = 0, cp_networkID = '''',
      cp_nativeLatched = False, cp_joinSummaryLogged = False, cp_joinNativeFiles = 0,
      cp_joinOptimisticStubs = 0, cp_joinRequiredStubs = 0, cp_joinReadyStubs = 0,
      cp_joinNativeBytes = 0\<rparr>"

record UploadTask =
  ut_url :: string
  ut_method :: string
  ut_md5 :: string
  ut_resourcePath :: string
  ut_body :: "u8 list"
  ut_objectRetentionSeconds :: real
  ut_error :: string
  ut_status :: int
  ut_success :: bool
  ut_complete :: bool

text \<open>
  The registry mutex, the thread pools and the string-table container are not part of the
  record: the model runs on the main thread, and a build task handed to the pool is the
  \<open>activeBuild\<close> the worker completes.
\<close>

record State =
  st_files :: "string \<rightharpoonup> FileRecord"
  st_revision :: u64
  st_buildRequested :: bool
  st_activeBuild :: "BuildTask option"
  st_uploads :: "UploadTask list"
  st_generations :: "string \<rightharpoonup> Generation"
  st_currentGeneration :: string
  st_salt :: string
  st_lockedDownloadUrl :: string
  st_downloadUrlLocked :: bool
  st_clients :: "int \<Rightarrow> ClientPin"
  st_nativeLatches :: "string \<rightharpoonup> real"
  st_requiredRecovery :: RequiredRecoveryTracker
  st_recoveryHandoffs :: "int \<Rightarrow> RequiredRecoveryHandoff"
  st_nextConnectionSerial :: u64
  st_featureEnabledLastFrame :: bool
  st_canonicalRegistrationAvailableLastFrame :: bool
  st_bootstrapRefresh :: bool
  st_registrationRefreshPending :: bool
  st_lastCaptureAt :: real
  st_nextBuildAllowed :: real

section \<open>World and engine\<close>

record 'e World =
  w_state :: State
  w_cvars :: ConVars
  w_engine :: 'e

text \<open>What the module reads of a \<^verbatim>\<open>CBaseClient\<close>; \<open>None\<close> is a missing setting or ID string.\<close>

record BaseClient =
  bc_steamIDValid :: bool
  bc_steamID64 :: u64
  bc_fullyAuthenticated :: bool
  bc_connected :: bool
  bc_netChannel :: bool
  bc_signonState :: int
  bc_sendServerInfo :: bool
  bc_networkIDString :: "string option"
  bc_userSetting :: "string \<Rightarrow> string option"

record 'e Engine =
  eng_playerLimit :: int
  eng_signonConnected :: int
  eng_time :: "'e \<Rightarrow> real"
  eng_clientBySlot :: "'e \<Rightarrow> int \<Rightarrow> BaseClient option"
  eng_supportsCanonical :: "'e \<Rightarrow> bool"
  eng_fileExists :: "'e \<Rightarrow> string \<Rightarrow> bool"
  eng_setSendServerInfo :: "int \<Rightarrow> 'e World \<Rightarrow> 'e World"
  eng_sendServerInfo :: "int \<Rightarrow> 'e World \<Rightarrow> bool \<times> 'e World"
  eng_reconnect :: "int \<Rightarrow> 'e World \<Rightarrow> 'e World"
  eng_disconnect :: "int \<Rightarrow> string \<Rightarrow> 'e World \<Rightarrow> 'e World"

definition IsEnabled :: "'e World \<Rightarrow> bool" where
  "IsEnabled w = cv_enable (w_cvars w)"

definition GetConfig :: "'e World \<Rightarrow> Config" where
  "GetConfig w = RefreshConfig (w_cvars w)"

definition ServerTime :: "'e Engine \<Rightarrow> 'e World \<Rightarrow> real" where
  "ServerTime E w = eng_time E (w_engine w)"

definition GetClientBySlot :: "'e Engine \<Rightarrow> 'e World \<Rightarrow> int \<Rightarrow> BaseClient option" where
  "GetClientBySlot E w slot = eng_clientBySlot E (w_engine w) slot"

definition SupportsCanonicalRegistration :: "'e Engine \<Rightarrow> 'e World \<Rightarrow> bool" where
  "SupportsCanonicalRegistration E w = eng_supportsCanonical E (w_engine w)"

definition IsValidSlot :: "'e Engine \<Rightarrow> int \<Rightarrow> bool" where
  "IsValidSlot E slot \<longleftrightarrow> 0 \<le> slot \<and> slot < eng_playerLimit E"

text \<open>Updates of the module state, of one client and of one generation.\<close>

definition with_state :: "(State \<Rightarrow> State) \<Rightarrow> 'e World \<Rightarrow> 'e World" where
  "with_state f w = w\<lparr>w_state := f (w_state w)\<rparr>"

definition upd_client :: "int \<Rightarrow> (ClientPin \<Rightarrow> ClientPin) \<Rightarrow> State \<Rightarrow> State" where
  "upd_client slot f s = s\<lparr>st_clients := (st_clients s)(slot := f (st_clients s slot))\<rparr>"

definition upd_generation :: "string \<Rightarrow> (Generation \<Rightarrow> Generation) \<Rightarrow> State \<Rightarrow> State" where
  "upd_generation g f s =
     (case st_generations s g of
        None \<Rightarrow> s
      | Some x \<Rightarrow> s\<lparr>st_generations := (st_generations s)(g \<mapsto> f x)\<rparr>)"

section \<open>Pins\<close>

definition ReleaseGenerationReference :: "int \<Rightarrow> State \<Rightarrow> State" where
  "ReleaseGenerationReference slot s =
     (let client = st_clients s slot;
          s1 = (if cp_holdsPin client \<and> cp_generation client \<noteq> ''''
                then upd_generation (cp_generation client)
                       (\<lambda>g. if 0 < gen_pins g then g\<lparr>gen_pins := gen_pins g - 1\<rparr> else g) s
                else s)
      in upd_client slot (\<lambda>c. c\<lparr>cp_holdsPin := False\<rparr>) s1)"

definition ReleasePin :: "int \<Rightarrow> State \<Rightarrow> State" where
  "ReleasePin slot s = upd_client slot (\<lambda>_. ClientPin_new) (ReleaseGenerationReference slot s)"

definition PinCurrentGeneration :: "'e Engine \<Rightarrow> int \<Rightarrow> 'e World \<Rightarrow> bool \<times> 'e World" where
  "PinCurrentGeneration E slot w =
     (let s = w_state w
      in if cp_generation (st_clients s slot) \<noteq> '''' then (True, w)
         else if st_currentGeneration s = '''' then (False, w)
         else (case st_generations s (st_currentGeneration s) of
                 None \<Rightarrow> (False, w)
               | Some _ \<Rightarrow>
                   (True, with_state (\<lambda>s.
                      upd_generation (st_currentGeneration s) (\<lambda>g. g\<lparr>gen_pins := gen_pins g + 1\<rparr>)
                        (upd_client slot (\<lambda>c. c\<lparr>cp_generation := st_currentGeneration s,
                           cp_deadline := ServerTime E w + cfg_readyDeadlineSeconds (GetConfig w),
                           cp_fallback := False, cp_holdsPin := True\<rparr>) s)) w)))"

definition MarkFallback :: "int \<Rightarrow> State \<Rightarrow> State" where
  "MarkFallback slot s =
     upd_client slot (\<lambda>c. c\<lparr>cp_ready := False, cp_fallback := True\<rparr>) (ReleaseGenerationReference slot s)"

definition RecordNativeJoin :: "int \<Rightarrow> u64 \<Rightarrow> State \<Rightarrow> State" where
  "RecordNativeJoin slot nativeSourceBytes s =
     (if cp_active (st_clients s slot) then s
      else upd_client slot (\<lambda>c. c\<lparr>cp_joinNativeFiles := cp_joinNativeFiles c + 1,
             cp_joinNativeBytes := cp_joinNativeBytes c + nativeSourceBytes\<rparr>) s)"

section \<open>Identity and connection epochs\<close>

definition BindResolvedIdentity :: "BaseClient option \<Rightarrow> int \<Rightarrow> State \<Rightarrow> bool \<times> State" where
  "BindResolvedIdentity baseClient slot s =
     (case baseClient of
        None \<Rightarrow> (False, s)
      | Some b \<Rightarrow>
          if \<not> bc_steamIDValid b then (False, s)
          else
            (let steamID64 = bc_steamID64 b; client = st_clients s slot
             in if steamID64 = 0 \<or> (cp_resolvedIdentity client \<and> cp_steamID64 client \<noteq> steamID64)
                then (False, s)
                else (True, upd_client slot
                        (\<lambda>c. c\<lparr>cp_steamID64 := steamID64, cp_resolvedIdentity := True\<rparr>) s)))"

definition BindAuthenticatedIdentity :: "'e Engine \<Rightarrow> int \<Rightarrow> 'e World \<Rightarrow> bool \<times> 'e World" where
  "BindAuthenticatedIdentity E slot w =
     (let baseClient = GetClientBySlot E w slot;
          (bound, s1) = BindResolvedIdentity baseClient slot (w_state w);
          w1 = w\<lparr>w_state := s1\<rparr>
      in case baseClient of
           None \<Rightarrow> (False, w)
         | Some b \<Rightarrow>
             if \<not> bound \<or> \<not> bc_fullyAuthenticated b then (False, w1)
             else (True, with_state (upd_client slot (\<lambda>c. c\<lparr>cp_authenticatedIdentity := True\<rparr>)) w1))"

definition stricmp_eq :: "string \<Rightarrow> string \<Rightarrow> bool" where
  "stricmp_eq a b \<longleftrightarrow> map ascii_lower a = map ascii_lower b"

definition StartClientEpoch :: "'e Engine \<Rightarrow> int \<Rightarrow> 'e World \<Rightarrow> 'e World" where
  "StartClientEpoch E slot w =
     (let w1 = with_state (ReleasePin slot) w;
          serial1 = st_nextConnectionSerial (w_state w1) + 1;
          serial = (if serial1 = 0 then serial1 + 1 else serial1);
          w2 = with_state (\<lambda>s. upd_client slot (\<lambda>c. c\<lparr>cp_connectionSerial := serial\<rparr>)
                 (s\<lparr>st_nextConnectionSerial := serial\<rparr>)) w1
      in if \<not> IsEnabled w2 then w2
         else
           (let networkID = (case GetClientBySlot E w2 slot of None \<Rightarrow> None | Some b \<Rightarrow> bc_networkIDString b);
                w3 = (case networkID of
                        Some n \<Rightarrow>
                          if n \<noteq> '''' \<and> \<not> stricmp_eq n ''BOT'' \<and> \<not> stricmp_eq n ''UNKNOWN''
                          then with_state (upd_client slot (\<lambda>c. c\<lparr>cp_networkID := n\<rparr>)) w2 else w2
                      | None \<Rightarrow> w2)
            in snd (PinCurrentGeneration E slot w3)))"

section \<open>Lanes and base availability\<close>

definition ClientLane :: "ClientPin \<Rightarrow> Lane" where
  "ClientLane client =
     (if cp_requiredRecovery client then NativeRecovery
      else if cp_requiredLane client then RequiredLane
      else if cp_optOut client then NativeOptOut else NativeRescue)"

definition DataDirectory :: "string \<Rightarrow> string" where
  "DataDirectory packDirectory = ''data/'' @ packDirectory"

definition BaseAvailabilityForClient :: "'e Engine \<Rightarrow> 'e World \<Rightarrow> ClientPin \<Rightarrow> bool \<Rightarrow> BaseAvailability" where
  "BaseAvailabilityForClient E w client verifyLocalObject =
     (if cp_generation client = '''' then Missing
      else (case st_generations (w_state w) (cp_generation client) of
              None \<Rightarrow> Missing
            | Some base \<Rightarrow>
                (let expectedPath = DataDirectory (cfg_packDirectory (GetConfig w)) @ ''/'' @ gen_id base @ ''.bsp''
                 in if \<not> gen_engineDownloadable base \<or> gen_compressedRequiredStub base = None \<or>
                       gen_resourcePath base \<noteq> expectedPath \<or>
                       (verifyLocalObject \<and> \<not> eng_fileExists E (w_engine w) (gen_resourcePath base))
                    then Unusable else Ready)))"

text \<open>\<^verbatim>\<open>IsNativeDelta(const Generation&, path)\<close>.\<close>

definition IsGenerationNativeDelta :: "Generation \<Rightarrow> string \<Rightarrow> bool" where
  "IsGenerationNativeDelta base virtualPath \<longleftrightarrow>
     (let path = NormalizePath virtualPath
      in gen_files base path = None \<or> path \<in> gen_nativeDeltas base)"

section \<open>The manifest\<close>

definition MAXIMUM_MANIFEST_LENGTH :: nat where
  "MAXIMUM_MANIFEST_LENGTH = 255"

definition set_manifest :: "string \<Rightarrow> 'e World \<Rightarrow> 'e World" where
  "set_manifest value w = w\<lparr>w_cvars := (w_cvars w)\<lparr>cv_manifest := value\<rparr>\<rparr>"

definition PublishManifest :: "'e World \<Rightarrow> 'e World" where
  "PublishManifest w =
     (let s = w_state w; current = st_currentGeneration s
      in if \<not> IsEnabled w \<or> current = '''' then set_manifest '''' w
         else (case st_generations s current of
                 None \<Rightarrow> set_manifest '''' w
               | Some g \<Rightarrow>
                   (let packDirectory = cfg_packDirectory (GetConfig w)
                    in if gen_resourcePath g \<noteq> DataDirectory packDirectory @ ''/'' @ current @ ''.bsp''
                       then set_manifest '''' w
                       else
                         (let serialized = ''1|'' @ current @ ''|'' @ HexEncode packDirectory @ ''|'' @
                                HexEncode (gen_salt g) @ ''|'' @ current
                          in if MAXIMUM_MANIFEST_LENGTH < length serialized then set_manifest '''' w
                             else set_manifest serialized w))))"

definition LuaPack_Shutdown :: "'e World \<Rightarrow> 'e World" where
  "LuaPack_Shutdown w =
     set_manifest '''' (with_state (\<lambda>s. s\<lparr>
       st_activeBuild := None, st_uploads := [], st_files := Map.empty, st_buildRequested := False,
       st_generations := Map.empty, st_currentGeneration := '''', st_salt := '''',
       st_lockedDownloadUrl := '''', st_downloadUrlLocked := False,
       st_featureEnabledLastFrame := False, st_canonicalRegistrationAvailableLastFrame := False,
       st_bootstrapRefresh := False, st_registrationRefreshPending := False,
       st_lastCaptureAt := 0, st_nextBuildAllowed := 0,
       st_clients := (\<lambda>_. ClientPin_new),
       st_recoveryHandoffs := (\<lambda>slot. RequiredRecoveryHandoff_Reset (st_recoveryHandoffs s slot)),
       st_nativeLatches := Map.empty,
       st_requiredRecovery := RequiredRecoveryTracker_Reset (st_requiredRecovery s),
       st_nextConnectionSerial := 0\<rparr>) w)"

end
