(* ===== verification/LuaPackPins.thy ===== *)
theory LuaPackPins
  imports LuaPackState
begin

text \<open>
  Pin accounting of \<^verbatim>\<open>gmoddatapack_luapack.cpp\<close>: a generation's \<^verbatim>\<open>pins\<close> is
  exactly the number of client slots holding it, under every operation on pins.  The invariant
  and the rule that each primitive keeps it are shared by the handlers.
\<close>

section \<open>The invariant\<close>

definition holders :: "int \<Rightarrow> string \<Rightarrow> State \<Rightarrow> int set" where
  "holders n g s =
     {slot. 0 \<le> slot \<and> slot < n \<and> cp_holdsPin (st_clients s slot) \<and> cp_generation (st_clients s slot) = g}"

definition pins_ok :: "int \<Rightarrow> State \<Rightarrow> bool" where
  "pins_ok n s \<longleftrightarrow>
     0 \<le> n \<and> n < 2 ^ 31 \<and>
     (\<forall>slot. cp_holdsPin (st_clients s slot) \<longrightarrow>
        0 \<le> slot \<and> slot < n \<and> cp_generation (st_clients s slot) \<noteq> '''' \<and>
        st_generations s (cp_generation (st_clients s slot)) \<noteq> None) \<and>
     (\<forall>g x. st_generations s g = Some x \<longrightarrow> unat (gen_pins x) = card (holders n g s)) \<and>
     (st_currentGeneration s = '''' \<longrightarrow> st_generations s = Map.empty)"

lemma holders_range: "holders n g s \<subseteq> {0..<n}"
  by (auto simp: holders_def)

lemma finite_holders [simp]: "finite (holders n g s)"
  by (rule finite_subset [OF holders_range]) simp

lemma card_holders_le: "0 \<le> n \<Longrightarrow> card (holders n g s) \<le> nat n"
  using card_mono [OF _ holders_range, of n g s] by simp

lemma upd_client_at [simp]:
  "st_clients (upd_client slot f s) i = (if i = slot then f (st_clients s slot) else st_clients s i)"
  by (simp add: upd_client_def)

lemma upd_client_frame [simp]:
  "st_generations (upd_client slot f s) = st_generations s"
  "st_currentGeneration (upd_client slot f s) = st_currentGeneration s"
  "st_nativeLatches (upd_client slot f s) = st_nativeLatches s"
  "st_requiredRecovery (upd_client slot f s) = st_requiredRecovery s"
  "st_recoveryHandoffs (upd_client slot f s) = st_recoveryHandoffs s"
  "st_nextConnectionSerial (upd_client slot f s) = st_nextConnectionSerial s"
  by (simp_all add: upd_client_def)

lemma upd_generation_frame [simp]:
  "st_clients (upd_generation g f s) = st_clients s"
  "st_currentGeneration (upd_generation g f s) = st_currentGeneration s"
  "st_nativeLatches (upd_generation g f s) = st_nativeLatches s"
  "st_requiredRecovery (upd_generation g f s) = st_requiredRecovery s"
  "st_recoveryHandoffs (upd_generation g f s) = st_recoveryHandoffs s"
  "st_nextConnectionSerial (upd_generation g f s) = st_nextConnectionSerial s"
  by (simp_all add: upd_generation_def split: option.split)

lemma upd_generation_at:
  "st_generations (upd_generation g f s) h =
     (if h = g then map_option f (st_generations s g) else st_generations s h)"
  by (auto simp: upd_generation_def split: option.splits)

section \<open>Primitives\<close>

text \<open>Changing other fields of a client changes no pin.\<close>

lemma pins_ok_upd_client [pins_keep]:
  assumes "pins_ok n s"
    and "cp_holdsPin (f (st_clients s slot)) = cp_holdsPin (st_clients s slot)"
    and "cp_generation (f (st_clients s slot)) = cp_generation (st_clients s slot)"
  shows "pins_ok n (upd_client slot f s)"
proof -
  have "holders n g (upd_client slot f s) = holders n g s" for g
    using assms(2,3) by (auto simp: holders_def)
  then show ?thesis using assms by (simp add: pins_ok_def)
qed

text \<open>A client without a pin may be replaced by any other client without a pin.\<close>

lemma pins_ok_replace_unpinned:
  assumes "pins_ok n s" and "\<not> cp_holdsPin (st_clients s slot)" and "\<not> cp_holdsPin (f (st_clients s slot))"
  shows "pins_ok n (upd_client slot f s)"
proof -
  have "holders n g (upd_client slot f s) = holders n g s" for g
    using assms(2,3) by (auto simp: holders_def)
  then show ?thesis using assms by (simp add: pins_ok_def)
qed

lemma pins_ok_Release [pins_keep]:
  assumes "pins_ok n s"
  shows "pins_ok n (ReleaseGenerationReference slot s)"
proof (cases "cp_holdsPin (st_clients s slot)")
  case False
  then show ?thesis
    using pins_ok_upd_client [OF assms, of "\<lambda>c. c\<lparr>cp_holdsPin := False\<rparr>" slot]
    by (simp add: ReleaseGenerationReference_def)
next
  case True
  let ?g = "cp_generation (st_clients s slot)"
  let ?s = "ReleaseGenerationReference slot s"
  from assms True have slot: "0 \<le> slot" "slot < n" "?g \<noteq> ''''" "st_generations s ?g \<noteq> None"
    by (auto simp: pins_ok_def)
  then obtain x where x: "st_generations s ?g = Some x" by blast
  have in_h: "slot \<in> holders n ?g s" using True slot by (simp add: holders_def)
  have pins: "unat (gen_pins x) = card (holders n ?g s)" using assms x by (simp add: pins_ok_def)
  moreover have "0 < card (holders n ?g s)" using in_h by (simp add: card_gt_0_iff) blast
  ultimately have pos: "0 < gen_pins x" by (simp add: word_less_nat_alt)
  then have "1 \<le> gen_pins x" by (simp add: word_le_nat_alt word_less_nat_alt)
  then have dec: "unat (gen_pins x - 1) = card (holders n ?g s) - 1"
    by (simp add: unat_sub pins)
  have clients: "st_clients ?s i =
      (if i = slot then (st_clients s slot)\<lparr>cp_holdsPin := False\<rparr> else st_clients s i)" for i
    by (simp add: ReleaseGenerationReference_def Let_def)
  have gens: "st_generations ?s h =
      (if h = ?g then Some (x\<lparr>gen_pins := gen_pins x - 1\<rparr>) else st_generations s h)" for h
    using True slot pos by (simp add: ReleaseGenerationReference_def Let_def upd_generation_at x)
  have h_same: "holders n ?g ?s = holders n ?g s - {slot}"
    by (auto simp: holders_def clients)
  have h_other: "h \<noteq> ?g \<Longrightarrow> holders n h ?s = holders n h s" for h
    by (auto simp: holders_def clients)
  have "st_currentGeneration ?s = st_currentGeneration s"
    by (simp add: ReleaseGenerationReference_def Let_def)
  then show ?thesis
    using assms x dec in_h
    by (auto simp: pins_ok_def clients gens h_same h_other card_Diff_singleton)
qed

lemma Release_holdsPin [simp]: "\<not> cp_holdsPin (st_clients (ReleaseGenerationReference slot s) slot)"
  by (simp add: ReleaseGenerationReference_def Let_def)

lemma Release_client [simp]:
  "st_clients (ReleaseGenerationReference slot s) i =
     (if i = slot then (st_clients s slot)\<lparr>cp_holdsPin := False\<rparr> else st_clients s i)"
  by (simp add: ReleaseGenerationReference_def Let_def)

lemma Release_frame [simp]:
  "st_currentGeneration (ReleaseGenerationReference slot s) = st_currentGeneration s"
  "st_nativeLatches (ReleaseGenerationReference slot s) = st_nativeLatches s"
  "st_requiredRecovery (ReleaseGenerationReference slot s) = st_requiredRecovery s"
  "st_recoveryHandoffs (ReleaseGenerationReference slot s) = st_recoveryHandoffs s"
  "st_nextConnectionSerial (ReleaseGenerationReference slot s) = st_nextConnectionSerial s"
  by (simp_all add: ReleaseGenerationReference_def Let_def)

lemma pins_ok_ReleasePin [pins_keep]: "pins_ok n s \<Longrightarrow> pins_ok n (ReleasePin slot s)"
  unfolding ReleasePin_def
  by (rule pins_ok_replace_unpinned) (simp_all add: pins_ok_Release ClientPin_new_def)

lemma pins_ok_MarkFallback [pins_keep]: "pins_ok n s \<Longrightarrow> pins_ok n (MarkFallback slot s)"
  unfolding MarkFallback_def by (rule pins_ok_upd_client) (simp_all add: pins_ok_Release)

lemma pins_ok_RecordNativeJoin [pins_keep]: "pins_ok n s \<Longrightarrow> pins_ok n (RecordNativeJoin slot b s)"
  unfolding RecordNativeJoin_def by (simp add: pins_ok_upd_client)

text \<open>A client without a pin acquires one on an existing generation.\<close>

lemma pins_ok_acquire:
  assumes "pins_ok n s" and "0 \<le> slot" and "slot < n" and "\<not> cp_holdsPin (st_clients s slot)"
    and "cp_holdsPin (f (st_clients s slot))" and "cp_generation (f (st_clients s slot)) = g"
    and "g \<noteq> ''''" and "st_generations s g = Some x"
  shows "pins_ok n (upd_generation g (\<lambda>g. g\<lparr>gen_pins := gen_pins g + 1\<rparr>) (upd_client slot f s))"
    (is "pins_ok n ?s")
proof -
  have h_same: "holders n g ?s = insert slot (holders n g s)"
    using assms by (auto simp: holders_def)
  have h_other: "h \<noteq> g \<Longrightarrow> holders n h ?s = holders n h s" for h
    using assms by (auto simp: holders_def)
  have notin: "slot \<notin> holders n g s" using assms(4) by (simp add: holders_def)
  have n: "0 \<le> n" "n < 2 ^ 31" using assms(1) by (auto simp: pins_ok_def)
  have pins: "unat (gen_pins x) = card (holders n g s)" using assms(1,8) by (simp add: pins_ok_def)
  have "card (holders n g s) \<le> nat n" by (rule card_holders_le [OF n(1)])
  then have "unat (gen_pins x + 1) = card (holders n g s) + 1"
    using n(2) pins by (subst unat_add_no_overflow) auto
  then show ?thesis
    using assms notin by (auto simp: pins_ok_def upd_generation_at h_same h_other)
qed

lemma with_state_simps [simp]:
  "w_state (with_state f w) = f (w_state w)"
  "w_cvars (with_state f w) = w_cvars w"
  "w_engine (with_state f w) = w_engine w"
  by (simp_all add: with_state_def)

lemma pins_ok_PinCurrent [pins_keep]:
  assumes "pins_ok (eng_playerLimit E) (w_state w)" and "IsValidSlot E slot"
  shows "pins_ok (eng_playerLimit E) (w_state (snd (PinCurrentGeneration E slot w)))"
proof (cases "cp_generation (st_clients (w_state w) slot) = '''' \<and>
    st_currentGeneration (w_state w) \<noteq> '''' \<and>
    st_generations (w_state w) (st_currentGeneration (w_state w)) \<noteq> None")
  case True
  then obtain x where x: "st_generations (w_state w) (st_currentGeneration (w_state w)) = Some x" by blast
  have "\<not> cp_holdsPin (st_clients (w_state w) slot)"
    using assms(1) True by (auto simp: pins_ok_def)
  from pins_ok_acquire [OF assms(1) _ _ this _ _ _ x,
      of "\<lambda>c. c\<lparr>cp_generation := st_currentGeneration (w_state w),
            cp_deadline := ServerTime E w + cfg_readyDeadlineSeconds (GetConfig w),
            cp_fallback := False, cp_holdsPin := True\<rparr>"]
  show ?thesis
    using True x assms(2) by (simp add: PinCurrentGeneration_def Let_def IsValidSlot_def)
next
  case False
  then show ?thesis using assms(1) by (auto simp: PinCurrentGeneration_def Let_def split: option.splits)
qed

lemma pins_ok_BindResolved [pins_keep]:
  "pins_ok n s \<Longrightarrow> pins_ok n (snd (BindResolvedIdentity b slot s))"
  by (auto simp: BindResolvedIdentity_def Let_def intro!: pins_ok_upd_client split: option.splits)

lemma pins_ok_BindAuthenticated [pins_keep]:
  "pins_ok n (w_state w) \<Longrightarrow> pins_ok n (w_state (snd (BindAuthenticatedIdentity E slot w)))"
  using pins_ok_BindResolved [of n "w_state w" "GetClientBySlot E w slot" slot]
  by (auto simp: BindAuthenticatedIdentity_def Let_def case_prod_beta intro!: pins_ok_upd_client
      split: option.splits)

text \<open>Fields no pin depends on.\<close>

lemma pins_ok_irrelevant [pins_keep]:
  "pins_ok n (s\<lparr>st_nextConnectionSerial := k\<rparr>) = pins_ok n s"
  "pins_ok n (s\<lparr>st_recoveryHandoffs := h\<rparr>) = pins_ok n s"
  "pins_ok n (s\<lparr>st_requiredRecovery := t\<rparr>) = pins_ok n s"
  "pins_ok n (s\<lparr>st_nativeLatches := l\<rparr>) = pins_ok n s"
  by (simp_all add: pins_ok_def holders_def)

lemma pins_ok_StartClientEpoch [pins_keep]:
  assumes "pins_ok (eng_playerLimit E) (w_state w)" and "IsValidSlot E slot"
  shows "pins_ok (eng_playerLimit E) (w_state (StartClientEpoch E slot w))"
  using assms
  by (auto simp: StartClientEpoch_def Let_def pins_ok_irrelevant pins_ok_ReleasePin
      intro!: pins_ok_upd_client pins_ok_PinCurrent split: option.splits)

end
