(* ===== verification/LuaPackRecovery.thy ===== *)
theory LuaPackRecovery
  imports LuaPackPins
begin

text \<open>
  Required-pack recovery and lane selection in \<^verbatim>\<open>gmoddatapack_luapack.cpp\<close>: the
  fail-closed disconnect, the recovery baseline at the ServerInfo boundary, clearing proven
  recovery state, the per-frame handling of reconnect handoffs, and the choice of a client's
  delivery lane.
\<close>

section \<open>Definitions\<close>

definition set_client :: "int \<Rightarrow> (ClientPin \<Rightarrow> ClientPin) \<Rightarrow> 'e World \<Rightarrow> 'e World" where
  [handler_simps]: "set_client slot f = with_state (upd_client slot f)"

definition set_handoff :: "int \<Rightarrow> RequiredRecoveryHandoff \<Rightarrow> 'e World \<Rightarrow> 'e World" where
  [handler_simps]: "set_handoff slot h =
     with_state (\<lambda>s. s\<lparr>st_recoveryHandoffs := (st_recoveryHandoffs s)(slot := h)\<rparr>)"

definition set_tracker :: "RequiredRecoveryTracker \<Rightarrow> 'e World \<Rightarrow> 'e World" where
  [handler_simps]: "set_tracker t = with_state (\<lambda>s. s\<lparr>st_requiredRecovery := t\<rparr>)"

definition client_of :: "'e World \<Rightarrow> int \<Rightarrow> ClientPin" where
  [handler_simps]: "client_of w slot = st_clients (w_state w) slot"

definition handoff_of :: "'e World \<Rightarrow> int \<Rightarrow> RequiredRecoveryHandoff" where
  [handler_simps]: "handoff_of w slot = st_recoveryHandoffs (w_state w) slot"

definition account_of :: "BaseClient option \<Rightarrow> u64" where
  "account_of baseClient =
     (case baseClient of
        None \<Rightarrow> 0
      | Some b \<Rightarrow> if bc_steamIDValid b then bc_steamID64 b else 0)"

definition authenticated :: "BaseClient option \<Rightarrow> bool" where
  "authenticated baseClient \<longleftrightarrow>
     (case baseClient of None \<Rightarrow> False | Some b \<Rightarrow> bc_fullyAuthenticated b)"

definition DisconnectRequiredClient :: "'e Engine \<Rightarrow> int \<Rightarrow> 'e World \<Rightarrow> 'e World" where
  "DisconnectRequiredClient E slot w =
     (if \<not> IsValidSlot E slot then w
      else if cp_disconnectIssued (client_of w slot) then w
      else
        (let w1 = set_client slot (\<lambda>c. c\<lparr>cp_disconnectIssued := True\<rparr>) w
         in case GetClientBySlot E w1 slot of
              None \<Rightarrow> w1
            | Some _ \<Rightarrow> eng_disconnect E slot ''Required LuaPack failed. Automatic native recovery was unavailable or exhausted. Manual opt out: set launch option +tv_nochat no_gluapack, restart Garry's Mod, then reconnect.'' w1))"

text \<open>The slots whose pending handoff belongs to an account, in the order of the search loop.\<close>

definition matching_handoffs :: "'e Engine \<Rightarrow> u64 \<Rightarrow> 'e World \<Rightarrow> int list" where
  "matching_handoffs E account w =
     filter (\<lambda>i. RequiredRecoveryHandoff_Pending (handoff_of w i) \<and>
                 RequiredRecoveryHandoff_Account (handoff_of w i) = account)
       [0..eng_playerLimit E - 1]"

text \<open>The client's new epoch once the handoff was accepted.\<close>

definition ConsumeAtBaseline ::
  "'e Engine \<Rightarrow> int \<Rightarrow> BaseClient option \<Rightarrow> u64 \<Rightarrow> 'e World \<Rightarrow> string option \<times> 'e World" where
  "ConsumeAtBaseline E slot baseClient expectedAccount w =
     (let w1 = StartClientEpoch E slot w;
          (bound, s2) = BindResolvedIdentity baseClient slot (w_state w1);
          w2 = w1\<lparr>w_state := s2\<rparr>
      in if \<not> bound \<or> cp_steamID64 (client_of w2 slot) \<noteq> expectedAccount \<or> \<not> authenticated baseClient
         then (Some ''SteamID64 ownership changed while the engine reconnect entered ServerInfo'', w2)
         else
           (let w3 = set_client slot (\<lambda>c. c\<lparr>cp_authenticatedIdentity := True\<rparr>) w2;
                recovery = client_of w3 slot;
                (consumed, t) = RequiredRecoveryTracker_Consume (cp_steamID64 recovery)
                  (cp_connectionSerial recovery) (ServerTime E w3) (st_requiredRecovery (w_state w3));
                w4 = set_tracker t w3
            in if consumed \<noteq> ConsumeNative
               then (Some ''the one-shot recovery latch could not be consumed at the new ServerInfo baseline'', w4)
               else
                 (None, with_state (MarkFallback slot)
                   (set_client slot (\<lambda>c. c\<lparr>cp_requiredLane := True, cp_requiredRecovery := True,
                      cp_nativeLane := True, cp_nativeLatched := True,
                      cp_deliveryLaneResolved := True\<rparr>) w4))))"

definition BeginPendingRecoveryBaseline :: "'e Engine \<Rightarrow> int \<Rightarrow> 'e World \<Rightarrow> string option \<times> 'e World" where
  "BeginPendingRecoveryBaseline E slot w =
     (let baseClient = GetClientBySlot E w slot;
          account = account_of baseClient
      in case matching_handoffs E account w of
           [] \<Rightarrow>
             if RequiredRecoveryHandoff_Pending (handoff_of w slot)
             then (Some ''the recovery ServerInfo boundary did not have its authenticated SteamID64'', w)
             else (None, w)
         | [i] \<Rightarrow>
             (let handoff = handoff_of w i;
                  expectedAccount = RequiredRecoveryHandoff_Account handoff;
                  (begin', h') = RequiredRecoveryHandoff_BeginBaseline account
                     (authenticated baseClient) (ServerTime E w) handoff;
                  w1 = set_handoff i h' w
              in if begin' = HrOwnershipMismatch
                 then (None, set_handoff i (RequiredRecoveryHandoff_Reset h') w1)
                 else if begin' \<noteq> HrBeginBaseline
                 then (Some ''the engine reconnect did not begin an authenticated recovery baseline within its bounded handoff window'', w1)
                 else ConsumeAtBaseline E slot baseClient expectedAccount w1)
         | _ \<Rightarrow> (Some ''multiple recovery handoffs matched the authenticated SteamID64'', w))"

definition ClearProvenRecoveryState :: "'e Engine \<Rightarrow> int \<Rightarrow> 'e World \<Rightarrow> 'e World" where
  "ClearProvenRecoveryState E slot w =
     (if cp_recoveryStateCleared (client_of w slot) \<or> \<not> cp_active (client_of w slot) then w
      else
        (let (bound, w1) = BindAuthenticatedIdentity E slot w; client = client_of w1 slot
         in if \<not> bound then w1
            else if cp_requiredRecovery client
            then
              (let (completed, t) = RequiredRecoveryTracker_Complete (cp_steamID64 client)
                     (cp_connectionSerial client) (st_requiredRecovery (w_state w1));
                   w2 = set_tracker t w1
               in if \<not> completed then w2
                  else set_client slot (\<lambda>c. c\<lparr>cp_recoveryStateCleared := True\<rparr>) w2)
            else if cp_optOut client \<or> (cp_requiredLane client \<and> cp_ready client)
            then
              (let (cleared, t) = RequiredRecoveryTracker_ClearAfterSuccessfulConnection
                     (cp_steamID64 client) (cp_connectionSerial client) (st_requiredRecovery (w_state w1));
                   w2 = set_tracker t w1
               in if cleared = ClearSameFailedConnection then w2
                  else set_client slot (\<lambda>c. c\<lparr>cp_recoveryStateCleared := True\<rparr>) w2)
            else w1))"

definition PreserveClaimedRecoveryLifecycle :: "'e Engine \<Rightarrow> int \<Rightarrow> bool \<Rightarrow> 'e World \<Rightarrow> bool" where
  "PreserveClaimedRecoveryLifecycle E slot gameLayerCallback w =
     (if \<not> IsValidSlot E slot then False
      else
        (let client = client_of w slot;
             account = account_of (GetClientBySlot E w slot);
             identityMatches = (account \<noteq> 0 \<and> cp_resolvedIdentity client \<and> account = cp_steamID64 client);
             ownsConsumedRecovery = RequiredRecoveryTracker_OwnsConsumed (cp_steamID64 client)
               (cp_connectionSerial client) (st_requiredRecovery (w_state w))
         in ShouldPreserveRecoveryLifecycle gameLayerCallback
              (cp_requiredRecovery client \<and> cp_nativeLane client) (cp_active client)
              (cp_recoveryStateCleared client) identityMatches ownsConsumedRecovery))"

text \<open>One slot of the per-frame handoff loop.\<close>

definition ProcessHandoffSlot :: "'e Engine \<Rightarrow> real \<Rightarrow> int \<Rightarrow> 'e World \<Rightarrow> 'e World" where
  "ProcessHandoffSlot E now slot w =
     (let handoff = handoff_of w slot
      in if \<not> RequiredRecoveryHandoff_Pending handoff then w
         else
           (let baseClient = GetClientBySlot E w slot;
                account = account_of baseClient;
                expectedAccount = RequiredRecoveryHandoff_Account handoff;
                auth = authenticated baseClient;
                channelReady = (case baseClient of None \<Rightarrow> False
                                | Some b \<Rightarrow> bc_connected b \<and> bc_netChannel b);
                (result, h') = RequiredRecoveryHandoff_TryInvoke account
                  (cp_connectionSerial (client_of w slot)) auth channelReady now handoff;
                w1 = set_handoff slot h' w
            in case result of
                 HrInvoke \<Rightarrow> eng_reconnect E slot w1
               | HrAlreadyInvoked \<Rightarrow>
                   (let signonRestarted = (case baseClient of None \<Rightarrow> False
                          | Some b \<Rightarrow> bc_signonState b = eng_signonConnected E);
                        (dispatch, h'') = RequiredRecoveryHandoff_TryDispatchServerInfo account auth
                          channelReady signonRestarted now h';
                        w2 = set_handoff slot h'' w1
                    in if dispatch = HrDispatchServerInfo
                       then snd (eng_sendServerInfo E slot (eng_setSendServerInfo E slot w2))
                       else w2)
               | HrExpired \<Rightarrow>
                   if account = expectedAccount then DisconnectRequiredClient E slot w1 else w1
               | HrOwnershipMismatch \<Rightarrow> set_handoff slot (RequiredRecoveryHandoff_Reset h') w1
               | HrInvalid \<Rightarrow>
                   DisconnectRequiredClient E slot (set_handoff slot (RequiredRecoveryHandoff_Reset h') w1)
               | _ \<Rightarrow> w1))"

definition ProcessRequiredRecoveryHandoffs :: "'e Engine \<Rightarrow> real \<Rightarrow> 'e World \<Rightarrow> 'e World" where
  "ProcessRequiredRecoveryHandoffs E now w =
     fold (ProcessHandoffSlot E now) [0..eng_playerLimit E - 1] w"

text \<open>
  The lane of a client for one connection.  The branch on the fail-open latch at the end is
  written out as in the source.
\<close>

definition ResolveDeliveryLane :: "'e Engine \<Rightarrow> int \<Rightarrow> 'e World \<Rightarrow> 'e World" where
  "ResolveDeliveryLane E slot w =
     (if cp_deliveryLaneResolved (client_of w slot) then w
      else
        (let config = GetConfig w;
             resolved = ResolveClientLane slot (cfg_requiredStubbing config) (cfg_allowOptOut config)
               (GetClientBySlot E w) bc_userSetting;
             baseClient = rcl_client resolved;
             lane = rcl_lane resolved;
             w1 = set_client slot (\<lambda>c. c\<lparr>cp_optOut := (lane = NativeOptOut),
                    cp_requiredLane := (lane = RequiredLane), cp_nativeLane := (lane \<noteq> RequiredLane),
                    cp_deliveryLaneResolved := True\<rparr>) w
         in if cp_nativeLane (client_of w1 slot)
            then
              (let w2 = (if cp_optOut (client_of w1 slot)
                         then with_state (\<lambda>s. snd (BindResolvedIdentity baseClient slot s)) w1 else w1)
               in with_state (MarkFallback slot) w2)
            else
              (let (resolvedIdentity, s2) = BindResolvedIdentity baseClient slot (w_state w1);
                   w2 = w1\<lparr>w_state := s2\<rparr>;
                   client = client_of w2 slot;
                   (recovery, w3) =
                     (if CanConsumeRequiredRecovery (cfg_requiredRecovery config) resolvedIdentity
                      then
                        (let (r, t) = RequiredRecoveryTracker_Consume (cp_steamID64 client)
                               (cp_connectionSerial client) (ServerTime E w2) (st_requiredRecovery (w_state w2))
                         in (r, set_tracker t w2))
                      else (ConsumeNone, w2))
               in if recovery = ConsumeNative
                  then with_state (MarkFallback slot)
                         (set_client slot (\<lambda>c. c\<lparr>cp_requiredRecovery := True, cp_nativeLane := True,
                            cp_nativeLatched := True\<rparr>) w3)
                  else if \<not> cp_requiredLane (client_of w3 slot) \<and> cp_networkID (client_of w3 slot) \<noteq> ''''
                  then
                    (case st_nativeLatches (w_state w3) (cp_networkID (client_of w3 slot)) of
                       None \<Rightarrow> w3
                     | Some expiry \<Rightarrow>
                         if ServerTime E w3 \<le> expiry
                         then set_client slot (\<lambda>c. c\<lparr>cp_nativeLatched := True\<rparr>) w3
                         else with_state (\<lambda>s. s\<lparr>st_nativeLatches :=
                                (st_nativeLatches s)(cp_networkID (client_of w3 slot) := None)\<rparr>) w3)
                  else w3)))"

end
