(* ===== verification/LuaPackClients.thy ===== *)
theory LuaPackClients
  imports LuaPackRecovery
begin

text \<open>
  The client side of \<^verbatim>\<open>gmoddatapack_luapack.cpp\<close>: the registration-refresh flags, the
  baseline and per-file decisions, delivery, the client lifecycle callbacks and the private
  client commands.
\<close>

section \<open>Decisions as values\<close>

datatype BaselineAction =
  BaUnchanged | BaBasePlusDelta | BaCanonicalStub | BaNativeSource | BaReject

datatype DeliveryAction = DaNative | DaStub | DaReject

record BaselineDecision =
  bd_action :: BaselineAction
  bd_failure :: "string option"

record DeliveryDecision =
  dd_action :: DeliveryAction
  dd_compressed :: "u8 list option"
  dd_failure :: "string option"

datatype MODULE_RESULT = MrCONTINUE | MrTAKEOVER | MrSTOP

definition BaselineDecision_new :: BaselineDecision where
  [handler_simps]: "BaselineDecision_new = \<lparr>bd_action = BaUnchanged, bd_failure = None\<rparr>"

definition DeliveryDecision_new :: DeliveryDecision where
  [handler_simps]: "DeliveryDecision_new = \<lparr>dd_action = DaNative, dd_compressed = None, dd_failure = None\<rparr>"

definition reject_baseline :: "string \<Rightarrow> BaselineDecision" where
  [handler_simps]: "reject_baseline failure = \<lparr>bd_action = BaReject, bd_failure = Some failure\<rparr>"

definition accept_baseline :: "BaselineAction \<Rightarrow> BaselineDecision" where
  [handler_simps]: "accept_baseline action = \<lparr>bd_action = action, bd_failure = None\<rparr>"

definition reject_delivery :: "string option \<Rightarrow> DeliveryDecision" where
  [handler_simps]: "reject_delivery failure = \<lparr>dd_action = DaReject, dd_compressed = None, dd_failure = failure\<rparr>"

section \<open>Registration refresh\<close>

definition canonicalStubSource :: string where
  "canonicalStubSource = ''return __holypack()()''"

text \<open>The client bootstrap is a Lua program the module only prepends; it is a parameter.\<close>

definition PrepareVanillaFile :: "string \<Rightarrow> 'e Engine \<Rightarrow> 'e World \<Rightarrow> string \<Rightarrow> string \<Rightarrow> string" where
  "PrepareVanillaFile clientBootstrap E w virtualPath contents =
     (if \<not> IsEnabled w \<or> \<not> SupportsCanonicalRegistration E w then contents
      else if IsInitFile virtualPath then clientBootstrap @ [CHR 0x0A] @ contents
      else canonicalStubSource)"

definition ConsumeBootstrapRefresh :: "State \<Rightarrow> bool \<times> State" where
  "ConsumeBootstrapRefresh s = (st_bootstrapRefresh s, s\<lparr>st_bootstrapRefresh := False\<rparr>)"

definition RegistrationRefreshPending :: "'e Engine \<Rightarrow> 'e World \<Rightarrow> bool" where
  "RegistrationRefreshPending E w =
     (let enabled = IsEnabled w;
          canonicalRegistrationAvailable = UsesCanonicalRegistration enabled (SupportsCanonicalRegistration E w)
      in st_registrationRefreshPending (w_state w) \<or>
         enabled \<noteq> st_featureEnabledLastFrame (w_state w) \<or>
         canonicalRegistrationAvailable \<noteq> st_canonicalRegistrationAvailableLastFrame (w_state w))"

definition BaselinePreparationPending :: "'e Engine \<Rightarrow> 'e World \<Rightarrow> bool" where
  "BaselinePreparationPending E w =
     (let baseWorkPending = st_buildRequested (w_state w) \<or> st_activeBuild (w_state w) \<noteq> None
      in RegistrationRefreshPending E w \<or>
         InitialMapBasePending (IsEnabled w) (cfg_requiredStubbing (GetConfig w))
           (st_currentGeneration (w_state w) \<noteq> '''') baseWorkPending)"

definition CompleteRegistrationRefresh :: "State \<Rightarrow> State" where
  "CompleteRegistrationRefresh s = s\<lparr>st_registrationRefreshPending := st_bootstrapRefresh s\<rparr>"

section \<open>Baselines\<close>

definition DecideBaselineForClient :: "'e Engine \<Rightarrow> int \<Rightarrow> 'e World \<Rightarrow> BaselineDecision \<times> 'e World" where
  "DecideBaselineForClient E slot w =
     (if \<not> IsValidSlot E slot then (BaselineDecision_new, w)
      else if BaselinePreparationPending E w
      then (reject_baseline ''Lua registration identities or the immutable map base are still being prepared'', w)
      else if \<not> IsEnabled w then (BaselineDecision_new, w)
      else
        (case BeginPendingRecoveryBaseline E slot w of
           (Some recoveryFailure, w1) \<Rightarrow> (reject_baseline recoveryFailure, w1)
         | (None, w1) \<Rightarrow>
             (let w2 = (if NeedsConnectionEpochAtBaseline (cp_connectionSerial (client_of w1 slot))
                        then StartClientEpoch E slot w1 else w1);
                  w3 = ResolveDeliveryLane E slot w2;
                  w4 = (if ShouldPinCurrentBaseForBaseline (ClientLane (client_of w3 slot))
                             (cp_generation (client_of w3 slot) \<noteq> '''')
                             (st_currentGeneration (w_state w3) \<noteq> '''')
                        then snd (PinCurrentGeneration E slot w3) else w3);
                  base = BaseAvailabilityForClient E w4 (client_of w4 slot) True
              in (case SelectBaseline (ClientLane (client_of w4 slot))
                         (SupportsCanonicalRegistration E w4) base of
                    ActNative \<Rightarrow> accept_baseline BaNativeSource
                  | ActCanonicalStub \<Rightarrow> accept_baseline BaBasePlusDelta
                  | ActReject \<Rightarrow>
                      if \<not> SupportsCanonicalRegistration E w4
                      then reject_baseline ''canonical Lua placeholder registration is unavailable on this platform''
                      else if base = Missing
                      then reject_baseline ''no immutable map base was pinned before the client string-table baseline''
                      else reject_baseline ''the pinned map base is absent, invalid, or not in the engine download queue'',
                  w4))))"

definition DecideFileBaselineForClient ::
  "'e Engine \<Rightarrow> int \<Rightarrow> string \<Rightarrow> 'e World \<Rightarrow> BaselineDecision \<times> 'e World" where
  "DecideFileBaselineForClient E slot virtualPath w =
     (if \<not> IsEnabled w \<or> \<not> IsValidSlot E slot then (BaselineDecision_new, w)
      else
        (let w1 = ResolveDeliveryLane E slot w;
             client = client_of w1 slot;
             base = BaseAvailabilityForClient E w1 client False;
             nativeDelta =
               (if base = Ready
                then (case st_generations (w_state w1) (cp_generation client) of
                        None \<Rightarrow> True
                      | Some generation \<Rightarrow> IsGenerationNativeDelta generation virtualPath)
                else True)
         in (case SelectFile (ClientLane client) (SupportsCanonicalRegistration E w1) base
                    (IsInitFile virtualPath) nativeDelta of
               ActNative \<Rightarrow> accept_baseline BaNativeSource
             | ActCanonicalStub \<Rightarrow> accept_baseline BaCanonicalStub
             | ActReject \<Rightarrow> reject_baseline
                 (if base = Missing then ''the immutable map base is not pinned''
                  else ''the immutable map base is unusable''),
             w1)))"

definition DecidePinnedFileBaselineForClient ::
  "'e Engine \<Rightarrow> int \<Rightarrow> string \<Rightarrow> 'e World \<Rightarrow> BaselineDecision" where
  "DecidePinnedFileBaselineForClient E slot virtualPath w =
     (if \<not> IsEnabled w \<or> \<not> IsValidSlot E slot
      then reject_baseline ''LuaPack became unavailable during ServerInfo preparation''
      else
        (let client = client_of w slot
         in if ClientLane client \<noteq> RequiredLane
            then reject_baseline ''the required baseline lane changed during ServerInfo preparation''
            else
              (let unavailable =
                     reject_baseline ''the pinned map base became unavailable during ServerInfo preparation''
               in case st_generations (w_state w) (cp_generation client) of
                    None \<Rightarrow> unavailable
                  | Some generation \<Rightarrow>
                      if \<not> gen_engineDownloadable generation \<or> gen_compressedRequiredStub generation = None
                      then unavailable
                      else
                        (case SelectFile RequiredLane True Ready (IsInitFile virtualPath)
                                (IsGenerationNativeDelta generation virtualPath) of
                           ActNative \<Rightarrow> accept_baseline BaNativeSource
                         | ActCanonicalStub \<Rightarrow> accept_baseline BaCanonicalStub
                         | ActReject \<Rightarrow> reject_baseline ''the pinned map-base file decision was rejected''))))"

section \<open>Delivery\<close>

definition RequiredStubPayloadForClient :: "'e Engine \<Rightarrow> int \<Rightarrow> 'e World \<Rightarrow> u8 list option" where
  "RequiredStubPayloadForClient E slot w =
     (if \<not> IsEnabled w \<or> \<not> IsValidSlot E slot then None
      else (case st_generations (w_state w) (cp_generation (client_of w slot)) of
              None \<Rightarrow> None
            | Some generation \<Rightarrow> gen_compressedRequiredStub generation))"

definition RequiredStubCompressedBytesForClient :: "'e Engine \<Rightarrow> int \<Rightarrow> 'e World \<Rightarrow> nat" where
  "RequiredStubCompressedBytesForClient E slot w =
     (case RequiredStubPayloadForClient E slot w of None \<Rightarrow> 0 | Some payload \<Rightarrow> length payload)"

definition RecordPinnedRequiredStubForClient :: "'e Engine \<Rightarrow> int \<Rightarrow> 'e World \<Rightarrow> bool \<times> 'e World" where
  "RecordPinnedRequiredStubForClient E slot w =
     (if \<not> IsEnabled w \<or> \<not> IsValidSlot E slot then (False, w)
      else
        (let client = client_of w slot
         in if ClientLane client \<noteq> RequiredLane \<or> cp_generation client = '''' then (False, w)
            else (True,
                  if \<not> cp_active client
                  then set_client slot (\<lambda>c. c\<lparr>cp_joinRequiredStubs := cp_joinRequiredStubs c + 1\<rparr>) w
                  else w)))"

definition NeedsNativeHashUpdate :: "'e Engine \<Rightarrow> int \<Rightarrow> 'e World \<Rightarrow> bool \<times> 'e World" where
  "NeedsNativeHashUpdate E slot w =
     (if \<not> IsEnabled w \<or> \<not> IsValidSlot E slot then (False, w)
      else if \<not> SupportsCanonicalRegistration E w \<and>
              \<not> st_canonicalRegistrationAvailableLastFrame (w_state w) then (False, w)
      else
        (let w1 = ResolveDeliveryLane E slot w
         in (NeedsPerClientNativeHashes (ClientLane (client_of w1 slot)), w1)))"

definition DecideDeliveryForClient ::
  "'e Engine \<Rightarrow> int \<Rightarrow> string \<Rightarrow> u64 \<Rightarrow> 'e World \<Rightarrow> DeliveryDecision \<times> 'e World" where
  "DecideDeliveryForClient E slot virtualPath nativeSourceBytes w =
     (if \<not> IsEnabled w \<or> \<not> IsValidSlot E slot then (DeliveryDecision_new, w)
      else
        (let w1 = ResolveDeliveryLane E slot w;
             (fileBaseline, w2) = DecideFileBaselineForClient E slot virtualPath w1
         in if bd_action fileBaseline = BaReject then (reject_delivery (bd_failure fileBaseline), w2)
            else if bd_action fileBaseline = BaNativeSource \<or> bd_action fileBaseline = BaUnchanged
            then (DeliveryDecision_new, with_state (RecordNativeJoin slot nativeSourceBytes) w2)
            else
              (let unavailable = (reject_delivery
                     (Some ''the immutable map base became unavailable during Lua transfer''), w2)
               in case st_generations (w_state w2) (cp_generation (client_of w2 slot)) of
                    None \<Rightarrow> unavailable
                  | Some generation \<Rightarrow>
                      (case gen_compressedRequiredStub generation of
                         None \<Rightarrow> unavailable
                       | Some stub \<Rightarrow>
                           (\<lparr>dd_action = DaStub, dd_compressed = Some stub, dd_failure = None\<rparr>,
                            snd (RecordPinnedRequiredStubForClient E slot w2))))))"

section \<open>Client lifecycle\<close>

definition ClientConnect :: "'e Engine \<Rightarrow> int \<Rightarrow> 'e World \<Rightarrow> bool \<times> 'e World" where
  "ClientConnect E slot w =
     (if \<not> IsValidSlot E slot then (False, w)
      else if PreserveClaimedRecoveryLifecycle E slot True w then (True, w)
      else
        (let w1 = (if \<not> RequiredRecoveryHandoff_Invoked (handoff_of w slot)
                   then set_handoff slot (RequiredRecoveryHandoff_Reset (handoff_of w slot)) w else w)
         in (False, StartClientEpoch E slot w1)))"

definition ClientActive :: "'e Engine \<Rightarrow> int \<Rightarrow> 'e World \<Rightarrow> 'e World" where
  "ClientActive E slot w =
     (if \<not> IsValidSlot E slot then w
      else
        (let w1 = with_state (ReleaseGenerationReference slot)
               (set_client slot (\<lambda>c. c\<lparr>cp_active := True\<rparr>) w);
             client = client_of w1 slot;
             w2 = (if \<not> cp_ready client \<and> \<not> cp_fallback client \<and> cp_generation client \<noteq> ''''
                   then set_client slot (\<lambda>c. c\<lparr>cp_deadline :=
                          ServerTime E w1 + cfg_readyDeadlineSeconds (GetConfig w1)\<rparr>) w1
                   else w1);
             w3 = ClearProvenRecoveryState E slot w2;
             client = client_of w3 slot
         in if IsEnabled w3 \<and> \<not> cp_joinSummaryLogged client \<and>
               (0 < cp_joinNativeFiles client \<or> 0 < cp_joinOptimisticStubs client \<or>
                0 < cp_joinRequiredStubs client \<or> 0 < cp_joinReadyStubs client)
            then set_client slot (\<lambda>c. c\<lparr>cp_joinSummaryLogged := True\<rparr>) w3
            else w3))"

definition set_native_latch :: "string \<Rightarrow> real \<Rightarrow> 'e World \<Rightarrow> 'e World" where
  [handler_simps]: "set_native_latch networkID expiry =
     with_state (\<lambda>s. s\<lparr>st_nativeLatches := (st_nativeLatches s)(networkID \<mapsto> expiry)\<rparr>)"

definition ClientDisconnect :: "'e Engine \<Rightarrow> int \<Rightarrow> bool \<Rightarrow> 'e World \<Rightarrow> bool \<times> 'e World" where
  "ClientDisconnect E slot gameLayerCallback w =
     (if \<not> IsValidSlot E slot then (False, w)
      else if PreserveClaimedRecoveryLifecycle E slot gameLayerCallback w then (True, w)
      else
        (let w1 = (if \<not> ShouldKeepInvokedRecoveryHandoff gameLayerCallback
                        (RequiredRecoveryHandoff_Invoked (handoff_of w slot))
                   then set_handoff slot (RequiredRecoveryHandoff_Reset (handoff_of w slot)) w else w);
             client = client_of w1 slot;
             w2 = (if 0 < cp_joinOptimisticStubs client \<and> \<not> cp_ready client \<and> cp_networkID client \<noteq> ''''
                   then set_native_latch (cp_networkID client)
                          (ServerTime E w1 + cfg_unreadyTtlSeconds (GetConfig w1)) w1
                   else w1)
         in (False, with_state (ReleasePin slot) w2)))"

definition ResetHandoffsOwnedBy :: "int \<Rightarrow> u64 \<Rightarrow> State \<Rightarrow> State" where
  "ResetHandoffsOwnedBy n steamID64 s =
     s\<lparr>st_recoveryHandoffs := (\<lambda>i. if 0 \<le> i \<and> i < n
         then snd (RequiredRecoveryHandoff_ResetIfOwnedBy steamID64 (st_recoveryHandoffs s i))
         else st_recoveryHandoffs s i)\<rparr>"

definition PhysicalClientDisconnect :: "'e Engine \<Rightarrow> int \<Rightarrow> u64 \<Rightarrow> 'e World \<Rightarrow> 'e World" where
  "PhysicalClientDisconnect E slot steamID64 w =
     (if \<not> IsValidSlot E slot then w
      else
        (let w1 = (if steamID64 \<noteq> 0
                   then with_state (ResetHandoffsOwnedBy (eng_playerLimit E) steamID64) w else w)
         in snd (ClientDisconnect E slot False w1)))"

section \<open>Private client commands\<close>

text \<open>Arming the recovery of an exactly reported failure, and queueing its reconnect.\<close>

definition ArmRequiredRecovery :: "'e Engine \<Rightarrow> int \<Rightarrow> 'e World \<Rightarrow> bool \<times> 'e World" where
  "ArmRequiredRecovery E slot w =
     (let previouslyResolved = cp_resolvedIdentity (client_of w slot);
          expectedSteamID64 = cp_steamID64 (client_of w slot);
          (authenticatedNow, w1) = BindAuthenticatedIdentity E slot w;
          client = client_of w1 slot
      in if RequiredFailureIdentityReady True (cp_resolvedIdentity client)
              (cp_authenticatedIdentity client) \<and> authenticatedNow \<and>
            RequiredFailureIdentityMatches previouslyResolved expectedSteamID64 (cp_steamID64 client)
         then
           (let ttl = cfg_requiredRecoveryTtlSeconds (GetConfig w1);
                (armed, t) = RequiredRecoveryTracker_Arm (cp_steamID64 client) (cp_connectionSerial client)
                  (ServerTime E w1) ttl (st_requiredRecovery (w_state w1));
                w2 = set_tracker t w1
            in if armed = ArmArmed
               then
                 (let handoffWindow = RecoveryHandoffWindow ttl;
                      (handoffQueued, h) = RequiredRecoveryHandoff_Queue (cp_steamID64 client)
                        (cp_connectionSerial client) (ServerTime E w2) handoffWindow (handoff_of w2 slot);
                      w3 = set_handoff slot h w2
                  in if handoffQueued then (True, w3)
                     else (False, set_tracker (snd (RequiredRecoveryTracker_Clear (cp_steamID64 client)
                            (st_requiredRecovery (w_state w3)))) w3))
               else (False, w2))
         else (False, w1))"

text \<open>The test for a late report of the failed baseline during the native recovery.\<close>

definition IgnoresLateFailure :: "int \<Rightarrow> 'e World \<Rightarrow> bool" where
  "IgnoresLateFailure slot w =
     (let client = client_of w slot;
          ownsConsumedRecovery = RequiredRecoveryTracker_OwnsConsumed (cp_steamID64 client)
            (cp_connectionSerial client) (st_requiredRecovery (w_state w))
      in ShouldIgnoreLateRecoveryFailure (cp_requiredRecovery client \<and> cp_nativeLane client)
           ownsConsumedRecovery (cp_recoveryStateCleared client))"

definition FailedCommand :: "'e Engine \<Rightarrow> int \<Rightarrow> string list \<Rightarrow> 'e World \<Rightarrow> 'e World" where
  "FailedCommand E slot args w =
     (if \<not> IsEnabled w \<or> \<not> IsValidSlot E slot then w
      else if IgnoresLateFailure slot w then w
      else
        (let client = client_of w slot;
             exactFailure = (cp_requiredLane client \<and> \<not> cp_requiredRecovery client \<and>
               length args = 2 \<and> cp_generation client \<noteq> '''' \<and> cp_generation client = args ! 1);
             (handoffQueued, w1) =
               (if exactFailure \<and> cfg_requiredRecovery (GetConfig w)
                then ArmRequiredRecovery E slot w else (False, w))
         in if cp_requiredLane (client_of w1 slot) \<and> \<not> handoffQueued
            then DisconnectRequiredClient E slot w1 else w1))"

definition UnreadyCommand :: "'e Engine \<Rightarrow> int \<Rightarrow> 'e World \<Rightarrow> 'e World" where
  "UnreadyCommand E slot w =
     (if \<not> IsEnabled w \<or> \<not> IsValidSlot E slot then w
      else if IgnoresLateFailure slot w then w
      else if cp_requiredLane (client_of w slot) then DisconnectRequiredClient E slot w
      else
        (let w1 = set_client slot (\<lambda>c. c\<lparr>cp_nativeLatched := True\<rparr>) (with_state (MarkFallback slot) w);
             networkID = cp_networkID (client_of w1 slot)
         in if networkID \<noteq> ''''
            then set_native_latch networkID (ServerTime E w1 + cfg_unreadyTtlSeconds (GetConfig w1)) w1
            else w1))"

definition ReadyCommand :: "'e Engine \<Rightarrow> int \<Rightarrow> string list \<Rightarrow> 'e World \<Rightarrow> 'e World" where
  "ReadyCommand E slot args w =
     (if \<not> IsEnabled w \<or> \<not> IsValidSlot E slot \<or> length args \<noteq> 3 then w
      else
        (let client = client_of w slot; generationId = args ! 1; md5 = args ! 2
         in if cp_nativeLane client then w
            else
              (case st_generations (w_state w) (cp_generation client) of
                 None \<Rightarrow> w
               | Some generation \<Rightarrow>
                   if cp_generation client \<noteq> '''' \<and> generationId = cp_generation client \<and>
                      md5 = gen_md5 generation
                   then
                     (let w1 = set_client slot (\<lambda>c. c\<lparr>cp_ready := True, cp_everReady := True,
                            cp_fallback := False, cp_nativeLatched := False\<rparr>) w;
                          networkID = cp_networkID (client_of w1 slot);
                          w2 = (if networkID \<noteq> ''''
                                then with_state (\<lambda>s. s\<lparr>st_nativeLatches :=
                                       (st_nativeLatches s)(networkID := None)\<rparr>) w1
                                else w1);
                          client = client_of w2 slot;
                          w3 = (if \<not> cp_active client \<and> \<not> cp_holdsPin client
                                then with_state (\<lambda>s. upd_generation (cp_generation client)
                                       (\<lambda>g. g\<lparr>gen_pins := gen_pins g + 1\<rparr>)
                                       (upd_client slot (\<lambda>c. c\<lparr>cp_holdsPin := True\<rparr>) s)) w2
                                else w2)
                      in if cp_active (client_of w3 slot)
                         then ClearProvenRecoveryState E slot
                                (with_state (ReleaseGenerationReference slot) w3)
                         else w3)
                   else w)))"

definition ClientCommand ::
  "'e Engine \<Rightarrow> int \<Rightarrow> string list option \<Rightarrow> 'e World \<Rightarrow> MODULE_RESULT \<times> 'e World" where
  "ClientCommand E slot args w =
     (case args of
        None \<Rightarrow> (MrCONTINUE, w)
      | Some [] \<Rightarrow> (MrCONTINUE, w)
      | Some (name # rest) \<Rightarrow>
          if stricmp_eq name ''holylib_luapack_failed''
          then (MrSTOP, FailedCommand E slot (name # rest) w)
          else if stricmp_eq name ''holylib_luapack_unready'' then (MrSTOP, UnreadyCommand E slot w)
          else if stricmp_eq name ''holylib_luapack_ready''
          then (MrSTOP, ReadyCommand E slot (name # rest) w)
          else (MrCONTINUE, w))"

end
