(* ===== verification/LuaPackBuild.thy ===== *)
theory LuaPackBuild
  imports LuaPackClients "HOL-Library.List_Lexorder" "HOL-Library.Char_ord"
begin

text \<open>
  Publication of the map base in \<^verbatim>\<open>gmoddatapack_luapack.cpp\<close>: the salt, the
  immutable object on disk, the optional upload, the downloadables table, housekeeping, the start
  of a build and the capture of registered files.  The file system, the string table, the
  \<^verbatim>\<open>sv_downloadurl\<close> variable, HTTP and SHA-256 are parameters.
\<close>

section \<open>Host interface\<close>

record HttpRequest =
  http_method :: string
  http_path :: string
  http_body :: "u8 list"
  http_headers :: "(string \<times> string) list"

text \<open>
  \<open>host_readFile\<close> is Open, Size and Read: \<open>None\<close> for an invalid handle, else the
  reported size and the bytes Read delivered.  \<open>host_writeFile\<close> is Open, Write and Close:
  \<open>None\<close> for an invalid handle, else the number Write returned.
\<close>

record 'e Host =
  host_createDir :: "string \<Rightarrow> 'e \<Rightarrow> 'e"
  host_readFile :: "'e \<Rightarrow> string \<Rightarrow> (u32 \<times> string) option"
  host_writeFile :: "string \<Rightarrow> u8 list \<Rightarrow> 'e \<Rightarrow> int option \<times> 'e"
  host_rename :: "string \<Rightarrow> string \<Rightarrow> 'e \<Rightarrow> bool \<times> 'e"
  host_remove :: "string \<Rightarrow> 'e \<Rightarrow> 'e"
  host_exists :: "'e \<Rightarrow> string \<Rightarrow> bool"
  host_findFiles :: "'e \<Rightarrow> string \<Rightarrow> (string \<times> bool) list"
  host_fileTime :: "'e \<Rightarrow> string \<Rightarrow> int"
  host_size :: "'e \<Rightarrow> string \<Rightarrow> u32"
  host_time :: "'e \<Rightarrow> int"
  host_entropy :: "'e \<Rightarrow> string \<Rightarrow> string"
  host_downloadUrl :: "'e \<Rightarrow> string option"
  host_setDownloadUrl :: "string \<Rightarrow> 'e \<Rightarrow> 'e"
  host_downloadables :: "'e \<Rightarrow> string option list option"
  host_addString :: "string \<Rightarrow> 'e \<Rightarrow> bool \<times> 'e"
  host_packBuiltHook :: "Generation \<Rightarrow> nat \<Rightarrow> 'e World \<Rightarrow> 'e World"
  host_httpSend :: "string \<Rightarrow> HttpRequest \<Rightarrow> string + int"

record Hashes =
  sha256_hex :: "string \<Rightarrow> string"
  sha256_bytes :: "u8 list \<Rightarrow> u8 list"

definition with_engine :: "('e \<Rightarrow> 'e) \<Rightarrow> 'e World \<Rightarrow> 'e World" where
  "with_engine f w = w\<lparr>w_engine := f (w_engine w)\<rparr>"

text \<open>\<^verbatim>\<open>std::to_string\<close> of an unsigned integer.\<close>

fun to_string :: "nat \<Rightarrow> string" where
  "to_string n = (if n < 10 then [char_of (48 + n)] else to_string (n div 10) @ [char_of (48 + n mod 10)])"

declare to_string.simps [simp del]

section \<open>Salt and object\<close>

definition ReadOrCreateSalt :: "Bootil \<Rightarrow> 'e Host \<Rightarrow> string \<Rightarrow> 'e \<Rightarrow> string \<times> 'e" where
  "ReadOrCreateSalt B H packDirectory e =
     (let directory = DataDirectory packDirectory;
          path = directory @ ''/salt.txt'';
          e1 = host_createDir H directory e;
          stored = (case host_readFile H e1 path of
                      None \<Rightarrow> None
                    | Some (size', data) \<Rightarrow>
                        if 0 < size' \<and> size' \<le> 128 \<and> length data = unat size' then Some data else None)
      in case stored of
           Some salt \<Rightarrow> (salt, e1)
         | None \<Rightarrow>
             (let salt = MD5_String B (host_entropy H e1 packDirectory)
              in (salt, snd (host_writeFile H path (bytes_of salt) e1))))"

definition WriteImmutableObject :: "'e Host \<Rightarrow> BuildTask \<Rightarrow> 'e \<Rightarrow> (bool \<times> string) \<times> 'e" where
  "WriteImmutableObject H task e =
     (let directory = DataDirectory (bt_packDirectory task);
          resourcePath = directory @ ''/'' @ bt_md5 task @ ''.bsp''
      in if host_exists H e resourcePath then ((True, resourcePath), e)
         else
           (let e1 = host_createDir H directory e;
                temporaryPath = resourcePath @ ''.tmp.'' @ to_string (unat (bt_sourceRevision task));
                expected = sint (of_nat (length (bt_compressed task)) :: 32 word)
            in case host_writeFile H temporaryPath (bt_compressed task) e1 of
                 (None, e2) \<Rightarrow> ((False, resourcePath), e2)
               | (Some written, e2) \<Rightarrow>
                   if written \<noteq> expected
                   then ((False, resourcePath), host_remove H temporaryPath e2)
                   else
                     (case host_rename H temporaryPath resourcePath e2 of
                        (True, e3) \<Rightarrow> ((True, resourcePath), e3)
                      | (False, e3) \<Rightarrow> ((False, resourcePath), host_remove H temporaryPath e3))))"

definition BuildCompressedStub :: "Bootil \<Rightarrow> Hashes \<Rightarrow> u8 list option" where
  "BuildCompressedStub B S =
     (let source = bytes_of canonicalStubSource @ [0]
      in case LZMA_Compress B source of
           None \<Rightarrow> None
         | Some compressed \<Rightarrow> Some (sha256_bytes S source @ compressed))"

section \<open>Upload\<close>

text \<open>The worker: the request to the ingest endpoint and its outcome.\<close>

definition UploadPack :: "'e Host \<Rightarrow> UploadTask \<Rightarrow> UploadTask" where
  "UploadPack H task =
     (case find_str ''://'' (ut_url task) of
        None \<Rightarrow> task\<lparr>ut_error := ''ingest URL has no scheme'', ut_complete := True\<rparr>
      | Some scheme \<Rightarrow>
          (let pathStart = find_char_from CHR ''/'' (ut_url task) (scheme + 3);
               origin = (case pathStart of None \<Rightarrow> ut_url task | Some p \<Rightarrow> take p (ut_url task));
               path = (case pathStart of None \<Rightarrow> ''/'' | Some p \<Rightarrow> drop p (ut_url task))
           in if \<not> starts_with origin ''http://''
              then task\<lparr>ut_error := ''this build supports http:// ingest only (HTTPS is never downgraded)'',
                        ut_complete := True\<rparr>
              else
                (let request = \<lparr>http_method = ut_method task, http_path = path, http_body = ut_body task,
                       http_headers =
                         [(''Content-Type'', ''application/octet-stream''),
                          (''X-HolyLib-LuaPack-MD5'', ut_md5 task),
                          (''X-HolyLib-LuaPack-Path'', ut_resourcePath task),
                          (''X-HolyLib-LuaPack-Retention-Seconds'',
                           to_string (nat \<lfloor>ut_objectRetentionSeconds task\<rfloor>))]\<rparr>
                 in case host_httpSend H origin request of
                      Inl err \<Rightarrow> task\<lparr>ut_error := err, ut_complete := True\<rparr>
                    | Inr status \<Rightarrow>
                        (let ok = 200 \<le> status \<and> status < 300
                         in task\<lparr>ut_status := status, ut_success := ok,
                              ut_error := (if ok then ut_error task
                                else ''HTTP status '' @
                                     (if status < 0 then ''-'' else '''') @ to_string (nat \<bar>status\<bar>)),
                              ut_complete := True\<rparr>))))"

definition ascii_upper :: "char \<Rightarrow> char" where
  "ascii_upper c =
     (if CHR ''a'' \<le> c \<and> c \<le> CHR ''z'' then char_of ((of_char c :: nat) - 32) else c)"

definition QueueIngest :: "BuildTask \<Rightarrow> Generation \<Rightarrow> 'e World \<Rightarrow> 'e World" where
  "QueueIngest build generation w =
     (let config = GetConfig w
      in if cfg_ingestUrl config = '''' then w
         else
           (let method' = map ascii_upper (cfg_ingestMethod config)
            in if method' = '''' \<or> (\<exists>c\<in>set method'. \<not> (CHR ''A'' \<le> c \<and> c \<le> CHR ''Z'')) then w
               else with_state (\<lambda>s. s\<lparr>st_uploads := st_uploads s @
                 [\<lparr>ut_url = cfg_ingestUrl config, ut_method = method', ut_md5 = gen_md5 generation,
                   ut_resourcePath = gen_resourcePath generation, ut_body = bt_compressed build,
                   ut_objectRetentionSeconds = cfg_objectRetentionSeconds config,
                   ut_error = '''', ut_status = 0, ut_success = False, ut_complete = False\<rparr>]\<rparr>) w))"

definition NotifyPackBuilt :: "'e Host \<Rightarrow> BuildTask \<Rightarrow> Generation \<Rightarrow> 'e World \<Rightarrow> 'e World" where
  "NotifyPackBuilt H build generation w =
     QueueIngest build generation (host_packBuiltHook H generation (length (bt_compressed build)) w)"

section \<open>Download URL and downloadables\<close>

definition CoordinateDownloadUrl :: "'e Host \<Rightarrow> 'e World \<Rightarrow> bool \<times> 'e World" where
  "CoordinateDownloadUrl H w =
     (let policy = cfg_downloadUrlPolicy (GetConfig w)
      in case host_downloadUrl H (w_engine w) of
           None \<Rightarrow> (False, w)
         | Some url \<Rightarrow>
             if stricmp_eq policy ''require'' then (url \<noteq> '''', w)
             else if stricmp_eq policy ''lock'' then
               (True,
                if \<not> st_downloadUrlLocked (w_state w)
                then with_state (\<lambda>s. s\<lparr>st_lockedDownloadUrl := url, st_downloadUrlLocked := True\<rparr>) w
                else if st_lockedDownloadUrl (w_state w) \<noteq> url
                then with_engine (host_setDownloadUrl H (st_lockedDownloadUrl (w_state w))) w
                else w)
             else (stricmp_eq policy ''respect'', w))"

definition IsGenerationObjectName :: "string \<Rightarrow> bool" where
  "IsGenerationObjectName filename \<longleftrightarrow>
     length filename = 36 \<and> take 4 (drop 32 filename) = ''.bsp'' \<and>
     (\<forall>c\<in>set (take 32 filename).
        (CHR ''0'' \<le> c \<and> c \<le> CHR ''9'') \<or> (CHR ''a'' \<le> c \<and> c \<le> CHR ''f''))"

datatype DownloadableRegistration = DrRegistered | DrBudgetExhausted | DrFailed

fun count_pack_objects :: "string \<Rightarrow> string option list \<Rightarrow> u32 \<Rightarrow> u32" where
  "count_pack_objects prefix [] count = count"
| "count_pack_objects prefix (value # rest) count =
     count_pack_objects prefix rest
       (case value of
          None \<Rightarrow> count
        | Some resourcePath \<Rightarrow>
            if \<not> starts_with resourcePath prefix then count
            else if IsGenerationObjectName (drop (length prefix) resourcePath) then count + 1 else count)"

definition RegisteredPackObjectCount :: "string option list option \<Rightarrow> string \<Rightarrow> u32" where
  "RegisteredPackObjectCount downloadables packDirectory =
     (case downloadables of
        None \<Rightarrow> 0
      | Some strings \<Rightarrow> count_pack_objects (DataDirectory packDirectory @ ''/'') strings 0)"

definition RegisterDownloadable ::
  "'e Host \<Rightarrow> string \<Rightarrow> string \<Rightarrow> u32 \<Rightarrow> 'e \<Rightarrow> DownloadableRegistration \<times> 'e" where
  "RegisterDownloadable H resourcePath packDirectory limit e =
     (case host_downloadables H e of
        None \<Rightarrow> (DrFailed, e)
      | Some strings \<Rightarrow>
          if Some resourcePath \<in> set strings then (DrRegistered, e)
          else if limit \<le> RegisteredPackObjectCount (Some strings) packDirectory
          then (DrBudgetExhausted, e)
          else
            (case host_addString H resourcePath e of
               (True, e1) \<Rightarrow> (DrRegistered, e1)
             | (False, e1) \<Rightarrow> (DrFailed, e1)))"

section \<open>Housekeeping\<close>

definition IsProtectedObject :: "'e Host \<Rightarrow> State \<Rightarrow> 'e \<Rightarrow> string \<Rightarrow> bool" where
  "IsProtectedObject H s e resourcePath \<longleftrightarrow>
     resourcePath \<in> gen_resourcePath ` ran (st_generations s) \<or>
     (case host_downloadables H e of None \<Rightarrow> False | Some strings \<Rightarrow> Some resourcePath \<in> set strings)"

record HousekeepCounts =
  hk_scanned :: u32
  hk_protected :: u32
  hk_young :: u32
  hk_removed :: u32
  hk_failed :: u32
  hk_removedBytes :: u64

definition HousekeepCounts_new :: HousekeepCounts where
  "HousekeepCounts_new =
     \<lparr>hk_scanned = 0, hk_protected = 0, hk_young = 0, hk_removed = 0, hk_failed = 0, hk_removedBytes = 0\<rparr>"

text \<open>One entry of the directory scan; \<open>now\<close> and the retention are read before the loop.\<close>

definition HousekeepEntry ::
  "'e Host \<Rightarrow> State \<Rightarrow> real \<Rightarrow> string \<Rightarrow> int \<Rightarrow> string \<times> bool
     \<Rightarrow> HousekeepCounts \<times> 'e \<Rightarrow> HousekeepCounts \<times> 'e" where
  "HousekeepEntry H s retention directory now found acc =
     (let (filename, isDirectory) = found; (k, e) = acc;
          resourcePath = directory @ ''/'' @ filename
      in if isDirectory \<or> \<not> IsGenerationObjectName filename then (k, e)
         else
           (let k = k\<lparr>hk_scanned := hk_scanned k + 1\<rparr>
            in if IsProtectedObject H s e resourcePath
               then (k\<lparr>hk_protected := hk_protected k + 1\<rparr>, e)
               else
                 (let fileTime = host_fileTime H e resourcePath
                  in if fileTime \<le> 0 \<or> now < fileTime \<or> of_int (now - fileTime) < retention
                     then (k\<lparr>hk_young := hk_young k + 1\<rparr>, e)
                     else
                       (let size' = host_size H e resourcePath;
                            e1 = host_remove H resourcePath e
                        in if host_exists H e1 resourcePath
                           then (k\<lparr>hk_failed := hk_failed k + 1\<rparr>, e1)
                           else (k\<lparr>hk_removed := hk_removed k + 1,
                                   hk_removedBytes := hk_removedBytes k + ucast size'\<rparr>, e1)))))"

definition HousekeepObjects :: "'e Host \<Rightarrow> 'e World \<Rightarrow> HousekeepCounts \<times> 'e World" where
  "HousekeepObjects H w =
     (let config = GetConfig w; retention = cfg_objectRetentionSeconds config
      in if retention \<le> 0 \<or> cfg_packDirectory config = '''' then (HousekeepCounts_new, w)
         else
           (let directory = DataDirectory (cfg_packDirectory config);
                now = host_time H (w_engine w);
                (k, e) = fold (HousekeepEntry H (w_state w) retention directory now)
                  (host_findFiles H (w_engine w) (directory @ ''/*.bsp'')) (HousekeepCounts_new, w_engine w)
            in (k, w\<lparr>w_engine := e\<rparr>)))"

section \<open>Builds and captures\<close>

text \<open>
  The worker's copy of the registry: the registered files without the bootstrap, sorted by
  path.  The unordered map is enumerated in the order of its keys before the sort.
\<close>

definition snapshot_files :: "(string \<rightharpoonup> FileRecord) \<Rightarrow> FileRecord list" where
  "snapshot_files files =
     sort_key fr_virtualPath
       (map (\<lambda>path. the (files path))
         (filter (\<lambda>path. \<not> IsInitFile path) (sorted_list_of_set (dom files))))"

definition StartBuild :: "Bootil \<Rightarrow> 'e Host \<Rightarrow> 'e World \<Rightarrow> 'e World" where
  "StartBuild B H w =
     (if st_currentGeneration (w_state w) \<noteq> '''' then w
      else if st_files (w_state w) = Map.empty then w
      else
        (let files = snapshot_files (st_files (w_state w));
             revision = st_revision (w_state w);
             w1 = with_state (\<lambda>s. s\<lparr>st_buildRequested := False\<rparr>) w;
             packDirectory = cfg_packDirectory (GetConfig w1);
             w2 = (if st_salt (w_state w1) = ''''
                   then (let (salt, e) = ReadOrCreateSalt B H packDirectory (w_engine w1)
                         in with_state (\<lambda>s. s\<lparr>st_salt := salt\<rparr>) (w1\<lparr>w_engine := e\<rparr>))
                   else w1)
         in with_state (\<lambda>s. s\<lparr>st_activeBuild := Some
              \<lparr>bt_files = files, bt_packDirectory = packDirectory, bt_salt = st_salt s,
               bt_sourceRevision = revision, bt_uncompressed = [], bt_compressed = [], bt_md5 = '''',
               bt_error = '''', bt_complete = False, bt_success = False\<rparr>\<rparr>) w2))"

text \<open>The build thread finishes the task it was given.\<close>

definition BuildWorker :: "Bootil \<Rightarrow> 'e World \<Rightarrow> 'e World" where
  "BuildWorker B w =
     with_state (\<lambda>s. s\<lparr>st_activeBuild :=
       map_option (\<lambda>task. if bt_complete task then task else BuildPack B task) (st_activeBuild s)\<rparr>) w"

definition UploadWorker :: "'e Host \<Rightarrow> 'e World \<Rightarrow> 'e World" where
  "UploadWorker H w =
     with_state (\<lambda>s. s\<lparr>st_uploads :=
       map (\<lambda>task. if ut_complete task then task else UploadPack H task) (st_uploads s)\<rparr>) w"

text \<open>The effect of one registered identity on the delta index of a generation.\<close>

definition update_delta :: "string \<Rightarrow> string \<Rightarrow> Generation \<Rightarrow> Generation" where
  "update_delta virtualPath identity g =
     g\<lparr>gen_nativeDeltas := UpdateNativeDeltaIndex (gen_nativeDeltas g) virtualPath
        (IsNativeDelta (gen_files g virtualPath \<noteq> None)
          (case gen_files g virtualPath of None \<Rightarrow> '''' | Some i \<Rightarrow> i) identity)\<rparr>"

definition CaptureFileContents ::
  "Hashes \<Rightarrow> 'e Engine \<Rightarrow> string \<Rightarrow> string \<Rightarrow> 'e World \<Rightarrow> 'e World" where
  "CaptureFileContents S E inputPath contents w =
     (if \<not> IsEnabled w then w
      else
        (let virtualPath = NormalizePath inputPath
         in if virtualPath = '''' then w
            else
              (let s = w_state w;
                   needsMapBase = (st_currentGeneration s = '''');
                   record' = (case st_files s virtualPath of
                     Some r \<Rightarrow> r
                   | None \<Rightarrow> \<lparr>fr_virtualPath = '''', fr_sourcePath = '''', fr_contents = '''',
                                fr_identity = '''', fr_revision = 0\<rparr>);
                   sourcePath = virtualPath
               in if fr_contents record' = contents \<and> fr_sourcePath record' = sourcePath then w
                  else
                    (let identity = sha256_hex S contents;
                         revision = st_revision s + 1
                     in with_state (\<lambda>s. s\<lparr>
                          st_revision := revision,
                          st_files := (st_files s)(virtualPath \<mapsto>
                            \<lparr>fr_virtualPath = virtualPath, fr_sourcePath = sourcePath,
                             fr_contents = contents, fr_identity = identity, fr_revision = revision\<rparr>),
                          st_generations := (\<lambda>g. map_option (update_delta virtualPath identity)
                                                (st_generations s g)),
                          st_buildRequested := (needsMapBase \<or> st_buildRequested s),
                          st_lastCaptureAt := ServerTime E w\<rparr>) w))))"

end
