(* ===== verification/LuaPackThink.thy ===== *)
theory LuaPackThink
  imports LuaPackBuild
begin

text \<open>
  The per-frame \<^verbatim>\<open>Think\<close> of \<^verbatim>\<open>gmoddatapack_luapack.cpp\<close>, section by
  section: feature transitions, finished uploads, publication of a finished build, the disabled
  state, client deadlines and the start of the next build; and \<^verbatim>\<open>Init\<close>.
\<close>

definition LuaPack_Init :: "'e World \<Rightarrow> 'e World" where
  "LuaPack_Init w = with_state (\<lambda>s. s\<lparr>st_featureEnabledLastFrame := IsEnabled w,
     st_canonicalRegistrationAvailableLastFrame := False\<rparr>) w"

section \<open>Transitions of the master switch and of the hook set\<close>

definition ThinkTransition :: "'e Engine \<Rightarrow> 'e World \<Rightarrow> 'e World" where
  "ThinkTransition E w =
     (let enabled = IsEnabled w;
          canonicalRegistrationAvailable = UsesCanonicalRegistration enabled (SupportsCanonicalRegistration E w);
          w1 = (if enabled \<noteq> st_featureEnabledLastFrame (w_state w)
                then with_state (\<lambda>s.
                  (let s1 = s\<lparr>st_featureEnabledLastFrame := enabled, st_bootstrapRefresh := True,
                              st_registrationRefreshPending := True\<rparr>
                   in if enabled then s1\<lparr>st_buildRequested := True\<rparr>
                      else s1\<lparr>st_generations := (\<lambda>g. map_option (\<lambda>generation. generation\<lparr>gen_nativeDeltas :=
                                MarkBasePathsNative (gen_nativeDeltas generation) (gen_files generation)\<rparr>)
                                (st_generations s1 g)),
                              st_files := Map.empty, st_buildRequested := False\<rparr>)) w
                else w)
      in if canonicalRegistrationAvailable \<noteq> st_canonicalRegistrationAvailableLastFrame (w_state w1)
         then with_state (\<lambda>s. s\<lparr>
                st_canonicalRegistrationAvailableLastFrame := canonicalRegistrationAvailable,
                st_bootstrapRefresh := True, st_registrationRefreshPending := True\<rparr>) w1
         else w1)"

definition ThinkUploads :: "State \<Rightarrow> State" where
  "ThinkUploads s = s\<lparr>st_uploads := filter (\<lambda>task. \<not> ut_complete task) (st_uploads s)\<rparr>"

section \<open>Publication\<close>

definition retryBaseBuild :: "'e Engine \<Rightarrow> real \<Rightarrow> 'e World \<Rightarrow> 'e World" where
  "retryBaseBuild E delay w =
     with_state (\<lambda>s. s\<lparr>st_nextBuildAllowed := ServerTime E w + delay, st_buildRequested := True\<rparr>) w"

definition base_files :: "FileRecord list \<Rightarrow> string \<rightharpoonup> string" where
  "base_files files =
     foldl (\<lambda>m file. m(NormalizePath (fr_virtualPath file) \<mapsto> fr_identity file)) Map.empty files"

text \<open>The delta index of a new generation against the registry.\<close>

definition initial_deltas :: "(string \<rightharpoonup> string) \<Rightarrow> (string \<rightharpoonup> FileRecord) \<Rightarrow> string set" where
  "initial_deltas base files =
     fold (\<lambda>path deltas. UpdateNativeDeltaIndex deltas path
             (IsNativeDelta (base path \<noteq> None) (case base path of None \<Rightarrow> '''' | Some i \<Rightarrow> i)
               (fr_identity (the (files path)))))
       (sorted_list_of_set (dom files)) {}
     \<union> (dom base - dom files)"

definition NewGeneration ::
  "Bootil \<Rightarrow> Hashes \<Rightarrow> BuildTask \<Rightarrow> string \<Rightarrow> real \<Rightarrow> (string \<rightharpoonup> FileRecord) \<Rightarrow> Generation" where
  "NewGeneration B S task resourcePath now files =
     (let stub = BuildCompressedStub B S; base = base_files (bt_files task)
      in \<lparr>gen_id = bt_md5 task, gen_md5 = bt_md5 task, gen_salt = bt_salt task,
          gen_resourcePath = resourcePath, gen_sourceRevision = bt_sourceRevision task,
          gen_publishedAt = now, gen_engineDownloadable = True,
          gen_compressedStub = stub, gen_compressedRequiredStub = stub,
          gen_files = base, gen_nativeDeltas = initial_deltas base files, gen_pins = 0\<rparr>)"

definition PublishBuild ::
  "Bootil \<Rightarrow> Hashes \<Rightarrow> 'e Engine \<Rightarrow> 'e Host \<Rightarrow> BuildTask \<Rightarrow> 'e World \<Rightarrow> 'e World" where
  "PublishBuild B S E H task w =
     (let ((written, resourcePath), e1) = WriteImmutableObject H task (w_engine w);
          w1 = w\<lparr>w_engine := e1\<rparr>
      in if \<not> written then retryBaseBuild E 15 w1
         else
           (let (coordinated, w2) = CoordinateDownloadUrl H w1
            in if \<not> coordinated then retryBaseBuild E 15 w2
               else
                 (let config = GetConfig w2;
                      (registration, e3) = RegisterDownloadable H resourcePath (cfg_packDirectory config)
                        (cfg_downloadableLimit config) (w_engine w2);
                      w3 = w2\<lparr>w_engine := e3\<rparr>
                  in case registration of
                       DrFailed \<Rightarrow> retryBaseBuild E 15 w3
                     | DrBudgetExhausted \<Rightarrow> with_state (\<lambda>s. s\<lparr>st_buildRequested := False\<rparr>) w3
                     | DrRegistered \<Rightarrow>
                         (let generation = NewGeneration B S task resourcePath (ServerTime E w3)
                                (st_files (w_state w3))
                          in if gen_compressedStub generation = None \<or>
                                gen_compressedRequiredStub generation = None
                             then retryBaseBuild E 15 w3
                             else
                               (let w4 = with_state (\<lambda>s. s\<lparr>
                                      st_generations := (st_generations s)(gen_id generation \<mapsto> generation),
                                      st_currentGeneration := gen_id generation,
                                      st_buildRequested := False\<rparr>) w3
                                in snd (HousekeepObjects H
                                     (NotifyPackBuilt H task generation (PublishManifest w4))))))))"

definition FinishBuild ::
  "Bootil \<Rightarrow> Hashes \<Rightarrow> 'e Engine \<Rightarrow> 'e Host \<Rightarrow> 'e World \<Rightarrow> 'e World" where
  "FinishBuild B S E H w =
     (case st_activeBuild (w_state w) of
        None \<Rightarrow> w
      | Some task \<Rightarrow>
          if \<not> bt_complete task then w
          else
            (let w1 = with_state (\<lambda>s. s\<lparr>st_activeBuild := None,
                        st_nextBuildAllowed := ServerTime E w + 5\<rparr>) w
             in if \<not> bt_success task
                then (if IsEnabled w1 \<and> st_currentGeneration (w_state w1) = ''''
                      then retryBaseBuild E 15 w1 else w1)
                else if IsEnabled w1
                then (if st_currentGeneration (w_state w1) \<noteq> '''' then w1
                      else PublishBuild B S E H task w1)
                else w1))"

section \<open>The disabled state\<close>

definition ReleaseAllPins :: "int \<Rightarrow> State \<Rightarrow> State" where
  "ReleaseAllPins n s =
     fold (\<lambda>slot s. if cp_generation (st_clients s slot) \<noteq> '''' then ReleasePin slot s else s) [0..n - 1] s"

definition ThinkDisabled :: "'e Engine \<Rightarrow> 'e World \<Rightarrow> 'e World" where
  "ThinkDisabled E w =
     (let w1 = with_state (\<lambda>s.
            (let s1 = ReleaseAllPins (eng_playerLimit E) (s\<lparr>st_downloadUrlLocked := False\<rparr>)
             in s1\<lparr>st_recoveryHandoffs := (\<lambda>i. if 0 \<le> i \<and> i < eng_playerLimit E
                     then RequiredRecoveryHandoff_Reset (st_recoveryHandoffs s1 i)
                     else st_recoveryHandoffs s1 i),
                   st_nativeLatches := Map.empty,
                   st_requiredRecovery := RequiredRecoveryTracker_Reset (st_requiredRecovery s1)\<rparr>)) w
      in if cv_manifest (w_cvars w1) \<noteq> '''' then set_manifest '''' w1 else w1)"

section \<open>Clients\<close>

definition ThinkClient :: "'e Engine \<Rightarrow> real \<Rightarrow> int \<Rightarrow> 'e World \<Rightarrow> 'e World" where
  "ThinkClient E now slot w =
     (let w1 = ClearProvenRecoveryState E slot w; client = client_of w1 slot
      in if cp_generation client \<noteq> '''' \<and> \<not> cp_ready client \<and> \<not> cp_fallback client \<and>
            cp_active client \<and> cp_deadline client < now
         then (if cp_requiredLane client \<and> \<not> cp_everReady client
               then DisconnectRequiredClient E slot w1
               else with_state (MarkFallback slot) w1)
         else w1)"

definition PruneLatches :: "real \<Rightarrow> State \<Rightarrow> State" where
  "PruneLatches now s = s\<lparr>
     st_nativeLatches := (\<lambda>id. case st_nativeLatches s id of
        None \<Rightarrow> None | Some expiry \<Rightarrow> if expiry < now then None else Some expiry),
     st_requiredRecovery := RequiredRecoveryTracker_Prune now (st_requiredRecovery s)\<rparr>"

definition ThinkBuildDue :: "real \<Rightarrow> State \<Rightarrow> bool" where
  "ThinkBuildDue now s \<longleftrightarrow>
     \<not> st_registrationRefreshPending s \<and>
     ShouldBuildMapBase (st_currentGeneration s \<noteq> '''') (st_buildRequested s) \<and>
     st_nextBuildAllowed s \<le> now \<and> 2 \<le> now - st_lastCaptureAt s"

definition ThinkEnabled :: "Bootil \<Rightarrow> 'e Engine \<Rightarrow> 'e Host \<Rightarrow> 'e World \<Rightarrow> 'e World" where
  "ThinkEnabled B E H w =
     (let w1 = snd (CoordinateDownloadUrl H w);
          now = ServerTime E w1;
          w2 = ProcessRequiredRecoveryHandoffs E now w1;
          w3 = fold (ThinkClient E now) [0..eng_playerLimit E - 1] w2;
          w4 = with_state (PruneLatches now) w3;
          w5 = (if cv_manifest (w_cvars w4) = '''' \<and> st_currentGeneration (w_state w4) \<noteq> ''''
                then PublishManifest w4 else w4)
      in if st_activeBuild (w_state w5) \<noteq> None then w5
         else if ThinkBuildDue now (w_state w5) then StartBuild B H w5 else w5)"

definition LuaPack_Think ::
  "Bootil \<Rightarrow> Hashes \<Rightarrow> 'e Engine \<Rightarrow> 'e Host \<Rightarrow> 'e World \<Rightarrow> 'e World" where
  "LuaPack_Think B S E H w =
     (let w1 = with_state ThinkUploads (ThinkTransition E w);
          w2 = FinishBuild B S E H w1
      in if \<not> IsEnabled w2 then ThinkDisabled E w2 else ThinkEnabled B E H w2)"

end
