(* ===== verification/LuaPackSteps.thy ===== *)
theory LuaPackSteps
  imports LuaPackThink
begin

text \<open>
  Every operation of the module on its state is a sequence of a few primitive steps: a change of
  a client's fields, releasing or acquiring a pin, a capture, marking the bases native, starting,
  finishing and publishing a build, or a change that leaves clients, generations, files and builds
  alone.  An invariant of the primitive steps is then an invariant of the whole module, including
  the callbacks the engine makes while the module calls it.  The flag \<open>d\<close> says whether a
  shutdown may be among the steps.
\<close>

section \<open>Primitive steps\<close>

definition same_core :: "State \<Rightarrow> State \<Rightarrow> bool" where
  "same_core s s' \<longleftrightarrow>
     st_clients s' = st_clients s \<and> st_generations s' = st_generations s \<and>
     st_files s' = st_files s \<and> st_currentGeneration s' = st_currentGeneration s \<and>
     st_activeBuild s' = st_activeBuild s"

text \<open>What a build task may carry: normalised non-bootstrap paths with their identities.\<close>

definition record_ok :: "Hashes \<Rightarrow> string \<Rightarrow> FileRecord \<Rightarrow> bool" where
  "record_ok S path r \<longleftrightarrow>
     fr_virtualPath r = path \<and> NormalizePath path = path \<and> fr_identity r = sha256_hex S (fr_contents r)"

inductive lp_prim :: "bool \<Rightarrow> Hashes \<Rightarrow> int \<Rightarrow> State \<Rightarrow> State \<Rightarrow> bool" for d S n where
  prim_client:
    "\<lbrakk>cp_holdsPin (f (st_clients s slot)) = cp_holdsPin (st_clients s slot);
      cp_generation (f (st_clients s slot)) = cp_generation (st_clients s slot)\<rbrakk>
     \<Longrightarrow> lp_prim d S n s (upd_client slot f s)"
| prim_release: "lp_prim d S n s (ReleaseGenerationReference slot s)"
| prim_forget:
    "\<not> cp_holdsPin (st_clients s slot) \<Longrightarrow> lp_prim d S n s (upd_client slot (\<lambda>_. ClientPin_new) s)"
| prim_acquire:
    "\<lbrakk>0 \<le> slot; slot < n; \<not> cp_holdsPin (st_clients s slot); cp_holdsPin (f (st_clients s slot));
      cp_generation (f (st_clients s slot)) = g; g \<noteq> ''''; st_generations s g = Some x\<rbrakk>
     \<Longrightarrow> lp_prim d S n s (upd_generation g (\<lambda>g. g\<lparr>gen_pins := gen_pins g + 1\<rparr>) (upd_client slot f s))"
| prim_frame: "same_core s s' \<Longrightarrow> lp_prim d S n s s'"
| prim_capture:
    "record_ok S path r \<Longrightarrow>
     lp_prim d S n s (s\<lparr>st_files := (st_files s)(path \<mapsto> r),
       st_generations := (\<lambda>g. map_option (update_delta path (fr_identity r)) (st_generations s g))\<rparr>)"
| prim_disable:
    "lp_prim d S n s (s\<lparr>st_generations := (\<lambda>g. map_option (\<lambda>x. x\<lparr>gen_nativeDeltas :=
         MarkBasePathsNative (gen_nativeDeltas x) (gen_files x)\<rparr>) (st_generations s g)),
       st_files := Map.empty\<rparr>)"
| prim_start:
    "\<lbrakk>bt_files task = snapshot_files (st_files s); \<not> bt_success task\<rbrakk>
     \<Longrightarrow> lp_prim d S n s (s\<lparr>st_activeBuild := Some task\<rparr>)"
| prim_work:
    "\<lbrakk>st_activeBuild s = Some task; bt_files task' = bt_files task;
      bt_success task' \<longrightarrow> bt_complete task' \<and> bt_md5 task' \<noteq> ''''\<rbrakk>
     \<Longrightarrow> lp_prim d S n s (s\<lparr>st_activeBuild := Some task'\<rparr>)"
| prim_finish: "lp_prim d S n s (s\<lparr>st_activeBuild := None\<rparr>)"
| prim_publish:
    "\<lbrakk>st_activeBuild s = Some task; st_currentGeneration s = ''''; gen_id x \<noteq> '''' ;
      gen_files x = base_files (bt_files task);
      gen_nativeDeltas x = initial_deltas (gen_files x) (st_files s); gen_pins x = 0\<rbrakk>
     \<Longrightarrow> lp_prim d S n s (s\<lparr>st_activeBuild := None,
           st_generations := (st_generations s)(gen_id x \<mapsto> x), st_currentGeneration := gen_id x\<rparr>)"
| prim_shutdown:
    "\<lbrakk>d; st_clients s' = (\<lambda>_. ClientPin_new); st_generations s' = Map.empty; st_files s' = Map.empty;
      st_currentGeneration s' = ''''; st_activeBuild s' = None\<rbrakk> \<Longrightarrow> lp_prim d S n s s'"

abbreviation lp_prims :: "bool \<Rightarrow> Hashes \<Rightarrow> int \<Rightarrow> State \<Rightarrow> State \<Rightarrow> bool" where
  "lp_prims d S n \<equiv> (lp_prim d S n)\<^sup>*\<^sup>*"

lemma prims_refl [lp_steps]: "lp_prims d S n s s"
  by simp

lemma prims_step: "\<lbrakk>lp_prims d S n s0 s; lp_prim d S n s s'\<rbrakk> \<Longrightarrow> lp_prims d S n s0 s'"
  by (rule rtranclp.rtrancl_into_rtrancl)

lemma prims_client [lp_steps]:
  "\<lbrakk>lp_prims d S n s0 s; cp_holdsPin (f (st_clients s slot)) = cp_holdsPin (st_clients s slot);
    cp_generation (f (st_clients s slot)) = cp_generation (st_clients s slot)\<rbrakk>
   \<Longrightarrow> lp_prims d S n s0 (upd_client slot f s)"
  by (blast intro: prims_step prim_client)

lemma prims_Release [lp_steps]:
  "lp_prims d S n s0 s \<Longrightarrow> lp_prims d S n s0 (ReleaseGenerationReference slot s)"
  by (blast intro: prims_step prim_release)

lemma prims_MarkFallback [lp_steps]: "lp_prims d S n s0 s \<Longrightarrow> lp_prims d S n s0 (MarkFallback slot s)"
  unfolding MarkFallback_def by (intro prims_client prims_Release) simp_all

lemma prims_ReleasePin [lp_steps]: "lp_prims d S n s0 s \<Longrightarrow> lp_prims d S n s0 (ReleasePin slot s)"
  unfolding ReleasePin_def by (rule prims_step [OF prims_Release prim_forget]) simp_all

lemma prims_frame: "\<lbrakk>lp_prims d S n s0 s; same_core s s'\<rbrakk> \<Longrightarrow> lp_prims d S n s0 s'"
  by (blast intro: prims_step prim_frame)

lemma prims_fields [lp_steps]:
  assumes "lp_prims d S n s0 s"
  shows "lp_prims d S n s0 (s\<lparr>st_recoveryHandoffs := h\<rparr>)"
    and "lp_prims d S n s0 (s\<lparr>st_requiredRecovery := t\<rparr>)"
    and "lp_prims d S n s0 (s\<lparr>st_nativeLatches := l\<rparr>)"
    and "lp_prims d S n s0 (s\<lparr>st_nextConnectionSerial := k\<rparr>)"
    and "lp_prims d S n s0 (s\<lparr>st_bootstrapRefresh := b\<rparr>)"
    and "lp_prims d S n s0 (s\<lparr>st_registrationRefreshPending := b\<rparr>)"
    and "lp_prims d S n s0 (s\<lparr>st_buildRequested := b\<rparr>)"
    and "lp_prims d S n s0 (s\<lparr>st_uploads := u\<rparr>)"
    and "lp_prims d S n s0 (s\<lparr>st_salt := c\<rparr>)"
    and "lp_prims d S n s0 (s\<lparr>st_downloadUrlLocked := b\<rparr>)"
    and "lp_prims d S n s0 (s\<lparr>st_lockedDownloadUrl := c\<rparr>)"
    and "lp_prims d S n s0 (s\<lparr>st_featureEnabledLastFrame := b\<rparr>)"
    and "lp_prims d S n s0 (s\<lparr>st_canonicalRegistrationAvailableLastFrame := b\<rparr>)"
    and "lp_prims d S n s0 (s\<lparr>st_nextBuildAllowed := r\<rparr>)"
    and "lp_prims d S n s0 (s\<lparr>st_lastCaptureAt := r\<rparr>)"
    and "lp_prims d S n s0 (s\<lparr>st_revision := k\<rparr>)"
  by (rule prims_frame [OF assms], simp add: same_core_def)+

section \<open>Identity, epochs and lanes\<close>

lemma prims_BindResolved [lp_steps]:
  "lp_prims d S n s0 s \<Longrightarrow> lp_prims d S n s0 (snd (BindResolvedIdentity b slot s))"
  by (auto simp: BindResolvedIdentity_def Let_def intro!: prims_client split: option.splits)

lemma prims_BindAuthenticated [lp_steps]:
  "lp_prims d S n s0 (w_state w) \<Longrightarrow> lp_prims d S n s0 (w_state (snd (BindAuthenticatedIdentity E slot w)))"
  using prims_BindResolved [of d S n s0 "w_state w" "GetClientBySlot E w slot" slot]
  by (auto simp: BindAuthenticatedIdentity_def Let_def case_prod_beta intro!: prims_client
      split: option.splits)

section \<open>Pin accounting over the primitive steps\<close>

lemma pins_ok_same_core: "\<lbrakk>pins_ok n s; same_core s s'\<rbrakk> \<Longrightarrow> pins_ok n s'"
  by (simp add: same_core_def pins_ok_def holders_def)

lemma pins_ok_map_generations:
  assumes "pins_ok n s" and "\<And>g x. st_generations s g = Some x \<Longrightarrow> gen_pins (f x) = gen_pins x"
    and "st_clients s' = st_clients s" and "st_currentGeneration s' = st_currentGeneration s"
    and "st_generations s' = (\<lambda>g. map_option f (st_generations s g))"
  shows "pins_ok n s'"
proof -
  have "holders n g s' = holders n g s" for g by (simp add: holders_def assms(3))
  then show ?thesis using assms by (auto simp: pins_ok_def fun_eq_iff)
qed

lemma pins_ok_publish:
  assumes "pins_ok n s" and "st_currentGeneration s = ''''" and "gen_id x \<noteq> ''''" and "gen_pins x = 0"
    and "st_clients s' = st_clients s" and "st_generations s' = (st_generations s)(gen_id x \<mapsto> x)"
    and "st_currentGeneration s' = gen_id x"
  shows "pins_ok n s'"
proof -
  have none: "st_generations s = Map.empty" using assms(1,2) by (simp add: pins_ok_def)
  then have "\<not> cp_holdsPin (st_clients s slot)" for slot using assms(1) by (auto simp: pins_ok_def)
  then have "holders n g s' = {}" for g by (simp add: holders_def assms(5))
  then show ?thesis
    using assms none \<open>\<And>slot. \<not> cp_holdsPin (st_clients s slot)\<close> by (auto simp: pins_ok_def)
qed

lemma pins_ok_prim: "\<lbrakk>lp_prim d S n s s'; pins_ok n s\<rbrakk> \<Longrightarrow> pins_ok n s'"
proof (induction rule: lp_prim.cases)
  case (prim_forget s slot)
  then show ?case by (simp add: pins_ok_replace_unpinned ClientPin_new_def)
next
  case (prim_capture path r s)
  then show ?case
    using pins_ok_map_generations [of n s "update_delta path (fr_identity r)" s'] by (simp add: update_delta_def)
next
  case (prim_disable s)
  then show ?case
    using pins_ok_map_generations [of n s "\<lambda>x. x\<lparr>gen_nativeDeltas :=
      MarkBasePathsNative (gen_nativeDeltas x) (gen_files x)\<rparr>" s'] by simp
next
  case (prim_publish s task x)
  then show ?case using pins_ok_publish [of n s x] by simp
next
  case (prim_shutdown s' s)
  then show ?case by (simp add: pins_ok_def ClientPin_new_def)
next
  case (prim_frame s s')
  then show ?case by (simp add: pins_ok_same_core)
next
  case (prim_start task s)
  then show ?case by (simp add: pins_ok_def holders_def)
qed (simp_all add: pins_ok_upd_client pins_ok_Release pins_ok_acquire, simp_all add: pins_ok_def holders_def)

text \<open>Only a finished build with an object name can have succeeded.\<close>

definition builds_ok :: "State \<Rightarrow> bool" where
  "builds_ok s \<longleftrightarrow> (\<forall>task. st_activeBuild s = Some task \<longrightarrow>
     (bt_success task \<longrightarrow> bt_complete task \<and> bt_md5 task \<noteq> ''''))"

lemma activeBuild_frame [simp]:
  "st_activeBuild (upd_client slot f s) = st_activeBuild s"
  "st_activeBuild (upd_generation g h s) = st_activeBuild s"
  "st_activeBuild (ReleaseGenerationReference slot s) = st_activeBuild s"
  by (simp_all add: upd_client_def upd_generation_def ReleaseGenerationReference_def Let_def
      split: option.split)

lemma builds_ok_prim: "\<lbrakk>lp_prim d S n s s'; builds_ok s\<rbrakk> \<Longrightarrow> builds_ok s'"
  by (induction rule: lp_prim.cases) (auto simp: builds_ok_def same_core_def)

definition core_ok :: "int \<Rightarrow> State \<Rightarrow> bool" where
  "core_ok n s \<longleftrightarrow> pins_ok n s \<and> builds_ok s"

lemma core_ok_prims: "\<lbrakk>lp_prims d S n s s'; core_ok n s\<rbrakk> \<Longrightarrow> core_ok n s'"
  unfolding core_ok_def by (induction rule: rtranclp_induct) (auto intro: pins_ok_prim builds_ok_prim)

lemma prims_PinCurrent [lp_steps]:
  assumes "lp_prims d S (eng_playerLimit E) s0 (w_state w)" and "IsValidSlot E slot"
    and "core_ok (eng_playerLimit E) s0"
  shows "lp_prims d S (eng_playerLimit E) s0 (w_state (snd (PinCurrentGeneration E slot w)))"
proof (cases "cp_generation (st_clients (w_state w) slot) = '''' \<and>
    st_currentGeneration (w_state w) \<noteq> '''' \<and>
    st_generations (w_state w) (st_currentGeneration (w_state w)) \<noteq> None")
  case True
  then obtain x where x: "st_generations (w_state w) (st_currentGeneration (w_state w)) = Some x" by blast
  have "\<not> cp_holdsPin (st_clients (w_state w) slot)"
    using core_ok_prims [OF assms(1,3)] True by (auto simp: core_ok_def pins_ok_def)
  from prims_step [OF assms(1) prim_acquire [OF _ _ this _ _ _ x,
      of "eng_playerLimit E" "\<lambda>c. c\<lparr>cp_generation := st_currentGeneration (w_state w),
            cp_deadline := ServerTime E w + cfg_readyDeadlineSeconds (GetConfig w),
            cp_fallback := False, cp_holdsPin := True\<rparr>"]]
  show ?thesis
    using True x assms(2) by (simp add: PinCurrentGeneration_def Let_def IsValidSlot_def)
next
  case False
  then show ?thesis using assms(1) by (auto simp: PinCurrentGeneration_def Let_def split: option.splits)
qed

lemma prims_StartClientEpoch [lp_steps]:
  assumes "lp_prims d S (eng_playerLimit E) s0 (w_state w)" and "IsValidSlot E slot"
    and "core_ok (eng_playerLimit E) s0"
  shows "lp_prims d S (eng_playerLimit E) s0 (w_state (StartClientEpoch E slot w))"
  using assms
  by (auto simp: StartClientEpoch_def Let_def
      intro!: prims_PinCurrent prims_client prims_fields prims_ReleasePin split: option.splits)

section \<open>Recovery and lanes\<close>

lemma prims_ConsumeAtBaseline [lp_steps]:
  assumes "lp_prims d S (eng_playerLimit E) s0 (w_state w)" and "IsValidSlot E slot"
    and "core_ok (eng_playerLimit E) s0"
  shows "lp_prims d S (eng_playerLimit E) s0 (w_state (snd (ConsumeAtBaseline E slot b account w)))"
proof -
  let ?n = "eng_playerLimit E"
  have "lp_prims d S ?n s0 (snd (BindResolvedIdentity b slot (w_state (StartClientEpoch E slot w))))"
    using assms by (intro lp_steps)
  then show ?thesis
    by (auto simp: ConsumeAtBaseline_def Let_def case_prod_beta handler_simps intro!: lp_steps)
qed

lemma prims_BeginPending [lp_steps]:
  assumes "lp_prims d S (eng_playerLimit E) s0 (w_state w)" and "IsValidSlot E slot"
    and "core_ok (eng_playerLimit E) s0"
  shows "lp_prims d S (eng_playerLimit E) s0 (w_state (snd (BeginPendingRecoveryBaseline E slot w)))"
  using assms
  by (auto simp: BeginPendingRecoveryBaseline_def Let_def case_prod_beta set_handoff_def
      intro!: lp_steps split: list.splits)

lemma prims_ClearProven [lp_steps]:
  assumes "lp_prims d S n s0 (w_state w)"
  shows "lp_prims d S n s0 (w_state (ClearProvenRecoveryState E slot w))"
  using prims_BindAuthenticated [OF assms, of E slot] assms
  by (auto simp: ClearProvenRecoveryState_def Let_def case_prod_beta handler_simps intro!: lp_steps)

lemma prims_ResolveLane [lp_steps]:
  assumes "lp_prims d S n s0 (w_state w)"
  shows "lp_prims d S n s0 (w_state (ResolveDeliveryLane E slot w))"
  using assms
  by (auto simp: ResolveDeliveryLane_def Let_def case_prod_beta handler_simps intro!: lp_steps
      split: option.splits)

section \<open>Client handlers\<close>

lemma prims_DecideBaseline [lp_steps]:
  assumes "lp_prims d S (eng_playerLimit E) s0 (w_state w)" and "core_ok (eng_playerLimit E) s0"
  shows "lp_prims d S (eng_playerLimit E) s0 (w_state (snd (DecideBaselineForClient E slot w)))"
proof (cases "IsValidSlot E slot")
  case True
  from prims_BeginPending [OF assms(1) True assms(2)] True assms show ?thesis
    by (auto simp: DecideBaselineForClient_def Let_def case_prod_beta intro!: lp_steps split: option.splits)
qed (simp add: DecideBaselineForClient_def assms)

lemma prims_DecideFileBaseline [lp_steps]:
  "lp_prims d S n s0 (w_state w) \<Longrightarrow>
   lp_prims d S n s0 (w_state (snd (DecideFileBaselineForClient E slot path w)))"
  by (simp add: DecideFileBaselineForClient_def Let_def prims_ResolveLane)

lemma prims_RecordNativeJoin [lp_steps]:
  "lp_prims d S n s0 s \<Longrightarrow> lp_prims d S n s0 (RecordNativeJoin slot b s)"
  by (simp add: RecordNativeJoin_def prims_client)

lemma prims_RecordStub [lp_steps]:
  "lp_prims d S n s0 (w_state w) \<Longrightarrow>
   lp_prims d S n s0 (w_state (snd (RecordPinnedRequiredStubForClient E slot w)))"
  by (simp add: RecordPinnedRequiredStubForClient_def Let_def set_client_def prims_client)

lemma prims_DecideDelivery [lp_steps]:
  assumes "lp_prims d S n s0 (w_state w)"
  shows "lp_prims d S n s0 (w_state (snd (DecideDeliveryForClient E slot path b w)))"
  using prims_DecideFileBaseline [OF prims_ResolveLane [OF assms, of E slot], of E slot path] assms
  by (auto simp: DecideDeliveryForClient_def Let_def case_prod_beta intro!: lp_steps split: option.splits)

lemma prims_NeedsNativeHash [lp_steps]:
  "lp_prims d S n s0 (w_state w) \<Longrightarrow> lp_prims d S n s0 (w_state (snd (NeedsNativeHashUpdate E slot w)))"
  by (simp add: NeedsNativeHashUpdate_def Let_def prims_ResolveLane)

lemma prims_ClientConnect [lp_steps]:
  assumes "lp_prims d S (eng_playerLimit E) s0 (w_state w)" and "core_ok (eng_playerLimit E) s0"
  shows "lp_prims d S (eng_playerLimit E) s0 (w_state (snd (ClientConnect E slot w)))"
  using assms by (auto simp: ClientConnect_def Let_def set_handoff_def intro!: lp_steps)

lemma prims_ClientActive [lp_steps]:
  assumes "lp_prims d S n s0 (w_state w)"
  shows "lp_prims d S n s0 (w_state (ClientActive E slot w))"
  using assms by (auto simp: ClientActive_def Let_def set_client_def intro!: lp_steps)

lemma prims_ClientDisconnect [lp_steps]:
  assumes "lp_prims d S n s0 (w_state w)"
  shows "lp_prims d S n s0 (w_state (snd (ClientDisconnect E slot game w)))"
  using assms
  by (auto simp: ClientDisconnect_def Let_def set_handoff_def set_native_latch_def intro!: lp_steps)

lemma prims_PhysicalDisconnect [lp_steps]:
  assumes "lp_prims d S n s0 (w_state w)"
  shows "lp_prims d S n s0 (w_state (PhysicalClientDisconnect E slot steam w))"
  using assms
  by (auto simp: PhysicalClientDisconnect_def Let_def ResetHandoffsOwnedBy_def intro!: lp_steps)

text \<open>A stored record is normalised and carries the hash of its contents.\<close>

lemma NormalizePath_idem [simp]: "NormalizePath (NormalizePath p) = NormalizePath p"
proof -
  have "dropWhile P (map h (dropWhile P (map h p))) = dropWhile P (map h p)"
    if "\<And>c. h (h c) = h c" for P :: "char \<Rightarrow> bool" and h
  proof (induction p)
    case (Cons c p)
    then show ?case using that by (simp add: o_def)
  qed simp
  then show ?thesis by (simp add: NormalizePath_def)
qed

end
