(* ===== verification/LuaPackModule.thy ===== *)
theory LuaPackModule
  imports LuaPackSteps
begin

text \<open>
  The module as a state machine: its entry points are the rules of a step relation on worlds,
  interleaved with changes of the console variables and of the engine and with the worker
  threads.  The engine and the Lua hook may call back into the module; what they may call is a
  relation of its own, and the hypothesis on them is that their calls are sequences of such
  callbacks.  Reachable worlds satisfy the pin accounting, the exactness of the delta index and
  the immutability of the published base.
\<close>

section \<open>Captures and callbacks\<close>

lemma prims_Capture [lp_steps]:
  assumes "lp_prims d S n s0 (w_state w)"
  shows "lp_prims d S n s0 (w_state (CaptureFileContents S E path contents w))"
proof -
  let ?p = "NormalizePath path"
  let ?r = "\<lparr>fr_virtualPath = ?p, fr_sourcePath = ?p, fr_contents = contents,
    fr_identity = sha256_hex S contents, fr_revision = st_revision (w_state w) + 1\<rparr>"
  have "lp_prim d S n (w_state w) ((w_state w)\<lparr>st_files := (st_files (w_state w))(?p \<mapsto> ?r),
      st_generations := (\<lambda>g. map_option (update_delta ?p (fr_identity ?r)) (st_generations (w_state w) g))\<rparr>)"
    by (rule prim_capture) (simp add: record_ok_def)
  from prims_step [OF assms this] show ?thesis
    by (auto simp: CaptureFileContents_def Let_def assms same_core_def elim!: prims_frame split: option.splits)
qed

inductive lp_callback :: "Hashes \<Rightarrow> 'e Engine \<Rightarrow> 'e World \<Rightarrow> 'e World \<Rightarrow> bool" for S E where
  cb_engine: "lp_callback S E w (w\<lparr>w_engine := e\<rparr>)"
| cb_cvars: "lp_callback S E w (w\<lparr>w_cvars := v\<rparr>)"
| cb_connect: "lp_callback S E w (snd (ClientConnect E slot w))"
| cb_active: "lp_callback S E w (ClientActive E slot w)"
| cb_disconnect: "lp_callback S E w (snd (ClientDisconnect E slot game w))"
| cb_physical: "lp_callback S E w (PhysicalClientDisconnect E slot steam w)"
| cb_baseline: "lp_callback S E w (snd (DecideBaselineForClient E slot w))"
| cb_file: "lp_callback S E w (snd (DecideFileBaselineForClient E slot path w))"
| cb_delivery: "lp_callback S E w (snd (DecideDeliveryForClient E slot path b w))"
| cb_stub: "lp_callback S E w (snd (RecordPinnedRequiredStubForClient E slot w))"
| cb_hash: "lp_callback S E w (snd (NeedsNativeHashUpdate E slot w))"
| cb_reject: "lp_callback S E w (set_client slot (\<lambda>c. c\<lparr>cp_disconnectIssued := True\<rparr>) w)"
| cb_capture: "lp_callback S E w (CaptureFileContents S E path contents w)"
| cb_bootstrap: "lp_callback S E w (with_state (\<lambda>s. snd (ConsumeBootstrapRefresh s)) w)"
| cb_refreshed: "lp_callback S E w (with_state CompleteRegistrationRefresh w)"

abbreviation lp_callbacks :: "Hashes \<Rightarrow> 'e Engine \<Rightarrow> 'e World \<Rightarrow> 'e World \<Rightarrow> bool" where
  "lp_callbacks S E \<equiv> (lp_callback S E)\<^sup>*\<^sup>*"

lemma prims_callback:
  assumes "lp_callback S E w w'" and "lp_prims d S (eng_playerLimit E) s0 (w_state w)"
    and "core_ok (eng_playerLimit E) s0"
  shows "lp_prims d S (eng_playerLimit E) s0 (w_state w')"
  using assms
  by (cases rule: lp_callback.cases)
    (auto simp: set_client_def ConsumeBootstrapRefresh_def CompleteRegistrationRefresh_def intro!: lp_steps)

lemma prims_callbacks:
  assumes "lp_callbacks S E w w'" and "lp_prims d S (eng_playerLimit E) s0 (w_state w)"
    and "core_ok (eng_playerLimit E) s0"
  shows "lp_prims d S (eng_playerLimit E) s0 (w_state w')"
  using assms by (induction rule: rtranclp_induct) (auto intro: prims_callback)

text \<open>
  The hypothesis on the engine and on the Lua hook: a call of theirs changes the module only
  through its callbacks.
\<close>

definition engine_reenters :: "Hashes \<Rightarrow> 'e Engine \<Rightarrow> 'e Host \<Rightarrow> bool" where
  "engine_reenters S E H \<longleftrightarrow>
     (\<forall>slot w. lp_callbacks S E w (eng_setSendServerInfo E slot w)) \<and>
     (\<forall>slot w. lp_callbacks S E w (snd (eng_sendServerInfo E slot w))) \<and>
     (\<forall>slot w. lp_callbacks S E w (eng_reconnect E slot w)) \<and>
     (\<forall>slot m w. lp_callbacks S E w (eng_disconnect E slot m w)) \<and>
     (\<forall>g k w. lp_callbacks S E w (host_packBuiltHook H g k w))"

lemma prims_engine [lp_steps]:
  assumes "lp_prims d S (eng_playerLimit E) s0 (w_state w)" and "core_ok (eng_playerLimit E) s0"
    and "engine_reenters S E H"
  shows "lp_prims d S (eng_playerLimit E) s0 (w_state (eng_setSendServerInfo E slot w))"
    and "lp_prims d S (eng_playerLimit E) s0 (w_state (snd (eng_sendServerInfo E slot w)))"
    and "lp_prims d S (eng_playerLimit E) s0 (w_state (eng_reconnect E slot w))"
    and "lp_prims d S (eng_playerLimit E) s0 (w_state (eng_disconnect E slot m w))"
    and "lp_prims d S (eng_playerLimit E) s0 (w_state (host_packBuiltHook H g k w))"
  by (rule prims_callbacks [OF _ assms(1,2)], use assms(3) in \<open>simp add: engine_reenters_def\<close>)+

section \<open>Entry points that call the engine\<close>

lemma prims_DisconnectRequired [lp_steps]:
  assumes "lp_prims d S (eng_playerLimit E) s0 (w_state w)" and "core_ok (eng_playerLimit E) s0"
    and "engine_reenters S E H"
  shows "lp_prims d S (eng_playerLimit E) s0 (w_state (DisconnectRequiredClient E slot w))"
  using assms
  by (auto simp: DisconnectRequiredClient_def Let_def set_client_def intro!: lp_steps split: option.split)

lemma prims_HandoffSlot [lp_steps]:
  assumes "lp_prims d S (eng_playerLimit E) s0 (w_state w)" and "core_ok (eng_playerLimit E) s0"
    and "engine_reenters S E H"
  shows "lp_prims d S (eng_playerLimit E) s0 (w_state (ProcessHandoffSlot E now slot w))"
  using assms
  by (auto simp: ProcessHandoffSlot_def Let_def case_prod_beta set_handoff_def intro!: lp_steps
      split: RecoveryHandoffResult.split)

lemma prims_fold:
  assumes "\<And>x w. lp_prims d S n s0 (w_state w) \<Longrightarrow> lp_prims d S n s0 (w_state (f x w))"
    and "lp_prims d S n s0 (w_state w)"
  shows "lp_prims d S n s0 (w_state (fold f xs w))"
  using assms(2) by (induction xs arbitrary: w) (auto intro: assms(1))

lemma prims_ArmRecovery [lp_steps]:
  assumes "lp_prims d S n s0 (w_state w)"
  shows "lp_prims d S n s0 (w_state (snd (ArmRequiredRecovery E slot w)))"
  using prims_BindAuthenticated [OF assms, of E slot]
  by (auto simp: ArmRequiredRecovery_def Let_def case_prod_beta handler_simps intro!: lp_steps)

text \<open>An acknowledgement takes the pin again only on the generation the client is bound to.\<close>

lemma prims_reacquire:
  assumes "lp_prims d S n s0 s" and "0 \<le> slot" and "slot < n" and "\<not> cp_holdsPin (st_clients s slot)"
    and "cp_generation (st_clients s slot) \<noteq> ''''"
    and "st_generations s (cp_generation (st_clients s slot)) = Some x"
  shows "lp_prims d S n s0 (upd_generation (cp_generation (st_clients s slot))
    (\<lambda>g. g\<lparr>gen_pins := gen_pins g + 1\<rparr>) (upd_client slot (\<lambda>c. c\<lparr>cp_holdsPin := True\<rparr>) s))"
  by (rule prims_step [OF assms(1) prim_acquire [OF assms(2,3,4) _ _ assms(5,6)]]) simp_all

lemma prims_Ready [lp_steps]:
  assumes "lp_prims d S (eng_playerLimit E) s0 (w_state w)"
  shows "lp_prims d S (eng_playerLimit E) s0 (w_state (ReadyCommand E slot args w))"
proof (cases "IsEnabled w \<and> IsValidSlot E slot \<and> length args = 3 \<and> \<not> cp_nativeLane (client_of w slot)")
  case True
  let ?set = "\<lambda>c. c\<lparr>cp_ready := True, cp_everReady := True, cp_fallback := False, cp_nativeLatched := False\<rparr>"
  have a: "lp_prims d S (eng_playerLimit E) s0 (upd_client slot ?set (w_state w))"
    using assms by (intro prims_client) simp_all
  then have b: "lp_prims d S (eng_playerLimit E) s0 ((upd_client slot ?set (w_state w))\<lparr>st_nativeLatches := l\<rparr>)" for l
    by (rule prims_fields)
  have slot: "0 \<le> slot" "slot < eng_playerLimit E" using True by (auto simp: IsValidSlot_def)
  show ?thesis
    using True assms a b prims_reacquire [OF a slot] prims_reacquire [OF b slot]
    by (auto simp: ReadyCommand_def Let_def handler_simps intro!: prims_ClearProven prims_Release
        split: option.splits)
qed (auto simp: ReadyCommand_def assms)

lemma prims_Command [lp_steps]:
  assumes "lp_prims d S (eng_playerLimit E) s0 (w_state w)" and "core_ok (eng_playerLimit E) s0"
    and "engine_reenters S E H"
  shows "lp_prims d S (eng_playerLimit E) s0 (w_state (snd (ClientCommand E slot args w)))"
proof -
  have "lp_prims d S (eng_playerLimit E) s0 (w_state (FailedCommand E slot a w))" for a
    using assms prims_ArmRecovery [OF assms(1), of E slot]
    by (auto simp: FailedCommand_def Let_def case_prod_beta intro!: lp_steps)
  moreover have "lp_prims d S (eng_playerLimit E) s0 (w_state (UnreadyCommand E slot w))"
    using assms by (auto simp: UnreadyCommand_def Let_def handler_simps intro!: lp_steps)
  ultimately show ?thesis
    using assms by (auto simp: ClientCommand_def intro!: prims_Ready split: option.split list.split)
qed

end
