(* ===== verification/LuaPackReach.thy ===== *)
theory LuaPackReach
  imports LuaPackModule
begin

text \<open>
  The frame loop as primitive steps, the step relation of the module and its reachable worlds.
\<close>

section \<open>The frame loop\<close>

lemma prims_Transition [lp_steps]:
  assumes "lp_prims d S n s0 (w_state w)"
  shows "lp_prims d S n s0 (w_state (ThinkTransition E w))"
proof -
  have "lp_prims d S n s0 ((w_state w)\<lparr>st_generations := (\<lambda>g. map_option (\<lambda>x. x\<lparr>gen_nativeDeltas :=
      MarkBasePathsNative (gen_nativeDeltas x) (gen_files x)\<rparr>) (st_generations (w_state w) g)),
      st_files := Map.empty\<rparr>)"
    by (rule prims_step [OF assms prim_disable])
  then have disabled: "lp_prims d S n s0 s'" if "st_clients s' = st_clients (w_state w)"
    "st_generations s' = (\<lambda>g. map_option (\<lambda>x. x\<lparr>gen_nativeDeltas :=
      MarkBasePathsNative (gen_nativeDeltas x) (gen_files x)\<rparr>) (st_generations (w_state w) g))"
    "st_files s' = Map.empty" "st_currentGeneration s' = st_currentGeneration (w_state w)"
    "st_activeBuild s' = st_activeBuild (w_state w)" for s'
    by (rule prims_frame) (simp add: same_core_def that)
  show ?thesis
  proof (cases "st_featureEnabledLastFrame (w_state w) \<and> \<not> IsEnabled w")
    case True
    then show ?thesis by (simp add: ThinkTransition_def Let_def disabled)
  next
    case False
    then show ?thesis
      using assms by (auto simp: ThinkTransition_def Let_def intro!: prims_fields)
  qed
qed

lemma w_state_engine [simp]: "w_state (w\<lparr>w_engine := e\<rparr>) = w_state w"
  "w_state (with_engine f w) = w_state w" "w_state (set_manifest v w) = w_state w"
  by (simp_all add: with_engine_def set_manifest_def)

lemma prims_Coordinate [lp_steps]:
  "lp_prims d S n s0 (w_state w) \<Longrightarrow> lp_prims d S n s0 (w_state (snd (CoordinateDownloadUrl H w)))"
  by (auto simp: CoordinateDownloadUrl_def Let_def intro!: prims_fields split: option.split)

lemma w_state_Publish [simp]: "w_state (PublishManifest w) = w_state w"
  by (simp add: PublishManifest_def Let_def split: option.split)

lemma w_state_Housekeep [simp]: "w_state (snd (HousekeepObjects H w)) = w_state w"
  by (simp add: HousekeepObjects_def Let_def case_prod_beta)

lemma prims_retry [lp_steps]:
  "lp_prims d S n s0 (w_state w) \<Longrightarrow> lp_prims d S n s0 (w_state (retryBaseBuild E delay w))"
  by (auto simp: retryBaseBuild_def intro!: prims_fields)

lemma prims_Ingest [lp_steps]:
  "lp_prims d S n s0 (w_state w) \<Longrightarrow> lp_prims d S n s0 (w_state (QueueIngest b g w))"
  by (auto simp: QueueIngest_def Let_def intro!: prims_fields)

text \<open>Coordination of the download URL leaves the registry, the clients and the builds alone.\<close>

lemma Coordinate_core: "same_core (w_state w) (w_state (snd (CoordinateDownloadUrl H w)))"
  by (simp add: CoordinateDownloadUrl_def Let_def same_core_def split: option.split)

lemma prims_finished:
  assumes "lp_prims d S n s0 s" and "st_activeBuild s = Some task" and "same_core (s\<lparr>st_activeBuild := None\<rparr>) s'"
  shows "lp_prims d S n s0 s'"
  by (rule prims_frame [OF prims_step [OF assms(1) prim_finish] assms(3)])

lemma prims_published:
  assumes "lp_prims d S n s0 s" and "st_activeBuild s = Some task" and "st_currentGeneration s = ''''"
    and "same_core (s\<lparr>st_activeBuild := None\<rparr>) s'"
    and "gen_id x \<noteq> ''''" and "gen_files x = base_files (bt_files task)"
    and "gen_nativeDeltas x = initial_deltas (gen_files x) (st_files s)" and "gen_pins x = 0"
    and "s'' = s'\<lparr>st_generations := (st_generations s')(gen_id x \<mapsto> x),
           st_currentGeneration := gen_id x, st_buildRequested := False\<rparr>"
  shows "lp_prims d S n s0 s''"
proof -
  from prims_step [OF assms(1) prim_publish [OF assms(2,3,5-8)]]
  show ?thesis by (rule prims_frame) (use assms(4,9) in \<open>simp add: same_core_def\<close>)
qed

lemma prims_PublishBuild:
  assumes prims: "lp_prims d S (eng_playerLimit E) s0 s" and ok: "core_ok (eng_playerLimit E) s0"
    and eng: "engine_reenters S E H" and build: "st_activeBuild s = Some task" "bt_success task"
    and current: "st_currentGeneration s = ''''"
    and core: "same_core (s\<lparr>st_activeBuild := None\<rparr>) (w_state w)"
  shows "lp_prims d S (eng_playerLimit E) s0 (w_state (PublishBuild B S E H task w))"
proof -
  let ?n = "eng_playerLimit E"
  let ?w1 = "w\<lparr>w_engine := snd (WriteImmutableObject H task (w_engine w))\<rparr>"
  let ?w2 = "snd (CoordinateDownloadUrl H ?w1)"
  have core2: "same_core (s\<lparr>st_activeBuild := None\<rparr>) (w_state ?w2)"
    using core Coordinate_core [of ?w1 H] by (simp add: same_core_def)
  have p1: "lp_prims d S ?n s0 (w_state w)" by (rule prims_finished [OF prims build(1) core])
  have p2: "lp_prims d S ?n s0 (w_state ?w2)" by (rule prims_finished [OF prims build(1) core2])
  have md5: "bt_md5 task \<noteq> ''''"
    using core_ok_prims [OF prims ok] build by (auto simp: core_ok_def builds_ok_def)
  have files: "st_files (w_state ?w2) = st_files s" using core2 by (simp add: same_core_def)
  have pub: "lp_prims d S ?n s0 (w_state ?w2\<lparr>st_generations := (st_generations (w_state ?w2))(gen_id x \<mapsto> x),
      st_currentGeneration := gen_id x, st_buildRequested := False\<rparr>)"
    if "x = NewGeneration B S task path now (st_files (w_state ?w2))" for x path now
    by (rule prims_published [OF prims build(1) current core2 _ _ _ _ refl])
      (use md5 files in \<open>simp_all add: that NewGeneration_def Let_def\<close>)
  show ?thesis
    using p1 p2 ok eng pub [OF refl]
    by (auto simp: PublishBuild_def Let_def case_prod_beta NotifyPackBuilt_def
        intro!: prims_retry prims_fields prims_Ingest prims_engine split: DownloadableRegistration.split)
qed

lemma prims_FinishBuild [lp_steps]:
  assumes prims: "lp_prims d S (eng_playerLimit E) s0 (w_state w)" and ok: "core_ok (eng_playerLimit E) s0"
    and eng: "engine_reenters S E H"
  shows "lp_prims d S (eng_playerLimit E) s0 (w_state (FinishBuild B S E H w))"
proof (cases "st_activeBuild (w_state w)")
  case (Some task)
  let ?w = "with_state (\<lambda>s. s\<lparr>st_activeBuild := None, st_nextBuildAllowed := ServerTime E w + 5\<rparr>) w"
  have core: "same_core (w_state w\<lparr>st_activeBuild := None\<rparr>) (w_state ?w)" by (simp add: same_core_def)
  have p: "lp_prims d S (eng_playerLimit E) s0 (w_state ?w)" by (rule prims_finished [OF prims Some core])
  show ?thesis
    using prims p Some prims_PublishBuild [OF prims ok eng Some _ _ core]
    by (auto simp: FinishBuild_def Let_def intro!: prims_retry)
qed (simp add: FinishBuild_def prims)

lemma prims_ReleaseAll [lp_steps]:
  assumes "lp_prims d S n s0 s"
  shows "lp_prims d S n s0 (ReleaseAllPins m s)"
proof -
  have "lp_prims d S n s0 (fold (\<lambda>slot s. if cp_generation (st_clients s slot) \<noteq> '''' then ReleasePin slot s else s) xs s)"
    for xs using assms by (induction xs arbitrary: s) (auto intro: prims_ReleasePin)
  then show ?thesis by (simp add: ReleaseAllPins_def)
qed

lemma prims_ThinkDisabled [lp_steps]:
  "lp_prims d S n s0 (w_state w) \<Longrightarrow> lp_prims d S n s0 (w_state (ThinkDisabled E w))"
  by (auto simp: ThinkDisabled_def Let_def intro!: prims_fields prims_ReleaseAll)

lemma prims_ThinkClient [lp_steps]:
  assumes "lp_prims d S (eng_playerLimit E) s0 (w_state w)" and "core_ok (eng_playerLimit E) s0"
    and "engine_reenters S E H"
  shows "lp_prims d S (eng_playerLimit E) s0 (w_state (ThinkClient E now slot w))"
  using assms by (auto simp: ThinkClient_def Let_def intro!: lp_steps)

lemma prims_StartBuild [lp_steps]:
  assumes "lp_prims d S n s0 (w_state w)"
  shows "lp_prims d S n s0 (w_state (StartBuild B H w))"
proof -
  have start: "lp_prims d S n s0 (s\<lparr>st_activeBuild := Some task\<rparr>)"
    if "lp_prims d S n s0 s" "bt_files task = snapshot_files (st_files s)" "\<not> bt_success task" for s task
    by (rule prims_step [OF that(1) prim_start [OF that(2,3)]])
  show ?thesis
    using assms by (auto simp: StartBuild_def Let_def case_prod_beta intro!: start prims_fields)
qed

lemma prims_ThinkEnabled [lp_steps]:
  assumes "lp_prims d S (eng_playerLimit E) s0 (w_state w)" and "core_ok (eng_playerLimit E) s0"
    and "engine_reenters S E H"
  shows "lp_prims d S (eng_playerLimit E) s0 (w_state (ThinkEnabled B E H w))"
proof -
  let ?n = "eng_playerLimit E"
  let ?w1 = "snd (CoordinateDownloadUrl H w)"
  let ?now = "ServerTime E ?w1"
  let ?w2 = "ProcessRequiredRecoveryHandoffs E ?now ?w1"
  have "lp_prims d S ?n s0 (w_state ?w2)"
    unfolding ProcessRequiredRecoveryHandoffs_def
    by (rule prims_fold) (use assms in \<open>auto intro: prims_HandoffSlot prims_Coordinate\<close>)
  then have p: "lp_prims d S ?n s0 (w_state (fold (ThinkClient E ?now) [0..eng_playerLimit E - 1] ?w2))"
    by (intro prims_fold) (use assms in \<open>auto intro: prims_ThinkClient\<close>)
  show ?thesis
    using p by (auto simp: ThinkEnabled_def Let_def PruneLatches_def intro!: prims_fields prims_StartBuild)
qed

lemma prims_Think [lp_steps]:
  assumes "lp_prims d S (eng_playerLimit E) s0 (w_state w)" and "core_ok (eng_playerLimit E) s0"
    and "engine_reenters S E H"
  shows "lp_prims d S (eng_playerLimit E) s0 (w_state (LuaPack_Think B S E H w))"
proof -
  have "lp_prims d S (eng_playerLimit E) s0 (w_state (with_state ThinkUploads (ThinkTransition E w)))"
    using prims_Transition [OF assms(1), of E] by (auto simp: ThinkUploads_def intro!: prims_fields)
  from prims_FinishBuild [OF this assms(2,3), of B] show ?thesis
    using assms by (auto simp: LuaPack_Think_def Let_def intro!: prims_ThinkDisabled prims_ThinkEnabled)
qed

section \<open>Workers, start and stop\<close>

text \<open>Bootil's documented MD5 of a buffer: 32 hexadecimal digits.\<close>

definition md5_object_names :: "Bootil \<Rightarrow> bool" where
  "md5_object_names B \<longleftrightarrow> (\<forall>bytes. length (MD5_Easy B bytes) = 32 \<and> list_all is_hex (MD5_Easy B bytes))"

lemma BuildPack_result:
  assumes "md5_object_names B" and "\<not> bt_success task"
  shows "bt_files (BuildPack B task) = bt_files task \<and>
    (bt_success (BuildPack B task) \<longrightarrow> bt_complete (BuildPack B task) \<and> bt_md5 (BuildPack B task) \<noteq> '''')"
proof -
  have "MD5_Easy B x \<noteq> ''''" for x
  proof -
    have "length (MD5_Easy B x) = 32" using assms(1) by (simp add: md5_object_names_def)
    then show ?thesis by auto
  qed
  then show ?thesis
    using assms(2) by (auto simp: BuildPack_def Let_def split: sum.split option.split prod.split)
qed

lemma prims_BuildWorker [lp_steps]:
  assumes "lp_prims d S n s0 (w_state w)" and "core_ok n s0" and "md5_object_names B"
  shows "lp_prims d S n s0 (w_state (BuildWorker B w))"
proof (cases "st_activeBuild (w_state w)")
  case (Some task)
  show ?thesis
  proof (cases "bt_complete task")
    case True
    then have "w_state (BuildWorker B w) = w_state w" using Some by (simp add: BuildWorker_def)
    then show ?thesis using assms by simp
  next
    case False
    then have "\<not> bt_success task"
      using core_ok_prims [OF assms(1,2)] Some by (auto simp: core_ok_def builds_ok_def)
    then have r: "bt_files (BuildPack B task) = bt_files task"
      "bt_success (BuildPack B task) \<longrightarrow> bt_complete (BuildPack B task) \<and> bt_md5 (BuildPack B task) \<noteq> ''''"
      using BuildPack_result [OF assms(3)] by auto
    show ?thesis
      using prims_step [OF assms(1) prim_work [OF Some r]] False Some by (simp add: BuildWorker_def)
  qed
next
  case None
  then have "w_state (BuildWorker B w) = w_state w" by (simp add: BuildWorker_def)
  then show ?thesis using assms by simp
qed

lemma prims_Shutdown [lp_steps]:
  assumes "lp_prims True S n s0 (w_state w)"
  shows "lp_prims True S n s0 (w_state (LuaPack_Shutdown w))"
  by (rule prims_step [OF assms prim_shutdown]) (simp_all add: LuaPack_Shutdown_def)

section \<open>Steps and reachable worlds\<close>

text \<open>The state the module is loaded with.\<close>

definition State_new :: State where
  "State_new =
     \<lparr>st_files = Map.empty, st_revision = 0, st_buildRequested = False, st_activeBuild = None,
      st_uploads = [], st_generations = Map.empty, st_currentGeneration = '''', st_salt = '''',
      st_lockedDownloadUrl = '''', st_downloadUrlLocked = False, st_clients = (\<lambda>_. ClientPin_new),
      st_nativeLatches = Map.empty, st_requiredRecovery = RequiredRecoveryTracker_new,
      st_recoveryHandoffs = (\<lambda>_. RequiredRecoveryHandoff_new), st_nextConnectionSerial = 0,
      st_featureEnabledLastFrame = False, st_canonicalRegistrationAvailableLastFrame = False,
      st_bootstrapRefresh = False, st_registrationRefreshPending = False,
      st_lastCaptureAt = 0, st_nextBuildAllowed = 0\<rparr>"

inductive lp_step ::
  "Bootil \<Rightarrow> Hashes \<Rightarrow> 'e Engine \<Rightarrow> 'e Host \<Rightarrow> 'e World \<Rightarrow> 'e World \<Rightarrow> bool" for B S E H where
  step_callback: "lp_callback S E w w' \<Longrightarrow> lp_step B S E H w w'"
| step_command: "lp_step B S E H w (snd (ClientCommand E slot args w))"
| step_think: "lp_step B S E H w (LuaPack_Think B S E H w)"
| step_build: "lp_step B S E H w (BuildWorker B w)"
| step_upload: "lp_step B S E H w (UploadWorker H w)"
| step_init: "lp_step B S E H w (LuaPack_Init w)"
| step_reject: "lp_step B S E H w (DisconnectRequiredClient E slot w)"
| step_shutdown: "lp_step B S E H w (LuaPack_Shutdown w)"

inductive lp_reach ::
  "Bootil \<Rightarrow> Hashes \<Rightarrow> 'e Engine \<Rightarrow> 'e Host \<Rightarrow> 'e World \<Rightarrow> bool" for B S E H where
  reach_start: "w_state w = State_new \<Longrightarrow> lp_reach B S E H w"
| reach_step: "\<lbrakk>lp_reach B S E H w; lp_step B S E H w w'\<rbrakk> \<Longrightarrow> lp_reach B S E H w'"

lemma prims_lp_step:
  assumes "lp_step B S E H w w'" and "lp_prims d S (eng_playerLimit E) s0 (w_state w)"
    and "core_ok (eng_playerLimit E) s0" and "engine_reenters S E H" and "md5_object_names B"
    and "d \<or> w' \<noteq> LuaPack_Shutdown w"
  shows "lp_prims d S (eng_playerLimit E) s0 (w_state w')"
  using assms
proof (cases rule: lp_step.cases)
  case step_callback
  then show ?thesis using assms prims_callback by blast
next
  case step_init
  then show ?thesis using assms(2) by (auto simp: LuaPack_Init_def intro!: prims_fields)
next
  case step_upload
  then show ?thesis using assms(2) by (auto simp: UploadWorker_def intro!: prims_fields)
next
  case step_shutdown
  then show ?thesis using assms by (cases d) (auto intro: prims_Shutdown)
qed (use assms in \<open>auto intro: prims_Command prims_Think prims_BuildWorker prims_DisconnectRequired\<close>)

text \<open>
  The induction rule the invariants use: an invariant of the primitive steps, given that the
  pin accounting holds, is an invariant of the module.
\<close>

definition platform_ok :: "Bootil \<Rightarrow> Hashes \<Rightarrow> 'e Engine \<Rightarrow> 'e Host \<Rightarrow> bool" where
  "platform_ok B S E H \<longleftrightarrow>
     0 \<le> eng_playerLimit E \<and> eng_playerLimit E < 2 ^ 31 \<and> md5_object_names B \<and> engine_reenters S E H"

lemma core_ok_new: "0 \<le> n \<Longrightarrow> n < 2 ^ 31 \<Longrightarrow> core_ok n State_new"
  by (simp add: core_ok_def pins_ok_def builds_ok_def State_new_def ClientPin_new_def holders_def)

lemma reach_prims:
  assumes "lp_reach B S E H w" and "platform_ok B S E H"
  shows "lp_prims True S (eng_playerLimit E) State_new (w_state w)"
  using assms
proof (induction rule: lp_reach.induct)
  case (reach_step w w')
  then show ?case
    using prims_lp_step core_ok_new unfolding platform_ok_def by blast
qed simp

lemma reach_invariant:
  assumes "lp_reach B S E H w" and "platform_ok B S E H" and "I State_new"
    and "\<And>s s'. \<lbrakk>lp_prim True S (eng_playerLimit E) s s'; core_ok (eng_playerLimit E) s; I s\<rbrakk> \<Longrightarrow> I s'"
  shows "I (w_state w) \<and> core_ok (eng_playerLimit E) (w_state w)"
proof -
  have "core_ok (eng_playerLimit E) State_new"
    using assms(2) core_ok_new by (simp add: platform_ok_def)
  with reach_prims [OF assms(1,2)] assms(3) show ?thesis
    by (induction rule: rtranclp_induct)
      (auto intro: assms(4) pins_ok_prim builds_ok_prim simp: core_ok_def)
qed

end
