(* ===== verification/LuaPackDemo.thy ===== *)
theory LuaPackDemo
  imports LuaPackReach
begin

text \<open>
  A concrete platform and a run on it, for the witnesses: one player slot, a clock that is the
  engine's whole state, an engine without callbacks, and hash functions of the documented shape.
  The run registers one file, builds and publishes the map base and admits one client on the
  required lane.
\<close>

definition demo_bootil :: Bootil where
  "demo_bootil = \<lparr>MD5_String = (\<lambda>_. replicate 32 CHR ''a''), MD5_Easy = (\<lambda>_. replicate 32 CHR ''a''),
     LZMA_Compress = Some\<rparr>"

definition demo_hashes :: Hashes where
  "demo_hashes = \<lparr>sha256_hex = (\<lambda>s. s), sha256_bytes = (\<lambda>b. b)\<rparr>"

definition demo_client :: BaseClient where
  "demo_client = \<lparr>bc_steamIDValid = True, bc_steamID64 = 7, bc_fullyAuthenticated = True,
     bc_connected = True, bc_netChannel = True, bc_signonState = 2, bc_sendServerInfo = False,
     bc_networkIDString = Some ''STEAM'', bc_userSetting = (\<lambda>_. None)\<rparr>"

definition demo_engine :: "real Engine" where
  "demo_engine = \<lparr>eng_playerLimit = 1, eng_signonConnected = 2, eng_time = (\<lambda>e. e),
     eng_clientBySlot = (\<lambda>e slot. Some demo_client), eng_supportsCanonical = (\<lambda>_. True),
     eng_fileExists = (\<lambda>_ _. True), eng_setSendServerInfo = (\<lambda>_ w. w),
     eng_sendServerInfo = (\<lambda>_ w. (True, w)), eng_reconnect = (\<lambda>_ w. w),
     eng_disconnect = (\<lambda>_ _ w. w)\<rparr>"

definition demo_host :: "real Host" where
  "demo_host = \<lparr>host_createDir = (\<lambda>_ e. e), host_readFile = (\<lambda>_ _. Some (1, ''s'')),
     host_writeFile = (\<lambda>_ b e. (Some (int (length b)), e)), host_rename = (\<lambda>_ _ e. (True, e)),
     host_remove = (\<lambda>_ e. e), host_exists = (\<lambda>_ _. True), host_findFiles = (\<lambda>_ _. []),
     host_fileTime = (\<lambda>_ _. 0), host_size = (\<lambda>_ _. 0), host_time = (\<lambda>_. 0),
     host_entropy = (\<lambda>_ _. ''''), host_downloadUrl = (\<lambda>_. Some ''''),
     host_setDownloadUrl = (\<lambda>_ e. e), host_downloadables = (\<lambda>_. Some []),
     host_addString = (\<lambda>_ e. (True, e)), host_packBuiltHook = (\<lambda>_ _ w. w),
     host_httpSend = (\<lambda>_ _. Inl '''')\<rparr>"

definition demo_cvars :: ConVars where
  "demo_cvars = \<lparr>cv_enable = True, cv_packdir = ''p'', cv_downloadurl_policy = ''respect'',
     cv_ingest_url = '''', cv_ingest_method = ''PUT'', cv_downloadable_limit = 1,
     cv_retention_ttl = 300, cv_object_retention_ttl = 0, cv_ready_deadline = 180,
     cv_required = True, cv_allow_optout = True, cv_required_recovery = True,
     cv_required_recovery_ttl = 120, cv_optimistic = False, cv_optimistic_prefix_files = 0,
     cv_optimistic_prefix_bytes = 0, cv_unready_ttl = 900, cv_manifest = ''''\<rparr>"

lemma demo_platform: "platform_ok demo_bootil demo_hashes demo_engine demo_host"
  by (simp add: platform_ok_def demo_bootil_def demo_engine_def demo_host_def md5_object_names_def
      engine_reenters_def is_hex_def hex_digit_def list_all_iff)

definition demo_start :: "real World" where
  "demo_start = \<lparr>w_state = State_new, w_cvars = demo_cvars, w_engine = 0\<rparr>"

definition demo_captured :: "real World" where
  "demo_captured = CaptureFileContents demo_hashes demo_engine ''a.lua'' ''x'' demo_start"

definition demo_registered :: "real World" where
  "demo_registered = with_state CompleteRegistrationRefresh (with_state (\<lambda>s. snd (ConsumeBootstrapRefresh s))
     (LuaPack_Think demo_bootil demo_hashes demo_engine demo_host demo_captured))"

definition demo_building :: "real World" where
  "demo_building = LuaPack_Think demo_bootil demo_hashes demo_engine demo_host
     (demo_registered\<lparr>w_engine := 10\<rparr>)"

definition demo_published :: "real World" where
  "demo_published = LuaPack_Think demo_bootil demo_hashes demo_engine demo_host (BuildWorker demo_bootil demo_building)"

definition demo_admitted :: "real World" where
  "demo_admitted = snd (DecideBaselineForClient demo_engine 0 demo_published)"

lemmas demo_defs = demo_bootil_def demo_hashes_def demo_client_def demo_engine_def demo_host_def demo_cvars_def

lemma demo_reach: "lp_reach demo_bootil demo_hashes demo_engine demo_host demo_admitted"
proof -
  note step = reach_step [OF _ step_callback]
  have "lp_reach demo_bootil demo_hashes demo_engine demo_host demo_start"
    by (rule reach_start) (simp add: demo_start_def)
  then have "lp_reach demo_bootil demo_hashes demo_engine demo_host demo_captured"
    unfolding demo_captured_def by (rule step [OF _ cb_capture])
  then have "lp_reach demo_bootil demo_hashes demo_engine demo_host demo_registered"
    unfolding demo_registered_def by (intro step [OF _ cb_refreshed] step [OF _ cb_bootstrap] reach_step [OF _ step_think])
  then have "lp_reach demo_bootil demo_hashes demo_engine demo_host demo_building"
    unfolding demo_building_def by (intro step [OF _ cb_engine] reach_step [OF _ step_think])
  then have "lp_reach demo_bootil demo_hashes demo_engine demo_host demo_published"
    unfolding demo_published_def by (intro reach_step [OF _ step_think] reach_step [OF _ step_build])
  then show ?thesis
    unfolding demo_admitted_def by (rule step [OF _ cb_baseline])
qed

definition demo_file :: FileRecord where
  "demo_file = \<lparr>fr_virtualPath = ''a.lua'', fr_sourcePath = ''a.lua'', fr_contents = ''x'',
     fr_identity = ''x'', fr_revision = 1\<rparr>"

lemmas demo_eval = demo_defs IsEnabled_def GetConfig_def RefreshConfig_def with_state_def State_new_def
  ServerTime_def SupportsCanonicalRegistration_def UsesCanonicalRegistration_def Let_def fun_eq_iff

lemma demo_captured_eq:
  "demo_captured = \<lparr>w_state = State_new\<lparr>st_revision := 1,
     st_files := [''a.lua'' \<mapsto> demo_file], st_buildRequested := True\<rparr>, w_cvars = demo_cvars, w_engine = 0\<rparr>"
  by (simp add: demo_captured_def demo_start_def CaptureFileContents_def demo_eval NormalizePath_def
      demo_file_def)

lemmas think_eval = LuaPack_Think_def ThinkTransition_def ThinkUploads_def FinishBuild_def ThinkEnabled_def
  CoordinateDownloadUrl_def ProcessRequiredRecoveryHandoffs_def ProcessHandoffSlot_def handoff_of_def
  RequiredRecoveryHandoff_Pending_def RequiredRecoveryHandoff_new_def ThinkClient_def
  ClearProvenRecoveryState_def client_of_def PruneLatches_def ThinkBuildDue_def ShouldBuildMapBase_def
  stricmp_eq_def ascii_lower_def RequiredRecoveryTracker_Prune_def RequiredRecoveryTracker_new_def
  ClientPin_new_def

lemma demo_registered_eq:
  "demo_registered = \<lparr>w_state = State_new\<lparr>st_revision := 1,
     st_files := [''a.lua'' \<mapsto> demo_file], st_buildRequested := True, st_featureEnabledLastFrame := True,
     st_canonicalRegistrationAvailableLastFrame := True\<rparr>, w_cvars = demo_cvars, w_engine = 0\<rparr>"
  unfolding demo_registered_def demo_captured_eq
  by (simp add: think_eval demo_eval CompleteRegistrationRefresh_def ConsumeBootstrapRefresh_def upto.simps)

lemma demo_not_init: "\<not> IsInitFile ''a.lua''"
  by (simp add: IsInitFile_def LocalKeyFormTwo_def NormalizePath_def StripAddonPrefix_def StartsWith_def)

lemma demo_snapshot: "snapshot_files [''a.lua'' \<mapsto> demo_file] = [demo_file]"
  by (simp add: snapshot_files_def demo_not_init)

definition demo_task :: BuildTask where
  "demo_task = \<lparr>bt_files = [demo_file], bt_packDirectory = ''p'', bt_salt = ''s'',
     bt_sourceRevision = 1, bt_uncompressed = [], bt_compressed = [], bt_md5 = '''', bt_error = '''',
     bt_complete = False, bt_success = False\<rparr>"

lemma demo_salt: "ReadOrCreateSalt demo_bootil demo_host ''p'' 10 = (''s'', 10)"
  by (simp add: ReadOrCreateSalt_def demo_defs Let_def)

lemma demo_building_eq:
  "demo_building = \<lparr>w_state = State_new\<lparr>st_revision := 1,
     st_files := [''a.lua'' \<mapsto> demo_file], st_activeBuild := Some demo_task, st_salt := ''s'',
     st_featureEnabledLastFrame := True,
     st_canonicalRegistrationAvailableLastFrame := True\<rparr>, w_cvars = demo_cvars, w_engine = 10\<rparr>"
proof -
  have "StartBuild demo_bootil demo_host w = with_state (\<lambda>s. s\<lparr>st_activeBuild := Some demo_task,
      st_salt := ''s'', st_buildRequested := False\<rparr>) w"
    if "st_currentGeneration (w_state w) = ''''" "st_files (w_state w) = [''a.lua'' \<mapsto> demo_file]"
      "st_salt (w_state w) = ''''" "w_engine w = 10" "w_cvars w = demo_cvars" "st_revision (w_state w) = 1" for w
    using that by (cases w) (simp add: StartBuild_def Let_def demo_snapshot demo_salt with_state_def
        GetConfig_def RefreshConfig_def demo_cvars_def demo_task_def)
  then show ?thesis
    unfolding demo_building_def demo_registered_eq
    by (simp add: think_eval demo_eval upto.simps)
qed

definition demo_path :: string where
  "demo_path = ''data/p/'' @ replicate 32 CHR ''a'' @ ''.bsp''"

definition demo_base :: Generation where
  "demo_base = NewGeneration demo_bootil demo_hashes (BuildPack demo_bootil demo_task)
     demo_path 10 [''a.lua'' \<mapsto> demo_file]"

lemma demo_pack: "bt_success (BuildPack demo_bootil demo_task) \<and> bt_complete (BuildPack demo_bootil demo_task) \<and>
    bt_md5 (BuildPack demo_bootil demo_task) = replicate 32 CHR ''a'' \<and>
    bt_salt (BuildPack demo_bootil demo_task) = ''s'' \<and> bt_packDirectory (BuildPack demo_bootil demo_task) = ''p'' \<and>
    bt_files (BuildPack demo_bootil demo_task) = [demo_file]"
proof -
  have m: "md5_hex demo_bootil"
    by (simp add: md5_hex_def demo_bootil_def is_hex_def hex_digit_def list_all_iff)
  have u: "u32_files (bt_files demo_task)"
    by (simp add: u32_files_def UINT_MAX_def demo_task_def demo_file_def)
  have n: "bt_uncompressed demo_task = []" by (simp add: demo_task_def)
  show ?thesis
    by (simp add: BuildPack_written [OF m u n] Let_def) (simp add: demo_task_def demo_bootil_def ascii_lower_def)
qed

lemma demo_stub: "BuildCompressedStub demo_bootil demo_hashes \<noteq> None"
  by (simp add: BuildCompressedStub_def demo_bootil_def Let_def)

lemma demo_object: "WriteImmutableObject demo_host (BuildPack demo_bootil demo_task) e =
    ((True, demo_path), e)"
  by (simp add: WriteImmutableObject_def demo_pack Let_def DataDirectory_def demo_host_def demo_path_def)

lemma demo_base_fields:
  "gen_id demo_base = replicate 32 CHR ''a'' \<and> gen_md5 demo_base = replicate 32 CHR ''a'' \<and>
   gen_salt demo_base = ''s'' \<and> gen_engineDownloadable demo_base \<and>
   gen_compressedStub demo_base \<noteq> None \<and> gen_compressedRequiredStub demo_base \<noteq> None \<and>
   gen_resourcePath demo_base = demo_path \<and>
   gen_files demo_base = [''a.lua'' \<mapsto> ''x''] \<and> gen_nativeDeltas demo_base = {} \<and> gen_pins demo_base = 0"
  using demo_stub
  by (simp add: demo_base_def NewGeneration_def demo_pack Let_def base_files_def demo_file_def
      NormalizePath_def initial_deltas_def IsNativeDelta_def UpdateNativeDeltaIndex_def)

definition demo_published_state :: State where
  "demo_published_state = State_new\<lparr>st_revision := 1,
     st_files := [''a.lua'' \<mapsto> demo_file], st_salt := ''s'',
     st_generations := [replicate 32 CHR ''a'' \<mapsto> demo_base],
     st_currentGeneration := replicate 32 CHR ''a'', st_nextBuildAllowed := 15,
     st_featureEnabledLastFrame := True, st_canonicalRegistrationAvailableLastFrame := True\<rparr>"

definition demo_world :: "State \<Rightarrow> real World \<Rightarrow> bool" where
  "demo_world s w \<longleftrightarrow>
     w_state w = s \<and> w_engine w = 10 \<and> (\<exists>m. w_cvars w = demo_cvars\<lparr>cv_manifest := m\<rparr>)"

lemma demo_world_manifest: "demo_world s w \<Longrightarrow> demo_world s (PublishManifest w)"
  by (cases w) (auto simp: demo_world_def PublishManifest_def set_manifest_def Let_def split: option.split)

lemma demo_world_config:
  assumes "demo_world s w"
  shows "IsEnabled w \<and> cfg_packDirectory (GetConfig w) = ''p'' \<and> cfg_downloadUrlPolicy (GetConfig w) = ''respect'' \<and>
    cfg_ingestUrl (GetConfig w) = '''' \<and> cfg_objectRetentionSeconds (GetConfig w) = 0 \<and>
    cfg_downloadableLimit (GetConfig w) = 1 \<and> cfg_requiredStubbing (GetConfig w) \<and>
    cfg_allowOptOut (GetConfig w) \<and> cfg_requiredRecovery (GetConfig w) \<and>
    cfg_requiredRecoveryTtlSeconds (GetConfig w) = 120 \<and> ServerTime demo_engine w = 10"
  using assms by (auto simp: demo_world_def GetConfig_def RefreshConfig_def IsEnabled_def demo_cvars_def
      ServerTime_def demo_engine_def)

lemma demo_coordinate:
  assumes "demo_world s w"
  shows "CoordinateDownloadUrl demo_host w = (True, w)"
  using demo_world_config [OF assms]
  by (simp add: CoordinateDownloadUrl_def Let_def demo_host_def stricmp_eq_def ascii_lower_def)

lemma demo_publish:
  assumes "demo_world s w" and "st_files s = [''a.lua'' \<mapsto> demo_file]"
  shows "demo_world (s\<lparr>st_generations := (st_generations s)(replicate 32 CHR ''a'' \<mapsto> demo_base),
      st_currentGeneration := replicate 32 CHR ''a'', st_buildRequested := False\<rparr>)
    (PublishBuild demo_bootil demo_hashes demo_engine demo_host (BuildPack demo_bootil demo_task) w)"
proof -
  let ?w = "with_state (\<lambda>s. s\<lparr>st_generations := (st_generations s)(replicate 32 CHR ''a'' \<mapsto> demo_base),
      st_currentGeneration := replicate 32 CHR ''a'', st_buildRequested := False\<rparr>) w"
  have w: "w\<lparr>w_engine := w_engine w\<rparr> = w" "w_state w = s" using assms(1) by (simp_all add: demo_world_def)
  note c = demo_world_config [OF assms(1)]
  have reg: "RegisterDownloadable demo_host path ''p'' 1 e = (DrRegistered, e)" for path e
    by (simp add: RegisterDownloadable_def RegisteredPackObjectCount_def demo_host_def)
  have gen: "NewGeneration demo_bootil demo_hashes (BuildPack demo_bootil demo_task)
      demo_path 10 (st_files s) = demo_base"
    by (simp add: demo_base_def assms(2))
  have world: "demo_world (w_state ?w) (PublishManifest ?w)"
    by (rule demo_world_manifest) (use assms(1) in \<open>simp add: demo_world_def\<close>)
  have house: "snd (HousekeepObjects demo_host v) = v" if "demo_world t v" for t v
    using demo_world_config [OF that] by (simp add: HousekeepObjects_def Let_def)
  have notify: "NotifyPackBuilt demo_host b g v = v" if "demo_world t v" for t v b g
    using demo_world_config [OF that] by (simp add: NotifyPackBuilt_def QueueIngest_def Let_def demo_host_def)
  have "PublishBuild demo_bootil demo_hashes demo_engine demo_host (BuildPack demo_bootil demo_task) w = PublishManifest ?w"
    using demo_base_fields
    by (auto simp: PublishBuild_def demo_object w demo_coordinate [OF assms(1)] c reg gen Let_def
        notify [OF world] house [OF world])
  then show ?thesis using world w by simp
qed

lemma demo_finish:
  "demo_world (demo_published_state)
    (FinishBuild demo_bootil demo_hashes demo_engine demo_host
      (BuildWorker demo_bootil demo_building))"
proof -
  let ?s = "State_new\<lparr>st_revision := 1, st_files := [''a.lua'' \<mapsto> demo_file], st_salt := ''s'',
    st_nextBuildAllowed := 15, st_featureEnabledLastFrame := True,
    st_canonicalRegistrationAvailableLastFrame := True\<rparr>"
  let ?w = "\<lparr>w_state = ?s, w_cvars = demo_cvars, w_engine = 10\<rparr>"
  have "demo_cvars = demo_cvars\<lparr>cv_manifest := ''''\<rparr>" by (simp add: demo_cvars_def)
  then have "demo_world ?s ?w" unfolding demo_world_def by simp blast
  from demo_publish [OF this]
  have "demo_world demo_published_state
      (PublishBuild demo_bootil demo_hashes demo_engine demo_host (BuildPack demo_bootil demo_task) ?w)"
    by (simp add: demo_published_state_def State_new_def)
  moreover have "\<not> bt_complete demo_task" by (simp add: demo_task_def)
  moreover have "IsEnabled \<lparr>w_state = x, w_cvars = demo_cvars, w_engine = e\<rparr>" for x and e :: real
    by (simp add: IsEnabled_def demo_cvars_def)
  moreover have "eng_time demo_engine e = e" for e by (simp add: demo_engine_def)
  ultimately show ?thesis
    using demo_pack
    by (simp add: FinishBuild_def BuildWorker_def demo_building_eq with_state_def State_new_def Let_def
        ServerTime_def)
qed

lemma demo_think_transition:
  "with_state ThinkUploads (ThinkTransition demo_engine (BuildWorker demo_bootil demo_building)) =
    BuildWorker demo_bootil demo_building"
  by (simp add: ThinkTransition_def ThinkUploads_def BuildWorker_def demo_building_eq with_state_def
      State_new_def Let_def IsEnabled_def demo_cvars_def UsesCanonicalRegistration_def
      SupportsCanonicalRegistration_def demo_engine_def)

lemma demo_published_world: "demo_world demo_published_state demo_published"
proof -
  let ?w = "FinishBuild demo_bootil demo_hashes demo_engine demo_host (BuildWorker demo_bootil demo_building)"
  note w = demo_finish
  have "demo_world demo_published_state (ThinkEnabled demo_bootil demo_engine demo_host v)"
    if v: "demo_world demo_published_state v" for v
  proof -
    have s: "w_state v = demo_published_state" using v by (simp add: demo_world_def)
    have h: "ProcessRequiredRecoveryHandoffs demo_engine 10 v = v"
      by (simp add: ProcessRequiredRecoveryHandoffs_def ProcessHandoffSlot_def s demo_published_state_def
          State_new_def handoff_of_def RequiredRecoveryHandoff_Pending_def RequiredRecoveryHandoff_new_def
          demo_engine_def upto.simps)
    have c: "fold (ThinkClient demo_engine 10) [0..eng_playerLimit demo_engine - 1] v = v"
      by (simp add: ThinkClient_def ClearProvenRecoveryState_def s demo_published_state_def State_new_def
          client_of_def ClientPin_new_def Let_def demo_engine_def upto.simps)
    have p: "with_state (PruneLatches 10) v = v"
      using s by (cases v) (simp add: with_state_def PruneLatches_def demo_published_state_def State_new_def
          RequiredRecoveryTracker_Prune_def RequiredRecoveryTracker_new_def)
    have due: "\<not> ThinkBuildDue 10 demo_published_state" "st_activeBuild demo_published_state = None"
      by (simp_all add: ThinkBuildDue_def ShouldBuildMapBase_def demo_published_state_def State_new_def)
    have "demo_world demo_published_state (PublishManifest v)" by (rule demo_world_manifest [OF v])
    then show ?thesis
      using v due s demo_world_config [OF v]
      by (simp add: ThinkEnabled_def demo_coordinate [OF v] Let_def h c p demo_world_def)
  qed
  then show ?thesis
    using w demo_world_config [OF w]
    by (simp add: demo_published_def LuaPack_Think_def demo_think_transition Let_def)
qed

section \<open>Admission of one client\<close>

lemma demo_release: "ReleasePin 0 demo_published_state = demo_published_state"
  by (simp add: ReleasePin_def ReleaseGenerationReference_def Let_def demo_published_state_def
      State_new_def upd_client_def ClientPin_new_def fun_eq_iff)

lemma demo_steam: "\<not> stricmp_eq ''STEAM'' ''BOT'' \<and> \<not> stricmp_eq ''STEAM'' ''UNKNOWN''"
  by (simp add: stricmp_eq_def ascii_lower_def)

lemma demo_baseClient:
  "GetClientBySlot demo_engine w slot = Some demo_client" "bc_networkIDString demo_client = Some ''STEAM''"
  "bc_steamIDValid demo_client" "bc_steamID64 demo_client = 7" "bc_userSetting demo_client k = None"
  "IsValidSlot demo_engine 0" "SupportsCanonicalRegistration demo_engine w" "eng_fileExists demo_engine e path"
  by (simp_all add: GetClientBySlot_def demo_engine_def demo_client_def IsValidSlot_def
      SupportsCanonicalRegistration_def)

lemma demo_world_with: "demo_world s w \<Longrightarrow> demo_world (f s) (with_state f w)"
  by (auto simp: demo_world_def)

lemma demo_world_state: "demo_world s w \<Longrightarrow> w_state w = s"
  by (simp add: demo_world_def)

definition demo_joined_state :: State where
  "demo_joined_state = upd_generation (replicate 32 CHR ''a'') (\<lambda>g. g\<lparr>gen_pins := gen_pins g + 1\<rparr>)
     (upd_client 0 (\<lambda>c. c\<lparr>cp_generation := replicate 32 CHR ''a'', cp_deadline := 190,
         cp_fallback := False, cp_holdsPin := True\<rparr>)
       (upd_client 0 (\<lambda>c. c\<lparr>cp_networkID := ''STEAM''\<rparr>)
         (upd_client 0 (\<lambda>c. c\<lparr>cp_connectionSerial := 1\<rparr>)
           (demo_published_state\<lparr>st_nextConnectionSerial := 1\<rparr>))))"

lemma demo_pinCurrent:
  assumes "demo_world s w" and "cp_generation (st_clients s 0) = ''''"
    and "st_currentGeneration s = replicate 32 CHR ''a''" and "st_generations s (replicate 32 CHR ''a'') = Some x"
  shows "demo_world (upd_generation (replicate 32 CHR ''a'') (\<lambda>g. g\<lparr>gen_pins := gen_pins g + 1\<rparr>)
     (upd_client 0 (\<lambda>c. c\<lparr>cp_generation := replicate 32 CHR ''a'', cp_deadline := 190,
         cp_fallback := False, cp_holdsPin := True\<rparr>) s)) (snd (PinCurrentGeneration demo_engine 0 w))"
proof -
  have "cfg_readyDeadlineSeconds (GetConfig w) = 180" "ServerTime demo_engine w = 10"
    using assms(1) by (auto simp: demo_world_def GetConfig_def RefreshConfig_def demo_cvars_def
        ServerTime_def demo_engine_def)
  then show ?thesis
    using assms(1) demo_world_with [OF assms(1)]
    by (simp add: PinCurrentGeneration_def Let_def demo_world_state [OF assms(1)] assms(2-4) demo_world_def)
qed

lemma demo_epoch:
  assumes w: "demo_world demo_published_state w"
  shows "demo_world demo_joined_state (StartClientEpoch demo_engine 0 w)"
proof -
  let ?w1 = "with_state (ReleasePin 0) w"
  let ?f = "\<lambda>s. upd_client 0 (\<lambda>c. c\<lparr>cp_connectionSerial := 1\<rparr>) (s\<lparr>st_nextConnectionSerial := 1\<rparr>)"
  let ?w3 = "with_state (upd_client 0 (\<lambda>c. c\<lparr>cp_networkID := ''STEAM''\<rparr>)) (with_state ?f ?w1)"
  have w1: "demo_world demo_published_state ?w1"
    using demo_world_with [OF w, of "ReleasePin 0"] by (simp add: demo_release)
  note w2 = demo_world_with [OF w1, of ?f]
  note w3 = demo_world_with [OF w2, of "upd_client 0 (\<lambda>c. c\<lparr>cp_networkID := ''STEAM''\<rparr>)"]
  have serial: "st_nextConnectionSerial (w_state ?w1) = 0"
    by (simp add: demo_world_state [OF w1] demo_published_state_def State_new_def del: with_state_simps)
  have "StartClientEpoch demo_engine 0 w = snd (PinCurrentGeneration demo_engine 0 ?w3)"
    using demo_world_config [OF w2] demo_steam
    by (simp add: StartClientEpoch_def Let_def serial demo_baseClient del: with_state_simps)
  moreover have "cp_generation (st_clients demo_published_state 0) = ''''"
    "st_currentGeneration demo_published_state = replicate 32 CHR ''a''"
    "st_generations demo_published_state (replicate 32 CHR ''a'') = Some demo_base"
    by (simp_all add: demo_published_state_def State_new_def ClientPin_new_def)
  ultimately show ?thesis
    using demo_pinCurrent [OF w3] by (simp add: demo_joined_state_def)
qed

definition demo_admitted_state :: State where
  "demo_admitted_state = upd_client 0 (\<lambda>c. c\<lparr>cp_steamID64 := 7, cp_resolvedIdentity := True\<rparr>)
     (upd_client 0 (\<lambda>c. c\<lparr>cp_optOut := False, cp_requiredLane := True, cp_nativeLane := False,
         cp_deliveryLaneResolved := True\<rparr>) demo_joined_state)"

lemmas demo_state_eval = demo_admitted_state_def demo_joined_state_def demo_published_state_def
  State_new_def ClientPin_new_def upd_generation_def upd_client_def

lemma demo_lane:
  assumes w: "demo_world demo_joined_state w"
  shows "demo_world demo_admitted_state (ResolveDeliveryLane demo_engine 0 w)"
proof -
  let ?f = "upd_client 0 (\<lambda>c. c\<lparr>cp_optOut := False, cp_requiredLane := True, cp_nativeLane := False,
    cp_deliveryLaneResolved := True\<rparr>)"
  have s: "w_state w = demo_joined_state" by (rule demo_world_state [OF w])
  note w1 = demo_world_with [OF w, of ?f]
  have lane: "ResolveClientLane 0 True True (GetClientBySlot demo_engine w) bc_userSetting =
      \<lparr>rcl_client = Some demo_client, rcl_lane = RequiredLane\<rparr>"
    by (simp add: ResolveClientLane_def ResolveLane_def Let_def demo_baseClient)
  have bind: "BindResolvedIdentity (Some demo_client) 0 (?f demo_joined_state) = (True, demo_admitted_state)"
    by (simp add: BindResolvedIdentity_def Let_def demo_baseClient demo_admitted_state_def)
      (simp add: demo_state_eval)
  have fields: "cp_deliveryLaneResolved (st_clients demo_joined_state 0) = False"
    "cp_requiredLane (st_clients demo_admitted_state 0) = True"
    "st_requiredRecovery demo_admitted_state = Map.empty"
    by (simp_all add: demo_state_eval RequiredRecoveryTracker_new_def)
  have none: "RequiredRecoveryTracker_Consume a b now Map.empty = (ConsumeNone, Map.empty)" for a b now
    by (simp add: RequiredRecoveryTracker_Consume_def)
  have id: "demo_admitted_state\<lparr>st_requiredRecovery := Map.empty\<rparr> = demo_admitted_state"
    by (simp add: demo_state_eval RequiredRecoveryTracker_new_def)
  show ?thesis
    using w w1 demo_world_config [OF w]
    by (simp add: ResolveDeliveryLane_def Let_def client_of_def s fields lane bind none set_client_def
        set_tracker_def CanConsumeRequiredRecovery_def demo_world_def id)
qed

lemma demo_baseline:
  "bd_action (fst (DecideBaselineForClient demo_engine 0 demo_published)) = BaBasePlusDelta \<and>
   demo_world demo_admitted_state demo_admitted"
proof -
  note w = demo_published_world
  have s: "w_state demo_published = demo_published_state" by (rule demo_world_state [OF w])
  have fields: "st_recoveryHandoffs demo_published_state i = RequiredRecoveryHandoff_new"
    "cp_connectionSerial (st_clients demo_published_state 0) = 0"
    "\<not> st_buildRequested demo_published_state" "st_activeBuild demo_published_state = None"
    "\<not> st_registrationRefreshPending demo_published_state" "st_featureEnabledLastFrame demo_published_state"
    "st_canonicalRegistrationAvailableLastFrame demo_published_state" for i
    by (simp_all add: demo_state_eval)
  have pending: "\<not> BaselinePreparationPending demo_engine demo_published"
    using demo_world_config [OF w]
    by (simp add: BaselinePreparationPending_def RegistrationRefreshPending_def Let_def s fields
        UsesCanonicalRegistration_def demo_baseClient InitialMapBasePending_def)
  have starts: "BeginPendingRecoveryBaseline demo_engine 0 demo_published = (None, demo_published)"
    by (simp add: BeginPendingRecoveryBaseline_def matching_handoffs_def handoff_of_def s fields
        RequiredRecoveryHandoff_Pending_def RequiredRecoveryHandoff_new_def Let_def)
  let ?w = "ResolveDeliveryLane demo_engine 0 (StartClientEpoch demo_engine 0 demo_published)"
  note w' = demo_lane [OF demo_epoch [OF w]]
  have s': "w_state ?w = demo_admitted_state" by (rule demo_world_state [OF w'])
  have client: "cp_generation (st_clients demo_admitted_state 0) = replicate 32 CHR ''a''"
    "ClientLane (st_clients demo_admitted_state 0) = RequiredLane"
    "st_generations demo_admitted_state (replicate 32 CHR ''a'') = Some (demo_base\<lparr>gen_pins := 1\<rparr>)"
    using demo_base_fields by (simp_all add: demo_state_eval ClientLane_def)
  have "BaseAvailabilityForClient demo_engine ?w (st_clients demo_admitted_state 0) True = Ready"
    using demo_base_fields demo_world_config [OF w']
    by (simp add: BaseAvailabilityForClient_def s' client Let_def DataDirectory_def demo_path_def demo_baseClient)
  then show ?thesis
    using demo_world_config [OF w] w' pending starts
    by (simp add: DecideBaselineForClient_def demo_baseClient Let_def s fields client_of_def s' client
        NeedsConnectionEpochAtBaseline_def ShouldPinCurrentBaseForBaseline_def SelectBaseline_def
        accept_baseline_def demo_admitted_def)
qed

lemma demo_client_fields:
  "cp_generation (client_of demo_admitted 0) = replicate 32 CHR ''a''"
  "ClientLane (client_of demo_admitted 0) = RequiredLane" "cp_holdsPin (client_of demo_admitted 0)"
  "st_generations (w_state demo_admitted) (replicate 32 CHR ''a'') = Some (demo_base\<lparr>gen_pins := 1\<rparr>)"
  "st_files (w_state demo_admitted) = [''a.lua'' \<mapsto> demo_file]"
  "st_currentGeneration (w_state demo_admitted) = replicate 32 CHR ''a''"
  using demo_base_fields demo_world_state [OF conjunct2 [OF demo_baseline]]
  by (simp_all add: client_of_def demo_state_eval ClientLane_def)

lemma demo_file_decision:
  "bd_action (DecidePinnedFileBaselineForClient demo_engine 0 ''@a.lua'' demo_admitted) = BaCanonicalStub"
proof -
  have "IsEnabled demo_admitted" using demo_world_config [OF conjunct2 [OF demo_baseline]] by simp
  moreover have "\<not> IsGenerationNativeDelta (demo_base\<lparr>gen_pins := 1\<rparr>) ''@a.lua''"
    using demo_base_fields by (simp add: IsGenerationNativeDelta_def NormalizePath_def)
  moreover have "\<not> IsInitFile ''@a.lua''"
    by (simp add: IsInitFile_def LocalKeyFormTwo_def NormalizePath_def StripAddonPrefix_def StartsWith_def)
  ultimately show ?thesis
    using demo_base_fields
    by (auto simp: DecidePinnedFileBaselineForClient_def Let_def demo_client_fields demo_baseClient
        SelectFile_def accept_baseline_def)
qed

end
