(* ===== verification/LuaPackRegistry.thy ===== *)
theory LuaPackRegistry
  imports LuaPackDemo
begin

text \<open>
  The registry of captured files against the published map base: the delta index is exact, a
  base never changes once it is current, and a canonical stub stands only for a file whose
  current contents have the identity recorded in the client's pinned base.
\<close>

section \<open>Facts about snapshots and new generations\<close>

lemma base_files_Some:
  assumes "base_files files p = Some i"
  shows "\<exists>f\<in>set files. NormalizePath (fr_virtualPath f) = p \<and> fr_identity f = i"
proof -
  have "\<exists>f\<in>set files. NormalizePath (fr_virtualPath f) = p \<and> fr_identity f = i"
    if "foldl (\<lambda>m file. m(NormalizePath (fr_virtualPath file) \<mapsto> fr_identity file)) m files p = Some i"
      and "m p = None" for m
    using that
  proof (induction files rule: rev_induct)
    case (snoc f files)
    then show ?case by (auto split: if_splits)
  qed simp
  then show ?thesis using assms by (simp add: base_files_def)
qed

lemma set_snapshot_files:
  "finite (dom files) \<Longrightarrow> set (snapshot_files files) = {the (files p) |p. p \<in> dom files \<and> \<not> IsInitFile p}"
  by (auto simp: snapshot_files_def)

definition delta_exact :: "(string \<rightharpoonup> FileRecord) \<Rightarrow> Generation \<Rightarrow> bool" where
  "delta_exact files x \<longleftrightarrow>
     (\<forall>p r. files p = Some r \<longrightarrow> (p \<in> gen_nativeDeltas x) = (gen_files x p \<noteq> Some (fr_identity r))) \<and>
     (\<forall>p. files p = None \<and> gen_files x p \<noteq> None \<longrightarrow> p \<in> gen_nativeDeltas x)"

lemma IsNativeDelta_lookup:
  "IsNativeDelta (base p \<noteq> None) (case base p of None \<Rightarrow> '''' | Some i \<Rightarrow> i) identity =
     (base p \<noteq> Some identity)"
  by (auto simp: IsNativeDelta_def split: option.split)

lemma fold_deltas:
  "p \<in> fold (\<lambda>path deltas. UpdateNativeDeltaIndex deltas path (native path)) paths deltas \<longleftrightarrow>
     (if p \<in> set paths then native p else p \<in> deltas)"
  by (induction paths arbitrary: deltas) (auto simp: UpdateNativeDeltaIndex_def)

lemma initial_deltas_iff:
  assumes "finite (dom files)"
  shows "p \<in> initial_deltas base files \<longleftrightarrow>
    (if p \<in> dom files then base p \<noteq> Some (fr_identity (the (files p))) else base p \<noteq> None)"
  unfolding initial_deltas_def IsNativeDelta_lookup Un_iff fold_deltas using assms by auto

lemma delta_exact_new:
  assumes "finite (dom files)" and "gen_nativeDeltas x = initial_deltas (gen_files x) files"
  shows "delta_exact files x"
  by (auto simp: delta_exact_def assms(2) initial_deltas_iff [OF assms(1)])

lemma delta_exact_update:
  assumes "delta_exact files x"
  shows "delta_exact (files(path \<mapsto> r)) (update_delta path (fr_identity r) x)"
  unfolding update_delta_def IsNativeDelta_lookup
  using assms by (auto simp: delta_exact_def UpdateNativeDeltaIndex_def)

lemma delta_exact_disable:
  "delta_exact Map.empty (x\<lparr>gen_nativeDeltas := MarkBasePathsNative (gen_nativeDeltas x) (gen_files x)\<rparr>)"
  by (auto simp: delta_exact_def MarkBasePathsNative_def)

lemma delta_exact_pins [simp]: "delta_exact files (x\<lparr>gen_pins := k\<rparr>) = delta_exact files x"
  by (simp add: delta_exact_def)

section \<open>The registry invariant\<close>

definition base_ok :: "Hashes \<Rightarrow> Generation \<Rightarrow> bool" where
  "base_ok S x \<longleftrightarrow> (\<forall>p i. gen_files x p = Some i \<longrightarrow>
     NormalizePath p = p \<and> \<not> IsInitFile p \<and> (\<exists>contents. i = sha256_hex S contents))"

definition task_ok :: "Hashes \<Rightarrow> BuildTask \<Rightarrow> bool" where
  "task_ok S task \<longleftrightarrow> (\<forall>f\<in>set (bt_files task). \<exists>p. record_ok S p f \<and> \<not> IsInitFile p)"

definition registry_ok :: "Hashes \<Rightarrow> State \<Rightarrow> bool" where
  "registry_ok S s \<longleftrightarrow>
     finite (dom (st_files s)) \<and>
     (\<forall>p r. st_files s p = Some r \<longrightarrow> record_ok S p r) \<and>
     (\<forall>task. st_activeBuild s = Some task \<longrightarrow> task_ok S task) \<and>
     (\<forall>g x. st_generations s g = Some x \<longrightarrow> base_ok S x \<and> delta_exact (st_files s) x)"

lemma base_ok_pins [simp]: "base_ok S (x\<lparr>gen_pins := k\<rparr>) = base_ok S x"
  "base_ok S (x\<lparr>gen_nativeDeltas := d\<rparr>) = base_ok S x" "base_ok S (update_delta p i x) = base_ok S x"
  by (simp_all add: base_ok_def update_delta_def)

lemma base_ok_new: "\<lbrakk>task_ok S task; gen_files x = base_files (bt_files task)\<rbrakk> \<Longrightarrow> base_ok S x"
  using base_files_Some by (fastforce simp: base_ok_def task_ok_def record_ok_def)

lemma st_files_frame [simp]:
  "st_files (upd_client slot f s) = st_files s"
  "st_files (upd_generation g h s) = st_files s"
  "st_files (ReleaseGenerationReference slot s) = st_files s"
  by (simp_all add: upd_client_def upd_generation_def ReleaseGenerationReference_def Let_def
      split: option.split)

lemma Release_generations:
  "st_generations (ReleaseGenerationReference slot s) g =
     (case st_generations s g of None \<Rightarrow> None
      | Some x \<Rightarrow> Some (if cp_holdsPin (st_clients s slot) \<and> cp_generation (st_clients s slot) = g \<and> g \<noteq> '''' \<and>
            0 < gen_pins x then x\<lparr>gen_pins := gen_pins x - 1\<rparr> else x))"
  by (auto simp: ReleaseGenerationReference_def Let_def upd_generation_at split: option.split)

lemma registry_ok_prim: "\<lbrakk>lp_prim d S n s s'; registry_ok S s\<rbrakk> \<Longrightarrow> registry_ok S s'"
proof (induction rule: lp_prim.cases)
  case (prim_capture path r s)
  then show ?case by (auto simp: registry_ok_def intro: delta_exact_update)
next
  case (prim_disable s)
  then show ?case by (auto simp: registry_ok_def intro: delta_exact_disable)
next
  case (prim_start task s)
  then have "task_ok S task"
    by (auto simp: registry_ok_def task_ok_def set_snapshot_files dest: bspec) blast
  with prim_start show ?case by (simp add: registry_ok_def)
next
  case (prim_work s task task')
  then show ?case by (auto simp: registry_ok_def task_ok_def)
next
  case (prim_publish s task x)
  then have "base_ok S x" "delta_exact (st_files s) x"
    by (auto simp: registry_ok_def intro: delta_exact_new base_ok_new)
  with prim_publish show ?case by (simp add: registry_ok_def)
next
  case (prim_release s slot)
  then show ?case by (simp add: registry_ok_def Release_generations split: option.split)
next
  case (prim_acquire slot s f g x)
  then show ?case by (simp add: registry_ok_def upd_generation_at)
next
  case (prim_client f s slot)
  then show ?case by (simp add: registry_ok_def)
next
  case (prim_forget s slot)
  then show ?case by (simp add: registry_ok_def)
next
  case (prim_frame s s')
  then show ?case by (simp add: registry_ok_def same_core_def)
qed (simp_all add: registry_ok_def)

lemma registry_ok_reach:
  assumes "lp_reach B S E H w" and "platform_ok B S E H"
  shows "registry_ok S (w_state w)"
proof -
  have new: "registry_ok S State_new" by (simp add: registry_ok_def State_new_def)
  have "registry_ok S (w_state w) \<and> core_ok (eng_playerLimit E) (w_state w)"
    by (rule reach_invariant [where I = "registry_ok S", OF assms new]) (rule registry_ok_prim)
  then show ?thesis ..
qed

lemma reach_core:
  assumes "lp_reach B S E H w" and "platform_ok B S E H"
  shows "core_ok (eng_playerLimit E) (w_state w)"
proof -
  have "True \<and> core_ok (eng_playerLimit E) (w_state w)"
    by (rule reach_invariant [where I = "\<lambda>_. True", OF assms TrueI TrueI])
  then show ?thesis ..
qed

section \<open>Pins\<close>

text \<open>
  C1. Pins are counted exactly.  In every reachable state of the module, whatever the engine
  calls back, a generation's pin count is the number of client slots that hold a pin on it, and
  a slot that holds a pin is bound to a generation that exists.
\<close>

theorem luapack_pins_exact:
  assumes "lp_reach B S E H w" and "platform_ok B S E H"
  shows "(\<forall>g x. st_generations (w_state w) g = Some x \<longrightarrow>
      unat (gen_pins x) = card {slot. 0 \<le> slot \<and> slot < eng_playerLimit E \<and>
        cp_holdsPin (client_of w slot) \<and> cp_generation (client_of w slot) = g}) \<and>
    (\<forall>slot. cp_holdsPin (client_of w slot) \<longrightarrow>
      IsValidSlot E slot \<and> st_generations (w_state w) (cp_generation (client_of w slot)) \<noteq> None)"
proof -
  have "pins_ok (eng_playerLimit E) (w_state w)"
    using reach_core [OF assms] by (simp add: core_ok_def)
  then show ?thesis by (simp add: pins_ok_def holders_def client_of_def IsValidSlot_def)
qed

theorem luapack_pins_exact_witness:
  "cp_holdsPin (client_of demo_admitted 0) \<and> IsValidSlot demo_engine 0 \<and>
   (\<exists>x. st_generations (w_state demo_admitted) (replicate 32 CHR ''a'') = Some x \<and> unat (gen_pins x) = 1)"
  using luapack_pins_exact [OF demo_reach demo_platform] by (simp add: demo_client_fields)

section \<open>The published base is immutable\<close>

definition same_base :: "Generation \<Rightarrow> Generation \<Rightarrow> bool" where
  "same_base x y \<longleftrightarrow>
     gen_id y = gen_id x \<and> gen_md5 y = gen_md5 x \<and> gen_salt y = gen_salt x \<and>
     gen_resourcePath y = gen_resourcePath x \<and> gen_files y = gen_files x \<and>
     gen_compressedRequiredStub y = gen_compressedRequiredStub x"

definition keeps_bases :: "State \<Rightarrow> State \<Rightarrow> bool" where
  "keeps_bases s s' \<longleftrightarrow>
     (st_currentGeneration s \<noteq> '''' \<longrightarrow> st_currentGeneration s' = st_currentGeneration s) \<and>
     (\<forall>g x. st_generations s g = Some x \<longrightarrow> (\<exists>y. st_generations s' g = Some y \<and> same_base x y))"

lemma keeps_bases_refl: "keeps_bases s s"
  by (simp add: keeps_bases_def same_base_def)

lemma same_base_trans: "\<lbrakk>same_base x y; same_base y z\<rbrakk> \<Longrightarrow> same_base x z"
  by (simp add: same_base_def)

lemma keeps_bases_trans:
  assumes "keeps_bases s t" and "keeps_bases t u"
  shows "keeps_bases s u"
  unfolding keeps_bases_def
proof (intro conjI allI impI)
  show "st_currentGeneration u = st_currentGeneration s" if "st_currentGeneration s \<noteq> ''''"
    using assms that by (simp add: keeps_bases_def)
next
  fix g x
  assume "st_generations s g = Some x"
  then obtain y where y: "st_generations t g = Some y" "same_base x y"
    using assms(1) by (auto simp: keeps_bases_def)
  then obtain z where "st_generations u g = Some z" "same_base y z"
    using assms(2) by (auto simp: keeps_bases_def)
  with y show "\<exists>z. st_generations u g = Some z \<and> same_base x z" by (blast intro: same_base_trans)
qed

lemma keeps_bases_same:
  "\<lbrakk>st_currentGeneration s' = st_currentGeneration s; st_generations s' = st_generations s\<rbrakk> \<Longrightarrow> keeps_bases s s'"
  by (simp add: keeps_bases_def same_base_def)

lemma keeps_bases_prim: "\<lbrakk>lp_prim False S n s s'; pins_ok n s\<rbrakk> \<Longrightarrow> keeps_bases s s'"
proof (induction rule: lp_prim.cases)
  case (prim_publish s task x)
  then show ?case by (simp add: keeps_bases_def pins_ok_def)
next
  case (prim_release s slot)
  then show ?case by (simp add: keeps_bases_def same_base_def Release_generations)
next
  case (prim_acquire slot s f g x)
  then show ?case by (simp add: keeps_bases_def same_base_def upd_generation_at)
next
  case (prim_capture path r s)
  then show ?case by (simp add: keeps_bases_def same_base_def update_delta_def)
next
  case (prim_disable s)
  then show ?case by (simp add: keeps_bases_def same_base_def)
next
  case (prim_frame s s')
  then show ?case by (simp add: keeps_bases_same same_core_def)
qed (simp_all add: keeps_bases_same)

lemma keeps_bases_prims:
  assumes "lp_prims False S n s s'" and "core_ok n s"
  shows "keeps_bases s s'"
  using assms
proof (induction rule: rtranclp_induct)
  case (step t u)
  have "pins_ok n t" using core_ok_prims [OF step.hyps(1) step.prems] by (simp add: core_ok_def)
  then show ?case using step keeps_bases_prim keeps_bases_trans by blast
qed (rule keeps_bases_refl)

text \<open>
  C21. A map base is immutable until level shutdown.  No entry point of the module, no engine
  callback inside it and no worker replaces the current generation once there is one, drops a
  generation, or changes a generation's identifier, object path, salt, recorded file identities
  or stub; only the shutdown does.
\<close>

theorem map_base_immutable:
  assumes "lp_reach B S E H w" and "platform_ok B S E H" and "lp_step B S E H w w'"
    and "w' \<noteq> LuaPack_Shutdown w"
  shows "(st_currentGeneration (w_state w) \<noteq> '''' \<longrightarrow>
      st_currentGeneration (w_state w') = st_currentGeneration (w_state w)) \<and>
    (\<forall>g x. st_generations (w_state w) g = Some x \<longrightarrow>
      (\<exists>y. st_generations (w_state w') g = Some y \<and> gen_id y = gen_id x \<and> gen_md5 y = gen_md5 x \<and>
        gen_salt y = gen_salt x \<and> gen_resourcePath y = gen_resourcePath x \<and>
        gen_files y = gen_files x \<and> gen_compressedRequiredStub y = gen_compressedRequiredStub x))"
proof -
  have ok: "core_ok (eng_playerLimit E) (w_state w)"
    by (rule reach_core [OF assms(1,2)])
  have "lp_prims False S (eng_playerLimit E) (w_state w) (w_state w')"
    by (rule prims_lp_step [OF assms(3)]) (use assms ok in \<open>auto simp: platform_ok_def\<close>)
  from keeps_bases_prims [OF this ok] show ?thesis by (simp add: keeps_bases_def same_base_def)
qed

theorem map_base_immutable_witness:
  "st_currentGeneration (w_state (snd (ClientConnect demo_engine 0 demo_admitted))) = replicate 32 CHR ''a''"
proof -
  let ?w = "snd (ClientConnect demo_engine 0 demo_admitted)"
  have "lp_prims False demo_hashes (eng_playerLimit demo_engine) (w_state demo_admitted) (w_state ?w)"
    by (rule prims_ClientConnect) (simp_all add: reach_core [OF demo_reach demo_platform])
  then have "st_currentGeneration (w_state ?w) \<noteq> ''''"
    using keeps_bases_prims [OF _ reach_core [OF demo_reach demo_platform]] demo_client_fields
    by (auto simp: keeps_bases_def)
  then have "?w \<noteq> LuaPack_Shutdown demo_admitted" by (auto simp: LuaPack_Shutdown_def)
  then show ?thesis
    using map_base_immutable [OF demo_reach demo_platform step_callback [OF cb_connect]] demo_client_fields
    by simp
qed

section \<open>Canonical stubs stand for current contents\<close>

text \<open>
  C13. A canonical stub is only chosen for a file the client's pinned base really contains.  In
  every reachable state, if the per-file decision of a baseline is a canonical stub, then the
  client is on the required lane, its pinned generation exists with a stub, the path is
  registered, its current contents hash to the identity recorded in that generation, and it is
  not the bootstrap.  A changed, removed, late or bootstrap file is always sent natively.
\<close>

theorem canonical_stub_is_current:
  assumes "lp_reach B S E H w" and "platform_ok B S E H"
    and "bd_action (DecidePinnedFileBaselineForClient E slot path w) = BaCanonicalStub"
  shows "\<exists>base r. st_generations (w_state w) (cp_generation (client_of w slot)) = Some base \<and>
    gen_compressedRequiredStub base \<noteq> None \<and> ClientLane (client_of w slot) = RequiredLane \<and>
    st_files (w_state w) (NormalizePath path) = Some r \<and>
    gen_files base (NormalizePath path) = Some (sha256_hex S (fr_contents r)) \<and> \<not> IsInitFile path"
proof -
  from assms(3) obtain base where base: "st_generations (w_state w) (cp_generation (client_of w slot)) = Some base"
    and stub: "gen_compressedRequiredStub base \<noteq> None" and lane: "ClientLane (client_of w slot) = RequiredLane"
    and nodelta: "\<not> IsGenerationNativeDelta base path" and init: "\<not> IsInitFile path"
    by (auto simp: DecidePinnedFileBaselineForClient_def Let_def SelectFile_def handler_simps
        split: if_splits option.splits)
  let ?p = "NormalizePath path"
  have in_base: "gen_files base ?p \<noteq> None" and notin: "?p \<notin> gen_nativeDeltas base"
    using nodelta by (simp_all add: IsGenerationNativeDelta_def Let_def)
  have reg: "registry_ok S (w_state w)" by (rule registry_ok_reach [OF assms(1,2)])
  then have exact: "delta_exact (st_files (w_state w)) base" using base by (simp add: registry_ok_def)
  then obtain r where r: "st_files (w_state w) ?p = Some r"
    using in_base notin by (cases "st_files (w_state w) ?p") (auto simp: delta_exact_def)
  then have "fr_identity r = sha256_hex S (fr_contents r)"
    using reg by (auto simp: registry_ok_def record_ok_def)
  then show ?thesis using base stub lane r init exact notin by (auto simp: delta_exact_def)
qed

theorem canonical_stub_is_current_witness:
  "gen_files (demo_base\<lparr>gen_pins := 1\<rparr>) ''a.lua'' = Some (sha256_hex demo_hashes (fr_contents demo_file))"
  using canonical_stub_is_current [OF demo_reach demo_platform demo_file_decision]
  by (simp add: demo_client_fields NormalizePath_def split: if_splits)

end
