(* ===== verification/LuaPackDelivery.thy ===== *)
theory LuaPackDelivery
  imports LuaPackRegistry
begin

text \<open>
  What a client is given: the complete case analysis of the delivery decision, the lane chosen
  once per connection, and the fail-open latch, which no decision depends on.
\<close>

section \<open>Lane resolution\<close>

lemma client_upd [simp]:
  "client_of (set_client slot f w) i = (if i = slot then f (client_of w slot) else client_of w i)"
  "client_of (set_tracker t w) = client_of w" "client_of (set_handoff j h w) = client_of w"
  by (simp_all add: client_of_def set_client_def set_tracker_def set_handoff_def fun_eq_iff)

lemma client_with_latches [simp]:
  "client_of (with_state (\<lambda>s. s\<lparr>st_nativeLatches := l s\<rparr>) w) = client_of w"
  by (simp add: client_of_def fun_eq_iff)

lemma client_MarkFallback [simp]:
  "client_of (with_state (MarkFallback slot) w) i =
     (if i = slot then (client_of w slot)\<lparr>cp_holdsPin := False, cp_ready := False, cp_fallback := True\<rparr>
      else client_of w i)"
  by (simp add: client_of_def MarkFallback_def)

lemma Bind_client:
  "st_clients (snd (BindResolvedIdentity b slot s)) i =
     (if i = slot \<and> fst (BindResolvedIdentity b slot s)
      then (st_clients s slot)\<lparr>cp_steamID64 := account_of b, cp_resolvedIdentity := True\<rparr>
      else st_clients s i)"
  by (auto simp: BindResolvedIdentity_def account_of_def Let_def split: option.splits)

text \<open>The lane the client asked for and the configuration allows.\<close>

definition chosen_lane :: "'e Engine \<Rightarrow> int \<Rightarrow> 'e World \<Rightarrow> Lane" where
  "chosen_lane E slot w =
     rcl_lane (ResolveClientLane slot (cfg_requiredStubbing (GetConfig w)) (cfg_allowOptOut (GetConfig w))
       (GetClientBySlot E w) bc_userSetting)"

definition with_lane :: "Lane \<Rightarrow> int \<Rightarrow> 'e World \<Rightarrow> 'e World" where
  "with_lane lane slot = set_client slot (\<lambda>c. c\<lparr>cp_optOut := (lane = NativeOptOut),
     cp_requiredLane := (lane = RequiredLane), cp_nativeLane := (lane \<noteq> RequiredLane),
     cp_deliveryLaneResolved := True\<rparr>)"

definition bind_world :: "BaseClient option \<Rightarrow> int \<Rightarrow> 'e World \<Rightarrow> 'e World" where
  "bind_world b slot = with_state (\<lambda>s. snd (BindResolvedIdentity b slot s))"

text \<open>
  Resolution of an unresolved lane, without the branch on the fail-open latch: on the required
  lane its condition is false, and the native lanes return before it.
\<close>

lemma ResolveDeliveryLane_native:
  assumes "\<not> cp_deliveryLaneResolved (client_of w slot)" and "chosen_lane E slot w \<noteq> RequiredLane"
  shows "ResolveDeliveryLane E slot w = with_state (MarkFallback slot)
    (if chosen_lane E slot w = NativeOptOut
     then bind_world (GetClientBySlot E w slot) slot (with_lane (chosen_lane E slot w) slot w)
     else with_lane (chosen_lane E slot w) slot w)"
  using assms
  by (simp add: ResolveDeliveryLane_def chosen_lane_def with_lane_def bind_world_def Let_def
      ResolveClientLane_def)

lemma ResolveDeliveryLane_required:
  assumes "\<not> cp_deliveryLaneResolved (client_of w slot)" and lane: "chosen_lane E slot w = RequiredLane"
  shows "ResolveDeliveryLane E slot w =
    (let w2 = bind_world (GetClientBySlot E w slot) slot (with_lane RequiredLane slot w);
         client = client_of w2 slot;
         (r, t) = RequiredRecoveryTracker_Consume (cp_steamID64 client) (cp_connectionSerial client)
           (ServerTime E w2) (st_requiredRecovery (w_state w2))
     in if \<not> CanConsumeRequiredRecovery (cfg_requiredRecovery (GetConfig w))
          (fst (BindResolvedIdentity (GetClientBySlot E w slot) slot (w_state (with_lane RequiredLane slot w))))
        then w2
        else if r = ConsumeNative
        then with_state (MarkFallback slot) (set_client slot (\<lambda>c. c\<lparr>cp_requiredRecovery := True,
               cp_nativeLane := True, cp_nativeLatched := True\<rparr>) (set_tracker t w2))
        else set_tracker t w2)"
proof -
  let ?b = "GetClientBySlot E w slot"
  let ?w1 = "with_lane RequiredLane slot w"
  have w2: "?w1\<lparr>w_state := snd (BindResolvedIdentity ?b slot (w_state ?w1))\<rparr> = bind_world ?b slot ?w1"
    by (simp add: bind_world_def with_state_def)
  have req: "cp_requiredLane (client_of (bind_world ?b slot ?w1) slot)"
    by (simp add: bind_world_def client_of_def Bind_client with_lane_def set_client_def)
  have w1: "set_client slot (\<lambda>c. c\<lparr>cp_optOut := False, cp_requiredLane := True, cp_nativeLane := False,
      cp_deliveryLaneResolved := True\<rparr>) w = ?w1"
    by (simp add: with_lane_def)
  show ?thesis
    using assms(1) lane req
    by (simp add: ResolveDeliveryLane_def chosen_lane_def Let_def case_prod_beta w1 w2 ResolveClientLane_def)
qed

lemma client_bind [simp]:
  "client_of (bind_world b slot w) i =
     (if i = slot \<and> fst (BindResolvedIdentity b slot (w_state w))
      then (client_of w slot)\<lparr>cp_steamID64 := account_of b, cp_resolvedIdentity := True\<rparr>
      else client_of w i)"
  by (simp add: bind_world_def client_of_def Bind_client)

lemma client_with_lane [simp]:
  "client_of (with_lane lane slot w) i =
     (if i = slot
      then (client_of w slot)\<lparr>cp_optOut := (lane = NativeOptOut), cp_requiredLane := (lane = RequiredLane),
             cp_nativeLane := (lane \<noteq> RequiredLane), cp_deliveryLaneResolved := True\<rparr>
      else client_of w i)"
  by (simp add: with_lane_def)

lemma ResolveDeliveryLane_resolved [simp]:
  "cp_deliveryLaneResolved (client_of (ResolveDeliveryLane E slot w) slot)"
proof (cases "cp_deliveryLaneResolved (client_of w slot)")
  case True
  then show ?thesis by (simp add: ResolveDeliveryLane_def)
next
  case False
  then show ?thesis
    by (cases "chosen_lane E slot w = RequiredLane")
      (simp_all add: ResolveDeliveryLane_native ResolveDeliveryLane_required Let_def case_prod_beta)
qed

lemma ResolveDeliveryLane_again [simp]:
  "ResolveDeliveryLane E slot (ResolveDeliveryLane E slot w) = ResolveDeliveryLane E slot w"
  by (subst ResolveDeliveryLane_def) simp

lemma world_frame [simp]:
  "w_cvars (set_client slot f w) = w_cvars w" "w_engine (set_client slot f w) = w_engine w"
  "w_cvars (set_tracker t w) = w_cvars w" "w_engine (set_tracker t w) = w_engine w"
  "w_cvars (set_handoff i h w) = w_cvars w" "w_engine (set_handoff i h w) = w_engine w"
  "w_cvars (with_lane lane slot w) = w_cvars w" "w_engine (with_lane lane slot w) = w_engine w"
  "w_cvars (bind_world b slot w) = w_cvars w" "w_engine (bind_world b slot w) = w_engine w"
  by (simp_all add: set_client_def set_tracker_def set_handoff_def with_lane_def bind_world_def)

lemma GetClientBySlot_with_state: "GetClientBySlot E (with_state f w) = GetClientBySlot E w"
  by (simp add: GetClientBySlot_def fun_eq_iff)

lemma Resolve_cvars [simp]: "w_cvars (ResolveDeliveryLane E slot w) = w_cvars w"
  "w_engine (ResolveDeliveryLane E slot w) = w_engine w"
proof -
  have "w_cvars (ResolveDeliveryLane E slot w) = w_cvars w \<and> w_engine (ResolveDeliveryLane E slot w) = w_engine w"
  proof (cases "cp_deliveryLaneResolved (client_of w slot)")
    case True
    then show ?thesis by (simp add: ResolveDeliveryLane_def)
  next
    case False
    then show ?thesis
      by (cases "chosen_lane E slot w = RequiredLane")
        (simp_all add: ResolveDeliveryLane_native ResolveDeliveryLane_required Let_def case_prod_beta)
  qed
  then show "w_cvars (ResolveDeliveryLane E slot w) = w_cvars w"
    "w_engine (ResolveDeliveryLane E slot w) = w_engine w" by blast+
qed

lemma Resolve_env [simp]:
  "IsEnabled (ResolveDeliveryLane E slot w) = IsEnabled w"
  "SupportsCanonicalRegistration E (ResolveDeliveryLane E slot w) = SupportsCanonicalRegistration E w"
  by (simp_all add: IsEnabled_def SupportsCanonicalRegistration_def)

section \<open>The fail-open latch decides nothing\<close>

definition with_latches :: "(string \<rightharpoonup> real) \<Rightarrow> 'e World \<Rightarrow> 'e World" where
  "with_latches l = with_state (\<lambda>s. s\<lparr>st_nativeLatches := l\<rparr>)"

lemma latches_simps [simp]:
  "client_of (with_latches l w) = client_of w" "w_cvars (with_latches l w) = w_cvars w"
  "w_engine (with_latches l w) = w_engine w"
  "st_requiredRecovery (w_state (with_latches l w)) = st_requiredRecovery (w_state w)"
  "GetConfig (with_latches l w) = GetConfig w" "GetClientBySlot E (with_latches l w) = GetClientBySlot E w"
  "ServerTime E (with_latches l w) = ServerTime E w"
  "chosen_lane E slot (with_latches l w) = chosen_lane E slot w"
  by (simp_all add: with_latches_def client_of_def GetConfig_def ServerTime_def chosen_lane_def fun_eq_iff
      GetClientBySlot_with_state)

lemma latches_upd_client: "upd_client slot f (s\<lparr>st_nativeLatches := l\<rparr>) = (upd_client slot f s)\<lparr>st_nativeLatches := l\<rparr>"
  by (simp add: upd_client_def)

lemma latches_MarkFallback: "MarkFallback slot (s\<lparr>st_nativeLatches := l\<rparr>) = (MarkFallback slot s)\<lparr>st_nativeLatches := l\<rparr>"
  by (simp add: MarkFallback_def ReleaseGenerationReference_def Let_def upd_client_def upd_generation_def
      split: option.split)

lemma latches_Bind:
  "BindResolvedIdentity b slot (s\<lparr>st_nativeLatches := l\<rparr>) =
     (fst (BindResolvedIdentity b slot s), (snd (BindResolvedIdentity b slot s))\<lparr>st_nativeLatches := l\<rparr>)"
  by (auto simp: BindResolvedIdentity_def Let_def latches_upd_client upd_client_def split: option.split)

lemma latches_commute:
  "with_lane lane slot (with_latches l w) = with_latches l (with_lane lane slot w)"
  "set_client slot f (with_latches l w) = with_latches l (set_client slot f w)"
  "set_tracker t (with_latches l w) = with_latches l (set_tracker t w)"
  "with_state (MarkFallback slot) (with_latches l w) = with_latches l (with_state (MarkFallback slot) w)"
  "bind_world b slot (with_latches l w) = with_latches l (bind_world b slot w)"
  by (simp_all add: with_latches_def with_lane_def set_client_def set_tracker_def bind_world_def
      with_state_def latches_upd_client latches_MarkFallback latches_Bind)

lemma latches_fst_Bind:
  "fst (BindResolvedIdentity b slot (w_state (with_latches l w))) = fst (BindResolvedIdentity b slot (w_state w))"
  by (simp add: with_latches_def latches_Bind)

text \<open>
  The fail-open latch of an account never influences a delivery lane.  Resolving the lane
  of a client commutes with any change of the latch table: the table is neither read nor
  changed, whatever it holds.  The messages that announce a join \<^verbatim>\<open>latched native\<close> describe
  an effect the code no longer has.
\<close>

theorem native_latch_is_inert:
  "ResolveDeliveryLane E slot (with_state (\<lambda>s. s\<lparr>st_nativeLatches := l\<rparr>) w) =
     with_state (\<lambda>s. s\<lparr>st_nativeLatches := l\<rparr>) (ResolveDeliveryLane E slot w)"
proof -
  have "ResolveDeliveryLane E slot (with_latches l w) = with_latches l (ResolveDeliveryLane E slot w)"
  proof (cases "cp_deliveryLaneResolved (client_of w slot)")
    case True
    then show ?thesis by (simp add: ResolveDeliveryLane_def)
  next
    case False
    then show ?thesis
      by (cases "chosen_lane E slot w = RequiredLane")
        (simp_all add: ResolveDeliveryLane_native ResolveDeliveryLane_required Let_def case_prod_beta
          latches_commute latches_fst_Bind)
  qed
  then show ?thesis by (simp add: with_latches_def)
qed

section \<open>Delivery decisions\<close>

text \<open>What a client gets for one file, as a function of its lane and of its pinned base.\<close>

definition delivery_spec :: "Lane \<Rightarrow> bool \<Rightarrow> BaseAvailability \<Rightarrow> bool \<Rightarrow> DeliveryAction" where
  "delivery_spec lane canonical base native =
     (if lane \<noteq> RequiredLane then DaNative
      else if \<not> canonical \<or> base \<noteq> Ready then DaReject
      else if native then DaNative else DaStub)"

definition pinned_base :: "'e World \<Rightarrow> int \<Rightarrow> Generation option" where
  "pinned_base w slot = st_generations (w_state w) (cp_generation (client_of w slot))"

definition native_for :: "'e World \<Rightarrow> int \<Rightarrow> string \<Rightarrow> bool" where
  "native_for w slot path \<longleftrightarrow>
     IsInitFile path \<or>
     (case pinned_base w slot of None \<Rightarrow> True | Some g \<Rightarrow> IsGenerationNativeDelta g path)"

lemma Ready_base:
  assumes "BaseAvailabilityForClient E w (client_of w slot) v = Ready"
  shows "\<exists>g stub. pinned_base w slot = Some g \<and> gen_engineDownloadable g \<and>
    gen_compressedRequiredStub g = Some stub \<and> cp_generation (client_of w slot) \<noteq> ''''"
  using assms
  by (auto simp: BaseAvailabilityForClient_def Let_def pinned_base_def split: if_splits option.splits)

lemma DecideFileBaseline_spec:
  assumes "IsEnabled w" and "IsValidSlot E slot" and w1: "w1 = ResolveDeliveryLane E slot w"
  shows "snd (DecideFileBaselineForClient E slot path w) = w1"
    and "bd_action (fst (DecideFileBaselineForClient E slot path w)) =
      (case delivery_spec (ClientLane (client_of w1 slot)) (SupportsCanonicalRegistration E w)
              (BaseAvailabilityForClient E w1 (client_of w1 slot) False) (native_for w1 slot path) of
         DaNative \<Rightarrow> BaNativeSource | DaStub \<Rightarrow> BaCanonicalStub | DaReject \<Rightarrow> BaReject)"
    and "bd_failure (fst (DecideFileBaselineForClient E slot path w)) = None \<longleftrightarrow>
      bd_action (fst (DecideFileBaselineForClient E slot path w)) \<noteq> BaReject"
  using assms Ready_base [of E w1 slot False]
  by (auto simp: DecideFileBaselineForClient_def Let_def delivery_spec_def SelectFile_def native_for_def
      pinned_base_def accept_baseline_def reject_baseline_def)

text \<open>
  C2. Delivery fails closed.  For every client slot and every file, with the lane resolved
  first: a client off the required lane gets the native file; on the required lane a missing
  hook set or a base that is not ready rejects with a reason and no payload, never falls back to
  native; otherwise the bootstrap and every native delta are native and all other files are the
  pinned generation's stub.  Nothing but the join counters of that client changes.
\<close>

theorem delivery_fails_closed:
  assumes "IsEnabled w" and "IsValidSlot E slot"
  shows "let w1 = ResolveDeliveryLane E slot w; c = client_of w1 slot;
             base = BaseAvailabilityForClient E w1 c False;
             (d, w2) = DecideDeliveryForClient E slot path bytes w
         in dd_action d = delivery_spec (ClientLane c) (SupportsCanonicalRegistration E w) base (native_for w1 slot path) \<and>
            (dd_failure d \<noteq> None) = (dd_action d = DaReject) \<and>
            dd_compressed d =
              (if dd_action d = DaStub
               then (case pinned_base w1 slot of None \<Rightarrow> None | Some g \<Rightarrow> gen_compressedRequiredStub g) else None) \<and>
            (dd_action d = DaStub \<longrightarrow> dd_compressed d \<noteq> None) \<and>
            w2 = (case dd_action d of
                DaNative \<Rightarrow> with_state (RecordNativeJoin slot bytes) w1
              | DaStub \<Rightarrow> if cp_active c then w1
                  else set_client slot (\<lambda>c. c\<lparr>cp_joinRequiredStubs := cp_joinRequiredStubs c + 1\<rparr>) w1
              | DaReject \<Rightarrow> w1)"
proof -
  let ?w1 = "ResolveDeliveryLane E slot w"
  let ?b = "DecideFileBaselineForClient E slot path ?w1"
  have en: "IsEnabled ?w1" by (simp add: assms)
  note spec = DecideFileBaseline_spec [OF en assms(2) refl, of path, unfolded ResolveDeliveryLane_again Resolve_env]
  obtain fb w2 where b: "?b = (fb, w2)" by (cases ?b)
  show ?thesis
  proof (cases "delivery_spec (ClientLane (client_of ?w1 slot)) (SupportsCanonicalRegistration E w)
      (BaseAvailabilityForClient E ?w1 (client_of ?w1 slot) False) (native_for ?w1 slot path)")
    case DaStub
    then have lane: "ClientLane (client_of ?w1 slot) = RequiredLane"
      and ready: "BaseAvailabilityForClient E ?w1 (client_of ?w1 slot) False = Ready"
      by (auto simp: delivery_spec_def split: if_splits)
    from Ready_base [OF ready] obtain g stub where "pinned_base ?w1 slot = Some g"
      "gen_compressedRequiredStub g = Some stub" "cp_generation (client_of ?w1 slot) \<noteq> ''''" by blast
    then show ?thesis
      using assms spec b DaStub lane
      by (simp add: DecideDeliveryForClient_def Let_def case_prod_beta pinned_base_def
          RecordPinnedRequiredStubForClient_def)
  next
    case DaNative
    then show ?thesis
      using assms spec b
      by (simp add: DecideDeliveryForClient_def Let_def case_prod_beta DeliveryDecision_new_def)
  next
    case DaReject
    then show ?thesis
      using assms spec b
      by (simp add: DecideDeliveryForClient_def Let_def case_prod_beta reject_delivery_def)
  qed
qed

theorem delivery_fails_closed_witness:
  "dd_action (fst (DecideDeliveryForClient demo_engine 0 ''@a.lua'' 5 demo_admitted)) = DaStub \<and>
   dd_action (fst (DecideDeliveryForClient demo_engine 0 ''late.lua'' 5 demo_admitted)) = DaNative"
proof -
  note w = demo_world_config [OF conjunct2 [OF demo_baseline]]
  have en: "IsEnabled demo_admitted" using w by simp
  have res: "ResolveDeliveryLane demo_engine 0 demo_admitted = demo_admitted"
    using demo_world_state [OF conjunct2 [OF demo_baseline]]
    by (simp add: ResolveDeliveryLane_def client_of_def demo_state_eval)
  have base: "BaseAvailabilityForClient demo_engine demo_admitted (client_of demo_admitted 0) False = Ready"
    using demo_base_fields w
    by (auto simp: BaseAvailabilityForClient_def demo_client_fields Let_def DataDirectory_def demo_path_def)
  have native: "\<not> native_for demo_admitted 0 ''@a.lua''" "native_for demo_admitted 0 ''late.lua''"
    using demo_base_fields
    by (simp_all add: native_for_def pinned_base_def demo_client_fields IsGenerationNativeDelta_def
        NormalizePath_def IsInitFile_def LocalKeyFormTwo_def StripAddonPrefix_def StartsWith_def)
  show ?thesis
    using delivery_fails_closed [OF en demo_baseClient(6), of "''@a.lua''" 5]
      delivery_fails_closed [OF en demo_baseClient(6), of "''late.lua''" 5]
    by (simp add: res base native demo_client_fields demo_baseClient delivery_spec_def Let_def case_prod_beta)
qed

end
