(* ===== verification/LuaPackFailures.thy ===== *)
theory LuaPackFailures
  imports LuaPackDelivery
begin

text \<open>
  Failure and recovery of required clients across the module: a reported failure either arms one
  native reconnect or disconnects, the reconnect's baseline is native and consumes the latch
  once, and the physical disconnect leaves nothing of the connection behind.
\<close>

section \<open>Epochs\<close>

definition next_serial :: "u64 \<Rightarrow> u64" where
  "next_serial k = (if k + 1 = 0 then k + 1 + 1 else k + 1)"

lemma next_serial_nonzero [simp]: "next_serial k \<noteq> 0"
  by (simp add: next_serial_def)

lemma Pin_frame [simp]:
  "w_cvars (snd (PinCurrentGeneration E slot w)) = w_cvars w"
  "w_engine (snd (PinCurrentGeneration E slot w)) = w_engine w"
  "st_requiredRecovery (w_state (snd (PinCurrentGeneration E slot w))) = st_requiredRecovery (w_state w)"
  "st_recoveryHandoffs (w_state (snd (PinCurrentGeneration E slot w))) = st_recoveryHandoffs (w_state w)"
  "st_nextConnectionSerial (w_state (snd (PinCurrentGeneration E slot w))) = st_nextConnectionSerial (w_state w)"
  by (simp_all add: PinCurrentGeneration_def Let_def split: option.split)

lemma Pin_client [simp]:
  "cp_connectionSerial (st_clients (w_state (snd (PinCurrentGeneration E slot w))) i) =
     cp_connectionSerial (st_clients (w_state w) i)"
  "cp_resolvedIdentity (st_clients (w_state (snd (PinCurrentGeneration E slot w))) i) =
     cp_resolvedIdentity (st_clients (w_state w) i)"
  by (simp_all add: PinCurrentGeneration_def Let_def split: option.split)

lemma ReleasePin_frame [simp]:
  "st_requiredRecovery (ReleasePin slot s) = st_requiredRecovery s"
  "st_recoveryHandoffs (ReleasePin slot s) = st_recoveryHandoffs s"
  "st_nextConnectionSerial (ReleasePin slot s) = st_nextConnectionSerial s"
  "st_clients (ReleasePin slot s) i = (if i = slot then ClientPin_new else st_clients s i)"
  by (simp_all add: ReleasePin_def)

lemma Epoch_frame [simp]:
  "w_cvars (StartClientEpoch E slot w) = w_cvars w"
  "w_engine (StartClientEpoch E slot w) = w_engine w"
  "st_requiredRecovery (w_state (StartClientEpoch E slot w)) = st_requiredRecovery (w_state w)"
  "st_recoveryHandoffs (w_state (StartClientEpoch E slot w)) = st_recoveryHandoffs (w_state w)"
  by (simp_all add: StartClientEpoch_def Let_def split: option.split)

lemma Epoch_client [simp]:
  "cp_connectionSerial (client_of (StartClientEpoch E slot w) slot) =
     next_serial (st_nextConnectionSerial (w_state w))"
  "\<not> cp_resolvedIdentity (client_of (StartClientEpoch E slot w) slot)"
  by (simp_all add: StartClientEpoch_def client_of_def next_serial_def Let_def ClientPin_new_def
      split: option.split)

lemma MarkFallback_frame [simp]:
  "st_requiredRecovery (MarkFallback slot s) = st_requiredRecovery s"
  "st_recoveryHandoffs (MarkFallback slot s) = st_recoveryHandoffs s"
  by (simp_all add: MarkFallback_def)

lemma Bind_frame [simp]:
  "st_requiredRecovery (snd (BindResolvedIdentity b slot s)) = st_requiredRecovery s"
  "st_recoveryHandoffs (snd (BindResolvedIdentity b slot s)) = st_recoveryHandoffs s"
  "st_generations (snd (BindResolvedIdentity b slot s)) = st_generations s"
  by (simp_all add: BindResolvedIdentity_def Let_def split: option.split)

section \<open>The native reconnect\<close>

text \<open>A latch a connection may consume now.\<close>

definition consumable :: "u64 \<Rightarrow> u64 \<Rightarrow> real \<Rightarrow> RequiredRecoveryTracker \<Rightarrow> bool" where
  "consumable account connection now t \<longleftrightarrow>
     (case t account of None \<Rightarrow> False
      | Some e \<Rightarrow> re_phase e = PhArmed \<and> now < re_expiresAt e \<and> re_failedConnection e \<noteq> connection)"

lemma Consume_consumable:
  assumes "consumable account connection now t" and "account \<noteq> 0" and "connection \<noteq> 0"
  shows "fst (RequiredRecoveryTracker_Consume account connection now t) = ConsumeNative"
    and "RequiredRecoveryTracker_OwnsConsumed account connection
      (snd (RequiredRecoveryTracker_Consume account connection now t))"
  using assms
  by (auto simp: consumable_def RequiredRecoveryTracker_Consume_def RequiredRecoveryTracker_OwnsConsumed_def
      split: option.splits)

lemma ConsumeAtBaseline_native:
  assumes b: "b = Some c" "bc_steamIDValid c" "bc_steamID64 c = account" "account \<noteq> 0" "bc_fullyAuthenticated c"
    and latch: "consumable account (next_serial (st_nextConnectionSerial (w_state w))) (ServerTime E w)
      (st_requiredRecovery (w_state w))"
  shows "\<exists>w'. ConsumeAtBaseline E slot b account w = (None, w') \<and>
    ClientLane (client_of w' slot) = NativeRecovery \<and> cp_deliveryLaneResolved (client_of w' slot) \<and>
    cp_steamID64 (client_of w' slot) = account \<and>
    cp_connectionSerial (client_of w' slot) = next_serial (st_nextConnectionSerial (w_state w)) \<and>
    st_recoveryHandoffs (w_state w') = st_recoveryHandoffs (w_state w) \<and>
    RequiredRecoveryTracker_OwnsConsumed account (cp_connectionSerial (client_of w' slot))
      (st_requiredRecovery (w_state w'))"
proof -
  let ?w1 = "StartClientEpoch E slot w"
  let ?w2 = "bind_world b slot ?w1"
  have bound: "fst (BindResolvedIdentity b slot (w_state ?w1))"
    using b Epoch_client(2) [of E slot w] by (simp add: BindResolvedIdentity_def Let_def client_of_def)
  have w2: "?w1\<lparr>w_state := snd (BindResolvedIdentity b slot (w_state ?w1))\<rparr> = ?w2"
    by (simp add: bind_world_def with_state_def)
  have acc: "account_of b = account" and auth: "authenticated b"
    using b by (simp_all add: account_of_def authenticated_def)
  have track: "st_requiredRecovery (w_state ?w2) = st_requiredRecovery (w_state w)"
    by (simp add: bind_world_def)
  have time: "ServerTime E (set_client slot f ?w2) = ServerTime E w" for f
    by (simp add: ServerTime_def)
  have "fst (RequiredRecoveryTracker_Consume account (next_serial (st_nextConnectionSerial (w_state w)))
      (ServerTime E w) (st_requiredRecovery (w_state w))) = ConsumeNative"
    using Consume_consumable [OF latch b(4)] by simp
  moreover have "RequiredRecoveryTracker_OwnsConsumed account (next_serial (st_nextConnectionSerial (w_state w)))
      (snd (RequiredRecoveryTracker_Consume account (next_serial (st_nextConnectionSerial (w_state w)))
        (ServerTime E w) (st_requiredRecovery (w_state w))))"
    using Consume_consumable [OF latch b(4)] by simp
  ultimately show ?thesis
    using bound acc auth track time
    by (simp add: ConsumeAtBaseline_def w2 Let_def case_prod_beta ClientLane_def)
      (simp add: set_client_def set_tracker_def bind_world_def)
qed

lemma BeginPending_handoff:
  assumes b: "GetClientBySlot E w slot = Some c" "bc_steamIDValid c" "bc_fullyAuthenticated c"
    and hand: "matching_handoffs E (bc_steamID64 c) w = [i]" "RequiredRecoveryHandoff_Invoked (handoff_of w i)"
      "ServerTime E w < rrh_expiresAt (handoff_of w i)"
  shows "BeginPendingRecoveryBaseline E slot w =
    ConsumeAtBaseline E slot (Some c) (bc_steamID64 c)
      (set_handoff i (RequiredRecoveryHandoff_Reset (handoff_of w i)) w)"
proof -
  have "i \<in> set (matching_handoffs E (bc_steamID64 c) w)" by (simp add: hand(1))
  then have pend: "rrh_phase (handoff_of w i) \<noteq> HpEmpty" "rrh_account (handoff_of w i) = bc_steamID64 c"
    by (simp_all add: matching_handoffs_def RequiredRecoveryHandoff_Pending_def RequiredRecoveryHandoff_Account_def)
  have "RequiredRecoveryHandoff_BeginBaseline (bc_steamID64 c) True (ServerTime E w) (handoff_of w i) =
      (HrBeginBaseline, RequiredRecoveryHandoff_Reset (handoff_of w i))"
    using pend hand(2,3)
    by (simp add: RequiredRecoveryHandoff_BeginBaseline_def RequiredRecoveryHandoff_Invoked_def)
  then show ?thesis
    using b hand(1) pend
    by (simp add: BeginPendingRecoveryBaseline_def Let_def account_of_def authenticated_def
        RequiredRecoveryHandoff_Account_def)
qed

text \<open>
  C19. The reconnect after a failure really goes native.  When the engine's ServerInfo for an
  authenticated account meets the one invoked, unexpired handoff of that account and an armed,
  unexpired latch of an earlier connection, the baseline decision is native source: the client
  starts a fresh epoch, is on the recovery lane with the same account, owns the consumed latch
  for exactly this epoch, and the handoff is spent.  No configuration of lanes or bases can turn
  it back into a required baseline.
\<close>

theorem recovery_reconnect_goes_native:
  assumes "IsEnabled w" and "IsValidSlot E slot" and "\<not> BaselinePreparationPending E w"
    and b: "GetClientBySlot E w slot = Some c" "bc_steamIDValid c" "bc_fullyAuthenticated c" "bc_steamID64 c \<noteq> 0"
    and hand: "matching_handoffs E (bc_steamID64 c) w = [i]" "RequiredRecoveryHandoff_Invoked (handoff_of w i)"
      "ServerTime E w < rrh_expiresAt (handoff_of w i)"
    and latch: "consumable (bc_steamID64 c) (next_serial (st_nextConnectionSerial (w_state w))) (ServerTime E w)
      (st_requiredRecovery (w_state w))"
  shows "let (d, w') = DecideBaselineForClient E slot w
    in bd_action d = BaNativeSource \<and> ClientLane (client_of w' slot) = NativeRecovery \<and>
       cp_steamID64 (client_of w' slot) = bc_steamID64 c \<and>
       cp_connectionSerial (client_of w' slot) = next_serial (st_nextConnectionSerial (w_state w)) \<and>
       RequiredRecoveryTracker_OwnsConsumed (bc_steamID64 c) (cp_connectionSerial (client_of w' slot))
         (st_requiredRecovery (w_state w')) \<and>
       \<not> RequiredRecoveryHandoff_Pending (handoff_of w' i)"
proof -
  let ?w1 = "set_handoff i (RequiredRecoveryHandoff_Reset (handoff_of w i)) w"
  have frame: "st_nextConnectionSerial (w_state ?w1) = st_nextConnectionSerial (w_state w)"
    "ServerTime E ?w1 = ServerTime E w" "st_requiredRecovery (w_state ?w1) = st_requiredRecovery (w_state w)"
    by (simp_all add: set_handoff_def ServerTime_def)
  obtain w' where w': "ConsumeAtBaseline E slot (Some c) (bc_steamID64 c) ?w1 = (None, w')"
    "ClientLane (client_of w' slot) = NativeRecovery" "cp_deliveryLaneResolved (client_of w' slot)"
    "cp_steamID64 (client_of w' slot) = bc_steamID64 c"
    "cp_connectionSerial (client_of w' slot) = next_serial (st_nextConnectionSerial (w_state w))"
    "st_recoveryHandoffs (w_state w') = st_recoveryHandoffs (w_state ?w1)"
    "RequiredRecoveryTracker_OwnsConsumed (bc_steamID64 c) (cp_connectionSerial (client_of w' slot))
      (st_requiredRecovery (w_state w'))"
    using ConsumeAtBaseline_native [where w = ?w1 and E = E, unfolded frame, OF refl b(2) refl b(4) b(3) latch] by blast
  have lane: "ResolveDeliveryLane E slot w' = w'" using w'(3) by (simp add: ResolveDeliveryLane_def)
  have "\<not> RequiredRecoveryHandoff_Pending (handoff_of w' i)"
    using w'(6) by (simp add: handoff_of_def set_handoff_def RequiredRecoveryHandoff_Pending_def
        RequiredRecoveryHandoff_Reset_def)
  then show ?thesis
    using assms(1-3) w' lane
    by (simp add: DecideBaselineForClient_def BeginPending_handoff [OF b(1-3) hand] Let_def
        NeedsConnectionEpochAtBaseline_def ShouldPinCurrentBaseForBaseline_def SelectBaseline_def accept_baseline_def)
qed

lemma demo_fields:
  "IsEnabled demo_admitted"
  "w_state demo_admitted = demo_admitted_state" "ServerTime demo_engine demo_admitted = 10"
  "cp_requiredLane (client_of demo_admitted 0)" "\<not> cp_requiredRecovery (client_of demo_admitted 0)"
  using demo_world_config [OF conjunct2 [OF demo_baseline]] demo_world_state [OF conjunct2 [OF demo_baseline]]
  by (simp_all add: client_of_def demo_state_eval)

definition demo_reconnecting :: "real World" where
  "demo_reconnecting = set_handoff 0 \<lparr>rrh_phase = HpInvoked, rrh_account = 7, rrh_failedConnection = 1,
       rrh_windowSeconds = 30, rrh_expiresAt = 40\<rparr>
     (set_tracker [7 \<mapsto> \<lparr>re_phase = PhArmed, re_failedConnection = 1, re_recoveryConnection = 0,
       re_expiresAt = 130\<rparr>] demo_admitted)"

theorem recovery_reconnect_goes_native_witness:
  "bd_action (fst (DecideBaselineForClient demo_engine 0 demo_reconnecting)) = BaNativeSource"
proof -
  have state: "st_nextConnectionSerial (w_state demo_reconnecting) = 1"
    "st_requiredRecovery (w_state demo_reconnecting) = [7 \<mapsto> \<lparr>re_phase = PhArmed,
       re_failedConnection = 1, re_recoveryConnection = 0, re_expiresAt = 130\<rparr>]"
    "handoff_of demo_reconnecting 0 = \<lparr>rrh_phase = HpInvoked, rrh_account = 7, rrh_failedConnection = 1,
       rrh_windowSeconds = 30, rrh_expiresAt = 40\<rparr>"
    by (simp_all add: demo_reconnecting_def set_handoff_def set_tracker_def demo_fields handoff_of_def)
      (simp add: demo_state_eval)
  have env: "IsEnabled demo_reconnecting" "ServerTime demo_engine demo_reconnecting = 10"
    using demo_fields(1,3) by (simp_all add: demo_reconnecting_def IsEnabled_def ServerTime_def)
  have "\<not> BaselinePreparationPending demo_engine demo_reconnecting"
    by (simp add: BaselinePreparationPending_def RegistrationRefreshPending_def Let_def env
        UsesCanonicalRegistration_def demo_baseClient InitialMapBasePending_def)
      (simp add: demo_reconnecting_def set_handoff_def set_tracker_def demo_fields, simp add: demo_state_eval)
  moreover have "matching_handoffs demo_engine (bc_steamID64 demo_client) demo_reconnecting = [0]"
    by (simp add: matching_handoffs_def state demo_baseClient RequiredRecoveryHandoff_Pending_def
        RequiredRecoveryHandoff_Account_def, simp add: demo_engine_def upto.simps state)
  moreover have "consumable (bc_steamID64 demo_client) (next_serial 1) 10 [7 \<mapsto> \<lparr>re_phase = PhArmed,
       re_failedConnection = 1, re_recoveryConnection = 0, re_expiresAt = 130\<rparr>]"
    by (simp add: consumable_def demo_baseClient next_serial_def)
  moreover have "bc_fullyAuthenticated demo_client" by (simp add: demo_client_def)
  ultimately show ?thesis
    using recovery_reconnect_goes_native [of demo_reconnecting demo_engine 0 demo_client 0] env state
    by (simp add: demo_baseClient RequiredRecoveryHandoff_Invoked_def Let_def case_prod_beta)
qed

section \<open>Reported failures\<close>

lemma Arm_result:
  assumes "RequiredRecoveryTracker_Arm a f now ttl t = (r, t')"
  shows "r = ArmArmed \<Longrightarrow> t' a = Some \<lparr>re_phase = PhArmed, re_failedConnection = f,
      re_recoveryConnection = 0, re_expiresAt = now + ttl\<rparr> \<and> a \<noteq> 0 \<and> f \<noteq> 0 \<and> 0 < ttl"
    and "\<And>x e. x \<noteq> a \<or> r \<noteq> ArmArmed \<Longrightarrow> t' x = Some e \<Longrightarrow> t x = Some e"
  using assms
  by (auto simp: RequiredRecoveryTracker_Arm_def RequiredRecoveryTracker_EraseExpired_def Let_def
      split: if_splits option.splits)

lemma BindAuth_frame [simp]:
  "st_requiredRecovery (w_state (snd (BindAuthenticatedIdentity E slot w))) = st_requiredRecovery (w_state w)"
  "st_recoveryHandoffs (w_state (snd (BindAuthenticatedIdentity E slot w))) = st_recoveryHandoffs (w_state w)"
  "w_cvars (snd (BindAuthenticatedIdentity E slot w)) = w_cvars w"
  "w_engine (snd (BindAuthenticatedIdentity E slot w)) = w_engine w"
  by (simp_all add: BindAuthenticatedIdentity_def Let_def case_prod_beta split: option.split)

lemma BindAuth_client:
  "cp_requiredLane (client_of (snd (BindAuthenticatedIdentity E slot w)) slot) = cp_requiredLane (client_of w slot)"
  "cp_connectionSerial (client_of (snd (BindAuthenticatedIdentity E slot w)) slot) = cp_connectionSerial (client_of w slot)"
  "fst (BindAuthenticatedIdentity E slot w) \<Longrightarrow>
     cp_steamID64 (client_of (snd (BindAuthenticatedIdentity E slot w)) slot) = account_of (GetClientBySlot E w slot)"
  by (auto simp: BindAuthenticatedIdentity_def Let_def case_prod_beta client_of_def Bind_client
      split: option.splits)

text \<open>The outcome of arming: a queued reconnect together with its latch, or nothing new.\<close>

definition armed_with_handoff :: "'e Engine \<Rightarrow> int \<Rightarrow> 'e World \<Rightarrow> 'e World \<Rightarrow> bool" where
  "armed_with_handoff E slot w w1 \<longleftrightarrow>
     (let account = account_of (GetClientBySlot E w slot); connection = cp_connectionSerial (client_of w slot);
          ttl = cfg_requiredRecoveryTtlSeconds (GetConfig w); window = RecoveryHandoffWindow ttl
      in account \<noteq> 0 \<and> connection \<noteq> 0 \<and> 0 < ttl \<and> 0 < window \<and>
         st_requiredRecovery (w_state w1) account = Some \<lparr>re_phase = PhArmed,
           re_failedConnection = connection, re_recoveryConnection = 0,
           re_expiresAt = ServerTime E w + ttl\<rparr> \<and>
         \<not> RequiredRecoveryHandoff_Pending (handoff_of w slot) \<and>
         handoff_of w1 slot = (handoff_of w slot)\<lparr>rrh_account := account,
           rrh_failedConnection := connection, rrh_windowSeconds := window,
           rrh_expiresAt := ServerTime E w + window, rrh_phase := HpQueued\<rparr>)"

definition nothing_armed :: "'e World \<Rightarrow> 'e World \<Rightarrow> bool" where
  "nothing_armed w w1 \<longleftrightarrow>
     st_recoveryHandoffs (w_state w1) = st_recoveryHandoffs (w_state w) \<and>
     (\<forall>a e. st_requiredRecovery (w_state w1) a = Some e \<longrightarrow> st_requiredRecovery (w_state w) a = Some e)"

lemma set_handoff_same: "set_handoff slot (handoff_of w slot) w = w"
  by (simp add: set_handoff_def handoff_of_def with_state_def)

lemma tracker_set: "st_requiredRecovery (w_state (set_tracker t w)) = t"
  by (simp add: set_tracker_def)

lemma ArmRequiredRecovery_result:
  assumes "ArmRequiredRecovery E slot w = (queued, w1)"
  shows "cp_requiredLane (client_of w1 slot) = cp_requiredLane (client_of w slot)"
    and "queued \<Longrightarrow> armed_with_handoff E slot w w1"
    and "\<not> queued \<Longrightarrow> nothing_armed w w1"
proof -
  obtain ok wb where bind: "BindAuthenticatedIdentity E slot w = (ok, wb)"
    by (cases "BindAuthenticatedIdentity E slot w")
  note frame = BindAuth_frame [of E slot w, unfolded bind snd_conv]
  note client = BindAuth_client [of E slot w, unfolded bind snd_conv fst_conv]
  have time: "ServerTime E (set_tracker t wb) = ServerTime E w" "ServerTime E wb = ServerTime E w" for t
    using frame(4) by (simp_all add: ServerTime_def)
  have hb: "handoff_of (set_tracker t wb) slot = handoff_of w slot" for t
    by (simp add: handoff_of_def set_tracker_def frame)
  have config: "GetConfig wb = GetConfig w" using frame(3) by (simp add: GetConfig_def)
  let ?c = "client_of wb slot"
  let ?ttl = "cfg_requiredRecoveryTtlSeconds (GetConfig w)"
  obtain r t where arm: "RequiredRecoveryTracker_Arm (cp_steamID64 ?c) (cp_connectionSerial ?c)
      (ServerTime E w) ?ttl (st_requiredRecovery (w_state wb)) = (r, t)"
    by (cases "RequiredRecoveryTracker_Arm (cp_steamID64 ?c) (cp_connectionSerial ?c)
      (ServerTime E w) ?ttl (st_requiredRecovery (w_state wb))")
  obtain q h where queue: "RequiredRecoveryHandoff_Queue (cp_steamID64 ?c) (cp_connectionSerial ?c)
      (ServerTime E w) (RecoveryHandoffWindow ?ttl) (handoff_of w slot) = (q, h)"
    by (cases "RequiredRecoveryHandoff_Queue (cp_steamID64 ?c) (cp_connectionSerial ?c)
      (ServerTime E w) (RecoveryHandoffWindow ?ttl) (handoff_of w slot)")
  have h: "\<not> q \<Longrightarrow> h = handoff_of w slot"
    using queue by (auto simp: RequiredRecoveryHandoff_Queue_def split: if_splits)
  let ?ready = "RequiredFailureIdentityReady True (cp_resolvedIdentity ?c) (cp_authenticatedIdentity ?c) \<and> ok \<and>
    RequiredFailureIdentityMatches (cp_resolvedIdentity (client_of w slot)) (cp_steamID64 (client_of w slot)) (cp_steamID64 ?c)"
  let ?cleared = "set_tracker (snd (RequiredRecoveryTracker_Clear (cp_steamID64 ?c) t)) (set_tracker t wb)"
  have result: "(queued, w1) =
      (if \<not> ?ready then (False, wb) else if r \<noteq> ArmArmed then (False, set_tracker t wb)
       else if q then (True, set_handoff slot h (set_tracker t wb)) else (False, ?cleared))"
    using assms queue h set_handoff_same [of slot "set_tracker t wb", unfolded hb] tracker_set [of t wb]
    by (auto simp: ArmRequiredRecovery_def bind Let_def config arm time hb split: prod.splits if_splits)
  show "cp_requiredLane (client_of w1 slot) = cp_requiredLane (client_of w slot)"
    using result client(1) by (auto split: if_splits)
  show "armed_with_handoff E slot w w1" if queued
  proof -
    have ok: "?ready" "r = ArmArmed" "q" "w1 = set_handoff slot h (set_tracker t wb)"
      using result that by (auto split: if_splits)
    then have acc: "cp_steamID64 ?c = account_of (GetClientBySlot E w slot)" using client(3) by blast
    show ?thesis
      using Arm_result(1) [OF arm ok(2)] queue ok(3) client(2) acc
      by (auto simp: armed_with_handoff_def ok(4) RequiredRecoveryHandoff_Queue_def set_handoff_def
          set_tracker_def handoff_of_def Let_def RequiredRecoveryHandoff_Pending_def split: if_splits)
  qed
  show "nothing_armed w w1" if "\<not> queued"
  proof -
    have "w1 = wb \<or> (r \<noteq> ArmArmed \<and> w1 = set_tracker t wb) \<or> w1 = ?cleared"
      using result that by (auto split: if_splits)
    moreover have "cp_steamID64 ?c = 0 \<Longrightarrow> r \<noteq> ArmArmed" using Arm_result(1) [OF arm] by blast
    ultimately show ?thesis
      using Arm_result(2) [OF arm] frame
      by (auto simp: nothing_armed_def set_tracker_def RequiredRecoveryTracker_Clear_def split: if_splits)
  qed
qed

lemma nothing_armed_refl: "nothing_armed w w"
  by (simp add: nothing_armed_def)

text \<open>
  C20. A reported failure of a required client is handled completely.  Unless it is a late
  report of an already recovering connection, the command of a required client either arms
  exactly one latch for the authenticated account of this connection together with the queued
  reconnect of the slot, which needs the exact pinned generation as its argument and the recovery
  enabled, or it disconnects the client with no latch and no handoff added.  There is no outcome
  with an armed latch and no reconnect, or with neither recovery nor disconnect.
\<close>

theorem failed_command_arms_or_disconnects:
  assumes "IsEnabled w" and "IsValidSlot E slot" and "cp_requiredLane (client_of w slot)"
    and "\<not> IgnoresLateFailure slot w"
  shows "(armed_with_handoff E slot w (FailedCommand E slot args w) \<and> length args = 2 \<and>
        args ! 1 = cp_generation (client_of w slot) \<and> args ! 1 \<noteq> '''' \<and>
        \<not> cp_requiredRecovery (client_of w slot) \<and> cfg_requiredRecovery (GetConfig w)) \<or>
    (\<exists>w1. FailedCommand E slot args w = DisconnectRequiredClient E slot w1 \<and> nothing_armed w w1)"
proof -
  let ?c = "client_of w slot"
  let ?exact = "\<not> cp_requiredRecovery ?c \<and> length args = 2 \<and> cp_generation ?c \<noteq> '''' \<and> cp_generation ?c = args ! 1"
  obtain queued w1 where arm: "ArmRequiredRecovery E slot w = (queued, w1)"
    by (cases "ArmRequiredRecovery E slot w")
  have cmd: "FailedCommand E slot args w =
      (if ?exact \<and> cfg_requiredRecovery (GetConfig w) then (if queued then w1 else DisconnectRequiredClient E slot w1)
       else DisconnectRequiredClient E slot w)"
    using assms ArmRequiredRecovery_result(1) [OF arm] by (auto simp: FailedCommand_def Let_def arm)
  show ?thesis
    using cmd ArmRequiredRecovery_result(2,3) [OF arm] nothing_armed_refl [of w] by auto
qed

theorem failed_command_arms_or_disconnects_witness:
  "\<exists>w1. FailedCommand demo_engine 0 [''holylib_luapack_failed''] demo_admitted =
     DisconnectRequiredClient demo_engine 0 w1 \<and> nothing_armed demo_admitted w1"
proof -
  have "\<not> IgnoresLateFailure 0 demo_admitted"
    by (simp add: IgnoresLateFailure_def Let_def ShouldIgnoreLateRecoveryFailure_def demo_fields)
  from failed_command_arms_or_disconnects [OF demo_fields(1) demo_baseClient(6) demo_fields(4) this,
      of "[''holylib_luapack_failed'']"]
  show ?thesis by simp
qed

section \<open>Physical disconnects\<close>

text \<open>
  A physical disconnect leaves nothing of the connection behind but its latch.  Afterwards
  the slot has no pin and no handoff, no slot holds a handoff of the disconnected account, every
  other slot's client and every handoff of other accounts are as before, and the account tracker
  is untouched, so an armed latch survives for the next connection and a consumed one stays
  consumed.
\<close>

theorem physical_disconnect_clears:
  assumes "IsValidSlot E slot"
  shows "let w' = PhysicalClientDisconnect E slot steamID w
    in client_of w' slot = ClientPin_new \<and> \<not> RequiredRecoveryHandoff_Pending (handoff_of w' slot) \<and>
       (\<forall>i. i \<noteq> slot \<longrightarrow> client_of w' i = client_of w i) \<and>
       (\<forall>i. i \<noteq> slot \<and> IsValidSlot E i \<longrightarrow> handoff_of w' i =
          (if steamID \<noteq> 0 \<and> RequiredRecoveryHandoff_Pending (handoff_of w i) \<and>
              RequiredRecoveryHandoff_Account (handoff_of w i) = steamID
           then RequiredRecoveryHandoff_Reset (handoff_of w i) else handoff_of w i)) \<and>
       st_requiredRecovery (w_state w') = st_requiredRecovery (w_state w)"
  using assms
  by (auto simp: PhysicalClientDisconnect_def ClientDisconnect_def PreserveClaimedRecoveryLifecycle_def
      ShouldPreserveRecoveryLifecycle_def ShouldKeepInvokedRecoveryHandoff_def Let_def
      ResetHandoffsOwnedBy_def client_of_def handoff_of_def set_handoff_def set_native_latch_def
      RequiredRecoveryHandoff_Pending_def RequiredRecoveryHandoff_Account_def
      RequiredRecoveryHandoff_ResetIfOwnedBy_def RequiredRecoveryHandoff_Reset_def IsValidSlot_def)

theorem physical_disconnect_clears_witness:
  "client_of (PhysicalClientDisconnect demo_engine 0 7 demo_reconnecting) 0 = ClientPin_new"
  using physical_disconnect_clears [OF demo_baseClient(6), of 7 demo_reconnecting] by (simp add: Let_def)

end
