(* ===== verification/LuaPackStorage.thy ===== *)
theory LuaPackStorage
  imports LuaPackDemo
begin

text \<open>
  What publication does to the disk and to the engine's downloadables table: housekeeping, the
  object budget and the atomic write of the object.  The file system is a parameter; the laws
  below state what the code relies on: an operation on one path leaves the other paths and the
  string table alone, a directory lists each name once, and a rename moves a file.
\<close>

section \<open>File system laws\<close>

definition same_path :: "'e Host \<Rightarrow> string \<Rightarrow> 'e \<Rightarrow> 'e \<Rightarrow> bool" where
  "same_path H p e e' \<longleftrightarrow>
     host_exists H e' p = host_exists H e p \<and> host_readFile H e' p = host_readFile H e p \<and>
     host_fileTime H e' p = host_fileTime H e p"

definition disk_laws :: "'e Host \<Rightarrow> bool" where
  "disk_laws H \<longleftrightarrow>
     (\<forall>e pattern. distinct (map fst (host_findFiles H e pattern))) \<and>
     (\<forall>p e. host_downloadables H (host_remove H p e) = host_downloadables H e) \<and>
     (\<forall>p q e. q \<noteq> p \<longrightarrow> same_path H q e (host_remove H p e)) \<and>
     (\<forall>d q e. same_path H q e (host_createDir H d e)) \<and>
     (\<forall>p b q e. q \<noteq> p \<longrightarrow> same_path H q e (snd (host_writeFile H p b e))) \<and>
     (\<forall>p b e e'. host_writeFile H p b e = (Some (int (length b)), e') \<longrightarrow>
        (\<exists>n data. host_readFile H e' p = Some (n, data) \<and> bytes_of data = b)) \<and>
     (\<forall>p q r e e'. host_rename H p q e = (False, e') \<longrightarrow> same_path H r e e') \<and>
     (\<forall>p q r e e'. host_rename H p q e = (True, e') \<longrightarrow>
        host_exists H e' q \<and> (p \<noteq> q \<longrightarrow> host_readFile H e' q = host_readFile H e p) \<and>
        (r \<noteq> p \<and> r \<noteq> q \<longrightarrow> same_path H r e e'))"

lemma same_path_refl [simp]: "same_path H p e e"
  by (simp add: same_path_def)

lemma same_path_trans: "\<lbrakk>same_path H p e e1; same_path H p e1 e2\<rbrakk> \<Longrightarrow> same_path H p e e2"
  by (simp add: same_path_def)

lemma disk_remove:
  assumes "disk_laws H"
  shows "host_downloadables H (host_remove H p e) = host_downloadables H e"
    and "q \<noteq> p \<Longrightarrow> same_path H q e (host_remove H p e)"
  using assms by (auto simp: disk_laws_def)

lemma disk_write:
  assumes "disk_laws H" and "host_writeFile H p b e = (r, e')"
  shows "q \<noteq> p \<Longrightarrow> same_path H q e e'"
    and "r = Some (int (length b)) \<Longrightarrow> \<exists>n data. host_readFile H e' p = Some (n, data) \<and> bytes_of data = b"
proof -
  have "q \<noteq> p \<longrightarrow> same_path H q e (snd (host_writeFile H p b e))" for q
    using assms(1) by (simp add: disk_laws_def)
  then show "same_path H q e e'" if "q \<noteq> p" using that assms(2) by simp
  show "\<exists>n data. host_readFile H e' p = Some (n, data) \<and> bytes_of data = b" if "r = Some (int (length b))"
    using assms(1) assms(2) [unfolded that] by (simp add: disk_laws_def)
qed

lemma disk_rename:
  assumes "disk_laws H" and "host_rename H p q e = (b, e')"
  shows "\<not> b \<Longrightarrow> same_path H r e e'" and "b \<Longrightarrow> host_exists H e' q"
    and "\<lbrakk>b; p \<noteq> q\<rbrakk> \<Longrightarrow> host_readFile H e' q = host_readFile H e p"
    and "\<lbrakk>b; r \<noteq> p; r \<noteq> q\<rbrakk> \<Longrightarrow> same_path H r e e'"
  using assms by (cases b; simp add: disk_laws_def)+

section \<open>Housekeeping\<close>

text \<open>An entry that housekeeping may delete, judged on the disk as it was at the start.\<close>

definition expired :: "'e Host \<Rightarrow> State \<Rightarrow> real \<Rightarrow> string \<Rightarrow> int \<Rightarrow> 'e \<Rightarrow> string \<Rightarrow> bool" where
  "expired H s retention directory now e filename \<longleftrightarrow>
     IsGenerationObjectName filename \<and> \<not> IsProtectedObject H s e (directory @ ''/'' @ filename) \<and>
     0 < host_fileTime H e (directory @ ''/'' @ filename) \<and>
     retention \<le> of_int (now - host_fileTime H e (directory @ ''/'' @ filename))"

definition counted :: "HousekeepCounts \<Rightarrow> bool" where
  "counted k \<longleftrightarrow> hk_scanned k = hk_protected k + hk_young k + hk_removed k + hk_failed k"

lemma protected_remove:
  assumes "disk_laws H"
  shows "IsProtectedObject H s (host_remove H p e) q = IsProtectedObject H s e q"
  by (simp add: IsProtectedObject_def disk_remove(1) [OF assms])

lemma HousekeepEntry_counted:
  "counted (fst acc) \<Longrightarrow> counted (fst (HousekeepEntry H s retention directory now found acc))"
  by (cases acc; cases found) (auto simp: HousekeepEntry_def Let_def counted_def)

lemma HousekeepEntry_disk:
  "snd (HousekeepEntry H s retention directory now (filename, d) (k, e)) = e \<or>
   snd (HousekeepEntry H s retention directory now (filename, d) (k, e)) =
     host_remove H (directory @ ''/'' @ filename) e \<and>
   \<not> d \<and> expired H s retention directory now e filename"
proof (cases "d \<or> \<not> IsGenerationObjectName filename \<or> IsProtectedObject H s e (directory @ ''/'' @ filename)")
  case True
  then show ?thesis by (auto simp: HousekeepEntry_def Let_def)
next
  case False
  let ?t = "host_fileTime H e (directory @ ''/'' @ filename)"
  show ?thesis
  proof (cases "?t \<le> 0 \<or> now < ?t \<or> real_of_int (now - ?t) < retention")
    case True
    with False show ?thesis by (simp add: HousekeepEntry_def Let_def)
  next
    case old: False
    with False have "expired H s retention directory now e filename" by (auto simp: expired_def)
    then show ?thesis using False old by (simp add: HousekeepEntry_def Let_def)
  qed
qed

lemma housekeep_fold:
  assumes laws: "disk_laws H" and "distinct (map fst found)"
    and "fold (HousekeepEntry H s retention directory now) found (k, e) = (k', e')"
    and "counted k"
  shows "counted k' \<and> host_downloadables H e' = host_downloadables H e \<and>
    (\<forall>p. \<not> same_path H p e e' \<longrightarrow>
       (\<exists>filename. (filename, False) \<in> set found \<and> p = directory @ ''/'' @ filename \<and>
          expired H s retention directory now e filename))"
  using assms(2-4)
proof (induction found arbitrary: k e)
  case Nil
  then show ?case by simp
next
  case (Cons x found)
  obtain filename d where x: "x = (filename, d)" by fastforce
  have fresh: "filename \<notin> fst ` set found" "distinct (map fst found)" using Cons.prems(1) by (auto simp: x)
  show ?case
  proof -
    let ?p = "directory @ ''/'' @ filename"
    obtain k1 e1 where he: "HousekeepEntry H s retention directory now (filename, d) (k, e) = (k1, e1)" by fastforce
    have step: "fold (HousekeepEntry H s retention directory now) found (k1, e1) = (k', e')" "counted k1"
      using Cons.prems(2) HousekeepEntry_counted [of "(k, e)" H s retention directory now "(filename, d)"]
        Cons.prems(3) by (simp_all add: x he)
    note ih = Cons.IH [OF fresh(2) step]
    consider "e1 = e" | "e1 = host_remove H ?p e" "\<not> d" "expired H s retention directory now e filename"
      using HousekeepEntry_disk [of H s retention directory now filename d k e] by (auto simp: he)
    then show ?thesis
    proof cases
      case 1
      then have ih': "\<forall>p. \<not> same_path H p e e' \<longrightarrow> (\<exists>f. (f, False) \<in> set found \<and>
          p = directory @ ''/'' @ f \<and> expired H s retention directory now e f)" using ih by blast
      have "\<exists>f. (f, False) \<in> set (x # found) \<and> p = directory @ ''/'' @ f \<and>
          expired H s retention directory now e f" if "\<not> same_path H p e e'" for p
      proof -
        from ih' [rule_format, OF that] obtain f where "(f, False) \<in> set found" "p = directory @ ''/'' @ f"
          "expired H s retention directory now e f" by blast
        then show ?thesis by (intro exI [of _ f]) simp
      qed
      then show ?thesis using ih 1 by blast
    next
      case 2
      have same: "same_path H q e e1" if "q \<noteq> ?p" for q
        unfolding 2(1) by (rule disk_remove(2) [OF laws that])
      have exp: "expired H s retention directory now e1 f = expired H s retention directory now e f"
        if "f \<noteq> filename" for f
        using same [of "directory @ ''/'' @ f"] that
        by (simp add: expired_def 2(1) protected_remove [OF laws] same_path_def)
      have "\<exists>f. (f, False) \<in> set (x # found) \<and> p = directory @ ''/'' @ f \<and>
          expired H s retention directory now e f" if ne: "\<not> same_path H p e e'" for p
      proof (cases "p = ?p")
        case True
        then show ?thesis using 2(2,3) by (intro exI [of _ filename]) (simp add: x)
      next
        case False
        have "\<not> same_path H p e1 e'" using ne same_path_trans [OF same [OF False]] by blast
        from ih [THEN conjunct2, THEN conjunct2, rule_format, OF this] obtain f where f: "(f, False) \<in> set found" "p = directory @ ''/'' @ f"
          "expired H s retention directory now e1 f" by blast
        moreover have "f \<noteq> filename" using f(2) False by auto
        ultimately show ?thesis using exp by (intro exI [of _ f]) simp
      qed
      moreover have "host_downloadables H e' = host_downloadables H e"
        using ih disk_remove(1) [OF laws] 2(1) by metis
      ultimately show ?thesis using ih by blast
    qed
  qed
qed

text \<open>
  C26. Housekeeping only deletes what nobody can still need.  It changes no path (neither its
  existence nor its contents nor its time) except files of the pack directory that are named like
  a generation object, are at least as old as the configured retention of objects and that of
  generations, and are neither the object of a generation the server holds nor listed in the
  downloadables table of the level; with a retention of zero it changes nothing; it changes
  neither that table nor the module's state, and its report accounts for every object scanned.
\<close>

theorem housekeeping_safe:
  assumes "disk_laws H" and "HousekeepObjects H w = (k, w')"
  shows "w_state w' = w_state w \<and> w_cvars w' = w_cvars w \<and>
    hk_scanned k = hk_protected k + hk_young k + hk_removed k + hk_failed k \<and>
    host_downloadables H (w_engine w') = host_downloadables H (w_engine w) \<and>
    (\<forall>p. \<not> same_path H p (w_engine w) (w_engine w') \<longrightarrow>
       0 < cfg_objectRetentionSeconds (GetConfig w) \<and>
       (\<exists>filename. p = DataDirectory (cfg_packDirectory (GetConfig w)) @ ''/'' @ filename \<and>
          IsGenerationObjectName filename \<and> \<not> IsProtectedObject H (w_state w) (w_engine w) p \<and>
          0 < host_fileTime H (w_engine w) p \<and>
          max (cfg_objectRetentionSeconds (GetConfig w)) (cfg_generationRetentionSeconds (GetConfig w)) \<le>
            of_int (host_time H (w_engine w) - host_fileTime H (w_engine w) p)))"
proof (cases "cfg_objectRetentionSeconds (GetConfig w) \<le> 0 \<or> cfg_packDirectory (GetConfig w) = ''''")
  case True
  then have "k = HousekeepCounts_new \<and> w' = w" using assms(2) by (simp add: HousekeepObjects_def Let_def)
  then show ?thesis by (simp add: HousekeepCounts_new_def same_path_def)
next
  case False
  let ?dir = "DataDirectory (cfg_packDirectory (GetConfig w))"
  let ?retention = "cfg_objectRetentionSeconds (GetConfig w)"
  let ?found = "host_findFiles H (w_engine w) (?dir @ ''/*.bsp'')"
  have retention: "max ?retention (cfg_generationRetentionSeconds (GetConfig w)) = ?retention"
    using False by (auto simp: GetConfig_def RefreshConfig_def)
  obtain k1 e where f: "fold (HousekeepEntry H (w_state w) ?retention ?dir (host_time H (w_engine w))) ?found
      (HousekeepCounts_new, w_engine w) = (k1, e)" by fastforce
  have w': "k = k1" "w' = w\<lparr>w_engine := e\<rparr>"
    using assms(2) False f by (auto simp: HousekeepObjects_def Let_def)
  have "distinct (map fst ?found)" using assms(1) by (simp add: disk_laws_def)
  moreover have "counted HousekeepCounts_new" by (simp add: counted_def HousekeepCounts_new_def)
  ultimately have r: "counted k1 \<and> host_downloadables H e = host_downloadables H (w_engine w) \<and>
    (\<forall>p. \<not> same_path H p (w_engine w) e \<longrightarrow>
       (\<exists>filename. (filename, False) \<in> set ?found \<and> p = ?dir @ ''/'' @ filename \<and>
          expired H (w_state w) ?retention ?dir (host_time H (w_engine w)) (w_engine w) filename))"
    by (rule housekeep_fold [OF assms(1) _ f])
  then have "\<exists>filename. p = ?dir @ ''/'' @ filename \<and> IsGenerationObjectName filename \<and>
      \<not> IsProtectedObject H (w_state w) (w_engine w) p \<and> 0 < host_fileTime H (w_engine w) p \<and>
      ?retention \<le> of_int (host_time H (w_engine w) - host_fileTime H (w_engine w) p)"
    if "\<not> same_path H p (w_engine w) e" for p
    using that unfolding expired_def by metis
  then show ?thesis using r False unfolding w' retention by (simp add: counted_def)
qed

section \<open>A concrete disk\<close>

record Disk =
  dk_files :: "string \<rightharpoonup> int \<times> string"
  dk_downloadables :: "string option list"

definition old_object :: string where
  "old_object = replicate 32 CHR ''b'' @ ''.bsp''"

definition disk_host :: "Disk Host" where
  "disk_host = \<lparr>host_createDir = (\<lambda>_ e. e),
     host_readFile = (\<lambda>e p. map_option (\<lambda>(t, d). (of_nat (length d), d)) (dk_files e p)),
     host_writeFile = (\<lambda>p b e. (Some (int (length b)), e\<lparr>dk_files := (dk_files e)(p \<mapsto> (0, map (\<lambda>x. char_of (unat x)) b))\<rparr>)),
     host_rename = (\<lambda>p q e. case dk_files e p of None \<Rightarrow> (False, e)
       | Some x \<Rightarrow> (True, e\<lparr>dk_files := (dk_files e)(p := None, q \<mapsto> x)\<rparr>)),
     host_remove = (\<lambda>p e. e\<lparr>dk_files := (dk_files e)(p := None)\<rparr>),
     host_exists = (\<lambda>e p. dk_files e p \<noteq> None),
     host_findFiles = (\<lambda>e _. filter (\<lambda>(f, _). dk_files e (''data/p/'' @ f) \<noteq> None) [(old_object, False)]),
     host_fileTime = (\<lambda>e p. case dk_files e p of None \<Rightarrow> 0 | Some (t, _) \<Rightarrow> t),
     host_size = (\<lambda>_ _. 0), host_time = (\<lambda>_. 100), host_entropy = (\<lambda>_ _. ''''),
     host_downloadUrl = (\<lambda>_. Some ''''), host_setDownloadUrl = (\<lambda>_ e. e),
     host_downloadables = (\<lambda>e. Some (dk_downloadables e)),
     host_addString = (\<lambda>p e. (True, e\<lparr>dk_downloadables := dk_downloadables e @ [Some p]\<rparr>)),
     host_packBuiltHook = (\<lambda>_ _ w. w), host_httpSend = (\<lambda>_ _. Inl '''')\<rparr>"

lemma u8_char: "(of_char (char_of (unat b) :: char) :: u8) = b" for b :: u8
proof -
  have "(of_char (char_of (unat b) :: char) :: u8) = of_nat (of_char (char_of (unat b) :: char))"
    by (simp only: of_nat_of_char)
  also have "\<dots> = of_nat (unat b mod 256)" by (simp only: of_char_of)
  also have "\<dots> = b" using unat_bound [of b] by simp
  finally show ?thesis .
qed

lemma disk_host_laws: "disk_laws disk_host"
  by (auto simp: disk_laws_def disk_host_def same_path_def bytes_of_def o_def u8_char intro!: map_idI split: option.splits)

definition demo_full_disk :: "Disk World" where
  "demo_full_disk = \<lparr>w_state = State_new, w_cvars = demo_cvars\<lparr>cv_object_retention_ttl := 10, cv_retention_ttl := 10\<rparr>,
     w_engine = \<lparr>dk_files = [''data/p/'' @ old_object \<mapsto> (50, ''x'')], dk_downloadables = []\<rparr>\<rparr>"

theorem housekeeping_safe_witness:
  "IsGenerationObjectName old_object \<and>
   host_exists disk_host (w_engine demo_full_disk) (''data/p/'' @ old_object) \<and>
   \<not> host_exists disk_host (w_engine (snd (HousekeepObjects disk_host demo_full_disk))) (''data/p/'' @ old_object)"
proof -
  let ?p = "''data/p/'' @ old_object"
  let ?w' = "snd (HousekeepObjects disk_host demo_full_disk)"
  have name: "IsGenerationObjectName old_object" by (simp add: IsGenerationObjectName_def old_object_def)
  have "DataDirectory ''p'' @ ''/'' @ old_object = ?p" by (simp add: DataDirectory_def)
  then have gone: "host_exists disk_host (w_engine demo_full_disk) ?p"
    "\<not> host_exists disk_host (w_engine ?w') ?p"
    by (simp_all add: HousekeepObjects_def Let_def demo_full_disk_def GetConfig_def RefreshConfig_def demo_cvars_def
        disk_host_def HousekeepEntry_def name IsProtectedObject_def State_new_def DataDirectory_def)
  have eq: "HousekeepObjects disk_host demo_full_disk = (fst (HousekeepObjects disk_host demo_full_disk), ?w')" by simp
  have "\<not> same_path disk_host ?p (w_engine demo_full_disk) (w_engine ?w')" using gone by (simp add: same_path_def)
  with housekeeping_safe [OF disk_host_laws eq] obtain f where
    "?p = DataDirectory ''p'' @ ''/'' @ f" "IsGenerationObjectName f"
    by (auto simp: demo_full_disk_def GetConfig_def RefreshConfig_def demo_cvars_def)
  then show ?thesis using gone by (simp add: DataDirectory_def)
qed

section \<open>The download budget\<close>

text \<open>The engine's string table: a successful add appends the string, a failed one does nothing.\<close>

definition string_table_laws :: "'e Host \<Rightarrow> bool" where
  "string_table_laws H \<longleftrightarrow>
     (\<forall>e p strings r e'. host_downloadables H e = Some strings \<and> host_addString H p e = (r, e') \<longrightarrow>
        host_downloadables H e' = Some (if r then strings @ [Some p] else strings))"

lemma count_pack_objects_append:
  "count_pack_objects prefix (xs @ ys) c = count_pack_objects prefix ys (count_pack_objects prefix xs c)"
  by (induction xs arbitrary: c) simp_all

lemma u32_below_max: "(n :: u32) < l \<Longrightarrow> n + 1 \<le> max m l"
  by (simp add: inc_le max.coboundedI2)

text \<open>
  The level's download list stays within its budget.  Registering an object either finds or
  appends it, so the clients are told to download it, or leaves the table as it was; it never
  brings the number of pack objects in the table above the larger of the configured limit and
  what was there; and it refuses for the budget exactly when the object is new and the limit is
  reached.
\<close>

theorem downloadable_budget:
  assumes "string_table_laws H" and "RegisterDownloadable H resourcePath packDirectory limit e = (r, e')"
  shows "(r = DrRegistered \<longrightarrow> (\<exists>strings. host_downloadables H e' = Some strings \<and> Some resourcePath \<in> set strings)) \<and>
    (r \<noteq> DrRegistered \<longrightarrow> host_downloadables H e' = host_downloadables H e) \<and>
    RegisteredPackObjectCount (host_downloadables H e') packDirectory \<le>
      max (RegisteredPackObjectCount (host_downloadables H e) packDirectory) limit \<and>
    (r = DrBudgetExhausted \<longleftrightarrow>
      (\<exists>strings. host_downloadables H e = Some strings \<and> Some resourcePath \<notin> set strings \<and>
         limit \<le> RegisteredPackObjectCount (Some strings) packDirectory))"
proof (cases "host_downloadables H e")
  case None
  then show ?thesis using assms(2) by (auto simp: RegisterDownloadable_def)
next
  case (Some strings)
  consider (old) "Some resourcePath \<in> set strings"
    | (full) "Some resourcePath \<notin> set strings" "limit \<le> RegisteredPackObjectCount (Some strings) packDirectory"
    | (add) "Some resourcePath \<notin> set strings" "RegisteredPackObjectCount (Some strings) packDirectory < limit"
    by (meson linorder_not_le)
  then show ?thesis
  proof cases
    case add
    obtain b e1 where h: "host_addString H resourcePath e = (b, e1)" by fastforce
    have t: "host_downloadables H e1 = Some (if b then strings @ [Some resourcePath] else strings)"
      using assms(1) Some h unfolding string_table_laws_def by blast
    have r: "r = (if b then DrRegistered else DrFailed)" "e' = e1"
      using assms(2) add(1) linorder_not_le [THEN iffD2, OF add(2)]
      by (auto simp: RegisterDownloadable_def Some h split: bool.splits if_splits)
    have "RegisteredPackObjectCount (Some (strings @ [Some resourcePath])) packDirectory \<le>
        max (RegisteredPackObjectCount (Some strings) packDirectory) limit"
      using u32_below_max [OF add(2)]
      by (simp add: RegisteredPackObjectCount_def count_pack_objects_append)
    then show ?thesis using t r Some add by (cases b) (auto simp: max_def)
  qed (use assms(2) Some in \<open>auto simp: RegisterDownloadable_def\<close>)
qed

theorem downloadable_budget_witness:
  "RegisteredPackObjectCount (Some [Some (''data/p/'' @ old_object)]) ''p'' \<le> max 0 1"
proof -
  let ?e = "\<lparr>dk_files = Map.empty, dk_downloadables = []\<rparr>"
  have "string_table_laws disk_host" by (auto simp: string_table_laws_def disk_host_def)
  moreover have "RegisterDownloadable disk_host (''data/p/'' @ old_object) ''p'' 1 ?e =
      (DrRegistered, ?e\<lparr>dk_downloadables := [Some (''data/p/'' @ old_object)]\<rparr>)"
    by (simp add: RegisterDownloadable_def disk_host_def RegisteredPackObjectCount_def)
  ultimately show ?thesis
    using downloadable_budget [of disk_host "''data/p/'' @ old_object" "''p''" 1 ?e]
    by (simp add: disk_host_def RegisteredPackObjectCount_def)
qed

section \<open>Writing the object\<close>

text \<open>
  C27. The object appears under its final name complete or not at all.  Writing a build's object
  leaves every path but its own and its temporary file alone; when it reports success the object
  exists, and unless it existed already (in which case nothing is written) it holds exactly the
  compressed bytes; when it reports failure, whatever step failed, the object's path is as it was.
\<close>

theorem object_written_atomically:
  assumes "disk_laws H" and "length (bt_compressed task) < 2147483648"
    and "WriteImmutableObject H task e = ((ok, path), e')"
  shows "path = DataDirectory (bt_packDirectory task) @ ''/'' @ bt_md5 task @ ''.bsp'' \<and>
    (host_exists H e path \<longrightarrow> ok \<and> e' = e) \<and>
    (ok \<longrightarrow> host_exists H e' path) \<and>
    (ok \<and> \<not> host_exists H e path \<longrightarrow>
      (\<exists>n data. host_readFile H e' path = Some (n, data) \<and> bytes_of data = bt_compressed task)) \<and>
    (\<not> ok \<longrightarrow> same_path H path e e') \<and>
    (\<forall>q. q \<noteq> path \<and> q \<noteq> path @ ''.tmp.'' @ to_string (unat (bt_sourceRevision task)) \<longrightarrow> same_path H q e e')"
proof -
  let ?p = "DataDirectory (bt_packDirectory task) @ ''/'' @ bt_md5 task @ ''.bsp''"
  let ?t = "?p @ ''.tmp.'' @ to_string (unat (bt_sourceRevision task))"
  let ?e1 = "host_createDir H (DataDirectory (bt_packDirectory task)) e"
  have ne: "?t \<noteq> ?p" by simp
  have len: "sint (of_nat (length (bt_compressed task)) :: 32 word) = int (length (bt_compressed task))"
    using assms(2) by (simp add: signed_of_nat signed_take_bit_int_eq_self)
  have p: "path = ?p"
    using assms(3) by (auto simp: WriteImmutableObject_def Let_def split: if_splits prod.splits option.splits bool.splits)
  show ?thesis
  proof (cases "host_exists H e ?p")
    case True
    then show ?thesis using assms(3) p by (auto simp: WriteImmutableObject_def Let_def)
  next
    case False
    have failed: ?thesis if "\<not> ok" and s: "\<And>q. q \<noteq> ?t \<Longrightarrow> same_path H q e e'"
    proof -
      have same: "same_path H path e e'" unfolding p by (rule s [OF ne [symmetric]])
      have rest: "\<forall>q. q \<noteq> path \<and> q \<noteq> path @ ''.tmp.'' @ to_string (unat (bt_sourceRevision task)) \<longrightarrow>
          same_path H q e e'"
        using s unfolding p by simp
      show ?thesis using p that(1) same rest False by simp
    qed
    obtain wr e2 where w: "host_writeFile H ?t (bt_compressed task) ?e1 = (wr, e2)" by fastforce
    have dir: "same_path H q e ?e1" for q using assms(1) by (simp add: disk_laws_def)
    have e2: "same_path H q e e2" if "q \<noteq> ?t" for q
      by (rule same_path_trans [OF dir disk_write(1) [OF assms(1) w that]])
    have rm: "same_path H q e (host_remove H ?t e3)" if "same_path H q e e3" "q \<noteq> ?t" for q e3
      by (rule same_path_trans [OF that(1) disk_remove(2) [OF assms(1) that(2)]])
    show ?thesis
    proof (cases "wr = Some (int (length (bt_compressed task)))")
      case short: False
      then have f: "\<not> ok" "e' = e2 \<or> e' = host_remove H ?t e2"
        using assms(3) False w unfolding WriteImmutableObject_def Let_def len
        by (auto split: option.splits if_splits)
      show ?thesis
      proof (rule failed [OF f(1)])
        show "same_path H q e e'" if "q \<noteq> ?t" for q
          using f(2) e2 [OF that] rm [OF e2 [OF that] that] by (elim disjE) simp_all
      qed
    next
      case full: True
      obtain mv e3 where m: "host_rename H ?t ?p e2 = (mv, e3)" by fastforce
      have r: "ok = mv \<and> e' = (if mv then e3 else host_remove H ?t e3)"
        using assms(3) False w m full unfolding WriteImmutableObject_def Let_def len
        by (auto split: bool.splits)
      note ren = disk_rename [OF assms(1) m]
      show ?thesis
      proof (cases mv)
        case True
        obtain n data where d: "host_readFile H e2 ?t = Some (n, data)" "bytes_of data = bt_compressed task"
          using disk_write(2) [OF assms(1) w full] by (elim exE conjE)
        have new: "host_exists H e3 ?p" "host_readFile H e3 ?p = Some (n, data)"
          using ren(2) [OF True] ren(3) [OF True ne] d(1) by simp_all
        have others: "same_path H q e e3" if "q \<noteq> ?t" "q \<noteq> ?p" for q
          by (rule same_path_trans [OF e2 [OF that(1)] ren(4) [OF True that]])
        have "ok" "e' = e3" using r True by simp_all
        then show ?thesis using new d(2) False others p by simp
      next
        case no: False
        show ?thesis
        proof (rule failed)
          show "\<not> ok" using r no by simp
          show "same_path H q e e'" if "q \<noteq> ?t" for q
            using rm [OF same_path_trans [OF e2 [OF that] ren(1) [OF no]] that] r no by simp
        qed
      qed
    qed
  qed
qed

theorem object_written_atomically_witness:
  "host_exists disk_host (snd (WriteImmutableObject disk_host
     (demo_task\<lparr>bt_compressed := [1, 2], bt_md5 := replicate 32 CHR ''b''\<rparr>) \<lparr>dk_files = Map.empty, dk_downloadables = []\<rparr>))
     (''data/p/'' @ old_object)"
proof -
  let ?task = "demo_task\<lparr>bt_compressed := [1, 2], bt_md5 := replicate 32 CHR ''b''\<rparr>"
  let ?e = "\<lparr>dk_files = Map.empty, dk_downloadables = []\<rparr>"
  have ok: "fst (WriteImmutableObject disk_host ?task ?e) = (True, ''data/p/'' @ old_object)"
    by (simp add: WriteImmutableObject_def Let_def disk_host_def demo_task_def DataDirectory_def old_object_def)
  have l: "length (bt_compressed ?task) < 2147483648" by simp
  have eq: "WriteImmutableObject disk_host ?task ?e =
      ((True, ''data/p/'' @ old_object), snd (WriteImmutableObject disk_host ?task ?e))"
    using ok by (metis prod.collapse)
  show ?thesis using object_written_atomically [OF disk_host_laws l eq] by blast
qed

end
