(* ===== verification/ClientBootstrap.thy ===== *)
theory ClientBootstrap
  imports LuaPackFailures
begin

text \<open>
  The client side of the pack: the part of the Lua bootstrap embedded in
  \<^verbatim>\<open>gmoddatapack_luapack.cpp\<close> that reads the manifest snapshot, mounts the downloaded
  object and looks sources up.  A Lua string is a byte string; a table is a map; a \<^verbatim>\<open>false\<close>
  entry of the alias table is \<open>Some None\<close>.  The game's \<^verbatim>\<open>file.Read\<close>,
  \<^verbatim>\<open>util.Decompress\<close> and \<^verbatim>\<open>util.MD5\<close> are parameters.
\<close>

section \<open>Hexadecimal\<close>

fun fromHex_pairs :: "string \<Rightarrow> string" where
  "fromHex_pairs (a # b # rest) =
     (case (hex_digit a, hex_digit b) of
        (Some x, Some y) \<Rightarrow> char_of (x * 16 + y) # fromHex_pairs rest
      | _ \<Rightarrow> [])"
| "fromHex_pairs _ = []"

definition fromHex :: "string \<Rightarrow> string option" where
  "fromHex value =
     (if length value mod 2 \<noteq> 0 \<or> \<not> list_all is_hex value then None else Some (fromHex_pairs value))"

definition toHex :: "u8 list \<Rightarrow> string" where
  "toHex value = concat (map (\<lambda>byte. [hex_char (drop_bit 4 byte), hex_char byte]) value)"

section \<open>The manifest snapshot\<close>

record Manifest =
  mf_generation :: string
  mf_md5 :: string
  mf_salt :: string
  mf_resource :: string

definition is_digit :: "char \<Rightarrow> bool" where
  "is_digit c \<longleftrightarrow> CHR ''0'' \<le> c \<and> c \<le> CHR ''9''"

text \<open>One capture of the pattern followed by a bar: the longest prefix in the class.\<close>

definition bar_field :: "(char \<Rightarrow> bool) \<Rightarrow> bool \<Rightarrow> string \<Rightarrow> (string \<times> string) option" where
  "bar_field class nonempty s =
     (let field = takeWhile class s
      in case dropWhile class s of
           [] \<Rightarrow> None
         | c # rest \<Rightarrow> if c = CHR ''|'' \<and> (nonempty \<longrightarrow> field \<noteq> []) then Some (field, rest) else None)"

definition not_bar :: "char \<Rightarrow> bool" where
  "not_bar c \<longleftrightarrow> c \<noteq> CHR ''|''"

definition match_snapshot :: "string \<Rightarrow> (string \<times> string \<times> string \<times> string \<times> string) option" where
  "match_snapshot value =
     (case bar_field is_digit True value of
        None \<Rightarrow> None
      | Some (version, r1) \<Rightarrow>
          (case bar_field not_bar True r1 of
             None \<Rightarrow> None
           | Some (currentGeneration, r2) \<Rightarrow>
               (case bar_field not_bar False r2 of
                  None \<Rightarrow> None
                | Some (packDirectoryHex, r3) \<Rightarrow>
                    (case bar_field not_bar False r3 of
                       None \<Rightarrow> None
                     | Some (saltHex, generationList) \<Rightarrow>
                         Some (version, currentGeneration, packDirectoryHex, saltHex, generationList)))))"

definition snapshot_manifests :: "string \<Rightarrow> string \<Rightarrow> string \<Rightarrow> string \<rightharpoonup> Manifest" where
  "snapshot_manifests packDirectory salt generationList =
     foldl (\<lambda>m entry.
         if length entry = 32 \<and> list_all is_hex entry
         then m(entry \<mapsto> \<lparr>mf_generation = entry, mf_md5 = map ascii_lower entry, mf_salt = salt,
                 mf_resource = ''data/'' @ packDirectory @ ''/'' @ entry @ ''.bsp''\<rparr>)
         else m)
       Map.empty (filter (\<lambda>entry. entry \<noteq> []) (split_at CHR '';'' generationList))"

definition parseSnapshot :: "string \<Rightarrow> (string \<times> (string \<rightharpoonup> Manifest)) option" where
  "parseSnapshot value =
     (case match_snapshot value of
        None \<Rightarrow> None
      | Some (version, currentGeneration, packDirectoryHex, saltHex, generationList) \<Rightarrow>
          (case (fromHex packDirectoryHex, fromHex saltHex) of
             (Some packDirectory, Some salt) \<Rightarrow>
               if version \<noteq> ''1'' then None
               else Some (currentGeneration, snapshot_manifests packDirectory salt generationList)
           | _ \<Rightarrow> None))"

section \<open>Mounting a pack\<close>

record ClientPack =
  pk_vfs :: "string \<rightharpoonup> u8 list"
  pk_vfsLCL :: "string \<rightharpoonup> u8 list option"
  pk_salt :: string
  pk_manifest :: Manifest

definition registerLocal :: "string \<Rightarrow> u8 list \<Rightarrow> ClientPack \<Rightarrow> ClientPack" where
  "registerLocal key source pack =
     (case pk_vfsLCL pack key of
        None \<Rightarrow> pack\<lparr>pk_vfsLCL := (pk_vfsLCL pack)(key \<mapsto> Some source)\<rparr>
      | Some existing \<Rightarrow>
          if existing \<noteq> Some source then pack\<lparr>pk_vfsLCL := (pk_vfsLCL pack)(key \<mapsto> None)\<rparr> else pack)"

definition be_length :: "u8 list \<Rightarrow> nat" where
  "be_length b = unat (b ! 0) * 16777216 + unat (b ! 1) * 65536 + unat (b ! 2) * 256 + unat (b ! 3)"

text \<open>The loop at the cursor; \<open>d\<close> is what the cursor has not passed.\<close>

function parsePack_loop :: "u8 list \<Rightarrow> ClientPack \<Rightarrow> string + ClientPack" where
  "parsePack_loop d pack =
     (if d = [] then Inr pack
      else if length d < 52 then Inl ''truncated entry header''
      else
        (let sourceKey = toHex (take 16 d);
             localKeyOne = toHex (take 16 (drop 16 d));
             localKeyTwo = toHex (take 16 (drop 32 d));
             n = be_length (take 4 (drop 48 d))
         in if length (drop 52 d) < n then Inl ''truncated entry payload''
            else
              (let source = take n (drop 52 d)
               in if pk_vfs pack sourceKey \<noteq> None then Inl ''duplicate exact source key''
                  else parsePack_loop (drop (52 + n) d)
                    (registerLocal localKeyTwo source (registerLocal localKeyOne source
                      (pack\<lparr>pk_vfs := (pk_vfs pack)(sourceKey \<mapsto> source)\<rparr>))))))"
  by auto

termination
  by (relation "measure (length \<circ> fst)") auto

declare parsePack_loop.simps [simp del]

definition parsePack :: "u8 list \<Rightarrow> Manifest \<Rightarrow> string + ClientPack" where
  "parsePack contents manifest =
     (if length contents < 1 \<or> contents ! 0 \<noteq> 1 then Inl ''unsupported pack version''
      else parsePack_loop (drop 1 contents)
        \<lparr>pk_vfs = Map.empty, pk_vfsLCL = Map.empty, pk_salt = mf_salt manifest, pk_manifest = manifest\<rparr>)"

record Game =
  game_read :: "string \<Rightarrow> u8 list option"
  game_decompress :: "u8 list \<Rightarrow> u8 list option"
  game_md5 :: "u8 list \<Rightarrow> string"

definition tryMount :: "Game \<Rightarrow> Manifest \<Rightarrow> string + ClientPack" where
  "tryMount G manifest =
     (case game_read G (''download/'' @ mf_resource manifest) of
        None \<Rightarrow> Inl ''is unavailable''
      | Some compressed \<Rightarrow>
          (case game_decompress G compressed of
             None \<Rightarrow> Inl ''could not be decompressed''
           | Some contents \<Rightarrow>
               if map ascii_lower (game_md5 G contents) \<noteq> mf_md5 manifest
               then Inl ''failed its generation MD5 check''
               else
                 (case parsePack contents manifest of
                    Inl parseError \<Rightarrow> Inl (''is invalid ('' @ parseError @ '')'')
                  | Inr pack \<Rightarrow> Inr pack)))"

section \<open>Looking a source up\<close>

definition strip_lit :: "string \<Rightarrow> string \<Rightarrow> string" where
  "strip_lit lit s = (if starts_with s lit then drop (length lit) s else s)"

text \<open>\<^verbatim>\<open>string.gsub(s, "^" .. lit .. "[^/]+/" .. tail, "")\<close>.\<close>

definition strip_segment :: "string \<Rightarrow> string \<Rightarrow> string \<Rightarrow> string" where
  "strip_segment lit tail' s =
     (let rest = drop (length lit) s; after = dropWhile (\<lambda>c. c \<noteq> CHR ''/'') rest
      in if starts_with s lit \<and> takeWhile (\<lambda>c. c \<noteq> CHR ''/'') rest \<noteq> [] \<and>
            starts_with after (''/'' @ tail') then drop (length tail' + 1) after else s)"

definition normalizedForms :: "string \<Rightarrow> string \<times> string \<times> string" where
  "normalizedForms path0 =
     (let path = map (\<lambda>c. if c = CHR 0x5C then CHR ''/'' else c) (strip_lit ''@'' path0);
          first = strip_lit ''lua/'' (strip_lit ''gamemodes/''
            (strip_segment ''gamemodes/'' ''entities/'' (strip_segment ''addons/'' '''' path)));
          second = strip_lit ''lua/'' (strip_lit ''gamemodes/'' (strip_segment ''addons/'' '''' path))
      in (path, first, second))"

definition salted :: "Game \<Rightarrow> ClientPack \<Rightarrow> string \<Rightarrow> string" where
  "salted G pack value = map ascii_lower (game_md5 G (bytes_of (pk_salt pack @ value)))"

definition findSource :: "Game \<Rightarrow> ClientPack \<Rightarrow> string \<Rightarrow> bool \<Rightarrow> u8 list option" where
  "findSource G pack path allowAliases =
     (let (sourcePath, first, second) = normalizedForms path
      in case pk_vfs pack (salted G pack sourcePath) of
           Some source \<Rightarrow> Some source
         | None \<Rightarrow>
             if \<not> allowAliases then None
             else
               (case pk_vfsLCL pack (salted G pack first) of
                  Some None \<Rightarrow> None
                | Some (Some firstSource) \<Rightarrow> Some firstSource
                | None \<Rightarrow>
                    if second = first then None
                    else
                      (case pk_vfsLCL pack (salted G pack second) of
                         Some (Some secondSource) \<Rightarrow> Some secondSource
                       | _ \<Rightarrow> None)))"

section \<open>Hexadecimal facts\<close>

lemma HexEncode_hex: "list_all is_hex (HexEncode s) \<and> length (HexEncode s) = 2 * length s"
  by (induction s) (simp_all add: HexEncode_def Let_def is_hex_def hex_digit_hex_char)

lemma nibbles_char:
  "(char_of (unat (drop_bit 4 (of_char c :: u8) AND 15) * 16 + unat ((of_char c :: u8) AND 15)) :: char) = c"
proof -
  let ?b = "of_char c :: u8"
  have "unat (drop_bit 4 ?b) = unat ?b div 16" by (simp add: drop_bit_eq_div unat_div_distrib)
  then have "unat (drop_bit 4 ?b AND 15) = unat ?b div 16"
    using unat_bound [of ?b] by (simp add: unat_and15)
  then have "unat (drop_bit 4 ?b AND 15) * 16 + unat (?b AND 15) = unat ?b"
    by (simp only: unat_and15 div_mult_mod_eq)
  moreover have "unat ?b = of_char c"
  proof -
    have "(of_char c :: nat) < 2 ^ LENGTH(8)" by simp
    then have "unat (of_nat (of_char c) :: u8) = of_char c" by (intro unat_of_nat_small) simp
    then show ?thesis by (simp only: of_nat_of_char)
  qed
  ultimately show ?thesis by simp
qed

lemma fromHex_HexEncode: "fromHex (HexEncode s) = Some s"
proof -
  have "fromHex_pairs (HexEncode s) = s"
  proof (induction s)
    case Nil
    then show ?case by (simp add: HexEncode_def)
  next
    case (Cons c s)
    have "HexEncode (c # s) = hex_char (drop_bit 4 (of_char c)) # hex_char (of_char c) # HexEncode s"
      by (simp add: HexEncode_def Let_def)
    then show ?case by (simp add: hex_digit_hex_char nibbles_char Cons.IH)
  qed
  then show ?thesis using HexEncode_hex [of s] by (simp add: fromHex_def)
qed

lemma hex_lower_table:
  "list_all (\<lambda>c. case hex_digit c of None \<Rightarrow> True
     | Some x \<Rightarrow> ''0123456789abcdef'' ! x = ascii_lower c) ''0123456789abcdefABCDEF''"
  by code_simp

lemma hex_digit_chars: "map char_of ([48..<58] @ [97..<103] @ [65..<71]) = ''0123456789abcdefABCDEF''"
  by code_simp

lemma hex_digit_cases:
  assumes "hex_digit a = Some x"
  shows "a \<in> set ''0123456789abcdefABCDEF''"
proof -
  let ?n = "of_char a :: nat"
  have "?n \<in> {48..<58} \<union> ({97..<103} \<union> {65..<71})"
    using assms by (auto simp: hex_digit_def Let_def split: if_splits)
  then have "?n \<in> set ([48..<58] @ [97..<103] @ [65..<71])"
    by (simp only: set_append set_upt)
  then have "char_of ?n \<in> set (map char_of ([48..<58] @ [97..<103] @ [65..<71]))"
    unfolding set_map by (rule imageI)
  then show ?thesis unfolding hex_digit_chars by (simp only: char_of_char)
qed

lemma hex_lower:
  assumes "hex_digit a = Some x"
  shows "''0123456789abcdef'' ! x = ascii_lower a"
  using hex_lower_table [unfolded list_all_iff, THEN bspec, OF hex_digit_cases [OF assms]] assms
  by (simp only: option.case)

lemma toHex_pair:
  assumes "hex_digit a = Some x" and "hex_digit b = Some y"
  shows "[hex_char (drop_bit 4 (of_nat (x * 16 + y) :: u8)), hex_char (of_nat (x * 16 + y) :: u8)] =
    [ascii_lower a, ascii_lower b]"
proof -
  have xy: "x < 16" "y < 16" using assms hex_digit_bound by blast+
  let ?b = "of_nat (x * 16 + y) :: u8"
  have u: "unat ?b = x * 16 + y" using xy by (intro unat_of_nat_small) simp
  have "unat (drop_bit 4 ?b) = unat ?b div 16" by (simp add: drop_bit_eq_div unat_div_distrib)
  then have "unat (drop_bit 4 ?b AND 15) = x" "unat (?b AND 15) = y"
    using xy by (simp_all only: unat_and15 u) simp_all
  then show ?thesis using hex_lower [OF assms(1)] hex_lower [OF assms(2)] by (simp add: hex_char_def)
qed

lemma toHex_hex_pairs:
  "\<lbrakk>list_all is_hex h; length h = 2 * n; hex_pairs h = Some k\<rbrakk> \<Longrightarrow> toHex k = map ascii_lower h"
proof (induction n arbitrary: h k)
  case 0
  then show ?case by (simp add: toHex_def)
next
  case (Suc n)
  then obtain a b r where h: "h = a # b # r" by (cases h; cases "tl h") auto
  then obtain x y where xy: "hex_digit a = Some x" "hex_digit b = Some y"
    using Suc.prems(1) by (auto simp: is_hex_def)
  then obtain bs where bs: "hex_pairs r = Some bs" "k = of_nat (x * 16 + y) # bs"
    using Suc.prems(3) unfolding h hex_pairs_step [OF xy] by (auto split: option.splits)
  have "toHex bs = map ascii_lower r" using Suc.IH [of r bs] Suc.prems bs h by auto
  then show ?case using toHex_pair [OF xy] by (simp add: bs h toHex_def)
qed

lemma toHex_pack_key:
  assumes "md5_hex B"
  shows "toHex (pack_key B salt v) = map ascii_lower (MD5_String B (salt @ v))"
proof -
  have h: "list_all is_hex (MD5_String B (salt @ v))" "length (MD5_String B (salt @ v)) = 2 * 16"
    using assms by (simp_all add: md5_hex_def)
  from hex_pairs_total [OF h] obtain k where "hex_pairs (MD5_String B (salt @ v)) = Some k" by blast
  then show ?thesis using toHex_hex_pairs [OF h] h by (simp add: pack_key_def HexToBytes_def)
qed

section \<open>Reading the manifest\<close>

lemma bar_field_append:
  assumes "list_all class f" and "nonempty \<longrightarrow> f \<noteq> []" and "\<not> class CHR ''|''"
  shows "bar_field class nonempty (f @ CHR ''|'' # r) = Some (f, r)"
  using assms by (simp add: bar_field_def takeWhile_append list_all_iff)

lemma hex_not_bar: "list_all is_hex f \<Longrightarrow> list_all not_bar f"
  by (auto simp: list_all_iff not_bar_def is_hex_def hex_digit_def)

lemma split_at_single: "c \<notin> set s \<Longrightarrow> split_at c s = [s]"
  by (induction s) auto

lemma parseSnapshot_published:
  assumes "length current = 32" and "list_all is_hex current" and "map ascii_lower current = current"
  shows "parseSnapshot (''1|'' @ current @ ''|'' @ HexEncode dir @ ''|'' @ HexEncode salt @ ''|'' @ current) =
    Some (current, [current \<mapsto> \<lparr>mf_generation = current, mf_md5 = current, mf_salt = salt,
      mf_resource = ''data/'' @ dir @ ''/'' @ current @ ''.bsp''\<rparr>])"
proof -
  have one: "bar_field is_digit True (''1|'' @ r) = Some (''1'', r)" for r
    using bar_field_append [of is_digit "''1''" True r] by (simp add: is_digit_def)
  have cur: "bar_field not_bar True (current @ ''|'' @ r) = Some (current, r)" for r
    using bar_field_append [of not_bar current True r] assms(1) hex_not_bar [OF assms(2)]
    by (cases current) (auto simp: not_bar_def)
  have hex: "bar_field not_bar False (HexEncode x @ ''|'' @ r) = Some (HexEncode x, r)" for x r
    using bar_field_append [of not_bar "HexEncode x" False r] hex_not_bar HexEncode_hex
    by (auto simp: not_bar_def)
  have "CHR '';'' \<notin> set current" using assms(2) by (auto simp: list_all_iff is_hex_def hex_digit_def)
  then have list: "filter (\<lambda>entry. entry \<noteq> []) (split_at CHR '';'' current) = [current]"
    using assms(1) by (auto simp: split_at_single)
  have "match_snapshot (''1|'' @ current @ ''|'' @ HexEncode dir @ ''|'' @ HexEncode salt @ ''|'' @ current) =
      Some (''1'', current, HexEncode dir, HexEncode salt, current)"
    unfolding match_snapshot_def one option.case prod.case cur hex ..
  then show ?thesis
    using list assms
    by (simp add: parseSnapshot_def fromHex_HexEncode snapshot_manifests_def)
qed

section \<open>Parsing what the server wrote\<close>

lemma hex_pairs_toHex: "hex_pairs (toHex k) = Some k"
proof (induction k)
  case Nil
  then show ?case by (simp add: toHex_def)
next
  case (Cons b k)
  have "toHex (b # k) = hex_char (drop_bit 4 b) # hex_char b # toHex k" by (simp add: toHex_def)
  then show ?case
    using Cons.IH by (simp only: hex_pairs_step [OF hex_digit_hex_char hex_digit_hex_char] nibbles) simp
qed

lemma toHex_inject [simp]: "toHex a = toHex b \<longleftrightarrow> a = b"
  by (metis hex_pairs_toHex option.inject)

lemma unat_byte: "unat (ucast (drop_bit k n) :: u8) = unat n div 2 ^ k mod 256" for n :: u32
proof -
  have "unat (ucast (drop_bit k n) :: u8) = take_bit 8 (unat (drop_bit k n))"
    by (simp add: unsigned_ucast_eq)
  also have "\<dots> = unat n div 2 ^ k mod 256"
    unfolding unat_drop_bit_eq by (simp add: take_bit_eq_mod drop_bit_eq_div)
  finally show ?thesis .
qed

lemma be_length_be32: "be_length (be32 n) = unat n"
proof -
  let ?N = "unat n"
  have lt: "?N div 16777216 < 256" using unat_bound [of n] by simp
  have "?N div 65536 div 256 = ?N div 16777216" "?N div 256 div 256 = ?N div 65536"
    by (simp_all add: div_mult2_eq [symmetric])
  then have "?N div 65536 = ?N div 16777216 * 256 + ?N div 65536 mod 256"
    "?N div 256 = ?N div 65536 * 256 + ?N div 256 mod 256"
    using div_mult_mod_eq [of "?N div 65536" 256] div_mult_mod_eq [of "?N div 256" 256] by linarith+
  moreover have "?N = ?N div 256 * 256 + ?N mod 256" by (rule div_mult_mod_eq [symmetric])
  ultimately show ?thesis
    using lt unat_byte [of 24 n] unat_byte [of 16 n] unat_byte [of 8 n] unat_byte [of 0 n]
    by (simp add: be_length_def be32_eq numeral_3_eq_3 [symmetric] numeral_2_eq_2 [symmetric] nth_Cons_numeral)
      (use div_mult_mod_eq [of ?N 256] in linarith)
qed

definition add_file :: "Bootil \<Rightarrow> string \<Rightarrow> ClientPack \<Rightarrow> FileRecord \<Rightarrow> ClientPack" where
  "add_file B salt pack f =
     (let source = bytes_of (fr_contents f)
      in registerLocal (toHex (pack_key B salt (LocalKeyFormTwo (fr_virtualPath f)))) source
          (registerLocal (toHex (pack_key B salt (LocalKeyFormOne (fr_virtualPath f)))) source
            (pack\<lparr>pk_vfs := (pk_vfs pack)(toHex (pack_key B salt (fr_sourcePath f)) \<mapsto> source)\<rparr>)))"

lemma pk_vfs_registerLocal [simp]: "pk_vfs (registerLocal k s pack) = pk_vfs pack"
  "pk_salt (registerLocal k s pack) = pk_salt pack" "pk_manifest (registerLocal k s pack) = pk_manifest pack"
  by (simp_all add: registerLocal_def split: option.split)

lemma add_file_fields [simp]:
  "pk_vfs (add_file B salt pack f) =
    (pk_vfs pack)(toHex (pack_key B salt (fr_sourcePath f)) \<mapsto> bytes_of (fr_contents f))"
  "pk_salt (add_file B salt pack f) = pk_salt pack"
  "pk_manifest (add_file B salt pack f) = pk_manifest pack"
  by (simp_all add: add_file_def Let_def)

lemma parsePack_loop_written:
  assumes "md5_hex B"
  shows "\<lbrakk>u32_files files; distinct (map (\<lambda>f. pack_key B salt (fr_sourcePath f)) files);
      \<forall>f \<in> set files. pk_vfs pack (toHex (pack_key B salt (fr_sourcePath f))) = None\<rbrakk> \<Longrightarrow>
    parsePack_loop (concat (map (pack_entry B salt) files)) pack = Inr (foldl (add_file B salt) pack files)"
proof (induction files arbitrary: pack)
  case Nil
  then show ?case by (simp add: parsePack_loop.simps)
next
  case (Cons f fs)
  let ?rest = "concat (map (pack_entry B salt) fs)"
  let ?d = "pack_entry B salt f @ ?rest"
  note lay = entry_layout(1-3) [OF assms, where salt = salt and f = f and r = ?rest]
    entry_layout(4) [OF assms, where salt = salt and f = f]
  note k = WritePackKey_ok(2) [OF assms]
  have "length (fr_contents f) \<le> UINT_MAX" using Cons.prems(1) by (simp add: u32_files_def)
  then have n: "be_length (take 4 (drop 48 ?d)) = length (fr_contents f)"
    unfolding lay(2) by (simp add: be_length_be32 UINT_MAX_def unat_of_nat_small)
  have keys: "take 16 (drop 16 ?d) = pack_key B salt (LocalKeyFormOne (fr_virtualPath f))"
    "take 16 (drop 32 ?d) = pack_key B salt (LocalKeyFormTwo (fr_virtualPath f))"
    by (simp_all add: pack_entry_def k)
  have rest: "drop (52 + length (fr_contents f)) ?d = ?rest" using lay(4) by simp
  have ne: "?d \<noteq> []" "\<not> length ?d < 52" using lay(4) by auto
  have l: "\<not> length (drop 52 ?d) < length (fr_contents f)" unfolding lay(3) by simp
  have src: "take (length (fr_contents f)) (drop 52 ?d) = bytes_of (fr_contents f)"
    unfolding lay(3) by simp
  have new: "pk_vfs pack (toHex (pack_key B salt (fr_sourcePath f))) = None" using Cons.prems(3) by simp
  have "parsePack_loop ?d pack = parsePack_loop ?rest (add_file B salt pack f)"
    by (subst parsePack_loop.simps)
      (simp only: ne n l src rest keys lay(1) new Let_def if_False add_file_def simp_thms)
  moreover have "parsePack_loop ?rest (add_file B salt pack f) =
      Inr (foldl (add_file B salt) (add_file B salt pack f) fs)"
    by (rule Cons.IH) (use Cons.prems in \<open>auto simp: u32_files_def image_iff\<close>)
  ultimately show ?case by simp
qed

text \<open>What a local key resolves to: nothing, one agreed source, or a divergence.\<close>

definition agreed :: "u8 list list \<Rightarrow> u8 list option option" where
  "agreed xs = (if xs = [] then None else if \<forall>x \<in> set xs. x = hd xs then Some (Some (hd xs)) else Some None)"

definition local_sources :: "Bootil \<Rightarrow> string \<Rightarrow> FileRecord list \<Rightarrow> string \<Rightarrow> u8 list list" where
  "local_sources B salt files key =
     map (\<lambda>f. bytes_of (fr_contents f))
       (filter (\<lambda>f. key = toHex (pack_key B salt (LocalKeyFormOne (fr_virtualPath f))) \<or>
                    key = toHex (pack_key B salt (LocalKeyFormTwo (fr_virtualPath f)))) files)"

lemma registerLocal_agreed:
  assumes "pk_vfsLCL pack key = agreed xs"
  shows "pk_vfsLCL (registerLocal k s pack) key = agreed (if key = k then xs @ [s] else xs)"
  using assms by (auto simp: registerLocal_def agreed_def split: if_splits option.splits)

lemma agreed_twice: "agreed (xs @ [s, s]) = agreed (xs @ [s])"
  by (cases xs) (auto simp: agreed_def)

lemma add_file_local:
  assumes "pk_vfsLCL pack key = agreed xs"
  shows "pk_vfsLCL (add_file B salt pack f) key = agreed (xs @ local_sources B salt [f] key)"
  using registerLocal_agreed registerLocal_agreed [where xs = xs] assms agreed_twice
  by (simp add: add_file_def Let_def local_sources_def)

lemma foldl_add_file:
  "\<lbrakk>distinct (map (\<lambda>f. pack_key B salt (fr_sourcePath f)) files); pk_vfsLCL pack = (\<lambda>key. agreed (xs key))\<rbrakk> \<Longrightarrow>
    pk_vfs (foldl (add_file B salt) pack files) =
      pk_vfs pack ++ map_of (map (\<lambda>f. (toHex (pack_key B salt (fr_sourcePath f)), bytes_of (fr_contents f))) files) \<and>
    pk_vfsLCL (foldl (add_file B salt) pack files) =
      (\<lambda>key. agreed (xs key @ local_sources B salt files key)) \<and>
    pk_salt (foldl (add_file B salt) pack files) = pk_salt pack \<and>
    pk_manifest (foldl (add_file B salt) pack files) = pk_manifest pack"
proof (induction files arbitrary: pack xs)
  case Nil
  then show ?case by (simp add: local_sources_def)
next
  case (Cons f fs)
  have l: "pk_vfsLCL (add_file B salt pack f) = (\<lambda>key. agreed (xs key @ local_sources B salt [f] key))"
    by (rule ext) (rule add_file_local, simp add: Cons.prems(2))
  have split': "local_sources B salt (f # fs) key = local_sources B salt [f] key @ local_sources B salt fs key" for key
    by (simp add: local_sources_def)
  have fresh: "toHex (pack_key B salt (fr_sourcePath f)) \<notin>
      dom (map_of (map (\<lambda>f. (toHex (pack_key B salt (fr_sourcePath f)), bytes_of (fr_contents f))) fs))"
    using Cons.prems(1) by (auto simp: dom_map_of_conv_image_fst)
  have "distinct (map (\<lambda>f. pack_key B salt (fr_sourcePath f)) fs)" using Cons.prems(1) by simp
  note ih = Cons.IH [OF this l, unfolded add_file_fields append_assoc split' [symmetric]]
  show ?case
    using ih map_add_upd_left [OF fresh, of "pk_vfs pack"] by (simp del: fun_upd_apply)
qed

section \<open>Properties of the client side\<close>

lemma PublishManifest_value:
  fixes w :: "'e World"
  defines "c \<equiv> st_currentGeneration (w_state w)" and "dir \<equiv> cfg_packDirectory (GetConfig w)"
  assumes "st_generations (w_state w) c = Some g"
  shows "cv_manifest (w_cvars (PublishManifest w)) = '''' \<or>
    cv_manifest (w_cvars (PublishManifest w)) =
      ''1|'' @ c @ ''|'' @ HexEncode dir @ ''|'' @ HexEncode (gen_salt g) @ ''|'' @ c \<and>
    length (''1|'' @ c @ ''|'' @ HexEncode dir @ ''|'' @ HexEncode (gen_salt g) @ ''|'' @ c) \<le> 255 \<and>
    gen_resourcePath g = DataDirectory dir @ ''/'' @ c @ ''.bsp''"
proof -
  define v where "v = ''1|'' @ c @ ''|'' @ HexEncode dir @ ''|'' @ HexEncode (gen_salt g) @ ''|'' @ c"
  have "PublishManifest w =
    (if \<not> IsEnabled w \<or> c = '''' \<or> gen_resourcePath g \<noteq> DataDirectory dir @ ''/'' @ c @ ''.bsp'' \<or> 255 < length v
     then set_manifest '''' w else set_manifest v w)"
    using assms(3) by (simp only: PublishManifest_def Let_def c_def [symmetric] dir_def [symmetric]
        v_def [symmetric] option.case MAXIMUM_MANIFEST_LENGTH_def) auto
  then show ?thesis unfolding v_def [symmetric] by (auto simp: set_manifest_def)
qed

text \<open>
  C32. What the server publishes in its one manifest variable, the client bootstrap reads back.
  With a current generation named by 32 lower-case hexadecimal digits, \<^verbatim>\<open>PublishManifest\<close>
  writes either the empty string or at most 255 characters (the engine truncates beyond that)
  that \<^verbatim>\<open>parseSnapshot\<close> accepts, and the client then knows exactly one generation,
  the current one, with its identity as content MD5, its own salt and the very resource path
  the server registered, whatever bytes the pack directory and the salt hold.
\<close>

theorem manifest_roundtrip:
  assumes "st_generations (w_state w) (st_currentGeneration (w_state w)) = Some g"
    and "length (st_currentGeneration (w_state w)) = 32"
    and "list_all is_hex (st_currentGeneration (w_state w))"
    and "map ascii_lower (st_currentGeneration (w_state w)) = st_currentGeneration (w_state w)"
  shows "cv_manifest (w_cvars (PublishManifest w)) = '''' \<or>
    length (cv_manifest (w_cvars (PublishManifest w))) \<le> 255 \<and>
    parseSnapshot (cv_manifest (w_cvars (PublishManifest w))) =
      Some (st_currentGeneration (w_state w), [st_currentGeneration (w_state w) \<mapsto>
        \<lparr>mf_generation = st_currentGeneration (w_state w), mf_md5 = st_currentGeneration (w_state w),
         mf_salt = gen_salt g, mf_resource = gen_resourcePath g\<rparr>])"
proof -
  let ?c = "st_currentGeneration (w_state w)"
  let ?dir = "cfg_packDirectory (GetConfig w)"
  let ?v = "''1|'' @ ?c @ ''|'' @ HexEncode ?dir @ ''|'' @ HexEncode (gen_salt g) @ ''|'' @ ?c"
  consider "cv_manifest (w_cvars (PublishManifest w)) = ''''"
    | "cv_manifest (w_cvars (PublishManifest w)) = ?v" "length ?v \<le> 255"
      "gen_resourcePath g = DataDirectory ?dir @ ''/'' @ ?c @ ''.bsp''"
    using PublishManifest_value [OF assms(1)] by blast
  then show ?thesis
  proof cases
    case 1
    then show ?thesis by simp
  next
    case 2
    have "mf_resource \<lparr>mf_generation = ?c, mf_md5 = ?c, mf_salt = gen_salt g,
        mf_resource = ''data/'' @ ?dir @ ''/'' @ ?c @ ''.bsp''\<rparr> = gen_resourcePath g"
      by (simp add: 2(3) DataDirectory_def)
    then show ?thesis
      using parseSnapshot_published [OF assms(2-4), of ?dir "gen_salt g"] 2(2)
      unfolding 2(1) by simp
  qed
qed

definition demo_serving :: "real World" where
  "demo_serving = \<lparr>w_state = demo_published_state, w_cvars = demo_cvars, w_engine = 10\<rparr>"

theorem manifest_roundtrip_witness:
  "map_option fst (parseSnapshot (cv_manifest (w_cvars (PublishManifest demo_serving)))) =
    Some (replicate 32 CHR ''a'')"
proof -
  let ?w = demo_serving
  have cur: "st_currentGeneration (w_state ?w) = replicate 32 CHR ''a''"
    "st_generations (w_state ?w) (replicate 32 CHR ''a'') = Some demo_base"
    by (simp_all add: demo_serving_def demo_published_state_def)
  have dir: "HexEncode ''p'' = ''70''" "HexEncode ''s'' = ''73''"
      "cfg_packDirectory (GetConfig ?w) = ''p''" "IsEnabled ?w"
    by (simp_all add: demo_serving_def GetConfig_def RefreshConfig_def demo_cvars_def IsEnabled_def HexEncode_def hex_char_def)
  have "cv_manifest (w_cvars (PublishManifest ?w)) \<noteq> ''''"
    by (simp add: PublishManifest_def cur dir demo_base_fields demo_path_def DataDirectory_def
        MAXIMUM_MANIFEST_LENGTH_def set_manifest_def Let_def)
  moreover have "length (replicate 32 CHR ''a'') = 32" "list_all is_hex (replicate 32 CHR ''a'')"
    "map ascii_lower (replicate 32 CHR ''a'') = replicate 32 CHR ''a''"
    by (simp_all add: is_hex_def hex_digit_def ascii_lower_def list_all_iff)
  ultimately show ?thesis
    using manifest_roundtrip [of demo_serving demo_base] by (simp add: cur)
qed

text \<open>The game's hash and decompressor are the server's, up to the case of the digits.\<close>

definition same_tools :: "Bootil \<Rightarrow> Game \<Rightarrow> bool" where
  "same_tools B G \<longleftrightarrow>
     (\<forall>s. map ascii_lower (game_md5 G (bytes_of s)) = map ascii_lower (MD5_String B s)) \<and>
     (\<forall>d. map ascii_lower (game_md5 G d) = map ascii_lower (MD5_Easy B d)) \<and>
     (\<forall>d c. LZMA_Compress B d = Some c \<longrightarrow> game_decompress G c = Some d)"

lemma salted_key:
  assumes "md5_hex B" and "same_tools B G"
  shows "salted G pack form = toHex (pack_key B (pk_salt pack) form)"
  unfolding salted_def toHex_pack_key [OF assms(1)]
  by (rule assms(2) [unfolded same_tools_def, THEN conjunct1, THEN spec])

definition built_pack :: "Bootil \<Rightarrow> BuildTask \<Rightarrow> Manifest \<Rightarrow> ClientPack" where
  "built_pack B task m =
     \<lparr>pk_vfs = map_of (map (\<lambda>f. (toHex (pack_key B (bt_salt task) (fr_sourcePath f)),
          bytes_of (fr_contents f))) (bt_files task)),
      pk_vfsLCL = (\<lambda>key. agreed (local_sources B (bt_salt task) (bt_files task) key)),
      pk_salt = bt_salt task, pk_manifest = m\<rparr>"

lemma parsePack_written:
  assumes "md5_hex B" and "u32_files (bt_files task)" and "distinct (exact_keys B task)"
    and "mf_salt m = bt_salt task"
  shows "parsePack (1 # pack_body B task) m = Inr (built_pack B task m)"
proof -
  let ?empty = "\<lparr>pk_vfs = Map.empty, pk_vfsLCL = Map.empty, pk_salt = mf_salt m, pk_manifest = m\<rparr>"
  have "parsePack (1 # pack_body B task) m = Inr (foldl (add_file B (bt_salt task)) ?empty (bt_files task))"
    using parsePack_loop_written [OF assms(1-3), of ?empty] by (simp add: parsePack_def)
  moreover have "foldl (add_file B (bt_salt task)) ?empty (bt_files task) = built_pack B task m"
    using foldl_add_file [OF assms(3), of ?empty "\<lambda>_. []"] assms(4)
    by (intro ClientPack.equality) (simp_all add: built_pack_def agreed_def)
  ultimately show ?thesis by simp
qed

lemma built_exact:
  assumes "distinct (exact_keys B task)"
  shows "pk_vfs (built_pack B task m) (toHex (pack_key B (bt_salt task) form)) = Some src \<longleftrightarrow>
    (\<exists>f \<in> set (bt_files task). pack_key B (bt_salt task) (fr_sourcePath f) = pack_key B (bt_salt task) form \<and>
       src = bytes_of (fr_contents f))"
proof -
  let ?kv = "map (\<lambda>f. (toHex (pack_key B (bt_salt task) (fr_sourcePath f)), bytes_of (fr_contents f))) (bt_files task)"
  have "map fst ?kv = map toHex (exact_keys B task)" by simp
  then have "distinct (map fst ?kv)" using assms by (simp only: distinct_map) (auto simp: inj_on_def)
  then have "pk_vfs (built_pack B task m) (toHex (pack_key B (bt_salt task) form)) = Some src \<longleftrightarrow>
      (toHex (pack_key B (bt_salt task) form), src) \<in> set ?kv"
    by (simp only: built_pack_def ClientPack.select_convs map_of_eq_Some_iff)
  also have "\<dots> \<longleftrightarrow> (\<exists>f \<in> set (bt_files task). toHex (pack_key B (bt_salt task) form) =
      toHex (pack_key B (bt_salt task) (fr_sourcePath f)) \<and> src = bytes_of (fr_contents f))"
    by (simp only: set_map image_iff prod.inject)
  finally show ?thesis by (simp add: eq_commute)
qed

lemma agreed_Some: "agreed xs = Some (Some x) \<longleftrightarrow> xs \<noteq> [] \<and> (\<forall>y \<in> set xs. y = x)"
  by (cases xs) (auto simp: agreed_def)

definition has_alias :: "Bootil \<Rightarrow> string \<Rightarrow> string \<Rightarrow> FileRecord \<Rightarrow> bool" where
  "has_alias B salt form f \<longleftrightarrow>
     pack_key B salt form = pack_key B salt (LocalKeyFormOne (fr_virtualPath f)) \<or>
     pack_key B salt form = pack_key B salt (LocalKeyFormTwo (fr_virtualPath f))"

lemma set_local_sources:
  "set (local_sources B salt files (toHex (pack_key B salt form))) =
     (\<lambda>f. bytes_of (fr_contents f)) ` {f \<in> set files. has_alias B salt form f}"
  by (auto simp: local_sources_def has_alias_def)

lemma built_alias:
  assumes "pk_vfsLCL (built_pack B task m) (toHex (pack_key B (bt_salt task) form)) = Some (Some src)"
  shows "\<exists>f \<in> set (bt_files task). has_alias B (bt_salt task) form f \<and> src = bytes_of (fr_contents f) \<and>
    (\<forall>h \<in> set (bt_files task). has_alias B (bt_salt task) form h \<longrightarrow> bytes_of (fr_contents h) = src)"
proof -
  let ?xs = "local_sources B (bt_salt task) (bt_files task) (toHex (pack_key B (bt_salt task) form))"
  from assms have x: "?xs \<noteq> []" "\<forall>y \<in> set ?xs. y = src"
    by (simp_all add: built_pack_def agreed_Some)
  from x(2) have all: "\<forall>h \<in> set (bt_files task). has_alias B (bt_salt task) form h \<longrightarrow> bytes_of (fr_contents h) = src"
    unfolding set_local_sources by blast
  from x(1) have "hd ?xs \<in> set ?xs" by (rule hd_in_set)
  then obtain f where "f \<in> set (bt_files task)" "has_alias B (bt_salt task) form f"
    unfolding set_local_sources by blast
  with all show ?thesis by blast
qed

text \<open>
  What a lookup may return: the contents of a packed file that has the requested exact key; or,
  with aliases and when no packed file has it, the contents of all the packed files that have
  one of the path's two local forms.
\<close>

definition exact_hit :: "Bootil \<Rightarrow> BuildTask \<Rightarrow> string \<Rightarrow> FileRecord \<Rightarrow> bool" where
  "exact_hit B task path f \<longleftrightarrow>
     pack_key B (bt_salt task) (fr_sourcePath f) = pack_key B (bt_salt task) (fst (normalizedForms path))"

definition agreed_alias :: "Bootil \<Rightarrow> BuildTask \<Rightarrow> string \<Rightarrow> FileRecord \<Rightarrow> bool" where
  "agreed_alias B task form f \<longleftrightarrow>
     has_alias B (bt_salt task) form f \<and>
     (\<forall>h \<in> set (bt_files task). has_alias B (bt_salt task) form h \<longrightarrow> fr_contents h = fr_contents f)"

definition resolves :: "Bootil \<Rightarrow> BuildTask \<Rightarrow> string \<Rightarrow> bool \<Rightarrow> u8 list \<Rightarrow> bool" where
  "resolves B task path aliases src \<longleftrightarrow>
     (\<exists>f \<in> set (bt_files task). src = bytes_of (fr_contents f) \<and>
        (exact_hit B task path f \<or>
         aliases \<and> (\<forall>h \<in> set (bt_files task). \<not> exact_hit B task path h) \<and>
         (\<exists>form \<in> {fst (snd (normalizedForms path)), snd (snd (normalizedForms path))}.
            agreed_alias B task form f)))"

lemma bytes_of_inject: "bytes_of a = bytes_of b \<longleftrightarrow> a = b"
proof -
  have "inj (of_char :: char \<Rightarrow> u8)" by (rule injI) (metis nibbles_char)
  then show ?thesis by (simp add: bytes_of_def inj_map_eq_map)
qed

lemma findSource_built:
  assumes "distinct (exact_keys B task)"
    and key: "\<And>form. salted G (built_pack B task m) form = toHex (pack_key B (bt_salt task) form)"
    and found: "findSource G (built_pack B task m) path aliases = Some src"
  shows "resolves B task path aliases src"
proof -
  let ?p = "built_pack B task m"
  obtain p a b where n: "normalizedForms path = (p, a, b)" by (cases "normalizedForms path") auto
  show ?thesis
  proof (cases "pk_vfs ?p (toHex (pack_key B (bt_salt task) p))")
    case None
    then have no: "\<forall>h \<in> set (bt_files task). \<not> exact_hit B task path h"
      unfolding exact_hit_def n fst_conv using built_exact [OF assms(1)] by (metis option.distinct(1))
    from found None obtain form where form: "aliases" "form \<in> {a, b}"
      "pk_vfsLCL ?p (toHex (pack_key B (bt_salt task) form)) = Some (Some src)"
      by (auto simp: findSource_def n key split: if_splits option.splits)
    obtain f where "f \<in> set (bt_files task)" "src = bytes_of (fr_contents f)" "agreed_alias B task form f"
      using built_alias [OF form(3)] unfolding agreed_alias_def bytes_of_inject [symmetric] by blast
    with form no show ?thesis unfolding resolves_def n fst_conv snd_conv by blast
  next
    case (Some s)
    then have "src = s" using found by (simp add: findSource_def n key)
    then show ?thesis using Some unfolding built_exact [OF assms(1)] resolves_def exact_hit_def n fst_conv by blast
  qed
qed

text \<open>The object the server built, mounted: the shared steps of the end-to-end properties.\<close>

definition delivered :: "Bootil \<Rightarrow> BuildTask \<Rightarrow> Game \<Rightarrow> Manifest \<Rightarrow> bool" where
  "delivered B task G m \<longleftrightarrow>
     mf_md5 m = bt_md5 (BuildPack B task) \<and> mf_salt m = bt_salt task \<and>
     game_read G (''download/'' @ mf_resource m) = Some (bt_compressed (BuildPack B task))"

lemma delivered_mount:
  assumes "md5_hex B" and "u32_files (bt_files task)" and "bt_uncompressed task = []"
    and "bt_compressed task = []" and "\<not> bt_success task"
    and "bt_success (BuildPack B task)" and "same_tools B G" and "delivered B task G m"
  shows "tryMount G m = Inr (built_pack B task m)" and "distinct (exact_keys B task)"
proof -
  have built: "distinct (exact_keys B task)" "LZMA_Compress B (1 # pack_body B task) = Some (bt_compressed (BuildPack B task))"
    "bt_md5 (BuildPack B task) = map ascii_lower (MD5_Easy B (1 # pack_body B task))"
    using assms(6) assms(4,5) by (auto simp: BuildPack_written [OF assms(1-3)] Let_def split: if_splits option.splits)
  have m: "mf_md5 m = bt_md5 (BuildPack B task)" "mf_salt m = bt_salt task"
    "game_read G (''download/'' @ mf_resource m) = Some (bt_compressed (BuildPack B task))"
    using assms(8) unfolding delivered_def by blast+
  have dec: "game_decompress G (bt_compressed (BuildPack B task)) = Some (1 # pack_body B task)"
    using assms(7) built(2) unfolding same_tools_def by blast
  have md5: "map ascii_lower (game_md5 G (1 # pack_body B task)) = mf_md5 m"
    unfolding m(1) built(3) by (rule assms(7) [unfolded same_tools_def, THEN conjunct2, THEN conjunct1, THEN spec])
  show "tryMount G m = Inr (built_pack B task m)"
    unfolding tryMount_def m(3) option.case dec parsePack_written [OF assms(1,2) built(1) m(2)]
    by (simp only: md5 sum.case simp_thms if_False)
  show "distinct (exact_keys B task)" by (rule built(1))
qed

lemma built_key:
  assumes "md5_hex B" and "same_tools B G"
  shows "salted G (built_pack B task m) form = toHex (pack_key B (bt_salt task) form)"
  using salted_key [OF assms, of "built_pack B task m" form] by (simp add: built_pack_def)

lemma find_built:
  assumes "md5_hex B" and "same_tools B G" and "distinct (exact_keys B task)"
    and "f \<in> set (bt_files task)" and "fst (normalizedForms path) = fr_sourcePath f"
  shows "findSource G (built_pack B task m) path aliases = Some (bytes_of (fr_contents f))"
proof -
  have "pk_vfs (built_pack B task m) (toHex (pack_key B (bt_salt task) (fr_sourcePath f))) = Some (bytes_of (fr_contents f))"
    unfolding built_exact [OF assms(3)] using assms(4) by blast
  then show ?thesis
    using assms(5) by (cases "normalizedForms path") (simp add: findSource_def built_key [OF assms(1,2)])
qed

text \<open>
  C11. A published pack serves every file it was built from, and nothing else.  When the game's
  MD5 and decompressor are the server's, and the downloaded object is the built one under the
  build's identity and salt, \<^verbatim>\<open>tryMount\<close> succeeds; a lookup whose path is a packed
  file's source path returns exactly that file's bytes; and whatever any lookup returns is the
  contents of a packed file that carries the requested key, either as its exact key or, only
  when aliases are allowed and no exact key matches, as a local key on which all packed files that
  have it agree.
\<close>

theorem published_pack_serves:
  assumes "md5_hex B" and "u32_files (bt_files task)" and "bt_uncompressed task = []"
    and "bt_compressed task = []" and "\<not> bt_success task"
    and "bt_success (BuildPack B task)" and "same_tools B G" and "delivered B task G m"
  shows "\<exists>pack. tryMount G m = Inr pack \<and>
    (\<forall>f path aliases. f \<in> set (bt_files task) \<and> fst (normalizedForms path) = fr_sourcePath f \<longrightarrow>
       findSource G pack path aliases = Some (bytes_of (fr_contents f))) \<and>
    (\<forall>path aliases src. findSource G pack path aliases = Some src \<longrightarrow> resolves B task path aliases src)"
  using delivered_mount [OF assms] find_built [OF assms(1,7)] findSource_built [OF _ built_key [OF assms(1,7)]]
  by blast

text \<open>The server's tools, and its published object, as the game sees them.\<close>

definition demo_game :: Game where
  "demo_game = \<lparr>game_read = (\<lambda>_. Some (bt_compressed (BuildPack demo_bootil demo_task))),
     game_decompress = Some, game_md5 = (\<lambda>_. replicate 32 CHR ''a'')\<rparr>"

lemma demo_md5_hex: "md5_hex demo_bootil"
  by (simp add: md5_hex_def demo_bootil_def is_hex_def hex_digit_def list_all_iff)

theorem published_pack_serves_witness:
  "\<exists>pack. tryMount demo_game \<lparr>mf_generation = ''g'', mf_md5 = replicate 32 CHR ''a'', mf_salt = ''s'',
       mf_resource = demo_path\<rparr> = Inr pack \<and>
     findSource demo_game pack ''@a.lua'' False = Some [120]"
proof -
  let ?m = "\<lparr>mf_generation = ''g'', mf_md5 = replicate 32 CHR ''a'', mf_salt = ''s'', mf_resource = demo_path\<rparr>"
  have t: "u32_files (bt_files demo_task)" "bt_uncompressed demo_task = []" "bt_compressed demo_task = []"
    "\<not> bt_success demo_task" "bt_salt demo_task = ''s''" "bt_files demo_task = [demo_file]"
    by (simp_all add: u32_files_def UINT_MAX_def demo_task_def demo_file_def)
  have tools: "same_tools demo_bootil demo_game"
    by (simp add: same_tools_def demo_bootil_def demo_game_def)
  have "fst (normalizedForms ''@a.lua'') = fr_sourcePath demo_file"
    by (simp add: normalizedForms_def Let_def strip_lit_def starts_with_def demo_file_def)
  moreover have "bytes_of (fr_contents demo_file) = [120]" by (simp add: bytes_of_def demo_file_def)
  ultimately show ?thesis
    using published_pack_serves [OF demo_md5_hex t(1-4) _ tools, of ?m] demo_pack t(5,6)
    by (simp add: delivered_def demo_game_def) metis
qed

end
