(* ===== verification/ClientResolver.thy ===== *)
theory ClientResolver
  imports ClientBootstrap
begin

text \<open>
  The stateful part of the client bootstrap: the recovery flags, the mounted packs, the stub
  resolver \<^verbatim>\<open>__holypack\<close>, the boot mount pass and the retry timer.  The locals the
  closures share are the record \<open>Client\<close>; the console commands the client runs are its
  output, newest last.  What the game offers at a moment (files, the timer library, whether a
  source compiles) is an argument of each step, because it changes between steps.  A closure
  returned by the resolver is \<open>Some\<close> the compiled source and its chunk name, or \<open>None\<close>
  for the inert function.
\<close>

section \<open>State and commands\<close>

datatype Command = CmdRetry | CmdUnready | CmdFailed string | CmdReady string string

record Client =
  cl_recoveryTaint :: bool
  cl_recoverySignaled :: bool
  cl_requiredFailureSignaled :: bool
  cl_recoveryScheduled :: bool
  cl_recoveryRetried :: bool
  cl_packs :: "string \<rightharpoonup> ClientPack"
  cl_lazyMountAttempted :: "string set"
  cl_selectedGeneration :: "string option"
  cl_pendingManifests :: "string \<rightharpoonup> Manifest"
  cl_attempts :: nat
  cl_mountTimer :: bool
  cl_commands :: "Command list"

definition Client_new :: Client where
  "Client_new = \<lparr>cl_recoveryTaint = False, cl_recoverySignaled = False,
     cl_requiredFailureSignaled = False, cl_recoveryScheduled = False, cl_recoveryRetried = False,
     cl_packs = Map.empty, cl_lazyMountAttempted = {}, cl_selectedGeneration = None,
     cl_pendingManifests = Map.empty, cl_attempts = 0, cl_mountTimer = False, cl_commands = []\<rparr>"

text \<open>What the bootstrap fixed at load: the snapshot and the replicated lane policy.\<close>

record Boot =
  bo_currentGeneration :: string
  bo_manifests :: "string \<rightharpoonup> Manifest"
  bo_requiredMode :: bool
  bo_downloadsDisabled :: bool

definition RunConsoleCommand :: "Command \<Rightarrow> Client \<Rightarrow> Client" where
  "RunConsoleCommand c cl = cl\<lparr>cl_commands := cl_commands cl @ [c]\<rparr>"

section \<open>Recovery\<close>

definition issueRetry :: "Client \<Rightarrow> Client" where
  "issueRetry cl =
     (if cl_recoveryRetried cl then cl
      else RunConsoleCommand CmdRetry (cl\<lparr>cl_recoveryRetried := True\<rparr>))"

definition scheduleRetry :: "bool \<Rightarrow> Client \<Rightarrow> Client" where
  "scheduleRetry hasTimer cl =
     (if cl_recoveryScheduled cl \<or> cl_recoveryRetried cl then cl
      else if hasTimer then cl\<lparr>cl_recoveryScheduled := True\<rparr> else cl)"

definition stubRecovery :: "Boot \<Rightarrow> bool \<Rightarrow> string option \<Rightarrow> bool option \<Rightarrow> Client \<Rightarrow> Client" where
  "stubRecovery boot hasTimer generation required0 cl0 =
     (let required = (case required0 of None \<Rightarrow> bo_requiredMode boot | Some r \<Rightarrow> r);
          cl = cl0\<lparr>cl_recoveryTaint := True\<rparr>
      in if required then
           (if \<not> cl_requiredFailureSignaled cl
            then RunConsoleCommand (CmdFailed (case generation of None \<Rightarrow> '''' | Some g \<Rightarrow> g))
                   (cl\<lparr>cl_requiredFailureSignaled := True\<rparr>)
            else cl)
         else if \<not> cl_recoverySignaled cl
         then scheduleRetry hasTimer (RunConsoleCommand CmdUnready (cl\<lparr>cl_recoverySignaled := True\<rparr>))
         else if \<not> cl_recoveryScheduled cl then
           (let cl2 = scheduleRetry hasTimer cl
            in if \<not> cl_recoveryScheduled cl2 then issueRetry cl2 else cl2)
         else cl)"

section \<open>The resolver\<close>

text \<open>\<^verbatim>\<open>tryMount\<close> with its assignment to \<^verbatim>\<open>packs\<close>.\<close>

definition mountPack :: "Game \<Rightarrow> Manifest \<Rightarrow> Client \<Rightarrow> bool \<times> Client" where
  "mountPack G manifest cl =
     (case tryMount G manifest of
        Inl failure \<Rightarrow> (False, cl)
      | Inr pack \<Rightarrow> (True, cl\<lparr>cl_packs := (cl_packs cl)(mf_generation manifest \<mapsto> pack)\<rparr>))"

definition compilePacked ::
  "Game \<Rightarrow> (u8 list \<Rightarrow> bool) \<Rightarrow> ClientPack \<Rightarrow> string \<Rightarrow> (u8 list \<times> string) option" where
  "compilePacked G compiles pack path =
     (case findSource G pack path True of
        None \<Rightarrow> None
      | Some source \<Rightarrow> if compiles source then Some (source, fst (normalizedForms path)) else None)"

definition lazyMount :: "Boot \<Rightarrow> Game \<Rightarrow> string \<Rightarrow> Client \<Rightarrow> Client" where
  "lazyMount boot G generation cl =
     (if cl_packs cl generation = None \<and> \<not> cl_recoveryTaint cl \<and> generation \<notin> cl_lazyMountAttempted cl
      then
        (let cl1 = cl\<lparr>cl_lazyMountAttempted := insert generation (cl_lazyMountAttempted cl)\<rparr>
         in case bo_manifests boot generation of
              None \<Rightarrow> cl1
            | Some manifest \<Rightarrow>
                (let (mounted, cl2) = mountPack G manifest cl1
                 in if mounted then RunConsoleCommand (CmdReady generation (mf_md5 manifest)) cl2 else cl2))
      else cl)"

definition holypack ::
  "Boot \<Rightarrow> Game \<Rightarrow> (u8 list \<Rightarrow> bool) \<Rightarrow> bool \<Rightarrow> string option \<Rightarrow> bool option \<Rightarrow> string \<Rightarrow> Client
     \<Rightarrow> (u8 list \<times> string) option \<times> Client" where
  "holypack boot G compiles hasTimer generation0 required sourcePath cl0 =
     (let generation = (case generation0 of
            Some g \<Rightarrow> g
          | None \<Rightarrow> (case cl_selectedGeneration cl0 of Some g \<Rightarrow> g | None \<Rightarrow> bo_currentGeneration boot));
          cl = lazyMount boot G generation cl0
      in case cl_packs cl generation of
           None \<Rightarrow> (None, stubRecovery boot hasTimer (Some generation) required cl)
         | Some pack \<Rightarrow>
             (let cl1 = cl\<lparr>cl_selectedGeneration := Some generation\<rparr>
              in case compilePacked G compiles pack (strip_lit ''@'' sourcePath) of
                   None \<Rightarrow> (None, stubRecovery boot hasTimer (Some generation) required cl1)
                 | Some compiled \<Rightarrow> (Some compiled, cl1)))"

section \<open>Boot pass and late downloads\<close>

text \<open>\<^verbatim>\<open>pairs\<close> visits a table in no fixed order: the order is an argument.\<close>

definition bootMount :: "Boot \<Rightarrow> Game \<Rightarrow> Manifest \<Rightarrow> Client \<Rightarrow> Client" where
  "bootMount boot G manifest cl =
     (let (mountedNow, cl1) = mountPack G manifest cl
      in if \<not> mountedNow \<and> \<not> bo_downloadsDisabled boot
         then cl1\<lparr>cl_pendingManifests := (cl_pendingManifests cl1)(mf_generation manifest \<mapsto> manifest)\<rparr>
         else cl1)"

definition bootPass :: "Boot \<Rightarrow> Game \<Rightarrow> bool \<Rightarrow> string list \<Rightarrow> string list \<Rightarrow> Client \<Rightarrow> Client" where
  "bootPass boot G hasTimer order packOrder cl =
     (let cl1 = fold (\<lambda>g c. case bo_manifests boot g of None \<Rightarrow> c | Some m \<Rightarrow> bootMount boot G m c) order cl;
          cl2 = fold (\<lambda>g c. case cl_packs c g of None \<Rightarrow> c
            | Some pack \<Rightarrow> RunConsoleCommand (CmdReady g (mf_md5 (pk_manifest pack))) c) packOrder cl1
      in if cl_pendingManifests cl2 \<noteq> Map.empty \<and> hasTimer
         then cl2\<lparr>cl_mountTimer := True, cl_attempts := 0\<rparr> else cl2)"

definition timerMount :: "Game \<Rightarrow> string \<Rightarrow> Client \<Rightarrow> Client" where
  "timerMount G generation cl =
     (case cl_pendingManifests cl generation of
        None \<Rightarrow> cl
      | Some manifest \<Rightarrow>
          (let (mountedNow, cl1) = mountPack G manifest cl
           in if \<not> mountedNow then cl1
              else
                (let cl2 = cl1\<lparr>cl_pendingManifests := (cl_pendingManifests cl1)(generation := None)\<rparr>
                 in if \<not> cl_recoveryTaint cl2
                    then RunConsoleCommand (CmdReady generation (mf_md5 manifest)) cl2 else cl2)))"

definition timerTick :: "Game \<Rightarrow> string list \<Rightarrow> Client \<Rightarrow> Client" where
  "timerTick G order cl0 =
     (let cl = fold (timerMount G) order (cl0\<lparr>cl_attempts := cl_attempts cl0 + 1\<rparr>)
      in if cl_pendingManifests cl = Map.empty \<or> 60 \<le> cl_attempts cl then cl\<lparr>cl_mountTimer := False\<rparr> else cl)"

section \<open>Runs\<close>

text \<open>
  A session of the client: the bootstrap ran its boot pass, or could not parse a snapshot and left
  only the guard; then stubs run, the retry timer fires and the mount timer ticks.  The hash and the
  decompressor of the game \<open>T\<close> stay the same; its files may change at every step.
\<close>

abbreviation on_files :: "Game \<Rightarrow> (string \<Rightarrow> u8 list option) \<Rightarrow> Game" where
  "on_files T files \<equiv> T\<lparr>game_read := files\<rparr>"

inductive client_step :: "Boot \<Rightarrow> Game \<Rightarrow> Client \<Rightarrow> Client \<Rightarrow> bool" for boot T where
  step_stub: "client_step boot T cl (snd (holypack boot (on_files T G) compiles hasTimer generation required path cl))"
| step_guard: "client_step boot T cl (stubRecovery boot hasTimer generation required cl)"
| step_retry: "cl_recoveryScheduled cl \<Longrightarrow> client_step boot T cl (issueRetry cl)"
| step_tick: "cl_mountTimer cl \<Longrightarrow> client_step boot T cl (timerTick (on_files T G) order cl)"

inductive client_reach :: "Boot \<Rightarrow> Game \<Rightarrow> Client \<Rightarrow> bool" for boot T where
  reach_guard: "client_reach boot T Client_new"
| reach_boot: "client_reach boot T (bootPass boot (on_files T G) hasTimer order packOrder Client_new)"
| reach_next: "\<lbrakk>client_reach boot T cl; client_step boot T cl cl'\<rbrakk> \<Longrightarrow> client_reach boot T cl'"

text \<open>A pack whose object passed the checks of \<^verbatim>\<open>tryMount\<close>, spelled out.\<close>

definition verified_pack :: "Game \<Rightarrow> Manifest \<Rightarrow> ClientPack \<Rightarrow> bool" where
  "verified_pack T m pack \<longleftrightarrow>
     (\<exists>object contents. game_decompress T object = Some contents \<and>
        map ascii_lower (game_md5 T contents) = mf_md5 m \<and> parsePack contents m = Inr pack)"

lemma tryMount_verified: "tryMount (on_files T G) m = Inr pack \<Longrightarrow> verified_pack T m pack"
  by (auto simp: tryMount_def verified_pack_def split: option.splits if_splits sum.splits)

text \<open>The parser keys every manifest by its own generation.\<close>

definition boot_ok :: "Boot \<Rightarrow> bool" where
  "boot_ok boot \<longleftrightarrow> (\<forall>g m. bo_manifests boot g = Some m \<longrightarrow> mf_generation m = g)"

lemma foldl_keeps: "\<lbrakk>P z; \<And>x y. P x \<Longrightarrow> P (f x y)\<rbrakk> \<Longrightarrow> P (foldl f z xs)"
  by (induction xs arbitrary: z) auto

lemma parseSnapshot_keys:
  assumes "parseSnapshot v = Some (c, ms)"
  shows "\<forall>g m. ms g = Some m \<longrightarrow> mf_generation m = g"
proof -
  have keys: "\<forall>g m. snapshot_manifests d s l g = Some m \<longrightarrow> mf_generation m = g" for d s l
    unfolding snapshot_manifests_def
    by (rule foldl_keeps [where P = "\<lambda>ms. \<forall>g m. ms g = Some m \<longrightarrow> mf_generation m = g"]) auto
  obtain ver cur dh sh gl where m: "match_snapshot v = Some (ver, cur, dh, sh, gl)"
    using assms by (cases "match_snapshot v") (auto simp: parseSnapshot_def)
  obtain d where d: "fromHex dh = Some d" using assms by (cases "fromHex dh") (auto simp: parseSnapshot_def m)
  obtain s where s: "fromHex sh = Some s" using assms by (cases "fromHex sh") (auto simp: parseSnapshot_def m d)
  have "ms = snapshot_manifests d s gl"
    using assms unfolding parseSnapshot_def m d s option.case prod.case by (simp split: if_splits)
  then show ?thesis using keys by blast
qed

section \<open>The invariant\<close>

definition is_ready :: "Command \<Rightarrow> bool" where
  "is_ready c \<longleftrightarrow> (case c of CmdReady _ _ \<Rightarrow> True | _ \<Rightarrow> False)"

definition is_failed :: "Command \<Rightarrow> bool" where
  "is_failed c \<longleftrightarrow> (case c of CmdFailed _ \<Rightarrow> True | _ \<Rightarrow> False)"

definition signals :: "(Command \<Rightarrow> bool) \<Rightarrow> Client \<Rightarrow> nat" where
  "signals P cl = length (filter P (cl_commands cl))"

definition recovery_ok :: "Client \<Rightarrow> bool" where
  "recovery_ok cl \<longleftrightarrow>
     signals is_failed cl = of_bool (cl_requiredFailureSignaled cl) \<and>
     signals ((=) CmdUnready) cl = of_bool (cl_recoverySignaled cl) \<and>
     signals ((=) CmdRetry) cl = of_bool (cl_recoveryRetried cl) \<and>
     (cl_recoveryTaint cl \<longleftrightarrow> cl_requiredFailureSignaled cl \<or> cl_recoverySignaled cl) \<and>
     (cl_recoveryScheduled cl \<or> cl_recoveryRetried cl \<longrightarrow> cl_recoverySignaled cl) \<and>
     list_all (\<lambda>c. \<not> is_ready c) (dropWhile is_ready (cl_commands cl))"

definition packs_ok :: "Boot \<Rightarrow> Game \<Rightarrow> Client \<Rightarrow> bool" where
  "packs_ok boot T cl \<longleftrightarrow>
     (\<forall>g pack. cl_packs cl g = Some pack \<longrightarrow>
        bo_manifests boot g = Some (pk_manifest pack) \<and> verified_pack T (pk_manifest pack) pack) \<and>
     (\<forall>g m. cl_pendingManifests cl g = Some m \<longrightarrow> bo_manifests boot g = Some m) \<and>
     (\<forall>g md5. CmdReady g md5 \<in> set (cl_commands cl) \<longrightarrow>
        (\<exists>pack. cl_packs cl g = Some pack \<and> md5 = mf_md5 (pk_manifest pack)))"

definition client_ok :: "Boot \<Rightarrow> Game \<Rightarrow> Client \<Rightarrow> bool" where
  "client_ok boot T cl \<longleftrightarrow> recovery_ok cl \<and> packs_ok boot T cl"

lemmas client_inv = client_ok_def recovery_ok_def packs_ok_def signals_def
lemmas cmd_simps = is_ready_def is_failed_def RunConsoleCommand_def

lemma dropWhile_snoc:
  "\<lbrakk>list_all (\<lambda>c. \<not> P c) (dropWhile P xs); \<not> P c\<rbrakk> \<Longrightarrow> list_all (\<lambda>c. \<not> P c) (dropWhile P (xs @ [c]))"
  by (induction xs) auto

lemma untainted_ready:
  assumes "recovery_ok cl" and "\<not> cl_recoveryTaint cl"
  shows "\<forall>c \<in> set (cl_commands cl). is_ready c"
proof
  fix c assume c: "c \<in> set (cl_commands cl)"
  have "signals is_failed cl = 0" "signals ((=) CmdUnready) cl = 0" "signals ((=) CmdRetry) cl = 0"
    using assms by (auto simp: recovery_ok_def)
  then have "\<not> is_failed c" "CmdUnready \<noteq> c" "CmdRetry \<noteq> c"
    using c by (auto simp: signals_def filter_empty_conv)
  then show "is_ready c" by (cases c) (simp_all add: is_failed_def is_ready_def)
qed

lemma recovery_ok_ready:
  assumes "recovery_ok cl" and "\<not> cl_recoveryTaint cl"
  shows "recovery_ok (RunConsoleCommand (CmdReady g m) cl)"
proof -
  have "dropWhile is_ready (cl_commands cl @ [CmdReady g m]) = []"
    using untainted_ready [OF assms] by (simp add: is_ready_def)
  then show ?thesis using assms by (auto simp: recovery_ok_def signals_def cmd_simps)
qed

lemma recovery_ok_frame:
  assumes "recovery_ok cl"
  shows "recovery_ok (cl\<lparr>cl_packs := a\<rparr>)" "recovery_ok (cl\<lparr>cl_lazyMountAttempted := b\<rparr>)"
    "recovery_ok (cl\<lparr>cl_selectedGeneration := c\<rparr>)" "recovery_ok (cl\<lparr>cl_pendingManifests := d\<rparr>)"
    "recovery_ok (cl\<lparr>cl_attempts := e\<rparr>)" "recovery_ok (cl\<lparr>cl_mountTimer := t\<rparr>)"
  using assms by (simp_all add: recovery_ok_def signals_def)

lemma recovery_ok_issueRetry:
  assumes "recovery_ok cl" and "cl_recoverySignaled cl"
  shows "recovery_ok (issueRetry cl)"
  using assms dropWhile_snoc [of is_ready "cl_commands cl" CmdRetry]
  by (auto simp: issueRetry_def recovery_ok_def signals_def cmd_simps)

lemma recovery_ok_stub:
  assumes "recovery_ok cl"
  shows "recovery_ok (stubRecovery boot t g r cl)"
proof -
  let ?r = "case r of None \<Rightarrow> bo_requiredMode boot | Some x \<Rightarrow> x"
  let ?cl = "cl\<lparr>cl_recoveryTaint := True\<rparr>"
  note snoc = dropWhile_snoc [of is_ready "cl_commands cl"]
  consider (req) "?r" | (first) "\<not> ?r" "\<not> cl_recoverySignaled cl" | (again) "\<not> ?r" "cl_recoverySignaled cl" by blast
  then show ?thesis
  proof cases
    case req
    show ?thesis
    proof (cases "cl_requiredFailureSignaled cl")
      case True
      then show ?thesis using assms req by (auto simp: stubRecovery_def Let_def recovery_ok_def signals_def)
    next
      case False
      then show ?thesis using assms req snoc [of "CmdFailed x" for x]
        by (auto simp: stubRecovery_def Let_def recovery_ok_def signals_def cmd_simps)
    qed
  next
    case first
    then show ?thesis using assms snoc [of CmdUnready]
      by (auto simp: stubRecovery_def scheduleRetry_def Let_def recovery_ok_def signals_def cmd_simps)
  next
    case again
    have s: "recovery_ok (scheduleRetry t ?cl)" "cl_recoverySignaled (scheduleRetry t ?cl)"
      using assms again by (auto simp: scheduleRetry_def recovery_ok_def signals_def)
    have "recovery_ok ?cl" using assms again by (auto simp: recovery_ok_def signals_def)
    then show ?thesis
      using again s recovery_ok_issueRetry [OF s] by (auto simp: stubRecovery_def Let_def)
  qed
qed

section \<open>Mounting keeps the invariant\<close>

lemma parsePack_loop_manifest:
  "parsePack_loop d pack = Inr p \<Longrightarrow> pk_manifest p = pk_manifest pack"
proof (induction d pack rule: parsePack_loop.induct)
  case (1 d pack)
  show ?case
  proof (cases "d = []")
    case True
    then show ?thesis using "1.prems" by (simp add: parsePack_loop.simps)
  next
    case False
    let ?n = "be_length (take 4 (drop 48 d))"
    from "1.prems" False have c: "\<not> length d < 52" "\<not> length (drop 52 d) < ?n"
      "\<not> pk_vfs pack (toHex (take 16 d)) \<noteq> None"
      by (auto simp: parsePack_loop.simps Let_def split: if_splits)
    note ih = "1.IH" [OF False c(1) refl refl refl refl c(2) refl c(3)]
    have "parsePack_loop d pack = parsePack_loop (drop (52 + ?n) d)
        (registerLocal (toHex (take 16 (drop 32 d))) (take ?n (drop 52 d))
          (registerLocal (toHex (take 16 (drop 16 d))) (take ?n (drop 52 d))
            (pack\<lparr>pk_vfs := (pk_vfs pack)(toHex (take 16 d) \<mapsto> take ?n (drop 52 d))\<rparr>)))"
      by (subst parsePack_loop.simps) (simp only: False c Let_def if_False)
    with "1.prems" ih show ?thesis by simp
  qed
qed

lemma tryMount_manifest:
  assumes "tryMount G m = Inr pack"
  shows "pk_manifest pack = m"
proof -
  obtain contents where "parsePack contents m = Inr pack"
    using assms by (auto simp: tryMount_def split: option.splits if_splits sum.splits)
  then show ?thesis
    using parsePack_loop_manifest by (fastforce simp: parsePack_def split: if_splits)
qed

lemma mountPack_ok:
  assumes "client_ok boot T cl" and "boot_ok boot" and "bo_manifests boot g = Some m"
    and "mountPack (on_files T G) m cl = (b, cl')"
  shows "client_ok boot T cl'" and "cl_recoveryTaint cl' = cl_recoveryTaint cl"
    and "b \<Longrightarrow> \<exists>pack. cl_packs cl' g = Some pack \<and> pk_manifest pack = m"
    and "cl_pendingManifests cl' = cl_pendingManifests cl"
proof -
  have g: "mf_generation m = g" using assms(2,3) unfolding boot_ok_def by blast
  show "client_ok boot T cl'"
  proof (cases "tryMount (on_files T G) m")
    case (Inl failure)
    then show ?thesis using assms by (simp add: mountPack_def)
  next
    case (Inr pack)
    then have cl': "cl' = cl\<lparr>cl_packs := (cl_packs cl)(g \<mapsto> pack)\<rparr>" using assms(4) g by (simp add: mountPack_def)
    have m: "pk_manifest pack = m" by (rule tryMount_manifest [OF Inr])
    have old: "\<exists>p. ((cl_packs cl)(g \<mapsto> pack)) h = Some p \<and> md5 = mf_md5 (pk_manifest p)"
      if c: "CmdReady h md5 \<in> set (cl_commands cl)" for h md5
    proof -
      obtain p where "cl_packs cl h = Some p" "md5 = mf_md5 (pk_manifest p)"
        "bo_manifests boot h = Some (pk_manifest p)"
        using assms(1) c unfolding client_ok_def packs_ok_def by blast
      then show ?thesis using assms(3) m by (cases "h = g") auto
    qed
    have new: "\<forall>h p. ((cl_packs cl)(g \<mapsto> pack)) h = Some p \<longrightarrow>
        bo_manifests boot h = Some (pk_manifest p) \<and> verified_pack T (pk_manifest p) p"
      using assms(1,3) m tryMount_verified [OF Inr] by (auto simp: client_ok_def packs_ok_def)
    have pend: "\<forall>g m. cl_pendingManifests cl g = Some m \<longrightarrow> bo_manifests boot g = Some m"
      using assms(1) unfolding client_ok_def packs_ok_def by blast
    have "recovery_ok cl'" unfolding cl' by (rule recovery_ok_frame(1)) (use assms(1) in \<open>simp add: client_ok_def\<close>)
    moreover have "packs_ok boot T cl'"
      unfolding packs_ok_def cl' using old new pend by simp
    ultimately show ?thesis by (simp add: client_ok_def)
  qed
  show "cl_recoveryTaint cl' = cl_recoveryTaint cl" "cl_pendingManifests cl' = cl_pendingManifests cl"
    using assms(4) by (auto simp: mountPack_def split: sum.splits)
  show "\<exists>pack. cl_packs cl' g = Some pack \<and> pk_manifest pack = m" if b
    using assms(4) that g tryMount_manifest [of "on_files T G" m] by (auto simp: mountPack_def split: sum.splits)
qed

lemma client_ok_ready:
  assumes "client_ok boot T cl" and "\<not> cl_recoveryTaint cl" and "cl_packs cl g = Some pack"
    and "md5 = mf_md5 (pk_manifest pack)"
  shows "client_ok boot T (RunConsoleCommand (CmdReady g md5) cl)"
  using assms recovery_ok_ready [of cl]
  by (auto simp: client_ok_def packs_ok_def RunConsoleCommand_def)

lemma client_ok_frame:
  assumes "client_ok boot T cl"
  shows "client_ok boot T (cl\<lparr>cl_lazyMountAttempted := b\<rparr>)" "client_ok boot T (cl\<lparr>cl_selectedGeneration := c\<rparr>)"
    "client_ok boot T (cl\<lparr>cl_attempts := e\<rparr>)" "client_ok boot T (cl\<lparr>cl_mountTimer := t\<rparr>)"
    "client_ok boot T (cl\<lparr>cl_pendingManifests := (cl_pendingManifests cl)(g := None)\<rparr>)"
    "bo_manifests boot g = Some m \<Longrightarrow>
      client_ok boot T (cl\<lparr>cl_pendingManifests := (cl_pendingManifests cl)(g \<mapsto> m)\<rparr>)"
  using assms recovery_ok_frame [of cl] by (auto simp: client_ok_def packs_ok_def)

lemma recovery_only:
  assumes "client_ok boot T cl" and "recovery_ok cl'" and "cl_packs cl' = cl_packs cl"
    and "cl_pendingManifests cl' = cl_pendingManifests cl"
    and "filter is_ready (cl_commands cl') = filter is_ready (cl_commands cl)"
  shows "client_ok boot T cl'"
proof -
  have "CmdReady g m \<in> set (cl_commands cl)" if "CmdReady g m \<in> set (cl_commands cl')" for g m
  proof -
    have "CmdReady g m \<in> set (filter is_ready (cl_commands cl'))" using that by (simp add: is_ready_def)
    then show ?thesis unfolding assms(5) by simp
  qed
  then show ?thesis using assms by (auto simp: client_ok_def packs_ok_def)
qed

lemma client_ok_stub:
  assumes "client_ok boot T cl"
  shows "client_ok boot T (stubRecovery boot t g r cl)"
proof (rule recovery_only [OF assms recovery_ok_stub])
  show "recovery_ok cl" using assms by (simp add: client_ok_def)
qed (simp_all add: stubRecovery_def scheduleRetry_def issueRetry_def Let_def cmd_simps)

lemma client_ok_issueRetry:
  assumes "client_ok boot T cl" and "cl_recoveryScheduled cl"
  shows "client_ok boot T (issueRetry cl)"
proof (rule recovery_only [OF assms(1) recovery_ok_issueRetry])
  show "recovery_ok cl" "cl_recoverySignaled cl" using assms by (auto simp: client_ok_def recovery_ok_def)
qed (simp_all add: issueRetry_def cmd_simps)

lemma client_ok_lazyMount:
  assumes "client_ok boot T cl" and "boot_ok boot"
  shows "client_ok boot T (lazyMount boot (on_files T G) g cl)"
proof (cases "cl_packs cl g = None \<and> \<not> cl_recoveryTaint cl \<and> g \<notin> cl_lazyMountAttempted cl")
  case True
  let ?cl1 = "cl\<lparr>cl_lazyMountAttempted := insert g (cl_lazyMountAttempted cl)\<rparr>"
  have ok: "client_ok boot T ?cl1" by (rule client_ok_frame(1) [OF assms(1)])
  show ?thesis
  proof (cases "bo_manifests boot g")
    case None
    then show ?thesis using True ok by (simp add: lazyMount_def Let_def)
  next
    case (Some m)
    obtain b cl2 where mp: "mountPack (on_files T G) m ?cl1 = (b, cl2)" by fastforce
    note r = mountPack_ok [OF ok assms(2) Some mp]
    have "client_ok boot T (RunConsoleCommand (CmdReady g (mf_md5 m)) cl2)" if b
      using client_ok_ready [OF r(1), of g] r(2,3) that True by auto
    then show ?thesis using True Some r(1) by (simp add: lazyMount_def Let_def mp)
  qed
next
  case False
  then show ?thesis using assms(1) unfolding lazyMount_def by (simp only: if_False)
qed

lemma client_ok_holypack:
  assumes "client_ok boot T cl" and "boot_ok boot"
  shows "client_ok boot T (snd (holypack boot (on_files T G) compiles t g r path cl))"
proof -
  define g0 where "g0 = (case g of Some g \<Rightarrow> g
    | None \<Rightarrow> (case cl_selectedGeneration cl of Some g \<Rightarrow> g | None \<Rightarrow> bo_currentGeneration boot))"
  have m: "client_ok boot T (lazyMount boot (on_files T G) g0 cl)" by (rule client_ok_lazyMount [OF assms])
  note f = client_ok_frame(2) [OF m, of "Some g0"]
  show ?thesis
    using client_ok_stub [OF m] client_ok_stub [OF f] f
    unfolding holypack_def Let_def g0_def [symmetric]
    by (cases "cl_packs (lazyMount boot (on_files T G) g0 cl) g0") (auto split: option.split)
qed

lemma client_ok_bootMount:
  assumes "client_ok boot T cl" and "boot_ok boot" and "bo_manifests boot g = Some m"
  shows "client_ok boot T (bootMount boot (on_files T G) m cl)" and "cl_recoveryTaint (bootMount boot (on_files T G) m cl) = cl_recoveryTaint cl"
proof -
  obtain b cl1 where mp: "mountPack (on_files T G) m cl = (b, cl1)" by fastforce
  have g: "mf_generation m = g" using assms(2,3) unfolding boot_ok_def by blast
  note r = mountPack_ok [OF assms mp]
  show "client_ok boot T (bootMount boot (on_files T G) m cl)"
    using r(1) client_ok_frame(6) [OF r(1) assms(3)] by (simp add: bootMount_def mp g)
  show "cl_recoveryTaint (bootMount boot (on_files T G) m cl) = cl_recoveryTaint cl"
    using r(2) by (simp add: bootMount_def mp)
qed

lemma fold_keeps: "\<lbrakk>P z; \<And>x y. P y \<Longrightarrow> P (f x y)\<rbrakk> \<Longrightarrow> P (fold f xs z)"
  by (induction xs arbitrary: z) auto

lemma client_ok_bootPass:
  assumes "client_ok boot T cl" and "boot_ok boot" and "\<not> cl_recoveryTaint cl"
  shows "client_ok boot T (bootPass boot (on_files T G) t order packOrder cl)"
proof -
  let ?P = "\<lambda>c. client_ok boot T c \<and> \<not> cl_recoveryTaint c"
  let ?cl1 = "fold (\<lambda>g c. case bo_manifests boot g of None \<Rightarrow> c | Some m \<Rightarrow> bootMount boot (on_files T G) m c) order cl"
  let ?cl2 = "fold (\<lambda>g c. case cl_packs c g of None \<Rightarrow> c
            | Some pack \<Rightarrow> RunConsoleCommand (CmdReady g (mf_md5 (pk_manifest pack))) c) packOrder ?cl1"
  have "?P ?cl1"
    by (rule fold_keeps) (use assms client_ok_bootMount [OF _ assms(2)] in \<open>auto split: option.split\<close>)
  then have "?P ?cl2"
    by (rule fold_keeps) (use client_ok_ready in \<open>auto simp: RunConsoleCommand_def split: option.split\<close>)
  then have "client_ok boot T ?cl2" by blast
  note this client_ok_frame(3) [OF client_ok_frame(4) [OF this], of 0 True]
    client_ok_frame(4) [OF client_ok_frame(3) [OF this], of True 0]
  then show ?thesis by (simp add: bootPass_def Let_def)
qed

lemma client_ok_timerTick:
  assumes "client_ok boot T cl" and "boot_ok boot"
  shows "client_ok boot T (timerTick (on_files T G) order cl)"
proof -
  have mount: "client_ok boot T (timerMount (on_files T G) g c)" if c: "client_ok boot T c" for g c
  proof (cases "cl_pendingManifests c g")
    case None
    then show ?thesis using c by (simp add: timerMount_def)
  next
    case (Some m)
    then have m: "bo_manifests boot g = Some m" using c unfolding client_ok_def packs_ok_def by blast
    obtain b cl1 where mp: "mountPack (on_files T G) m c = (b, cl1)" by fastforce
    note r = mountPack_ok [OF c assms(2) m mp]
    let ?cl2 = "cl1\<lparr>cl_pendingManifests := (cl_pendingManifests cl1)(g := None)\<rparr>"
    have ok: "client_ok boot T ?cl2" by (rule client_ok_frame(5) [OF r(1)])
    have "client_ok boot T (RunConsoleCommand (CmdReady g (mf_md5 m)) ?cl2)" if b "\<not> cl_recoveryTaint ?cl2"
      using client_ok_ready [OF ok that(2), of g] r(3) that(1) by auto
    then show ?thesis using Some r(1) ok by (simp add: timerMount_def mp Let_def)
  qed
  have "client_ok boot T (fold (timerMount (on_files T G)) order (cl\<lparr>cl_attempts := cl_attempts cl + 1\<rparr>))"
    by (rule fold_keeps [where P = "client_ok boot T"]) (auto intro: mount client_ok_frame(3) assms(1))
  then show ?thesis using client_ok_frame(4) by (simp add: timerTick_def Let_def)
qed

lemma client_ok_reach:
  assumes "client_reach boot T cl" and "boot_ok boot"
  shows "client_ok boot T cl"
  using assms(1)
proof induction
  case reach_guard
  show ?case by (simp add: client_inv Client_new_def)
next
  case (reach_boot G t order packOrder)
  have "client_ok boot T Client_new" by (simp add: client_inv Client_new_def)
  then show ?case by (rule client_ok_bootPass [OF _ assms(2)]) (simp add: Client_new_def)
next
  case (reach_next cl cl')
  from reach_next.hyps(2) reach_next.IH show ?case
    by cases (auto intro: client_ok_holypack client_ok_stub client_ok_issueRetry client_ok_timerTick assms(2))
qed

section \<open>Properties of the resolver\<close>

text \<open>
  C16. What a client sends the server.  In every session of the bootstrap, whatever happens to the
  files of the game in between: it acknowledges a generation only when it has mounted that
  generation's pack, under the manifest's own MD5, and that is the MD5 of the decompressed object
  the pack was parsed from; once any stub failed it never acknowledges
  anything again, so all acknowledgements precede all recovery commands; and it sends at most
  one authenticated failure, at most one unready signal and at most one retry, the retry only
  in a session that signalled unready (the required lane never retries by itself).
\<close>

theorem client_commands_safe:
  assumes "client_reach boot T cl" and "boot_ok boot"
  shows "(\<forall>g md5. CmdReady g md5 \<in> set (cl_commands cl) \<longrightarrow>
      (\<exists>m pack object contents. bo_manifests boot g = Some m \<and> md5 = mf_md5 m \<and> cl_packs cl g = Some pack \<and>
         game_decompress T object = Some contents \<and> map ascii_lower (game_md5 T contents) = md5 \<and>
         parsePack contents m = Inr pack)) \<and>
    (\<exists>acks recovery. cl_commands cl = acks @ recovery \<and> list_all is_ready acks \<and>
       list_all (\<lambda>c. \<not> is_ready c) recovery \<and>
       (cl_recoveryTaint cl \<longleftrightarrow> recovery \<noteq> [])) \<and>
    length (filter is_failed (cl_commands cl)) \<le> 1 \<and>
    length (filter ((=) CmdUnready) (cl_commands cl)) \<le> 1 \<and>
    length (filter ((=) CmdRetry) (cl_commands cl)) \<le> 1 \<and>
    (CmdRetry \<in> set (cl_commands cl) \<longrightarrow> CmdUnready \<in> set (cl_commands cl))"
proof -
  have ok: "recovery_ok cl" "packs_ok boot T cl"
    using client_ok_reach [OF assms] by (simp_all add: client_ok_def)
  have acks: "\<exists>m pack object contents. bo_manifests boot g = Some m \<and> md5 = mf_md5 m \<and> cl_packs cl g = Some pack \<and>
      game_decompress T object = Some contents \<and> map ascii_lower (game_md5 T contents) = md5 \<and>
      parsePack contents m = Inr pack" if c: "CmdReady g md5 \<in> set (cl_commands cl)" for g md5
  proof -
    obtain pack where p: "cl_packs cl g = Some pack" "md5 = mf_md5 (pk_manifest pack)"
      using ok(2) [unfolded packs_ok_def, THEN conjunct2, THEN conjunct2, rule_format, OF c] by blast
    then have "bo_manifests boot g = Some (pk_manifest pack)" "verified_pack T (pk_manifest pack) pack"
      using ok(2) by (simp_all add: packs_ok_def)
    then show ?thesis unfolding verified_pack_def p(2) using p(1) by blast
  qed
  have cut: "list_all is_ready (takeWhile is_ready (cl_commands cl))"
    by (auto simp: list_all_iff dest: set_takeWhileD)
  have rest: "list_all (\<lambda>c. \<not> is_ready c) (dropWhile is_ready (cl_commands cl))"
    using ok(1) by (simp add: recovery_ok_def)
  have nonready: "\<exists>c \<in> set (cl_commands cl). \<not> is_ready c" if "cl_recoveryTaint cl"
  proof -
    have "signals is_failed cl > 0 \<or> signals ((=) CmdUnready) cl > 0" using ok(1) that by (auto simp: recovery_ok_def)
    then show ?thesis by (auto simp: signals_def filter_empty_conv cmd_simps split: Command.splits)
  qed
  have "cl_recoveryTaint cl \<longleftrightarrow> dropWhile is_ready (cl_commands cl) \<noteq> []"
    using nonready untainted_ready [OF ok(1)] by (auto simp: dropWhile_eq_Nil_conv)
  then have split': "\<exists>acks recovery. cl_commands cl = acks @ recovery \<and> list_all is_ready acks \<and>
       list_all (\<lambda>c. \<not> is_ready c) recovery \<and> (cl_recoveryTaint cl \<longleftrightarrow> recovery \<noteq> [])"
    using cut rest by (intro exI [of _ "takeWhile is_ready (cl_commands cl)"]
        exI [of _ "dropWhile is_ready (cl_commands cl)"]) simp
  have retry: "CmdUnready \<in> set (cl_commands cl)" if "CmdRetry \<in> set (cl_commands cl)"
  proof -
    have "signals ((=) CmdRetry) cl \<noteq> 0" using that by (auto simp: signals_def filter_empty_conv)
    then have "signals ((=) CmdUnready) cl \<noteq> 0" using ok(1) by (auto simp: recovery_ok_def)
    then show ?thesis by (auto simp: signals_def filter_empty_conv)
  qed
  have "signals is_failed cl \<le> 1" "signals ((=) CmdUnready) cl \<le> 1" "signals ((=) CmdRetry) cl \<le> 1"
    using ok(1) by (auto simp: recovery_ok_def)
  then show ?thesis using acks split' retry unfolding signals_def by blast
qed

text \<open>
  The first failing stub after a served one: the object arrived, a stub ran, and the source of the
  next one does not compile.
\<close>

definition demo_boot :: Boot where
  "demo_boot = \<lparr>bo_currentGeneration = ''g'',
     bo_manifests = [''g'' \<mapsto> \<lparr>mf_generation = ''g'', mf_md5 = replicate 32 CHR ''a'', mf_salt = ''s'',
       mf_resource = demo_path\<rparr>],
     bo_requiredMode = True, bo_downloadsDisabled = False\<rparr>"

definition demo_served_client :: Client where
  "demo_served_client = snd (holypack demo_boot demo_game (\<lambda>_. True) False None None ''@a.lua'' Client_new)"

definition demo_failed_client :: Client where
  "demo_failed_client = snd (holypack demo_boot demo_game (\<lambda>_. False) False None None ''@a.lua'' demo_served_client)"

lemma demo_on_files: "on_files demo_game (\<lambda>_. Some (bt_compressed (BuildPack demo_bootil demo_task))) = demo_game"
  by (simp add: demo_game_def)

lemma demo_client_reach: "client_reach demo_boot demo_game demo_served_client" "client_reach demo_boot demo_game demo_failed_client"
proof -
  have step: "client_step demo_boot demo_game cl (snd (holypack demo_boot demo_game compiles t g r path cl))" for compiles t g r path cl
    using step_stub [of demo_boot demo_game cl "\<lambda>_. Some (bt_compressed (BuildPack demo_bootil demo_task))"]
    unfolding demo_on_files .
  show 1: "client_reach demo_boot demo_game demo_served_client"
    unfolding demo_served_client_def by (rule reach_next [OF reach_guard step])
  show "client_reach demo_boot demo_game demo_failed_client"
    unfolding demo_failed_client_def by (rule reach_next [OF 1 step])
qed

text \<open>What a stub of a packed file does, for the generation it resolves to.\<close>

definition stub_resolves :: "Boot \<Rightarrow> string option \<Rightarrow> Client \<Rightarrow> string \<Rightarrow> bool" where
  "stub_resolves boot g0 cl g \<longleftrightarrow>
     g0 = Some g \<or> g0 = None \<and> (cl_selectedGeneration cl = Some g \<or>
       cl_selectedGeneration cl = None \<and> bo_currentGeneration boot = g)"

lemma stub_served:
  assumes "md5_hex B" and "u32_files (bt_files task)" and "bt_uncompressed task = []"
    and "bt_compressed task = []" and "\<not> bt_success task"
    and "bt_success (BuildPack B task)" and "same_tools B G" and "delivered B task G m"
    and "bo_manifests boot g = Some m" and "mf_generation m = g" and "stub_resolves boot g0 cl g"
    and "f \<in> set (bt_files task)" and "fst (normalizedForms (strip_lit ''@'' path)) = fr_sourcePath f"
    and "cl_packs cl g = None \<and> \<not> cl_recoveryTaint cl \<and> g \<notin> cl_lazyMountAttempted cl \<or>
      cl_packs cl g = Some (built_pack B task m)"
  shows "\<exists>cl'. cl_packs cl' g = Some (built_pack B task m) \<and> cl_recoveryTaint cl' = cl_recoveryTaint cl \<and>
    cl_selectedGeneration cl' = Some g \<and> cl_requiredFailureSignaled cl' = cl_requiredFailureSignaled cl \<and>
    cl_commands cl' = cl_commands cl @ (if cl_packs cl g = None then [CmdReady g (bt_md5 (BuildPack B task))] else []) \<and>
    holypack boot G compiles t g0 required path cl =
      (if compiles (bytes_of (fr_contents f)) then (Some (bytes_of (fr_contents f), fr_sourcePath f), cl')
       else (None, stubRecovery boot t (Some g) required cl'))"
proof -
  note mount = delivered_mount [OF assms(1-8)]
  have md5: "mf_md5 m = bt_md5 (BuildPack B task)" using assms(8) by (simp add: delivered_def)
  have compiled: "compilePacked G compiles (built_pack B task m) (strip_lit ''@'' path) =
      (if compiles (bytes_of (fr_contents f)) then Some (bytes_of (fr_contents f), fr_sourcePath f) else None)"
    by (simp add: compilePacked_def find_built [OF assms(1,7) mount(2) assms(12,13)] assms(13))
  have g: "(case g0 of Some g \<Rightarrow> g
      | None \<Rightarrow> (case cl_selectedGeneration cl of Some g \<Rightarrow> g | None \<Rightarrow> bo_currentGeneration boot)) = g"
    using assms(11) by (auto simp: stub_resolves_def)
  let ?lazy = "lazyMount boot G g cl"
  have lazy: "cl_packs ?lazy g = Some (built_pack B task m) \<and> cl_recoveryTaint ?lazy = cl_recoveryTaint cl \<and>
      cl_requiredFailureSignaled ?lazy = cl_requiredFailureSignaled cl \<and>
      cl_commands ?lazy = cl_commands cl @ (if cl_packs cl g = None then [CmdReady g (bt_md5 (BuildPack B task))] else [])"
  proof (cases "cl_packs cl g = None")
    case True
    then have "\<not> cl_recoveryTaint cl" "g \<notin> cl_lazyMountAttempted cl" using assms(14) by auto
    with True show ?thesis
      by (simp add: lazyMount_def assms(9,10) mountPack_def mount(1) RunConsoleCommand_def md5 Let_def)
  next
    case False
    then show ?thesis using assms(14) by (auto simp: lazyMount_def)
  qed
  then show ?thesis
    by (intro exI [of _ "?lazy\<lparr>cl_selectedGeneration := Some g\<rparr>"])
      (simp add: holypack_def g compiled Let_def)
qed

lemma demo_task_facts:
  defines "m \<equiv> \<lparr>mf_generation = ''g'', mf_md5 = replicate 32 CHR ''a'', mf_salt = ''s'', mf_resource = demo_path\<rparr>"
  shows "u32_files (bt_files demo_task)" "bt_uncompressed demo_task = []" "bt_compressed demo_task = []"
    "\<not> bt_success demo_task" "bt_success (BuildPack demo_bootil demo_task)" "same_tools demo_bootil demo_game"
    "delivered demo_bootil demo_task demo_game m" "bo_manifests demo_boot ''g'' = Some m" "mf_generation m = ''g''"
    "demo_file \<in> set (bt_files demo_task)" "fst (normalizedForms (strip_lit ''@'' ''@a.lua'')) = fr_sourcePath demo_file"
    "bytes_of (fr_contents demo_file) = [120]" "fr_sourcePath demo_file = ''a.lua''"
    "bt_md5 (BuildPack demo_bootil demo_task) = replicate 32 CHR ''a''" "stub_resolves demo_boot None Client_new ''g''"
proof -
  show "u32_files (bt_files demo_task)" "bt_uncompressed demo_task = []" "bt_compressed demo_task = []"
    "\<not> bt_success demo_task" "demo_file \<in> set (bt_files demo_task)"
    by (simp_all add: u32_files_def UINT_MAX_def demo_task_def demo_file_def)
  show "same_tools demo_bootil demo_game"
    by (simp add: same_tools_def demo_bootil_def demo_game_def)
  have "bt_salt demo_task = ''s''" by (simp add: demo_task_def)
  then show "delivered demo_bootil demo_task demo_game m"
    using demo_pack by (simp add: delivered_def demo_game_def m_def)
  show "bt_success (BuildPack demo_bootil demo_task)" "bt_md5 (BuildPack demo_bootil demo_task) = replicate 32 CHR ''a''"
    using demo_pack by simp_all
  show "fst (normalizedForms (strip_lit ''@'' ''@a.lua'')) = fr_sourcePath demo_file"
    by (simp add: normalizedForms_def Let_def strip_lit_def starts_with_def demo_file_def strip_segment_def)
  show "bytes_of (fr_contents demo_file) = [120]" "fr_sourcePath demo_file = ''a.lua''"
    by (simp_all add: bytes_of_def demo_file_def)
  show "bo_manifests demo_boot ''g'' = Some m" "mf_generation m = ''g''" by (simp_all add: demo_boot_def m_def)
  show "stub_resolves demo_boot None Client_new ''g''" by (simp add: stub_resolves_def demo_boot_def Client_new_def)
qed

lemma demo_failed_commands:
  "cl_commands demo_failed_client = [CmdReady ''g'' (replicate 32 CHR ''a''), CmdFailed ''g'']"
proof -
  note d = demo_task_facts
  have new: "cl_packs Client_new g = None" "\<not> cl_recoveryTaint Client_new" "g \<notin> cl_lazyMountAttempted Client_new"
    "cl_commands Client_new = []" "\<not> cl_requiredFailureSignaled Client_new" for g by (simp_all add: Client_new_def)
  then have open': "cl_packs Client_new ''g'' = None \<and> \<not> cl_recoveryTaint Client_new \<and> ''g'' \<notin> cl_lazyMountAttempted Client_new \<or>
      cl_packs Client_new ''g'' = Some p" for p by simp
  from stub_served [OF demo_md5_hex d(1-9) d(15) d(10,11) open', of "\<lambda>_. True" False None] new
  have served: "cl_packs demo_served_client ''g'' = Some (built_pack demo_bootil demo_task
      \<lparr>mf_generation = ''g'', mf_md5 = replicate 32 CHR ''a'', mf_salt = ''s'', mf_resource = demo_path\<rparr>)"
    "cl_selectedGeneration demo_served_client = Some ''g''" "\<not> cl_requiredFailureSignaled demo_served_client"
    "cl_commands demo_served_client = [CmdReady ''g'' (replicate 32 CHR ''a'')]"
    by (auto simp: demo_served_client_def d(14))
  have "stub_resolves demo_boot None demo_served_client ''g''" by (simp add: stub_resolves_def served(2))
  from stub_served [OF demo_md5_hex d(1-9) this d(10,11) disjI2 [OF served(1)], of "\<lambda>_. False" False None] served(1,3,4)
  show ?thesis
    by (auto simp: demo_failed_client_def stubRecovery_def demo_boot_def RunConsoleCommand_def)
qed

theorem client_commands_safe_witness:
  "cl_commands demo_failed_client = [CmdReady ''g'' (replicate 32 CHR ''a''), CmdFailed ''g''] \<and>
   (\<exists>m pack object contents. bo_manifests demo_boot ''g'' = Some m \<and> cl_packs demo_failed_client ''g'' = Some pack \<and>
      game_decompress demo_game object = Some contents \<and>
      map ascii_lower (game_md5 demo_game contents) = replicate 32 CHR ''a'' \<and> parsePack contents m = Inr pack)"
proof -
  have "boot_ok demo_boot" by (simp add: boot_ok_def demo_boot_def)
  from client_commands_safe [OF demo_client_reach(2) this, THEN conjunct1] demo_failed_commands show ?thesis by fastforce
qed

text \<open>
  C12. From the server's file to the client's chunk.  Let a build have succeeded and the client have
  downloaded its object.  The stub may name the build's generation, or none, as the delivered stub
  does: then the generation the client's stubs settled on counts, and at first the current one.  The
  first stub of a packed file that runs in an untainted session
  mounts the pack on demand, acknowledges the generation under the build's MD5 and returns the
  chunk of exactly the bytes the server captured, under the file's own name, with no recovery
  triggered; from then on stubs that name no generation use this one, and every later stub of a
  packed file does the same without mounting again.
\<close>

theorem stub_yields_packed_source:
  assumes "md5_hex B" and "u32_files (bt_files task)" and "bt_uncompressed task = []"
    and "bt_compressed task = []" and "\<not> bt_success task"
    and "bt_success (BuildPack B task)" and "same_tools B G" and "delivered B task G m"
    and "bo_manifests boot g = Some m" and "mf_generation m = g"
    and "g0 = Some g \<or> g0 = None \<and> (cl_selectedGeneration cl = Some g \<or>
      cl_selectedGeneration cl = None \<and> bo_currentGeneration boot = g)"
    and "f \<in> set (bt_files task)" and "fst (normalizedForms (strip_lit ''@'' path)) = fr_sourcePath f"
    and "compiles (bytes_of (fr_contents f))"
    and "cl_packs cl g = None \<and> \<not> cl_recoveryTaint cl \<and> g \<notin> cl_lazyMountAttempted cl \<or>
      cl_packs cl g = Some (built_pack B task m)"
  shows "fst (holypack boot G compiles t g0 required path cl) =
      Some (bytes_of (fr_contents f), fr_sourcePath f) \<and>
    cl_packs (snd (holypack boot G compiles t g0 required path cl)) g = Some (built_pack B task m) \<and>
    cl_selectedGeneration (snd (holypack boot G compiles t g0 required path cl)) = Some g \<and>
    cl_recoveryTaint (snd (holypack boot G compiles t g0 required path cl)) = cl_recoveryTaint cl \<and>
    cl_commands (snd (holypack boot G compiles t g0 required path cl)) =
      cl_commands cl @ (if cl_packs cl g = None then [CmdReady g (bt_md5 (BuildPack B task))] else [])"
proof -
  have r: "stub_resolves boot g0 cl g" using assms(11) by (simp add: stub_resolves_def)
  from stub_served [OF assms(1-10) r assms(12,13,15), of compiles t required] assms(14) show ?thesis by auto
qed

theorem stub_yields_packed_source_witness:
  "fst (holypack demo_boot demo_game (\<lambda>_. True) False None None ''@a.lua'' Client_new) =
     Some ([120], ''a.lua'') \<and>
   cl_selectedGeneration demo_served_client = Some ''g'' \<and>
   cl_commands demo_served_client = [CmdReady ''g'' (replicate 32 CHR ''a'')]"
proof -
  note d = demo_task_facts
  have current: "None = Some ''g'' \<or> None = (None :: string option) \<and> (cl_selectedGeneration Client_new = Some ''g'' \<or>
      cl_selectedGeneration Client_new = None \<and> bo_currentGeneration demo_boot = ''g'')"
    by (simp add: Client_new_def demo_boot_def)
  have c: "cl_packs Client_new ''g'' = None \<and> \<not> cl_recoveryTaint Client_new \<and> ''g'' \<notin> cl_lazyMountAttempted Client_new \<or>
      cl_packs Client_new ''g'' = Some p" "cl_commands Client_new = []" "cl_packs Client_new ''g'' = None" for p
    by (simp_all add: Client_new_def)
  show ?thesis
    using stub_yields_packed_source [where compiles = "\<lambda>_. True" and t = False and required = None,
        OF demo_md5_hex d(1-9) current d(10,11) TrueI c(1)] d(12-14) c(2,3) by (simp add: demo_served_client_def)
qed

text \<open>
  An object that cannot be mounted is opened once, not once per stub.  After a stub call
  that left its generation unmounted, every further stub of that generation goes straight to
  recovery, whatever the game's files then hold: the result and the client's state no longer
  depend on the file system, the decompressor or the hash.
\<close>

theorem failed_mount_not_retried:
  assumes "cl_packs (snd (holypack boot G compiles t (Some g) required path cl)) g = None"
  shows "holypack boot G' compiles' t' (Some g) required' path'
      (snd (holypack boot G compiles t (Some g) required path cl)) =
    (None, stubRecovery boot t' (Some g) required' (snd (holypack boot G compiles t (Some g) required path cl)))"
proof -
  let ?cl = "snd (holypack boot G compiles t (Some g) required path cl)"
  have taint: "cl_recoveryTaint (stubRecovery boot h x r c)" for h x r c
    by (simp add: stubRecovery_def Let_def RunConsoleCommand_def scheduleRetry_def issueRetry_def)
  have packs: "cl_packs (stubRecovery boot h x r c) = cl_packs c" for h x r c
    by (simp add: stubRecovery_def Let_def RunConsoleCommand_def scheduleRetry_def issueRetry_def)
  have "cl_packs (lazyMount boot G g cl) g = None"
    using assms by (auto simp: holypack_def Let_def packs split: option.splits)
  then have "?cl = stubRecovery boot t (Some g) required (lazyMount boot G g cl)"
    by (simp add: holypack_def Let_def)
  then have "cl_recoveryTaint ?cl" by (simp add: taint)
  then have "lazyMount boot G' g ?cl = ?cl" by (simp add: lazyMount_def)
  then show ?thesis using assms by (simp add: holypack_def Let_def)
qed

theorem failed_mount_not_retried_witness:
  "fst (holypack demo_boot demo_game (\<lambda>_. True) False (Some ''g'') None ''@a.lua'' 
     (snd (holypack demo_boot (demo_game\<lparr>game_read := (\<lambda>_. None)\<rparr>) (\<lambda>_. True) False (Some ''g'') None ''@a.lua'' Client_new))) =
   None"
proof -
  have "cl_packs (snd (holypack demo_boot (demo_game\<lparr>game_read := (\<lambda>_. None)\<rparr>) (\<lambda>_. True) False (Some ''g'') None ''@a.lua'' Client_new)) ''g'' = None"
    by (simp add: holypack_def lazyMount_def mountPack_def tryMount_def demo_boot_def
      demo_game_def Client_new_def stubRecovery_def RunConsoleCommand_def Let_def)
  from failed_mount_not_retried [OF this] show ?thesis by simp
qed

section \<open>The mount timer ends\<close>

text \<open>The timer library calls the closure while the timer exists; each call has its own moment.\<close>

definition run_timer :: "(Game \<times> string list) list \<Rightarrow> Client \<Rightarrow> Client" where
  "run_timer ticks cl = fold (\<lambda>(G, order) c. if cl_mountTimer c then timerTick G order c else c) ticks cl"

lemma timerMount_attempts: "cl_attempts (timerMount G g c) = cl_attempts c"
  by (auto simp: timerMount_def mountPack_def RunConsoleCommand_def Let_def split: option.split sum.split)

lemma timerTick_attempts: "cl_attempts (timerTick G order c) = cl_attempts c + 1"
proof -
  have "cl_attempts (fold (timerMount G) order c') = cl_attempts c'" for c'
    by (induction order arbitrary: c') (simp_all add: timerMount_attempts)
  then show ?thesis by (simp add: timerTick_def Let_def)
qed

lemma timerTick_stopped:
  "\<not> cl_mountTimer (timerTick G order c) \<Longrightarrow>
     cl_pendingManifests (timerTick G order c) = Map.empty \<or> 60 \<le> cl_attempts (timerTick G order c) \<or> \<not> cl_mountTimer c"
proof -
  have "cl_mountTimer (timerMount G g c) = cl_mountTimer c" for g c
    by (auto simp: timerMount_def mountPack_def RunConsoleCommand_def Let_def split: option.split sum.split)
  then have "cl_mountTimer (fold (timerMount G) order c') = cl_mountTimer c'" for c'
    by (induction order arbitrary: c') simp_all
  moreover assume "\<not> cl_mountTimer (timerTick G order c)"
  ultimately show ?thesis by (auto simp: timerTick_def Let_def split: if_splits)
qed

lemma timerTick_sixty: "60 \<le> cl_attempts (timerTick G order c) \<Longrightarrow> \<not> cl_mountTimer (timerTick G order c)"
  by (auto simp: timerTick_def Let_def split: if_splits)

lemma run_timer_stopped [simp]: "\<not> cl_mountTimer cl \<Longrightarrow> run_timer ticks cl = cl"
  by (induction ticks) (simp_all add: run_timer_def split: prod.split)

lemma run_timer_ends:
  "\<lbrakk>cl_mountTimer cl; 60 \<le> cl_attempts cl + length ticks; cl_attempts cl < 60\<rbrakk> \<Longrightarrow>
    \<not> cl_mountTimer (run_timer ticks cl) \<and> cl_attempts (run_timer ticks cl) \<le> 60 \<and>
    (cl_pendingManifests (run_timer ticks cl) = Map.empty \<or> cl_attempts (run_timer ticks cl) = 60)"
proof (induction ticks arbitrary: cl)
  case Nil
  then show ?case by simp
next
  case (Cons t ticks)
  obtain G order where t: "t = (G, order)" by fastforce
  let ?c = "timerTick G order cl"
  have run: "run_timer (t # ticks) cl = run_timer ticks ?c" using Cons.prems by (simp add: run_timer_def t)
  have n: "cl_attempts ?c = cl_attempts cl + 1" by (rule timerTick_attempts)
  show ?case
  proof (cases "cl_mountTimer ?c")
    case True
    then have "cl_attempts ?c < 60" using timerTick_sixty by (meson linorder_not_le)
    then show ?thesis using Cons.IH [OF True] Cons.prems n unfolding run by simp
  next
    case False
    then show ?thesis using timerTick_stopped [OF False] Cons.prems n unfolding run by auto
  qed
qed

text \<open>
  Waiting for a late download ends.  Once started by the boot pass, the mount timer runs at
  most 60 times: after any 60 moments it is gone, and then either every pending generation has
  been mounted or all 60 attempts were made, whatever the game's files were at each of them.
\<close>

theorem mount_timer_ends:
  assumes "cl_mountTimer cl" and "cl_attempts cl = 0" and "60 \<le> length ticks"
  shows "\<not> cl_mountTimer (run_timer ticks cl) \<and> cl_attempts (run_timer ticks cl) \<le> 60 \<and>
    (cl_pendingManifests (run_timer ticks cl) = Map.empty \<or> cl_attempts (run_timer ticks cl) = 60)"
  by (rule run_timer_ends) (use assms in simp_all)

theorem mount_timer_ends_witness:
  "cl_mountTimer (bootPass demo_boot (demo_game\<lparr>game_read := (\<lambda>_. None)\<rparr>) True [''g''] [''g''] Client_new) \<and>
   \<not> cl_mountTimer (run_timer (replicate 60 (demo_game, [''g'']))
     (bootPass demo_boot (demo_game\<lparr>game_read := (\<lambda>_. None)\<rparr>) True [''g''] [''g''] Client_new))"
proof -
  let ?c = "bootPass demo_boot (demo_game\<lparr>game_read := (\<lambda>_. None)\<rparr>) True [''g''] [''g''] Client_new"
  have c: "cl_mountTimer ?c" "cl_attempts ?c = 0"
    by (simp_all add: bootPass_def bootMount_def mountPack_def tryMount_def demo_boot_def demo_game_def
        Client_new_def Let_def)
  then show ?thesis using mount_timer_ends [OF c, of "replicate 60 (demo_game, [''g''])"] by simp
qed

end
