(* ===== verification/LuaTokens.thy ===== *)
theory LuaTokens
  imports CppString
begin

text \<open>
  The Lua lexer of \<^verbatim>\<open>gmoddatapack.cpp\<close> that prepares a file for the client.  A
  position is an index into the content; \<open>char_at\<close> is \<^verbatim>\<open>operator[]\<close>, which reads
  a NUL at the end.  \<open>next_token\<close> is one iteration of the loop of
  \<^verbatim>\<open>TokenizeContent\<close>: the token pushed and the next position.
\<close>

section \<open>Tokens\<close>

datatype TokenType =
    TK_INVALID | TK_IF | TK_FUNCTION | TK_RETURN | TK_THEN | TK_END | TK_DO | TK_OR | TK_AND | TK_NOT
  | TK_EQUAL | TK_NOT_EQUAL | TK_GREATER_OR_EQUAL | TK_GREATER | TK_LESS_OR_EQUAL | TK_PARENTHESIS
  | TK_LESS | TK_ELSE | TK_ELSEIF | TK_COMMENT | TK_STRING | TK_NUMBER | TK_TRUE | TK_FALSE
  | TK_SOMETHING | TK_ADD | TK_SUB | TK_DIV | TK_MUL | TK_LOCAL | TK_LINEEND | TK_EOF

record Token =
  tk_type :: TokenType
  tk_content :: string
  tk_isSpace :: bool

definition tok :: "TokenType \<Rightarrow> string \<Rightarrow> Token" where
  "tok ty s = \<lparr>tk_type = ty, tk_content = s, tk_isSpace = False\<rparr>"

definition space_tok :: "TokenType \<Rightarrow> string \<Rightarrow> Token" where
  "space_tok ty s = \<lparr>tk_type = ty, tk_content = s, tk_isSpace = True\<rparr>"

definition KeywordType :: "string \<Rightarrow> TokenType" where
  "KeywordType strWord =
     (if strWord = ''if'' then TK_IF
      else if strWord = ''function'' then TK_FUNCTION
      else if strWord = ''return'' then TK_RETURN
      else if strWord = ''then'' then TK_THEN
      else if strWord = ''end'' then TK_END
      else if strWord = ''not'' then TK_NOT
      else if strWord = ''do'' then TK_DO
      else if strWord = ''elseif'' then TK_ELSEIF
      else if strWord = ''else'' then TK_ELSE
      else if strWord = ''true'' then TK_TRUE
      else if strWord = ''false'' then TK_FALSE
      else if strWord = ''local'' then TK_LOCAL
      else TK_SOMETHING)"

section \<open>Scanning\<close>

abbreviation NL :: char where
  "NL \<equiv> CHR 0x0A"

abbreviation BACKSLASH :: char where
  "BACKSLASH \<equiv> CHR 0x5C"

definition char_at :: "string \<Rightarrow> nat \<Rightarrow> char" where
  "char_at s i = (if i < length s then s ! i else CHR 0x00)"

definition substr :: "string \<Rightarrow> nat \<Rightarrow> nat \<Rightarrow> string" where
  "substr s i n = take n (drop i s)"

definition isdigit :: "char \<Rightarrow> bool" where
  "isdigit c \<longleftrightarrow> 48 \<le> (of_char c :: nat) \<and> (of_char c :: nat) \<le> 57"

definition isalpha :: "char \<Rightarrow> bool" where
  "isalpha c \<longleftrightarrow> 65 \<le> (of_char c :: nat) \<and> (of_char c :: nat) \<le> 90 \<or>
     97 \<le> (of_char c :: nat) \<and> (of_char c :: nat) \<le> 122"

definition isalnum :: "char \<Rightarrow> bool" where
  "isalnum c \<longleftrightarrow> isalpha c \<or> isdigit c"

definition isspace :: "char \<Rightarrow> bool" where
  "isspace c \<longleftrightarrow> c = CHR 0x20 \<or> 9 \<le> (of_char c :: nat) \<and> (of_char c :: nat) \<le> 13"

text \<open>\<^verbatim>\<open>while (i < content.size() && p(content[i])) i++;\<close>\<close>

function scan_while :: "(char \<Rightarrow> bool) \<Rightarrow> string \<Rightarrow> nat \<Rightarrow> nat" where
  "scan_while p s i = (if i < length s \<and> p (s ! i) then scan_while p s (i + 1) else i)"
  by auto

termination
  by (relation "measure (\<lambda>(p, s, i). length s - i)") auto

text \<open>\<^verbatim>\<open>while (i+1 < content.size() && content[i]=='=')\<close> with its counter.\<close>

function scan_eq :: "string \<Rightarrow> nat \<Rightarrow> nat \<Rightarrow> nat \<times> nat" where
  "scan_eq s i count =
     (if i + 1 < length s \<and> s ! i = CHR ''='' then scan_eq s (i + 1) (count + 1) else (i, count))"
  by auto

termination
  by (relation "measure (\<lambda>(s, i, count). length s - i)") auto

declare scan_while.simps [simp del] scan_eq.simps [simp del]

lemma scan_while_ge: "i \<le> scan_while p s i"
  by (induction p s i rule: scan_while.induct) (subst scan_while.simps, auto)

lemma scan_eq_ge: "i \<le> fst (scan_eq s i count)"
  by (induction s i count rule: scan_eq.induct) (subst scan_eq.simps, auto)

text \<open>The body of a long bracket of level \<open>count\<close>: the position the loop leaves at.\<close>

function long_body :: "string \<Rightarrow> nat \<Rightarrow> nat \<Rightarrow> nat" where
  "long_body s count i =
     (if \<not> i + 1 < length s then i
      else if s ! (i + 1) \<noteq> CHR '']'' then long_body s count (i + 1)
      else if count = 0 \<and> i + 2 < length s \<and> s ! (i + 2) = CHR '']'' then i + 1
      else if snd (scan_eq s (i + 2) 0) = count \<and> char_at s (fst (scan_eq s (i + 2) 0)) = CHR '']''
      then fst (scan_eq s (i + 2) 0)
      else long_body s count (fst (scan_eq s (i + 2) 0) - 1))"
  by auto

termination
proof (relation "measure (\<lambda>(s, count, i). length s - i)", goal_cases)
  case (3 s count i)
  then show ?case using scan_eq_ge [of "i + 2" s 0] by auto
qed auto

declare long_body.simps [simp del]

lemma long_body_ge: "i \<le> long_body s count i"
proof (induction s count i rule: long_body.induct)
  case (1 s count i)
  have "i + 2 \<le> fst (scan_eq s (i + 2) 0)" by (rule scan_eq_ge)
  then show ?case
    using "1.IH" by (subst long_body.simps) (auto simp del: One_nat_def)
qed

definition long_close :: "string \<Rightarrow> nat \<Rightarrow> nat \<Rightarrow> nat" where
  "long_close s count i =
     (if char_at s i = CHR '']'' then (if 0 < count then i + 1 else i + 2) else i)"

text \<open>A comment that starts with two dashes at \<open>i\<close>.\<close>

definition dash_comment_end :: "string \<Rightarrow> nat \<Rightarrow> nat" where
  "dash_comment_end s i =
     (let i2 = i + 2
      in if i2 + 1 < length s \<and> s ! i2 = CHR ''['' then
           (let (j, count) = scan_eq s (i2 + 1) 0
            in if char_at s j = CHR ''['' then long_close s count (long_body s count j)
               else scan_while (\<lambda>c. c \<noteq> NL) s j)
         else scan_while (\<lambda>c. c \<noteq> NL) s i2)"

function block_end :: "string \<Rightarrow> nat \<Rightarrow> nat" where
  "block_end s i =
     (if i + 1 < length s \<and> \<not> (s ! i = CHR ''*'' \<and> s ! (i + 1) = CHR ''/'') then block_end s (i + 1) else i)"
  by auto

termination
  by (relation "measure (\<lambda>(s, i). length s - i)") auto

declare block_end.simps [simp del]

definition slash_comment_end :: "string \<Rightarrow> nat \<Rightarrow> nat" where
  "slash_comment_end s i =
     (if s ! (i + 1) = CHR ''/'' then scan_while (\<lambda>c. c \<noteq> NL) s (i + 2)
      else (let j = block_end s (i + 2) in if j + 1 < length s then j + 2 else j))"

function string_end :: "char \<Rightarrow> string \<Rightarrow> nat \<Rightarrow> nat" where
  "string_end q s i =
     (if i < length s \<and> (s ! i \<noteq> q \<or> s ! (i - 1) = BACKSLASH \<and> s ! (i - 2) \<noteq> BACKSLASH)
      then string_end q s (i + 1) else i)"
  by auto

termination
  by (relation "measure (\<lambda>(q, s, i). length s - i)") auto

declare string_end.simps [simp del]

text \<open>A long string at \<open>i\<close>, if the bracket is one: the end of it.\<close>

definition long_string_end :: "string \<Rightarrow> nat \<Rightarrow> nat option" where
  "long_string_end s i =
     (let (j, count) = scan_eq s (i + 1) 0
      in if char_at s j = CHR ''['' then Some (long_close s count (long_body s count j)) else None)"

section \<open>The lexer\<close>

definition next_token :: "string \<Rightarrow> nat \<Rightarrow> Token \<times> nat" where
  "next_token s i =
     (let c = s ! i; more = i + 1 < length s; d = char_at s (i + 1)
      in if c = NL then (space_tok TK_LINEEND [c], i + 1)
         else if c = CHR '' '' \<or> c = CHR 0x09 \<or> c = CHR 0x0D then (space_tok TK_SOMETHING [c], i + 1)
         else if c = CHR ''('' \<or> c = CHR '')'' then (tok TK_PARENTHESIS [c], i + 1)
         else if c = CHR ''>'' \<and> more \<and> d = CHR ''='' then (tok TK_GREATER_OR_EQUAL (substr s i 2), i + 2)
         else if c = CHR ''>'' then (tok TK_GREATER [c], i + 1)
         else if c = CHR ''<'' \<and> more \<and> d = CHR ''='' then (tok TK_LESS_OR_EQUAL (substr s i 2), i + 2)
         else if c = CHR ''<'' then (tok TK_LESS [c], i + 1)
         else if more \<and> (c = CHR ''|'' \<and> d = CHR ''|'' \<or> c = CHR ''o'' \<and> d = CHR ''r'')
         then (tok TK_OR (substr s i 2), i + 2)
         else if more \<and> (c = CHR ''!'' \<and> d = CHR ''='' \<or> c = CHR ''~'' \<and> d = CHR ''='')
         then (tok TK_NOT_EQUAL (substr s i 2), i + 2)
         else if more \<and> c = CHR ''='' \<and> d = CHR ''='' then (tok TK_EQUAL (substr s i 2), i + 2)
         else if more \<and> (c = CHR ''&'' \<and> d = CHR ''&'' \<or>
             c = CHR ''a'' \<and> d = CHR ''n'' \<and> i + 2 < length s \<and> s ! (i + 2) = CHR ''d'')
         then (let n = (if c = CHR ''&'' then 2 else 3) in (tok TK_AND (substr s i n), i + n))
         else if c = CHR ''+'' then (tok TK_ADD [c], i + 1)
         else if c = CHR ''*'' then (tok TK_MUL [c], i + 1)
         else if c = CHR ''-'' \<and> more \<and> d = CHR ''-''
         then (let e = dash_comment_end s i in (tok TK_COMMENT (substr s i (e - i)), e))
         else if c = CHR ''/'' \<and> more \<and> (d = CHR ''/'' \<or> d = CHR ''*'')
         then (let e = slash_comment_end s i in (tok TK_COMMENT (substr s i (e - i)), e))
         else if (c = CHR 0x27 \<or> c = CHR 0x22) \<and>
             (i = 0 \<or> s ! (i - 1) \<noteq> BACKSLASH \<or> 2 \<le> i \<and> s ! (i - 2) = BACKSLASH)
         then (let e = string_end c s (i + 1) + 1 in (tok TK_STRING (substr s i (e - i)), e))
         else if c = CHR ''['' \<and> (i = 0 \<or> s ! (i - 1) \<noteq> BACKSLASH) \<and> more \<and> long_string_end s i \<noteq> None
         then (let e = the (long_string_end s i) in (tok TK_STRING (substr s i (e - i)), e))
         else if isdigit c
         then (let e = scan_while isdigit s i in (tok TK_NUMBER (substr s i (e - i)), e))
         else if isalpha c \<or> c = CHR ''_''
         then (let e = scan_while (\<lambda>x. isalnum x \<or> x = CHR ''_'') s i; strWord = substr s i (e - i)
               in (tok (KeywordType strWord) strWord, e))
         else if c = CHR ''-'' then (tok TK_SUB [c], i + 1)
         else if c = CHR ''/'' then (tok TK_DIV [c], i + 1)
         else if c = CHR ''!'' then (tok TK_NOT [c], i + 1)
         else (tok TK_SOMETHING [c], i + 1))"

lemma scan_while_step: "\<lbrakk>i < length s; p (s ! i)\<rbrakk> \<Longrightarrow> i < scan_while p s i"
  using scan_while_ge [of "i + 1" p s] by (subst scan_while.simps) simp

lemma block_end_ge: "i \<le> block_end s i"
  by (induction s i rule: block_end.induct) (subst block_end.simps, auto)

lemma string_end_ge: "i \<le> string_end q s i"
  by (induction q s i rule: string_end.induct) (subst string_end.simps, auto)

lemma long_close_ge: "i \<le> long_close s count i"
  by (simp add: long_close_def)

lemma long_end_ge: "i \<le> long_close s count (long_body s count i)"
  using long_body_ge long_close_ge by (rule le_trans)

lemma dash_comment_end_gt: "i < dash_comment_end s i"
proof -
  obtain j count where j: "scan_eq s (i + 2 + 1) 0 = (j, count)" by fastforce
  have ij: "i + 2 + 1 \<le> j" using scan_eq_ge [of "i + 2 + 1" s 0] unfolding j by simp
  have "i < long_close s count (long_body s count j)" using ij long_end_ge [of j s count] by linarith
  moreover have "i < scan_while p s j" for p using ij scan_while_ge [of j p s] by linarith
  moreover have "i < scan_while p s (i + 2)" for p using scan_while_ge [of "i + 2" p s] by linarith
  ultimately show ?thesis unfolding dash_comment_end_def Let_def j prod.case by (simp only: split: if_split) simp
qed

lemma slash_comment_end_gt: "i < slash_comment_end s i"
  using scan_while_ge [of "i + 2" "\<lambda>c. c \<noteq> NL" s] block_end_ge [of "i + 2" s]
  by (simp add: slash_comment_end_def Let_def)

lemma long_string_end_gt:
  assumes "long_string_end s i = Some e"
  shows "i < e"
proof -
  obtain j count where j: "scan_eq s (i + 1) 0 = (j, count)" by fastforce
  have "i + 1 \<le> j" using scan_eq_ge [of "i + 1" s 0] unfolding j by simp
  then have "i + 1 \<le> long_close s count (long_body s count j)" using long_end_ge le_trans by blast
  then show ?thesis
    using assms unfolding long_string_end_def Let_def j prod.case by (simp split: if_splits)
qed

section \<open>One step\<close>

text \<open>
  What every branch of the loop guarantees: it advances, the token is the text it consumed, and
  only line ends, comments and strings hold line breaks.
\<close>

definition good_step :: "string \<Rightarrow> nat \<Rightarrow> Token \<times> nat \<Rightarrow> bool" where
  "good_step s i r \<longleftrightarrow>
     (case r of (t, e) \<Rightarrow>
        i < e \<and> tk_content t = substr s i (e - i) \<and> tk_type t \<noteq> TK_EOF \<and>
        (tk_type t = TK_LINEEND \<longrightarrow> tk_content t = [NL]) \<and>
        (tk_isSpace t \<longrightarrow> tk_type t \<in> {TK_LINEEND, TK_SOMETHING}) \<and>
        (NL \<in> set (tk_content t) \<longrightarrow> tk_type t \<in> {TK_LINEEND, TK_COMMENT, TK_STRING}))"

lemma good_if: "\<lbrakk>b \<Longrightarrow> good_step s i x; \<not> b \<Longrightarrow> good_step s i y\<rbrakk> \<Longrightarrow> good_step s i (if b then x else y)"
  by simp

lemma substr_1: "i < length s \<Longrightarrow> substr s i 1 = [s ! i]"
  by (simp add: substr_def take_Suc_conv_app_nth)

lemma good_one:
  assumes "i < length s" and "s ! i \<noteq> NL" and "ty \<noteq> TK_EOF" and "ty \<noteq> TK_LINEEND"
  shows "good_step s i (tok ty [s ! i], i + 1)"
    and "ty = TK_SOMETHING \<Longrightarrow> good_step s i (space_tok ty [s ! i], i + 1)"
  using assms substr_1 [of i s] by (auto simp: good_step_def tok_def space_tok_def)

lemma set_substr: "c \<in> set (substr s i n) \<Longrightarrow> \<exists>k < n. i + k < length s \<and> c = s ! (i + k)"
  by (auto simp: substr_def in_set_conv_nth)

lemma good_two:
  assumes "s ! i \<noteq> NL" and "char_at s (i + 1) \<noteq> NL" and "ty \<noteq> TK_EOF" and "ty \<noteq> TK_LINEEND"
  shows "good_step s i (tok ty (substr s i 2), i + 2)"
proof -
  have "NL \<notin> set (substr s i 2)"
  proof
    assume "NL \<in> set (substr s i 2)"
    then obtain k where k: "k < 2" "i + k < length s" "NL = s ! (i + k)" using set_substr by blast
    from k(1) consider "k = 0" | "k = 1" by linarith
    then show False using k(2,3) assms(1,2) by cases (simp_all add: char_at_def)
  qed
  then show ?thesis using assms(3,4) by (simp add: good_step_def tok_def)
qed

lemma good_and:
  assumes "s ! i \<noteq> NL" and "s ! (i + 1) \<noteq> NL" and "s ! (i + 2) \<noteq> NL"
  shows "good_step s i (tok TK_AND (substr s i 3), i + 3)"
proof -
  have "NL \<notin> set (substr s i 3)"
  proof
    assume "NL \<in> set (substr s i 3)"
    then obtain k where k: "k < 3" "NL = s ! (i + k)" using set_substr by blast
    from k(1) consider "k = 0" | "k = 1" | "k = 2" by linarith
    then show False using k(2) assms by cases simp_all
  qed
  then show ?thesis by (simp add: good_step_def tok_def)
qed

lemma good_free:
  assumes "i < e" and "ty = TK_COMMENT \<or> ty = TK_STRING"
  shows "good_step s i (tok ty (substr s i (e - i)), e)"
  using assms by (auto simp: good_step_def tok_def)

lemma scan_while_all: "\<lbrakk>i \<le> k; k < scan_while p s i\<rbrakk> \<Longrightarrow> k < length s \<and> p (s ! k)"
proof (induction p s i rule: scan_while.induct)
  case (1 p s i)
  show ?case
  proof (cases "i < length s \<and> p (s ! i)")
    case True
    then show ?thesis using 1 by (cases "k = i") (auto simp: scan_while.simps [of p s i])
  next
    case False
    then have "scan_while p s i = i" unfolding scan_while.simps [of p s i] by (simp only: if_False)
    then show ?thesis using "1.prems" by simp
  qed
qed

lemma good_word:
  assumes "i < scan_while p s i" and "\<not> p NL" and "ty \<noteq> TK_EOF" and "ty \<noteq> TK_LINEEND"
  shows "good_step s i (tok ty (substr s i (scan_while p s i - i)), scan_while p s i)"
proof -
  have "NL \<notin> set (substr s i (scan_while p s i - i))"
    using scan_while_all [of i _ p s] assms(2) by (fastforce dest!: set_substr)
  then show ?thesis using assms(1,3,4) by (simp add: good_step_def tok_def)
qed

lemma KeywordType_kind: "KeywordType w \<noteq> TK_EOF" "KeywordType w \<noteq> TK_LINEEND"
  by (auto simp: KeywordType_def)

lemma good_line:
  "\<lbrakk>i < length s; s ! i = NL\<rbrakk> \<Longrightarrow> good_step s i (space_tok TK_LINEEND [s ! i], i + 1)"
  using substr_1 [of i s] by (simp add: good_step_def space_tok_def)

lemma good_and_if:
  assumes "s ! i = CHR ''&'' \<and> char_at s (i + 1) = CHR ''&'' \<or>
    s ! i = CHR ''a'' \<and> char_at s (i + 1) = CHR ''n'' \<and> i + 2 < length s \<and> s ! (i + 2) = CHR ''d''"
  shows "good_step s i (tok TK_AND (substr s i (if s ! i = CHR ''&'' then 2 else 3)),
    i + (if s ! i = CHR ''&'' then 2 else 3))"
proof (cases "s ! i = CHR ''&''")
  case True
  then have "char_at s (i + 1) \<noteq> NL" using assms by auto
  with True show ?thesis using good_two [of s i TK_AND] by simp
next
  case False
  then have "s ! i = CHR ''a''" "char_at s (i + 1) = CHR ''n''" "s ! (i + 2) = CHR ''d''" "i + 2 < length s"
    using assms by auto
  then show ?thesis using good_and [of s i] False by (simp add: char_at_def)
qed

lemma word_chars: "\<not> isdigit NL" "\<not> isalpha NL" "\<not> isalnum NL"
  by (simp_all add: isdigit_def isalpha_def isalnum_def)

lemma next_token_good:
  assumes "i < length s"
  shows "good_step s i (next_token s i)"
proof -
  note gt = dash_comment_end_gt slash_comment_end_gt
  have str: "i < string_end c s (i + 1) + 1" for c using string_end_ge [of "i + 1" c s] by simp
  have long: "i < the (long_string_end s i)" if "long_string_end s i \<noteq> None" using that long_string_end_gt by auto
  show ?thesis
    unfolding next_token_def Let_def
    by (intro good_if good_line good_one good_two good_and_if good_free good_word scan_while_step)
      ((rule assms str gt | assumption | (elim conjE, rule long, assumption) | (simp (no_asm) add: gt str word_chars KeywordType_kind; fail)
        | (elim conjE disjE; simp (no_asm_simp) add: long isalnum_def del: One_nat_def add_2_eq_Suc' add_2_eq_Suc; fail))+)
qed

lemma next_token_gt: "i < length s \<Longrightarrow> i < snd (next_token s i)"
  using next_token_good [of i s] by (auto simp: good_step_def split: prod.splits)

section \<open>The whole file\<close>

function tokenize_from :: "string \<Rightarrow> nat \<Rightarrow> Token list" where
  "tokenize_from s i =
     (if i < length s then fst (next_token s i) # tokenize_from s (snd (next_token s i))
      else [tok TK_EOF ''''])"
  by auto

termination
  by (relation "measure (\<lambda>(s, i). length s - i)") (use next_token_gt in \<open>auto simp: diff_less_mono2\<close>)

declare tokenize_from.simps [simp del]

definition TokenizeContent :: "string \<Rightarrow> Token list" where
  "TokenizeContent content = tokenize_from content 0"

abbreviation token_text :: "Token list \<Rightarrow> string" where
  "token_text ts \<equiv> concat (map tk_content ts)"

text \<open>What the lexer guarantees of its tokens.\<close>

definition lexed_token :: "Token \<Rightarrow> bool" where
  "lexed_token t \<longleftrightarrow>
     (tk_type t = TK_LINEEND \<longrightarrow> tk_content t = [NL]) \<and>
     (tk_isSpace t \<longrightarrow> tk_type t \<in> {TK_LINEEND, TK_SOMETHING}) \<and>
     (NL \<in> set (tk_content t) \<longrightarrow> tk_type t \<in> {TK_LINEEND, TK_COMMENT, TK_STRING})"

lemma tokenize_from_spec:
  "\<exists>ts. tokenize_from s i = ts @ [tok TK_EOF ''''] \<and> token_text ts = drop i s \<and>
     (\<forall>t \<in> set ts. tk_content t \<noteq> '''' \<and> tk_type t \<noteq> TK_EOF \<and> lexed_token t)"
proof (induction s i rule: tokenize_from.induct)
  case (1 s i)
  show ?case
  proof (cases "i < length s")
    case False
    then show ?thesis by (subst tokenize_from.simps) simp
  next
    case True
    obtain t e where te: "next_token s i = (t, e)" by fastforce
    have g: "i < e" "tk_content t = substr s i (e - i)" "tk_type t \<noteq> TK_EOF" "lexed_token t"
      using next_token_good [OF True] by (auto simp: te good_step_def lexed_token_def)
    from "1.IH" [OF True] obtain ts where ts: "tokenize_from s e = ts @ [tok TK_EOF '''']"
      "token_text ts = drop e s" "\<forall>t \<in> set ts. tk_content t \<noteq> '''' \<and> tk_type t \<noteq> TK_EOF \<and> lexed_token t"
      by (auto simp: te)
    have "substr s i (e - i) @ drop e s = drop i s"
      using g(1) append_take_drop_id [of "e - i" "drop i s"] by (simp add: substr_def)
    moreover have "tk_content t \<noteq> ''''" using g(1,2) True by (simp add: substr_def)
    ultimately show ?thesis
      using True ts g by (subst tokenize_from.simps) (intro exI [of _ "t # ts"], simp add: te)
  qed
qed

text \<open>
  C39. The lexer loses nothing.  For every content the token list ends with the one end-of-file
  token, every other token is non-empty, and the texts of the tokens in order are exactly the
  content, whatever unterminated strings, comments or brackets it holds; a line break only ever
  lies in a line-end token of its own, a comment or a string.
\<close>

theorem tokens_are_the_content:
  "\<exists>ts. TokenizeContent content = ts @ [tok TK_EOF ''''] \<and> token_text ts = content \<and>
     (\<forall>t \<in> set ts. tk_content t \<noteq> '''' \<and> tk_type t \<noteq> TK_EOF \<and> lexed_token t)"
  using tokenize_from_spec [of content 0] by (simp add: TokenizeContent_def)

theorem tokens_are_the_content_witness:
  "\<exists>ts. TokenizeContent (''a --[[ x'' @ [NL]) = ts @ [tok TK_EOF ''''] \<and> ts \<noteq> [] \<and>
     token_text ts = ''a --[[ x'' @ [NL]"
  using tokens_are_the_content [of "''a --[[ x'' @ [NL]"] by auto

end
