(* ===== verification/LuaStrip.thy ===== *)
theory LuaStrip
  imports LuaTokens
begin

text \<open>
  The removal of server code from a file before it is sent: \<^verbatim>\<open>IsNotTK\<close>,
  \<^verbatim>\<open>CanServerConditionBeRemoved\<close>, \<^verbatim>\<open>RemoveScoped\<close>,
  \<^verbatim>\<open>RemoveServerScoped\<close> and \<^verbatim>\<open>ProcessTokens\<close>.  A result of
  \<open>None\<close> is an access the C++ code makes outside a vector or an empty deque (undefined
  behaviour).  The string stream is the text written so far.
\<close>

section \<open>Conditions\<close>

fun not_back :: "Token list \<Rightarrow> nat \<Rightarrow> bool \<Rightarrow> bool" where
  "not_back tokens 0 tk = tk"
| "not_back tokens (Suc i) tk =
     (if tk_isSpace (tokens ! i) then not_back tokens i tk
      else if tk_type (tokens ! i) \<noteq> TK_NOT then tk
      else not_back tokens i (\<not> tk))"

definition IsNotTK :: "Token list \<Rightarrow> nat \<Rightarrow> bool" where
  "IsNotTK tokens i = (if tk_type (tokens ! i) = TK_NOT then not_back tokens i True else False)"

record ScopeEvalInfo =
  sc_isEmpty :: bool
  sc_evalNot :: bool
  sc_isServer :: "bool list"

definition ScopeEvalInfo_new :: ScopeEvalInfo where
  "ScopeEvalInfo_new = \<lparr>sc_isEmpty = True, sc_evalNot = False, sc_isServer = [False]\<rparr>"

definition set_last :: "bool \<Rightarrow> ScopeEvalInfo \<Rightarrow> ScopeEvalInfo" where
  "set_last b scope = scope\<lparr>sc_isServer := (sc_isServer scope)[length (sc_isServer scope) - 1 := b]\<rparr>"

text \<open>
  One token of the condition; \<open>ids\<close> is the deque of open scopes, the innermost first, and
  \<open>negated\<close> is \<^verbatim>\<open>IsNotTK(tokens, lastNonEmpty)\<close>.  The scope positions
  \<^verbatim>\<open>start\<close> and \<^verbatim>\<open>end\<close> are never read and are left out.
\<close>

definition condition_token ::
  "Token \<Rightarrow> bool \<Rightarrow> ScopeEvalInfo list \<times> nat list \<Rightarrow> (ScopeEvalInfo list \<times> nat list) option" where
  "condition_token t negated st =
     (let (scopes, ids) = st
      in case ids of
           [] \<Rightarrow> None
         | cur # rest \<Rightarrow>
             (let s1 = (if \<not> tk_isSpace t \<and> tk_type t \<noteq> TK_PARENTHESIS
                    then scopes[cur := (scopes ! cur)\<lparr>sc_isEmpty := False\<rparr>] else scopes);
                  s2 = (if tk_type t = TK_SOMETHING \<and>
                      (tk_content t = ''SERVER'' \<and> \<not> negated \<or> tk_content t = ''CLIENT'' \<and> negated)
                    then s1[cur := set_last True (s1 ! cur)] else s1);
                  s3 = (if tk_type t = TK_OR
                    then s2[cur := (s2 ! cur)\<lparr>sc_isServer := sc_isServer (s2 ! cur) @ [False]\<rparr>] else s2)
              in if tk_type t \<noteq> TK_PARENTHESIS then Some (s3, ids)
                 else if tk_content t = ''(''
                 then Some (s3 @ [ScopeEvalInfo_new\<lparr>sc_evalNot := negated\<rparr>], length s3 # ids)
                 else
                   (let wasServer = (\<not> sc_evalNot (s3 ! cur) \<and> list_all id (sc_isServer (s3 ! cur)))
                    in case rest of
                         [] \<Rightarrow> None
                       | outer # _ \<Rightarrow> Some (s3[outer := set_last wasServer (s3 ! outer)], rest))))"

function condition_loop ::
  "Token list \<Rightarrow> nat \<Rightarrow> nat \<Rightarrow> ScopeEvalInfo list \<times> nat list
     \<Rightarrow> (nat \<times> ScopeEvalInfo list) option" where
  "condition_loop tokens start lastNonEmpty st =
     (if \<not> start < length tokens then None
      else if tk_type (tokens ! start) = TK_THEN \<or> tk_type (tokens ! start) = TK_DO
      then Some (start, fst st)
      else
        (case condition_token (tokens ! start) (IsNotTK tokens lastNonEmpty) st of
           None \<Rightarrow> None
         | Some st' \<Rightarrow>
             condition_loop tokens (start + 1)
               (if tk_isSpace (tokens ! start) then lastNonEmpty else start) st'))"
  by auto

termination
  by (relation "measure (\<lambda>(tokens, start, l, st). length tokens - start)") auto

declare condition_loop.simps [simp del]

definition scopes_server :: "ScopeEvalInfo list \<Rightarrow> bool" where
  "scopes_server scopes =
     (case dropWhile sc_isEmpty scopes of [] \<Rightarrow> True | info # _ \<Rightarrow> list_all id (sc_isServer info))"

definition CanServerConditionBeRemoved :: "Token list \<Rightarrow> nat \<Rightarrow> (bool \<times> nat) option" where
  "CanServerConditionBeRemoved tokens start =
     map_option (\<lambda>(end', scopes). (scopes_server scopes, end'))
       (condition_loop tokens start 0 ([ScopeEvalInfo_new], [0]))"

section \<open>Removal\<close>

definition newlines :: "string \<Rightarrow> string" where
  "newlines s = filter (\<lambda>c. c = NL) s"

function RemoveScoped_loop ::
  "Token list \<Rightarrow> TokenType \<Rightarrow> nat \<Rightarrow> nat \<Rightarrow> string \<Rightarrow> bool \<Rightarrow> nat \<times> string \<times> bool" where
  "RemoveScoped_loop tokens kind i depth ss hasLineBreaks =
     (if \<not> (i < length tokens \<and> 0 < depth) then (i, ss, hasLineBreaks)
      else
        (let t = tokens ! i; ty = tk_type t
         in if ty = TK_THEN \<or> ty = TK_DO \<or> ty = TK_FUNCTION
            then RemoveScoped_loop tokens kind (i + 1) (depth + 1) ss hasLineBreaks
            else if ty = TK_END
            then (if kind = TK_ELSEIF \<and> depth - 1 = 0 then (i, ss, hasLineBreaks)
                  else RemoveScoped_loop tokens kind (i + 1) (depth - 1) ss hasLineBreaks)
            else if ty = TK_LINEEND
            then RemoveScoped_loop tokens kind (i + 1) depth (ss @ [NL]) True
            else if ty = TK_COMMENT
            then RemoveScoped_loop tokens kind (i + 1) depth (ss @ newlines (tk_content t)) hasLineBreaks
            else if ty = TK_ELSE \<and> depth = 1 then (i, ss, hasLineBreaks)
            else if ty = TK_ELSEIF
            then (if depth - 1 = 0 then (i, ss, hasLineBreaks)
                  else RemoveScoped_loop tokens kind (i + 1) (depth - 1) ss hasLineBreaks)
            else RemoveScoped_loop tokens kind (i + 1) depth ss hasLineBreaks))"
  by auto

termination
  by (relation "measure (\<lambda>(tokens, kind, i, d, ss, lb). length tokens - i)") auto

declare RemoveScoped_loop.simps [simp del]

definition RemoveScoped :: "nat \<Rightarrow> Token list \<Rightarrow> string \<Rightarrow> TokenType \<Rightarrow> nat \<times> string \<times> bool" where
  "RemoveScoped i tokens ss kind = RemoveScoped_loop tokens kind (i + 1) 1 ss False"

fun restore_space :: "Token list \<Rightarrow> nat \<Rightarrow> nat" where
  "restore_space tokens 0 = 0"
| "restore_space tokens (Suc i) =
     (if 0 < i \<and> tk_isSpace (tokens ! i) \<and> tk_type (tokens ! i) \<noteq> TK_LINEEND
      then restore_space tokens i else Suc i)"

definition RemoveServerScoped ::
  "nat \<Rightarrow> Token list \<Rightarrow> string \<Rightarrow> TokenType \<Rightarrow> (nat \<times> Token list \<times> string) option" where
  "RemoveServerScoped j tokens ss kind =
     (let (i, ss, hasLineBreaks) = RemoveScoped j tokens ss kind
      in if \<not> i < length tokens then None
         else
           (let t = tokens ! i;
                tokens' =
                  (if tk_type t = TK_ELSEIF
                   then tokens[i := t\<lparr>tk_content := (if kind = TK_IF then ''if'' else ''elseif'')\<rparr>]
                   else if tk_type t = TK_ELSE \<and> kind = TK_IF
                   then tokens[i := t\<lparr>tk_content := ''do''\<rparr>]
                   else tokens)
            in Some (if hasLineBreaks then restore_space tokens' i else i, tokens', ss)))"

lemma RemoveScoped_loop_ge: "i \<le> fst (RemoveScoped_loop tokens kind i depth ss lb)"
proof (induction tokens kind i depth ss lb rule: RemoveScoped_loop.induct)
  case (1 tokens kind i depth ss lb)
  show ?case
    by (subst RemoveScoped_loop.simps) (use "1.IH" in \<open>auto simp: Let_def intro: Suc_leD\<close>)
qed

lemma restore_space_ge:
  assumes "j < i" and "\<not> tk_isSpace (tokens ! j)"
  shows "j < restore_space tokens i"
  using assms(1)
proof (induction i)
  case (Suc i)
  then show ?case using assms(2) by (cases "j = i") auto
qed simp

lemma restore_space_le: "restore_space tokens i \<le> i"
  by (induction i) auto

section \<open>Processing a file\<close>

text \<open>
  The loop of \<^verbatim>\<open>ProcessTokens\<close>: no result if it does not end, \<open>Some None\<close> if
  it reads outside the tokens.
\<close>

partial_function (option) process_loop ::
  "bool \<Rightarrow> bool \<Rightarrow> Token list \<Rightarrow> nat \<Rightarrow> string \<Rightarrow> string option option" where
  "process_loop bRemoveServerCode bRemoveComments tokens i ss =
     (if \<not> i < length tokens then Some (Some ss)
      else if bRemoveComments \<and> tk_type (tokens ! i) = TK_COMMENT
      then process_loop bRemoveServerCode bRemoveComments tokens (i + 1)
             (ss @ newlines (tk_content (tokens ! i)))
      else if bRemoveServerCode \<and> (tk_type (tokens ! i) = TK_IF \<or> tk_type (tokens ! i) = TK_ELSEIF)
      then
        (case CanServerConditionBeRemoved tokens (i + 1) of
           None \<Rightarrow> Some None
         | Some (removed, j) \<Rightarrow>
             if removed \<and> j < length tokens \<and> tk_type (tokens ! j) = TK_THEN
             then
               (case RemoveServerScoped j tokens ss (tk_type (tokens ! i)) of
                  None \<Rightarrow> Some None
                | Some (i', tokens', ss') \<Rightarrow>
                    process_loop bRemoveServerCode bRemoveComments tokens' i' ss')
             else process_loop bRemoveServerCode bRemoveComments tokens (i + 1) (ss @ tk_content (tokens ! i)))
      else process_loop bRemoveServerCode bRemoveComments tokens (i + 1)
             (ss @ (if tk_type (tokens ! i) \<noteq> TK_EOF then tk_content (tokens ! i) else '''')))"

declare process_loop.simps [code]

definition ProcessTokens :: "Token list \<Rightarrow> bool \<Rightarrow> bool \<Rightarrow> string option option" where
  "ProcessTokens tokens bRemoveServerCode bRemoveComments =
     map_option (map_option (\<lambda>pCode. if \<exists>c \<in> set pCode. \<not> isspace c then pCode else ''--''))
       (process_loop bRemoveServerCode bRemoveComments tokens 0 '''')"

section \<open>Lines\<close>

definition lines :: "string \<Rightarrow> nat" where
  "lines s = length (newlines s)"

lemma lines_simps [simp]: "lines [] = 0" "lines (a @ b) = lines a + lines b" "lines (newlines s) = lines s"
  "lines (c # s) = of_bool (c = NL) + lines s"
  by (simp_all add: lines_def newlines_def)

lemma lines_0: "lines s = 0 \<longleftrightarrow> NL \<notin> set s"
  by (auto simp: lines_def newlines_def filter_empty_conv)

text \<open>
  No long string spans lines, and no condition of an \<^verbatim>\<open>if\<close> or \<^verbatim>\<open>elseif\<close> does.
\<close>

fun one_line :: "bool \<Rightarrow> Token list \<Rightarrow> bool" where
  "one_line c [] \<longleftrightarrow> True"
| "one_line c (t # ts) \<longleftrightarrow>
     (let inside = (c \<and> tk_type t \<noteq> TK_THEN \<and> tk_type t \<noteq> TK_DO)
      in (inside \<longrightarrow> NL \<notin> set (tk_content t)) \<and> (tk_type t = TK_STRING \<longrightarrow> NL \<notin> set (tk_content t)) \<and>
         one_line (inside \<or> tk_type t = TK_IF \<or> tk_type t = TK_ELSEIF) ts)"

lemma one_line_mono: "one_line c ts \<Longrightarrow> one_line False ts"
proof (induction ts arbitrary: c)
  case (Cons t ts)
  let ?b = "tk_type t = TK_IF \<or> tk_type t = TK_ELSEIF"
  have n: "one_line (c \<and> tk_type t \<noteq> TK_THEN \<and> tk_type t \<noteq> TK_DO \<or> ?b) ts" "tk_type t = TK_STRING \<longrightarrow> NL \<notin> set (tk_content t)"
    using Cons.prems by (auto simp: Let_def)
  show ?case using n Cons.IH [OF n(1)] by (cases ?b) (auto simp: Let_def)
qed simp

lemma one_line_drop: "one_line c ts \<Longrightarrow> one_line False (drop n ts)"
proof (induction n arbitrary: c ts)
  case 0
  then show ?case using one_line_mono by simp
next
  case (Suc n)
  then show ?case by (cases ts) (auto simp: Let_def)
qed

lemma one_line_update:
  assumes "NL \<notin> set s"
  shows "one_line c ts \<Longrightarrow> one_line c (ts[k := (ts ! k)\<lparr>tk_content := s\<rparr>])"
proof (induction ts arbitrary: c k)
  case (Cons t ts)
  then show ?case using assms by (cases k) (auto simp: Let_def)
qed simp

lemma one_line_condition:
  "\<lbrakk>one_line True ts; \<forall>t \<in> set (take n ts). tk_type t \<noteq> TK_THEN \<and> tk_type t \<noteq> TK_DO\<rbrakk> \<Longrightarrow>
    lines (token_text (take n ts)) = 0"
proof (induction n arbitrary: ts)
  case (Suc n)
  then show ?case by (cases ts) (auto simp: Let_def lines_0)
qed simp


text \<open>The text from position \<open>a\<close> up to \<open>b\<close>.\<close>

definition text_between :: "Token list \<Rightarrow> nat \<Rightarrow> nat \<Rightarrow> string" where
  "text_between tokens a b = token_text (take (b - a) (drop a tokens))"

lemma text_between_split:
  "\<lbrakk>a \<le> b; b \<le> c\<rbrakk> \<Longrightarrow> text_between tokens a c = text_between tokens a b @ text_between tokens b c"
proof -
  assume "a \<le> b" "b \<le> c"
  then have "take (c - a) (drop a tokens) = take (b - a) (drop a tokens) @ take (c - b) (drop b tokens)"
    using take_add [of "b - a" "c - b" "drop a tokens"] by simp
  then show ?thesis by (simp add: text_between_def)
qed

lemma text_between_one: "a < length tokens \<Longrightarrow> text_between tokens a (a + 1) = tk_content (tokens ! a)"
  by (simp add: text_between_def take_Suc_conv_app_nth)

lemma text_between_step:
  "\<lbrakk>a < b; a < length tokens\<rbrakk> \<Longrightarrow>
    text_between tokens a b = tk_content (tokens ! a) @ text_between tokens (a + 1) b"
  using text_between_split [of a "a + 1" b tokens] text_between_one [of a tokens] by simp

lemma text_between_same [simp]: "text_between tokens a a = ''''"
  by (simp add: text_between_def)

section \<open>Progress and lines of the removal\<close>

definition all_lexed :: "Token list \<Rightarrow> bool" where
  "all_lexed tokens \<longleftrightarrow> (\<forall>t \<in> set tokens. lexed_token t)"

definition line_counts :: "Token list \<Rightarrow> nat list" where
  "line_counts tokens = map (\<lambda>t. lines (tk_content t)) tokens"

lemma lines_text: "lines (token_text ts) = sum_list (line_counts ts)"
  by (induction ts) (simp_all add: line_counts_def)

lemma lexed_at: "\<lbrakk>all_lexed tokens; i < length tokens\<rbrakk> \<Longrightarrow> lexed_token (tokens ! i)"
  by (simp add: all_lexed_def)

lemma lexed_plain:
  "\<lbrakk>lexed_token t; tk_type t \<notin> {TK_LINEEND, TK_COMMENT, TK_STRING}\<rbrakk> \<Longrightarrow> lines (tk_content t) = 0"
  by (auto simp: lexed_token_def lines_0)

lemma lexed_space:
  "\<lbrakk>lexed_token t; tk_isSpace t; tk_type t \<noteq> TK_LINEEND\<rbrakk> \<Longrightarrow> lines (tk_content t) = 0"
  by (auto simp: lexed_token_def lines_0)

lemma RemoveScoped_step:
  assumes "all_lexed tokens" and "\<forall>t \<in> set tokens. tk_type t = TK_STRING \<longrightarrow> lines (tk_content t) = 0"
  shows "RemoveScoped_loop tokens kind i depth ss lb = (i, ss, lb) \<or>
    i < length tokens \<and>
    (\<exists>d s b. RemoveScoped_loop tokens kind i depth ss lb = RemoveScoped_loop tokens kind (i + 1) d s b \<and>
       lines s = lines ss + lines (tk_content (tokens ! i)))"
proof (cases "i < length tokens \<and> 0 < depth")
  case True
  let ?t = "tokens ! i"
  have i: "i < length tokens" "0 < depth" using True by simp_all
  have lexed: "lexed_token ?t" by (rule lexed_at [OF assms(1) i(1)])
  have str: "tk_type ?t = TK_STRING \<Longrightarrow> lines (tk_content ?t) = 0" using assms(2) i(1) nth_mem by blast
  have plain: "tk_type ?t \<noteq> TK_LINEEND \<Longrightarrow> tk_type ?t \<noteq> TK_COMMENT \<Longrightarrow> lines (tk_content ?t) = 0"
    using lexed_plain [OF lexed] str by auto
  have line: "tk_type ?t = TK_LINEEND \<Longrightarrow> lines (tk_content ?t) = 1" using lexed by (simp add: lexed_token_def)
  note unfold = RemoveScoped_loop.simps [of tokens kind i depth ss lb]
  consider "tk_type ?t = TK_LINEEND" | "tk_type ?t = TK_COMMENT"
    | "tk_type ?t \<noteq> TK_LINEEND" "tk_type ?t \<noteq> TK_COMMENT" by blast
  then show ?thesis
  proof cases
    case 1
    then have "RemoveScoped_loop tokens kind i depth ss lb =
        RemoveScoped_loop tokens kind (i + 1) depth (ss @ [NL]) True" using i by (subst unfold) simp
    moreover have "lines (ss @ [NL]) = lines ss + lines (tk_content ?t)" using line [OF 1] by simp
    ultimately show ?thesis using i(1) by blast
  next
    case 2
    then have "RemoveScoped_loop tokens kind i depth ss lb =
        RemoveScoped_loop tokens kind (i + 1) depth (ss @ newlines (tk_content ?t)) lb" using i by (subst unfold) simp
    moreover have "lines (ss @ newlines (tk_content ?t)) = lines ss + lines (tk_content ?t)" by simp
    ultimately show ?thesis using i(1) by blast
  next
    case 3
    have "RemoveScoped_loop tokens kind i depth ss lb = (i, ss, lb) \<or>
        (\<exists>d. RemoveScoped_loop tokens kind i depth ss lb = RemoveScoped_loop tokens kind (i + 1) d ss lb)"
      unfolding unfold Let_def using i 3 by (simp only: simp_thms if_True if_False split: if_split) blast
    then show ?thesis using i(1) plain [OF 3] by (metis add.right_neutral)
  qed
next
  case False
  then show ?thesis by (subst RemoveScoped_loop.simps) auto
qed

lemma RemoveScoped_lines:
  assumes "all_lexed tokens" and "\<forall>t \<in> set tokens. tk_type t = TK_STRING \<longrightarrow> lines (tk_content t) = 0"
  shows "RemoveScoped_loop tokens kind i depth ss lb = (i', ss', lb') \<Longrightarrow>
    i \<le> i' \<and> lines ss' = lines ss + lines (text_between tokens i i')"
proof (induction "length tokens - i" arbitrary: i depth ss lb rule: less_induct)
  case less
  from RemoveScoped_step [OF assms, of kind i depth ss lb] show ?case
  proof (elim disjE conjE exE)
    assume "RemoveScoped_loop tokens kind i depth ss lb = (i, ss, lb)"
    then show ?thesis using less.prems by simp
  next
    fix d s b
    assume i: "i < length tokens"
      and step: "RemoveScoped_loop tokens kind i depth ss lb = RemoveScoped_loop tokens kind (i + 1) d s b"
      and s: "lines s = lines ss + lines (tk_content (tokens ! i))"
    have "i + 1 \<le> i' \<and> lines ss' = lines s + lines (text_between tokens (i + 1) i')"
      by (rule less.hyps) (use i less.prems step in simp_all)
    then show ?thesis using s text_between_step [of i i' tokens] i by simp
  qed
qed

lemma condition_loop_end:
  "condition_loop tokens start l st = Some (j, sc) \<Longrightarrow>
    start \<le> j \<and> j < length tokens \<and> (tk_type (tokens ! j) = TK_THEN \<or> tk_type (tokens ! j) = TK_DO) \<and>
    (\<forall>k. start \<le> k \<and> k < j \<longrightarrow> tk_type (tokens ! k) \<noteq> TK_THEN \<and> tk_type (tokens ! k) \<noteq> TK_DO)"
proof (induction tokens start l st rule: condition_loop.induct)
  case (1 tokens start l st)
  show ?case
  proof (cases "start < length tokens \<and> tk_type (tokens ! start) \<noteq> TK_THEN \<and> tk_type (tokens ! start) \<noteq> TK_DO")
    case True
    then obtain st' where s: "condition_token (tokens ! start) (IsNotTK tokens l) st = Some st'"
      "condition_loop tokens (start + 1) (if tk_isSpace (tokens ! start) then l else start) st' = Some (j, sc)"
      using "1.prems" by (subst (asm) condition_loop.simps) (auto split: option.splits)
    have "\<not> \<not> start < length tokens" "\<not> (tk_type (tokens ! start) = TK_THEN \<or> tk_type (tokens ! start) = TK_DO)"
      using True by auto
    note ih = "1.IH" [OF this s]
    have "tk_type (tokens ! k) \<noteq> TK_THEN \<and> tk_type (tokens ! k) \<noteq> TK_DO" if "start \<le> k \<and> k < j" for k
      using ih True that by (cases "k = start") auto
    then show ?thesis using ih by auto
  next
    case False
    then have "j = start \<and> start < length tokens \<and>
        (tk_type (tokens ! start) = TK_THEN \<or> tk_type (tokens ! start) = TK_DO)"
      using "1.prems" by (subst (asm) condition_loop.simps) (auto split: if_splits)
    then show ?thesis by auto
  qed
qed

lemma restore_space_lines:
  "\<lbrakk>all_lexed tokens; i \<le> length tokens\<rbrakk> \<Longrightarrow> lines (text_between tokens (restore_space tokens i) i) = 0"
proof (induction i)
  case (Suc i)
  show ?case
  proof (cases "0 < i \<and> tk_isSpace (tokens ! i) \<and> tk_type (tokens ! i) \<noteq> TK_LINEEND")
    case True
    have "text_between tokens (restore_space tokens i) (i + 1) =
        text_between tokens (restore_space tokens i) i @ tk_content (tokens ! i)"
      using text_between_split [OF restore_space_le, of i "i + 1" tokens] text_between_one [of i tokens] Suc.prems by simp
    then show ?thesis using True Suc lexed_space [OF lexed_at [OF Suc.prems(1)], of i] by simp
  qed auto
qed simp

definition strings_ok :: "Token list \<Rightarrow> bool" where
  "strings_ok tokens \<longleftrightarrow> (\<forall>t \<in> set tokens. tk_type t = TK_STRING \<longrightarrow> lines (tk_content t) = 0)"

lemma between_counts: "lines (text_between tokens a b) = sum_list (take (b - a) (drop a (line_counts tokens)))"
  by (simp add: text_between_def lines_text line_counts_def take_map drop_map)

lemma drop_counts: "lines (token_text (drop i tokens)) = sum_list (drop i (line_counts tokens))"
  by (simp add: lines_text line_counts_def drop_map)

text \<open>Rewriting the word of an \<^verbatim>\<open>else\<close> or \<^verbatim>\<open>elseif\<close> changes nothing that matters here.\<close>

definition reword :: "Token list \<Rightarrow> Token list \<Rightarrow> bool" where
  "reword tokens tokens' \<longleftrightarrow>
     tokens' = tokens \<or>
     (\<exists>i s. i < length tokens \<and> tk_type (tokens ! i) \<in> {TK_ELSE, TK_ELSEIF} \<and> NL \<notin> set s \<and>
        tokens' = tokens[i := (tokens ! i)\<lparr>tk_content := s\<rparr>])"

lemma rewordI:
  "\<lbrakk>i < length tokens; tk_type (tokens ! i) \<in> {TK_ELSE, TK_ELSEIF}; NL \<notin> set s\<rbrakk> \<Longrightarrow>
    reword tokens (tokens[i := (tokens ! i)\<lparr>tk_content := s\<rparr>])"
  by (auto simp: reword_def)

lemma reword_refl: "reword tokens tokens"
  by (simp add: reword_def)

lemma reword_keeps:
  assumes "reword tokens tokens'" and "all_lexed tokens"
  shows "length tokens' = length tokens" and "all_lexed tokens'" and "line_counts tokens' = line_counts tokens"
    and "one_line c (drop n tokens) \<Longrightarrow> one_line c (drop n tokens')"
    and "strings_ok tokens \<Longrightarrow> strings_ok tokens'" and "tk_isSpace (tokens' ! k) = tk_isSpace (tokens ! k)"
proof -
  have "length tokens' = length tokens \<and> all_lexed tokens' \<and> line_counts tokens' = line_counts tokens \<and>
    (one_line c (drop n tokens) \<longrightarrow> one_line c (drop n tokens')) \<and>
    (strings_ok tokens \<longrightarrow> strings_ok tokens') \<and> tk_isSpace (tokens' ! k) = tk_isSpace (tokens ! k)"
  proof (cases "tokens' = tokens")
    case False
    then obtain i s where i: "i < length tokens" "tk_type (tokens ! i) \<in> {TK_ELSE, TK_ELSEIF}" "NL \<notin> set s"
      "tokens' = tokens[i := (tokens ! i)\<lparr>tk_content := s\<rparr>]"
      using assms(1) unfolding reword_def by blast
    let ?t = "(tokens ! i)\<lparr>tk_content := s\<rparr>"
    have old: "lines (tk_content (tokens ! i)) = 0"
      using lexed_plain [OF lexed_at [OF assms(2) i(1)]] i(2) by auto
    have new: "lexed_token ?t" "lines (tk_content ?t) = 0" "tk_type ?t \<noteq> TK_STRING"
      using i(2,3) lexed_at [OF assms(2) i(1)] by (auto simp: lexed_token_def lines_0)
    have sub: "set tokens' \<subseteq> insert ?t (set tokens)" unfolding i(4) by (rule set_update_subset_insert)
    have "line_counts tokens' = (line_counts tokens)[i := 0]"
      using new(2) by (simp add: line_counts_def i(4) map_update)
    also have "\<dots> = line_counts tokens"
      using old i(1) by (simp add: line_counts_def list_update_same_conv)
    finally have counts: "line_counts tokens' = line_counts tokens" .
    have one: "one_line c (drop n tokens) \<longrightarrow> one_line c (drop n tokens')"
    proof (cases "n \<le> i")
      case True
      then have "drop n tokens' = (drop n tokens)[i - n := (drop n tokens ! (i - n))\<lparr>tk_content := s\<rparr>]"
        using i(1) by (simp add: i(4) drop_update_swap)
      then show ?thesis using one_line_update [OF i(3)] by simp
    next
      case False
      then show ?thesis by (simp add: i(4))
    qed
    have "all_lexed tokens'" using assms(2) new(1) sub unfolding all_lexed_def by blast
    moreover have "strings_ok tokens \<longrightarrow> strings_ok tokens'" using new(3) sub unfolding strings_ok_def by blast
    moreover have "tk_isSpace (tokens' ! k) = tk_isSpace (tokens ! k)" using i(1) by (cases "k = i") (simp_all add: i(4))
    ultimately show ?thesis using counts one i(4) by simp
  qed (use assms(2) in simp)
  then show "length tokens' = length tokens" "all_lexed tokens'" "line_counts tokens' = line_counts tokens"
    "one_line c (drop n tokens) \<Longrightarrow> one_line c (drop n tokens')" "strings_ok tokens \<Longrightarrow> strings_ok tokens'"
    "tk_isSpace (tokens' ! k) = tk_isSpace (tokens ! k)" by blast+
qed

lemma RemoveServerScoped_spec:
  assumes "all_lexed tokens" and "j < length tokens" and "tk_type (tokens ! j) = TK_THEN"
    and "RemoveServerScoped j tokens ss kind = Some (i', tokens', ss')"
  shows "j < i'" and "i' \<le> length tokens" and "reword tokens tokens'"
    and "strings_ok tokens \<Longrightarrow> lines ss' = lines ss + lines (text_between tokens (j + 1) i')"
proof -
  obtain i s lb where r: "RemoveScoped j tokens ss kind = (i, s, lb)" by (cases "RemoveScoped j tokens ss kind") auto
  then have loop: "RemoveScoped_loop tokens kind (j + 1) 1 ss False = (i, s, lb)" by (simp add: RemoveScoped_def)
  have ge: "j + 1 \<le> i" using RemoveScoped_loop_ge [of "j + 1" tokens kind 1 ss False] unfolding loop by simp
  from assms(4) r have i: "i < length tokens" "ss' = s"
    "i' = (if lb then restore_space tokens' i else i)"
    "tokens' = (if tk_type (tokens ! i) = TK_ELSEIF
       then tokens[i := (tokens ! i)\<lparr>tk_content := (if kind = TK_IF then ''if'' else ''elseif'')\<rparr>]
       else if tk_type (tokens ! i) = TK_ELSE \<and> kind = TK_IF
       then tokens[i := (tokens ! i)\<lparr>tk_content := ''do''\<rparr>] else tokens)"
    by (auto simp: RemoveServerScoped_def Let_def split: if_splits)
  show rw: "reword tokens tokens'" unfolding i(4) using i(1) by (auto intro!: rewordI reword_refl)
  note keep = reword_keeps [OF rw assms(1)]
  have "\<not> tk_isSpace (tokens ! j)" using lexed_at [OF assms(1,2)] assms(3) by (auto simp: lexed_token_def)
  then have "j < restore_space tokens' i" using ge restore_space_ge [of j i tokens'] keep(6) [of j] by simp
  then show j: "j < i'" using i(3) ge by simp
  have le: "i' \<le> i" using restore_space_le i(3) by simp
  then show "i' \<le> length tokens" using i(1) by simp
  show "lines ss' = lines ss + lines (text_between tokens (j + 1) i')" if "strings_ok tokens"
  proof -
    have "lines (text_between tokens' i' i) = 0"
      using restore_space_lines [OF keep(2), of i] i(1,3) keep(1) by simp
    then have "lines (text_between tokens i' i) = 0" by (simp add: between_counts keep(3))
    moreover have "text_between tokens (j + 1) i = text_between tokens (j + 1) i' @ text_between tokens i' i"
      by (rule text_between_split) (use j le in simp_all)
    ultimately show ?thesis
      using RemoveScoped_lines [OF assms(1) _ loop] that i(2) by (simp add: strings_ok_def)
  qed
qed

lemma drop_between: "a \<le> b \<Longrightarrow> token_text (drop a tokens) = text_between tokens a b @ token_text (drop b tokens)"
proof -
  assume "a \<le> b"
  then have "drop a tokens = take (b - a) (drop a tokens) @ drop b tokens"
    using append_take_drop_id [of "b - a" "drop a tokens"] by simp
  then show ?thesis unfolding text_between_def by (metis concat_append map_append)
qed

lemma removed_condition_lines:
  assumes "all_lexed tokens" and "one_line False (drop i tokens)" and "i < length tokens"
    and "tk_type (tokens ! i) = TK_IF \<or> tk_type (tokens ! i) = TK_ELSEIF"
    and "CanServerConditionBeRemoved tokens (i + 1) = Some (b, j)"
  shows "i < j" and "j < length tokens" and "lines (text_between tokens i (j + 1)) = 0"
proof -
  obtain sc where "condition_loop tokens (i + 1) 0 ([ScopeEvalInfo_new], [0]) = Some (j, sc)"
    using assms(5) by (auto simp: CanServerConditionBeRemoved_def)
  note c = condition_loop_end [OF this]
  show j: "i < j" "j < length tokens" using c by auto
  have cons: "drop i tokens = tokens ! i # drop (i + 1) tokens" using assms(3) Cons_nth_drop_Suc [of i tokens] by simp
  have "one_line True (drop (i + 1) tokens)" using assms(2,4) unfolding cons by (auto simp: Let_def)
  moreover have "\<forall>t \<in> set (take (j - (i + 1)) (drop (i + 1) tokens)). tk_type t \<noteq> TK_THEN \<and> tk_type t \<noteq> TK_DO"
    using c by (auto simp: in_set_conv_nth)
  ultimately have "lines (text_between tokens (i + 1) j) = 0"
    unfolding text_between_def by (rule one_line_condition)
  moreover have "lines (tk_content (tokens ! i)) = 0"
    using lexed_plain [OF lexed_at [OF assms(1,3)]] assms(4) by auto
  moreover have "lines (tk_content (tokens ! j)) = 0"
    using lexed_plain [OF lexed_at [OF assms(1) j(2)]] c by auto
  moreover have "text_between tokens i (j + 1) =
      tk_content (tokens ! i) @ text_between tokens (i + 1) j @ tk_content (tokens ! j)"
    using text_between_step [of i "j + 1" tokens] text_between_split [of "i + 1" j "j + 1" tokens]
      text_between_one [of j tokens] c assms(3) by simp
  ultimately show "lines (text_between tokens i (j + 1)) = 0" by simp
qed

lemma process_loop_spec:
  assumes "all_lexed tokens"
  shows "\<exists>r. process_loop rs rc tokens i ss = Some r \<and>
    (\<forall>out. r = Some out \<and> strings_ok tokens \<and> one_line False (drop i tokens) \<longrightarrow>
       lines out = lines ss + lines (token_text (drop i tokens)))"
  using assms
proof (induction "length tokens - i" arbitrary: tokens i ss rule: less_induct)
  case less
  let ?t = "tokens ! i"
  let ?good = "\<lambda>p. \<exists>r. p = Some r \<and>
    (\<forall>out. r = Some out \<and> strings_ok tokens \<and> one_line False (drop i tokens) \<longrightarrow>
       lines out = lines ss + lines (token_text (drop i tokens)))"
  show ?case
  proof (cases "i < length tokens")
    case False
    then show ?thesis by (subst process_loop.simps) simp
  next
    case True
    have drop: "token_text (drop i tokens) = tk_content ?t @ token_text (drop (i + 1) tokens)"
      using drop_between [of i "i + 1" tokens] text_between_one [OF True] by simp
    have next': "?good (process_loop rs rc tokens (i + 1) (ss @ x))" if x: "lines x = lines (tk_content ?t)" for x
    proof -
      have "length tokens - (i + 1) < length tokens - i" using True by linarith
      from less.hyps [OF this less.prems, of "ss @ x"] obtain r where
        r: "process_loop rs rc tokens (i + 1) (ss @ x) = Some r"
        "\<forall>out. r = Some out \<and> strings_ok tokens \<and> one_line False (drop (i + 1) tokens) \<longrightarrow>
           lines out = lines (ss @ x) + lines (token_text (drop (i + 1) tokens))" by blast
      moreover have "one_line False (drop i tokens) \<Longrightarrow> one_line False (drop (i + 1) tokens)"
        using one_line_drop [of False "drop i tokens" 1] by simp
      ultimately show ?thesis using drop x by auto
    qed
    have eof: "tk_type ?t = TK_EOF \<Longrightarrow> lines (tk_content ?t) = 0"
      using lexed_plain [OF lexed_at [OF less.prems True]] by simp
    have removal: "?good (process_loop rs rc tokens' i' ss')"
      if can: "CanServerConditionBeRemoved tokens (i + 1) = Some (b, j)" and j: "j < length tokens" "tk_type (tokens ! j) = TK_THEN"
        and rm: "RemoveServerScoped j tokens ss (tk_type ?t) = Some (i', tokens', ss')"
        and kind: "tk_type ?t = TK_IF \<or> tk_type ?t = TK_ELSEIF" for b j i' tokens' ss'
    proof -
      note spec = RemoveServerScoped_spec [OF less.prems j rm]
      note keep = reword_keeps [OF spec(3) less.prems]
      obtain sc where "condition_loop tokens (i + 1) 0 ([ScopeEvalInfo_new], [0]) = Some (j, sc)"
        using can by (auto simp: CanServerConditionBeRemoved_def)
      then have ij: "i < j" using condition_loop_end by fastforce
      then have i': "i < i'" "length tokens' - i' < length tokens - i" using spec(1,2) True keep(1) by auto
      from less.hyps [OF i'(2) keep(2)] obtain r where
        r: "process_loop rs rc tokens' i' ss' = Some r"
        "\<forall>out. r = Some out \<and> strings_ok tokens' \<and> one_line False (drop i' tokens') \<longrightarrow>
           lines out = lines ss' + lines (token_text (drop i' tokens'))" by blast
      have "lines out = lines ss + lines (token_text (drop i tokens))"
        if h: "r = Some out" "strings_ok tokens" "one_line False (drop i tokens)" for out
      proof -
        have "one_line False (drop i' tokens)"
          using one_line_drop [OF h(3), of "i' - i"] i'(1) by simp
        then have "lines out = lines ss' + lines (token_text (drop i' tokens'))"
          using r(2) h(1) keep(4,5) h(2) by blast
        also have "lines (token_text (drop i' tokens')) = lines (token_text (drop i' tokens))"
          by (simp add: drop_counts keep(3))
        finally have "lines out = lines ss + lines (text_between tokens (j + 1) i') + lines (token_text (drop i' tokens))"
          using spec(4) [OF h(2)] by simp
        moreover have "lines (text_between tokens i (j + 1)) = 0"
          by (rule removed_condition_lines(3) [OF less.prems h(3) True kind can])
        moreover have "token_text (drop i tokens) = text_between tokens i (j + 1) @
            text_between tokens (j + 1) i' @ token_text (drop i' tokens)"
          using drop_between [of i "j + 1" tokens] drop_between [of "j + 1" i' tokens] ij spec(1) by simp
        ultimately show ?thesis by simp
      qed
      then show ?thesis using r(1) by blast
    qed
    show ?thesis
      apply (subst process_loop.simps)
      using True next' [of "newlines (tk_content ?t)"] next' [of "tk_content ?t"] next' [of "''''"] eof removal
      by (auto split: option.split)
  qed
qed

lemma lexed_content: "all_lexed (TokenizeContent content)" "token_text (TokenizeContent content) = content"
proof -
  obtain ts where "TokenizeContent content = ts @ [tok TK_EOF '''']" "token_text ts = content"
    "\<forall>t \<in> set ts. lexed_token t"
    using tokenize_from_spec [of content 0] by (auto simp: TokenizeContent_def)
  then show "all_lexed (TokenizeContent content)" "token_text (TokenizeContent content) = content"
    by (auto simp: all_lexed_def lexed_token_def tok_def)
qed

section \<open>Properties of the processing\<close>

lemma process_copies:
  "process_loop False False tokens i ss =
    Some (Some (ss @ token_text (filter (\<lambda>t. tk_type t \<noteq> TK_EOF) (drop i tokens))))"
proof (induction "length tokens - i" arbitrary: i ss rule: less_induct)
  case less
  show ?case
  proof (cases "i < length tokens")
    case True
    then have "drop i tokens = tokens ! i # drop (i + 1) tokens" using Cons_nth_drop_Suc [of i tokens] by simp
    moreover have "length tokens - (i + 1) < length tokens - i" using True by linarith
    note less.hyps [OF this, of "ss @ (if tk_type (tokens ! i) \<noteq> TK_EOF then tk_content (tokens ! i) else '''')"]
    ultimately show ?thesis using True by (subst process_loop.simps) simp
  qed (subst process_loop.simps, simp)
qed

text \<open>
  C38. Processing a file always ends, and touches nothing unless told to.  For the tokens of
  any content and any switches the loop reaches a result, although removing a block moves the
  position back over spaces (the result may be the out-of-range access of a malformed file); with
  both switches off the file is passed on byte for byte, or as an empty comment if it holds no
  code.
\<close>

theorem processing_ends:
  "(\<exists>r. ProcessTokens (TokenizeContent content) bRemoveServerCode bRemoveComments = Some r) \<and>
   ProcessTokens (TokenizeContent content) False False =
     Some (Some (if \<exists>c \<in> set content. \<not> isspace c then content else ''--''))"
proof
  show "\<exists>r. ProcessTokens (TokenizeContent content) bRemoveServerCode bRemoveComments = Some r"
    using process_loop_spec [OF lexed_content(1), of bRemoveServerCode bRemoveComments content 0 "''''"]
    by (auto simp: ProcessTokens_def)
  obtain ts where ts: "TokenizeContent content = ts @ [tok TK_EOF '''']" "token_text ts = content"
    "\<forall>t \<in> set ts. tk_type t \<noteq> TK_EOF"
    using tokenize_from_spec [of content 0] by (auto simp: TokenizeContent_def)
  then have "filter (\<lambda>t. tk_type t \<noteq> TK_EOF) (TokenizeContent content) = ts"
    by (simp add: tok_def filter_id_conv)
  then show "ProcessTokens (TokenizeContent content) False False =
     Some (Some (if \<exists>c \<in> set content. \<not> isspace c then content else ''--''))"
    using process_copies [of "TokenizeContent content" 0 "''''"] ts(2) by (simp add: ProcessTokens_def)
qed




end
