(* ===== verification/LuaCondition.thy ===== *)
theory LuaCondition
  imports LuaStrip
begin

text \<open>
  When a condition counts as server-only.  Conditions built from \<^verbatim>\<open>SERVER\<close>,
  \<^verbatim>\<open>CLIENT\<close>, other atoms, \<^verbatim>\<open>not\<close>, \<^verbatim>\<open>and\<close>, \<^verbatim>\<open>or\<close>
  and parentheses are given a meaning on the client, and
  \<^verbatim>\<open>CanServerConditionBeRemoved\<close> is shown to accept only conditions that are false there.
\<close>

section \<open>Conditions and their meaning on the client\<close>

datatype operand = Server | Client | Atom Token | Paren disjunction
  and conjunction = Lit nat operand | And nat operand conjunction
  and disjunction = Conj conjunction | Or conjunction disjunction

primrec val_operand :: "(Token \<Rightarrow> bool) \<Rightarrow> operand \<Rightarrow> bool"
  and val_conjunction :: "(Token \<Rightarrow> bool) \<Rightarrow> conjunction \<Rightarrow> bool"
  and val_disjunction :: "(Token \<Rightarrow> bool) \<Rightarrow> disjunction \<Rightarrow> bool" where
  "val_operand env Server = False"
| "val_operand env Client = True"
| "val_operand env (Atom t) = env t"
| "val_operand env (Paren d) = val_disjunction env d"
| "val_conjunction env (Lit n x) = (even n = val_operand env x)"
| "val_conjunction env (And n x c) = ((even n = val_operand env x) \<and> val_conjunction env c)"
| "val_disjunction env (Conj c) = val_conjunction env c"
| "val_disjunction env (Or c d) = (val_conjunction env c \<or> val_disjunction env d)"

definition server_tok :: Token where "server_tok = tok TK_SOMETHING ''SERVER''"
definition client_tok :: Token where "client_tok = tok TK_SOMETHING ''CLIENT''"
definition open_tok :: Token where "open_tok = tok TK_PARENTHESIS ''(''"
definition close_tok :: Token where "close_tok = tok TK_PARENTHESIS '')''"

text \<open>The words of a condition, without the spaces between them.\<close>

primrec toks_operand :: "operand \<Rightarrow> Token list"
  and toks_conjunction :: "conjunction \<Rightarrow> Token list"
  and toks_disjunction :: "disjunction \<Rightarrow> Token list" where
  "toks_operand Server = [server_tok]"
| "toks_operand Client = [client_tok]"
| "toks_operand (Atom t) = [t]"
| "toks_operand (Paren d) = open_tok # toks_disjunction d @ [close_tok]"
| "toks_conjunction (Lit n x) = replicate n (tok TK_NOT ''not'') @ toks_operand x"
| "toks_conjunction (And n x c) =
     replicate n (tok TK_NOT ''not'') @ toks_operand x @ tok TK_AND ''and'' # toks_conjunction c"
| "toks_disjunction (Conj c) = toks_conjunction c"
| "toks_disjunction (Or c d) = toks_conjunction c @ tok TK_OR ''or'' # toks_disjunction d"

text \<open>An atom is one token that is neither a space nor an operator nor one of the two names.\<close>

definition atom_tok :: "Token \<Rightarrow> bool" where
  "atom_tok t \<longleftrightarrow> \<not> tk_isSpace t \<and> tk_type t \<in> {TK_SOMETHING, TK_TRUE, TK_FALSE, TK_NUMBER, TK_STRING} \<and>
     tk_content t \<noteq> ''SERVER'' \<and> tk_content t \<noteq> ''CLIENT''"

primrec atoms_operand :: "operand \<Rightarrow> bool"
  and atoms_conjunction :: "conjunction \<Rightarrow> bool"
  and atoms_disjunction :: "disjunction \<Rightarrow> bool" where
  "atoms_operand Server = True"
| "atoms_operand Client = True"
| "atoms_operand (Atom t) = atom_tok t"
| "atoms_operand (Paren d) = atoms_disjunction d"
| "atoms_conjunction (Lit n x) = atoms_operand x"
| "atoms_conjunction (And n x c) = (atoms_operand x \<and> atoms_conjunction c)"
| "atoms_disjunction (Conj c) = atoms_conjunction c"
| "atoms_disjunction (Or c d) = (atoms_conjunction c \<and> atoms_disjunction d)"

section \<open>The scan without positions\<close>

type_synonym scopes = "ScopeEvalInfo list \<times> nat list"

fun scan :: "Token list \<Rightarrow> bool \<times> scopes \<Rightarrow> (bool \<times> scopes) option" where
  "scan [] s = Some s"
| "scan (t # ts) (n, st) =
     (case condition_token t n st of
        None \<Rightarrow> None
      | Some st' \<Rightarrow> scan ts (if tk_isSpace t then n else tk_type t = TK_NOT \<and> \<not> n, st'))"

lemma scan_append:
  "scan (a @ b) s = (case scan a s of None \<Rightarrow> None | Some s' \<Rightarrow> scan b s')"
  by (induction a s rule: scan.induct) (auto split: option.splits)

text \<open>A change confined to the current scope and to new scopes.\<close>

definition updated :: "nat \<Rightarrow> ScopeEvalInfo list \<Rightarrow> ScopeEvalInfo list \<Rightarrow> bool \<Rightarrow> bool list \<Rightarrow> bool" where
  "updated cur s s' emp bs \<longleftrightarrow>
     length s \<le> length s' \<and> (\<forall>k < length s. k \<noteq> cur \<longrightarrow> s' ! k = s ! k) \<and>
     s' ! cur = (s ! cur)\<lparr>sc_isEmpty := sc_isEmpty (s ! cur) \<and> emp, sc_isServer := bs\<rparr>"

lemma updated_trans:
  "\<lbrakk>updated cur s s1 e1 b1; updated cur s1 s2 e2 b2; cur < length s\<rbrakk> \<Longrightarrow> updated cur s s2 (e1 \<and> e2) b2"
  by (auto simp: updated_def)

text \<open>One plain token: neither a parenthesis nor an \<^verbatim>\<open>or\<close>.\<close>

lemma scan_plain:
  assumes "cur < length s" and "sc_isServer (s ! cur) = f @ [b0]" and "\<not> tk_isSpace t"
    and "tk_type t \<noteq> TK_PARENTHESIS" and "tk_type t \<noteq> TK_OR"
    and "b = (b0 \<or> tk_type t = TK_SOMETHING \<and>
      (tk_content t = ''SERVER'' \<and> \<not> n \<or> tk_content t = ''CLIENT'' \<and> n))"
  shows "\<exists>s'. scan [t] (n, s, cur # rest) = Some (tk_type t = TK_NOT \<and> \<not> n, s', cur # rest) \<and>
    updated cur s s' False (f @ [b]) \<and> length s' = length s"
  using assms by (auto simp: condition_token_def Let_def updated_def set_last_def)

lemma scan_or:
  assumes "cur < length s" and "sc_isServer (s ! cur) = f"
  shows "\<exists>s'. scan [tok TK_OR ''or''] (n, s, cur # rest) = Some (False, s', cur # rest) \<and>
    updated cur s s' False (f @ [False]) \<and> length s' = length s"
  using assms by (auto simp: condition_token_def Let_def updated_def tok_def)

lemma scan_open:
  assumes "cur < length s"
  shows "scan [open_tok] (n, s, cur # rest) =
    Some (False, s @ [ScopeEvalInfo_new\<lparr>sc_evalNot := n\<rparr>], length s # cur # rest)"
  by (simp add: condition_token_def Let_def open_tok_def tok_def)

lemma scan_close:
  assumes "cur < length s" and "k < length s" and "cur \<noteq> k" and "sc_isServer (s ! cur) = f @ [b0]"
  shows "\<exists>s'. scan [close_tok] (n, s, k # cur # rest) = Some (False, s', cur # rest) \<and>
    updated cur s s' True (f @ [\<not> sc_evalNot (s ! k) \<and> list_all id (sc_isServer (s ! k))]) \<and>
    length s' = length s"
  using assms by (auto simp: condition_token_def Let_def close_tok_def tok_def updated_def set_last_def)

lemma scan_not:
  assumes "cur < length s" and "sc_isServer (s ! cur) = f @ [b0]"
  shows "\<exists>s'. scan (replicate n (tok TK_NOT ''not'')) (False, s, cur # rest) = Some (odd n, s', cur # rest) \<and>
    updated cur s s' (n = 0) (f @ [b0]) \<and> length s' = length s"
proof (induction n)
  case 0
  then show ?case using assms by (auto simp: updated_def)
next
  case (Suc n)
  then obtain s1 where s1: "scan (replicate n (tok TK_NOT ''not'')) (False, s, cur # rest) = Some (odd n, s1, cur # rest)"
    "updated cur s s1 (n = 0) (f @ [b0])" "length s1 = length s" by blast
  have "sc_isServer (s1 ! cur) = f @ [b0]" "cur < length s1" using s1(2,3) assms(1) by (simp_all add: updated_def)
  from scan_plain [OF this(2,1), of "tok TK_NOT ''not''" b0 "odd n" rest] obtain s2 where
    s2: "scan [tok TK_NOT ''not''] (odd n, s1, cur # rest) = Some (even n, s2, cur # rest)"
    "updated cur s1 s2 False (f @ [b0])" "length s2 = length s1" by (auto simp: tok_def)
  have "replicate (Suc n) (tok TK_NOT ''not'') = replicate n (tok TK_NOT ''not'') @ [tok TK_NOT ''not'']"
    by (simp add: replicate_append_same)
  then have "scan (replicate (Suc n) (tok TK_NOT ''not'')) (False, s, cur # rest) = Some (odd (Suc n), s2, cur # rest)"
    using s1(1) s2(1) by (simp only: scan_append option.case even_Suc not_not)
  moreover have "updated cur s s2 (Suc n = 0) (f @ [b0])"
    using updated_trans [OF s1(2) s2(2) assms(1)] by simp
  ultimately show ?case using s1(3) s2(3) by simp
qed

section \<open>What a scan establishes\<close>

definition is_paren :: "operand \<Rightarrow> bool" where
  "is_paren x \<longleftrightarrow> (case x of Paren _ \<Rightarrow> True | _ \<Rightarrow> False)"

definition lone_conjunction :: "conjunction \<Rightarrow> bool" where
  "lone_conjunction c \<longleftrightarrow> (case c of Lit n x \<Rightarrow> n = 0 \<and> is_paren x | _ \<Rightarrow> False)"

definition lone_disjunction :: "disjunction \<Rightarrow> bool" where
  "lone_disjunction d \<longleftrightarrow> (case d of Conj c \<Rightarrow> lone_conjunction c | _ \<Rightarrow> False)"

definition never :: "disjunction \<Rightarrow> bool" where
  "never d \<longleftrightarrow> (\<forall>env. \<not> val_disjunction env d)"

text \<open>
  The scan of a part in the current scope, whose last side has the flag \<open>b0\<close>: it succeeds,
  changes only this scope and adds new ones, and a flag it leaves is justified.  A part that is a
  lone parenthesis leaves the verdict to the scopes it added.
\<close>

definition operand_ok :: "nat \<Rightarrow> operand \<Rightarrow> bool" where
  "operand_ok n x \<longleftrightarrow> (\<forall>s cur rest f b0. cur < length s \<and> sc_isServer (s ! cur) = f @ [b0] \<longrightarrow>
     (\<exists>s' b. scan (toks_operand x) (odd n, s, cur # rest) = Some (False, s', cur # rest) \<and>
        updated cur s s' (is_paren x) (f @ [b]) \<and>
        (b \<longrightarrow> b0 \<or> never (Conj (Lit n x))) \<and>
        (is_paren x \<and> scopes_server (drop (length s) s') \<longrightarrow> never (Conj (Lit 0 x)))))"

definition conjunction_ok :: "conjunction \<Rightarrow> bool" where
  "conjunction_ok c \<longleftrightarrow> (\<forall>s cur rest f b0. cur < length s \<and> sc_isServer (s ! cur) = f @ [b0] \<longrightarrow>
     (\<exists>s' b. scan (toks_conjunction c) (False, s, cur # rest) = Some (False, s', cur # rest) \<and>
        updated cur s s' (lone_conjunction c) (f @ [b]) \<and>
        (b \<longrightarrow> b0 \<or> never (Conj c)) \<and>
        (lone_conjunction c \<and> scopes_server (drop (length s) s') \<longrightarrow> never (Conj c))))"

definition disjunction_ok :: "disjunction \<Rightarrow> bool" where
  "disjunction_ok d \<longleftrightarrow> (\<forall>s cur rest f b0. cur < length s \<and> sc_isServer (s ! cur) = f @ [b0] \<longrightarrow>
     (\<exists>s' bs. scan (toks_disjunction d) (False, s, cur # rest) = Some (False, s', cur # rest) \<and>
        updated cur s s' (lone_disjunction d) (f @ bs) \<and> bs \<noteq> [] \<and>
        (list_all id bs \<longrightarrow> b0 \<or> never d) \<and>
        (lone_disjunction d \<and> scopes_server (drop (length s) s') \<longrightarrow> never d)))"

lemma never_simps [simp]:
  "never (Conj (Lit 0 (Paren d))) = never d" "never (Or c d) = (never (Conj c) \<and> never d)"
  by (auto simp: never_def)

lemma plain_ok:
  assumes "toks_operand x = [t]" and "\<not> is_paren x" and "\<not> tk_isSpace t"
    and "tk_type t \<notin> {TK_PARENTHESIS, TK_OR, TK_NOT}"
    and "tk_type t = TK_SOMETHING \<and> (tk_content t = ''SERVER'' \<and> even n \<or> tk_content t = ''CLIENT'' \<and> odd n) \<longrightarrow>
      never (Conj (Lit n x))"
  shows "operand_ok n x"
  unfolding operand_ok_def
proof (intro allI impI)
  fix s :: "ScopeEvalInfo list" and cur :: nat and rest f b0
  assume s: "cur < length s \<and> sc_isServer (s ! cur) = f @ [b0]"
  define b where "b = (b0 \<or> tk_type t = TK_SOMETHING \<and>
      (tk_content t = ''SERVER'' \<and> \<not> odd n \<or> tk_content t = ''CLIENT'' \<and> odd n))"
  from scan_plain [of cur s f b0 t b "odd n" rest] s assms(3,4) obtain s' where
    "scan [t] (odd n, s, cur # rest) = Some (False, s', cur # rest)" "updated cur s s' False (f @ [b])"
    by (auto simp: b_def)
  moreover have "b \<longrightarrow> b0 \<or> never (Conj (Lit n x))" using assms(5) by (auto simp: b_def)
  ultimately show "\<exists>s' b. scan (toks_operand x) (odd n, s, cur # rest) = Some (False, s', cur # rest) \<and>
      updated cur s s' (is_paren x) (f @ [b]) \<and> (b \<longrightarrow> b0 \<or> never (Conj (Lit n x))) \<and>
      (is_paren x \<and> scopes_server (drop (length s) s') \<longrightarrow> never (Conj (Lit 0 x)))"
    using assms(1,2) by auto
qed

text \<open>The scopes from a fresh one on, after the scan of what it holds.\<close>

lemma fresh_scope:
  assumes d: "disjunction_ok d" and k: "k = length s" "fresh = ScopeEvalInfo_new\<lparr>sc_evalNot := n\<rparr>"
  shows "\<exists>s'. scan (toks_disjunction d) (False, s @ [fresh], k # rest) = Some (False, s', k # rest) \<and>
    k < length s' \<and> (\<forall>i < k. s' ! i = s ! i) \<and> sc_evalNot (s' ! k) = n \<and>
    (list_all id (sc_isServer (s' ! k)) \<longrightarrow> never d) \<and>
    (scopes_server (drop k s') \<longrightarrow> never d)"
proof -
  have pre: "k < length (s @ [fresh]) \<and> sc_isServer ((s @ [fresh]) ! k) = [] @ [False]"
    by (simp add: k ScopeEvalInfo_new_def)
  obtain s' bs where s': "scan (toks_disjunction d) (False, s @ [fresh], k # rest) = Some (False, s', k # rest)"
    "updated k (s @ [fresh]) s' (lone_disjunction d) ([] @ bs)" "list_all id bs \<longrightarrow> False \<or> never d"
    "lone_disjunction d \<and> scopes_server (drop (length (s @ [fresh])) s') \<longrightarrow> never d"
    using d pre unfolding disjunction_ok_def by blast
  then have len: "k < length s'" and keep: "\<forall>i < k. s' ! i = s ! i"
    and at: "s' ! k = fresh\<lparr>sc_isEmpty := lone_disjunction d, sc_isServer := bs\<rparr>"
    by (auto simp: updated_def k nth_append ScopeEvalInfo_new_def)
  have drop: "drop k s' = s' ! k # drop (Suc k) s'" using len by (simp add: Cons_nth_drop_Suc)
  have "never d" if "scopes_server (drop k s')"
  proof (cases "lone_disjunction d")
    case True
    then have "scopes_server (drop (Suc k) s')" using that by (simp add: scopes_server_def drop at)
    then show ?thesis using s'(4) True k(1) by simp
  next
    case False
    then have "list_all id bs" using that by (simp add: scopes_server_def drop at)
    then show ?thesis using s'(3) by simp
  qed
  then show ?thesis using s'(1,3) len keep at k(2) by (intro exI [of _ s']) simp
qed

lemma paren_ok:
  assumes "disjunction_ok d"
  shows "operand_ok n (Paren d)"
  unfolding operand_ok_def
proof (intro allI impI)
  fix s :: "ScopeEvalInfo list" and cur :: nat and rest f b0
  assume s: "cur < length s \<and> sc_isServer (s ! cur) = f @ [b0]"
  let ?fresh = "ScopeEvalInfo_new\<lparr>sc_evalNot := odd n\<rparr>"
  obtain s1 where s1: "scan (toks_disjunction d) (False, s @ [?fresh], length s # cur # rest) =
      Some (False, s1, length s # cur # rest)"
    "length s < length s1" "\<forall>i < length s. s1 ! i = s ! i" "sc_evalNot (s1 ! length s) = odd n"
    "list_all id (sc_isServer (s1 ! length s)) \<longrightarrow> never d" "scopes_server (drop (length s) s1) \<longrightarrow> never d"
    using fresh_scope [OF assms refl refl, of s "odd n" "cur # rest"] by (elim exE conjE)
  define b where "b = (\<not> sc_evalNot (s1 ! length s) \<and> list_all id (sc_isServer (s1 ! length s)))"
  have "sc_isServer (s1 ! cur) = f @ [b0]" "cur < length s1" "cur \<noteq> length s" using s s1(2,3) by auto
  from scan_close [OF this(2) s1(2) this(3,1), of False rest] obtain s2 where
    s2: "scan [close_tok] (False, s1, length s # cur # rest) = Some (False, s2, cur # rest)"
    "updated cur s1 s2 True (f @ [b])" "length s2 = length s1" unfolding b_def by blast
  have "toks_operand (Paren d) = [open_tok] @ toks_disjunction d @ [close_tok]" by simp
  then have "scan (toks_operand (Paren d)) (odd n, s, cur # rest) = Some (False, s2, cur # rest)"
    using s by (simp only: scan_append scan_open s1(1) s2(1) option.case)
  moreover have "updated cur s s2 (is_paren (Paren d)) (f @ [b])"
    using s2(2) s1(2,3) s by (auto simp: updated_def is_paren_def)
  moreover have "b \<longrightarrow> never (Conj (Lit n (Paren d)))"
    using s1(4,5) by (auto simp: b_def never_def)
  moreover have "drop (length s) s2 = drop (length s) s1"
    using s2(2,3) s by (intro nth_equalityI) (auto simp: updated_def)
  ultimately show "\<exists>s' b. scan (toks_operand (Paren d)) (odd n, s, cur # rest) = Some (False, s', cur # rest) \<and>
      updated cur s s' (is_paren (Paren d)) (f @ [b]) \<and> (b \<longrightarrow> b0 \<or> never (Conj (Lit n (Paren d)))) \<and>
      (is_paren (Paren d) \<and> scopes_server (drop (length s) s') \<longrightarrow> never (Conj (Lit 0 (Paren d))))"
    using s1(6) by (intro exI [of _ s2] exI [of _ b]) simp
qed

lemma literal_scan:
  assumes "operand_ok n x" and s: "cur < length s" "sc_isServer (s ! cur) = f @ [b0]"
  shows "\<exists>s' b. scan (replicate n (tok TK_NOT ''not'') @ toks_operand x) (False, s, cur # rest) =
      Some (False, s', cur # rest) \<and> updated cur s s' (n = 0 \<and> is_paren x) (f @ [b]) \<and>
      (b \<longrightarrow> b0 \<or> never (Conj (Lit n x))) \<and>
      (n = 0 \<and> is_paren x \<and> scopes_server (drop (length s) s') \<longrightarrow> never (Conj (Lit n x)))"
proof -
  obtain s1 where s1: "scan (replicate n (tok TK_NOT ''not'')) (False, s, cur # rest) = Some (odd n, s1, cur # rest)"
    "updated cur s s1 (n = 0) (f @ [b0])" "length s1 = length s" using scan_not [OF s] by blast
  have "cur < length s1 \<and> sc_isServer (s1 ! cur) = f @ [b0]" using s1 s(1) by (simp add: updated_def)
  then obtain s2 b where s2: "scan (toks_operand x) (odd n, s1, cur # rest) = Some (False, s2, cur # rest)"
    "updated cur s1 s2 (is_paren x) (f @ [b])" "b \<longrightarrow> b0 \<or> never (Conj (Lit n x))"
    "is_paren x \<and> scopes_server (drop (length s1) s2) \<longrightarrow> never (Conj (Lit 0 x))"
    using assms(1) unfolding operand_ok_def by blast
  show ?thesis
    using s1 s2 updated_trans [OF s1(2) s2(2) s(1)]
    by (intro exI [of _ s2] exI [of _ b]) (auto simp: scan_append)
qed

lemma lit_ok: "operand_ok n x \<Longrightarrow> conjunction_ok (Lit n x)"
  unfolding conjunction_ok_def lone_conjunction_def toks_conjunction.simps conjunction.case
  using literal_scan by blast

lemma never_and: "never (Conj (Lit n x)) \<or> never (Conj c) \<Longrightarrow> never (Conj (And n x c))"
  by (auto simp: never_def)

lemma and_ok:
  assumes "operand_ok n x" and "conjunction_ok c"
  shows "conjunction_ok (And n x c)"
  unfolding conjunction_ok_def
proof (intro allI impI)
  fix s :: "ScopeEvalInfo list" and cur :: nat and rest f b0
  assume s: "cur < length s \<and> sc_isServer (s ! cur) = f @ [b0]"
  obtain s1 b1 where s1: "scan (replicate n (tok TK_NOT ''not'') @ toks_operand x) (False, s, cur # rest) =
      Some (False, s1, cur # rest)" "updated cur s s1 (n = 0 \<and> is_paren x) (f @ [b1])"
    "b1 \<longrightarrow> b0 \<or> never (Conj (Lit n x))"
    using literal_scan [OF assms(1)] s by blast
  have "cur < length s1" "sc_isServer (s1 ! cur) = f @ [b1]" using s1(2) s by (auto simp: updated_def)
  from scan_plain [OF this, of "tok TK_AND ''and''" b1 False rest] obtain s2 where
    s2: "scan [tok TK_AND ''and''] (False, s1, cur # rest) = Some (False, s2, cur # rest)"
    "updated cur s1 s2 False (f @ [b1])" by (auto simp: tok_def)
  then have "cur < length s2 \<and> sc_isServer (s2 ! cur) = f @ [b1]"
    using \<open>cur < length s1\<close> by (auto simp: updated_def)
  then obtain s3 b where s3: "scan (toks_conjunction c) (False, s2, cur # rest) = Some (False, s3, cur # rest)"
    "updated cur s2 s3 (lone_conjunction c) (f @ [b])" "b \<longrightarrow> b1 \<or> never (Conj c)"
    using assms(2) unfolding conjunction_ok_def by blast
  have toks: "toks_conjunction (And n x c) =
      (replicate n (tok TK_NOT ''not'') @ toks_operand x) @ [tok TK_AND ''and''] @ toks_conjunction c" by simp
  have "scan (toks_conjunction (And n x c)) (False, s, cur # rest) = Some (False, s3, cur # rest)"
    unfolding toks scan_append [of "replicate n (tok TK_NOT ''not'') @ toks_operand x"] s1(1)
    by (simp only: option.case scan_append s2(1) s3(1))
  moreover have "updated cur s s3 (lone_conjunction (And n x c)) (f @ [b])"
    using updated_trans [OF updated_trans [OF s1(2) s2(2)] s3(2)] s by (simp add: lone_conjunction_def)
  moreover have "b \<longrightarrow> b0 \<or> never (Conj (And n x c))" using s1(3) s3(3) never_and by blast
  ultimately show "\<exists>s' b. scan (toks_conjunction (And n x c)) (False, s, cur # rest) = Some (False, s', cur # rest) \<and>
      updated cur s s' (lone_conjunction (And n x c)) (f @ [b]) \<and> (b \<longrightarrow> b0 \<or> never (Conj (And n x c))) \<and>
      (lone_conjunction (And n x c) \<and> scopes_server (drop (length s) s') \<longrightarrow> never (Conj (And n x c)))"
    by (intro exI [of _ s3] exI [of _ b]) (simp add: lone_conjunction_def)
qed

lemma conj_ok: "conjunction_ok c \<Longrightarrow> disjunction_ok (Conj c)"
  unfolding disjunction_ok_def
proof (intro allI impI)
  fix s :: "ScopeEvalInfo list" and cur :: nat and rest f b0
  assume c: "conjunction_ok c" and s: "cur < length s \<and> sc_isServer (s ! cur) = f @ [b0]"
  from c s obtain s' b where "scan (toks_conjunction c) (False, s, cur # rest) = Some (False, s', cur # rest)"
    "updated cur s s' (lone_conjunction c) (f @ [b])" "b \<longrightarrow> b0 \<or> never (Conj c)"
    "lone_conjunction c \<and> scopes_server (drop (length s) s') \<longrightarrow> never (Conj c)"
    unfolding conjunction_ok_def by blast
  then show "\<exists>s' bs. scan (toks_disjunction (Conj c)) (False, s, cur # rest) = Some (False, s', cur # rest) \<and>
      updated cur s s' (lone_disjunction (Conj c)) (f @ bs) \<and> bs \<noteq> [] \<and> (list_all id bs \<longrightarrow> b0 \<or> never (Conj c)) \<and>
      (lone_disjunction (Conj c) \<and> scopes_server (drop (length s) s') \<longrightarrow> never (Conj c))"
    by (intro exI [of _ s'] exI [of _ "[b]"]) (simp add: lone_disjunction_def)
qed

lemma or_ok:
  assumes "conjunction_ok c" and "disjunction_ok d"
  shows "disjunction_ok (Or c d)"
  unfolding disjunction_ok_def
proof (intro allI impI)
  fix s :: "ScopeEvalInfo list" and cur :: nat and rest f b0
  assume s: "cur < length s \<and> sc_isServer (s ! cur) = f @ [b0]"
  obtain s1 b1 where s1: "scan (toks_conjunction c) (False, s, cur # rest) = Some (False, s1, cur # rest)"
    "updated cur s s1 (lone_conjunction c) (f @ [b1])" "b1 \<longrightarrow> b0 \<or> never (Conj c)"
    using assms(1) s unfolding conjunction_ok_def by blast
  have "cur < length s1" "sc_isServer (s1 ! cur) = f @ [b1]" using s1(2) s by (auto simp: updated_def)
  from scan_or [OF this, of False rest] obtain s2 where
    s2: "scan [tok TK_OR ''or''] (False, s1, cur # rest) = Some (False, s2, cur # rest)"
    "updated cur s1 s2 False ((f @ [b1]) @ [False])" by blast
  then have "cur < length s2 \<and> sc_isServer (s2 ! cur) = (f @ [b1]) @ [False]"
    using \<open>cur < length s1\<close> by (auto simp: updated_def)
  then obtain s3 bs where s3: "scan (toks_disjunction d) (False, s2, cur # rest) = Some (False, s3, cur # rest)"
    "updated cur s2 s3 (lone_disjunction d) ((f @ [b1]) @ bs)" "bs \<noteq> []" "list_all id bs \<longrightarrow> False \<or> never d"
    using assms(2) unfolding disjunction_ok_def by blast
  have toks: "toks_disjunction (Or c d) = toks_conjunction c @ [tok TK_OR ''or''] @ toks_disjunction d" by simp
  have "scan (toks_disjunction (Or c d)) (False, s, cur # rest) = Some (False, s3, cur # rest)"
    unfolding toks by (simp only: scan_append option.case s1(1) s2(1) s3(1))
  moreover have "updated cur s s3 (lone_disjunction (Or c d)) (f @ b1 # bs)"
    using updated_trans [OF updated_trans [OF s1(2) s2(2)] s3(2)] s by (simp add: lone_disjunction_def)
  moreover have "list_all id (b1 # bs) \<longrightarrow> b0 \<or> never (Or c d)" using s1(3) s3(4) by auto
  ultimately show "\<exists>s' bs. scan (toks_disjunction (Or c d)) (False, s, cur # rest) = Some (False, s', cur # rest) \<and>
      updated cur s s' (lone_disjunction (Or c d)) (f @ bs) \<and> bs \<noteq> [] \<and> (list_all id bs \<longrightarrow> b0 \<or> never (Or c d)) \<and>
      (lone_disjunction (Or c d) \<and> scopes_server (drop (length s) s') \<longrightarrow> never (Or c d))"
    by (intro exI [of _ s3] exI [of _ "b1 # bs"]) (simp add: lone_disjunction_def)
qed

lemma names_ok: "operand_ok n Server" "operand_ok n Client" "atom_tok t \<Longrightarrow> operand_ok n (Atom t)"
proof -
  show "operand_ok n Server"
    by (rule plain_ok [where t = server_tok]) (simp_all add: is_paren_def server_tok_def tok_def never_def)
  show "operand_ok n Client"
    by (rule plain_ok [where t = client_tok]) (simp_all add: is_paren_def client_tok_def tok_def never_def)
  show "operand_ok n (Atom t)" if "atom_tok t"
    by (rule plain_ok [where t = t]) (use that in \<open>auto simp: is_paren_def atom_tok_def\<close>)
qed

lemma all_ok:
  "atoms_operand x \<longrightarrow> (\<forall>n. operand_ok n x)"
  "atoms_conjunction c \<longrightarrow> conjunction_ok c"
  "atoms_disjunction d \<longrightarrow> disjunction_ok d"
  by (induction x and c and d) (auto intro: names_ok paren_ok lit_ok and_ok conj_ok or_ok)

section \<open>The scan of the code\<close>

text \<open>A space as the lexer makes it.\<close>

definition blank :: "Token \<Rightarrow> bool" where
  "blank t \<longleftrightarrow> tk_isSpace t \<and> tk_type t \<in> {TK_LINEEND, TK_SOMETHING} \<and>
     tk_content t \<noteq> ''SERVER'' \<and> tk_content t \<noteq> ''CLIENT''"

lemma condition_token_blank: "\<lbrakk>blank t; ids \<noteq> []\<rbrakk> \<Longrightarrow> condition_token t n (s, ids) = Some (s, ids)"
  by (cases ids) (auto simp: condition_token_def blank_def Let_def)

lemma condition_token_ids: "condition_token t n (s, ids) = Some (s', ids') \<Longrightarrow> ids' \<noteq> []"
  by (auto simp: condition_token_def Let_def split: list.splits if_splits)

lemma scan_blank:
  "\<lbrakk>\<forall>t \<in> set ts. tk_isSpace t \<longrightarrow> blank t; ids \<noteq> []\<rbrakk> \<Longrightarrow>
    scan ts (n, s, ids) = scan (filter (\<lambda>t. \<not> tk_isSpace t) ts) (n, s, ids)"
proof (induction ts arbitrary: n s ids)
  case (Cons t ts)
  show ?case
  proof (cases "tk_isSpace t")
    case True
    then show ?thesis using Cons by (simp add: condition_token_blank)
  next
    case False
    have "ids' \<noteq> []" if "condition_token t n (s, ids) = Some (s', ids')" for s' ids'
      using condition_token_ids [OF that] .
    then show ?thesis using Cons False by (auto split: option.split)
  qed
qed simp

lemma not_back_flip: "not_back tokens i (\<not> b) = (\<not> not_back tokens i b)"
  by (induction tokens i b rule: not_back.induct) auto

lemma not_back_spaces:
  "\<lbrakk>p < i; \<not> tk_isSpace (tokens ! p); \<forall>k. p < k \<and> k < i \<longrightarrow> tk_isSpace (tokens ! k)\<rbrakk> \<Longrightarrow>
    not_back tokens i b = (if tk_type (tokens ! p) = TK_NOT then \<not> not_back tokens p b else b)"
proof (induction i)
  case (Suc i)
  then show ?case by (cases "p = i") (auto simp: not_back_flip)
qed simp

lemma IsNotTK_step:
  assumes "p < i" and "\<not> tk_isSpace (tokens ! p)" and "\<forall>k. p < k \<and> k < i \<longrightarrow> tk_isSpace (tokens ! k)"
  shows "IsNotTK tokens i = (tk_type (tokens ! i) = TK_NOT \<and> \<not> IsNotTK tokens p)"
  using not_back_spaces [OF assms, of True] by (simp add: IsNotTK_def)

lemma condition_loop_scan:
  assumes "tokens = pre @ ts @ thn # post" and "tk_type thn = TK_THEN"
    and "\<forall>t \<in> set ts. tk_type t \<noteq> TK_THEN \<and> tk_type t \<noteq> TK_DO"
    and "p < length pre" and "\<not> tk_isSpace (tokens ! p)"
    and "\<forall>k. p < k \<and> k < length pre \<longrightarrow> tk_isSpace (tokens ! k)"
    and "IsNotTK tokens p = n" and "IsNotTK tokens l = n"
  shows "condition_loop tokens (length pre) l st =
    map_option (\<lambda>(_, s, _). (length pre + length ts, s)) (scan ts (n, st))"
  using assms
proof (induction ts arbitrary: pre p l n st)
  case Nil
  then show ?case by (subst condition_loop.simps) (auto simp: case_prod_unfold)
next
  case (Cons t ts)
  have t: "tokens ! length pre = t" and len: "length pre < length tokens" using Cons.prems(1) by simp_all
  let ?n = "if tk_isSpace t then n else tk_type t = TK_NOT \<and> \<not> n"
  let ?p = "if tk_isSpace t then p else length pre"
  let ?l = "if tk_isSpace t then l else length pre"
  have "IsNotTK tokens (length pre) = (tk_type t = TK_NOT \<and> \<not> n)"
    using IsNotTK_step [OF Cons.prems(4,5,6)] Cons.prems(7) t by simp
  then have n: "IsNotTK tokens ?p = ?n" "IsNotTK tokens ?l = ?n" using Cons.prems(7,8) by auto
  have p: "?p < length (pre @ [t])" "\<not> tk_isSpace (tokens ! ?p)" using Cons.prems(4,5) t by auto
  have spaces: "\<forall>k. ?p < k \<and> k < length (pre @ [t]) \<longrightarrow> tk_isSpace (tokens ! k)"
    using Cons.prems(6) t by (auto simp: less_Suc_eq)
  have "tokens = (pre @ [t]) @ ts @ thn # post" "\<forall>t \<in> set ts. tk_type t \<noteq> TK_THEN \<and> tk_type t \<noteq> TK_DO"
    using Cons.prems(1,3) by simp_all
  note IH = Cons.IH [OF this(1) Cons.prems(2) this(2) p spaces n]
  have "condition_loop tokens (length pre) l st =
      (case condition_token t n st of None \<Rightarrow> None
       | Some st' \<Rightarrow> condition_loop tokens (length (pre @ [t])) ?l st')"
    using Cons.prems(3,8) t len by (subst condition_loop.simps) (simp split: option.split)
  then show ?case unfolding IH by (cases st) (auto simp: split: option.split)
qed

lemma toks_types:
  "atoms_operand x \<longrightarrow> (\<forall>t \<in> set (toks_operand x). tk_type t \<noteq> TK_THEN \<and> tk_type t \<noteq> TK_DO)"
  "atoms_conjunction c \<longrightarrow> (\<forall>t \<in> set (toks_conjunction c). tk_type t \<noteq> TK_THEN \<and> tk_type t \<noteq> TK_DO)"
  "atoms_disjunction d \<longrightarrow> (\<forall>t \<in> set (toks_disjunction d). tk_type t \<noteq> TK_THEN \<and> tk_type t \<noteq> TK_DO)"
  by (induction x and c and d)
    (auto simp: tok_def server_tok_def client_tok_def open_tok_def close_tok_def atom_tok_def)

text \<open>
  C10. A condition that is removed is false on the client.  For every condition built from
  SERVER, CLIENT, other single words, negation, conjunction, disjunction and parentheses, with
  any spacing, the scan reaches the THEN of the condition without an out-of-range access, and
  if it calls the condition server-only, no values of the other words make it true on a client,
  so the block it guards is never one the client would run.
\<close>

theorem removed_condition_is_false_on_client:
  assumes "tokens = pre @ kw # cond @ thn # post" and "tk_type kw = TK_IF \<or> tk_type kw = TK_ELSEIF"
    and "\<not> tk_isSpace kw" and "tk_type thn = TK_THEN" and "tk_type (tokens ! 0) \<noteq> TK_NOT"
    and "\<forall>t \<in> set cond. tk_isSpace t \<longrightarrow> blank t"
    and "filter (\<lambda>t. \<not> tk_isSpace t) cond = toks_disjunction d" and "atoms_disjunction d"
  shows "\<exists>removed. CanServerConditionBeRemoved tokens (length pre + 1) = Some (removed, length pre + 1 + length cond) \<and>
    (removed \<longrightarrow> (\<forall>env. \<not> val_disjunction env d))"
proof -
  have types: "\<forall>t \<in> set cond. tk_type t \<noteq> TK_THEN \<and> tk_type t \<noteq> TK_DO"
  proof
    fix t
    assume t: "t \<in> set cond"
    show "tk_type t \<noteq> TK_THEN \<and> tk_type t \<noteq> TK_DO"
    proof (cases "tk_isSpace t")
      case True
      then show ?thesis using assms(6) t by (auto simp: blank_def)
    next
      case False
      then have "t \<in> set (toks_disjunction d)" using t unfolding assms(7) [symmetric] by simp
      then show ?thesis using toks_types(3) assms(8) by blast
    qed
  qed
  have at: "tokens ! length pre = kw" using assms(1) by simp
  have split: "tokens = (pre @ [kw]) @ cond @ thn # post" using assms(1) by simp
  have "IsNotTK tokens (length pre) = False" "IsNotTK tokens 0 = False"
    using assms(2,5) at by (auto simp: IsNotTK_def)
  moreover have "\<forall>k. length pre < k \<and> k < length (pre @ [kw]) \<longrightarrow> tk_isSpace (tokens ! k)" by auto
  moreover have "length pre < length (pre @ [kw])" "\<not> tk_isSpace (tokens ! length pre)" using assms(3) at by simp_all
  ultimately
  have loop: "condition_loop tokens (length pre + 1) 0 ([ScopeEvalInfo_new], [0]) =
      map_option (\<lambda>(_, s, _). (length pre + 1 + length cond, s)) (scan (toks_disjunction d) (False, [ScopeEvalInfo_new], [0]))"
    using scan_blank [OF assms(6), of "[0]" False "[ScopeEvalInfo_new]"] assms(7)
      condition_loop_scan [OF split assms(4) types, of "length pre" False 0] by simp
  have fresh: "ScopeEvalInfo_new = ScopeEvalInfo_new\<lparr>sc_evalNot := False\<rparr>" by (simp add: ScopeEvalInfo_new_def)
  have "disjunction_ok d" using all_ok(3) assms(8) by blast
  from fresh_scope [OF this _ fresh, of 0 "[]" "[]"] obtain s' where
    "scan (toks_disjunction d) (False, [ScopeEvalInfo_new], [0]) = Some (False, s', [0])"
    "scopes_server s' \<longrightarrow> never d" by auto
  then show ?thesis unfolding CanServerConditionBeRemoved_def loop by (simp add: never_def)
qed

definition demo_code :: string where
  "demo_code = ''if SERVER and not x then a() end''"

lemma demo_code_tokens:
  "TokenizeContent demo_code =
    [] @ tok TK_IF ''if'' #
     [space_tok TK_SOMETHING '' '', server_tok, space_tok TK_SOMETHING '' '', tok TK_AND ''and'',
      space_tok TK_SOMETHING '' '', tok TK_NOT ''not'', space_tok TK_SOMETHING '' '',
      tok TK_SOMETHING ''x'', space_tok TK_SOMETHING '' ''] @
     tok TK_THEN ''then'' #
     [space_tok TK_SOMETHING '' '', tok TK_SOMETHING ''a'', tok TK_PARENTHESIS ''('', tok TK_PARENTHESIS '')'',
      space_tok TK_SOMETHING '' '', tok TK_END ''end'', tok TK_EOF '''']"
  by code_simp

theorem removed_condition_is_false_on_client_witness:
  "CanServerConditionBeRemoved (TokenizeContent demo_code) 1 = Some (True, 10) \<and>
   (\<exists>removed. CanServerConditionBeRemoved (TokenizeContent demo_code) 1 = Some (removed, 10) \<and>
     (removed \<longrightarrow> (\<forall>env. \<not> val_disjunction env
        (Conj (And 0 Server (Lit 1 (Atom (tok TK_SOMETHING ''x''))))))))"
proof
  show "CanServerConditionBeRemoved (TokenizeContent demo_code) 1 = Some (True, 10)"
    by code_simp
  show "\<exists>removed. CanServerConditionBeRemoved (TokenizeContent demo_code) 1 = Some (removed, 10) \<and>
     (removed \<longrightarrow> (\<forall>env. \<not> val_disjunction env
        (Conj (And 0 Server (Lit 1 (Atom (tok TK_SOMETHING ''x'')))))))"
    using removed_condition_is_false_on_client [OF demo_code_tokens,
        of "Conj (And 0 Server (Lit 1 (Atom (tok TK_SOMETHING ''x''))))"]
    unfolding demo_code_tokens
    by (simp add: blank_def space_tok_def tok_def server_tok_def atom_tok_def eval_nat_numeral)
qed

section \<open>Where the code differs from its intent\<close>

text \<open>
  Concrete runs: a removed \<^verbatim>\<open>elseif\<close> after a removed \<^verbatim>\<open>if\<close> leaves an
  \<^verbatim>\<open>else\<close> without its \<^verbatim>\<open>if\<close>; a comparison with the name counts as
  the name itself; a condition that spans lines is removed with its line break; a file that
  ends inside a condition is read out of range; a name that starts with a logical operator is
  split.
\<close>

lemma removed_elseif_leaves_else:
  "ProcessTokens (TokenizeContent ''if SERVER then a() elseif SERVER then b() else c() end'') True False =
    Some (Some ''else c() end'')"
  by code_simp

lemma comparison_counts_as_name:
  "ProcessTokens (TokenizeContent ''if SERVER == false then a() end'') True False = Some (Some ''--'')"
  by code_simp

lemma removed_condition_loses_line:
  "ProcessTokens (TokenizeContent (''if SERVER and'' @ [NL] @ ''x then a() end b()'')) True False =
    Some (Some '' b()'')"
  by code_simp

lemma unfinished_condition_out_of_range:
  "ProcessTokens (TokenizeContent ''if SERVER'') True False = Some None"
  by code_simp

lemma operator_prefix_split: "map tk_type (TokenizeContent ''ordo'') = [TK_OR, TK_DO, TK_EOF]"
  by code_simp

end
