(* ===== verification/DatapackQueues.thy ===== *)
theory DatapackQueues
  imports LuaPackReach SlotQueues StubBudget
begin

text \<open>
  The per-client delivery state of \<^verbatim>\<open>gmoddatapack.cpp\<close> and the queue of pinned
  placeholders: \<^verbatim>\<open>EnqueuePinnedRequiredStub\<close> stages what a client requested,
  \<^verbatim>\<open>DrainRequiredStubQueues\<close> appends a bounded number per frame to the reliable
  streams, taking the clients in turn.  The module's globals are a record \<open>Datapack\<close> that is
  the engine part of the luapack component's world, so a callback of the engine may change both.
\<close>

section \<open>State\<close>

definition MAX_TRACKED_LUA_FILES :: nat where
  "MAX_TRACKED_LUA_FILES = push_bit 13 1"

record ClientRequiredStubQueue =
  rq_pending :: RequiredStubQueue
  rq_accepted :: u32
  rq_sent :: u32
  rq_duplicates :: u32
  rq_drainFrames :: u32
  rq_requestBatches :: u32
  rq_requestedFiles :: u32
  rq_peakDepth :: nat
  rq_requestBatchMilliseconds :: real
  rq_peakRequestBatchMilliseconds :: real
  rq_baselineFiles :: u32
  rq_baselinePublishedHashes :: u32
  rq_baselineCachedHashes :: u32
  rq_baselineComputedHashes :: u32
  rq_baselineOverrides :: u32
  rq_baselinePreparationMilliseconds :: real
  rq_engineServerInfoMilliseconds :: real

definition ClientRequiredStubQueue_fresh :: "RequiredStubQueue \<Rightarrow> ClientRequiredStubQueue" where
  "ClientRequiredStubQueue_fresh q =
     \<lparr>rq_pending = q, rq_accepted = 0, rq_sent = 0, rq_duplicates = 0, rq_drainFrames = 0,
      rq_requestBatches = 0, rq_requestedFiles = 0, rq_peakDepth = 0, rq_requestBatchMilliseconds = 0,
      rq_peakRequestBatchMilliseconds = 0, rq_baselineFiles = 0, rq_baselinePublishedHashes = 0,
      rq_baselineCachedHashes = 0, rq_baselineComputedHashes = 0, rq_baselineOverrides = 0,
      rq_baselinePreparationMilliseconds = 0, rq_engineServerInfoMilliseconds = 0\<rparr>"

definition ClientRequiredStubQueue_Reset :: "ClientRequiredStubQueue \<Rightarrow> ClientRequiredStubQueue" where
  "ClientRequiredStubQueue_Reset q =
     ClientRequiredStubQueue_fresh (RequiredStubQueue_Reset (rq_pending q))"

record PendingLuaPackServerInfo =
  ps_client :: "u64 option"
  ps_channel :: "u64 option"
  ps_userID :: int
  ps_clientChallenge :: int
  ps_queuedAt :: real
  ps_coalescedPolls :: u32

definition PendingLuaPackServerInfo_new :: PendingLuaPackServerInfo where
  "PendingLuaPackServerInfo_new =
     \<lparr>ps_client = None, ps_channel = None, ps_userID = 0, ps_clientChallenge = 0, ps_queuedAt = 0,
      ps_coalescedPolls = 0\<rparr>"

record 'x Datapack =
  dp_nativeHashes :: "int \<Rightarrow> int \<Rightarrow> u8 list option"
  dp_hashUpdatesPending :: "int \<Rightarrow> int \<Rightarrow> u8 list option"
  dp_pinnedFiles :: "int \<Rightarrow> PinnedCanonicalFileSet"
  dp_pinnedPayloads :: "int \<Rightarrow> u8 list option"
  dp_stubQueues :: "int \<Rightarrow> ClientRequiredStubQueue"
  dp_stubScheduler :: RoundRobinSlotScheduler
  dp_serverInfos :: "int \<Rightarrow> PendingLuaPackServerInfo"
  dp_serverInfoScheduler :: RoundRobinSlotScheduler
  dp_rest :: 'x

text \<open>The globals at load time, for \<open>limit\<close> player slots.\<close>

definition Datapack_new :: "nat \<Rightarrow> 'x \<Rightarrow> 'x Datapack" where
  "Datapack_new limit x =
     \<lparr>dp_nativeHashes = (\<lambda>_. Map.empty), dp_hashUpdatesPending = (\<lambda>_. Map.empty),
      dp_pinnedFiles = (\<lambda>_. PinnedCanonicalFileSet_new MAX_TRACKED_LUA_FILES),
      dp_pinnedPayloads = (\<lambda>_. None),
      dp_stubQueues = (\<lambda>_. ClientRequiredStubQueue_fresh (RequiredStubQueue_new MAX_TRACKED_LUA_FILES)),
      dp_stubScheduler = RoundRobinSlotScheduler_new limit,
      dp_serverInfos = (\<lambda>_. PendingLuaPackServerInfo_new),
      dp_serverInfoScheduler = RoundRobinSlotScheduler_new limit,
      dp_rest = x\<rparr>"

type_synonym 'x DpWorld = "'x Datapack World"

text \<open>
  What the module reads of the engine: a \<^verbatim>\<open>CBaseClient\<close> with the identities of its object
  and of its net channel, the reliable stream of a channel, and the string table
  \<^verbatim>\<open>client_lua_files\<close> (no table is \<open>None\<close>).
\<close>

record Session =
  se_client :: u64
  se_channel :: "u64 option"
  se_playerSlot :: int
  se_userID :: int
  se_clientChallenge :: int
  se_signonState :: int
  se_sendServerInfo :: bool
  se_active :: bool
  se_connected :: bool

record ('x, 'w) DpEngine =
  dpe_client :: "'x \<Rightarrow> int \<Rightarrow> Session option"
  dpe_reliable :: "'x \<Rightarrow> u64 \<Rightarrow> 'w"
  dpe_setReliable :: "u64 \<Rightarrow> 'w \<Rightarrow> 'x \<Rightarrow> 'x"
  dpe_strings :: "'x \<Rightarrow> string option list option"
  dpe_supportsCanonical :: "'x \<Rightarrow> bool"

definition with_dp :: "('x Datapack \<Rightarrow> 'x Datapack) \<Rightarrow> 'x DpWorld \<Rightarrow> 'x DpWorld" where
  "with_dp f w = w\<lparr>w_engine := f (w_engine w)\<rparr>"

abbreviation dp :: "'x DpWorld \<Rightarrow> 'x Datapack" where
  "dp w \<equiv> w_engine w"

definition upd_queue ::
  "int \<Rightarrow> (ClientRequiredStubQueue \<Rightarrow> ClientRequiredStubQueue) \<Rightarrow> 'x Datapack \<Rightarrow> 'x Datapack" where
  "upd_queue slot f d = d\<lparr>dp_stubQueues := (dp_stubQueues d)(slot := f (dp_stubQueues d slot))\<rparr>"

section \<open>Clearing a slot\<close>

definition ClearQueuedLuaPackServerInfo :: "'e Engine \<Rightarrow> int \<Rightarrow> 'x Datapack \<Rightarrow> 'x Datapack" where
  "ClearQueuedLuaPackServerInfo E slot d =
     (if \<not> IsValidSlot E slot then d
      else d\<lparr>dp_serverInfoScheduler := RoundRobinSlotScheduler_Unschedule slot (dp_serverInfoScheduler d),
             dp_serverInfos := (dp_serverInfos d)(slot := PendingLuaPackServerInfo_new)\<rparr>)"

definition ClearClientRequiredStubQueue :: "'e Engine \<Rightarrow> int \<Rightarrow> 'x Datapack \<Rightarrow> 'x Datapack" where
  "ClearClientRequiredStubQueue E slot d =
     (if \<not> IsValidSlot E slot then d
      else upd_queue slot ClientRequiredStubQueue_Reset
             (d\<lparr>dp_stubScheduler := RoundRobinSlotScheduler_Unschedule slot (dp_stubScheduler d)\<rparr>))"

definition ClearClientPinnedRequiredDeliveryState :: "'e Engine \<Rightarrow> int \<Rightarrow> 'x Datapack \<Rightarrow> 'x Datapack" where
  "ClearClientPinnedRequiredDeliveryState E slot d =
     (if \<not> IsValidSlot E slot then d
      else
        (let d1 = ClearClientRequiredStubQueue E slot d
         in d1\<lparr>dp_pinnedFiles := (dp_pinnedFiles d1)(slot := PinnedCanonicalFileSet_Reset (dp_pinnedFiles d1 slot)),
               dp_pinnedPayloads := (dp_pinnedPayloads d1)(slot := None)\<rparr>))"

definition ClearClientLuaDeliveryState :: "'e Engine \<Rightarrow> int \<Rightarrow> 'x Datapack \<Rightarrow> 'x Datapack" where
  "ClearClientLuaDeliveryState E slot d =
     (if IsValidSlot E slot
      then
        (let d1 = ClearQueuedLuaPackServerInfo E slot d
         in ClearClientPinnedRequiredDeliveryState E slot
              (d1\<lparr>dp_nativeHashes := (dp_nativeHashes d1)(slot := Map.empty),
                 dp_hashUpdatesPending := (dp_hashUpdatesPending d1)(slot := Map.empty)\<rparr>))
      else d)"

definition InvalidatePinnedCanonicalFileForAllClients :: "int \<Rightarrow> 'x Datapack \<Rightarrow> 'x Datapack" where
  "InvalidatePinnedCanonicalFileForAllClients fileID d =
     d\<lparr>dp_pinnedFiles := (\<lambda>slot. PinnedCanonicalFileSet_Invalidate fileID (dp_pinnedFiles d slot))\<rparr>"

definition ClearClientNativeLuaHashForAllClients ::
  "int \<Rightarrow> u8 list option \<Rightarrow> 'x Datapack \<Rightarrow> 'x Datapack" where
  "ClearClientNativeLuaHashForAllClients fileID publishedHash d =
     d\<lparr>dp_nativeHashes := (\<lambda>slot. (dp_nativeHashes d slot)(fileID := None)),
       dp_hashUpdatesPending := (\<lambda>slot.
         if dp_nativeHashes d slot fileID \<noteq> None \<or> dp_hashUpdatesPending d slot fileID \<noteq> None
         then (dp_hashUpdatesPending d slot)(fileID := publishedHash)
         else dp_hashUpdatesPending d slot)\<rparr>"

section \<open>Staging a placeholder\<close>

definition EnqueuePinnedRequiredStub ::
  "'e Engine \<Rightarrow> int \<Rightarrow> int \<Rightarrow> 'x Datapack \<Rightarrow> bool \<times> 'x Datapack" where
  "EnqueuePinnedRequiredStub E slot fileID d =
     (if \<not> IsValidSlot E slot then (False, d)
      else
        (case RequiredStubQueue_Enqueue fileID (rq_pending (dp_stubQueues d slot)) of
           (OutOfRange, _) \<Rightarrow> (False, d)
         | (AlreadyQueued, _) \<Rightarrow>
             (True, upd_queue slot (\<lambda>q. q\<lparr>rq_duplicates := rq_duplicates q + 1\<rparr>) d)
         | (Queued, pending) \<Rightarrow>
             (let d1 = upd_queue slot
                    (\<lambda>q. q\<lparr>rq_pending := pending, rq_accepted := rq_accepted q + 1,
                           rq_peakDepth := max (rq_peakDepth q) (RequiredStubQueue_Size pending)\<rparr>) d
              in (True,
                  if \<not> RoundRobinSlotScheduler_IsScheduled slot (dp_stubScheduler d1)
                  then d1\<lparr>dp_stubScheduler := snd (RoundRobinSlotScheduler_Schedule slot (dp_stubScheduler d1))\<rparr>
                  else d1))))"

definition HasPendingRequiredStubs :: "'e Engine \<Rightarrow> int \<Rightarrow> 'x Datapack \<Rightarrow> bool" where
  "HasPendingRequiredStubs E slot d \<longleftrightarrow>
     IsValidSlot E slot \<and> \<not> RequiredStubQueue_Empty (rq_pending (dp_stubQueues d slot))"

section \<open>Appending placeholders\<close>

definition svc_GMod_ServerToClient :: u32 where "svc_GMod_ServerToClient = 33"
definition LuaFileDownload :: u32 where "LuaFileDownload = 4"

definition DisconnectLuaHashFailure ::
  "'x Datapack Engine \<Rightarrow> ('x, 'w) DpEngine \<Rightarrow> int \<Rightarrow> string \<Rightarrow> 'x DpWorld \<Rightarrow> 'x DpWorld" where
  "DisconnectLuaHashFailure E X clientIdx fileName w =
     (case dpe_client X (dp_rest (dp w)) clientIdx of
        None \<Rightarrow> w
      | Some _ \<Rightarrow> eng_disconnect E clientIdx (''Lua delivery identity failed for '' @ fileName) w)"

text \<open>The decision for a placeholder and, if it can be appended, the channel.\<close>

definition PrepareCanonicalLuaStubAppend ::
  "'w BitWriter \<Rightarrow> ('x, 'w) DpEngine \<Rightarrow> int \<Rightarrow> u8 list \<Rightarrow> bool \<Rightarrow> bool \<Rightarrow> bool \<Rightarrow> 'x
     \<Rightarrow> RequiredStubDrainAction \<times> u64 option" where
  "PrepareCanonicalLuaStubAppend W X clientIdx compressed enabled canonicalRegistration filePinned x =
     (let client = dpe_client X x clientIdx;
          candidate = (case client of None \<Rightarrow> None | Some c \<Rightarrow> se_channel c);
          clientConnected =
            (case client of None \<Rightarrow> False
             | Some c \<Rightarrow> se_channel c \<noteq> None \<and> se_connected c \<and> se_playerSlot c = clientIdx);
          reliable = dpe_reliable X x (the candidate)
      in if clientConnected \<and> GetNumBitsLeft W reliable < 0 then (DrainReject, None)
         else
           (let action = SelectRequiredStubDrainAction enabled canonicalRegistration filePinned True
                  (of_nat (length compressed)) clientConnected
                  (clientConnected \<and> IsOverflowed W reliable)
                  (if clientConnected then of_int (GetNumBitsLeft W reliable) else 0)
            in (action, if action = DrainAppend then candidate else None)))"

definition AppendCanonicalLuaStubToChannel ::
  "'w BitWriter \<Rightarrow> ('x, 'w) DpEngine \<Rightarrow> u64 option \<Rightarrow> int \<Rightarrow> u8 list \<Rightarrow> 'x \<Rightarrow> bool \<times> 'x" where
  "AppendCanonicalLuaStubToChannel W X channel fileID compressed x =
     (case channel of
        None \<Rightarrow> (False, x)
      | Some ch \<Rightarrow>
          (let (appended, reliable) = AppendRequiredStubWire W (dpe_reliable X x ch)
                 svc_GMod_ServerToClient LuaFileDownload (of_int fileID) (Some compressed)
                 (of_nat (length compressed))
           in (appended, dpe_setReliable X ch reliable x)))"

section \<open>The drain of a frame\<close>

definition with_rest :: "('x \<Rightarrow> 'x) \<Rightarrow> 'x DpWorld \<Rightarrow> 'x DpWorld" where
  "with_rest f = with_dp (\<lambda>d. d\<lparr>dp_rest := f (dp_rest d)\<rparr>)"

definition schedule_stub :: "int \<Rightarrow> 'x DpWorld \<Rightarrow> 'x DpWorld" where
  "schedule_stub slot = with_dp (\<lambda>d. d\<lparr>dp_stubScheduler :=
     snd (RoundRobinSlotScheduler_Schedule slot (dp_stubScheduler d))\<rparr>)"

definition stub_action ::
  "'w BitWriter \<Rightarrow> ('x, 'w) DpEngine \<Rightarrow> int \<Rightarrow> 'x DpWorld
     \<Rightarrow> RequiredStubDrainAction \<times> u64 option" where
  "stub_action W X slot w =
     (case dp_pinnedPayloads (dp w) slot of
        None \<Rightarrow> (DrainReject, None)
      | Some payload \<Rightarrow>
          PrepareCanonicalLuaStubAppend W X slot payload (IsEnabled w) (dpe_supportsCanonical X (dp_rest (dp w)))
            (PinnedCanonicalFileSet_Contains (RequiredStubQueue_Front (rq_pending (dp_stubQueues (dp w) slot)))
              (dp_pinnedFiles (dp w) slot)) (dp_rest (dp w)))"

definition registered_name :: "('x, 'w) DpEngine \<Rightarrow> int \<Rightarrow> 'x \<Rightarrow> string" where
  "registered_name X fileID x =
     (case dpe_strings X x of
        None \<Rightarrow> ''?''
      | Some names \<Rightarrow>
          if 0 < fileID \<and> fileID < int (length names)
          then (case names ! nat fileID of None \<Rightarrow> ''?'' | Some n \<Rightarrow> n) else ''?'')"

text \<open>
  One placeholder of a slot that \<^verbatim>\<open>TakeNext\<close> returned: recorded and appended, or the client
  is disconnected and its queue dropped.
\<close>

definition stub_sent :: "bool \<Rightarrow> ClientRequiredStubQueue \<Rightarrow> ClientRequiredStubQueue" where
  "stub_sent advanced q =
     q\<lparr>rq_drainFrames := (if advanced then rq_drainFrames q else rq_drainFrames q + 1),
       rq_pending := RequiredStubQueue_Pop (rq_pending q), rq_sent := rq_sent q + 1\<rparr>"

definition send_stub ::
  "'w BitWriter \<Rightarrow> 'x Datapack Engine \<Rightarrow> ('x, 'w) DpEngine \<Rightarrow> int
     \<Rightarrow> RequiredStubDrainAction \<times> u64 option \<Rightarrow> 'x DpWorld \<Rightarrow> bool \<times> 'x DpWorld" where
  "send_stub W E X slot decision w =
     (if fst decision = DrainReject then (False, w)
      else
        (case RecordPinnedRequiredStubForClient E slot w of
           (recorded, w1) \<Rightarrow>
             if \<not> recorded then (False, w1)
             else
               (let (appended, x) = AppendCanonicalLuaStubToChannel W X (snd decision)
                      (RequiredStubQueue_Front (rq_pending (dp_stubQueues (dp w) slot)))
                      (the (dp_pinnedPayloads (dp w) slot)) (dp_rest (dp w1))
                in (appended, with_rest (\<lambda>_. x) w1))))"

definition stub_done :: "int \<Rightarrow> bool \<Rightarrow> 'x DpWorld \<Rightarrow> 'x DpWorld" where
  "stub_done slot advanced w =
     (let w1 = with_dp (upd_queue slot (stub_sent advanced)) w
      in if RequiredStubQueue_Empty (rq_pending (dp_stubQueues (dp w1) slot)) then w1
         else schedule_stub slot w1)"

definition stub_failed ::
  "'x Datapack Engine \<Rightarrow> ('x, 'w) DpEngine \<Rightarrow> int \<Rightarrow> 'x DpWorld \<Rightarrow> 'x DpWorld" where
  "stub_failed E X slot w =
     with_dp (ClearClientRequiredStubQueue E slot)
       (DisconnectLuaHashFailure E X slot
         (registered_name X (RequiredStubQueue_Front (rq_pending (dp_stubQueues (dp w) slot))) (dp_rest (dp w))) w)"

definition take_stub_slot :: "'x DpWorld \<Rightarrow> 'x DpWorld" where
  "take_stub_slot = with_dp (\<lambda>d. d\<lparr>dp_stubScheduler :=
     snd (RoundRobinSlotScheduler_TakeNext (dp_stubScheduler d))\<rparr>)"

partial_function (option) drain_stubs ::
  "'w BitWriter \<Rightarrow> 'x Datapack Engine \<Rightarrow> ('x, 'w) DpEngine \<Rightarrow> u32 \<Rightarrow> u32 \<Rightarrow> nat \<Rightarrow> int list
     \<Rightarrow> 'x DpWorld \<Rightarrow> 'x DpWorld option" where
  "drain_stubs W E X budget sentThisFrame consecutiveNoProgress advancedThisFrame w =
     (if \<not> (sentThisFrame < budget \<and> \<not> RoundRobinSlotScheduler_Empty (dp_stubScheduler (dp w))) then Some w
      else
        (let slot = fst (RoundRobinSlotScheduler_TakeNext (dp_stubScheduler (dp w)));
             w1 = take_stub_slot w
         in if \<not> IsValidSlot E slot \<or> RequiredStubQueue_Empty (rq_pending (dp_stubQueues (dp w1) slot))
            then drain_stubs W E X budget sentThisFrame consecutiveNoProgress advancedThisFrame w1
            else if fst (stub_action W X slot w1) = WaitForReliableSpace
            then
              (let w2 = schedule_stub slot w1
               in if RoundRobinSlotScheduler_Size (dp_stubScheduler (dp w2)) \<le> consecutiveNoProgress + 1
                  then Some w2
                  else drain_stubs W E X budget sentThisFrame (consecutiveNoProgress + 1) advancedThisFrame w2)
            else
              (let sent = send_stub W E X slot (stub_action W X slot w1) w1
               in if fst sent
                  then drain_stubs W E X budget (sentThisFrame + 1) 0 (List.insert slot advancedThisFrame)
                         (stub_done slot (slot \<in> set advancedThisFrame) (snd sent))
                  else drain_stubs W E X budget sentThisFrame 0 advancedThisFrame
                         (stub_failed E X slot (snd sent)))))"

definition DrainRequiredStubQueues ::
  "'w BitWriter \<Rightarrow> 'x Datapack Engine \<Rightarrow> ('x, 'w) DpEngine \<Rightarrow> int \<Rightarrow> 'x DpWorld \<Rightarrow> 'x DpWorld option" where
  "DrainRequiredStubQueues W E X required_stub_budget =
     drain_stubs W E X (of_int (max 1 required_stub_budget)) 0 0 []"

section \<open>The accounting of the placeholder queues\<close>

text \<open>
  A queue's files are the accepted ones that were not sent yet.  A slot is in the scheduler exactly
  when it has files to send, except the slots \<open>S\<close> the drain holds in its hands.
\<close>

definition queue_ok :: "ClientRequiredStubQueue \<Rightarrow> bool" where
  "queue_ok q \<longleftrightarrow> rsq_inv (rq_pending q) \<and> length (rsq_queued (rq_pending q)) = MAX_TRACKED_LUA_FILES \<and>
     rq_accepted q = rq_sent q + of_nat (length (rsq_files (rq_pending q))) \<and>
     length (rsq_files (rq_pending q)) \<le> rq_peakDepth q"

abbreviation stub_files :: "'x Datapack \<Rightarrow> int \<Rightarrow> int list" where
  "stub_files d slot \<equiv> rsq_files (rq_pending (dp_stubQueues d slot))"

definition stubs_ok :: "'e Engine \<Rightarrow> int set \<Rightarrow> 'x Datapack \<Rightarrow> bool" where
  "stubs_ok E S d \<longleftrightarrow>
     rrs_inv (dp_stubScheduler d) \<and> int (length (rrs_scheduled (dp_stubScheduler d))) = eng_playerLimit E \<and>
     (\<forall>slot. queue_ok (dp_stubQueues d slot)) \<and>
     (\<forall>slot. slot \<in> set (rrs_active (dp_stubScheduler d)) \<longleftrightarrow>
        slot \<notin> S \<and> IsValidSlot E slot \<and> stub_files d slot \<noteq> [])"

lemma queue_ok_fresh:
  "\<lbrakk>rsq_inv q; length (rsq_queued q) = MAX_TRACKED_LUA_FILES; rsq_files q = []\<rbrakk> \<Longrightarrow>
    queue_ok (ClientRequiredStubQueue_fresh q)"
  by (simp add: queue_ok_def ClientRequiredStubQueue_fresh_def)

lemma queue_ok_Reset: "queue_ok q \<Longrightarrow> queue_ok (ClientRequiredStubQueue_Reset q)"
  unfolding ClientRequiredStubQueue_Reset_def
  by (rule queue_ok_fresh) (simp_all add: queue_ok_def rsq_inv_Reset, simp_all add: RequiredStubQueue_Reset_def)

lemma stubs_ok_new:
  assumes "0 \<le> eng_playerLimit E"
  shows "stubs_ok E {} (Datapack_new (nat (eng_playerLimit E)) x)"
proof -
  have "queue_ok (ClientRequiredStubQueue_fresh (RequiredStubQueue_new MAX_TRACKED_LUA_FILES))"
    by (rule queue_ok_fresh [OF rsq_inv_new]) (simp_all add: RequiredStubQueue_new_def PinnedCanonicalFileSet_new_def)
  moreover have "rrs_active (RoundRobinSlotScheduler_new n) = []" "length (rrs_scheduled (RoundRobinSlotScheduler_new n)) = n" for n
    by (simp_all add: RoundRobinSlotScheduler_new_def)
  ultimately show ?thesis
    using assms by (simp add: stubs_ok_def Datapack_new_def ClientRequiredStubQueue_fresh_def RequiredStubQueue_new_def)
qed

text \<open>What the operations of a slot do to its files and to the scheduler.\<close>

lemma upd_queue_simps [simp]:
  "dp_stubQueues (upd_queue slot f d) s = (if s = slot then f (dp_stubQueues d slot) else dp_stubQueues d s)"
  "dp_stubScheduler (upd_queue slot f d) = dp_stubScheduler d"
  "dp_pinnedFiles (upd_queue slot f d) = dp_pinnedFiles d"
  "dp_pinnedPayloads (upd_queue slot f d) = dp_pinnedPayloads d"
  "dp_serverInfos (upd_queue slot f d) = dp_serverInfos d"
  "dp_serverInfoScheduler (upd_queue slot f d) = dp_serverInfoScheduler d"
  "dp_nativeHashes (upd_queue slot f d) = dp_nativeHashes d"
  "dp_hashUpdatesPending (upd_queue slot f d) = dp_hashUpdatesPending d"
  "dp_rest (upd_queue slot f d) = dp_rest d"
  by (simp_all add: upd_queue_def)

lemma Reset_files [simp]: "rsq_files (rq_pending (ClientRequiredStubQueue_Reset q)) = []"
  by (simp add: ClientRequiredStubQueue_Reset_def ClientRequiredStubQueue_fresh_def RequiredStubQueue_Reset_def)

lemma stubs_ok_cong:
  "\<lbrakk>stubs_ok E S d; dp_stubQueues d' = dp_stubQueues d; dp_stubScheduler d' = dp_stubScheduler d\<rbrakk> \<Longrightarrow>
    stubs_ok E S d'"
  by (simp add: stubs_ok_def)

lemma stubs_ok_clear:
  assumes "stubs_ok E S d"
  shows "stubs_ok E S (ClearClientRequiredStubQueue E slot d)"
proof (cases "IsValidSlot E slot")
  case True
  have inv: "rrs_inv (dp_stubScheduler d)" using assms by (simp add: stubs_ok_def)
  show ?thesis
    using assms True rrs.items_cancel [OF inv]
    by (auto simp: stubs_ok_def ClearClientRequiredStubQueue_def rrs_inv_Unschedule queue_ok_Reset)
qed (use assms in \<open>simp add: ClearClientRequiredStubQueue_def\<close>)

lemma stubs_ok_drop:
  assumes "stubs_ok E {slot} d"
  shows "stubs_ok E {} (ClearClientRequiredStubQueue E slot d)"
proof (cases "IsValidSlot E slot")
  case True
  show ?thesis
    using stubs_ok_clear [OF assms, of slot] True
    by (auto simp: stubs_ok_def ClearClientRequiredStubQueue_def)
next
  case False
  then show ?thesis using assms by (auto simp: stubs_ok_def ClearClientRequiredStubQueue_def)
qed

lemma stubs_ok_clear_state:
  "stubs_ok E S d \<Longrightarrow> stubs_ok E S (ClearClientPinnedRequiredDeliveryState E slot d)"
  by (simp add: ClearClientPinnedRequiredDeliveryState_def Let_def)
    (auto intro: stubs_ok_cong [OF stubs_ok_clear])

lemma stubs_ok_clear_all:
  "stubs_ok E S d \<Longrightarrow> stubs_ok E S (ClearClientLuaDeliveryState E slot d)"
  by (simp add: ClearClientLuaDeliveryState_def Let_def)
    (auto intro!: stubs_ok_clear_state elim: stubs_ok_cong simp: ClearQueuedLuaPackServerInfo_def)

lemma stubs_ok_take:
  assumes "stubs_ok E {} (dp w)" and "rrs_active (dp_stubScheduler (dp w)) = slot # rest"
  shows "stubs_ok E {slot} (dp (take_stub_slot w))"
    and "rrs_active (dp_stubScheduler (dp (take_stub_slot w))) = rest"
proof -
  have inv: "rrs_inv (dp_stubScheduler (dp w))" using assms(1) by (simp add: stubs_ok_def)
  show act: "rrs_active (dp_stubScheduler (dp (take_stub_slot w))) = rest"
    using rrs.items_deq [OF inv] assms(2) by (simp add: take_stub_slot_def with_dp_def)
  have "distinct (slot # rest)" using rrs.inv_items [OF inv] assms(2) by simp
  moreover have "s \<in> set (slot # rest) \<longleftrightarrow> IsValidSlot E s \<and> stub_files (dp w) s \<noteq> []" for s
    using assms unfolding stubs_ok_def by auto
  ultimately have "s \<in> set rest \<longleftrightarrow> s \<notin> {slot} \<and> IsValidSlot E s \<and> stub_files (dp w) s \<noteq> []" for s
    by auto
  then show "stubs_ok E {slot} (dp (take_stub_slot w))"
    using assms(1) act rrs_inv_TakeNext [OF inv]
    by (simp add: stubs_ok_def take_stub_slot_def with_dp_def)
qed

lemma valid_scheduled:
  "\<lbrakk>stubs_ok E S d; IsValidSlot E slot\<rbrakk> \<Longrightarrow> 0 \<le> slot \<and> slot < int (length (rrs_scheduled (dp_stubScheduler d)))"
  by (simp add: stubs_ok_def IsValidSlot_def)

lemma stubs_ok_schedule:
  assumes "stubs_ok E {slot} (dp w)" and "IsValidSlot E slot" and "stub_files (dp w) slot \<noteq> []"
  shows "stubs_ok E {} (dp (schedule_stub slot w))"
    and "rrs_active (dp_stubScheduler (dp (schedule_stub slot w))) = rrs_active (dp_stubScheduler (dp w)) @ [slot]"
proof -
  have inv: "rrs_inv (dp_stubScheduler (dp w))" and "slot \<notin> set (rrs_active (dp_stubScheduler (dp w)))"
    using assms(1) by (simp_all add: stubs_ok_def)
  then show act: "rrs_active (dp_stubScheduler (dp (schedule_stub slot w))) =
      rrs_active (dp_stubScheduler (dp w)) @ [slot]"
    using rrs.items_enq [OF inv, of slot] valid_scheduled [OF assms(1,2)]
    by (simp add: schedule_stub_def with_dp_def)
  show "stubs_ok E {} (dp (schedule_stub slot w))"
    using assms act rrs_inv_Schedule [OF inv, of slot]
    by (auto simp: stubs_ok_def schedule_stub_def with_dp_def)
qed

lemma queue_ok_sent:
  assumes "queue_ok q" and "rsq_files (rq_pending q) = f # fs"
  shows "queue_ok (stub_sent b q)" and "rsq_files (rq_pending (stub_sent b q)) = fs"
proof -
  show files: "rsq_files (rq_pending (stub_sent b q)) = fs"
    using assms(2) by (simp add: stub_sent_def RequiredStubQueue_Pop_def)
  have "length (rsq_queued (RequiredStubQueue_Pop (rq_pending q))) = length (rsq_queued (rq_pending q))"
    by (simp add: RequiredStubQueue_Pop_def split: list.split)
  then show "queue_ok (stub_sent b q)"
    using assms files by (simp add: queue_ok_def stub_sent_def rsq_inv_Pop)
qed

lemma stubs_ok_done:
  assumes "stubs_ok E {slot} (dp w)" and "IsValidSlot E slot" and "stub_files (dp w) slot = f # fs"
  shows "stubs_ok E {} (dp (stub_done slot b w))"
    and "length (rrs_active (dp_stubScheduler (dp (stub_done slot b w)))) \<le>
      Suc (length (rrs_active (dp_stubScheduler (dp w))))"
proof -
  let ?w1 = "with_dp (upd_queue slot (stub_sent b)) w"
  have q: "queue_ok (dp_stubQueues (dp w) slot)" using assms(1) by (simp add: stubs_ok_def)
  note sent = queue_ok_sent [OF q assms(3)]
  have ok: "stubs_ok E {slot} (dp ?w1)"
    using assms(1) sent(1) by (auto simp: stubs_ok_def with_dp_def)
  have files: "stub_files (dp ?w1) slot = fs" using sent(2) by (simp add: with_dp_def)
  have act: "rrs_active (dp_stubScheduler (dp ?w1)) = rrs_active (dp_stubScheduler (dp w))" by (simp add: with_dp_def)
  show "stubs_ok E {} (dp (stub_done slot b w))"
  proof (cases "fs = []")
    case True
    then have "stubs_ok E {} (dp ?w1)" using ok files by (auto simp: stubs_ok_def)
    then show ?thesis using True files by (simp add: stub_done_def Let_def RequiredStubQueue_Empty_def)
  next
    case False
    then show ?thesis using stubs_ok_schedule [OF ok assms(2)] files
      by (simp add: stub_done_def Let_def RequiredStubQueue_Empty_def)
  qed
  show "length (rrs_active (dp_stubScheduler (dp (stub_done slot b w)))) \<le>
      Suc (length (rrs_active (dp_stubScheduler (dp w))))"
    using stubs_ok_schedule(2) [OF ok assms(2)] files act
    by (cases "fs = []") (simp_all add: stub_done_def Let_def RequiredStubQueue_Empty_def)
qed

lemma stubs_ok_enqueue:
  assumes "stubs_ok E {} d"
  shows "stubs_ok E {} (snd (EnqueuePinnedRequiredStub E slot fileID d))"
proof (cases "IsValidSlot E slot")
  case True
  let ?q = "dp_stubQueues d slot"
  have q: "queue_ok ?q" and inv: "rrs_inv (dp_stubScheduler d)" using assms by (simp_all add: stubs_ok_def)
  then have pend: "rsq_inv (rq_pending ?q)" by (simp add: queue_ok_def)
  obtain r p where e: "RequiredStubQueue_Enqueue fileID (rq_pending ?q) = (r, p)" by fastforce
  show ?thesis
  proof (cases r)
    case Queued
    have p: "rsq_inv p" "length (rsq_queued p) = length (rsq_queued (rq_pending ?q))"
      using rsq_inv_Enqueue [OF pend, of fileID] length_rsq_queued(1) [of fileID "rq_pending ?q"] e by simp_all
    have files: "rsq_files p = rsq_files (rq_pending ?q) @ [fileID]"
      using e Queued by (auto simp: RequiredStubQueue_Enqueue_def split: if_splits)
    have "queue_ok (?q\<lparr>rq_pending := p, rq_accepted := rq_accepted ?q + 1,
        rq_peakDepth := max (rq_peakDepth ?q) (RequiredStubQueue_Size p)\<rparr>)"
      using q p files by (simp add: queue_ok_def RequiredStubQueue_Size_def)
    moreover have "slot \<in> set (rrs_active (dp_stubScheduler d)) \<longleftrightarrow> rsq_files (rq_pending ?q) \<noteq> []"
      using assms True by (simp add: stubs_ok_def)
    moreover have "RoundRobinSlotScheduler_IsScheduled slot (dp_stubScheduler d) \<longleftrightarrow>
        slot \<in> set (rrs_active (dp_stubScheduler d))" by (rule IsScheduled_iff [OF inv])
    ultimately show ?thesis
      using assms True e Queued files rrs.items_enq [OF inv, of slot] rrs_inv_Schedule [OF inv, of slot]
        valid_scheduled [OF assms True]
      by (auto simp: EnqueuePinnedRequiredStub_def stubs_ok_def Let_def)
  next
    case AlreadyQueued
    moreover have "queue_ok (?q\<lparr>rq_duplicates := rq_duplicates ?q + 1\<rparr>)" using q by (simp add: queue_ok_def)
    ultimately show ?thesis
      using assms True e by (auto simp: EnqueuePinnedRequiredStub_def stubs_ok_def)
  qed (use assms True e in \<open>simp add: EnqueuePinnedRequiredStub_def\<close>)
qed (use assms in \<open>simp add: EnqueuePinnedRequiredStub_def\<close>)

end
