(* ===== verification/StubDrain.thy ===== *)
theory StubDrain
  imports DatapackQueues LuaPackDemo
begin

text \<open>
  One frame of \<^verbatim>\<open>DrainRequiredStubQueues\<close>.  The loop is shown to be a run of three kinds
  of events: a placeholder sent, a client dropped, a client that waits for space on its stream.
  What the engine does in a disconnect is an argument; the hypothesis is that it calls back only
  the module's disconnect handler.
\<close>

section \<open>Disconnects\<close>

inductive dp_callback :: "'x Datapack Engine \<Rightarrow> 'x DpWorld \<Rightarrow> 'x DpWorld \<Rightarrow> bool" for E where
  cb_rest: "dp w' = (dp w)\<lparr>dp_rest := dp_rest (dp w')\<rparr> \<Longrightarrow> dp_callback E w w'"
| cb_cleared: "dp_callback E w (with_dp (ClearClientLuaDeliveryState E slot) w)"

definition disconnect_clears :: "'x Datapack Engine \<Rightarrow> bool" where
  "disconnect_clears E \<longleftrightarrow> (\<forall>slot m w. (dp_callback E)\<^sup>*\<^sup>* w (eng_disconnect E slot m w))"

abbreviation stub_active :: "'x Datapack \<Rightarrow> int list" where
  "stub_active d \<equiv> rrs_active (dp_stubScheduler d)"

lemma clear_active:
  assumes "stubs_ok E S d"
  shows "length (stub_active (ClearClientRequiredStubQueue E slot d)) \<le> length (stub_active d)"
    and "length (stub_active (ClearClientLuaDeliveryState E slot d)) \<le> length (stub_active d)"
proof -
  have inv: "rrs_inv (dp_stubScheduler d)" using assms by (simp add: stubs_ok_def)
  show "length (stub_active (ClearClientRequiredStubQueue E slot d)) \<le> length (stub_active d)"
    using rrs.items_cancel [OF inv] by (simp add: ClearClientRequiredStubQueue_def)
  show "length (stub_active (ClearClientLuaDeliveryState E slot d)) \<le> length (stub_active d)"
    using rrs.items_cancel [OF inv]
    by (simp add: ClearClientLuaDeliveryState_def ClearClientPinnedRequiredDeliveryState_def
        ClearClientRequiredStubQueue_def ClearQueuedLuaPackServerInfo_def Let_def)
qed

lemma callbacks_stubs:
  assumes "(dp_callback E)\<^sup>*\<^sup>* w w'" and "stubs_ok E S (dp w)"
  shows "stubs_ok E S (dp w') \<and> length (stub_active (dp w')) \<le> length (stub_active (dp w))"
  using assms(1)
proof (induction rule: rtranclp_induct)
  case base
  then show ?case using assms(2) by simp
next
  case (step w1 w2)
  from step(2) show ?case
  proof cases
    case cb_rest
    have "dp_stubQueues (dp w2) = dp_stubQueues (dp w1) \<and> dp_stubScheduler (dp w2) = dp_stubScheduler (dp w1)"
      by (subst cb_rest, subst (2) cb_rest) simp
    then show ?thesis using step(3) stubs_ok_cong by metis
  next
    case (cb_cleared slot)
    then show ?thesis
      using step(3) stubs_ok_clear_all [of E S "dp w1" slot] clear_active(2) [of E S "dp w1" slot]
      by (simp add: with_dp_def)
  qed
qed

lemma disconnect_stubs:
  assumes "disconnect_clears E" and "stubs_ok E S (dp w)"
  shows "stubs_ok E S (dp (DisconnectLuaHashFailure E X slot m w)) \<and>
    length (stub_active (dp (DisconnectLuaHashFailure E X slot m w))) \<le> length (stub_active (dp w))"
  using assms callbacks_stubs [of E w _ S]
  by (auto simp: DisconnectLuaHashFailure_def disconnect_clears_def split: option.split)

section \<open>Events of a frame\<close>

datatype stub_event = Sent int int | Dropped int | Waited int

inductive drain_event ::
  "'w BitWriter \<Rightarrow> 'x Datapack Engine \<Rightarrow> ('x, 'w) DpEngine \<Rightarrow> stub_event \<Rightarrow> 'x DpWorld \<Rightarrow> 'x DpWorld \<Rightarrow> bool"
  for W E X where
  ev_sent: "\<lbrakk>stub_active (dp w) = slot # rest; IsValidSlot E slot; stub_files (dp w) slot = f # fs;
      send_stub W E X slot (stub_action W X slot w) (take_stub_slot w) = (True, w2)\<rbrakk> \<Longrightarrow>
    drain_event W E X (Sent slot f) w (stub_done slot advanced w2)"
| ev_dropped: "\<lbrakk>stub_active (dp w) = slot # rest; IsValidSlot E slot; stub_files (dp w) slot = f # fs;
      send_stub W E X slot (stub_action W X slot w) (take_stub_slot w) = (False, w2);
      fst (stub_action W X slot w) \<noteq> WaitForReliableSpace\<rbrakk> \<Longrightarrow>
    drain_event W E X (Dropped slot) w (stub_failed E X slot w2)"
| ev_waited: "\<lbrakk>stub_active (dp w) = slot # rest; IsValidSlot E slot; stub_files (dp w) slot = f # fs;
      fst (stub_action W X slot w) = WaitForReliableSpace\<rbrakk> \<Longrightarrow>
    drain_event W E X (Waited slot) w (schedule_stub slot (take_stub_slot w))"

inductive drain_run ::
  "'w BitWriter \<Rightarrow> 'x Datapack Engine \<Rightarrow> ('x, 'w) DpEngine \<Rightarrow> stub_event list \<Rightarrow> 'x DpWorld \<Rightarrow> 'x DpWorld \<Rightarrow> bool"
  for W E X where
  run_end: "drain_run W E X [] w w"
| run_event: "\<lbrakk>drain_event W E X e w w1; drain_run W E X es w1 w2\<rbrakk> \<Longrightarrow> drain_run W E X (e # es) w w2"

definition sends :: "stub_event list \<Rightarrow> nat" where
  "sends es = length (filter (\<lambda>e. \<exists>slot f. e = Sent slot f) es)"

lemma sends_simps [simp]:
  "sends [] = 0" "sends (Sent s f # es) = Suc (sends es)" "sends (Dropped s # es) = sends es"
  "sends (Waited s # es) = sends es"
  by (simp_all add: sends_def)

text \<open>A client that cannot go on: its next placeholder does not fit its reliable stream now.\<close>

definition stub_waits ::
  "'w BitWriter \<Rightarrow> ('x, 'w) DpEngine \<Rightarrow> 'x DpWorld \<Rightarrow> int \<Rightarrow> bool" where
  "stub_waits W X w slot \<longleftrightarrow> fst (stub_action W X slot w) = WaitForReliableSpace"

lemma stub_action_scheduler [simp]:
  "stub_action W X slot (take_stub_slot w) = stub_action W X slot w"
  "stub_action W X slot (schedule_stub s w) = stub_action W X slot w"
  by (simp_all add: stub_action_def take_stub_slot_def schedule_stub_def with_dp_def IsEnabled_def
      split: option.split)

lemma dp_with [simp]: "dp (with_dp f w) = f (dp w)" "w_state (with_dp f w) = w_state w" "w_cvars (with_dp f w) = w_cvars w"
  by (simp_all add: with_dp_def)

lemma waits_scheduler [simp]:
  "stub_waits W X (schedule_stub s (take_stub_slot w)) slot = stub_waits W X w slot"
  by (simp add: stub_waits_def)

lemma send_stub_dp:
  assumes "send_stub W E X slot d w = (b, w1)"
  shows "\<exists>x. dp w1 = (dp w)\<lparr>dp_rest := x\<rparr>"
proof -
  obtain recorded w2 where r: "RecordPinnedRequiredStubForClient E slot w = (recorded, w2)" by fastforce
  then have "dp w2 = dp w"
    by (auto simp: RecordPinnedRequiredStubForClient_def Let_def set_client_def with_state_def split: if_splits)
  then show ?thesis
    using assms r by (cases "dp w") (auto simp: send_stub_def with_rest_def split: if_splits prod.splits)
qed

lemma stubs_ok_rest: "stubs_ok E S (d\<lparr>dp_rest := x\<rparr>) = stubs_ok E S d"
  by (simp add: stubs_ok_def)

text \<open>The events keep the accounting, and only a wait or a send puts a slot back in line.\<close>

lemma event_ok:
  assumes "disconnect_clears E" and "stubs_ok E {} (dp w)" and "drain_event W E X e w w'"
  shows "stubs_ok E {} (dp w')"
    and "\<forall>slot. e = Dropped slot \<longrightarrow> length (stub_active (dp w')) < length (stub_active (dp w))"
    and "\<forall>slot. e = Waited slot \<longrightarrow>
      (\<exists>rest. stub_active (dp w) = slot # rest \<and> stub_active (dp w') = rest @ [slot])"
proof -
  have "stubs_ok E {} (dp w') \<and> (\<forall>slot. e = Dropped slot \<longrightarrow> length (stub_active (dp w')) < length (stub_active (dp w))) \<and>
    (\<forall>slot. e = Waited slot \<longrightarrow> (\<exists>rest. stub_active (dp w) = slot # rest \<and> stub_active (dp w') = rest @ [slot]))"
    using assms(3)
  proof cases
    case (ev_sent slot rest f fs w2 advanced)
    note take = stubs_ok_take [OF assms(2) ev_sent(3)]
    obtain x where x: "dp w2 = (dp (take_stub_slot w))\<lparr>dp_rest := x\<rparr>" using send_stub_dp [OF ev_sent(6)] by blast
    then have "stubs_ok E {slot} (dp w2)" using take(1) by (simp add: stubs_ok_rest)
    moreover have "stub_files (dp w2) slot = f # fs" using ev_sent(5) x by (simp add: take_stub_slot_def)
    ultimately show ?thesis using stubs_ok_done(1) [OF _ ev_sent(4)] ev_sent(1,2) by auto
  next
    case (ev_dropped slot rest f fs w2)
    note take = stubs_ok_take [OF assms(2) ev_dropped(3)]
    obtain x where x: "dp w2 = (dp (take_stub_slot w))\<lparr>dp_rest := x\<rparr>" using send_stub_dp [OF ev_dropped(6)] by blast
    then have ok: "stubs_ok E {slot} (dp w2)" using take(1) by (simp add: stubs_ok_rest)
    let ?w3 = "DisconnectLuaHashFailure E X slot
        (registered_name X (RequiredStubQueue_Front (rq_pending (dp_stubQueues (dp w2) slot))) (dp_rest (dp w2))) w2"
    have d: "stubs_ok E {slot} (dp ?w3)" "length (stub_active (dp ?w3)) \<le> length (stub_active (dp w2))"
      using disconnect_stubs [OF assms(1) ok] by blast+
    have "length (stub_active (dp w2)) < length (stub_active (dp w))"
      using take(2) x ev_dropped(3) by (simp add: take_stub_slot_def)
    then show ?thesis
      using stubs_ok_drop [OF d(1)] clear_active(1) [OF d(1), of slot] d(2) ev_dropped(1,2)
      by (auto simp: stub_failed_def)
  next
    case (ev_waited slot rest f fs)
    note take = stubs_ok_take [OF assms(2) ev_waited(3)]
    have "stub_files (dp (take_stub_slot w)) slot \<noteq> []" using ev_waited(5) by (simp add: take_stub_slot_def)
    from stubs_ok_schedule [OF take(1) ev_waited(4) this] show ?thesis using take(2) ev_waited(1,2,3) by auto
  qed
  then show "stubs_ok E {} (dp w')"
    "\<forall>slot. e = Dropped slot \<longrightarrow> length (stub_active (dp w')) < length (stub_active (dp w))"
    "\<forall>slot. e = Waited slot \<longrightarrow>
      (\<exists>rest. stub_active (dp w) = slot # rest \<and> stub_active (dp w') = rest @ [slot])" by blast+
qed

text \<open>
  One pass of the loop is one event; the loop stops when the budget is used up, when no client has
  placeholders, or when every client in line waits.
\<close>

definition drain_stops ::
  "'w BitWriter \<Rightarrow> ('x, 'w) DpEngine \<Rightarrow> 'x DpWorld \<Rightarrow> bool" where
  "drain_stops W X w \<longleftrightarrow> (\<forall>slot \<in> set (stub_active (dp w)). stub_waits W X w slot)"

lemma TakeNext_fst: "rrs_active s = slot # rest \<Longrightarrow> fst (RoundRobinSlotScheduler_TakeNext s) = slot"
  by (simp add: RoundRobinSlotScheduler_TakeNext_def)

lemma drain_loop:
  assumes "disconnect_clears E" and "stubs_ok E {} (dp w)" and "sent \<le> budget"
    and "cons \<le> length (stub_active (dp w))"
    and "\<forall>slot \<in> set (drop (length (stub_active (dp w)) - cons) (stub_active (dp w))). stub_waits W X w slot"
  shows "\<exists>es w'. drain_stubs W E X budget sent cons advanced w = Some w' \<and> drain_run W E X es w w' \<and>
    unat sent + sends es \<le> unat budget \<and> (unat sent + sends es = unat budget \<or> drain_stops W X w')"
  using assms(2-5)
proof (induction "(unat budget - unat sent, length (stub_active (dp w)), length (stub_active (dp w)) - cons)"
    arbitrary: w sent cons advanced
    rule: wf_induct_rule [OF wf_lex_prod [OF wf_less_than wf_lex_prod [OF wf_less_than wf_less_than]]])
  case (1 w sent cons advanced)
  note IH = "1.hyps" and ok = "1.prems"(1) and sent = "1.prems"(2) and cons = "1.prems"(3) and tail = "1.prems"(4)
  let ?go = "\<lambda>r. \<exists>es w'. r = Some w' \<and> drain_run W E X es w w' \<and>
    unat sent + sends es \<le> unat budget \<and> (unat sent + sends es = unat budget \<or> drain_stops W X w')"
  show ?case
  proof (cases "sent < budget \<and> stub_active (dp w) \<noteq> []")
    case False
    then have "sent = budget \<or> drain_stops W X w" using sent by (auto simp: drain_stops_def)
    moreover have "drain_stubs W E X budget sent cons advanced w = Some w"
      using False by (subst drain_stubs.simps) (auto simp: RoundRobinSlotScheduler_Empty_def)
    ultimately show ?thesis using sent run_end [of W E X w] by (fastforce simp: word_le_nat_alt)
  next
    case True
    then obtain slot rest where act: "stub_active (dp w) = slot # rest" by (cases "stub_active (dp w)") auto
    then have valid: "IsValidSlot E slot" and "stub_files (dp w) slot \<noteq> []"
      using ok by (auto simp: stubs_ok_def)
    then obtain f fs where files: "stub_files (dp w) slot = f # fs" by (cases "stub_files (dp w) slot") auto
    then have ne: "\<not> RequiredStubQueue_Empty (rq_pending (dp_stubQueues (dp (take_stub_slot w)) slot))"
      by (simp add: RequiredStubQueue_Empty_def take_stub_slot_def)
    note take = stubs_ok_take [OF ok act]
    have lt: "unat sent < unat budget" using True by (simp add: word_less_nat_alt)
    have body: "drain_stubs W E X budget sent cons advanced w =
      (if fst (stub_action W X slot w) = WaitForReliableSpace
       then (if length (stub_active (dp (schedule_stub slot (take_stub_slot w)))) \<le> cons + 1
             then Some (schedule_stub slot (take_stub_slot w))
             else drain_stubs W E X budget sent (cons + 1) advanced (schedule_stub slot (take_stub_slot w)))
       else if fst (send_stub W E X slot (stub_action W X slot w) (take_stub_slot w))
       then drain_stubs W E X budget (sent + 1) 0 (List.insert slot advanced)
              (stub_done slot (slot \<in> set advanced) (snd (send_stub W E X slot (stub_action W X slot w) (take_stub_slot w))))
       else drain_stubs W E X budget sent 0 advanced
              (stub_failed E X slot (snd (send_stub W E X slot (stub_action W X slot w) (take_stub_slot w)))))"
      using True valid ne TakeNext_fst [OF act]
      by (subst drain_stubs.simps) (simp add: Let_def RoundRobinSlotScheduler_Empty_def RoundRobinSlotScheduler_Size_def)
    have continue: "?go (drain_stubs W E X budget sent' cons' advanced' w1)"
      if ev: "drain_event W E X e w w1" and s: "unat sent' = unat sent + sends [e]" "unat sent' \<le> unat budget"
        and c: "cons' \<le> length (stub_active (dp w1))"
        and t: "\<forall>slot \<in> set (drop (length (stub_active (dp w1)) - cons') (stub_active (dp w1))). stub_waits W X w1 slot"
        and m: "((unat budget - unat sent', length (stub_active (dp w1)), length (stub_active (dp w1)) - cons'),
          (unat budget - unat sent, length (stub_active (dp w)), length (stub_active (dp w)) - cons))
          \<in> less_than <*lex*> less_than <*lex*> less_than"
      for e w1 sent' cons' advanced'
    proof -
      from IH [OF m event_ok(1) [OF assms(1) ok ev] _ c t, of advanced'] s(2) obtain es w' where
        r: "drain_stubs W E X budget sent' cons' advanced' w1 = Some w'" "drain_run W E X es w1 w'"
          "unat sent' + sends es \<le> unat budget" "unat sent' + sends es = unat budget \<or> drain_stops W X w'"
        by (auto simp: word_le_nat_alt)
      have "sends (e # es) = sends [e] + sends es" by (simp add: sends_def)
      then show ?thesis using r s(1) run_event [OF ev r(2)]
        by (intro exI [of _ "e # es"] exI [of _ w']) (simp add: add.assoc)
    qed
    show ?thesis
    proof (cases "fst (stub_action W X slot w) = WaitForReliableSpace")
      case wait: True
      let ?w1 = "schedule_stub slot (take_stub_slot w)"
      have ev: "drain_event W E X (Waited slot) w ?w1" by (rule ev_waited [OF act valid files wait])
      then have act1: "stub_active (dp ?w1) = rest @ [slot]" using event_ok(3) [OF assms(1) ok ev] act by auto
      have waits: "\<forall>s \<in> set (drop (length rest - cons) (rest @ [slot])). stub_waits W X ?w1 s"
      proof -
        have "drop (length rest - cons) rest = drop (length (stub_active (dp w)) - cons) (stub_active (dp w)) \<or>
          length rest < cons"
          using act by (cases "length rest < cons") (simp_all add: Suc_diff_le)
        then have "\<forall>s \<in> set (drop (length rest - cons) rest). stub_waits W X w s"
          using tail act by auto
        moreover have "stub_waits W X w slot" using wait by (simp add: stub_waits_def)
        ultimately show ?thesis by auto
      qed
      show ?thesis
      proof (cases "length rest \<le> cons")
        case stop: True
        then have "drain_stops W X ?w1" using waits act1 by (simp add: drain_stops_def)
        moreover have "drain_run W E X [Waited slot] w ?w1" using run_event [OF ev run_end] .
        ultimately show ?thesis unfolding body using wait act1 stop lt
          by (intro exI [of _ "[Waited slot]"] exI [of _ ?w1]) simp
      next
        case False
        then have "length (stub_active (dp ?w1)) - (cons + 1) = length rest - cons" using act1 by simp
        with continue [OF ev, of sent "cons + 1" advanced] show ?thesis
          unfolding body using wait act1 act False waits lt by simp
      qed
    next
      case no_wait: False
      obtain b w2 where s: "send_stub W E X slot (stub_action W X slot w) (take_stub_slot w) = (b, w2)" by fastforce
      show ?thesis
      proof (cases b)
        case b: True
        have ev: "drain_event W E X (Sent slot f) w (stub_done slot (slot \<in> set advanced) w2)"
          by (rule ev_sent [OF act valid files]) (use s b in simp)
        have u: "unat (sent + 1) = unat sent + 1" 
          using lt unat_bound [of budget] by (subst unat_add_no_overflow) simp_all
        have "unat budget - Suc (unat sent) < unat budget - unat sent" using lt by linarith
        then show ?thesis
          unfolding body using continue [OF ev, of "sent + 1" 0] no_wait s b lt u by simp
      next
        case b: False
        have ev: "drain_event W E X (Dropped slot) w (stub_failed E X slot w2)"
          by (rule ev_dropped [OF act valid files]) (use s b no_wait in simp_all)
        then have "length (stub_active (dp (stub_failed E X slot w2))) < length (stub_active (dp w))"
          using event_ok(2) [OF assms(1) ok ev] by blast
        then show ?thesis
          unfolding body using continue [OF ev, of sent 0] no_wait s b lt by simp
      qed
    qed
  qed
qed

section \<open>What a client receives\<close>

text \<open>
  Laws of the engine: a channel's stream is a variable of its own and belongs to one client.
\<close>

definition stream_laws :: "('x, 'w) DpEngine \<Rightarrow> bool" where
  "stream_laws X \<longleftrightarrow>
     (\<forall>c s x. dpe_reliable X (dpe_setReliable X c s x) = (dpe_reliable X x)(c := s)) \<and>
     (\<forall>c s x. dpe_client X (dpe_setReliable X c s x) = dpe_client X x) \<and>
     (\<forall>x s s' k k' c. dpe_client X x s = Some k \<and> dpe_client X x s' = Some k' \<and>
        se_channel k = Some c \<and> se_channel k' = Some c \<longrightarrow> s = s')"

definition slot_view :: "('x, 'w) DpEngine \<Rightarrow> int \<Rightarrow> 'x DpWorld \<Rightarrow>
    ClientRequiredStubQueue \<times> PinnedCanonicalFileSet \<times> u8 list option \<times> Session option \<times> 'w option" where
  "slot_view X slot w =
     (let client = dpe_client X (dp_rest (dp w)) slot
      in (dp_stubQueues (dp w) slot, dp_pinnedFiles (dp w) slot, dp_pinnedPayloads (dp w) slot, client,
          map_option (dpe_reliable X (dp_rest (dp w)))
            (case client of None \<Rightarrow> None | Some k \<Rightarrow> se_channel k)))"

lemma slot_view_scheduler [simp]:
  "slot_view X s (take_stub_slot w) = slot_view X s w"
  "slot_view X s (schedule_stub slot w) = slot_view X s w"
  by (simp_all add: slot_view_def take_stub_slot_def schedule_stub_def)

lemma slot_view_clear:
  "s \<noteq> slot \<Longrightarrow> slot_view X s (with_dp (ClearClientRequiredStubQueue E slot) w) = slot_view X s w"
  by (simp add: slot_view_def ClearClientRequiredStubQueue_def)

text \<open>The file a slot's view has at the head of its queue, and its stream.\<close>

definition slot_state ::
  "('w \<Rightarrow> bool list) \<Rightarrow> ('x, 'w) DpEngine \<Rightarrow> int \<Rightarrow> u64 \<Rightarrow> u8 list \<Rightarrow> 'x DpWorld \<Rightarrow> 'w \<Rightarrow> int list \<Rightarrow> bool" where
  "slot_state bits X slot c payload w stream files \<longleftrightarrow>
     dp_pinnedPayloads (dp w) slot = Some payload \<and>
     (\<exists>k. dpe_client X (dp_rest (dp w)) slot = Some k \<and> se_channel k = Some c) \<and>
     dpe_reliable X (dp_rest (dp w)) c = stream \<and> stub_files (dp w) slot = files"

lemma slot_state_cong:
  "\<lbrakk>slot_state bits X slot c payload w stream files; slot_view X slot w' = slot_view X slot w\<rbrakk> \<Longrightarrow>
    slot_state bits X slot c payload w' stream files"
  by (auto simp: slot_state_def slot_view_def Let_def)

lemma send_stub_True:
  assumes "send_stub W E X slot d w = (True, w1)"
  shows "\<exists>ch stream x. fst d \<noteq> DrainReject \<and> snd d = Some ch \<and>
    AppendRequiredStubWire W (dpe_reliable X (dp_rest (dp w)) ch) svc_GMod_ServerToClient LuaFileDownload
      (of_int (RequiredStubQueue_Front (rq_pending (dp_stubQueues (dp w) slot))))
      (Some (the (dp_pinnedPayloads (dp w) slot)))
      (of_nat (length (the (dp_pinnedPayloads (dp w) slot)))) = (True, stream) \<and>
    dp w1 = (dp w)\<lparr>dp_rest := dpe_setReliable X ch stream (dp_rest (dp w))\<rparr>"
proof -
  obtain recorded w2 where r: "RecordPinnedRequiredStubForClient E slot w = (recorded, w2)" by fastforce
  then have "dp w2 = dp w"
    by (auto simp: RecordPinnedRequiredStubForClient_def Let_def set_client_def with_state_def split: if_splits)
  then show ?thesis
    using assms r
    by (auto simp: send_stub_def with_rest_def AppendCanonicalLuaStubToChannel_def split: if_splits option.splits prod.splits)
qed

lemma stub_action_append:
  assumes "snd (stub_action W X slot w) = Some ch"
  shows "\<exists>payload k. dp_pinnedPayloads (dp w) slot = Some payload \<and>
    dpe_client X (dp_rest (dp w)) slot = Some k \<and> se_channel k = Some ch \<and>
    0 \<le> GetNumBitsLeft W (dpe_reliable X (dp_rest (dp w)) ch) \<and>
    CanAppendRequiredStub (IsOverflowed W (dpe_reliable X (dp_rest (dp w)) ch))
      (of_int (GetNumBitsLeft W (dpe_reliable X (dp_rest (dp w)) ch))) (of_nat (length payload))"
  using assms
  by (auto simp: stub_action_def PrepareCanonicalLuaStubAppend_def Let_def SelectRequiredStubDrainAction_Append_iff
      split: option.splits if_splits)

abbreviation stub_msg :: "int \<Rightarrow> u8 list \<Rightarrow> bool list" where
  "stub_msg f payload \<equiv> stub_record svc_GMod_ServerToClient LuaFileDownload (of_int f) payload"

lemma stubs_ok_file:
  assumes "stubs_ok E S d" and "f \<in> set (stub_files d slot)"
  shows "0 \<le> f \<and> f < 8192"
proof -
  have q: "queue_ok (dp_stubQueues d slot)" using assms(1) by (simp add: stubs_ok_def)
  then have "rsq_inv (rq_pending (dp_stubQueues d slot))" by (simp add: queue_ok_def)
  from rsq.inv_items [OF this] q assms(2) show ?thesis
    by (auto simp: queue_ok_def MAX_TRACKED_LUA_FILES_def)
qed

lemma slot_view_done:
  "s \<noteq> slot \<Longrightarrow> slot_view X s (stub_done slot b w) = slot_view X s w"
  by (simp add: stub_done_def Let_def) (simp add: slot_view_def schedule_stub_def)

lemma stub_done_dp:
  "dp_pinnedPayloads (dp (stub_done slot b w)) = dp_pinnedPayloads (dp w)"
  "dp_rest (dp (stub_done slot b w)) = dp_rest (dp w)"
  "stub_files (dp (stub_done slot b w)) slot = tl (stub_files (dp w) slot)"
  by (simp_all add: stub_done_def Let_def schedule_stub_def stub_sent_def RequiredStubQueue_Pop_simps)

lemma sent_state:
  assumes X: "stream_laws X" and st: "slot_state bits X slot c payload w stream (f # fs)"
    and ev: "drain_event W E X (Sent slot f') w w'"
  shows "\<exists>stream'. slot_state bits X slot c payload w' stream' fs"
  using ev
proof cases
  case (ev_sent rest fs' w2 advanced)
  from send_stub_True [OF ev_sent(5)] obtain ch stream' where
    "dp w2 = (dp (take_stub_slot w))\<lparr>dp_rest := dpe_setReliable X ch stream' (dp_rest (dp w))\<rparr>"
    by (auto simp: take_stub_slot_def)
  moreover have "tl (stub_files (dp w) slot) = fs" using st by (simp add: slot_state_def)
  ultimately show ?thesis
    using st X ev_sent(1) by (auto simp: slot_state_def stream_laws_def stub_done_dp take_stub_slot_def)
qed

lemma sent_own:
  assumes W: "bit_writer W bits room" and X: "stream_laws X" and ok: "stubs_ok E {} (dp w)"
    and st: "slot_state bits X slot c payload w stream files"
    and len: "length payload < 2 ^ 32" and r: "room stream < 2 ^ 31"
    and ev: "drain_event W E X (Sent slot f) w w'"
  shows "\<exists>stream' fs. files = f # fs \<and> slot_state bits X slot c payload w' stream' fs \<and>
    appended W bits room stream (stub_msg f payload) stream'"
  using ev
proof cases
  case (ev_sent rest fs w2 advanced)
  from send_stub_True [OF ev_sent(5)] obtain ch stream' where s: "snd (stub_action W X slot w) = Some ch"
    "AppendRequiredStubWire W (dpe_reliable X (dp_rest (dp w)) ch) svc_GMod_ServerToClient LuaFileDownload
      (of_int f) (Some payload) (of_nat (length payload)) = (True, stream')"
    "dp w2 = (dp (take_stub_slot w))\<lparr>dp_rest := dpe_setReliable X ch stream' (dp_rest (dp w))\<rparr>"
    using ev_sent(4) st by (auto simp: take_stub_slot_def RequiredStubQueue_Front_def slot_state_def)
  from stub_action_append [OF s(1)] st have ch: "ch = c" and can: "0 \<le> GetNumBitsLeft W stream"
    "CanAppendRequiredStub (IsOverflowed W stream) (of_int (GetNumBitsLeft W stream)) (of_nat (length payload))"
    by (auto simp: slot_state_def)
  have left: "GetNumBitsLeft W stream = int (room stream)"
    using can(2) bit_writer.bits_left [OF W] by (auto simp: CanAppendRequiredStub_def Let_def)
  have "0 \<le> f \<and> f < 8192" using stubs_ok_file [OF ok, of f slot] ev_sent(4) by simp
  then have "unat (of_int f :: u32) < 65536" by (auto simp: unat_eq_nat_uint uint_word_of_int nat_less_iff)
  then have fields: "stub_fields svc_GMod_ServerToClient LuaFileDownload (of_int f)"
    by (simp add: stub_fields_def svc_GMod_ServerToClient_def LuaFileDownload_def)
  have "length payload = unat (of_nat (length payload) :: size_t)"
    using len by (subst unat_of_nat_small) simp_all
  from bit_writer.stub_accepted [OF W fields _ r this] can(2) left s(2) ch st
  have app: "appended W bits room stream (stub_msg f payload) stream'"
    by (auto simp: slot_state_def)
  have "tl (stub_files (dp w) slot) = fs" using ev_sent(4) by simp
  then have "slot_state bits X slot c payload w' stream' fs"
    using st X s(3) ch ev_sent(1) by (auto simp: slot_state_def stream_laws_def stub_done_dp take_stub_slot_def)
  then show ?thesis using app ev_sent(4) st by (auto simp: slot_state_def)
qed

lemma send_other:
  assumes X: "stream_laws X" and ne: "s \<noteq> slot"
    and send: "send_stub W E X slot (stub_action W X slot w) (take_stub_slot w) = (b, w2)"
  shows "slot_view X s w2 = slot_view X s w"
proof -
  obtain recorded w1 where r: "RecordPinnedRequiredStubForClient E slot (take_stub_slot w) = (recorded, w1)" by fastforce
  then have "dp w1 = dp (take_stub_slot w)"
    by (auto simp: RecordPinnedRequiredStubForClient_def Let_def set_client_def with_state_def split: if_splits)
  then consider "dp w2 = dp (take_stub_slot w)"
    | ch stream' where "snd (stub_action W X slot w) = Some ch"
      "dp w2 = (dp (take_stub_slot w))\<lparr>dp_rest := dpe_setReliable X ch stream' (dp_rest (dp w))\<rparr>"
    using send r
    by (fastforce simp: send_stub_def with_rest_def AppendCanonicalLuaStubToChannel_def take_stub_slot_def
        split: if_splits option.splits prod.splits)
  then show ?thesis
  proof cases
    case 1
    then show ?thesis by (simp add: slot_view_def take_stub_slot_def)
  next
    case 2
    obtain k where k: "dpe_client X (dp_rest (dp w)) slot = Some k" "se_channel k = Some ch"
      using stub_action_append [OF 2(1)] by blast
    have "d \<noteq> ch" if "dpe_client X (dp_rest (dp w)) s = Some k'" "se_channel k' = Some d" for k' d
      using that k X ne unfolding stream_laws_def by blast
    moreover have "dpe_client X (dpe_setReliable X ch stream' (dp_rest (dp w))) = dpe_client X (dp_rest (dp w))"
      "dpe_reliable X (dpe_setReliable X ch stream' (dp_rest (dp w))) = (dpe_reliable X (dp_rest (dp w)))(ch := stream')"
      using X unfolding stream_laws_def by blast+
    ultimately show ?thesis
      using 2(2) by (cases "dpe_client X (dp_rest (dp w)) s"; cases "se_channel (the (dpe_client X (dp_rest (dp w)) s))")
        (auto simp: slot_view_def take_stub_slot_def Let_def)
  qed
qed

text \<open>The bounds of a stream and of a payload: a stream holds less than \<open>2 ^ 31\<close> bits.\<close>

definition slot_sized :: "('w \<Rightarrow> nat) \<Rightarrow> ('x, 'w) DpEngine \<Rightarrow> int \<Rightarrow> 'x DpWorld \<Rightarrow> bool" where
  "slot_sized room X slot w \<longleftrightarrow>
     (\<forall>payload. dp_pinnedPayloads (dp w) slot = Some payload \<longrightarrow> length payload < 2 ^ 32) \<and>
     (\<forall>k c. dpe_client X (dp_rest (dp w)) slot = Some k \<and> se_channel k = Some c \<longrightarrow>
        room (dpe_reliable X (dp_rest (dp w)) c) < 2 ^ 31)"

text \<open>
  A placeholder is refused: its client's queue is not usable, or its lane is not the required one.
  A refusal writes nothing.
\<close>

definition stub_refused ::
  "'w BitWriter \<Rightarrow> 'x Datapack Engine \<Rightarrow> ('x, 'w) DpEngine \<Rightarrow> int \<Rightarrow> 'x DpWorld \<Rightarrow> bool" where
  "stub_refused W E X slot w \<longleftrightarrow> fst (stub_action W X slot w) = DrainReject \<or>
     \<not> IsEnabled w \<or> ClientLane (client_of w slot) \<noteq> RequiredLane \<or> cp_generation (client_of w slot) = ''''"

lemma take_world [simp]:
  "IsEnabled (take_stub_slot w) = IsEnabled w" "client_of (take_stub_slot w) slot = client_of w slot"
  "slot_view X s (take_stub_slot w) = slot_view X s w" "dp_rest (dp (take_stub_slot w)) = dp_rest (dp w)"
  "dp_stubQueues (dp (take_stub_slot w)) = dp_stubQueues (dp w)"
  "dp_pinnedPayloads (dp (take_stub_slot w)) = dp_pinnedPayloads (dp w)"
  by (simp_all add: IsEnabled_def client_of_def take_stub_slot_def slot_view_def)

lemma stub_action_channel:
  "fst (stub_action W X slot w) = DrainAppend \<Longrightarrow> \<exists>ch. snd (stub_action W X slot w) = Some ch"
  by (auto simp: stub_action_def PrepareCanonicalLuaStubAppend_def Let_def SelectRequiredStubDrainAction_Append_iff
      split: option.splits if_splits)

lemma send_refused:
  assumes W: "bit_writer W bits room" and ok: "stubs_ok E {} (dp w)" and files: "stub_files (dp w) slot = f # fs"
    and valid: "IsValidSlot E slot" and sized: "slot_sized room X slot w"
    and wait: "fst (stub_action W X slot w) \<noteq> WaitForReliableSpace"
    and send: "send_stub W E X slot (stub_action W X slot w) (take_stub_slot w) = (False, w2)"
  shows "stub_refused W E X slot w \<and> slot_view X slot w2 = slot_view X slot w"
proof -
  obtain recorded w1 where r: "RecordPinnedRequiredStubForClient E slot (take_stub_slot w) = (recorded, w1)" by fastforce
  then have d1: "dp w1 = dp (take_stub_slot w)"
    by (auto simp: RecordPinnedRequiredStubForClient_def Let_def set_client_def with_state_def split: if_splits)
  show ?thesis
  proof (cases "fst (stub_action W X slot w) = DrainReject \<or> \<not> recorded")
    case True
    then have "dp w2 = dp (take_stub_slot w)"
      using send r d1 by (cases "fst (stub_action W X slot w) = DrainReject") (auto simp: send_stub_def)
    then have "slot_view X slot w2 = slot_view X slot w" by (simp add: slot_view_def take_stub_slot_def)
    moreover have "stub_refused W E X slot w"
      using True r valid by (auto simp: stub_refused_def RecordPinnedRequiredStubForClient_def Let_def split: if_splits)
    ultimately show ?thesis by blast
  next
    case False
    then have act: "fst (stub_action W X slot w) = DrainAppend" and rec: "recorded"
      using wait by (cases "fst (stub_action W X slot w)"; simp)+
    obtain ch where ch: "snd (stub_action W X slot w) = Some ch" using stub_action_channel [OF act] by blast
    obtain payload k where p: "dp_pinnedPayloads (dp w) slot = Some payload"
      "dpe_client X (dp_rest (dp w)) slot = Some k" "se_channel k = Some ch"
      "CanAppendRequiredStub (IsOverflowed W (dpe_reliable X (dp_rest (dp w)) ch))
        (of_int (GetNumBitsLeft W (dpe_reliable X (dp_rest (dp w)) ch))) (of_nat (length payload))"
      using stub_action_append [OF ch] by blast
    let ?s = "dpe_reliable X (dp_rest (dp w)) ch"
    have left: "GetNumBitsLeft W ?s = int (room ?s)"
      using p(4) bit_writer.bits_left [OF W] by (auto simp: CanAppendRequiredStub_def Let_def)
    have small: "length payload < 2 ^ 32" "room ?s < 2 ^ 31" using sized p unfolding slot_sized_def by blast+
    have "0 \<le> f \<and> f < 8192" using stubs_ok_file [OF ok, of f slot] files by simp
    then have "unat (of_int f :: u32) < 65536" by (auto simp: unat_eq_nat_uint uint_word_of_int nat_less_iff)
    then have fields: "stub_fields svc_GMod_ServerToClient LuaFileDownload (of_int f)"
      by (simp add: stub_fields_def svc_GMod_ServerToClient_def LuaFileDownload_def)
    have "length payload = unat (of_nat (length payload) :: size_t)"
      using small(1) by (subst unat_of_nat_small) simp_all
    from bit_writer.stub_accepted [OF W fields _ small(2) this] p(4) left
    have "fst (AppendRequiredStubWire W ?s svc_GMod_ServerToClient LuaFileDownload (of_int f) (Some payload)
        (of_nat (length payload)))" by auto
    then have False
      using send r rec act ch p(1) files d1
      by (auto simp: send_stub_def AppendCanonicalLuaStubToChannel_def RequiredStubQueue_Front_def Let_def
          split: prod.splits)
    then show ?thesis ..
  qed
qed

section \<open>The contract of a frame\<close>

text \<open>
  What one event does to the clients.  A placeholder that is sent is the first file of its client's
  queue; its record is appended to that client's stream and the file leaves the queue.  A client
  that waits keeps everything.  A client is dropped only if its placeholder is refused: it still
  has its stream and its whole queue when the engine is told to disconnect it by name, and only then
  the queue is cleared.  In each case every other client keeps its stream and queue, up to the
  disconnect.
\<close>

inductive delivery_event ::
  "'w BitWriter \<Rightarrow> ('w \<Rightarrow> bool list) \<Rightarrow> ('w \<Rightarrow> nat) \<Rightarrow> 'x Datapack Engine \<Rightarrow> ('x, 'w) DpEngine \<Rightarrow>
     stub_event \<Rightarrow> 'x DpWorld \<Rightarrow> 'x DpWorld \<Rightarrow> bool"
  for W bits room E X where
  dl_sent: "\<lbrakk>slot_state bits X slot c payload w stream (f # fs); slot_state bits X slot c payload w' stream' fs;
      slot_sized room X slot w \<longrightarrow> appended W bits room stream (stub_msg f payload) stream';
      \<forall>s. s \<noteq> slot \<longrightarrow> slot_view X s w' = slot_view X s w\<rbrakk> \<Longrightarrow>
    delivery_event W bits room E X (Sent slot f) w w'"
| dl_waited: "\<lbrakk>stub_files (dp w) slot \<noteq> []; stub_waits W X w slot; \<forall>s. slot_view X s w' = slot_view X s w\<rbrakk> \<Longrightarrow>
    delivery_event W bits room E X (Waited slot) w w'"
| dl_dropped: "\<lbrakk>stub_files (dp w) slot = f # fs; stub_files (dp v) slot = f # fs;
      \<forall>s. s \<noteq> slot \<longrightarrow> slot_view X s v = slot_view X s w;
      slot_sized room X slot w \<longrightarrow> stub_refused W E X slot w \<and> slot_view X slot v = slot_view X slot w;
      w' = with_dp (ClearClientRequiredStubQueue E slot)
        (case dpe_client X (dp_rest (dp v)) slot of
           None \<Rightarrow> v
         | Some _ \<Rightarrow> eng_disconnect E slot (''Lua delivery identity failed for '' @
             registered_name X f (dp_rest (dp v))) v)\<rbrakk> \<Longrightarrow>
    delivery_event W bits room E X (Dropped slot) w w'"

inductive delivery_run ::
  "'w BitWriter \<Rightarrow> ('w \<Rightarrow> bool list) \<Rightarrow> ('w \<Rightarrow> nat) \<Rightarrow> 'x Datapack Engine \<Rightarrow> ('x, 'w) DpEngine \<Rightarrow>
     stub_event list \<Rightarrow> 'x DpWorld \<Rightarrow> 'x DpWorld \<Rightarrow> bool"
  for W bits room E X where
  dr_end: "delivery_run W bits room E X [] w w"
| dr_event: "\<lbrakk>delivery_event W bits room E X e w w1; delivery_run W bits room E X es w1 w2\<rbrakk> \<Longrightarrow>
    delivery_run W bits room E X (e # es) w w2"

inductive_cases delivery_eventE [elim]: "delivery_event W bits room E X e w w'"
inductive_cases delivery_runE: "delivery_run W bits room E X es w w'"

lemma event_delivers:
  assumes W: "bit_writer W bits room" and X: "stream_laws X" and ok: "stubs_ok E {} (dp w)"
    and ev: "drain_event W E X e w w'"
  shows "delivery_event W bits room E X e w w'"
  using ev
proof cases
  case (ev_sent slot rest f fs w2 advanced)
  obtain ch where "snd (stub_action W X slot w) = Some ch" using send_stub_True [OF ev_sent(6)] by auto
  from stub_action_append [OF this] obtain payload k where p: "dp_pinnedPayloads (dp w) slot = Some payload"
    "dpe_client X (dp_rest (dp w)) slot = Some k" "se_channel k = Some ch" by blast
  let ?s = "dpe_reliable X (dp_rest (dp w)) ch"
  have st: "slot_state bits X slot ch payload w ?s (f # fs)" using p ev_sent(5) by (simp add: slot_state_def)
  from sent_state [OF X st, of W E f w'] ev ev_sent(1) obtain stream' where
    st': "slot_state bits X slot ch payload w' stream' fs" by auto
  have "slot_sized room X slot w \<longrightarrow> appended W bits room ?s (stub_msg f payload) stream'"
  proof
    assume "slot_sized room X slot w"
    then have "length payload < 2 ^ 32" "room ?s < 2 ^ 31" using p unfolding slot_sized_def by blast+
    from sent_own [OF W X ok st this, of f w'] ev ev_sent(1) st'
    show "appended W bits room ?s (stub_msg f payload) stream'" by (auto simp: slot_state_def)
  qed
  moreover have "slot_view X s w' = slot_view X s w" if "s \<noteq> slot" for s
    using send_other [OF X that ev_sent(6)] by (simp add: ev_sent(2) slot_view_done [OF that])
  ultimately show ?thesis using dl_sent [OF st st'] ev_sent(1) by blast
next
  case (ev_dropped slot rest f fs w2)
  have files: "stub_files (dp w2) slot = f # fs"
    using send_stub_dp [OF ev_dropped(6)] ev_dropped(5) by auto
  have front: "RequiredStubQueue_Front (rq_pending (dp_stubQueues (dp w2) slot)) = f"
    by (simp add: files RequiredStubQueue_Front_def)
  have w': "w' = with_dp (ClearClientRequiredStubQueue E slot)
        (case dpe_client X (dp_rest (dp w2)) slot of
           None \<Rightarrow> w2
         | Some _ \<Rightarrow> eng_disconnect E slot (''Lua delivery identity failed for '' @
             registered_name X f (dp_rest (dp w2))) w2)"
    unfolding ev_dropped(2) stub_failed_def DisconnectLuaHashFailure_def front by (rule refl)
  have "fst (stub_action W X slot w) \<noteq> WaitForReliableSpace" using ev_dropped(7) .
  from send_refused [OF W ok ev_dropped(5,4) _ this ev_dropped(6)]
    send_other [OF X _ ev_dropped(6)]
  show ?thesis unfolding ev_dropped(1) by (intro dl_dropped [OF ev_dropped(5) files _ _ w']) blast+
next
  case (ev_waited slot rest f fs)
  then show ?thesis by (auto intro!: dl_waited simp: stub_waits_def)
qed

lemma run_delivers:
  assumes "bit_writer W bits room" and "stream_laws X" and "disconnect_clears E"
  shows "\<lbrakk>drain_run W E X es w w'; stubs_ok E {} (dp w)\<rbrakk> \<Longrightarrow> delivery_run W bits room E X es w w'"
  by (induction rule: drain_run.induct)
    (auto intro: delivery_run.intros event_delivers [OF assms(1,2)] event_ok(1) [OF assms(3)])

text \<open>The files a run sends to a slot.\<close>

definition sent_to :: "int \<Rightarrow> stub_event list \<Rightarrow> int list" where
  "sent_to slot es = concat (map (\<lambda>e. case e of Sent s f \<Rightarrow> if s = slot then [f] else [] | _ \<Rightarrow> []) es)"

text \<open>A client that the disconnects of a frame leave alone keeps its state in the events of others.\<close>

definition spared ::
  "'x Datapack Engine \<Rightarrow> ('x, 'w) DpEngine \<Rightarrow> int \<Rightarrow> stub_event list \<Rightarrow> bool" where
  "spared E X slot es \<longleftrightarrow> Dropped slot \<notin> set es \<and>
     (\<forall>s m v. Dropped s \<in> set es \<longrightarrow> slot_view X slot (eng_disconnect E s m v) = slot_view X slot v)"

lemma event_other:
  assumes st: "slot_state bits X slot c payload w stream files"
    and ev: "delivery_event W bits room E X e w w'" and e: "spared E X slot [e]" "\<forall>f. e \<noteq> Sent slot f"
  shows "slot_state bits X slot c payload w' stream files"
  using ev
proof cases
  case (dl_sent s)
  then have "slot \<noteq> s" using e(2) by auto
  then show ?thesis using dl_sent slot_state_cong [OF st] by blast
next
  case (dl_dropped s f fs v)
  then have ne: "slot \<noteq> s" using e(1) by (auto simp: spared_def)
  have "slot_view X slot w' = slot_view X slot v"
    using e(1) dl_dropped(1) by (simp add: dl_dropped(6) slot_view_clear [OF ne] spared_def split: option.split)
  then show ?thesis using dl_dropped(4) ne slot_state_cong [OF st] by simp
qed (auto intro: slot_state_cong [OF st])

lemma run_slot:
  assumes W: "bit_writer W bits room" and len: "length payload < 2 ^ 32"
  shows "\<lbrakk>delivery_run W bits room E X es w w'; slot_state bits X slot c payload w stream files;
      room stream < 2 ^ 31; \<not> IsOverflowed W stream; spared E X slot es\<rbrakk> \<Longrightarrow>
    \<exists>stream' files'. slot_state bits X slot c payload w' stream' files' \<and> files = sent_to slot es @ files' \<and>
      appended W bits room stream (concat (map (\<lambda>f. stub_msg f payload) (sent_to slot es))) stream'"
proof (induction arbitrary: stream files rule: delivery_run.induct)
  case (dr_end w)
  then show ?case
    using bit_writer.appended_refl [OF W] by (intro exI [of _ stream] exI [of _ files]) (simp add: sent_to_def)
next
  case (dr_event e w w1 es w2)
  have sp: "spared E X slot [e]" "spared E X slot es" using dr_event.prems(4) by (auto simp: spared_def)
  show ?case
  proof (cases "\<exists>f. e = Sent slot f")
    case True
    then obtain f where e: "e = Sent slot f" by blast
    have "slot_sized room X slot w" using dr_event.prems(1,2) len by (auto simp: slot_state_def slot_sized_def)
    with dr_event.hyps(1) dr_event.prems(1) e obtain stream1 fs where
      s1: "files = f # fs" "slot_state bits X slot c payload w1 stream1 fs"
        "appended W bits room stream (stub_msg f payload) stream1"
      by (auto elim!: delivery_eventE simp: slot_state_def)
    then have "room stream1 < 2 ^ 31" "\<not> IsOverflowed W stream1" using dr_event.prems(2) by (auto simp: appended_def)
    from dr_event.IH [OF s1(2) this sp(2)] obtain stream' files' where
      s': "slot_state bits X slot c payload w2 stream' files'" "fs = sent_to slot es @ files'"
        "appended W bits room stream1 (concat (map (\<lambda>f. stub_msg f payload) (sent_to slot es))) stream'" by auto
    then show ?thesis
      using s1 e bit_writer.appended_trans [OF W s1(3) s'(3)]
      by (intro exI [of _ stream'] exI [of _ files']) (simp add: sent_to_def)
  next
    case False
    then have "slot_state bits X slot c payload w1 stream files"
      using event_other [OF dr_event.prems(1) dr_event.hyps(1) sp(1)] by auto
    from dr_event.IH [OF this dr_event.prems(2,3) sp(2)] False show ?thesis
      by (auto simp: sent_to_def split: stub_event.split)
  qed
qed

lemma run_ok:
  "\<lbrakk>drain_run W E X es w w'; disconnect_clears E; stubs_ok E {} (dp w)\<rbrakk> \<Longrightarrow> stubs_ok E {} (dp w')"
  by (induction rule: drain_run.induct) (auto intro: event_ok(1))

section \<open>Properties\<close>

text \<open>
  C36. The drain of a frame ends and wastes nothing.  From consistent queues, whatever the engine
  calls back while a client is disconnected, the loop stops, sends at most the configured number
  of placeholders, and leaves the queues consistent; it only stops below that number when every
  client that still has placeholders waits for space on its own reliable stream.
\<close>

theorem stub_drain_ends:
  assumes "disconnect_clears E" and "stubs_ok E {} (dp w)"
  shows "\<exists>es w'. DrainRequiredStubQueues W E X stub_budget w = Some w' \<and> drain_run W E X es w w' \<and>
    sends es \<le> unat (of_int (max 1 stub_budget) :: u32) \<and>
    (sends es = unat (of_int (max 1 stub_budget) :: u32) \<or>
      (\<forall>slot. IsValidSlot E slot \<and> stub_files (dp w') slot \<noteq> [] \<longrightarrow> stub_waits W X w' slot)) \<and>
    stubs_ok E {} (dp w')"
proof -
  from drain_loop [OF assms, of 0 "of_int (max 1 stub_budget)" 0 W X "[]"] obtain es w' where
    r: "DrainRequiredStubQueues W E X stub_budget w = Some w'" "drain_run W E X es w w'"
      "sends es \<le> unat (of_int (max 1 stub_budget) :: u32)"
      "sends es = unat (of_int (max 1 stub_budget) :: u32) \<or> drain_stops W X w'"
    by (auto simp: DrainRequiredStubQueues_def)
  have ok: "stubs_ok E {} (dp w')" by (rule run_ok [OF r(2) assms])
  then have "drain_stops W X w' \<longrightarrow>
      (\<forall>slot. IsValidSlot E slot \<and> stub_files (dp w') slot \<noteq> [] \<longrightarrow> stub_waits W X w' slot)"
    by (auto simp: drain_stops_def stubs_ok_def)
  then show ?thesis using r ok by blast
qed

text \<open>
  C7. The placeholders arrive in order, each once, unaltered, or their client is disconnected.  A
  frame is a run of the contract: each event sends the first file of one client's queue, leaves a
  client waiting, or, if the placeholder is refused, tells the engine to disconnect the client and
  clears its queue.  So of the queue a client had, exactly the files the run sent to it have left, and
  its stream has gained exactly their records, with the payload pinned for it, in order and nothing
  else; this holds for every client that was not dropped itself, provided that the engine's disconnects
  of other clients in the frame, if there were any, leave its stream and queue alone.
\<close>

theorem stub_drain_delivers:
  assumes "bit_writer W bits room" and "stream_laws X" and "disconnect_clears E"
    and "stubs_ok E {} (dp w)" and "DrainRequiredStubQueues W E X stub_budget w = Some w'"
  shows "\<exists>es. delivery_run W bits room E X es w w' \<and>
    (\<forall>slot c payload stream files.
       slot_state bits X slot c payload w stream files \<and> length payload < 2 ^ 32 \<and> room stream < 2 ^ 31 \<and>
       \<not> IsOverflowed W stream \<and> spared E X slot es \<longrightarrow>
       (\<exists>stream' files'. slot_state bits X slot c payload w' stream' files' \<and>
          files = sent_to slot es @ files' \<and>
          bits stream' = bits stream @ concat (map (\<lambda>f. stub_msg f payload) (sent_to slot es))))"
proof -
  from drain_loop [OF assms(3,4), of 0 "of_int (max 1 stub_budget)" 0 W X "[]"] assms(5) obtain es where
    "drain_run W E X es w w'" by (auto simp: DrainRequiredStubQueues_def)
  then have r: "delivery_run W bits room E X es w w'" using run_delivers [OF assms(1-3)] assms(4) by blast
  show ?thesis
    using run_slot [OF assms(1) _ r] by (intro exI [of _ es] conjI r) (fastforce simp: appended_def)
qed

section \<open>A concrete engine\<close>

text \<open>Two players with test writers as streams, the placeholder of file 5 queued for the first.\<close>

definition demo_session :: "int \<Rightarrow> Session" where
  "demo_session slot =
     \<lparr>se_client = (if slot = 0 then 4 else 8), se_channel = Some (if slot = 0 then 0 else 1), se_playerSlot = slot, se_userID = slot + 10,
      se_clientChallenge = 7, se_signonState = 2, se_sendServerInfo = True, se_active = False, se_connected = True\<rparr>"

definition demo_dpe :: "(u64 \<Rightarrow> TestBitWriter, TestBitWriter) DpEngine" where
  "demo_dpe =
     \<lparr>dpe_client = (\<lambda>_ slot. if 0 \<le> slot \<and> slot < 2 then Some (demo_session slot) else None),
      dpe_reliable = id, dpe_setReliable = (\<lambda>c s x. x(c := s)),
      dpe_strings = (\<lambda>_. None), dpe_supportsCanonical = (\<lambda>_. True)\<rparr>"

definition demo_eng :: "(u64 \<Rightarrow> TestBitWriter) Datapack Engine" where
  "demo_eng =
     \<lparr>eng_playerLimit = 2, eng_signonConnected = 2, eng_time = (\<lambda>_. 0), eng_clientBySlot = (\<lambda>_ _. None),
      eng_supportsCanonical = (\<lambda>_. True), eng_fileExists = (\<lambda>_ _. True), eng_setSendServerInfo = (\<lambda>_ w. w),
      eng_sendServerInfo = (\<lambda>_ w. (True, w)), eng_reconnect = (\<lambda>_ w. w), eng_disconnect = (\<lambda>_ _ w. w)\<rparr>"

definition demo_dp :: "(u64 \<Rightarrow> TestBitWriter) Datapack" where
  "demo_dp = snd (EnqueuePinnedRequiredStub demo_eng 0 5
     ((Datapack_new 2 (\<lambda>_. TestBitWriter_new 4000))\<lparr>dp_pinnedPayloads := [0 \<mapsto> replicate 40 1]\<rparr>))"

definition demo_dpw :: "(u64 \<Rightarrow> TestBitWriter) DpWorld" where
  "demo_dpw = \<lparr>w_state = State_new, w_cvars = demo_cvars, w_engine = demo_dp\<rparr>"

lemma demo_dp_laws: "disconnect_clears demo_eng" "stubs_ok demo_eng {} (dp demo_dpw)" "stream_laws demo_dpe"
proof -
  show "disconnect_clears demo_eng" by (simp add: disconnect_clears_def demo_eng_def)
  have "stubs_ok demo_eng {} (Datapack_new 2 (\<lambda>_. TestBitWriter_new 4000))"
    using stubs_ok_new [of demo_eng "\<lambda>_. TestBitWriter_new 4000"] by (simp add: demo_eng_def)
  then have "stubs_ok demo_eng {}
      ((Datapack_new 2 (\<lambda>_. TestBitWriter_new 4000))\<lparr>dp_pinnedPayloads := [0 \<mapsto> replicate 40 1]\<rparr>)"
    by (rule stubs_ok_cong) simp_all
  from stubs_ok_enqueue [OF this, of 0 5] show "stubs_ok demo_eng {} (dp demo_dpw)"
    by (simp add: demo_dpw_def demo_dp_def)
  show "stream_laws demo_dpe"
    by (auto simp: stream_laws_def demo_dpe_def demo_session_def split: if_splits)
qed

lemma length_PinnedNew [simp]: "length (PinnedCanonicalFileSet_new n) = n"
  by (simp add: PinnedCanonicalFileSet_new_def)

lemma demo_dp_files: "stub_files (dp demo_dpw) 0 = [5]"
  by (simp add: demo_dpw_def demo_dp_def EnqueuePinnedRequiredStub_def RequiredStubQueue_Enqueue_def Datapack_new_def
      ClientRequiredStubQueue_fresh_def RequiredStubQueue_new_def IsValidSlot_def demo_eng_def Let_def
      MAX_TRACKED_LUA_FILES_def)

theorem stub_drain_ends_witness:
  "stub_files (dp demo_dpw) 0 = [5] \<and>
   (\<exists>w'. DrainRequiredStubQueues TestBitWriter_ops demo_eng demo_dpe 64 demo_dpw = Some w' \<and> stubs_ok demo_eng {} (dp w'))"
  using demo_dp_files stub_drain_ends [OF demo_dp_laws(1,2), of TestBitWriter_ops demo_dpe 64] by blast

text \<open>The first player on the required lane of a generation, file 5 pinned and queued for it.\<close>

definition ready_dpw :: "(u64 \<Rightarrow> TestBitWriter) DpWorld" where
  "ready_dpw =
     \<lparr>w_state = State_new\<lparr>st_clients := (\<lambda>_. ClientPin_new\<lparr>cp_generation := ''g'', cp_requiredLane := True\<rparr>)\<rparr>,
      w_cvars = demo_cvars,
      w_engine = demo_dp\<lparr>dp_pinnedFiles := (dp_pinnedFiles demo_dp)
        (0 := PinnedCanonicalFileSet_Mark 5 (dp_pinnedFiles demo_dp 0))\<rparr>\<rparr>"

lemma demo_dp_parts:
  "stub_files demo_dp slot = (if slot = 0 then [5] else [])"
  "dp_pinnedPayloads demo_dp slot = (if slot = 0 then Some (replicate 40 1) else None)"
  "dp_rest demo_dp = (\<lambda>_. TestBitWriter_new 4000)" "stub_active demo_dp = [0]"
  "dp_pinnedFiles demo_dp slot = PinnedCanonicalFileSet_new MAX_TRACKED_LUA_FILES"
proof -
  let ?d = "(Datapack_new 2 (\<lambda>_. TestBitWriter_new 4000))\<lparr>dp_pinnedPayloads := [0 \<mapsto> replicate 40 1]\<rparr>"
  have "IsValidSlot demo_eng 0" by (simp add: IsValidSlot_def demo_eng_def)
  moreover have "\<not> RoundRobinSlotScheduler_IsScheduled 0 (dp_stubScheduler ?d)"
    by (simp add: Datapack_new_def RoundRobinSlotScheduler_new_def RoundRobinSlotScheduler_IsScheduled_def)
  moreover obtain q where "RequiredStubQueue_Enqueue 5 (rq_pending (dp_stubQueues ?d 0)) = (Queued, q)" "rsq_files q = [5]"
    by (simp add: RequiredStubQueue_Enqueue_def Datapack_new_def ClientRequiredStubQueue_fresh_def
        RequiredStubQueue_new_def MAX_TRACKED_LUA_FILES_def)
  ultimately show "stub_files demo_dp slot = (if slot = 0 then [5] else [])"
    "dp_pinnedPayloads demo_dp slot = (if slot = 0 then Some (replicate 40 1) else None)"
    "dp_rest demo_dp = (\<lambda>_. TestBitWriter_new 4000)" "stub_active demo_dp = [0]"
    "dp_pinnedFiles demo_dp slot = PinnedCanonicalFileSet_new MAX_TRACKED_LUA_FILES"
    by (simp_all add: demo_dp_def EnqueuePinnedRequiredStub_def Let_def Datapack_new_def
        ClientRequiredStubQueue_fresh_def RequiredStubQueue_new_def RoundRobinSlotScheduler_new_def
        RoundRobinSlotScheduler_Schedule_def)
qed

lemma ready_dp:
  "stubs_ok demo_eng {} (dp ready_dpw)"
  "stub_files (dp ready_dpw) slot = (if slot = 0 then [5] else [])"
  "dp_pinnedPayloads (dp ready_dpw) slot = (if slot = 0 then Some (replicate 40 1) else None)"
  "dp_rest (dp ready_dpw) = (\<lambda>_. TestBitWriter_new 4000)"
  "stub_active (dp ready_dpw) = [0]"
  "PinnedCanonicalFileSet_Contains 5 (dp_pinnedFiles (dp ready_dpw) 0)"
proof -
  show "stubs_ok demo_eng {} (dp ready_dpw)"
    by (rule stubs_ok_cong [OF demo_dp_laws(2)]) (simp_all add: ready_dpw_def demo_dpw_def)
qed (simp_all add: ready_dpw_def demo_dp_parts pinned_ids_Mark MAX_TRACKED_LUA_FILES_def)

lemma ready_action: "stub_action TestBitWriter_ops demo_dpe 0 ready_dpw = (DrainAppend, Some 0)"
proof -
  have "IsEnabled ready_dpw" by (simp add: IsEnabled_def ready_dpw_def demo_cvars_def)
  moreover have "RequiredStubQueue_Front (rq_pending (dp_stubQueues (dp ready_dpw) 0)) = 5"
    by (simp add: RequiredStubQueue_Front_def ready_dp)
  moreover have "GetNumBitsLeft TestBitWriter_ops (TestBitWriter_new 4000) = 4000" "\<not> IsOverflowed TestBitWriter_ops (TestBitWriter_new 4000)"
    by (simp_all add: TestBitWriter_ops_def TestBitWriter_new_def)
  moreover have "CanUsePinnedRequiredStub True True (PinnedCanonicalFileSet_Contains 5 (dp_pinnedFiles (dp ready_dpw) 0)) True 40"
    unfolding CanUsePinnedRequiredStub_def using ready_dp(6) by simp
  ultimately show ?thesis
    by (simp add: stub_action_def ready_dp PrepareCanonicalLuaStubAppend_def Let_def)
      (simp add: demo_dpe_def demo_session_def SelectRequiredStubDrainAction_Append_iff
        CanAppendRequiredStub_iff stub_bits_def)
qed

lemma ready_lane: "\<not> stub_refused TestBitWriter_ops demo_eng demo_dpe 0 ready_dpw"
  by (simp add: stub_refused_def ready_action)
    (simp add: ready_dpw_def IsEnabled_def demo_cvars_def ClientLane_def client_of_def ClientPin_new_def)

lemma ready_sized: "slot_sized tbw_room demo_dpe 0 ready_dpw"
  by (simp add: slot_sized_def ready_dp) (simp add: demo_dpe_def tbw_room_def TestBitWriter_new_def)

text \<open>The frame sends the placeholder and is over.\<close>

lemma ready_drain:
  "\<exists>w'. DrainRequiredStubQueues TestBitWriter_ops demo_eng demo_dpe 64 ready_dpw = Some w' \<and> stub_files (dp w') 0 = []"
proof -
  let ?W = TestBitWriter_ops and ?w1 = "take_stub_slot ready_dpw"
  have valid: "IsValidSlot demo_eng 0" by (simp add: IsValidSlot_def demo_eng_def)
  obtain b w2 where s: "send_stub ?W demo_eng demo_dpe 0 (stub_action ?W demo_dpe 0 ready_dpw) ?w1 = (b, w2)" by fastforce
  have files: "stub_files (dp ready_dpw) 0 = 5 # []" by (simp add: ready_dp)
  have b: "b"
    using send_refused [OF tbw.bit_writer_axioms ready_dp(1) files valid ready_sized] s ready_lane
    by (cases b) (auto simp: ready_action)
  obtain x where x: "dp w2 = (dp ?w1)\<lparr>dp_rest := x\<rparr>" using send_stub_dp [OF s] by blast
  let ?w' = "stub_done 0 False w2"
  have gone: "stub_files (dp ?w') 0 = []" using x by (simp add: stub_done_dp ready_dp)
  have "stub_active (dp ?w1) = []" using stubs_ok_take(2) [OF ready_dp(1,5)] .
  then have "stub_active (dp ?w') = []"
    using x by (simp add: stub_done_def Let_def RequiredStubQueue_Empty_def stub_sent_def RequiredStubQueue_Pop_simps ready_dp)
  then have "drain_stubs ?W demo_eng demo_dpe 64 1 0 [0] ?w' = Some ?w'"
    by (subst drain_stubs.simps) (simp add: RoundRobinSlotScheduler_Empty_def)
  then have "DrainRequiredStubQueues ?W demo_eng demo_dpe 64 ready_dpw = Some ?w'"
    unfolding DrainRequiredStubQueues_def
    using valid TakeNext_fst [OF ready_dp(5)] ready_action s b
    by (subst drain_stubs.simps)
      (simp add: Let_def RoundRobinSlotScheduler_Empty_def RequiredStubQueue_Empty_def ready_dp List.insert_def)
  then show ?thesis using gone by blast
qed

lemma event_busy:
  assumes "delivery_event W bits room E X e w w'"
  shows "\<exists>slot. stub_files (dp w) slot \<noteq> []"
  using assms
proof cases
  case (dl_sent slot c payload stream f fs stream')
  then show ?thesis by (intro exI [of _ slot]) (simp add: slot_state_def)
next
  case (dl_waited slot)
  then show ?thesis by blast
next
  case (dl_dropped slot f fs v)
  then show ?thesis by (intro exI [of _ slot]) simp
qed

lemma run_idle: "\<lbrakk>delivery_run W bits room E X es w w'; \<forall>slot. stub_files (dp w) slot = []\<rbrakk> \<Longrightarrow> es = []"
  by (cases rule: delivery_run.cases) (use event_busy in blast)+

lemma ready_run:
  assumes "delivery_run TestBitWriter_ops tbw_bits tbw_room demo_eng demo_dpe es ready_dpw w'"
  shows "Dropped 0 \<notin> set es"
  using assms
proof (cases rule: delivery_run.cases)
  case (dr_event e w1 es')
  from dr_event(2) show ?thesis
  proof cases
    case (dl_sent slot c payload stream f fs stream')
    then have slot: "slot = 0" "fs = []" by (auto simp: slot_state_def ready_dp split: if_splits)
    have "stub_files (dp w1) s = []" for s
    proof (cases "s = 0")
      case True
      then show ?thesis using dl_sent(3) slot by (simp add: slot_state_def)
    next
      case False
      then have "slot_view demo_dpe s w1 = slot_view demo_dpe s ready_dpw" using dl_sent(5) slot by blast
      then have "stub_files (dp w1) s = stub_files (dp ready_dpw) s" by (simp add: slot_view_def Let_def)
      then show ?thesis using False by (simp add: ready_dp)
    qed
    then show ?thesis using run_idle [OF dr_event(3)] dr_event(1) dl_sent(1) by simp
  next
    case (dl_waited slot)
    then show ?thesis by (auto simp: ready_dp stub_waits_def ready_action split: if_splits)
  next
    case (dl_dropped slot f fs v)
    then have "slot = 0" by (auto simp: ready_dp split: if_splits)
    then show ?thesis using dl_dropped(5) ready_sized ready_lane by simp
  qed
qed simp

theorem stub_drain_delivers_witness:
  "\<exists>w' stream'. DrainRequiredStubQueues TestBitWriter_ops demo_eng demo_dpe 64 ready_dpw = Some w' \<and>
     slot_state tbw_bits demo_dpe 0 0 (replicate 40 1) w' stream' [] \<and> tbw_bits stream' = stub_msg 5 (replicate 40 1)"
proof -
  obtain w' where w': "DrainRequiredStubQueues TestBitWriter_ops demo_eng demo_dpe 64 ready_dpw = Some w'"
    "stub_files (dp w') 0 = []" using ready_drain by blast
  let ?s = "TestBitWriter_new 4000" and ?p = "replicate 40 (1 :: u8)"
  have st: "slot_state tbw_bits demo_dpe 0 0 ?p ready_dpw ?s [5]"
    by (simp add: slot_state_def ready_dp) (simp add: demo_dpe_def demo_session_def)
  have pre: "length ?p < 2 ^ 32 \<and> tbw_room ?s < 2 ^ 31 \<and> \<not> IsOverflowed TestBitWriter_ops ?s" and empty: "tbw_bits ?s = []"
    by (simp_all add: tbw_room_def TestBitWriter_new_def TestBitWriter_ops_def)
  obtain es where r: "delivery_run TestBitWriter_ops tbw_bits tbw_room demo_eng demo_dpe es ready_dpw w'"
    and all: "\<forall>slot c payload stream files.
       slot_state tbw_bits demo_dpe slot c payload ready_dpw stream files \<and> length payload < 2 ^ 32 \<and>
       tbw_room stream < 2 ^ 31 \<and> \<not> IsOverflowed TestBitWriter_ops stream \<and> spared demo_eng demo_dpe slot es \<longrightarrow>
       (\<exists>stream' files'. slot_state tbw_bits demo_dpe slot c payload w' stream' files' \<and>
          files = sent_to slot es @ files' \<and>
          tbw_bits stream' = tbw_bits stream @ concat (map (\<lambda>f. stub_msg f payload) (sent_to slot es)))"
    using stub_drain_delivers [OF tbw.bit_writer_axioms demo_dp_laws(3,1) ready_dp(1) w'(1)] by blast
  have "spared demo_eng demo_dpe 0 es" using ready_run [OF r] by (simp add: spared_def demo_eng_def)
  with all [rule_format, of 0 0 ?p ?s "[5]"] st pre empty obtain stream' files' where
    e: "slot_state tbw_bits demo_dpe 0 0 ?p w' stream' files'" "[5] = sent_to 0 es @ files'"
      "tbw_bits stream' = concat (map (\<lambda>f. stub_msg f ?p) (sent_to 0 es))" by auto
  have "files' = []" using e(1) w'(2) by (simp add: slot_state_def)
  moreover from this e(2) have "sent_to 0 es = [5]" by simp
  then have "tbw_bits stream' = stub_msg 5 ?p" by (simp add: e(3))
  ultimately show ?thesis using e(1) w'(1) by blast
qed

end
