(* ===== verification/LuaEntries.thy ===== *)
theory LuaEntries
  imports StubDrain LuaStrip LuaHashWire
begin

text \<open>
  The cache of registered Lua files, \<^verbatim>\<open>LuaDataPack\<close> in \<^verbatim>\<open>gmoddatapack.cpp\<close>: an
  entry per file ID with its source, the body clients receive, the hashes of both and their
  publication in the string table \<^verbatim>\<open>client_lua_files\<close>.  Its state and the string table are
  the engine part of the \<open>Datapack\<close> record.  Locks are not modelled: every operation here holds
  the entry's lock throughout.
\<close>

section \<open>State\<close>

record LuaPackEntry =
  le_sourceContent :: string
  le_content :: string
  le_compressed :: "u8 list"
  le_activeRefreshCompressed :: "u8 list option"
  le_activeRefreshRequested :: bool
  le_activeRefreshFailed :: bool
  le_sourceHash :: "u8 list"
  le_contentHash :: "u8 list"
  le_hasSourceContent :: bool
  le_processed :: bool
  le_hashPublished :: bool
  le_sourceHashReady :: bool
  le_contentHashReady :: bool
  le_removeServerCode :: bool
  le_removeComments :: bool
  le_luapackCanonical :: bool
  le_luapackPassthrough :: bool
  le_activeHashRefreshPending :: bool
  le_forceActiveHashRefreshPending :: bool

definition LuaPackEntry_new :: LuaPackEntry where
  "LuaPackEntry_new =
     \<lparr>le_sourceContent = '''', le_content = '''', le_compressed = [], le_activeRefreshCompressed = None,
      le_activeRefreshRequested = False, le_activeRefreshFailed = False,
      le_sourceHash = replicate 32 0, le_contentHash = replicate 32 0, le_hasSourceContent = False,
      le_processed = False, le_hashPublished = False, le_sourceHashReady = False,
      le_contentHashReady = False, le_removeServerCode = False, le_removeComments = False,
      le_luapackCanonical = False, le_luapackPassthrough = False, le_activeHashRefreshPending = False,
      le_forceActiveHashRefreshPending = False\<rparr>"

text \<open>An item of the string table: its string and its user data.\<close>

record StringItem =
  si_name :: "string option"
  si_userData :: "u8 list option"

text \<open>The queue of a client whose files go over the unreliable stream.\<close>

record PlayerQueue =
  pq_queue :: "int list"
  pq_sentFiles :: size_t
  pq_requestCount :: size_t
  pq_previousCount :: size_t
  pq_totalSentFiles :: size_t
  pq_targetRate :: size_t
  pq_usedUnreliable :: bool
  pq_usedReliable :: bool
  pq_useReliable :: bool
  pq_successRate :: real
  pq_reconnectTime :: real

definition PlayerQueue_new :: PlayerQueue where
  "PlayerQueue_new =
     \<lparr>pq_queue = [], pq_sentFiles = 0, pq_requestCount = 0, pq_previousCount = 0, pq_totalSentFiles = 0,
      pq_targetRate = 1024 * 512, pq_usedUnreliable = False, pq_usedReliable = False, pq_useReliable = False,
      pq_successRate = - 1, pq_reconnectTime = - 1\<rparr>"

text \<open>The registration sweep that spreads a change of the delivery mode over frames.\<close>

record LuaPackRegistrationRefresh =
  rr_active :: bool
  rr_captureForMapBase :: bool
  rr_nextFileID :: int
  rr_targetFileCount :: int
  rr_registeredInitName :: string
  rr_initRefreshed :: bool
  rr_initialPassComplete :: bool
  rr_waitingWarningEmitted :: bool
  rr_unresolvedFileIDs :: "int list"
  rr_retryFileIDs :: "int list"
  rr_nextUnresolved :: nat
  rr_pendingSourceHashFileIDs :: "int list"
  rr_retrySourceHashFileIDs :: "int list"
  rr_nextSourceHash :: nat
  rr_refreshed :: u32
  rr_frames :: u32
  rr_startedAt :: real

definition LuaPackRegistrationRefresh_new :: LuaPackRegistrationRefresh where
  "LuaPackRegistrationRefresh_new =
     \<lparr>rr_active = False, rr_captureForMapBase = False, rr_nextFileID = 0, rr_targetFileCount = 0,
      rr_registeredInitName = '''', rr_initRefreshed = False, rr_initialPassComplete = False,
      rr_waitingWarningEmitted = False, rr_unresolvedFileIDs = [], rr_retryFileIDs = [], rr_nextUnresolved = 0,
      rr_pendingSourceHashFileIDs = [], rr_retrySourceHashFileIDs = [], rr_nextSourceHash = 0,
      rr_refreshed = 0, rr_frames = 0, rr_startedAt = 0\<rparr>"

text \<open>
  \<open>ld_probeSlot\<close> and \<open>ld_probeAccepted\<close> are \<^verbatim>\<open>g_requiredRequestProbeSlot\<close> and
  \<^verbatim>\<open>g_requiredRequestProbeAccepted\<close>; the acknowledgements are the two counters of answered refreshes.
\<close>

record 'y LuaData =
  ld_entries :: "int \<Rightarrow> LuaPackEntry"
  ld_compressQueue :: "int list"
  ld_stringTableUpdateQueue :: "int list"
  ld_refreshQueue :: "int list"
  ld_refreshTargets :: "int \<Rightarrow> ActiveLuaRefreshTargets option"
  ld_forcedRefreshes :: "int \<Rightarrow> bitset option"
  ld_refreshNextSlots :: "int \<Rightarrow> int option"
  ld_refreshFailedSlots :: "int \<Rightarrow> bitset option"
  ld_refreshRetryAfter :: "int \<Rightarrow> real option"
  ld_table :: "StringItem list option"
  ld_playerQueues :: "int \<Rightarrow> PlayerQueue"
  ld_registration :: LuaPackRegistrationRefresh
  ld_nativeAcknowledgements :: u32
  ld_canonicalAcknowledgements :: u32
  ld_probeSlot :: int
  ld_probeAccepted :: bool
  ld_removeserverif :: bool
  ld_removecomments :: bool
  ld_engine :: 'y

type_synonym 'y LdWorld = "'y LuaData DpWorld"

text \<open>
  What the cache uses of the engine and of Lua.  \<^verbatim>\<open>INVALID_STRING_INDEX\<close> is \<open>None\<close>.
  \<open>lde_luaError\<close> is \<^verbatim>\<open>luaL_loadbuffer\<close>, \<open>lde_tokenizeHook\<close> the hook
  \<^verbatim>\<open>HolyLib:OnTokenizeContent\<close>, and \<open>lde_undefined\<close> whatever an access of
  \<^verbatim>\<open>ProcessTokens\<close> outside its tokens yields.
\<close>

record ('y, 'w) LdEngine =
  lde_client :: "'y \<Rightarrow> int \<Rightarrow> Session option"
  lde_reliable :: "'y \<Rightarrow> u64 \<Rightarrow> 'w"
  lde_setReliable :: "u64 \<Rightarrow> 'w \<Rightarrow> 'y \<Rightarrow> 'y"
  lde_findString :: "string \<Rightarrow> StringItem list \<Rightarrow> int option"
  lde_addString :: "string \<Rightarrow> StringItem list \<Rightarrow> int option \<times> StringItem list"
  lde_clientBootstrap :: string
  lde_luaError :: "string \<Rightarrow> string option"
  lde_tokenizeHook :: "int \<Rightarrow> Token list \<Rightarrow> Token list"
  lde_undefined :: "Token list \<Rightarrow> string"

abbreviation ld :: "'y LdWorld \<Rightarrow> 'y LuaData" where
  "ld w \<equiv> dp_rest (dp w)"

definition with_ld :: "('y LuaData \<Rightarrow> 'y LuaData) \<Rightarrow> 'y LdWorld \<Rightarrow> 'y LdWorld" where
  "with_ld f = with_rest f"

definition upd_entry :: "int \<Rightarrow> (LuaPackEntry \<Rightarrow> LuaPackEntry) \<Rightarrow> 'y LdWorld \<Rightarrow> 'y LdWorld" where
  "upd_entry fileID f = with_ld (\<lambda>l. l\<lparr>ld_entries := (ld_entries l)(fileID := f (ld_entries l fileID))\<rparr>)"

definition GetPackEntry :: "int \<Rightarrow> 'y LdWorld \<Rightarrow> LuaPackEntry option" where
  "GetPackEntry fileID w =
     (if fileID < 0 \<or> int MAX_TRACKED_LUA_FILES \<le> fileID then None else Some (ld_entries (ld w) fileID))"

text \<open>The string table's entry point for names and user data.\<close>

definition string_item :: "int \<Rightarrow> 'y LdWorld \<Rightarrow> StringItem option" where
  "string_item fileID w =
     (case ld_table (ld w) of
        None \<Rightarrow> None
      | Some items \<Rightarrow> if 0 \<le> fileID \<and> nat fileID < length items then Some (items ! nat fileID) else None)"

definition set_user_data :: "int \<Rightarrow> u8 list \<Rightarrow> 'y LdWorld \<Rightarrow> 'y LdWorld" where
  "set_user_data fileID data =
     with_ld (\<lambda>l. l\<lparr>ld_table := map_option (\<lambda>items.
       if 0 \<le> fileID \<and> nat fileID < length items
       then items[nat fileID := (items ! nat fileID)\<lparr>si_userData := Some data\<rparr>] else items) (ld_table l)\<rparr>)"

section \<open>Entries\<close>

definition HashClientLuaString :: "Hashes \<Rightarrow> string \<Rightarrow> u8 list" where
  "HashClientLuaString S content = sha256_bytes S (bytes_of content @ [0])"

definition IsReady :: "LuaPackEntry \<Rightarrow> bool" where
  "IsReady e \<longleftrightarrow> le_compressed e \<noteq> []"

definition IsContentReady :: "LuaPackEntry \<Rightarrow> bool" where
  "IsContentReady e = le_processed e"

definition ensure_content_hash :: "Hashes \<Rightarrow> LuaPackEntry \<Rightarrow> LuaPackEntry" where
  "ensure_content_hash S e =
     (if le_contentHashReady e then e
      else e\<lparr>le_contentHash := HashClientLuaString S (le_content e), le_contentHashReady := True\<rparr>)"

text \<open>The leading 32 bytes are the hash; a failed compression leaves them in the buffer.\<close>

definition Compress :: "Bootil \<Rightarrow> Hashes \<Rightarrow> LuaPackEntry \<Rightarrow> bool \<times> LuaPackEntry" where
  "Compress B S e =
     (let e1 = ensure_content_hash S e;
          e2 = e1\<lparr>le_compressed := le_compressed e1 @ le_contentHash e1\<rparr>
      in case LZMA_Compress B (bytes_of (le_content e) @ [0]) of
           None \<Rightarrow> (False, e2)
         | Some compressed \<Rightarrow> (True, e2\<lparr>le_compressed := le_compressed e2 @ compressed\<rparr>))"

definition EnsureSourceHash :: "Hashes \<Rightarrow> LuaPackEntry \<Rightarrow> bool \<times> LuaPackEntry" where
  "EnsureSourceHash S e =
     (if \<not> le_luapackPassthrough e \<or> \<not> le_hasSourceContent e then (le_sourceHashReady e, e)
      else (True,
        if \<not> le_sourceHashReady e
        then e\<lparr>le_sourceHash := HashClientLuaString S (le_sourceContent e), le_sourceHashReady := True\<rparr>
        else e))"

section \<open>Queueing an active refresh\<close>

definition CaptureActiveLuaRefreshOwner :: "Session option \<Rightarrow> ActiveLuaRefreshOwner" where
  "CaptureActiveLuaRefreshOwner client =
     (case client of
        Some c \<Rightarrow>
          (case se_channel c of
             Some channel \<Rightarrow>
               if se_active c
               then \<lparr>alro_client = se_client c, alro_channel = channel, alro_userID = se_userID c,
                     alro_challenge = se_clientChallenge c\<rparr>
               else \<lparr>alro_client = 0, alro_channel = 0, alro_userID = 0, alro_challenge = 0\<rparr>
           | None \<Rightarrow> \<lparr>alro_client = 0, alro_channel = 0, alro_userID = 0, alro_challenge = 0\<rparr>)
      | None \<Rightarrow> \<lparr>alro_client = 0, alro_channel = 0, alro_userID = 0, alro_challenge = 0\<rparr>)"

definition active_targets :: "'e Engine \<Rightarrow> ('y, 'w) LdEngine \<Rightarrow> 'y \<Rightarrow> ActiveLuaRefreshTargets" where
  "active_targets E L y =
     fold (\<lambda>slot. ActiveLuaRefreshTargets_Capture (eng_playerLimit E) slot
             (CaptureActiveLuaRefreshOwner (lde_client L y slot)))
       [0..eng_playerLimit E - 1] Map.empty"

definition QueueActiveHashRefresh ::
  "'e Engine \<Rightarrow> ('y, 'w) LdEngine \<Rightarrow> int \<Rightarrow> bool \<Rightarrow> ActiveLuaRefreshTargets option \<Rightarrow> 'y LuaData \<Rightarrow> 'y LuaData" where
  "QueueActiveHashRefresh E L fileID forceRefresh selectedTargets l =
     (let targets = (case selectedTargets of Some t \<Rightarrow> t | None \<Rightarrow> active_targets E L (ld_engine l))
      in if ActiveLuaRefreshTargets_Empty targets
         then
           (if selectedTargets \<noteq> None
            then l\<lparr>ld_refreshTargets := (ld_refreshTargets l)(fileID := None),
                   ld_forcedRefreshes := (ld_forcedRefreshes l)(fileID := None),
                   ld_refreshNextSlots := (ld_refreshNextSlots l)(fileID := None),
                   ld_refreshFailedSlots := (ld_refreshFailedSlots l)(fileID := None),
                   ld_refreshRetryAfter := (ld_refreshRetryAfter l)(fileID := None)\<rparr>
            else l)
         else
           (let l1 = l\<lparr>ld_refreshTargets := (ld_refreshTargets l)(fileID \<mapsto> targets),
                       ld_refreshQueue := ld_refreshQueue l @ [fileID],
                       ld_refreshNextSlots := (ld_refreshNextSlots l)(fileID \<mapsto> 0),
                       ld_refreshFailedSlots := (ld_refreshFailedSlots l)
                         (fileID \<mapsto> replicate (nat (eng_playerLimit E)) False),
                       ld_refreshRetryAfter := (ld_refreshRetryAfter l)(fileID \<mapsto> 0)\<rparr>
            in if forceRefresh
               then l1\<lparr>ld_forcedRefreshes := (ld_forcedRefreshes l1)
                         (fileID \<mapsto> replicate (nat (eng_playerLimit E)) True)\<rparr>
               else l1))"

section \<open>Publication\<close>

text \<open>Without a string table the C++ code dereferences a null pointer; here nothing happens.\<close>

definition PublishEntryHash ::
  "'y LuaData Datapack Engine \<Rightarrow> ('y, 'w) LdEngine \<Rightarrow> int \<Rightarrow> 'y LdWorld \<Rightarrow> 'y LdWorld" where
  "PublishEntryHash E L fileID w =
     (if ld_table (ld w) = None then w
      else
        (let entry = ld_entries (ld w) fileID;
             published = (case string_item fileID w of None \<Rightarrow> None | Some item \<Rightarrow> si_userData item);
             fileName = (case string_item fileID w of None \<Rightarrow> None | Some item \<Rightarrow> si_name item);
             publishedHashChanged = (published \<noteq> Some (le_contentHash entry));
             w1 = (if publishedHashChanged
                   then with_dp (ClearClientNativeLuaHashForAllClients fileID (Some (le_contentHash entry))) w else w);
             w2 = upd_entry fileID (\<lambda>e. e\<lparr>le_hashPublished := True\<rparr>) (set_user_data fileID (le_contentHash entry) w1);
             w3 = (if ShouldQueueActiveHashRefresh (IsEnabled w) (SupportsCanonicalRegistration E w)
                        (le_activeHashRefreshPending entry) publishedHashChanged
                        (IsInitFile (case fileName of None \<Rightarrow> '''' | Some n \<Rightarrow> n))
                        (le_forceActiveHashRefreshPending entry)
                   then with_ld (QueueActiveHashRefresh E L fileID (le_forceActiveHashRefreshPending entry) None) w2
                   else w2)
         in upd_entry fileID (\<lambda>e. e\<lparr>le_activeHashRefreshPending := False,
              le_forceActiveHashRefreshPending := False\<rparr>) w3))"

definition StripContent ::
  "('y, 'w) LdEngine \<Rightarrow> string \<Rightarrow> int \<Rightarrow> bool \<Rightarrow> bool \<Rightarrow> bool \<times> string" where
  "StripContent L content fileID bRemoveServerCode bRemoveComments =
     (case lde_luaError L content of
        Some pError \<Rightarrow> (True, pError)
      | None \<Rightarrow>
          (let tokens = lde_tokenizeHook L fileID (TokenizeContent content)
           in (False,
               case ProcessTokens tokens bRemoveServerCode bRemoveComments of
                 Some (Some code) \<Rightarrow> code
               | _ \<Rightarrow> lde_undefined L tokens)))"

definition ProcessContent ::
  "Hashes \<Rightarrow> 'y LuaData Datapack Engine \<Rightarrow> ('y, 'w) LdEngine \<Rightarrow> bool \<Rightarrow> int \<Rightarrow> 'y LdWorld \<Rightarrow> 'y LdWorld" where
  "ProcessContent S E L inMainThread fileID w =
     (let entry = ld_entries (ld w) fileID;
          e1 = (if \<not> le_luapackPassthrough entry
                then (case StripContent L (le_content entry) fileID (le_removeServerCode entry) (le_removeComments entry) of
                        (bError, stripped) \<Rightarrow> if bError then entry else entry\<lparr>le_content := stripped\<rparr>)
                else entry);
          e2 = (if \<not> le_luapackPassthrough e1 \<or> \<not> le_contentHashReady e1
                then e1\<lparr>le_contentHash := HashClientLuaString S (le_content e1), le_contentHashReady := True\<rparr>
                else e1);
          w1 = upd_entry fileID (\<lambda>_. e2\<lparr>le_processed := True\<rparr>) w
      in if inMainThread then PublishEntryHash E L fileID w1
         else with_ld (\<lambda>l. l\<lparr>ld_stringTableUpdateQueue := ld_stringTableUpdateQueue l @ [fileID]\<rparr>)
                (upd_entry fileID (\<lambda>e. e\<lparr>le_hashPublished := False\<rparr>) w1))"

definition PublishRegistrationHash ::
  "Hashes \<Rightarrow> 'y LuaData Datapack Engine \<Rightarrow> ('y, 'w) LdEngine \<Rightarrow> int \<Rightarrow> 'y LdWorld \<Rightarrow> bool \<times> 'y LdWorld" where
  "PublishRegistrationHash S E L fileID w =
     (if ld_table (ld w) = None \<or> GetPackEntry fileID w = None then (False, w)
      else
        (let w1 = (if \<not> IsContentReady (ld_entries (ld w) fileID) then ProcessContent S E L True fileID w else w);
             e1 = ld_entries (ld w1) fileID;
             w2 = (if IsContentReady e1 \<and> \<not> le_hashPublished e1
                   then PublishEntryHash E L fileID (upd_entry fileID (ensure_content_hash S) w1) else w1);
             e2 = ld_entries (ld w2) fileID
         in (IsContentReady e2 \<and> le_hashPublished e2, w2)))"

section \<open>Registration\<close>

text \<open>The new state of a changed entry, before its compression is queued.\<close>

definition replaced_entry ::
  "Hashes \<Rightarrow> string \<Rightarrow> string \<Rightarrow> bool \<Rightarrow> bool \<Rightarrow> bool \<Rightarrow> bool \<Rightarrow> bool \<Rightarrow> LuaPackEntry \<Rightarrow> LuaPackEntry" where
  "replaced_entry S source content bRemoveServerCode bRemoveComments bLuaPackEnabled bLuaPackCanonical
     forceActiveHashRefresh e =
     (let e1 = e\<lparr>le_compressed := [], le_activeRefreshCompressed := None, le_activeRefreshRequested := False,
             le_activeRefreshFailed := False, le_hasSourceContent := True, le_sourceContent := source,
             le_content := content\<rparr>;
          e2 = (if bLuaPackEnabled
                then e1\<lparr>le_contentHash := HashClientLuaString S content, le_sourceHashReady := False,
                        le_contentHashReady := True\<rparr>
                else e1\<lparr>le_sourceHashReady := False, le_contentHashReady := False\<rparr>)
      in e2\<lparr>le_removeServerCode := bRemoveServerCode, le_removeComments := bRemoveComments,
            le_luapackCanonical := bLuaPackCanonical,
            le_luapackPassthrough := UsesPassthroughProcessing bLuaPackEnabled,
            le_activeHashRefreshPending := True, le_forceActiveHashRefreshPending := forceActiveHashRefresh,
            le_processed := False, le_hashPublished := False\<rparr>)"

definition AddFileContents ::
  "Hashes \<Rightarrow> 'y LuaData Datapack Engine \<Rightarrow> ('y, 'w) LdEngine \<Rightarrow> string \<Rightarrow> string \<Rightarrow> bool \<Rightarrow> 'y LdWorld \<Rightarrow> 'y LdWorld" where
  "AddFileContents S E L fileName content forceActiveHashRefresh w =
     (case ld_table (ld w) of
        None \<Rightarrow> w
      | Some items \<Rightarrow>
          (let (found, items') =
                 (case lde_findString L fileName items of
                    Some i \<Rightarrow> (Some i, items)
                  | None \<Rightarrow> lde_addString L fileName items);
               w0 = with_ld (\<lambda>l. l\<lparr>ld_table := Some items'\<rparr>) w
           in case found of
                None \<Rightarrow> w0
              | Some fileID \<Rightarrow>
                  (let entry = ld_entries (ld w0) fileID;
                       bLuaPackEnabled = IsEnabled w;
                       bCanonicalRegistration = SupportsCanonicalRegistration E w;
                       bRemoveServerCode = (ld_removeserverif (ld w) \<and> \<not> bLuaPackEnabled);
                       bRemoveComments = (ld_removecomments (ld w) \<and> \<not> bLuaPackEnabled);
                       bSameSource = (le_hasSourceContent entry \<and> le_sourceContent entry = content);
                       bSameProcessConfig =
                         (le_removeServerCode entry = bRemoveServerCode \<and> le_removeComments entry = bRemoveComments \<and>
                          RegistrationModeMatches (le_luapackCanonical entry) (le_luapackPassthrough entry)
                            bLuaPackEnabled bCanonicalRegistration)
                   in if bSameSource \<and> IsContentReady entry \<and> bSameProcessConfig
                      then
                        (let w1 = (if forceActiveHashRefresh
                                   then upd_entry fileID (\<lambda>e. (snd (EnsureSourceHash S e))\<lparr>
                                          le_activeHashRefreshPending := True,
                                          le_forceActiveHashRefreshPending := True\<rparr>) w0 else w0)
                         in PublishEntryHash E L fileID (upd_entry fileID (ensure_content_hash S) w1))
                      else
                        with_ld (\<lambda>l. l\<lparr>ld_compressQueue := ld_compressQueue l @ [fileID]\<rparr>)
                          (upd_entry fileID
                            (replaced_entry S content
                              (PrepareVanillaFile (lde_clientBootstrap L) E w fileName content)
                              bRemoveServerCode bRemoveComments bLuaPackEnabled
                              (UsesCanonicalRegistration bLuaPackEnabled bCanonicalRegistration) forceActiveHashRefresh)
                            (with_dp (InvalidatePinnedCanonicalFileForAllClients fileID) w0)))))"

section \<open>The worker\<close>

definition CompressFile :: "Bootil \<Rightarrow> Hashes \<Rightarrow> LuaPackEntry \<Rightarrow> bool \<times> LuaPackEntry" where
  "CompressFile B S e = Compress B S (snd (EnsureSourceHash S e))"

text \<open>The two passes of \<^verbatim>\<open>WorkerThread\<close> over one queued file.\<close>

definition worker_process ::
  "Hashes \<Rightarrow> 'y LuaData Datapack Engine \<Rightarrow> ('y, 'w) LdEngine \<Rightarrow> int \<Rightarrow> 'y LdWorld \<Rightarrow> 'y LdWorld" where
  "worker_process S E L fileID w =
     (if IsContentReady (ld_entries (ld w) fileID) then w else ProcessContent S E L False fileID w)"

definition worker_compress :: "Bootil \<Rightarrow> Hashes \<Rightarrow> LuaPackEntry \<Rightarrow> LuaPackEntry" where
  "worker_compress B S e =
     (if \<not> IsContentReady e then e
      else (let e1 = snd (EnsureSourceHash S e) in if \<not> IsReady e1 then snd (CompressFile B S e1) else e1))"

text \<open>
  The payload of an active refresh: asked for by the main thread, compressed by the worker outside
  the lock from a snapshot of the source and its hash, and kept only if both are still current.
\<close>

definition ActiveRefreshPayload :: "int \<Rightarrow> 'y LdWorld \<Rightarrow> u8 list option \<times> bool \<times> 'y LdWorld" where
  "ActiveRefreshPayload fileID w =
     (case GetPackEntry fileID w of
        None \<Rightarrow> (None, True, w)
      | Some entry \<Rightarrow>
          if le_activeRefreshCompressed entry \<noteq> None \<or> le_activeRefreshFailed entry
          then (le_activeRefreshCompressed entry, le_activeRefreshFailed entry, w)
          else (None, False,
            if \<not> le_activeRefreshRequested entry
            then with_ld (\<lambda>l. l\<lparr>ld_compressQueue := ld_compressQueue l @ [fileID]\<rparr>)
                   (upd_entry fileID (\<lambda>e. e\<lparr>le_activeRefreshRequested := True\<rparr>) w)
            else w))"

definition refresh_snapshot :: "LuaPackEntry \<Rightarrow> (string \<times> u8 list) option" where
  "refresh_snapshot e =
     (if \<not> le_activeRefreshRequested e \<or> \<not> le_hasSourceContent e \<or> \<not> le_sourceHashReady e then None
      else Some (le_sourceContent e, le_sourceHash e))"

definition compressed_source :: "Bootil \<Rightarrow> string \<Rightarrow> u8 list \<Rightarrow> u8 list option" where
  "compressed_source B source hash =
     (if \<not> length source < UINT_MAX then None
      else (case LZMA_Compress B (bytes_of source @ [0]) of
              None \<Rightarrow> None
            | Some compressed \<Rightarrow>
                if length (hash @ compressed) \<le> unat ActiveLuaRefreshMaximumPayloadBytes
                then Some (hash @ compressed) else None))"

definition refresh_finish :: "Bootil \<Rightarrow> string \<Rightarrow> u8 list \<Rightarrow> LuaPackEntry \<Rightarrow> LuaPackEntry" where
  "refresh_finish B source hash e =
     (if \<not> le_activeRefreshRequested e \<or> \<not> le_sourceHashReady e \<or> le_sourceHash e \<noteq> hash \<or>
         le_sourceContent e \<noteq> source then e
      else
        (let payload = compressed_source B source hash;
             e1 = e\<lparr>le_activeRefreshRequested := False, le_activeRefreshFailed := payload = None\<rparr>
         in if payload \<noteq> None then e1\<lparr>le_activeRefreshCompressed := payload\<rparr> else e1))"

section \<open>Engine broadcasts of a refreshed file\<close>

record RecipientFilter =
  rf_reliable :: bool
  rf_init :: bool
  rf_recipients :: "int list"

text \<open>
  The detour of \<^verbatim>\<open>GMOD_SendToClientFilter\<close>; a call of the engine's own function is a filter in
  the result.  \<open>engineLuaRefreshName\<close> is \<^verbatim>\<open>g_engineLuaRefreshName\<close>, the file whose reload is
  running.
\<close>

definition recipient_owner :: "'e Engine \<Rightarrow> ('y, 'w) LdEngine \<Rightarrow> 'y \<Rightarrow> int \<Rightarrow> ActiveLuaRefreshOwner option" where
  "recipient_owner E L y recipient =
     (let slot = recipient - 1;
          owner = CaptureActiveLuaRefreshOwner (lde_client L y slot)
      in if 0 \<le> slot \<and> slot < eng_playerLimit E \<and> ActiveLuaRefreshOwner_IsValid owner
         then Some owner else None)"

definition broadcast_targets :: "'e Engine \<Rightarrow> ('y, 'w) LdEngine \<Rightarrow> 'y \<Rightarrow> int list \<Rightarrow> ActiveLuaRefreshTargets" where
  "broadcast_targets E L y recipients =
     fold (\<lambda>recipient targets. case recipient_owner E L y recipient of
             None \<Rightarrow> targets
           | Some owner \<Rightarrow> ActiveLuaRefreshTargets_Capture (eng_playerLimit E) (recipient - 1) owner targets)
       recipients Map.empty"

definition hook_CVEngineServer_GMOD_SendToClientFilter ::
  "Hashes \<Rightarrow> 'y LuaData Datapack Engine \<Rightarrow> ('y, 'w) LdEngine \<Rightarrow> string option \<Rightarrow> RecipientFilter option \<Rightarrow> u8 list option
     \<Rightarrow> int \<Rightarrow> 'y LdWorld \<Rightarrow> RecipientFilter option list \<times> 'y LdWorld" where
  "hook_CVEngineServer_GMOD_SendToClientFilter S E L engineLuaRefreshName recipientFilter data dataBits w =
     (case (engineLuaRefreshName, recipientFilter, ReadActiveLuaRefreshPayload data dataBits) of
        (Some name, Some f, Some payload) \<Rightarrow>
          if name = '''' \<or> \<not> rf_reliable f \<or> rf_init f \<or>
             eng_playerLimit E < int (length (rf_recipients f)) \<or>
             \<not> IsEnabled w \<or> \<not> SupportsCanonicalRegistration E w \<or> alrp_filename payload \<noteq> bytes_of name
          then ([recipientFilter], w)
          else
            (let fileID = (case ld_table (ld w) of
                             None \<Rightarrow> - 1
                           | Some items \<Rightarrow> (case lde_findString L name items of None \<Rightarrow> - 1 | Some i \<Rightarrow> i))
             in if GetPackEntry fileID w = None \<or> IsInitFile name then ([recipientFilter], w)
                else
                  (let published = PublishRegistrationHash S E L fileID w;
                       w1 = snd published;
                       entry = ld_entries (ld w1) fileID
                   in if \<not> fst published \<or> \<not> le_hasSourceContent entry then ([recipientFilter], w1)
                      else
                        (let ensured = EnsureSourceHash S entry;
                             w2 = upd_entry fileID (\<lambda>_. snd ensured) w1
                         in if \<not> fst ensured \<or>
                               \<not> ActiveLuaRefreshBodyMatches (alrp_filename payload)
                                   (Some (le_sourceHash (snd ensured))) 32
                                   (Some (alrp_body payload)) (of_nat (length (alrp_body payload)))
                            then ([recipientFilter], w2)
                            else
                              (let w3 = upd_entry fileID (\<lambda>e. e\<lparr>
                                     le_activeRefreshCompressed := Some (alrp_body payload),
                                     le_activeRefreshRequested := False, le_activeRefreshFailed := False\<rparr>) w2;
                                   y = ld_engine (ld w3);
                                   targets = broadcast_targets E L y (rf_recipients f);
                                   joining = List.filter (\<lambda>r. recipient_owner E L y r = None) (rf_recipients f);
                                   w4 = with_ld (QueueActiveHashRefresh E L fileID True (Some targets)) w3
                               in (if joining \<noteq> []
                                   then [Some \<lparr>rf_reliable = True, rf_init = False, rf_recipients = joining\<rparr>]
                                   else [], w4)))))
      | _ \<Rightarrow> ([recipientFilter], w))"

section \<open>Main-thread publication and shutdown\<close>

definition publish_update :: "Hashes \<Rightarrow> 'y LuaData Datapack Engine \<Rightarrow> ('y, 'w) LdEngine \<Rightarrow> int \<Rightarrow> 'y LdWorld \<Rightarrow> 'y LdWorld" where
  "publish_update S E L fileID w =
     (if GetPackEntry fileID w = None then w
      else PublishEntryHash E L fileID (upd_entry fileID (ensure_content_hash S) w))"

definition publish_updates :: "Hashes \<Rightarrow> 'y LuaData Datapack Engine \<Rightarrow> ('y, 'w) LdEngine \<Rightarrow> 'y LdWorld \<Rightarrow> 'y LdWorld" where
  "publish_updates S E L w =
     fold (publish_update S E L) (ld_stringTableUpdateQueue (ld w))
       (with_ld (\<lambda>l. l\<lparr>ld_stringTableUpdateQueue := []\<rparr>) w)"

definition LuaDataPack_Shutdown :: "'y LdWorld \<Rightarrow> 'y LdWorld" where
  "LuaDataPack_Shutdown =
     with_ld (\<lambda>l. l\<lparr>ld_refreshQueue := [], ld_refreshTargets := Map.empty, ld_forcedRefreshes := Map.empty,
       ld_refreshNextSlots := Map.empty, ld_refreshFailedSlots := Map.empty, ld_refreshRetryAfter := Map.empty,
       ld_entries := (\<lambda>fileID. (ld_entries l fileID)\<lparr>le_activeRefreshRequested := False,
         le_activeHashRefreshPending := False, le_forceActiveHashRefreshPending := False\<rparr>)\<rparr>)"

end
