(* ===== verification/LuaEntriesInvariant.thy ===== *)
theory LuaEntriesInvariant
  imports LuaEntries
begin

text \<open>
  What every operation of the file cache keeps: the hashes of an entry are those of its contents, a
  stored body starts with its hash, and a hash that counts as published is in the string table.
\<close>

section \<open>What the operations do to entries and table\<close>

lemma ld_with [simp]:
  "ld (with_ld f w) = f (ld w)" "dp (with_ld f w) = (dp w)\<lparr>dp_rest := f (ld w)\<rparr>"
  "w_state (with_ld f w) = w_state w" "w_cvars (with_ld f w) = w_cvars w"
  by (simp_all add: with_ld_def with_rest_def)

lemma ld_upd_entry [simp]:
  "ld (upd_entry fileID f w) = (ld w)\<lparr>ld_entries := (ld_entries (ld w))(fileID := f (ld_entries (ld w) fileID))\<rparr>"
  by (simp add: upd_entry_def)

lemma ld_set_user_data [simp]: "ld_entries (ld (set_user_data f data w)) = ld_entries (ld w)"
  "ld_stringTableUpdateQueue (ld (set_user_data f data w)) = ld_stringTableUpdateQueue (ld w)"
  "ld_compressQueue (ld (set_user_data f data w)) = ld_compressQueue (ld w)"
  "ld_engine (ld (set_user_data f data w)) = ld_engine (ld w)"
  by (simp_all add: set_user_data_def)

lemma ld_clear_hash [simp]: "dp_rest (ClearClientNativeLuaHashForAllClients f h d) = dp_rest d"
  "dp_rest (InvalidatePinnedCanonicalFileForAllClients f d) = dp_rest d"
  by (simp_all add: ClearClientNativeLuaHashForAllClients_def InvalidatePinnedCanonicalFileForAllClients_def)

lemma Queue_keeps [simp]:
  "ld_entries (QueueActiveHashRefresh E L f b t l) = ld_entries l"
  "ld_table (QueueActiveHashRefresh E L f b t l) = ld_table l"
  "ld_stringTableUpdateQueue (QueueActiveHashRefresh E L f b t l) = ld_stringTableUpdateQueue l"
  "ld_compressQueue (QueueActiveHashRefresh E L f b t l) = ld_compressQueue l"
  "ld_engine (QueueActiveHashRefresh E L f b t l) = ld_engine l"
  by (simp_all add: QueueActiveHashRefresh_def Let_def)

text \<open>A registered file has an item in the table.\<close>

definition registered :: "'y LdWorld \<Rightarrow> int \<Rightarrow> bool" where
  "registered w fileID \<longleftrightarrow> string_item fileID w \<noteq> None"

definition user_data :: "int \<Rightarrow> 'y LdWorld \<Rightarrow> u8 list option" where
  "user_data fileID w = (case string_item fileID w of None \<Rightarrow> None | Some item \<Rightarrow> si_userData item)"

lemma string_item_set_user_data:
  "string_item g (set_user_data f data w) =
     (if g = f then map_option (\<lambda>i. i\<lparr>si_userData := Some data\<rparr>) (string_item g w) else string_item g w)"
  by (auto simp: string_item_def set_user_data_def nth_list_update nat_eq_iff split: option.split)

lemma string_item_cong: "ld_table (ld w') = ld_table (ld w) \<Longrightarrow> string_item f w' = string_item f w"
  by (simp add: string_item_def)

lemma registered_table: "registered w f \<Longrightarrow> ld_table (ld w) \<noteq> None"
  by (auto simp: registered_def string_item_def split: option.splits)

lemma Publish_effect:
  assumes "registered w f"
  shows "ld_entries (ld (PublishEntryHash E L f w)) = (ld_entries (ld w))(f := (ld_entries (ld w) f)
      \<lparr>le_hashPublished := True, le_activeHashRefreshPending := False, le_forceActiveHashRefreshPending := False\<rparr>)"
    and "string_item g (PublishEntryHash E L f w) =
      (if g = f then map_option (\<lambda>i. i\<lparr>si_userData := Some (le_contentHash (ld_entries (ld w) f))\<rparr>) (string_item g w)
       else string_item g w)"
    and "ld_stringTableUpdateQueue (ld (PublishEntryHash E L f w)) = ld_stringTableUpdateQueue (ld w)"
    and "ld_compressQueue (ld (PublishEntryHash E L f w)) = ld_compressQueue (ld w)"
proof -
  let ?h = "le_contentHash (ld_entries (ld w) f)"
  have item: "string_item g (PublishEntryHash E L f w) = string_item g (set_user_data f ?h w)"
  proof (rule string_item_cong)
    show "ld_table (ld (PublishEntryHash E L f w)) = ld_table (ld (set_user_data f ?h w))"
      using registered_table [OF assms] by (simp add: PublishEntryHash_def Let_def) (simp add: set_user_data_def)
  qed
  then show "string_item g (PublishEntryHash E L f w) =
      (if g = f then map_option (\<lambda>i. i\<lparr>si_userData := Some ?h\<rparr>) (string_item g w) else string_item g w)"
    by (simp add: string_item_set_user_data)
  show "ld_entries (ld (PublishEntryHash E L f w)) = (ld_entries (ld w))(f := (ld_entries (ld w) f)
      \<lparr>le_hashPublished := True, le_activeHashRefreshPending := False, le_forceActiveHashRefreshPending := False\<rparr>)"
    using registered_table [OF assms] by (auto simp: PublishEntryHash_def Let_def)
  show "ld_stringTableUpdateQueue (ld (PublishEntryHash E L f w)) = ld_stringTableUpdateQueue (ld w)"
    "ld_compressQueue (ld (PublishEntryHash E L f w)) = ld_compressQueue (ld w)"
    by (simp_all add: PublishEntryHash_def Let_def)
qed

section \<open>Hashes and bodies belong together\<close>

definition entry_ok :: "Bootil \<Rightarrow> Hashes \<Rightarrow> LuaPackEntry \<Rightarrow> bool" where
  "entry_ok B S e \<longleftrightarrow>
     (le_contentHashReady e \<longrightarrow> le_contentHash e = HashClientLuaString S (le_content e)) \<and>
     (le_sourceHashReady e \<longrightarrow> le_sourceHash e = HashClientLuaString S (le_sourceContent e)) \<and>
     (le_hashPublished e \<longrightarrow> le_contentHashReady e) \<and>
     (IsReady e \<longrightarrow> le_processed e \<and> le_contentHashReady e \<and>
       (le_compressed e = le_contentHash e \<or>
        (\<exists>z. LZMA_Compress B (bytes_of (le_content e) @ [0]) = Some z \<and> le_compressed e = le_contentHash e @ z))) \<and>
     (\<forall>p. le_activeRefreshCompressed e = Some p \<longrightarrow> le_sourceHashReady e \<and> (\<exists>z. p = le_sourceHash e @ z))"

definition ld_ok :: "Bootil \<Rightarrow> Hashes \<Rightarrow> 'y LdWorld \<Rightarrow> bool" where
  "ld_ok B S w \<longleftrightarrow>
     (\<forall>f. entry_ok B S (ld_entries (ld w) f)) \<and>
     (\<forall>f. le_hashPublished (ld_entries (ld w) f) \<longrightarrow> user_data f w = Some (le_contentHash (ld_entries (ld w) f))) \<and>
     (\<forall>f \<in> set (ld_stringTableUpdateQueue (ld w)) \<union> set (ld_compressQueue (ld w)). registered w f)"

lemma entry_ok_flags [simp]:
  "entry_ok B S (e\<lparr>le_activeHashRefreshPending := a\<rparr>) = entry_ok B S e"
  "entry_ok B S (e\<lparr>le_forceActiveHashRefreshPending := a\<rparr>) = entry_ok B S e"
  "entry_ok B S (e\<lparr>le_activeRefreshRequested := a\<rparr>) = entry_ok B S e"
  "entry_ok B S (e\<lparr>le_activeRefreshFailed := a\<rparr>) = entry_ok B S e"
  by (simp_all add: entry_ok_def IsReady_def)

lemma entry_ok_new: "entry_ok B S LuaPackEntry_new"
  by (simp add: entry_ok_def LuaPackEntry_new_def IsReady_def)

lemma entry_ok_ensure: "entry_ok B S e \<Longrightarrow> entry_ok B S (ensure_content_hash S e)"
  by (auto simp: entry_ok_def ensure_content_hash_def IsReady_def)

lemma ensure_ready [simp]: "le_contentHashReady (ensure_content_hash S e)"
  by (simp add: ensure_content_hash_def)

lemma ensure_keeps: "entry_ok B S e \<Longrightarrow> le_hashPublished e \<Longrightarrow> ensure_content_hash S e = e"
  by (simp add: entry_ok_def ensure_content_hash_def)

lemma ensure_fields [simp]:
  "le_hashPublished (ensure_content_hash S e) = le_hashPublished e" "le_processed (ensure_content_hash S e) = le_processed e"
  "le_compressed (ensure_content_hash S e) = le_compressed e" "le_content (ensure_content_hash S e) = le_content e"
  by (simp_all add: ensure_content_hash_def)

lemma entry_ok_source: "entry_ok B S e \<Longrightarrow> entry_ok B S (snd (EnsureSourceHash S e))"
  by (auto simp: entry_ok_def EnsureSourceHash_def IsReady_def)

lemma source_fields [simp]:
  "le_hashPublished (snd (EnsureSourceHash S e)) = le_hashPublished e"
  "le_contentHash (snd (EnsureSourceHash S e)) = le_contentHash e"
  "le_processed (snd (EnsureSourceHash S e)) = le_processed e"
  "IsReady (snd (EnsureSourceHash S e)) = IsReady e" "IsContentReady (snd (EnsureSourceHash S e)) = IsContentReady e"
  by (auto simp: EnsureSourceHash_def IsReady_def IsContentReady_def)

lemma entry_ok_Compress:
  assumes "entry_ok B S e" and "le_processed e" and "\<not> IsReady e"
  shows "entry_ok B S (snd (Compress B S e))"
    and "le_hashPublished (snd (Compress B S e)) = le_hashPublished e"
    and "le_hashPublished e \<Longrightarrow> le_contentHash (snd (Compress B S e)) = le_contentHash e"
  using assms entry_ok_ensure [OF assms(1)] ensure_keeps [OF assms(1)]
  by (auto simp: Compress_def Let_def IsReady_def entry_ok_def split: option.split)

lemma entry_ok_worker:
  assumes "entry_ok B S e"
  shows "entry_ok B S (worker_compress B S e)"
    and "le_hashPublished (worker_compress B S e) = le_hashPublished e"
    and "le_hashPublished e \<Longrightarrow> le_contentHash (worker_compress B S e) = le_contentHash e"
proof -
  let ?e = "snd (EnsureSourceHash S (snd (EnsureSourceHash S e)))"
  have ok: "entry_ok B S ?e" using assms by (intro entry_ok_source)
  show "entry_ok B S (worker_compress B S e)" "le_hashPublished (worker_compress B S e) = le_hashPublished e"
    "le_hashPublished e \<Longrightarrow> le_contentHash (worker_compress B S e) = le_contentHash e"
    using assms entry_ok_source [OF assms] entry_ok_Compress [OF ok]
    by (auto simp: worker_compress_def CompressFile_def IsContentReady_def Let_def)
qed

lemma entry_ok_replaced:
  "\<lbrakk>entry_ok B S e; \<And>x. sha256_bytes S x \<noteq> []\<rbrakk> \<Longrightarrow> entry_ok B S (replaced_entry S source content a b c d f e)"
  by (simp add: entry_ok_def replaced_entry_def IsReady_def Let_def)

lemma entry_ok_finish:
  assumes "entry_ok B S e"
  shows "entry_ok B S (refresh_finish B source hash e)"
    and "le_hashPublished (refresh_finish B source hash e) = le_hashPublished e"
    and "le_contentHash (refresh_finish B source hash e) = le_contentHash e"
proof -
  let ?stale = "\<not> le_activeRefreshRequested e \<or> \<not> le_sourceHashReady e \<or> le_sourceHash e \<noteq> hash \<or> le_sourceContent e \<noteq> source"
  have eq: "refresh_finish B source hash e =
      (if ?stale then e else
       (let p = compressed_source B source hash;
            e1 = e\<lparr>le_activeRefreshRequested := False, le_activeRefreshFailed := p = None\<rparr>
        in if p \<noteq> None then e1\<lparr>le_activeRefreshCompressed := p\<rparr> else e1))"
    by (simp only: refresh_finish_def)
  have "\<exists>z. p = hash @ z" if "compressed_source B source hash = Some p" for p
    using that by (simp add: compressed_source_def split: if_splits option.splits) blast
  then show "entry_ok B S (refresh_finish B source hash e)"
    using assms by (cases ?stale; cases "compressed_source B source hash")
      (simp_all only: eq if_True if_False Let_def, auto simp: entry_ok_def IsReady_def)
  show "le_hashPublished (refresh_finish B source hash e) = le_hashPublished e"
    "le_contentHash (refresh_finish B source hash e) = le_contentHash e"
    by (cases ?stale; simp only: eq if_True if_False Let_def; simp)+
qed

text \<open>The string table: a found index is in range, and adding keeps what is there.\<close>

definition table_laws :: "('y, 'w) LdEngine \<Rightarrow> bool" where
  "table_laws L \<longleftrightarrow>
     (\<forall>n items i. lde_findString L n items = Some i \<longrightarrow> 0 \<le> i \<and> i < int (length items)) \<and>
     (\<forall>n items r items'. lde_addString L n items = (r, items') \<longrightarrow>
        length items \<le> length items' \<and> take (length items) items' = items \<and>
        (\<forall>i. r = Some i \<longrightarrow> 0 \<le> i \<and> i < int (length items')))"

lemma ld_ok_entry:
  assumes "ld_ok B S w" and "entry_ok B S (f (ld_entries (ld w) i))"
    and "le_hashPublished (f (ld_entries (ld w) i)) \<Longrightarrow>
      le_hashPublished (ld_entries (ld w) i) \<and> le_contentHash (f (ld_entries (ld w) i)) = le_contentHash (ld_entries (ld w) i)"
  shows "ld_ok B S (upd_entry i f w)"
proof -
  have "string_item g (upd_entry i f w) = string_item g w" for g by (rule string_item_cong) simp
  then show ?thesis using assms by (auto simp: ld_ok_def user_data_def registered_def)
qed

lemma ld_ok_queue:
  assumes "ld_ok B S w" and "ld_entries (f (ld w)) = ld_entries (ld w)" and "ld_table (f (ld w)) = ld_table (ld w)"
    and "set (ld_stringTableUpdateQueue (f (ld w))) \<union> set (ld_compressQueue (f (ld w))) \<subseteq> {g. registered w g}"
  shows "ld_ok B S (with_ld f w)"
proof -
  have "string_item g (with_ld f w) = string_item g w" for g by (rule string_item_cong) (simp add: assms(3))
  then show ?thesis using assms by (auto simp: ld_ok_def user_data_def registered_def)
qed

text \<open>Everything but the entry about to be published may rely on the invariant.\<close>

definition ld_ok_but :: "int \<Rightarrow> Bootil \<Rightarrow> Hashes \<Rightarrow> 'y LdWorld \<Rightarrow> bool" where
  "ld_ok_but i B S w \<longleftrightarrow>
     (\<forall>f. entry_ok B S (ld_entries (ld w) f)) \<and>
     (\<forall>f. f \<noteq> i \<and> le_hashPublished (ld_entries (ld w) f) \<longrightarrow>
       user_data f w = Some (le_contentHash (ld_entries (ld w) f))) \<and>
     (\<forall>f \<in> set (ld_stringTableUpdateQueue (ld w)) \<union> set (ld_compressQueue (ld w)). registered w f) \<and>
     registered w i \<and> le_contentHashReady (ld_entries (ld w) i)"

lemma ld_ok_publish:
  assumes "ld_ok_but i B S w"
  shows "ld_ok B S (PublishEntryHash E L i w)"
proof -
  have r: "registered w i" using assms by (simp add: ld_ok_but_def)
  note eff = Publish_effect [OF r, where E = E and L = L]
  have "entry_ok B S ((ld_entries (ld w) i)\<lparr>le_hashPublished := True, le_activeHashRefreshPending := False,
      le_forceActiveHashRefreshPending := False\<rparr>)"
    using assms by (auto simp: ld_ok_but_def entry_ok_def IsReady_def)
  then show ?thesis
    using assms r by (auto simp: ld_ok_def ld_ok_but_def eff user_data_def registered_def)
qed

lemma ld_ok_but_entry:
  assumes "ld_ok B S w" and "registered w i" and "entry_ok B S (f (ld_entries (ld w) i))"
    and "le_contentHashReady (f (ld_entries (ld w) i))"
  shows "ld_ok_but i B S (upd_entry i f w)"
proof -
  have "string_item g (upd_entry i f w) = string_item g w" for g by (rule string_item_cong) simp
  then show ?thesis using assms by (auto simp: ld_ok_def ld_ok_but_def user_data_def registered_def)
qed

lemma ld_ok_but_unpublish:
  assumes "ld_ok_but i B S w" and "entry_ok B S (f (ld_entries (ld w) i))"
    and "\<not> le_hashPublished (f (ld_entries (ld w) i))"
  shows "ld_ok B S (upd_entry i f w)"
proof -
  have "string_item g (upd_entry i f w) = string_item g w" for g by (rule string_item_cong) simp
  then show ?thesis using assms by (auto simp: ld_ok_def ld_ok_but_def user_data_def registered_def)
qed

lemma ld_ok_publish_ensured:
  "\<lbrakk>ld_ok B S w; registered w i\<rbrakk> \<Longrightarrow> ld_ok B S (PublishEntryHash E L i (upd_entry i (ensure_content_hash S) w))"
  by (rule ld_ok_publish, rule ld_ok_but_entry) (auto simp: ld_ok_def intro: entry_ok_ensure)

text \<open>Processing an entry that is not processed yet: it has no body, so its content may change.\<close>

definition processed_entry ::
  "Hashes \<Rightarrow> ('y, 'w) LdEngine \<Rightarrow> int \<Rightarrow> LuaPackEntry \<Rightarrow> LuaPackEntry" where
  "processed_entry S L fileID entry =
     (let e1 = (if \<not> le_luapackPassthrough entry
                then (case StripContent L (le_content entry) fileID (le_removeServerCode entry) (le_removeComments entry) of
                        (bError, stripped) \<Rightarrow> if bError then entry else entry\<lparr>le_content := stripped\<rparr>)
                else entry);
          e2 = (if \<not> le_luapackPassthrough e1 \<or> \<not> le_contentHashReady e1
                then e1\<lparr>le_contentHash := HashClientLuaString S (le_content e1), le_contentHashReady := True\<rparr>
                else e1)
      in e2\<lparr>le_processed := True\<rparr>)"

lemma upd_entry_const: "upd_entry i f w = upd_entry i (\<lambda>_. f (ld_entries (ld w) i)) w"
  by (simp add: upd_entry_def with_ld_def with_rest_def)

lemma ProcessContent_entry:
  "ProcessContent S E L b i w =
     (let w1 = upd_entry i (processed_entry S L i) w
      in if b then PublishEntryHash E L i w1
         else with_ld (\<lambda>l. l\<lparr>ld_stringTableUpdateQueue := ld_stringTableUpdateQueue l @ [i]\<rparr>)
                (upd_entry i (\<lambda>e. e\<lparr>le_hashPublished := False\<rparr>) w1))"
  unfolding upd_entry_const [where f = "processed_entry S L i"]
  by (simp only: ProcessContent_def processed_entry_def Let_def)

lemma entry_ok_processed:
  assumes "entry_ok B S e" and "\<not> le_processed e"
  shows "entry_ok B S (processed_entry S L i e)" and "le_contentHashReady (processed_entry S L i e)"
    and "le_processed (processed_entry S L i e)"
  using assms
  by (auto simp: processed_entry_def entry_ok_def IsReady_def Let_def split: prod.split)

lemma ld_ok_process:
  assumes "ld_ok B S w" and "registered w i" and "\<not> le_processed (ld_entries (ld w) i)"
  shows "ld_ok B S (ProcessContent S E L b i w)"
proof -
  have e: "entry_ok B S (ld_entries (ld w) i)" using assms(1) by (simp add: ld_ok_def)
  note p = entry_ok_processed [OF e assms(3), of L i]
  let ?w1 = "upd_entry i (processed_entry S L i) w"
  have but: "ld_ok_but i B S ?w1" by (rule ld_ok_but_entry [where f = "processed_entry S L i", OF assms(1,2) p(1,2)])
  have "entry_ok B S ((processed_entry S L i (ld_entries (ld w) i))\<lparr>le_hashPublished := False\<rparr>)"
    using p(1) by (auto simp: entry_ok_def IsReady_def)
  then have "ld_ok B S (upd_entry i (\<lambda>e. e\<lparr>le_hashPublished := False\<rparr>) ?w1)"
    by (intro ld_ok_but_unpublish [OF but]) simp_all
  then have "ld_ok B S (with_ld (\<lambda>l. l\<lparr>ld_stringTableUpdateQueue := ld_stringTableUpdateQueue l @ [i]\<rparr>)
      (upd_entry i (\<lambda>e. e\<lparr>le_hashPublished := False\<rparr>) ?w1))"
  proof (rule ld_ok_queue)
    have "string_item g (upd_entry i (\<lambda>e. e\<lparr>le_hashPublished := False\<rparr>) ?w1) = string_item g w" for g
      by (rule string_item_cong) simp
    then show "set (ld_stringTableUpdateQueue ((\<lambda>l. l\<lparr>ld_stringTableUpdateQueue := ld_stringTableUpdateQueue l @ [i]\<rparr>)
        (ld (upd_entry i (\<lambda>e. e\<lparr>le_hashPublished := False\<rparr>) ?w1)))) \<union>
        set (ld_compressQueue ((\<lambda>l. l\<lparr>ld_stringTableUpdateQueue := ld_stringTableUpdateQueue l @ [i]\<rparr>)
        (ld (upd_entry i (\<lambda>e. e\<lparr>le_hashPublished := False\<rparr>) ?w1)))) \<subseteq>
        {g. registered (upd_entry i (\<lambda>e. e\<lparr>le_hashPublished := False\<rparr>) ?w1) g}"
      using assms(1,2) by (auto simp: registered_def ld_ok_def)
  qed simp_all
  then show ?thesis using ld_ok_publish [OF but, where E = E and L = L] by (simp add: ProcessContent_entry Let_def)
qed

lemma registered_keeps [simp]:
  "registered (upd_entry i f w) g = registered w g"
  by (simp add: registered_def string_item_def)

lemma registered_publish [simp]: "registered w f \<Longrightarrow> registered (PublishEntryHash E L f w) g = registered w g"
  by (simp add: registered_def Publish_effect(2))

lemma registered_process [simp]: "registered w i \<Longrightarrow> registered (ProcessContent S E L b i w) g = registered w g"
  by (simp add: ProcessContent_entry Let_def) (simp add: registered_def string_item_def)

lemma ld_ok_registration:
  assumes "ld_ok B S w" and "registered w i"
  shows "ld_ok B S (snd (PublishRegistrationHash S E L i w))"
proof -
  let ?w1 = "if \<not> IsContentReady (ld_entries (ld w) i) then ProcessContent S E L True i w else w"
  have w1: "ld_ok B S ?w1" "registered ?w1 i"
    using assms by (auto simp: IsContentReady_def intro: ld_ok_process)
  note pub = ld_ok_publish_ensured [OF w1, where E = E and L = L]
  show ?thesis
    using assms(1) w1 pub by (cases "IsContentReady (ld_entries (ld w) i)") (simp_all add: PublishRegistrationHash_def Let_def)
qed

lemma ld_ok_cong: "ld w' = ld w \<Longrightarrow> ld_ok B S w' = ld_ok B S w"
  by (simp add: ld_ok_def user_data_def registered_def string_item_def)

lemma ld_ok_table:
  assumes "ld_ok B S w" and "ld_table (ld w) = Some items" and "length items \<le> length items'"
    and "take (length items) items' = items"
  shows "ld_ok B S (with_ld (\<lambda>l. l\<lparr>ld_table := Some items'\<rparr>) w)"
proof -
  have "string_item g (with_ld (\<lambda>l. l\<lparr>ld_table := Some items'\<rparr>) w) = string_item g w" if "string_item g w \<noteq> None" for g
    using that assms(2-4) nth_take [of "nat g" "length items" items']
    by (auto simp: string_item_def split: if_splits)
  moreover have "string_item g w \<noteq> None" if "user_data g w = Some h" for g h
    using that by (auto simp: user_data_def split: option.splits)
  ultimately show ?thesis using assms(1) unfolding ld_ok_def registered_def user_data_def
    by (simp add: subset_iff)
qed

definition hash_laws :: "Hashes \<Rightarrow> bool" where
  "hash_laws S \<longleftrightarrow> (\<forall>x. length (sha256_bytes S x) = 32)"

lemma AddFileContents_cases:
  fixes S :: Hashes and E :: "'y LuaData Datapack Engine" and n c :: string
  assumes "table_laws L" and "ld_ok B S w"
  obtains (no_table) "AddFileContents S E L n c force w = w"
  | (no_room) items' w0 where "w0 = with_ld (\<lambda>l. l\<lparr>ld_table := Some items'\<rparr>) w" "ld_ok B S w0"
      "AddFileContents S E L n c force w = w0"
  | (same) items' w0 fileID f where "w0 = with_ld (\<lambda>l. l\<lparr>ld_table := Some items'\<rparr>) w" "ld_ok B S w0" "registered w0 fileID"
      "f = (\<lambda>e. if force then (snd (EnsureSourceHash S e))\<lparr>le_activeHashRefreshPending := True,
          le_forceActiveHashRefreshPending := True\<rparr> else e)"
      "AddFileContents S E L n c force w = PublishEntryHash E L fileID (upd_entry fileID (ensure_content_hash S) (upd_entry fileID f w0))"
  | (changed) items' w0 fileID content bs bc can where "w0 = with_ld (\<lambda>l. l\<lparr>ld_table := Some items'\<rparr>) w" "ld_ok B S w0"
      "registered w0 fileID"
      "AddFileContents S E L n c force w = with_ld (\<lambda>l. l\<lparr>ld_compressQueue := ld_compressQueue l @ [fileID]\<rparr>)
        (upd_entry fileID (replaced_entry S c content bs bc (IsEnabled w) can force)
          (with_dp (InvalidatePinnedCanonicalFileForAllClients fileID) w0))"
proof (cases "ld_table (ld w)")
  case None
  then show ?thesis using no_table by (simp add: AddFileContents_def)
next
  case (Some items)
  obtain found items' where found: "(case lde_findString L n items of Some i \<Rightarrow> (Some i, items) | None \<Rightarrow> lde_addString L n items) = (found, items')"
    by (metis surj_pair)
  have laws: "length items \<le> length items'" "take (length items) items' = items"
    "\<And>i. found = Some i \<Longrightarrow> 0 \<le> i \<and> i < int (length items')"
    using assms(1) found unfolding table_laws_def by (auto split: option.splits)
  define w0 where "w0 = with_ld (\<lambda>l. l\<lparr>ld_table := Some items'\<rparr>) w"
  have ok: "ld_ok B S w0" unfolding w0_def by (rule ld_ok_table [OF assms(2) Some laws(1,2)])
  show ?thesis
  proof (cases found)
    case None
    have "AddFileContents S E L n c force w = w0"
      using Some found None by (simp add: AddFileContents_def w0_def)
    then show ?thesis using no_room [OF w0_def ok] by simp
  next
    case (Some i)
    have r: "registered w0 i" using laws(3) [OF Some] by (simp add: w0_def registered_def string_item_def nat_less_iff)
    note eq = AddFileContents_def [of S E L n c force w, unfolded \<open>ld_table (ld w) = Some items\<close> option.case
        found prod.case Let_def Some, folded w0_def]
    have id: "upd_entry i (\<lambda>e. e) w0 = w0" by (simp add: upd_entry_def with_ld_def with_rest_def)
    have "AddFileContents S E L n c force w = PublishEntryHash E L i (upd_entry i (ensure_content_hash S)
        (upd_entry i (\<lambda>e. if force then (snd (EnsureSourceHash S e))\<lparr>le_activeHashRefreshPending := True,
          le_forceActiveHashRefreshPending := True\<rparr> else e) w0)) \<or>
      AddFileContents S E L n c force w = with_ld (\<lambda>l. l\<lparr>ld_compressQueue := ld_compressQueue l @ [i]\<rparr>)
        (upd_entry i (replaced_entry S c (PrepareVanillaFile (lde_clientBootstrap L) E w n c)
            (ld_removeserverif (ld w) \<and> \<not> IsEnabled w) (ld_removecomments (ld w) \<and> \<not> IsEnabled w) (IsEnabled w)
            (UsesCanonicalRegistration (IsEnabled w) (SupportsCanonicalRegistration E w)) force)
          (with_dp (InvalidatePinnedCanonicalFileForAllClients i) w0))"
      unfolding eq by (cases force) (simp_all add: id)
    then show ?thesis using same [OF w0_def ok r refl] changed [OF w0_def ok r] by blast
  qed
qed

lemma ld_ok_add:
  assumes "table_laws L" and "hash_laws S" and "ld_ok B S w"
  shows "ld_ok B S (AddFileContents S E L n c force w)"
proof (rule AddFileContents_cases [OF assms(1,3), where E = E and n = n and c = c and force = force])
  fix items' w0 fileID f
  assume a: "w0 = with_ld (\<lambda>l. l\<lparr>ld_table := Some items'\<rparr>) w" "ld_ok B S w0" "registered w0 fileID"
    "f = (\<lambda>e. if force then (snd (EnsureSourceHash S e))\<lparr>le_activeHashRefreshPending := True,
          le_forceActiveHashRefreshPending := True\<rparr> else e)"
    "AddFileContents S E L n c force w =
      PublishEntryHash E L fileID (upd_entry fileID (ensure_content_hash S) (upd_entry fileID f w0))"
  let ?e = "ld_entries (ld w0) fileID"
  have e: "entry_ok B S ?e" using a(2) by (simp add: ld_ok_def)
  have "entry_ok B S (f ?e)" using e entry_ok_source [OF e] by (simp add: a(4))
  moreover have "le_hashPublished (f ?e) = le_hashPublished ?e" "le_contentHash (f ?e) = le_contentHash ?e"
    by (simp_all add: a(4))
  ultimately have "ld_ok B S (upd_entry fileID f w0)" by (intro ld_ok_entry [OF a(2)]) simp_all
  then show ?thesis unfolding a(5) by (rule ld_ok_publish_ensured) (simp add: a(3))
next
  fix items' w0 fileID content bs bc can
  assume a: "w0 = with_ld (\<lambda>l. l\<lparr>ld_table := Some items'\<rparr>) w" "ld_ok B S w0" "registered w0 fileID"
    "AddFileContents S E L n c force w = with_ld (\<lambda>l. l\<lparr>ld_compressQueue := ld_compressQueue l @ [fileID]\<rparr>)
        (upd_entry fileID (replaced_entry S c content bs bc (IsEnabled w) can force)
          (with_dp (InvalidatePinnedCanonicalFileForAllClients fileID) w0))"
  let ?w1 = "with_dp (InvalidatePinnedCanonicalFileForAllClients fileID) w0"
  let ?f = "replaced_entry S c content bs bc (IsEnabled w) can force"
  have ld: "ld ?w1 = ld w0" by simp
  have ok1: "ld_ok B S ?w1" using a(2) by (simp only: ld_ok_cong [OF ld])
  have "sha256_bytes S x \<noteq> []" for x using assms(2) by (auto simp: hash_laws_def dest: spec [of _ x])
  then have "entry_ok B S (?f (ld_entries (ld ?w1) fileID))"
    using ok1 by (intro entry_ok_replaced) (simp_all add: ld_ok_def)
  then have ok2: "ld_ok B S (upd_entry fileID ?f ?w1)"
    by (rule ld_ok_entry [OF ok1]) (simp add: replaced_entry_def Let_def)
  have reg: "registered (upd_entry fileID ?f ?w1) g = registered w0 g" for g by (simp add: registered_def string_item_def)
  have queues: "registered w0 g" if "g \<in> set (ld_stringTableUpdateQueue (ld w0)) \<union> set (ld_compressQueue (ld w0))" for g
    using a(2) that by (simp add: ld_ok_def)
  show ?thesis unfolding a(4)
    by (rule ld_ok_queue [OF ok2]; simp only: reg ld_upd_entry ld; simp) (use queues a(3) in blast)
qed (use assms(3) in simp_all)

lemma ld_ok_worker:
  assumes "ld_ok B S w"
  shows "registered w f \<Longrightarrow> ld_ok B S (worker_process S E L f w)"
    and "ld_ok B S (upd_entry f (worker_compress B S) w)"
    and "ld_ok B S (upd_entry f (refresh_finish B source hash) w)"
proof -
  show "ld_ok B S (worker_process S E L f w)" if "registered w f"
    using assms ld_ok_process [OF assms that, where E = E and L = L] by (simp add: worker_process_def IsContentReady_def)
  have e: "entry_ok B S (ld_entries (ld w) f)" using assms by (simp add: ld_ok_def)
  show "ld_ok B S (upd_entry f (worker_compress B S) w)"
    using entry_ok_worker [OF e] by (intro ld_ok_entry [OF assms]) simp_all
  show "ld_ok B S (upd_entry f (refresh_finish B source hash) w)"
    using entry_ok_finish [OF e] by (intro ld_ok_entry [OF assms]) simp_all
qed

lemma ld_ok_payload:
  assumes "ld_ok B S w" and "registered w f"
  shows "ld_ok B S (snd (snd (ActiveRefreshPayload f w)))"
proof -
  let ?w1 = "upd_entry f (\<lambda>e. e\<lparr>le_activeRefreshRequested := True\<rparr>) w"
  have ok1: "ld_ok B S ?w1" by (rule ld_ok_entry [OF assms(1)]) (use assms(1) in \<open>simp_all add: ld_ok_def\<close>)
  have "ld_ok B S (with_ld (\<lambda>l. l\<lparr>ld_compressQueue := ld_compressQueue l @ [f]\<rparr>) ?w1)"
    by (rule ld_ok_queue [OF ok1]) (use assms in \<open>auto simp: ld_ok_def\<close>)
  then show ?thesis using assms(1) by (auto simp: ActiveRefreshPayload_def split: option.split)
qed

lemma ld_ok_publish_update:
  assumes "ld_ok B S w" and "registered w f"
  shows "ld_ok B S (publish_update S E L f w)" and "registered (publish_update S E L f w) g = registered w g"
  using assms ld_ok_publish_ensured [OF assms, where E = E and L = L] by (simp_all add: publish_update_def)

lemma ld_ok_updates:
  "\<lbrakk>ld_ok B S w; \<forall>f \<in> set fs. registered w f\<rbrakk> \<Longrightarrow> ld_ok B S (fold (publish_update S E L) fs w)"
proof (induction fs arbitrary: w)
  case (Cons f fs)
  then have "registered w f" by simp
  note pu = ld_ok_publish_update [OF Cons.prems(1) this, where E = E and L = L]
  show ?case using Cons.IH [OF pu(1)] Cons.prems(2) by (simp add: pu(2))
qed simp

lemma ld_ok_publish_updates:
  assumes "ld_ok B S w"
  shows "ld_ok B S (publish_updates S E L w)"
proof -
  have reg: "registered (with_ld (\<lambda>l. l\<lparr>ld_stringTableUpdateQueue := []\<rparr>) w) g = registered w g" for g
    by (simp add: registered_def string_item_def)
  have "ld_ok B S (with_ld (\<lambda>l. l\<lparr>ld_stringTableUpdateQueue := []\<rparr>) w)"
    by (rule ld_ok_queue [OF assms]) (use assms in \<open>simp_all add: ld_ok_def subset_iff\<close>)
  then show ?thesis unfolding publish_updates_def
    by (rule ld_ok_updates) (use assms in \<open>simp add: reg ld_ok_def\<close>)
qed

lemma ld_ok_shutdown:
  assumes "ld_ok B S w"
  shows "ld_ok B S (LuaDataPack_Shutdown w)"
proof -
  have "string_item g (LuaDataPack_Shutdown w) = string_item g w" for g
    by (rule string_item_cong) (simp add: LuaDataPack_Shutdown_def)
  then show ?thesis
    using assms unfolding ld_ok_def user_data_def registered_def by (simp add: LuaDataPack_Shutdown_def)
qed

section \<open>Broadcasts\<close>

lemma ensured_source: "fst (EnsureSourceHash S e) \<Longrightarrow> le_sourceHashReady (snd (EnsureSourceHash S e))"
  by (auto simp: EnsureSourceHash_def split: if_splits)

lemma matched_body:
  assumes "hash_laws S" and "entry_ok B S e" and "le_sourceHashReady e"
    and "ActiveLuaRefreshBodyMatches n (Some (le_sourceHash e)) 32 (Some body) k"
  shows "body = le_sourceHash e @ drop 32 body"
proof -
  have "length (le_sourceHash e) = 32"
    using assms(1-3) by (simp add: hash_laws_def entry_ok_def HashClientLuaString_def)
  moreover have "take 32 body = take 32 (le_sourceHash e)" using assms(4) by (simp add: ActiveLuaRefreshBodyMatches_def)
  ultimately show ?thesis using append_take_drop_id [of 32 body] by simp
qed

lemma broadcast_cases:
  fixes w :: "'y LdWorld"
  obtains (engine) w1 where
      "hook_CVEngineServer_GMOD_SendToClientFilter S E L name recipientFilter data dataBits w = ([recipientFilter], w1)"
      "w1 = w \<or> (\<exists>fileID w2. w2 = snd (PublishRegistrationHash S E L fileID w) \<and>
         (w1 = w2 \<or> w1 = upd_entry fileID (\<lambda>_. snd (EnsureSourceHash S (ld_entries (ld w2) fileID))) w2) \<and>
         (\<exists>n items. ld_table (ld w) = Some items \<and> lde_findString L n items = Some fileID))"
  | (diverted) n f payload fileID items w1 w2 w3 where
      "name = Some n" "recipientFilter = Some f" "ReadActiveLuaRefreshPayload data dataBits = Some payload"
      "ld_table (ld w) = Some items" "lde_findString L n items = Some fileID" "GetPackEntry fileID w \<noteq> None"
      "w1 = snd (PublishRegistrationHash S E L fileID w)" "fst (PublishRegistrationHash S E L fileID w)"
      "w2 = upd_entry fileID (\<lambda>_. snd (EnsureSourceHash S (ld_entries (ld w1) fileID))) w1"
      "fst (EnsureSourceHash S (ld_entries (ld w1) fileID))" "alrp_filename payload = bytes_of n"
      "ActiveLuaRefreshBodyMatches (alrp_filename payload)
         (Some (le_sourceHash (snd (EnsureSourceHash S (ld_entries (ld w1) fileID))))) 32
         (Some (alrp_body payload)) (of_nat (length (alrp_body payload)))"
      "w3 = upd_entry fileID (\<lambda>e. e\<lparr>le_activeRefreshCompressed := Some (alrp_body payload),
         le_activeRefreshRequested := False, le_activeRefreshFailed := False\<rparr>) w2"
      "hook_CVEngineServer_GMOD_SendToClientFilter S E L name recipientFilter data dataBits w =
        (let y = ld_engine (ld w3);
             joining = List.filter (\<lambda>r. recipient_owner E L y r = None) (rf_recipients f)
         in (if joining \<noteq> [] then [Some \<lparr>rf_reliable = True, rf_init = False, rf_recipients = joining\<rparr>] else [],
             with_ld (QueueActiveHashRefresh E L fileID True (Some (broadcast_targets E L y (rf_recipients f)))) w3))"
proof (cases "\<exists>n f payload. name = Some n \<and> recipientFilter = Some f \<and> ReadActiveLuaRefreshPayload data dataBits = Some payload \<and>
    \<not> (n = '''' \<or> \<not> rf_reliable f \<or> rf_init f \<or> eng_playerLimit E < int (length (rf_recipients f)) \<or>
       \<not> IsEnabled w \<or> \<not> SupportsCanonicalRegistration E w \<or> alrp_filename payload \<noteq> bytes_of n)")
  case False
  then have "hook_CVEngineServer_GMOD_SendToClientFilter S E L name recipientFilter data dataBits w = ([recipientFilter], w)"
    by (auto simp: hook_CVEngineServer_GMOD_SendToClientFilter_def split: option.split)
  then show ?thesis using engine by blast
next
  case True
  then obtain n f payload where g: "name = Some n" "recipientFilter = Some f"
    "ReadActiveLuaRefreshPayload data dataBits = Some payload" "alrp_filename payload = bytes_of n"
    "(n = '''' \<or> \<not> rf_reliable f \<or> rf_init f \<or> eng_playerLimit E < int (length (rf_recipients f)) \<or>
       \<not> IsEnabled w \<or> \<not> SupportsCanonicalRegistration E w \<or> alrp_filename payload \<noteq> bytes_of n) = False" by blast
  define fileID where "fileID = (case ld_table (ld w) of None \<Rightarrow> - 1
    | Some items \<Rightarrow> (case lde_findString L n items of None \<Rightarrow> - 1 | Some i \<Rightarrow> i))"
  define w1 where "w1 = snd (PublishRegistrationHash S E L fileID w)"
  define entry where "entry = ld_entries (ld w1) fileID"
  define w2 where "w2 = upd_entry fileID (\<lambda>_. snd (EnsureSourceHash S entry)) w1"
  note eq = hook_CVEngineServer_GMOD_SendToClientFilter_def [of S E L name recipientFilter data dataBits w,
      unfolded g(1-3) option.case prod.case g(5) if_False, folded fileID_def, unfolded Let_def, folded w1_def,
      folded entry_def, folded w2_def, folded g(1,2)]
  show ?thesis
  proof (cases "GetPackEntry fileID w = None \<or> IsInitFile n")
    case True
    then show ?thesis using engine eq by simp
  next
    case False
    then obtain items where items: "ld_table (ld w) = Some items" "lde_findString L n items = Some fileID"
      by (auto simp: fileID_def GetPackEntry_def split: option.splits)
    note eq1 = eq [unfolded if_not_P [OF False]]
    show ?thesis
    proof (cases "\<not> fst (PublishRegistrationHash S E L fileID w) \<or> \<not> le_hasSourceContent entry")
      case True
      show ?thesis by (rule engine [OF eq1 [unfolded if_P [OF True]]]) (use items w1_def in blast)
    next
      case no: False
      note eq2 = eq1 [unfolded if_not_P [OF no]]
      show ?thesis
      proof (cases "\<not> fst (EnsureSourceHash S entry) \<or> \<not> ActiveLuaRefreshBodyMatches (alrp_filename payload)
          (Some (le_sourceHash (snd (EnsureSourceHash S entry)))) 32 (Some (alrp_body payload)) (of_nat (length (alrp_body payload)))")
        case True
        show ?thesis by (rule engine [OF eq2 [unfolded if_P [OF True]]]) (use items w1_def w2_def entry_def in blast)
      next
        case last: False
        show ?thesis
          by (rule diverted [OF g(1-3) items _ w1_def _ w2_def [unfolded entry_def] _ g(4) _ refl])
            (use False no last eq2 [unfolded if_not_P [OF last]] in \<open>simp_all add: Let_def entry_def\<close>)
      qed
    qed
  qed
qed

lemma ld_ok_registered: "table_laws L \<Longrightarrow> ld_table (ld w) = Some items \<Longrightarrow> lde_findString L n items = Some i \<Longrightarrow> registered w i"
  by (auto simp: table_laws_def registered_def string_item_def nat_less_iff)

lemma registration_keeps:
  assumes "registered w i"
  shows "registered (snd (PublishRegistrationHash S E L i w)) g = registered w g"
  using assms by (simp add: PublishRegistrationHash_def Let_def)

lemma ld_ok_source:
  assumes "ld_ok B S w"
  shows "ld_ok B S (upd_entry i (\<lambda>_. snd (EnsureSourceHash S (ld_entries (ld w) i))) w)"
  by (rule ld_ok_entry [OF assms]) (use assms in \<open>auto simp: ld_ok_def intro: entry_ok_source\<close>)

lemma entry_ok_body:
  "\<lbrakk>entry_ok B S e; le_sourceHashReady e; \<exists>z. p = le_sourceHash e @ z\<rbrakk> \<Longrightarrow>
    entry_ok B S (e\<lparr>le_activeRefreshCompressed := Some p\<rparr>)"
  unfolding entry_ok_def IsReady_def by simp (metis (no_types))

lemma ld_ok_broadcast:
  assumes "table_laws L" and "hash_laws S" and "ld_ok B S w"
  shows "ld_ok B S (snd (hook_CVEngineServer_GMOD_SendToClientFilter S E L name recipientFilter data dataBits w))"
proof (rule broadcast_cases [where S = S and E = E and L = L and name = name and recipientFilter = recipientFilter
      and data = data and dataBits = dataBits and w = w])
  fix w1
  assume a: "hook_CVEngineServer_GMOD_SendToClientFilter S E L name recipientFilter data dataBits w = ([recipientFilter], w1)"
    "w1 = w \<or> (\<exists>fileID w2. w2 = snd (PublishRegistrationHash S E L fileID w) \<and>
         (w1 = w2 \<or> w1 = upd_entry fileID (\<lambda>_. snd (EnsureSourceHash S (ld_entries (ld w2) fileID))) w2) \<and>
         (\<exists>n items. ld_table (ld w) = Some items \<and> lde_findString L n items = Some fileID))"
  from a(2) have "ld_ok B S w1"
  proof (elim disjE exE conjE)
    fix fileID w2 n items
    assume w2: "w2 = snd (PublishRegistrationHash S E L fileID w)"
      and i: "ld_table (ld w) = Some items" "lde_findString L n items = Some fileID"
    have ok: "ld_ok B S w2" unfolding w2 by (rule ld_ok_registration [OF assms(3) ld_ok_registered [OF assms(1) i]])
    show "ld_ok B S w1" if "w1 = w2" using ok that by simp
    show "ld_ok B S w1" if "w1 = upd_entry fileID (\<lambda>_. snd (EnsureSourceHash S (ld_entries (ld w2) fileID))) w2"
      using ld_ok_source [OF ok] that by simp
  qed (use assms(3) in simp)
  then show ?thesis by (simp add: a(1))
next
  fix n f payload fileID items w1 w2 w3
  assume i: "ld_table (ld w) = Some items" "lde_findString L n items = Some fileID"
    and w1: "w1 = snd (PublishRegistrationHash S E L fileID w)"
    and w2: "w2 = upd_entry fileID (\<lambda>_. snd (EnsureSourceHash S (ld_entries (ld w1) fileID))) w1"
    and e: "fst (EnsureSourceHash S (ld_entries (ld w1) fileID))"
    and m: "ActiveLuaRefreshBodyMatches (alrp_filename payload)
         (Some (le_sourceHash (snd (EnsureSourceHash S (ld_entries (ld w1) fileID))))) 32
         (Some (alrp_body payload)) (of_nat (length (alrp_body payload)))"
    and w3: "w3 = upd_entry fileID (\<lambda>e. e\<lparr>le_activeRefreshCompressed := Some (alrp_body payload),
         le_activeRefreshRequested := False, le_activeRefreshFailed := False\<rparr>) w2"
    and hook: "hook_CVEngineServer_GMOD_SendToClientFilter S E L name recipientFilter data dataBits w =
        (let y = ld_engine (ld w3);
             joining = List.filter (\<lambda>r. recipient_owner E L y r = None) (rf_recipients f)
         in (if joining \<noteq> [] then [Some \<lparr>rf_reliable = True, rf_init = False, rf_recipients = joining\<rparr>] else [],
             with_ld (QueueActiveHashRefresh E L fileID True (Some (broadcast_targets E L y (rf_recipients f)))) w3))"
  have ok1: "ld_ok B S w1" unfolding w1 by (rule ld_ok_registration [OF assms(3) ld_ok_registered [OF assms(1) i]])
  have ok2: "ld_ok B S w2" unfolding w2 by (rule ld_ok_source [OF ok1])
  let ?e = "ld_entries (ld w2) fileID"
  have e2: "?e = snd (EnsureSourceHash S (ld_entries (ld w1) fileID))" by (simp add: w2)
  have eok: "entry_ok B S ?e" using ok2 by (simp add: ld_ok_def)
  have r: "le_sourceHashReady ?e" using ensured_source [OF e] by (simp add: e2)
  have "\<exists>z. alrp_body payload = le_sourceHash ?e @ z"
    using matched_body [OF assms(2) eok r m [folded e2]] by blast
  then have "entry_ok B S (?e\<lparr>le_activeRefreshCompressed := Some (alrp_body payload)\<rparr>)"
    using eok r by (blast intro: entry_ok_body)
  then have ok3: "ld_ok B S w3" unfolding w3 by (intro ld_ok_entry [OF ok2]) simp_all
  show ?thesis unfolding hook Let_def snd_conv
    by (rule ld_ok_queue [OF ok3]) (use ok3 in \<open>auto simp: ld_ok_def\<close>)
qed

end
