(* ===== verification/LuaEntriesRuns.thy ===== *)
theory LuaEntriesRuns
  imports LuaEntriesInvariant
begin

text \<open>
  Runs of the file cache: registrations, the worker's passes, publications, payload requests and
  broadcasts in any order; the two properties of the cache and a concrete run for their witnesses.
\<close>

section \<open>Runs\<close>

text \<open>
  A state is the world and the batch the worker thread has taken.  \<open>finish\<close> may use any
  snapshot: what the worker copied before compressing.  \<open>other\<close> is every operation of the
  program that leaves the cache's entries, its two queues and the string table alone.
\<close>

inductive ld_step ::
  "Bootil \<Rightarrow> Hashes \<Rightarrow> 'y LuaData Datapack Engine \<Rightarrow> ('y, 'w) LdEngine \<Rightarrow> 'y LdWorld \<times> int list \<Rightarrow> 'y LdWorld \<times> int list \<Rightarrow> bool"
  for B S E L where
  add: "ld_step B S E L (w, batch) (AddFileContents S E L n c force w, batch)"
| registration: "registered w f \<Longrightarrow> ld_step B S E L (w, batch) (snd (PublishRegistrationHash S E L f w), batch)"
| take: "ld_step B S E L (w, []) (with_ld (\<lambda>l. l\<lparr>ld_compressQueue := []\<rparr>) w, ld_compressQueue (ld w))"
| process: "f \<in> set batch \<Longrightarrow> ld_step B S E L (w, batch) (worker_process S E L f w, batch)"
| compress: "f \<in> set batch \<Longrightarrow> ld_step B S E L (w, batch) (upd_entry f (worker_compress B S) w, batch)"
| finish: "ld_step B S E L (w, batch) (upd_entry f (refresh_finish B source hash) w, batch)"
| finished: "ld_step B S E L (w, batch) (w, [])"
| payload: "registered w f \<Longrightarrow> ld_step B S E L (w, batch) (snd (snd (ActiveRefreshPayload f w)), batch)"
| updates: "ld_step B S E L (w, batch) (publish_updates S E L w, batch)"
| shutdown: "ld_step B S E L (w, batch) (LuaDataPack_Shutdown w, batch)"
| broadcast: "ld_step B S E L (w, batch)
    (snd (hook_CVEngineServer_GMOD_SendToClientFilter S E L name recipientFilter data dataBits w), batch)"
| other: "\<lbrakk>ld_entries (ld w') = ld_entries (ld w); ld_table (ld w') = ld_table (ld w);
    ld_compressQueue (ld w') = ld_compressQueue (ld w);
    ld_stringTableUpdateQueue (ld w') = ld_stringTableUpdateQueue (ld w)\<rbrakk> \<Longrightarrow> ld_step B S E L (w, batch) (w', batch)"

inductive ld_reach ::
  "Bootil \<Rightarrow> Hashes \<Rightarrow> 'y LuaData Datapack Engine \<Rightarrow> ('y, 'w) LdEngine \<Rightarrow> 'y LdWorld \<times> int list \<Rightarrow> bool"
  for B S E L where
  start: "\<lbrakk>\<forall>f. ld_entries (ld w) f = LuaPackEntry_new; ld_compressQueue (ld w) = []; ld_stringTableUpdateQueue (ld w) = []\<rbrakk>
    \<Longrightarrow> ld_reach B S E L (w, [])"
| step: "\<lbrakk>ld_reach B S E L c; ld_step B S E L c c'\<rbrakk> \<Longrightarrow> ld_reach B S E L c'"

text \<open>No operation takes a file out of the table.\<close>

lemma registered_entry_or_queue [simp]:
  "ld_table (f (ld w)) = ld_table (ld w) \<Longrightarrow> registered (with_ld f w) g = registered w g"
  by (simp add: registered_def string_item_def)

lemma registered_add:
  assumes "table_laws L" and "ld_ok B S w" and "registered w g"
  shows "registered (AddFileContents S E L n c force w) g"
proof (cases "ld_table (ld w)")
  case None
  then show ?thesis using assms(3) by (simp add: AddFileContents_def)
next
  case (Some items)
  obtain found items' where found: "(case lde_findString L n items of Some i \<Rightarrow> (Some i, items) | None \<Rightarrow> lde_addString L n items) = (found, items')"
    by (metis surj_pair)
  have laws: "length items \<le> length items'" "\<And>i. found = Some i \<Longrightarrow> 0 \<le> i \<and> i < int (length items')"
    using assms(1) found unfolding table_laws_def by (auto split: option.splits)
  define w0 where "w0 = with_ld (\<lambda>l. l\<lparr>ld_table := Some items'\<rparr>) w"
  have mono: "registered w0 g"
    using assms(3) laws(1) Some by (auto simp: registered_def string_item_def w0_def split: if_splits)
  have inv: "registered (with_dp (InvalidatePinnedCanonicalFileForAllClients i) w0) g = registered w0 g" for i
    by (simp add: registered_def string_item_def)
  show ?thesis
  proof (cases found)
    case None
    then show ?thesis using mono by (simp add: AddFileContents_def Some found w0_def)
  next
    case (Some i)
    have "registered w0 i" using laws(2) [OF Some] by (simp add: w0_def registered_def string_item_def nat_less_iff)
    then show ?thesis
      using mono inv unfolding AddFileContents_def \<open>ld_table (ld w) = Some items\<close> option.case found prod.case Let_def Some
        w0_def [symmetric]
      by (simp add: if_distribR)
  qed
qed

lemma registered_shutdown [simp]: "registered (LuaDataPack_Shutdown w) g = registered w g"
  by (simp add: registered_def string_item_def LuaDataPack_Shutdown_def)

lemma registered_updates:
  "\<lbrakk>ld_ok B S w; \<forall>f \<in> set fs. registered w f\<rbrakk> \<Longrightarrow> registered (fold (publish_update S E L) fs w) g = registered w g"
proof (induction fs arbitrary: w)
  case (Cons f fs)
  then have "registered w f" by simp
  note pu = ld_ok_publish_update [OF Cons.prems(1) this, where E = E and L = L]
  show ?case using Cons.IH [OF pu(1)] Cons.prems(2) by (simp add: pu(2))
qed simp

lemma registered_publish_updates:
  assumes "ld_ok B S w"
  shows "registered (publish_updates S E L w) g = registered w g"
proof -
  have "ld_ok B S (with_ld (\<lambda>l. l\<lparr>ld_stringTableUpdateQueue := []\<rparr>) w)"
    by (rule ld_ok_queue [OF assms]) (use assms in \<open>simp_all add: ld_ok_def subset_iff\<close>)
  note keep = registered_updates [OF this, where fs = "ld_stringTableUpdateQueue (ld w)" and E = E and L = L and g = g]
  have "\<forall>f \<in> set (ld_stringTableUpdateQueue (ld w)). registered w f" using assms by (simp add: ld_ok_def)
  then show ?thesis using keep by (simp add: publish_updates_def)
qed

lemma registered_broadcast:
  assumes "table_laws L" and "registered w g"
  shows "registered (snd (hook_CVEngineServer_GMOD_SendToClientFilter S E L name recipientFilter data dataBits w)) g"
proof (rule broadcast_cases [where S = S and E = E and L = L and name = name and recipientFilter = recipientFilter
      and data = data and dataBits = dataBits and w = w])
  fix w1
  assume a: "hook_CVEngineServer_GMOD_SendToClientFilter S E L name recipientFilter data dataBits w = ([recipientFilter], w1)"
    "w1 = w \<or> (\<exists>fileID w2. w2 = snd (PublishRegistrationHash S E L fileID w) \<and>
         (w1 = w2 \<or> w1 = upd_entry fileID (\<lambda>_. snd (EnsureSourceHash S (ld_entries (ld w2) fileID))) w2) \<and>
         (\<exists>n items. ld_table (ld w) = Some items \<and> lde_findString L n items = Some fileID))"
  from a(2) have "registered w1 g"
  proof (elim disjE exE conjE)
    fix fileID w2 n items
    assume w2: "w2 = snd (PublishRegistrationHash S E L fileID w)"
      and i: "ld_table (ld w) = Some items" "lde_findString L n items = Some fileID"
    have "registered w2 g" using registration_keeps [OF ld_ok_registered [OF assms(1) i], where E = E and L = L] assms(2) by (simp add: w2)
    then show "w1 = w2 \<Longrightarrow> registered w1 g"
      "w1 = upd_entry fileID (\<lambda>_. snd (EnsureSourceHash S (ld_entries (ld w2) fileID))) w2 \<Longrightarrow> registered w1 g" by simp_all
  qed (use assms(2) in simp)
  then show ?thesis by (simp add: a(1))
next
  fix n f payload fileID items w1 w2 w3
  assume i: "ld_table (ld w) = Some items" "lde_findString L n items = Some fileID"
    and w: "w1 = snd (PublishRegistrationHash S E L fileID w)"
      "w2 = upd_entry fileID (\<lambda>_. snd (EnsureSourceHash S (ld_entries (ld w1) fileID))) w1"
      "w3 = upd_entry fileID (\<lambda>e. e\<lparr>le_activeRefreshCompressed := Some (alrp_body payload),
         le_activeRefreshRequested := False, le_activeRefreshFailed := False\<rparr>) w2"
    and hook: "hook_CVEngineServer_GMOD_SendToClientFilter S E L name recipientFilter data dataBits w =
        (let y = ld_engine (ld w3);
             joining = List.filter (\<lambda>r. recipient_owner E L y r = None) (rf_recipients f)
         in (if joining \<noteq> [] then [Some \<lparr>rf_reliable = True, rf_init = False, rf_recipients = joining\<rparr>] else [],
             with_ld (QueueActiveHashRefresh E L fileID True (Some (broadcast_targets E L y (rf_recipients f)))) w3))"
  have "registered w3 g" using registration_keeps [OF ld_ok_registered [OF assms(1) i], where E = E and L = L] assms(2) by (simp add: w)
  then show ?thesis unfolding hook Let_def snd_conv by simp
qed

definition ld_inv :: "Bootil \<Rightarrow> Hashes \<Rightarrow> 'y LdWorld \<times> int list \<Rightarrow> bool" where
  "ld_inv B S c \<longleftrightarrow> ld_ok B S (fst c) \<and> (\<forall>f \<in> set (snd c). registered (fst c) f)"

lemma registered_payload [simp]: "registered (snd (snd (ActiveRefreshPayload f w))) g = registered w g"
  by (auto simp: ActiveRefreshPayload_def split: option.split)

lemma registered_worker: "registered w f \<Longrightarrow> registered (worker_process S E L f w) g = registered w g"
  by (simp add: worker_process_def)

lemma ld_inv_step:
  assumes "ld_step B S E L c c'" and "table_laws L" and "hash_laws S" and "ld_inv B S c"
  shows "ld_inv B S c'"
  using assms
proof (induction rule: ld_step.induct)
  case (take w)
  then have ok: "ld_ok B S w" by (simp add: ld_inv_def)
  have "ld_ok B S (with_ld (\<lambda>l. l\<lparr>ld_compressQueue := []\<rparr>) w)"
    by (rule ld_ok_queue [OF ok]) (use ok in \<open>simp_all add: ld_ok_def subset_iff\<close>)
  then show ?case using ok by (simp add: ld_inv_def ld_ok_def)
next
  case (other w' w batch)
  then show ?case
    by (simp add: ld_inv_def ld_ok_def user_data_def registered_def string_item_def)
qed (auto simp: ld_inv_def ld_ok_add registered_add ld_ok_registration registration_keeps ld_ok_worker registered_worker
    ld_ok_payload ld_ok_publish_updates registered_publish_updates ld_ok_shutdown ld_ok_broadcast registered_broadcast)

lemma ld_inv_reach: "\<lbrakk>ld_reach B S E L c; table_laws L; hash_laws S\<rbrakk> \<Longrightarrow> ld_inv B S c"
proof (induction rule: ld_reach.induct)
  case (start w)
  then show ?case by (simp add: ld_inv_def ld_ok_def entry_ok_new) (simp add: LuaPackEntry_new_def)
qed (rule ld_inv_step)

lemma broadcast_targets_slot:
  "broadcast_targets E L y rs slot = (if slot + 1 \<in> set rs then recipient_owner E L y (slot + 1) else None)"
proof (induction rs rule: rev_induct)
  case (snoc r rs)
  then show ?case
    by (auto simp: broadcast_targets_def recipient_owner_def ActiveLuaRefreshTargets_Capture_def Let_def)
qed (simp add: broadcast_targets_def)

lemma broadcast_targets_empty:
  "ActiveLuaRefreshTargets_Empty (broadcast_targets E L y rs) \<longleftrightarrow> (\<forall>r \<in> set rs. recipient_owner E L y r = None)"
proof -
  have "(\<forall>slot. broadcast_targets E L y rs slot = None) \<longleftrightarrow> (\<forall>r \<in> set rs. recipient_owner E L y r = None)"
    by (auto simp: broadcast_targets_slot) (metis diff_add_cancel)
  then show ?thesis by (auto simp: ActiveLuaRefreshTargets_Empty_def fun_eq_iff)
qed

text \<open>C4.  Published hashes and stored bodies belong together.  In every state the cache reaches
  from a fresh start, by registrations, the worker's passes, publications, payload requests,
  broadcasts and shutdowns in any order, a file whose hash counts as published has the SHA-256 of its
  current client content in the string table; a stored body starts with that same hash and goes on
  with the compressed content, or stops there when compression failed; and a native refresh body
  starts with the hash of the current source.\<close>

theorem published_hash_matches_body:
  assumes "ld_reach B S E L (w, batch)" and "table_laws L" and "hash_laws S"
  defines "e f \<equiv> ld_entries (ld w) f"
  shows "(\<forall>f. le_hashPublished (e f) \<longrightarrow> user_data f w = Some (HashClientLuaString S (le_content (e f)))) \<and>
    (\<forall>f. IsReady (e f) \<longrightarrow>
      (\<exists>z. le_compressed (e f) = HashClientLuaString S (le_content (e f)) @ z \<and>
        (LZMA_Compress B (bytes_of (le_content (e f)) @ [0]) = Some z \<or> z = []))) \<and>
    (\<forall>f p. le_activeRefreshCompressed (e f) = Some p \<longrightarrow>
      take 32 p = HashClientLuaString S (le_sourceContent (e f)))"
proof -
  have ok: "ld_ok B S w" using ld_inv_reach [OF assms(1-3)] by (simp add: ld_inv_def)
  then have e: "entry_ok B S (e f)" for f by (simp add: ld_ok_def e_def)
  have "user_data f w = Some (HashClientLuaString S (le_content (e f)))" if "le_hashPublished (e f)" for f
    using ok that e [of f] by (simp add: ld_ok_def e_def entry_ok_def)
  moreover have "\<exists>z. le_compressed (e f) = HashClientLuaString S (le_content (e f)) @ z \<and>
        (LZMA_Compress B (bytes_of (le_content (e f)) @ [0]) = Some z \<or> z = [])" if "IsReady (e f)" for f
    using that e [of f] by (auto simp: entry_ok_def)
  moreover have "take 32 p = HashClientLuaString S (le_sourceContent (e f))"
    if "le_activeRefreshCompressed (e f) = Some p" for f p
    using that e [of f] assms(3) by (auto simp: entry_ok_def hash_laws_def HashClientLuaString_def)
  ultimately show ?thesis by blast
qed

section \<open>A concrete engine\<close>

definition cache_lde :: "(unit, unit) LdEngine" where
  "cache_lde =
     \<lparr>lde_client = (\<lambda>_ slot. if slot = 0 then Some \<lparr>se_client = 4, se_channel = Some 5, se_playerSlot = 0, se_userID = 1,
        se_clientChallenge = 7, se_signonState = 6, se_sendServerInfo = False, se_active = True, se_connected = True\<rparr> else None),
      lde_reliable = (\<lambda>_ _. ()), lde_setReliable = (\<lambda>_ _ y. y),
      lde_findString = (\<lambda>n items. case find (\<lambda>(i, x). si_name x = Some n) (List.enumerate 0 items) of
        None \<Rightarrow> None | Some (i, _) \<Rightarrow> Some (int i)),
      lde_addString = (\<lambda>n items. (Some (int (length items)), items @ [\<lparr>si_name = Some n, si_userData = None\<rparr>])),
      lde_clientBootstrap = ''b'', lde_luaError = (\<lambda>_. Some ''error''), lde_tokenizeHook = (\<lambda>_ t. t),
      lde_undefined = (\<lambda>_. '''')\<rparr>"

definition cache_hashes :: Hashes where
  "cache_hashes = \<lparr>sha256_hex = (\<lambda>s. s), sha256_bytes = (\<lambda>b. take 32 (b @ replicate 32 0))\<rparr>"

definition cache_bootil :: Bootil where
  "cache_bootil = \<lparr>MD5_String = (\<lambda>s. s), MD5_Easy = (\<lambda>_. ''''), LZMA_Compress = Some\<rparr>"

definition cache_eng :: "unit LuaData Datapack Engine" where
  "cache_eng =
     \<lparr>eng_playerLimit = 2, eng_signonConnected = 2, eng_time = (\<lambda>_. 0), eng_clientBySlot = (\<lambda>_ _. None),
      eng_supportsCanonical = (\<lambda>_. True), eng_fileExists = (\<lambda>_ _. True), eng_setSendServerInfo = (\<lambda>_ w. w),
      eng_sendServerInfo = (\<lambda>_ w. (True, w)), eng_reconnect = (\<lambda>_ w. w), eng_disconnect = (\<lambda>_ _ w. w)\<rparr>"

definition cache_ld :: "unit LuaData" where
  "cache_ld =
     \<lparr>ld_entries = (\<lambda>_. LuaPackEntry_new), ld_compressQueue = [], ld_stringTableUpdateQueue = [], ld_refreshQueue = [],
      ld_refreshTargets = Map.empty, ld_forcedRefreshes = Map.empty, ld_refreshNextSlots = Map.empty,
      ld_refreshFailedSlots = Map.empty, ld_refreshRetryAfter = Map.empty,
      ld_table = Some [\<lparr>si_name = Some ''paths'', si_userData = None\<rparr>],
      ld_playerQueues = (\<lambda>_. PlayerQueue_new), ld_registration = LuaPackRegistrationRefresh_new,
      ld_nativeAcknowledgements = 0, ld_canonicalAcknowledgements = 0, ld_probeSlot = - 1, ld_probeAccepted = False,
      ld_removeserverif = False, ld_removecomments = False, ld_engine = ()\<rparr>"

definition cache_start :: "unit LdWorld" where
  "cache_start = \<lparr>w_state = State_new, w_cvars = demo_cvars, w_engine = Datapack_new 2 cache_ld\<rparr>"

definition cache_added :: "unit LdWorld" where
  "cache_added = AddFileContents cache_hashes cache_eng cache_lde ''a.lua'' ''x'' True cache_start"

definition cache_published :: "unit LdWorld" where
  "cache_published = snd (PublishRegistrationHash cache_hashes cache_eng cache_lde 1 cache_added)"

definition cache_run :: "unit LdWorld" where
  "cache_run = upd_entry 1 (worker_compress cache_bootil cache_hashes)
     (with_ld (\<lambda>l. l\<lparr>ld_compressQueue := []\<rparr>) cache_published)"

lemma cache_laws: "table_laws cache_lde" "hash_laws cache_hashes"
  by (auto simp: table_laws_def hash_laws_def cache_lde_def cache_hashes_def find_Some_iff nth_enumerate_eq split: option.splits)

lemmas cache_simps = cache_start_def cache_ld_def cache_eng_def cache_lde_def Datapack_new_def IsEnabled_def demo_cvars_def
  SupportsCanonicalRegistration_def

lemma cache_not_init: "\<not> IsInitFile ''a.lua''"
  by code_simp

lemma cache_added_ld:
  "ld_table (ld cache_added) = Some [\<lparr>si_name = Some ''paths'', si_userData = None\<rparr>, \<lparr>si_name = Some ''a.lua'', si_userData = None\<rparr>]"
  "ld_compressQueue (ld cache_added) = [1]"
  "ld_entries (ld cache_added) 1 = replaced_entry cache_hashes ''x'' canonicalStubSource False False True True True LuaPackEntry_new"
  by (simp_all add: cache_added_def AddFileContents_def cache_simps Let_def LuaPackEntry_new_def
      PrepareVanillaFile_def cache_not_init UsesCanonicalRegistration_def)

lemma cache_registered: "registered cache_added 1"
  by (simp add: registered_def string_item_def cache_added_ld)

lemma cache_reach: "ld_reach cache_bootil cache_hashes cache_eng cache_lde (cache_run, [1])"
proof -
  let ?step = "ld_step cache_bootil cache_hashes cache_eng cache_lde"
  let ?reach = "ld_reach cache_bootil cache_hashes cache_eng cache_lde"
  have "?reach (cache_start, [])" by (rule ld_reach.start) (simp_all add: cache_start_def cache_ld_def Datapack_new_def)
  then have "?reach (cache_added, [])" unfolding cache_added_def by (rule ld_reach.step) (rule ld_step.add)
  then have "?reach (cache_published, [])"
    unfolding cache_published_def by (rule ld_reach.step) (rule ld_step.registration [OF cache_registered])
  then have "?reach (with_ld (\<lambda>l. l\<lparr>ld_compressQueue := []\<rparr>) cache_published, ld_compressQueue (ld cache_published))"
    by (rule ld_reach.step) (rule ld_step.take)
  moreover have "ld_compressQueue (ld cache_published) = [1]"
    using cache_added_ld(2) Publish_effect(4) [OF cache_registered]
    by (simp add: cache_published_def PublishRegistrationHash_def Let_def ProcessContent_entry Publish_effect(4) cache_registered)
  ultimately have "?reach (with_ld (\<lambda>l. l\<lparr>ld_compressQueue := []\<rparr>) cache_published, [1])" by simp
  then show ?thesis unfolding cache_run_def by (rule ld_reach.step) (rule ld_step.compress; simp)
qed

lemma cache_entry:
  "le_hashPublished (ld_entries (ld cache_run) 1)" "IsReady (ld_entries (ld cache_run) 1)"
  by (simp_all add: cache_run_def cache_published_def PublishRegistrationHash_def Let_def ProcessContent_entry
      Publish_effect cache_registered cache_added_ld IsContentReady_def replaced_entry_def LuaPackEntry_new_def
      processed_entry_def UsesPassthroughProcessing_def GetPackEntry_def MAX_TRACKED_LUA_FILES_def
      worker_compress_def CompressFile_def EnsureSourceHash_def Compress_def IsReady_def cache_bootil_def)

theorem published_hash_matches_body_witness:
  "user_data 1 cache_run = Some (HashClientLuaString cache_hashes (le_content (ld_entries (ld cache_run) 1))) \<and>
   IsReady (ld_entries (ld cache_run) 1)"
  using published_hash_matches_body [OF cache_reach cache_laws] cache_entry by blast

section \<open>A diverted broadcast\<close>

lemma Publish_engine [simp]: "ld_engine (ld (PublishEntryHash E L f w)) = ld_engine (ld w)"
  by (simp add: PublishEntryHash_def Let_def)

lemma registration_engine: "ld_engine (ld (snd (PublishRegistrationHash S E L i w))) = ld_engine (ld w)"
  by (simp add: PublishRegistrationHash_def ProcessContent_entry Let_def)

text \<open>C37.  A reload of a file the engine broadcasts reaches every recipient exactly once.  Either
  the engine's own broadcast goes out unchanged, to all; or the file was recognised, and then the
  engine's broadcast goes to the recipients without an active client, in their order, while exactly
  the others are recorded, with the identity of their connection, as forced targets of one refresh at
  the end of the queue, whose body is the engine's and starts with the hash of the file's source.\<close>

theorem broadcast_splits_recipients:
  assumes "hook_CVEngineServer_GMOD_SendToClientFilter S E L name recipientFilter data dataBits w = (calls, w')"
    and "calls \<noteq> [recipientFilter]"
  defines "owner \<equiv> recipient_owner E L (ld_engine (ld w))"
  shows "\<exists>f payload fileID.
    recipientFilter = Some f \<and> ReadActiveLuaRefreshPayload data dataBits = Some payload \<and>
    name \<noteq> None \<and> alrp_filename payload = bytes_of (the name) \<and>
    (let joining = List.filter (\<lambda>r. owner r = None) (rf_recipients f)
     in calls = (if joining \<noteq> [] then [Some \<lparr>rf_reliable = True, rf_init = False, rf_recipients = joining\<rparr>] else []) \<and>
        (joining \<noteq> rf_recipients f \<longrightarrow>
          ld_refreshTargets (ld w') fileID =
            Some (\<lambda>slot. if slot + 1 \<in> set (rf_recipients f) then owner (slot + 1) else None) \<and>
          ld_forcedRefreshes (ld w') fileID = Some (replicate (nat (eng_playerLimit E)) True) \<and>
          ld_refreshQueue (ld w') \<noteq> [] \<and> last (ld_refreshQueue (ld w')) = fileID \<and>
          le_activeRefreshCompressed (ld_entries (ld w') fileID) = Some (alrp_body payload) \<and>
          take 32 (alrp_body payload) = take 32 (le_sourceHash (ld_entries (ld w') fileID))))"
proof (rule broadcast_cases [where S = S and E = E and L = L and name = name and recipientFilter = recipientFilter
      and data = data and dataBits = dataBits and w = w])
  fix n f payload fileID items w1 w2 w3
  assume g: "name = Some n" "recipientFilter = Some f" "ReadActiveLuaRefreshPayload data dataBits = Some payload"
      "alrp_filename payload = bytes_of n"
    and w: "w1 = snd (PublishRegistrationHash S E L fileID w)"
      "w2 = upd_entry fileID (\<lambda>_. snd (EnsureSourceHash S (ld_entries (ld w1) fileID))) w1"
      "w3 = upd_entry fileID (\<lambda>e. e\<lparr>le_activeRefreshCompressed := Some (alrp_body payload),
         le_activeRefreshRequested := False, le_activeRefreshFailed := False\<rparr>) w2"
    and m: "ActiveLuaRefreshBodyMatches (alrp_filename payload)
         (Some (le_sourceHash (snd (EnsureSourceHash S (ld_entries (ld w1) fileID))))) 32
         (Some (alrp_body payload)) (of_nat (length (alrp_body payload)))"
    and hook: "hook_CVEngineServer_GMOD_SendToClientFilter S E L name recipientFilter data dataBits w =
        (let y = ld_engine (ld w3);
             joining = List.filter (\<lambda>r. recipient_owner E L y r = None) (rf_recipients f)
         in (if joining \<noteq> [] then [Some \<lparr>rf_reliable = True, rf_init = False, rf_recipients = joining\<rparr>] else [],
             with_ld (QueueActiveHashRefresh E L fileID True (Some (broadcast_targets E L y (rf_recipients f)))) w3))"
  have y: "ld_engine (ld w3) = ld_engine (ld w)" by (simp add: w registration_engine)
  let ?t = "broadcast_targets E L (ld_engine (ld w)) (rf_recipients f)"
  let ?joining = "List.filter (\<lambda>r. owner r = None) (rf_recipients f)"
  have res: "calls = (if ?joining \<noteq> [] then [Some \<lparr>rf_reliable = True, rf_init = False, rf_recipients = ?joining\<rparr>] else [])"
    "w' = with_ld (QueueActiveHashRefresh E L fileID True (Some ?t)) w3"
    using hook assms(1) by (simp_all add: y owner_def Let_def)
  have t: "?t = (\<lambda>slot. if slot + 1 \<in> set (rf_recipients f) then owner (slot + 1) else None)"
    by (simp add: broadcast_targets_slot owner_def fun_eq_iff)
  have "\<not> ActiveLuaRefreshTargets_Empty ?t" if "?joining \<noteq> rf_recipients f"
    using that by (auto simp: broadcast_targets_empty owner_def filter_id_conv)
  then have queue: "ld_refreshTargets (ld w') fileID = Some ?t \<and>
      ld_forcedRefreshes (ld w') fileID = Some (replicate (nat (eng_playerLimit E)) True) \<and>
      ld_refreshQueue (ld w') \<noteq> [] \<and> last (ld_refreshQueue (ld w')) = fileID" if "?joining \<noteq> rf_recipients f"
    using that by (simp add: res(2) QueueActiveHashRefresh_def Let_def)
  have body: "le_activeRefreshCompressed (ld_entries (ld w') fileID) = Some (alrp_body payload)"
    "le_sourceHash (ld_entries (ld w') fileID) = le_sourceHash (snd (EnsureSourceHash S (ld_entries (ld w1) fileID)))"
    by (simp_all add: res(2) w(2,3))
  show ?thesis
    using g queue m unfolding Let_def t res(1) by (intro exI [of _ f] exI [of _ payload] exI [of _ fileID])
      (simp add: body ActiveLuaRefreshBodyMatches_def)
qed (use assms(1,2) in simp)

definition cache_body :: "u8 list" where
  "cache_body = 120 # replicate 32 0"

definition cache_message :: "u8 list" where
  "cache_message = refresh_payload (bytes_of ''a.lua'') cache_body"

lemma cache_message_view:
  "ReadActiveLuaRefreshPayload (Some cache_message) (8 * int (length cache_message)) =
     Some \<lparr>alrp_filename = bytes_of ''a.lua'', alrp_body = cache_body\<rparr>"
  unfolding cache_message_def by (rule Read_encoded) (simp add: refresh_payload_ok_def bytes_of_def cache_body_def)

lemma cache_published_entry:
  "ld_entries (ld cache_published) 1 = (processed_entry cache_hashes cache_lde 1 (replaced_entry cache_hashes ''x''
      canonicalStubSource False False True True True LuaPackEntry_new))
      \<lparr>le_hashPublished := True, le_activeHashRefreshPending := False, le_forceActiveHashRefreshPending := False\<rparr>"
  by (simp add: cache_published_def PublishRegistrationHash_def Let_def ProcessContent_entry
      Publish_effect cache_registered cache_added_ld IsContentReady_def replaced_entry_def LuaPackEntry_new_def
      processed_entry_def UsesPassthroughProcessing_def GetPackEntry_def MAX_TRACKED_LUA_FILES_def)

lemma cache_published_again: "PublishRegistrationHash cache_hashes cache_eng cache_lde 1 cache_published = (True, cache_published)"
proof -
  have "registered cache_published 1"
    unfolding cache_published_def using registration_keeps [OF cache_registered] cache_registered by blast
  then have "ld_table (ld cache_published) \<noteq> None" by (rule registered_table)
  then show ?thesis
    by (simp add: PublishRegistrationHash_def GetPackEntry_def MAX_TRACKED_LUA_FILES_def IsContentReady_def
        cache_published_entry processed_entry_def Let_def)
qed

lemma Publish_cvars [simp]: "w_cvars (PublishEntryHash E L f w) = w_cvars w"
  by (simp add: PublishEntryHash_def Let_def upd_entry_def set_user_data_def with_dp_def)

lemma cache_published_find:
  "\<exists>items. ld_table (ld cache_published) = Some items \<and> lde_findString cache_lde ''a.lua'' items = Some 1"
proof -
  have "ld_table (ld cache_published) = Some [\<lparr>si_name = Some ''paths'', si_userData = None\<rparr>,
      \<lparr>si_name = Some ''a.lua'', si_userData = Some (le_contentHash (ld_entries (ld cache_published) 1))\<rparr>]"
    unfolding cache_published_entry
    by (simp add: cache_published_def PublishRegistrationHash_def Let_def ProcessContent_entry PublishEntryHash_def
      set_user_data_def cache_added_ld IsContentReady_def replaced_entry_def LuaPackEntry_new_def
      processed_entry_def UsesPassthroughProcessing_def GetPackEntry_def MAX_TRACKED_LUA_FILES_def)
  then show ?thesis by (simp add: cache_lde_def)
qed

lemma cache_published_enabled: "IsEnabled cache_published"
proof -
  have "w_cvars cache_added = demo_cvars"
    by (simp add: cache_added_def AddFileContents_def cache_simps Let_def upd_entry_def with_dp_def)
  then show ?thesis
    by (simp add: cache_published_def PublishRegistrationHash_def ProcessContent_entry Let_def IsEnabled_def demo_cvars_def
      upd_entry_def)
qed

lemma cache_owner:
  "recipient_owner cache_eng cache_lde y 1 \<noteq> None" "recipient_owner cache_eng cache_lde y 2 = None"
  by (simp_all add: recipient_owner_def CaptureActiveLuaRefreshOwner_def cache_lde_def cache_eng_def
      ActiveLuaRefreshOwner_IsValid_def)

lemma cache_broadcast:
  "fst (hook_CVEngineServer_GMOD_SendToClientFilter cache_hashes cache_eng cache_lde (Some ''a.lua'')
      (Some \<lparr>rf_reliable = True, rf_init = False, rf_recipients = [1, 2]\<rparr>) (Some cache_message)
      (8 * int (length cache_message)) cache_published) =
    [Some \<lparr>rf_reliable = True, rf_init = False, rf_recipients = [2]\<rparr>]"
proof -
  obtain items where items: "ld_table (ld cache_published) = Some items" "lde_findString cache_lde ''a.lua'' items = Some 1"
    using cache_published_find by blast
  let ?e = "ld_entries (ld cache_published) 1"
  have eng: "eng_playerLimit cache_eng = 2" "SupportsCanonicalRegistration cache_eng cache_published"
    by (simp_all add: cache_eng_def SupportsCanonicalRegistration_def)
  have src: "le_hasSourceContent ?e" "fst (EnsureSourceHash cache_hashes ?e)"
    "le_sourceHash (snd (EnsureSourceHash cache_hashes ?e)) = 120 # replicate 31 0"
    by (simp_all add: cache_published_entry EnsureSourceHash_def processed_entry_def replaced_entry_def
        UsesPassthroughProcessing_def HashClientLuaString_def cache_hashes_def bytes_of_def Let_def numeral_eq_Suc)
  have "ActiveLuaRefreshPayloadBits 5 33 \<noteq> 0" using PayloadBits_nonzero_iff [of 5 33] by simp
  then have m: "ActiveLuaRefreshBodyMatches (bytes_of ''a.lua'') (Some (120 # replicate 31 0)) 32 (Some cache_body)
      (word_of_nat (length cache_body))"
    by (simp add: ActiveLuaRefreshBodyMatches_def bytes_of_def cache_body_def ClientLuaHashBytes_def)
  show ?thesis
    by (simp add: hook_CVEngineServer_GMOD_SendToClientFilter_def cache_message_view cache_published_enabled items
      cache_not_init GetPackEntry_def MAX_TRACKED_LUA_FILES_def cache_published_again Let_def eng src m cache_owner)
qed

theorem broadcast_splits_recipients_witness:
  "\<exists>fileID w'. hook_CVEngineServer_GMOD_SendToClientFilter cache_hashes cache_eng cache_lde (Some ''a.lua'')
      (Some \<lparr>rf_reliable = True, rf_init = False, rf_recipients = [1, 2]\<rparr>) (Some cache_message)
      (8 * int (length cache_message)) cache_published =
        ([Some \<lparr>rf_reliable = True, rf_init = False, rf_recipients = [2]\<rparr>], w') \<and>
    ld_refreshQueue (ld w') \<noteq> [] \<and> last (ld_refreshQueue (ld w')) = fileID \<and>
    le_activeRefreshCompressed (ld_entries (ld w') fileID) = Some cache_body"
proof -
  obtain calls w' where r: "hook_CVEngineServer_GMOD_SendToClientFilter cache_hashes cache_eng cache_lde (Some ''a.lua'')
      (Some \<lparr>rf_reliable = True, rf_init = False, rf_recipients = [1, 2]\<rparr>) (Some cache_message)
      (8 * int (length cache_message)) cache_published = (calls, w')" by (metis surj_pair)
  have c: "calls = [Some \<lparr>rf_reliable = True, rf_init = False, rf_recipients = [2]\<rparr>]"
    using cache_broadcast by (simp add: r)
  have "calls \<noteq> [Some \<lparr>rf_reliable = True, rf_init = False, rf_recipients = [1, 2]\<rparr>]" by (simp add: c)
  note split = broadcast_splits_recipients [OF r this]
  show ?thesis using split by (simp add: r c cache_owner cache_message_view Let_def)
qed

end
