(* ===== verification/LuaEntriesCanonical.thy ===== *)
theory LuaEntriesCanonical
  imports LuaEntriesRuns
begin

text \<open>
  What a canonical registration advertises: the hash of the placeholder every client gets, or for
  the init files that of the source behind the client bootstrap.
\<close>

section \<open>The names of the string table\<close>

definition item_name :: "int \<Rightarrow> 'y LdWorld \<Rightarrow> string option option" where
  "item_name f w = map_option si_name (string_item f w)"

text \<open>A found index carries the name asked for, and so does an added one.\<close>

definition table_names :: "('y, 'w) LdEngine \<Rightarrow> bool" where
  "table_names L \<longleftrightarrow>
     (\<forall>n items i. lde_findString L n items = Some i \<longrightarrow> si_name (items ! nat i) = Some n) \<and>
     (\<forall>n items i items'. lde_addString L n items = (Some i, items') \<longrightarrow> si_name (items' ! nat i) = Some n)"

lemma item_name_cong: "ld_table (ld w') = ld_table (ld w) \<Longrightarrow> item_name f w' = item_name f w"
  by (simp add: item_name_def string_item_def)

lemma item_name_upd [simp]: "item_name g (upd_entry i f w) = item_name g w"
  by (rule item_name_cong) simp

lemma item_name_with [simp]: "ld_table (f (ld w)) = ld_table (ld w) \<Longrightarrow> item_name g (with_ld f w) = item_name g w"
  by (rule item_name_cong) simp

lemma item_name_user_data [simp]: "item_name g (set_user_data i d w) = item_name g w"
  by (simp add: item_name_def string_item_set_user_data option.map_comp comp_def)

lemma item_name_publish [simp]: "item_name g (PublishEntryHash E L i w) = item_name g w"
proof -
  have "item_name g (set_user_data i d (with_dp (ClearClientNativeLuaHashForAllClients i h) w)) = item_name g w" for d h
    by (simp only: item_name_user_data) (rule item_name_cong, simp)
  then show ?thesis by (simp add: PublishEntryHash_def Let_def)
qed

lemma item_name_process [simp]: "item_name g (ProcessContent S E L b i w) = item_name g w"
  by (simp add: ProcessContent_entry Let_def)

lemma item_name_registration [simp]: "item_name g (snd (PublishRegistrationHash S E L i w)) = item_name g w"
  by (simp add: PublishRegistrationHash_def Let_def)

lemma item_name_payload [simp]: "item_name g (snd (snd (ActiveRefreshPayload i w))) = item_name g w"
  by (auto simp: ActiveRefreshPayload_def split: option.split)

lemma item_name_updates [simp]: "item_name g (publish_updates S E L w) = item_name g w"
proof -
  have "item_name g (fold (publish_update S E L) fs w) = item_name g w" for fs and w :: "'a LdWorld"
    by (induction fs arbitrary: w) (simp_all add: publish_update_def)
  then show ?thesis by (simp add: publish_updates_def)
qed

section \<open>Canonical entries\<close>

text \<open>What a canonical registration registers under a name.\<close>

definition canonical_content :: "string \<Rightarrow> string \<Rightarrow> string \<Rightarrow> string" where
  "canonical_content bootstrap n source =
     (if IsInitFile n then bootstrap @ [CHR 0x0A] @ source else canonicalStubSource)"

definition canon_entry :: "string \<Rightarrow> string option option \<Rightarrow> LuaPackEntry \<Rightarrow> bool" where
  "canon_entry bootstrap name e \<longleftrightarrow>
     (le_luapackCanonical e \<longrightarrow> le_luapackPassthrough e \<and> le_hasSourceContent e \<and>
       (\<exists>n. name = Some (Some n) \<and> le_content e = canonical_content bootstrap n (le_sourceContent e)))"

definition canon_ok :: "('y, 'w) LdEngine \<Rightarrow> 'y LdWorld \<Rightarrow> bool" where
  "canon_ok L w \<longleftrightarrow> (\<forall>f. canon_entry (lde_clientBootstrap L) (item_name f w) (ld_entries (ld w) f))"

lemma canon_entry_flags [simp]:
  "canon_entry b n (e\<lparr>le_activeHashRefreshPending := a\<rparr>) = canon_entry b n e"
  "canon_entry b n (e\<lparr>le_forceActiveHashRefreshPending := a\<rparr>) = canon_entry b n e"
  "canon_entry b n (e\<lparr>le_activeRefreshRequested := a\<rparr>) = canon_entry b n e"
  "canon_entry b n (e\<lparr>le_activeRefreshFailed := a\<rparr>) = canon_entry b n e"
  "canon_entry b n (e\<lparr>le_activeRefreshCompressed := c\<rparr>) = canon_entry b n e"
  "canon_entry b n (e\<lparr>le_hashPublished := a\<rparr>) = canon_entry b n e"
  "canon_entry b n (e\<lparr>le_compressed := d\<rparr>) = canon_entry b n e"
  "canon_entry b n (e\<lparr>le_contentHash := d\<rparr>) = canon_entry b n e"
  "canon_entry b n (e\<lparr>le_contentHashReady := a\<rparr>) = canon_entry b n e"
  "canon_entry b n (e\<lparr>le_sourceHash := d\<rparr>) = canon_entry b n e"
  "canon_entry b n (e\<lparr>le_sourceHashReady := a\<rparr>) = canon_entry b n e"
  "canon_entry b n (e\<lparr>le_processed := a\<rparr>) = canon_entry b n e"
  by (simp_all add: canon_entry_def)

lemma canon_ensure [simp]: "canon_entry b n (ensure_content_hash S e) = canon_entry b n e"
  "canon_entry b n (snd (EnsureSourceHash S e)) = canon_entry b n e"
  by (simp_all add: ensure_content_hash_def EnsureSourceHash_def)

lemma canon_compress [simp]: "canon_entry b n (worker_compress B S e) = canon_entry b n e"
  by (simp add: worker_compress_def CompressFile_def Compress_def Let_def split: option.split)

lemma canon_finish [simp]: "canon_entry b n (refresh_finish B source hash e) = canon_entry b n e"
  by (simp add: refresh_finish_def Let_def)

lemma canon_processed: "canon_entry b n e \<Longrightarrow> canon_entry b n (processed_entry S L i e)"
  by (cases "le_luapackPassthrough e")
    (simp_all add: processed_entry_def Let_def canon_entry_def split: prod.split)

lemma canon_upd: "\<lbrakk>canon_ok L w; canon_entry (lde_clientBootstrap L) (item_name i w) (f (ld_entries (ld w) i))\<rbrakk> \<Longrightarrow>
    canon_ok L (upd_entry i f w)"
  by (simp add: canon_ok_def)

lemma canon_upd_same:
  "\<lbrakk>canon_ok L w; \<And>b n e. canon_entry b n (f e) = canon_entry b n e\<rbrakk> \<Longrightarrow> canon_ok L (upd_entry i f w)"
  by (simp add: canon_ok_def)

lemma canon_queue:
  "\<lbrakk>canon_ok L w; ld_entries (f (ld w)) = ld_entries (ld w); ld_table (f (ld w)) = ld_table (ld w)\<rbrakk> \<Longrightarrow>
    canon_ok L (with_ld f w)"
  by (simp add: canon_ok_def)

lemma Publish_entry:
  "ld_entries (ld (PublishEntryHash E L i w)) g = ld_entries (ld w) g \<or>
   ld_entries (ld (PublishEntryHash E L i w)) g = (ld_entries (ld w) g)\<lparr>le_hashPublished := True,
     le_activeHashRefreshPending := False, le_forceActiveHashRefreshPending := False\<rparr>"
  by (simp add: PublishEntryHash_def Let_def)

lemma canon_publish: "canon_ok L w \<Longrightarrow> canon_ok L (PublishEntryHash E L i w)"
  unfolding canon_ok_def
proof
  fix f
  assume "\<forall>f. canon_entry (lde_clientBootstrap L) (item_name f w) (ld_entries (ld w) f)"
  then show "canon_entry (lde_clientBootstrap L) (item_name f (PublishEntryHash E L i w)) (ld_entries (ld (PublishEntryHash E L i w)) f)"
    using Publish_entry [of E L i w f] by auto
qed

lemma canon_process:
  assumes "canon_ok L w"
  shows "canon_ok L (ProcessContent S E L b i w)"
proof -
  have "canon_ok L (upd_entry i (processed_entry S L i) w)"
    by (rule canon_upd [OF assms]) (use assms in \<open>simp add: canon_ok_def canon_processed\<close>)
  then show ?thesis unfolding ProcessContent_entry Let_def
    by (simp add: canon_publish) (auto simp: canon_ok_def split: if_splits)
qed

lemma canon_worker: "canon_ok L w \<Longrightarrow> canon_ok L (worker_process S E L i w)"
  by (simp add: worker_process_def canon_process)

lemma canon_registration: "canon_ok L w \<Longrightarrow> canon_ok L (snd (PublishRegistrationHash S E L i w))"
  by (simp add: PublishRegistrationHash_def Let_def canon_process canon_publish canon_upd_same)

lemma canon_payload: "canon_ok L w \<Longrightarrow> canon_ok L (snd (snd (ActiveRefreshPayload i w)))"
  by (auto simp: ActiveRefreshPayload_def canon_queue canon_upd_same split: option.split)

lemma canon_updates: "canon_ok L w \<Longrightarrow> canon_ok L (publish_updates S E L w)"
proof -
  have "canon_ok L w \<Longrightarrow> canon_ok L (fold (publish_update S E L) fs w)" for fs and w
    by (induction fs arbitrary: w) (simp_all add: publish_update_def canon_publish canon_upd_same)
  then show "canon_ok L w \<Longrightarrow> canon_ok L (publish_updates S E L w)"
    by (simp add: publish_updates_def canon_queue)
qed

lemma canon_shutdown: "canon_ok L w \<Longrightarrow> canon_ok L (LuaDataPack_Shutdown w)"
proof -
  have "item_name f (LuaDataPack_Shutdown w) = item_name f w" for f
    by (rule item_name_cong) (simp add: LuaDataPack_Shutdown_def)
  then show "canon_ok L w \<Longrightarrow> canon_ok L (LuaDataPack_Shutdown w)"
    by (simp add: canon_ok_def) (simp add: LuaDataPack_Shutdown_def)
qed

lemma canon_broadcast:
  assumes "canon_ok L w"
  shows "canon_ok L (snd (hook_CVEngineServer_GMOD_SendToClientFilter S E L name recipientFilter data dataBits w))"
proof (rule broadcast_cases [where S = S and E = E and L = L and name = name and recipientFilter = recipientFilter
      and data = data and dataBits = dataBits and w = w])
  fix w1
  assume a: "hook_CVEngineServer_GMOD_SendToClientFilter S E L name recipientFilter data dataBits w = ([recipientFilter], w1)"
    "w1 = w \<or> (\<exists>fileID w2. w2 = snd (PublishRegistrationHash S E L fileID w) \<and>
         (w1 = w2 \<or> w1 = upd_entry fileID (\<lambda>_. snd (EnsureSourceHash S (ld_entries (ld w2) fileID))) w2) \<and>
         (\<exists>n items. ld_table (ld w) = Some items \<and> lde_findString L n items = Some fileID))"
  have "canon_ok L (upd_entry i (\<lambda>_. snd (EnsureSourceHash S (ld_entries (ld w2) i))) w2)" if "canon_ok L w2" for i w2
    using canon_upd_same [OF that, of "\<lambda>e. snd (EnsureSourceHash S e)" i] by (simp add: upd_entry_const [where f = "\<lambda>e. snd (EnsureSourceHash S e)"])
  then have "canon_ok L w1" using a(2) canon_registration [OF assms, where E = E and S = S] assms by blast
  then show ?thesis by (simp add: a(1))
next
  fix n f payload fileID items w1 w2 w3
  assume w: "w1 = snd (PublishRegistrationHash S E L fileID w)"
      "w2 = upd_entry fileID (\<lambda>_. snd (EnsureSourceHash S (ld_entries (ld w1) fileID))) w1"
      "w3 = upd_entry fileID (\<lambda>e. e\<lparr>le_activeRefreshCompressed := Some (alrp_body payload),
         le_activeRefreshRequested := False, le_activeRefreshFailed := False\<rparr>) w2"
    and hook: "hook_CVEngineServer_GMOD_SendToClientFilter S E L name recipientFilter data dataBits w =
        (let y = ld_engine (ld w3);
             joining = List.filter (\<lambda>r. recipient_owner E L y r = None) (rf_recipients f)
         in (if joining \<noteq> [] then [Some \<lparr>rf_reliable = True, rf_init = False, rf_recipients = joining\<rparr>] else [],
             with_ld (QueueActiveHashRefresh E L fileID True (Some (broadcast_targets E L y (rf_recipients f)))) w3))"
  have 1: "canon_ok L w1" unfolding w(1) by (rule canon_registration [OF assms])
  have 2: "canon_ok L w2" unfolding w(2) by (rule canon_upd [OF 1]) (use 1 in \<open>simp add: canon_ok_def\<close>)
  have 3: "canon_ok L w3" unfolding w(3) by (rule canon_upd_same [OF 2]) simp
  show ?thesis unfolding hook Let_def snd_conv by (rule canon_queue [OF 3]) simp_all
qed

lemma canon_add:
  assumes "canon_ok L w" and "table_laws L" and "table_names L"
  shows "canon_ok L (AddFileContents S E L n c force w)"
proof (cases "ld_table (ld w)")
  case None
  then show ?thesis using assms(1) by (simp add: AddFileContents_def)
next
  case (Some items)
  obtain found items' where found: "(case lde_findString L n items of Some i \<Rightarrow> (Some i, items) | None \<Rightarrow> lde_addString L n items) = (found, items')"
    by (metis surj_pair)
  have laws: "length items \<le> length items'" "take (length items) items' = items"
    "\<And>i. found = Some i \<Longrightarrow> 0 \<le> i \<and> i < int (length items') \<and> si_name (items' ! nat i) = Some n"
    using assms(2,3) found unfolding table_laws_def table_names_def by (auto split: option.splits)
  define w0 where "w0 = with_ld (\<lambda>l. l\<lparr>ld_table := Some items'\<rparr>) w"
  have "item_name f w0 = item_name f w" if "item_name f w \<noteq> None" for f
    using that laws(1,2) nth_take [of "nat f" "length items" items'] Some
    by (auto simp: item_name_def string_item_def w0_def split: if_splits)
  then have 0: "canon_ok L w0"
    using assms(1) by (auto simp: canon_ok_def canon_entry_def w0_def)
  show ?thesis
  proof (cases found)
    case None
    then show ?thesis using 0 by (simp add: AddFileContents_def Some found w0_def)
  next
    case (Some i)
    have name: "item_name i w0 = Some (Some n)"
      using laws(3) [OF Some] by (simp add: w0_def item_name_def string_item_def nat_less_iff)
    have inv: "canon_ok L (with_dp (InvalidatePinnedCanonicalFileForAllClients i) w0)"
      using 0 item_name_cong [of "with_dp (InvalidatePinnedCanonicalFileForAllClients i) w0" w0] by (simp add: canon_ok_def)
    have iname: "item_name i (with_dp (InvalidatePinnedCanonicalFileForAllClients i) w0) = Some (Some n)"
      using item_name_cong [of "with_dp (InvalidatePinnedCanonicalFileForAllClients i) w0" w0] name by simp
    have "canon_entry (lde_clientBootstrap L) (Some (Some n))
        (replaced_entry S c (PrepareVanillaFile (lde_clientBootstrap L) E w n c) rs rc (IsEnabled w)
          (UsesCanonicalRegistration (IsEnabled w) (SupportsCanonicalRegistration E w)) force e)" for rs rc e
      by (simp add: canon_entry_def replaced_entry_def Let_def UsesCanonicalRegistration_def PrepareVanillaFile_def
          UsesPassthroughProcessing_def canonical_content_def)
    then have changed: "canon_ok L (upd_entry i (replaced_entry S c (PrepareVanillaFile (lde_clientBootstrap L) E w n c)
          rs rc (IsEnabled w) (UsesCanonicalRegistration (IsEnabled w) (SupportsCanonicalRegistration E w)) force)
        (with_dp (InvalidatePinnedCanonicalFileForAllClients i) w0))" for rs rc
      by (intro canon_upd [OF inv]) (simp add: iname)
    show ?thesis
      unfolding AddFileContents_def \<open>ld_table (ld w) = Some items\<close> option.case found prod.case Let_def Some
        w0_def [symmetric]
      using 0 changed by (simp add: canon_publish canon_upd_same canon_queue)
  qed
qed

lemma canon_step:
  assumes "ld_step B S E L c c'" and "table_laws L" and "table_names L" and "canon_ok L (fst c)"
  shows "canon_ok L (fst c')"
  using assms
proof (induction rule: ld_step.induct)
  case (other w' w batch)
  have "item_name f w' = item_name f w" for f by (rule item_name_cong) (rule other(2))
  then show ?case using other by (simp add: canon_ok_def)
next
  case (take w)
  then show ?case by (auto intro!: canon_queue)
next
  case (compress f batch w)
  then show ?case by (auto intro!: canon_upd_same)
next
  case (finish w batch f source hash)
  then show ?case by (auto intro!: canon_upd_same)
qed (simp_all only: fst_conv canon_add canon_registration canon_worker canon_payload canon_updates canon_shutdown
    canon_broadcast)

lemma canon_reach: "\<lbrakk>ld_reach B S E L c; table_laws L; table_names L\<rbrakk> \<Longrightarrow> canon_ok L (fst c)"
proof (induction rule: ld_reach.induct)
  case (start w)
  then show ?case by (simp add: canon_ok_def canon_entry_def) (simp add: LuaPackEntry_new_def)
qed (rule canon_step)

text \<open>C9.  The identity a canonical registration advertises is that of the placeholder every client
  receives.  In every state the cache reaches, a file registered in canonical mode whose hash is
  published has in the string table exactly the first 32 bytes of the placeholder's payload; only the
  init files advertise the hash of their source behind the client bootstrap.\<close>

theorem canonical_identity_is_placeholder:
  assumes "ld_reach B S E L (w, batch)" and "table_laws L" and "table_names L" and "hash_laws S"
    and "BuildCompressedStub B S = Some payload"
    and "le_hashPublished (ld_entries (ld w) f)" and "le_luapackCanonical (ld_entries (ld w) f)"
  shows "user_data f w = Some (take 32 payload) \<or>
    (\<exists>n. item_name f w = Some (Some n) \<and> IsInitFile n \<and>
      user_data f w = Some (HashClientLuaString S
        (lde_clientBootstrap L @ [CHR 0x0A] @ le_sourceContent (ld_entries (ld w) f))))"
proof -
  have "ld_ok B S w" using ld_inv_reach [OF assms(1,2,4)] by (simp add: ld_inv_def)
  then have h: "user_data f w = Some (HashClientLuaString S (le_content (ld_entries (ld w) f)))"
    using assms(6) by (auto simp: ld_ok_def entry_ok_def)
  have "HashClientLuaString S canonicalStubSource = take 32 payload"
    using assms(4,5) by (auto simp: BuildCompressedStub_def HashClientLuaString_def hash_laws_def Let_def split: option.splits)
  moreover have "canon_entry (lde_clientBootstrap L) (item_name f w) (ld_entries (ld w) f)"
    using canon_reach [OF assms(1-3)] by (simp add: canon_ok_def)
  ultimately show ?thesis using h assms(7) by (auto simp: canon_entry_def canonical_content_def split: if_splits)
qed

lemma cache_names: "table_names cache_lde"
  by (auto simp: table_names_def cache_lde_def find_Some_iff nth_enumerate_eq split: option.splits)

theorem canonical_identity_is_placeholder_witness:
  "user_data 1 cache_run = Some (take 32 (the (BuildCompressedStub cache_bootil cache_hashes)))"
proof -
  obtain payload where p: "BuildCompressedStub cache_bootil cache_hashes = Some payload"
    by (simp add: BuildCompressedStub_def cache_bootil_def Let_def)
  have e: "le_luapackCanonical (ld_entries (ld cache_run) 1)"
    by (simp add: cache_run_def cache_published_entry worker_compress_def CompressFile_def EnsureSourceHash_def
        Compress_def Let_def processed_entry_def replaced_entry_def ensure_content_hash_def cache_bootil_def
        UsesPassthroughProcessing_def)
  have "item_name 1 cache_run = Some (Some ''a.lua'')"
    using item_name_registration [of 1 cache_hashes cache_eng cache_lde 1 cache_added]
    by (simp add: cache_run_def cache_published_def item_name_def [of _ cache_added] string_item_def cache_added_ld)
  then show ?thesis
    using canonical_identity_is_placeholder [OF cache_reach cache_laws(1) cache_names cache_laws(2) p cache_entry(1) e] p
    by (simp add: cache_not_init)
qed

end
