(* ===== verification/LuaBaseline.thy ===== *)
theory LuaBaseline
  imports LuaEntriesCanonical
begin

text \<open>
  The start of a client's delivery in \<^verbatim>\<open>gmoddatapack.cpp\<close>: the identity every Lua file is
  advertised with, \<^verbatim>\<open>ScopedClientLuaBaseline\<close>, which puts these identities into the string
  table for the time of one engine call, the reservation of the reliable stream, and
  \<^verbatim>\<open>SendLuaPackServerInfoNow\<close>.
\<close>

section \<open>The engine around a baseline\<close>

text \<open>
  \<open>be_items\<close> is whether \<^verbatim>\<open>CNetworkStringTable::m_pItems\<close> is set; \<open>be_cachedSource\<close>
  is \<^verbatim>\<open>Lua::GetShared()->GetCache\<close>, \<open>be_cachedName\<close> the name of the file it returns, and
  \<open>be_shared\<close> whether there is a shared cache; \<open>be_sendServerInfo\<close> is the engine's own
  \<^verbatim>\<open>CBaseClient::SendServerInfo\<close>; the others are the reliable stream of a net channel and
  the console variables.
\<close>

record 'y BaselineEngine =
  be_items :: "'y \<Rightarrow> bool"
  be_cachedSource :: "'y \<Rightarrow> string \<Rightarrow> string option"
  be_maxBits :: "'y \<Rightarrow> u64 \<Rightarrow> int"
  be_bitsWritten :: "'y \<Rightarrow> u64 \<Rightarrow> int"
  be_setMaxBufferSize :: "u64 \<Rightarrow> int \<Rightarrow> 'y \<Rightarrow> 'y"
  be_sendServerInfo :: "Session option \<Rightarrow> 'y LdWorld \<Rightarrow> bool \<times> 'y LdWorld"
  be_requiredStubBudget :: "'y \<Rightarrow> int"
  be_serverInfoBudget :: "'y \<Rightarrow> int"
  be_parked :: "'y \<Rightarrow> int \<Rightarrow> bool"
  be_shared :: "'y \<Rightarrow> bool"
  be_cachedName :: "'y \<Rightarrow> string \<Rightarrow> string"
  be_registrationBudget :: "'y \<Rightarrow> int"

section \<open>Identities\<close>

definition PublishedLuaHashMatches :: "StringItem \<Rightarrow> u8 list \<Rightarrow> bool" where
  "PublishedLuaHashMatches item expected \<longleftrightarrow> si_userData item = Some expected"

datatype ClientLuaBaselineHashOrigin = Cached | Computed

definition ResolveClientLuaBaselineHash ::
  "Hashes \<Rightarrow> 'y LuaData Datapack Engine \<Rightarrow> ('y, 'w) LdEngine \<Rightarrow> 'y BaselineEngine \<Rightarrow> int \<Rightarrow> string
     \<Rightarrow> BaselineAction \<Rightarrow> u8 list option \<Rightarrow> 'y LdWorld \<Rightarrow> (u8 list \<times> ClientLuaBaselineHashOrigin) option" where
  "ResolveClientLuaBaselineHash S E L BE fileID fileName fileAction requiredPayload w =
     (let initFile = IsInitFile fileName
      in if fileAction = BaCanonicalStub \<and> \<not> initFile \<and>
            (case requiredPayload of None \<Rightarrow> False | Some payload \<Rightarrow> 32 \<le> length payload)
         then Some (take 32 (the requiredPayload), Cached)
         else
           (let entry = GetPackEntry fileID w;
                cached = (case entry of
                    None \<Rightarrow> None
                  | Some e \<Rightarrow>
                      if fileAction = BaNativeSource \<and> \<not> initFile \<and> le_hasSourceContent e \<and> le_sourceHashReady e
                      then Some (le_sourceHash e)
                      else if initFile \<and> le_hasSourceContent e \<and> le_luapackCanonical e \<and> le_contentHashReady e
                      then Some (le_contentHash e)
                      else if fileAction = BaCanonicalStub \<and> le_luapackCanonical e \<and> le_contentHashReady e
                      then Some (le_contentHash e) else None)
            in case cached of
                 Some hash \<Rightarrow> Some (hash, Cached)
               | None \<Rightarrow>
                   (let source = (case entry of
                          Some e \<Rightarrow> if le_hasSourceContent e then Some (le_sourceContent e)
                                    else be_cachedSource BE (ld_engine (ld w)) fileName
                        | None \<Rightarrow> be_cachedSource BE (ld_engine (ld w)) fileName)
                    in if fileAction = BaCanonicalStub \<and> \<not> initFile
                       then Some (HashClientLuaString S (PrepareVanillaFile (lde_clientBootstrap L) E w fileName ''''), Computed)
                       else (case source of
                               None \<Rightarrow> None
                             | Some s \<Rightarrow> Some (HashClientLuaString S
                                 (if initFile then PrepareVanillaFile (lde_clientBootstrap L) E w fileName s else s),
                                 Computed)))))"

section \<open>The string table of one client\<close>

definition put_data :: "int \<Rightarrow> u8 list option \<Rightarrow> StringItem list \<Rightarrow> StringItem list" where
  "put_data fileID data items =
     (if 0 \<le> fileID \<and> nat fileID < length items
      then items[nat fileID := (items ! nat fileID)\<lparr>si_userData := data\<rparr>] else items)"

definition set_item_data :: "int \<Rightarrow> u8 list option \<Rightarrow> 'y LdWorld \<Rightarrow> 'y LdWorld" where
  "set_item_data fileID data = with_ld (\<lambda>l. l\<lparr>ld_table := map_option (put_data fileID data) (ld_table l)\<rparr>)"

record ClientLuaBaselineHashOverride =
  ov_item :: int
  ov_originalData :: "u8 list option"
  ov_replacementHash :: "u8 list"

record ClientLuaBaseline =
  bl_overrides :: "ClientLuaBaselineHashOverride list"
  bl_nativeHashes :: "int \<Rightarrow> u8 list option"
  bl_pinnedFiles :: PinnedCanonicalFileSet
  bl_requiredPayload :: "u8 list option"
  bl_failure :: string
  bl_files :: u32
  bl_publishedHashes :: u32
  bl_cachedHashes :: u32
  bl_computedHashes :: u32
  bl_valid :: bool

definition ClientLuaBaseline_new :: ClientLuaBaseline where
  "ClientLuaBaseline_new =
     \<lparr>bl_overrides = [], bl_nativeHashes = Map.empty,
      bl_pinnedFiles = PinnedCanonicalFileSet_new MAX_TRACKED_LUA_FILES, bl_requiredPayload = None,
      bl_failure = '''', bl_files = 0, bl_publishedHashes = 0, bl_cachedHashes = 0, bl_computedHashes = 0,
      bl_valid = False\<rparr>"

text \<open>\<^verbatim>\<open>ScopedClientLuaBaseline::Restore\<close>, also its destructor.\<close>

definition ScopedClientLuaBaseline_Restore :: "ClientLuaBaseline \<times> 'y LdWorld \<Rightarrow> ClientLuaBaseline \<times> 'y LdWorld" where
  "ScopedClientLuaBaseline_Restore c =
     ((fst c)\<lparr>bl_overrides := []\<rparr>,
      fold (\<lambda>ov. set_item_data (ov_item ov) (ov_originalData ov)) (bl_overrides (fst c)) (snd c))"

definition baseline_failure :: "string \<Rightarrow> ClientLuaBaseline \<times> 'y LdWorld \<Rightarrow> ClientLuaBaseline \<times> 'y LdWorld" where
  "baseline_failure failure c = ((fst c)\<lparr>bl_failure := failure\<rparr>, snd c)"

text \<open>The identity of one file put into the table.\<close>

definition baseline_hash ::
  "int \<Rightarrow> u8 list \<Rightarrow> ClientLuaBaselineHashOrigin \<Rightarrow> ClientLuaBaseline \<times> 'y LdWorld \<Rightarrow> ClientLuaBaseline \<times> 'y LdWorld" where
  "baseline_hash fileID hash origin c =
     (case string_item fileID (snd c) of
        None \<Rightarrow> c
      | Some item \<Rightarrow>
          (let b = fst c;
               disposition = SelectBaselineHashDisposition (PublishedLuaHashMatches item hash) (origin = Cached)
           in if disposition = ReusePublished
              then (b\<lparr>bl_publishedHashes := bl_publishedHashes b + 1\<rparr>, snd c)
              else
                (let b1 = (if disposition = OverrideCached
                           then b\<lparr>bl_cachedHashes := bl_cachedHashes b + 1\<rparr>
                           else b\<lparr>bl_computedHashes := bl_computedHashes b + 1\<rparr>)
                 in (b1\<lparr>bl_overrides := bl_overrides b1 @
                         [\<lparr>ov_item = fileID, ov_originalData = si_userData item, ov_replacementHash = hash\<rparr>]\<rparr>,
                     set_item_data fileID (Some hash) (snd c)))))"

text \<open>The body of the loop over the registered files, for a file of name \<open>fileName\<close>.\<close>

definition file_action ::
  "'y LuaData Datapack Engine \<Rightarrow> int \<Rightarrow> BaselineAction \<Rightarrow> string \<Rightarrow> 'y LdWorld \<Rightarrow> BaselineDecision" where
  "file_action E slot action fileName w =
     (if action = BaBasePlusDelta then DecidePinnedFileBaselineForClient E slot fileName w
      else accept_baseline action)"

definition baseline_file ::
  "Hashes \<Rightarrow> 'y LuaData Datapack Engine \<Rightarrow> ('y, 'w) LdEngine \<Rightarrow> 'y BaselineEngine \<Rightarrow> int \<Rightarrow> BaselineAction \<Rightarrow> bool
     \<Rightarrow> int \<Rightarrow> string \<Rightarrow> ClientLuaBaseline \<times> 'y LdWorld \<Rightarrow> bool \<times> (ClientLuaBaseline \<times> 'y LdWorld)" where
  "baseline_file S E L BE slot action trackNativeBaseline fileID fileName c =
     (let c1 = ((fst c)\<lparr>bl_files := bl_files (fst c) + 1\<rparr>, snd c);
          decision = file_action E slot action fileName (snd c1);
          fileAction = bd_action decision
      in if action = BaBasePlusDelta \<and> fileAction = BaReject
         then (False, ScopedClientLuaBaseline_Restore (baseline_failure
                ((case bd_failure decision of None \<Rightarrow> ''map-base selection failed'' | Some f \<Rightarrow> f) @ '' for '' @ fileName) c1))
         else
           (let c2 = (if fileAction = BaCanonicalStub \<and> \<not> IsInitFile fileName
                      then ((fst c1)\<lparr>bl_pinnedFiles := PinnedCanonicalFileSet_Mark fileID (bl_pinnedFiles (fst c1))\<rparr>, snd c1)
                      else c1)
            in case ResolveClientLuaBaselineHash S E L BE fileID fileName fileAction (bl_requiredPayload (fst c2)) (snd c2) of
                 None \<Rightarrow> (False, ScopedClientLuaBaseline_Restore
                           (baseline_failure (''source identity is unavailable for '' @ fileName) c2))
               | Some (hash, origin) \<Rightarrow>
                   (let c3 = baseline_hash fileID hash origin c2
                    in (True,
                        if trackNativeBaseline \<and> fileAction = BaNativeSource \<and> \<not> IsInitFile fileName \<and>
                           bl_nativeHashes (fst c3) fileID = None
                        then ((fst c3)\<lparr>bl_nativeHashes := (bl_nativeHashes (fst c3))(fileID \<mapsto> hash)\<rparr>, snd c3)
                        else c3))))"

fun baseline_files ::
  "Hashes \<Rightarrow> 'y LuaData Datapack Engine \<Rightarrow> ('y, 'w) LdEngine \<Rightarrow> 'y BaselineEngine \<Rightarrow> int \<Rightarrow> BaselineAction \<Rightarrow> bool
     \<Rightarrow> int list \<Rightarrow> ClientLuaBaseline \<times> 'y LdWorld \<Rightarrow> bool \<times> (ClientLuaBaseline \<times> 'y LdWorld)" where
  "baseline_files S E L BE slot action track [] c = (True, c)"
| "baseline_files S E L BE slot action track (fileID # files) c =
     (case (case string_item fileID (snd c) of None \<Rightarrow> None | Some item \<Rightarrow> si_name item) of
        None \<Rightarrow> baseline_files S E L BE slot action track files c
      | Some fileName \<Rightarrow>
          (case baseline_file S E L BE slot action track fileID fileName c of
             (ok, c') \<Rightarrow> if ok then baseline_files S E L BE slot action track files c' else (False, c')))"

definition registered_files :: "'y LdWorld \<Rightarrow> int list" where
  "registered_files w =
     (case ld_table (ld w) of None \<Rightarrow> [] | Some items \<Rightarrow> map int [1..<length items])"

text \<open>The constructor: the slot's pins are dropped first, then the native hashes of a tracked client.\<close>

definition reset_pins :: "'y LuaData Datapack Engine \<Rightarrow> int \<Rightarrow> 'y LdWorld \<Rightarrow> 'y LdWorld" where
  "reset_pins E slot w =
     (if IsValidSlot E slot
      then with_dp (\<lambda>d. d\<lparr>dp_pinnedFiles := (dp_pinnedFiles d)(slot := PinnedCanonicalFileSet_Reset (dp_pinnedFiles d slot)),
             dp_pinnedPayloads := (dp_pinnedPayloads d)(slot := None)\<rparr>) w
      else w)"

definition track_native ::
  "'y LuaData Datapack Engine \<Rightarrow> int \<Rightarrow> BaselineAction \<Rightarrow> 'y LdWorld \<Rightarrow> bool \<times> 'y LdWorld" where
  "track_native E slot action w =
     (let needs = (if IsValidSlot E slot \<and> action = BaBasePlusDelta then (True, w)
                   else if IsValidSlot E slot \<and> action = BaNativeSource then NeedsNativeHashUpdate E slot w
                   else (False, w))
      in (fst needs,
          if fst needs then with_dp (\<lambda>d. d\<lparr>dp_nativeHashes := (dp_nativeHashes d)(slot := Map.empty)\<rparr>) (snd needs)
          else snd needs))"

definition ScopedClientLuaBaseline ::
  "Hashes \<Rightarrow> 'y LuaData Datapack Engine \<Rightarrow> ('y, 'w) LdEngine \<Rightarrow> 'y BaselineEngine \<Rightarrow> int \<Rightarrow> BaselineAction
     \<Rightarrow> 'y LdWorld \<Rightarrow> ClientLuaBaseline \<times> 'y LdWorld" where
  "ScopedClientLuaBaseline S E L BE slot action w =
     (let validSlot = IsValidSlot E slot;
          w1 = reset_pins E slot w
      in if action \<noteq> BaBasePlusDelta \<and> action \<noteq> BaCanonicalStub \<and> action \<noteq> BaNativeSource
         then baseline_failure ''unsupported Lua baseline action'' (ClientLuaBaseline_new, w1)
         else if ld_table (ld w1) = None
         then baseline_failure ''client_lua_files is unavailable'' (ClientLuaBaseline_new, w1)
         else
           (let track = fst (track_native E slot action w1);
                w2 = snd (track_native E slot action w1)
            in if \<not> be_items BE (ld_engine (ld w2))
               then baseline_failure ''client_lua_files has no item dictionary'' (ClientLuaBaseline_new, w2)
               else
                 (let required = (if validSlot \<and> action = BaBasePlusDelta then RequiredStubPayloadForClient E slot w2 else None)
                  in if validSlot \<and> action = BaBasePlusDelta \<and>
                        (case required of None \<Rightarrow> True | Some payload \<Rightarrow> length payload < 32)
                     then baseline_failure ''the pinned canonical placeholder payload is unavailable''
                            (ClientLuaBaseline_new\<lparr>bl_requiredPayload := required\<rparr>, w2)
                     else
                       (case baseline_files S E L BE slot action track (registered_files w2)
                               (ClientLuaBaseline_new\<lparr>bl_requiredPayload := required\<rparr>, w2) of
                          (ok, b, w3) \<Rightarrow>
                            if \<not> ok then (b, w3)
                            else
                              (let w4 = (if track
                                         then with_dp (\<lambda>d. d\<lparr>dp_nativeHashes := (dp_nativeHashes d)
                                                (slot := bl_nativeHashes b ++ dp_nativeHashes d slot)\<rparr>) w3
                                         else w3);
                                   w5 = (if required \<noteq> None
                                         then with_dp (\<lambda>d. d\<lparr>dp_pinnedFiles := (dp_pinnedFiles d)(slot := bl_pinnedFiles b),
                                                dp_pinnedPayloads := (dp_pinnedPayloads d)(slot := required)\<rparr>) w4
                                         else w4)
                               in (b\<lparr>bl_valid := True\<rparr>, w5))))))"

end
