(* ===== verification/ServerInfo.thy ===== *)
theory ServerInfo
  imports LuaBaseline
begin

text \<open>
  The reservation of the reliable stream, \<^verbatim>\<open>SendLuaPackServerInfoNow\<close> and the queue that
  spreads these sends over frames.
\<close>

section \<open>Room for the placeholders\<close>

text \<open>\<open>None\<close> is success, \<open>Some\<close> the failure.\<close>

definition EnsureRequiredLuaReliableCapacity ::
  "'y LuaData Datapack Engine \<Rightarrow> 'y BaselineEngine \<Rightarrow> Session option \<Rightarrow> int \<Rightarrow> BaselineAction
     \<Rightarrow> 'y LdWorld \<Rightarrow> string option \<times> 'y LdWorld" where
  "EnsureRequiredLuaReliableCapacity E BE client slot action w =
     (if action \<noteq> BaBasePlusDelta then (None, w)
      else
        (case (client, ld_table (ld w)) of
           (Some c, Some items) \<Rightarrow>
             (case se_channel c of
                None \<Rightarrow> (Some ''the client netchannel is unavailable'', w)
              | Some channel \<Rightarrow>
                  (let y = ld_engine (ld w);
                       registeredStubCount = of_nat (length items - 1) :: size_t;
                       perFrameStubCount = min registeredStubCount (of_int (max 1 (be_requiredStubBudget BE y)));
                       compressedStubBytes = of_nat (RequiredStubCompressedBytesForClient E slot w) :: size_t
                   in if compressedStubBytes = 0 then (Some ''the canonical placeholder body is unavailable'', w)
                      else
                        (let minimumRequiredBytes = RequiredStubReliableCapacityBytes perFrameStubCount
                               compressedStubBytes RequiredStubReliableReserveBytes
                         in if minimumRequiredBytes = SIZE_MAX \<or> INT_MAX < unat minimumRequiredBytes
                            then (Some ''the canonical placeholder burst exceeds the addressable reliable buffer'', w)
                            else
                              (let previousBits = be_maxBits BE y channel
                               in if previousBits \<le> 0
                                  then (Some ''the engine reported an invalid reliable buffer capacity'', w)
                                  else
                                    (let previousBytes = (of_int previousBits + 7) div 8 :: size_t
                                     in if minimumRequiredBytes \<le> previousBytes then (None, w)
                                        else
                                          (let preferredBytes = RequiredStubReliableCapacityBytes perFrameStubCount
                                                 compressedStubBytes previousBytes;
                                               requestedBytes = (if preferredBytes \<noteq> SIZE_MAX \<and> unat preferredBytes \<le> INT_MAX
                                                 then preferredBytes else minimumRequiredBytes)
                                           in if be_bitsWritten BE y channel \<noteq> 0
                                              then (Some ''reliable sign-on bytes were already staged before capacity reservation'', w)
                                              else
                                                (let w1 = with_ld (\<lambda>l. l\<lparr>ld_engine :=
                                                       be_setMaxBufferSize BE channel (uint requestedBytes) (ld_engine l)\<rparr>) w;
                                                     actualBits = be_maxBits BE (ld_engine (ld w1)) channel;
                                                     actualBytes = (if 0 < actualBits then (of_int actualBits + 7) div 8 else 0) :: size_t
                                                 in (if actualBytes < minimumRequiredBytes
                                                     then Some ''the engine refused the required reliable buffer capacity''
                                                     else None, w1))))))))
         | _ \<Rightarrow> (Some ''the client Lua string table is unavailable'', w)))"

section \<open>Sending\<close>

definition disconnect_client ::
  "'y LuaData Datapack Engine \<Rightarrow> Session option \<Rightarrow> string \<Rightarrow> 'y LdWorld \<Rightarrow> 'y LdWorld" where
  "disconnect_client E client reason w =
     (case client of None \<Rightarrow> w | Some c \<Rightarrow> eng_disconnect E (se_playerSlot c) reason w)"

definition baseline_telemetry ::
  "'y LuaData Datapack Engine \<Rightarrow> int \<Rightarrow> ClientLuaBaseline \<Rightarrow> real \<Rightarrow> 'y LdWorld \<Rightarrow> 'y LdWorld" where
  "baseline_telemetry E slot b milliseconds w =
     (if IsValidSlot E slot
      then with_dp (upd_queue slot (\<lambda>q. q\<lparr>rq_baselineFiles := bl_files b,
             rq_baselinePublishedHashes := bl_publishedHashes b, rq_baselineCachedHashes := bl_cachedHashes b,
             rq_baselineComputedHashes := bl_computedHashes b,
             rq_baselineOverrides := of_nat (length (bl_overrides b)),
             rq_baselinePreparationMilliseconds := milliseconds\<rparr>)) w
      else w)"

definition engine_telemetry :: "'y LuaData Datapack Engine \<Rightarrow> int \<Rightarrow> real \<Rightarrow> 'y LdWorld \<Rightarrow> 'y LdWorld" where
  "engine_telemetry E slot milliseconds w =
     (if IsValidSlot E slot
      then with_dp (upd_queue slot (\<lambda>q. q\<lparr>rq_engineServerInfoMilliseconds := milliseconds\<rparr>)) w else w)"

definition SendLuaPackServerInfoNow ::
  "Hashes \<Rightarrow> 'y LuaData Datapack Engine \<Rightarrow> ('y, 'w) LdEngine \<Rightarrow> 'y BaselineEngine \<Rightarrow> Session option
     \<Rightarrow> 'y LdWorld \<Rightarrow> bool \<times> 'y LdWorld" where
  "SendLuaPackServerInfoNow S E L BE client w =
     (let slot = (case client of Some c \<Rightarrow> se_playerSlot c | None \<Rightarrow> - 1);
          w0 = with_dp (ClearClientPinnedRequiredDeliveryState E slot) w;
          (baseline, w1) = DecideBaselineForClient E slot w0
      in if bd_action baseline = BaReject
         then (False, disconnect_client E client (case bd_failure baseline of
                 None \<Rightarrow> ''required LuaPack baseline was rejected'' | Some f \<Rightarrow> f) w1)
         else
           (let (failure, w2) = EnsureRequiredLuaReliableCapacity E BE client slot (bd_action baseline) w1
            in if failure \<noteq> None
               then (False, disconnect_client E client
                       (''Required Lua delivery could not reserve its engine buffer: '' @ the failure) w2)
               else if bd_action baseline = BaUnchanged then be_sendServerInfo BE client w2
               else
                 (let (b, w3) = ScopedClientLuaBaseline S E L BE slot (bd_action baseline) w2;
                      w4 = baseline_telemetry E slot b ((eng_time E (dp w3) - eng_time E (dp w2)) * 1000) w3
                  in if \<not> bl_valid b
                     then (False, snd (ScopedClientLuaBaseline_Restore (b, disconnect_client E client
                             (''Lua delivery could not prepare a consistent file baseline: '' @ bl_failure b) w4)))
                     else
                       (let (result, w5) = be_sendServerInfo BE client w4;
                            w6 = engine_telemetry E slot ((eng_time E (dp w5) - eng_time E (dp w4)) * 1000) w5
                        in (result, snd (ScopedClientLuaBaseline_Restore (b, w6)))))))"

section \<open>The queue\<close>

definition with_server_info ::
  "int \<Rightarrow> (PendingLuaPackServerInfo \<Rightarrow> PendingLuaPackServerInfo) \<Rightarrow> 'x Datapack \<Rightarrow> 'x Datapack" where
  "with_server_info slot f d = d\<lparr>dp_serverInfos := (dp_serverInfos d)(slot := f (dp_serverInfos d slot))\<rparr>"

definition QueueLuaPackServerInfo ::
  "'y LuaData Datapack Engine \<Rightarrow> Session option \<Rightarrow> 'y LdWorld \<Rightarrow> bool \<times> 'y LdWorld" where
  "QueueLuaPackServerInfo E client w =
     (case client of
        None \<Rightarrow> (False, w)
      | Some c \<Rightarrow>
          (let slot = se_playerSlot c
           in if \<not> ShouldScheduleLuaPackServerInfo (IsEnabled w) (SupportsCanonicalRegistration E w)
                   (RegistrationRefreshPending E w) (se_sendServerInfo c)
                   (se_signonState c = eng_signonConnected E) (IsValidSlot E slot) (se_channel c \<noteq> None)
              then (False, w)
              else
                (let pending = dp_serverInfos (dp w) slot;
                     scheduled = RoundRobinSlotScheduler_IsScheduled slot (dp_serverInfoScheduler (dp w))
                 in if scheduled \<and> ps_client pending = Some (se_client c) \<and> ps_channel pending = se_channel c \<and>
                       ps_userID pending = se_userID c \<and> ps_clientChallenge pending = se_clientChallenge c
                    then (True, with_dp (with_server_info slot
                                  (\<lambda>p. p\<lparr>ps_coalescedPolls := ps_coalescedPolls p + 1\<rparr>)) w)
                    else
                      (let scheduler = (if scheduled
                             then RoundRobinSlotScheduler_Unschedule slot (dp_serverInfoScheduler (dp w))
                             else dp_serverInfoScheduler (dp w));
                           (ok, scheduler') = RoundRobinSlotScheduler_Schedule slot scheduler;
                           successor = \<lparr>ps_client = Some (se_client c), ps_channel = se_channel c,
                             ps_userID = se_userID c, ps_clientChallenge = se_clientChallenge c,
                             ps_queuedAt = eng_time E (dp w), ps_coalescedPolls = 0\<rparr>
                       in (ok, with_dp (\<lambda>d. with_server_info slot
                                 (\<lambda>_. if ok then successor else PendingLuaPackServerInfo_new)
                                 (d\<lparr>dp_serverInfoScheduler := scheduler'\<rparr>)) w)))))"

text \<open>The flag \<^verbatim>\<open>m_bSendServerInfo\<close> of a parked client is cleared through the engine.\<close>

definition hook_CBaseClient_SendServerInfo ::
  "Hashes \<Rightarrow> 'y LuaData Datapack Engine \<Rightarrow> ('y, 'w) LdEngine \<Rightarrow> 'y BaselineEngine \<Rightarrow> (int \<Rightarrow> 'y \<Rightarrow> 'y)
     \<Rightarrow> Session option \<Rightarrow> 'y LdWorld \<Rightarrow> bool \<times> 'y LdWorld" where
  "hook_CBaseClient_SendServerInfo S E L BE clearSendServerInfo client w =
     (if (case client of None \<Rightarrow> False | Some c \<Rightarrow> be_parked BE (ld_engine (ld w)) (se_playerSlot c))
      then (True, with_ld (\<lambda>l. l\<lparr>ld_engine := clearSendServerInfo (se_playerSlot (the client)) (ld_engine l)\<rparr>) w)
      else
        (let (queued, w1) = QueueLuaPackServerInfo E client w
         in if queued then (True, w1) else SendLuaPackServerInfoNow S E L BE client w1))"

definition server_info_matches ::
  "'y LuaData Datapack Engine \<Rightarrow> int \<Rightarrow> PendingLuaPackServerInfo \<Rightarrow> Session \<Rightarrow> bool" where
  "server_info_matches E slot pending c =
     QueuedServerInfoIdentityMatches (Some (se_client c) = ps_client pending) (se_channel c = ps_channel pending)
       (se_playerSlot c = slot) (se_userID c = ps_userID pending) (se_clientChallenge c = ps_clientChallenge pending)
       (se_signonState c = eng_signonConnected E) (se_sendServerInfo c)"

text \<open>\<open>remaining\<close> is \<^verbatim>\<open>queuedAtFrameStart - inspected\<close>.\<close>

primrec drain_server_infos ::
  "Hashes \<Rightarrow> 'y LuaData Datapack Engine \<Rightarrow> ('y, 'w) LdEngine \<Rightarrow> 'y BaselineEngine \<Rightarrow> nat \<Rightarrow> nat \<Rightarrow> nat
     \<Rightarrow> 'y LdWorld \<Rightarrow> 'y LdWorld" where
  "drain_server_infos S E L BE budget 0 serviced w = w"
| "drain_server_infos S E L BE budget (Suc remaining) serviced w =
     (if budget \<le> serviced \<or> RoundRobinSlotScheduler_Empty (dp_serverInfoScheduler (dp w)) then w
      else
        (let (slot, scheduler) = RoundRobinSlotScheduler_TakeNext (dp_serverInfoScheduler (dp w));
             w1 = with_dp (\<lambda>d. d\<lparr>dp_serverInfoScheduler := scheduler\<rparr>) w
         in if \<not> IsValidSlot E slot then drain_server_infos S E L BE budget remaining serviced w1
            else
              (let pending = dp_serverInfos (dp w1) slot;
                   w2 = with_dp (with_server_info slot (\<lambda>_. PendingLuaPackServerInfo_new)) w1
               in case lde_client L (ld_engine (ld w2)) slot of
                    None \<Rightarrow> drain_server_infos S E L BE budget remaining serviced w2
                  | Some current \<Rightarrow>
                      if \<not> server_info_matches E slot pending current
                      then drain_server_infos S E L BE budget remaining serviced w2
                      else drain_server_infos S E L BE budget remaining (serviced + 1)
                             (snd (SendLuaPackServerInfoNow S E L BE (Some current) w2)))))"

definition DrainQueuedLuaPackServerInfos ::
  "Hashes \<Rightarrow> 'y LuaData Datapack Engine \<Rightarrow> ('y, 'w) LdEngine \<Rightarrow> 'y BaselineEngine \<Rightarrow> 'y LdWorld \<Rightarrow> 'y LdWorld" where
  "DrainQueuedLuaPackServerInfos S E L BE w =
     (if BaselinePreparationPending E w then w
      else drain_server_infos S E L BE (nat (max 1 (be_serverInfoBudget BE (ld_engine (ld w)))))
             (RoundRobinSlotScheduler_Size (dp_serverInfoScheduler (dp w))) 0 w)"

end
