(* ===== verification/BaselineTable.thy ===== *)
theory BaselineTable
  imports ServerInfo LuaPackFailures
begin

text \<open>
  What a baseline does to the string table: every file is advertised with the identity of the body
  the client will be sent, and after the send the table is what it was before.
\<close>

section \<open>Replacing and restoring items\<close>

definition table_item :: "int \<Rightarrow> StringItem list option \<Rightarrow> StringItem option" where
  "table_item f t =
     (case t of None \<Rightarrow> None
      | Some items \<Rightarrow> if 0 \<le> f \<and> nat f < length items then Some (items ! nat f) else None)"

lemma string_item_table: "string_item f w = table_item f (ld_table (ld w))"
  by (simp add: string_item_def table_item_def)

abbreviation put_table :: "int \<Rightarrow> u8 list option \<Rightarrow> StringItem list option \<Rightarrow> StringItem list option" where
  "put_table f d \<equiv> map_option (put_data f d)"

lemma length_put_data [simp]: "length (put_data f d items) = length items"
  by (simp add: put_data_def)

lemma put_data_commute: "f \<noteq> g \<Longrightarrow> put_data f d (put_data g e items) = put_data g e (put_data f d items)"
  by (auto simp: put_data_def nat_eq_iff eq_nat_nat_iff list_update_swap)

lemma put_table_commute: "f \<noteq> g \<Longrightarrow> put_table f d (put_table g e t) = put_table g e (put_table f d t)"
  by (cases t) (simp_all add: put_data_commute)

lemma put_put [simp]: "put_table f d (put_table f e t) = put_table f d t"
  by (cases t) (auto simp: put_data_def)

lemma put_same: "table_item f t = Some item \<Longrightarrow> put_table f (si_userData item) t = t"
  by (auto simp: table_item_def put_data_def split: option.splits if_splits)

lemma table_item_put:
  "table_item g (put_table f d t) =
     (if g = f then map_option (\<lambda>i. i\<lparr>si_userData := d\<rparr>) (table_item g t) else table_item g t)"
  by (auto simp: table_item_def put_data_def nth_list_update nat_eq_iff split: option.split)

definition restore_table :: "ClientLuaBaselineHashOverride list \<Rightarrow> StringItem list option \<Rightarrow> StringItem list option" where
  "restore_table ovs = fold (\<lambda>ov. put_table (ov_item ov) (ov_originalData ov)) ovs"

lemma restore_put: "f \<notin> ov_item ` set ovs \<Longrightarrow> restore_table ovs (put_table f d t) = put_table f d (restore_table ovs t)"
proof (induction ovs arbitrary: t)
  case (Cons ov ovs)
  then show ?case using put_table_commute [of "ov_item ov" f] by (simp add: restore_table_def)
qed (simp add: restore_table_def)

lemma restore_item: "f \<notin> ov_item ` set ovs \<Longrightarrow> table_item f (restore_table ovs t) = table_item f t"
proof (induction ovs arbitrary: t)
  case (Cons ov ovs)
  then show ?case by (simp add: restore_table_def table_item_put)
qed (simp add: restore_table_def)

text \<open>One more override of a file that has none yet does not change what is restored.\<close>

lemma restore_override:
  assumes "f \<notin> ov_item ` set ovs" and "table_item f t = Some item"
  shows "restore_table (ovs @ [\<lparr>ov_item = f, ov_originalData = si_userData item, ov_replacementHash = h\<rparr>])
      (put_table f (Some h) t) = restore_table ovs t"
proof -
  have "table_item f (restore_table ovs t) = Some item" using restore_item [OF assms(1)] assms(2) by simp
  moreover have "restore_table (ovs @ [\<lparr>ov_item = f, ov_originalData = si_userData item, ov_replacementHash = h\<rparr>])
      (put_table f (Some h) t) = put_table f (si_userData item) (put_table f (Some h) (restore_table ovs t))"
    using restore_put [OF assms(1)] by (simp add: restore_table_def)
  ultimately show ?thesis using put_same by (simp only: put_put)
qed

section \<open>Worlds that differ in the table only\<close>

definition with_table :: "StringItem list option \<Rightarrow> 'y LdWorld \<Rightarrow> 'y LdWorld" where
  "with_table t = with_ld (\<lambda>l. l\<lparr>ld_table := t\<rparr>)"

lemma with_table_simps [simp]:
  "ld (with_table t w) = (ld w)\<lparr>ld_table := t\<rparr>" "w_state (with_table t w) = w_state w" "w_cvars (with_table t w) = w_cvars w"
  "with_table t (with_table u w) = with_table t w" "with_table (ld_table (ld w)) w = w"
  by (simp_all add: with_table_def with_ld_def with_rest_def with_dp_def)

lemma set_item_table: "set_item_data f d w = with_table (put_table f d (ld_table (ld w))) w"
  by (simp add: set_item_data_def with_table_def with_ld_def with_rest_def with_dp_def)

lemma Restore_table:
  "snd (ScopedClientLuaBaseline_Restore (b, w)) = with_table (restore_table (bl_overrides b) (ld_table (ld w))) w"
proof -
  have "fold (\<lambda>ov. set_item_data (ov_item ov) (ov_originalData ov)) ovs w =
      with_table (restore_table ovs (ld_table (ld w))) w" for ovs and w :: "'a LdWorld"
    by (induction ovs arbitrary: w) (simp_all add: restore_table_def set_item_table)
  then show ?thesis by (simp add: ScopedClientLuaBaseline_Restore_def)
qed

text \<open>Whether canonical registration is supported is a fact of the engine (its detours).\<close>

definition support_of_engine :: "'y LuaData Datapack Engine \<Rightarrow> bool" where
  "support_of_engine E \<longleftrightarrow>
     (\<forall>w w'. ld_engine (ld w) = ld_engine (ld w') \<longrightarrow>
       SupportsCanonicalRegistration E w = SupportsCanonicalRegistration E w')"

lemma Resolve_cong:
  assumes "\<And>n c. PrepareVanillaFile (lde_clientBootstrap L) E w' n c = PrepareVanillaFile (lde_clientBootstrap L) E w n c"
    and "ld_entries (ld w') = ld_entries (ld w)" and "ld_engine (ld w') = ld_engine (ld w)"
  shows "ResolveClientLuaBaselineHash S E L BE f n a p w' = ResolveClientLuaBaselineHash S E L BE f n a p w"
  unfolding ResolveClientLuaBaselineHash_def GetPackEntry_def assms ..

lemma Resolve_same:
  assumes "support_of_engine E" and "ld_entries (ld w') = ld_entries (ld w)" and "ld_engine (ld w') = ld_engine (ld w)"
    and "w_cvars w' = w_cvars w"
  shows "ResolveClientLuaBaselineHash S E L BE f n a p w' = ResolveClientLuaBaselineHash S E L BE f n a p w"
proof -
  have "SupportsCanonicalRegistration E w' = SupportsCanonicalRegistration E w"
    using assms(1,3) unfolding support_of_engine_def by blast
  then show ?thesis using assms(2-4) by (intro Resolve_cong) (simp_all add: PrepareVanillaFile_def IsEnabled_def)
qed

lemma Resolve_with_table:
  assumes "support_of_engine E"
  shows "ResolveClientLuaBaselineHash S E L BE f n a p (with_table t w) = ResolveClientLuaBaselineHash S E L BE f n a p w"
  by (rule Resolve_same [OF assms]) simp_all

lemma action_with_table [simp]: "file_action E slot action n (with_table t w) = file_action E slot action n w"
  unfolding file_action_def DecidePinnedFileBaselineForClient_def IsEnabled_def client_of_def with_table_simps ..

section \<open>The loop\<close>

text \<open>The identity one file is to be advertised with, in the world before the loop.\<close>

definition file_name :: "int \<Rightarrow> 'y LdWorld \<Rightarrow> string option" where
  "file_name f w = (case string_item f w of None \<Rightarrow> None | Some item \<Rightarrow> si_name item)"

definition chosen_action :: "'y LuaData Datapack Engine \<Rightarrow> int \<Rightarrow> BaselineAction \<Rightarrow> 'y LdWorld \<Rightarrow> int \<Rightarrow> BaselineAction" where
  "chosen_action E slot action w f = bd_action (file_action E slot action (the (file_name f w)) w)"

definition pinned_file :: "'y LuaData Datapack Engine \<Rightarrow> int \<Rightarrow> BaselineAction \<Rightarrow> 'y LdWorld \<Rightarrow> int \<Rightarrow> bool" where
  "pinned_file E slot action w f \<longleftrightarrow>
     file_name f w \<noteq> None \<and> chosen_action E slot action w f = BaCanonicalStub \<and> \<not> IsInitFile (the (file_name f w))"

definition native_file :: "'y LuaData Datapack Engine \<Rightarrow> int \<Rightarrow> BaselineAction \<Rightarrow> 'y LdWorld \<Rightarrow> int \<Rightarrow> bool" where
  "native_file E slot action w f \<longleftrightarrow>
     file_name f w \<noteq> None \<and> chosen_action E slot action w f = BaNativeSource \<and> \<not> IsInitFile (the (file_name f w))"

definition advertised ::
  "Hashes \<Rightarrow> 'y LuaData Datapack Engine \<Rightarrow> ('y, 'w) LdEngine \<Rightarrow> 'y BaselineEngine \<Rightarrow> int \<Rightarrow> BaselineAction \<Rightarrow> u8 list option
     \<Rightarrow> 'y LdWorld \<Rightarrow> int \<Rightarrow> u8 list option" where
  "advertised S E L BE slot action payload w f =
     map_option fst (ResolveClientLuaBaselineHash S E L BE f (the (file_name f w)) (chosen_action E slot action w f) payload w)"

definition loop_inv ::
  "Hashes \<Rightarrow> 'y LuaData Datapack Engine \<Rightarrow> ('y, 'w) LdEngine \<Rightarrow> 'y BaselineEngine \<Rightarrow> int \<Rightarrow> BaselineAction \<Rightarrow> bool
     \<Rightarrow> u8 list option \<Rightarrow> 'y LdWorld \<Rightarrow> int set \<Rightarrow> ClientLuaBaseline \<times> 'y LdWorld \<Rightarrow> bool" where
  "loop_inv S E L BE slot action track payload w0 finished c \<longleftrightarrow>
     (\<exists>t. snd c = with_table t w0 \<and> restore_table (bl_overrides (fst c)) t = ld_table (ld w0)) \<and>
     ov_item ` set (bl_overrides (fst c)) \<subseteq> finished \<and>
     \<not> bl_valid (fst c) \<and> bl_requiredPayload (fst c) = payload \<and>
     length (bl_pinnedFiles (fst c)) = MAX_TRACKED_LUA_FILES \<and>
     pinned_ids (bl_pinnedFiles (fst c)) =
       {f \<in> finished. pinned_file E slot action w0 f \<and> f < int MAX_TRACKED_LUA_FILES} \<and>
     (\<forall>f. bl_nativeHashes (fst c) f =
       (if f \<in> finished \<and> track \<and> native_file E slot action w0 f
        then advertised S E L BE slot action payload w0 f else None)) \<and>
     (\<forall>f \<in> finished. file_name f w0 \<noteq> None \<longrightarrow>
       advertised S E L BE slot action payload w0 f \<noteq> None \<and>
       user_data f (snd c) = advertised S E L BE slot action payload w0 f \<and>
       \<not> (action = BaBasePlusDelta \<and> chosen_action E slot action w0 f = BaReject))"

lemma table_frame: "with_table t w0 = with_table t' w0 \<Longrightarrow> t = t'"
  by (drule arg_cong [of _ _ "\<lambda>w. ld_table (ld w)"]) simp

lemma user_data_table: "user_data f w = (case table_item f (ld_table (ld w)) of None \<Rightarrow> None | Some item \<Rightarrow> si_userData item)"
  by (simp add: user_data_def string_item_table)

lemma unfinished_item:
  assumes "restore_table ovs t = T" and "f \<notin> ov_item ` set ovs"
  shows "table_item f t = table_item f T"
  using restore_item [OF assms(2), of t] by (simp add: assms(1))

lemma loop_start:
  "loop_inv S E L BE slot action track payload w {} (ClientLuaBaseline_new\<lparr>bl_requiredPayload := payload\<rparr>, w)"
  unfolding loop_inv_def
proof (intro conjI)
  show "\<exists>t. snd (ClientLuaBaseline_new\<lparr>bl_requiredPayload := payload\<rparr>, w) = with_table t w \<and>
      restore_table (bl_overrides (fst (ClientLuaBaseline_new\<lparr>bl_requiredPayload := payload\<rparr>, w))) t = ld_table (ld w)"
    by (intro exI [of _ "ld_table (ld w)"]) (simp add: ClientLuaBaseline_new_def restore_table_def)
qed (simp_all add: ClientLuaBaseline_new_def PinnedCanonicalFileSet_new_def,
    simp add: PinnedCanonicalFileSet_new_def [symmetric])

lemma restored_start:
  assumes "snd c = with_table t w0" and "restore_table (bl_overrides (fst c)) t = ld_table (ld w0)"
  shows "snd (ScopedClientLuaBaseline_Restore (baseline_failure x c)) = w0"
    and "bl_overrides (fst (ScopedClientLuaBaseline_Restore (baseline_failure x c))) = []"
    and "bl_valid (fst (ScopedClientLuaBaseline_Restore (baseline_failure x c))) = bl_valid (fst c)"
proof -
  have "with_table (ld_table (ld w0)) w0 = w0" by (rule with_table_simps)
  then show "snd (ScopedClientLuaBaseline_Restore (baseline_failure x c)) = w0"
    using assms Restore_table [of "fst (baseline_failure x c)" "snd c"] by (simp add: baseline_failure_def)
qed (simp_all add: ScopedClientLuaBaseline_Restore_def baseline_failure_def)

text \<open>The table with the identity of one more file.\<close>

lemma baseline_hash_effect:
  assumes t: "snd c = with_table t w0" and r: "restore_table (bl_overrides (fst c)) t = ld_table (ld w0)"
    and o: "ov_item ` set (bl_overrides (fst c)) \<subseteq> finished" and f: "f \<notin> finished"
    and item: "string_item f w0 = Some item"
  obtains t' where "snd (baseline_hash f h origin c) = with_table t' w0"
    "restore_table (bl_overrides (fst (baseline_hash f h origin c))) t' = ld_table (ld w0)"
    "ov_item ` set (bl_overrides (fst (baseline_hash f h origin c))) \<subseteq> insert f finished"
    "\<And>g. g \<noteq> f \<Longrightarrow> user_data g (with_table t' w0) = user_data g (with_table t w0)"
    "user_data f (with_table t' w0) = Some h"
    "bl_requiredPayload (fst (baseline_hash f h origin c)) = bl_requiredPayload (fst c)"
    "bl_pinnedFiles (fst (baseline_hash f h origin c)) = bl_pinnedFiles (fst c)"
    "bl_nativeHashes (fst (baseline_hash f h origin c)) = bl_nativeHashes (fst c)"
    "bl_valid (fst (baseline_hash f h origin c)) = bl_valid (fst c)"
proof -
  have nf: "f \<notin> ov_item ` set (bl_overrides (fst c))" using o f by blast
  have ti: "table_item f t = Some item" using unfinished_item [OF r nf] item by (simp add: string_item_table)
  have si: "string_item f (snd c) = Some item" using ti by (simp add: t string_item_table)
  show thesis
  proof (cases "SelectBaselineHashDisposition (PublishedLuaHashMatches item h) (origin = Cached) = ReusePublished")
    case True
    then have "si_userData item = Some h"
      by (simp add: SelectBaselineHashDisposition_def PublishedLuaHashMatches_def split: if_splits)
    moreover have "baseline_hash f h origin c = ((fst c)\<lparr>bl_publishedHashes := bl_publishedHashes (fst c) + 1\<rparr>, snd c)"
      by (simp add: baseline_hash_def si True Let_def)
    ultimately show thesis using t r o ti by (intro that [of t]) (auto simp: user_data_table)
  next
    case False
    let ?t = "put_table f (Some h) t"
    let ?ovs = "bl_overrides (fst c) @ [\<lparr>ov_item = f, ov_originalData = si_userData item, ov_replacementHash = h\<rparr>]"
    obtain b where hash: "baseline_hash f h origin c = (b, set_item_data f (Some h) (snd c))" "bl_overrides b = ?ovs"
      "bl_requiredPayload b = bl_requiredPayload (fst c)" "bl_pinnedFiles b = bl_pinnedFiles (fst c)"
      "bl_nativeHashes b = bl_nativeHashes (fst c)" "bl_valid b = bl_valid (fst c)"
      using False by (simp add: baseline_hash_def si Let_def)
    have "set_item_data f (Some h) (snd c) = with_table ?t w0" by (simp add: t set_item_table)
    then show thesis
      using restore_override [OF nf ti, of h] r o
      by (intro that [of ?t]) (auto simp: hash user_data_table table_item_put ti)
  qed
qed

lemma loop_step:
  assumes inv: "loop_inv S E L BE slot action track payload w0 finished c" and f: "f \<notin> finished" "0 \<le> f"
    and sup: "support_of_engine E" and n: "file_name f w0 = Some n"
    and res: "baseline_file S E L BE slot action track f n c = (ok, c')"
  shows "if ok then loop_inv S E L BE slot action track payload w0 (insert f finished) c'
    else snd c' = w0 \<and> bl_overrides (fst c') = [] \<and> \<not> bl_valid (fst c')"
proof -
  obtain t where t: "snd c = with_table t w0" and r: "restore_table (bl_overrides (fst c)) t = ld_table (ld w0)"
    using inv unfolding loop_inv_def by blast
  define c1 where "c1 = ((fst c)\<lparr>bl_files := bl_files (fst c) + 1\<rparr>, snd c)"
  define a where "a = chosen_action E slot action w0 f"
  define dec where "dec = file_action E slot action n w0"
  have a: "a = bd_action dec" by (simp add: a_def dec_def chosen_action_def n)
  have dec1: "file_action E slot action n (snd c1) = dec" by (simp add: c1_def t dec_def)
  have t1: "snd c1 = with_table t w0" "restore_table (bl_overrides (fst c1)) t = ld_table (ld w0)"
    using t r by (simp_all add: c1_def)
  obtain item where item: "string_item f w0 = Some item" using n by (auto simp: file_name_def split: option.splits)
  show ?thesis
  proof (cases "action = BaBasePlusDelta \<and> bd_action dec = BaReject")
    case True
    then have "(ok, c') = (False, ScopedClientLuaBaseline_Restore (baseline_failure
        ((case bd_failure dec of None \<Rightarrow> ''map-base selection failed'' | Some f \<Rightarrow> f) @ '' for '' @ n) c1))"
      using res dec1 by (simp add: baseline_file_def Let_def c1_def [symmetric])
    then show ?thesis using restored_start [OF t1] inv by (simp add: c1_def loop_inv_def)
  next
    case go: False
    define c2 where "c2 = (if bd_action dec = BaCanonicalStub \<and> \<not> IsInitFile n
      then ((fst c1)\<lparr>bl_pinnedFiles := PinnedCanonicalFileSet_Mark f (bl_pinnedFiles (fst c1))\<rparr>, snd c1) else c1)"
    have c2: "snd c2 = with_table t w0" "restore_table (bl_overrides (fst c2)) t = ld_table (ld w0)"
      "bl_overrides (fst c2) = bl_overrides (fst c)" "bl_requiredPayload (fst c2) = payload"
      "bl_nativeHashes (fst c2) = bl_nativeHashes (fst c)" "\<not> bl_valid (fst c2)"
      using t1 inv by (simp_all add: c2_def c1_def loop_inv_def)
    let ?res = "ResolveClientLuaBaselineHash S E L BE f n a payload w0"
    have resolve: "ResolveClientLuaBaselineHash S E L BE f n (bd_action dec) (bl_requiredPayload (fst c2)) (snd c2) = ?res"
      by (simp add: c2 Resolve_with_table [OF sup] a)
    have adv: "advertised S E L BE slot action payload w0 f = map_option fst ?res"
      by (simp add: advertised_def n a_def)
    have step: "(ok, c') = (case ?res of
        None \<Rightarrow> (False, ScopedClientLuaBaseline_Restore (baseline_failure (''source identity is unavailable for '' @ n) c2))
      | Some (hash, origin) \<Rightarrow> (True,
          let c3 = baseline_hash f hash origin c2 in
          if track \<and> bd_action dec = BaNativeSource \<and> \<not> IsInitFile n \<and> bl_nativeHashes (fst c3) f = None
          then ((fst c3)\<lparr>bl_nativeHashes := (bl_nativeHashes (fst c3))(f \<mapsto> hash)\<rparr>, snd c3) else c3))"
      using res go unfolding baseline_file_def Let_def c1_def [symmetric] dec1 c2_def [symmetric] resolve
      by (simp split: option.splits)
    show ?thesis
    proof (cases ?res)
      case None
      then show ?thesis using step restored_start [OF c2(1,2)] c2(6) by simp
    next
      case (Some ho)
      obtain h origin where ho: "ho = (h, origin)" by (cases ho)
      have o2: "ov_item ` set (bl_overrides (fst c2)) \<subseteq> finished" using inv c2(3) by (simp add: loop_inv_def)
      obtain t' where c3: "snd (baseline_hash f h origin c2) = with_table t' w0"
        "restore_table (bl_overrides (fst (baseline_hash f h origin c2))) t' = ld_table (ld w0)"
        "ov_item ` set (bl_overrides (fst (baseline_hash f h origin c2))) \<subseteq> insert f finished"
        "\<And>g. g \<noteq> f \<Longrightarrow> user_data g (with_table t' w0) = user_data g (with_table t w0)"
        "user_data f (with_table t' w0) = Some h"
        "bl_requiredPayload (fst (baseline_hash f h origin c2)) = bl_requiredPayload (fst c2)"
        "bl_pinnedFiles (fst (baseline_hash f h origin c2)) = bl_pinnedFiles (fst c2)"
        "bl_nativeHashes (fst (baseline_hash f h origin c2)) = bl_nativeHashes (fst c2)"
        "bl_valid (fst (baseline_hash f h origin c2)) = bl_valid (fst c2)"
        using baseline_hash_effect [OF c2(1,2) o2 f(1) item, of h origin] by blast
      have native: "bl_nativeHashes (fst c2) f = None" using inv f(1) by (simp add: c2 loop_inv_def)
      define c3' where "c3' = baseline_hash f h origin c2"
      have ok: "ok" and c': "c' = (if track \<and> bd_action dec = BaNativeSource \<and> \<not> IsInitFile n
          then ((fst c3')\<lparr>bl_nativeHashes := (bl_nativeHashes (fst c3'))(f \<mapsto> h)\<rparr>, snd c3') else c3')"
        using step Some ho c3(8) native by (simp_all add: c3'_def Let_def)
      have adv_f: "advertised S E L BE slot action payload w0 f = Some h" by (simp add: adv Some ho)
      have frame: "snd c' = with_table t' w0" "bl_overrides (fst c') = bl_overrides (fst c3')"
        "bl_requiredPayload (fst c') = payload" "bl_pinnedFiles (fst c') = bl_pinnedFiles (fst c2)"
        using c3(1,6,7) c2(4) by (simp_all add: c' c3'_def)
      have pinned: "bl_pinnedFiles (fst c2) = (if pinned_file E slot action w0 f
          then PinnedCanonicalFileSet_Mark f (bl_pinnedFiles (fst c)) else bl_pinnedFiles (fst c))"
        using a by (simp add: c2_def c1_def pinned_file_def n a_def [symmetric])
      have nat: "bl_nativeHashes (fst c') g = (if g \<in> insert f finished \<and> track \<and> native_file E slot action w0 g
          then advertised S E L BE slot action payload w0 g else None)" for g
      proof (cases "g = f")
        case True
        have "native_file E slot action w0 f = (bd_action dec = BaNativeSource \<and> \<not> IsInitFile n)"
          by (simp add: native_file_def n a_def [symmetric] a)
        then show ?thesis using True native adv_f c3(8) by (simp add: c' c3'_def)
      next
        case False
        have "bl_nativeHashes (fst c') g = bl_nativeHashes (fst c) g"
          using False c3(8) c2(5) by (simp add: c' c3'_def)
        moreover have "bl_nativeHashes (fst c) g = (if g \<in> finished \<and> track \<and> native_file E slot action w0 g
          then advertised S E L BE slot action payload w0 g else None)" using inv unfolding loop_inv_def by blast
        ultimately show ?thesis using False by simp
      qed
      have "loop_inv S E L BE slot action track payload w0 (insert f finished) c'"
        unfolding loop_inv_def
      proof (intro conjI)
        show "\<exists>t. snd c' = with_table t w0 \<and> restore_table (bl_overrides (fst c')) t = ld_table (ld w0)"
          using c3(2) frame by (auto simp: c3'_def)
        show "ov_item ` set (bl_overrides (fst c')) \<subseteq> insert f finished" using c3(3) frame by (simp add: c3'_def)
        show "\<not> bl_valid (fst c')" using c3(9) c2(6) by (simp add: c' c3'_def)
        show "bl_requiredPayload (fst c') = payload" using frame by simp
        show "length (bl_pinnedFiles (fst c')) = MAX_TRACKED_LUA_FILES"
          using inv frame pinned by (simp add: loop_inv_def)
        show "pinned_ids (bl_pinnedFiles (fst c')) =
            {g \<in> insert f finished. pinned_file E slot action w0 g \<and> g < int MAX_TRACKED_LUA_FILES}"
          using inv frame pinned f(2) by (auto simp: loop_inv_def pinned_ids_Mark nat_less_iff)
        show "\<forall>g. bl_nativeHashes (fst c') g = (if g \<in> insert f finished \<and> track \<and> native_file E slot action w0 g
          then advertised S E L BE slot action payload w0 g else None)" using nat by blast
        show "\<forall>g \<in> insert f finished. file_name g w0 \<noteq> None \<longrightarrow>
            advertised S E L BE slot action payload w0 g \<noteq> None \<and>
            user_data g (snd c') = advertised S E L BE slot action payload w0 g \<and>
            \<not> (action = BaBasePlusDelta \<and> chosen_action E slot action w0 g = BaReject)"
        proof (intro ballI impI)
          fix g assume g: "g \<in> insert f finished" "file_name g w0 \<noteq> None"
          have old: "\<forall>g \<in> finished. file_name g w0 \<noteq> None \<longrightarrow> advertised S E L BE slot action payload w0 g \<noteq> None \<and>
              user_data g (with_table t w0) = advertised S E L BE slot action payload w0 g \<and>
              \<not> (action = BaBasePlusDelta \<and> chosen_action E slot action w0 g = BaReject)"
            using inv unfolding loop_inv_def t by blast
          show "advertised S E L BE slot action payload w0 g \<noteq> None \<and>
              user_data g (snd c') = advertised S E L BE slot action payload w0 g \<and>
              \<not> (action = BaBasePlusDelta \<and> chosen_action E slot action w0 g = BaReject)"
          proof (cases "g = f")
            case True
            then show ?thesis using adv_f c3(5) go by (simp add: frame a_def [symmetric] a)
          next
            case False
            then have "g \<in> finished" using g(1) by blast
            then show ?thesis using old g(2) c3(4) [OF False] by (simp add: frame)
          qed
        qed
      qed
      then show ?thesis using ok by simp
    qed
  qed
qed

lemma name_in_loop:
  assumes "snd c = with_table t w0" and "restore_table (bl_overrides (fst c)) t = ld_table (ld w0)"
    and "ov_item ` set (bl_overrides (fst c)) \<subseteq> finished" and "f \<notin> finished"
  shows "(case string_item f (snd c) of None \<Rightarrow> None | Some item \<Rightarrow> si_name item) = file_name f w0"
proof -
  have "f \<notin> ov_item ` set (bl_overrides (fst c))" using assms(3,4) by blast
  then show ?thesis
    using unfinished_item [OF assms(2)] by (simp add: assms(1) string_item_table file_name_def)
qed

lemma loop_skip:
  "\<lbrakk>loop_inv S E L BE slot action track payload w0 finished c; file_name f w0 = None\<rbrakk> \<Longrightarrow>
    loop_inv S E L BE slot action track payload w0 (insert f finished) c"
  unfolding loop_inv_def pinned_file_def native_file_def by auto

lemma loop_all:
  assumes "loop_inv S E L BE slot action track payload w0 finished c" and "distinct fs" and "set fs \<inter> finished = {}"
    and "\<forall>f \<in> set fs. 0 \<le> f" and "support_of_engine E"
    and "baseline_files S E L BE slot action track fs c = (ok, c')"
  shows "if ok then loop_inv S E L BE slot action track payload w0 (finished \<union> set fs) c'
    else snd c' = w0 \<and> bl_overrides (fst c') = [] \<and> \<not> bl_valid (fst c')"
  using assms
proof (induction fs arbitrary: c finished)
  case (Cons f fs)
  obtain t where t: "snd c = with_table t w0" "restore_table (bl_overrides (fst c)) t = ld_table (ld w0)"
    using Cons.prems(1) unfolding loop_inv_def by blast
  have o: "ov_item ` set (bl_overrides (fst c)) \<subseteq> finished" using Cons.prems(1) by (simp add: loop_inv_def)
  have f: "f \<notin> finished" using Cons.prems(3) by simp
  note name = name_in_loop [OF t o f]
  have rest: "distinct fs" "set fs \<inter> insert f finished = {}" "\<forall>f \<in> set fs. 0 \<le> f"
    using Cons.prems(2-4) by auto
  show ?case
  proof (cases "file_name f w0")
    case None
    then have "baseline_files S E L BE slot action track fs c = (ok, c')" using Cons.prems(6) by (simp add: name)
    from Cons.IH [OF loop_skip [OF Cons.prems(1) None] rest Cons.prems(5) this] show ?thesis by (cases ok) simp_all
  next
    case (Some n)
    obtain ok1 c1 where s: "baseline_file S E L BE slot action track f n c = (ok1, c1)" by (metis surj_pair)
    note st = loop_step [OF Cons.prems(1) f _ Cons.prems(5) Some s]
    have all: "(if ok1 then baseline_files S E L BE slot action track fs c1 else (False, c1)) = (ok, c')"
      using Cons.prems(6) by (simp add: name Some s)
    show ?thesis
    proof (cases ok1)
      case True
      then have "loop_inv S E L BE slot action track payload w0 (insert f finished) c1" using st Cons.prems(4) by simp
      from Cons.IH [OF this rest Cons.prems(5)] all True show ?thesis by (cases ok) simp_all
    next
      case False
      then show ?thesis using st all Cons.prems(4) by simp
    qed
  qed
qed simp

section \<open>The constructor\<close>

lemma Needs_engine [simp]: "w_engine (snd (NeedsNativeHashUpdate E slot w)) = w_engine w"
  "w_cvars (snd (NeedsNativeHashUpdate E slot w)) = w_cvars w"
  by (simp_all add: NeedsNativeHashUpdate_def Let_def)

lemma start_frame [simp]:
  "ld (reset_pins E slot w) = ld w" "w_cvars (reset_pins E slot w) = w_cvars w" "w_state (reset_pins E slot w) = w_state w"
  "ld (snd (track_native E slot action w)) = ld w" "w_cvars (snd (track_native E slot action w)) = w_cvars w"
  by (simp_all add: reset_pins_def track_native_def Let_def)

lemma track_pinned:
  assumes "IsValidSlot E slot"
  shows "fst (track_native E slot BaBasePlusDelta w)" and "w_state (snd (track_native E slot BaBasePlusDelta w)) = w_state w"
    and "dp_nativeHashes (dp (snd (track_native E slot BaBasePlusDelta w))) slot = Map.empty"
  using assms by (simp_all add: track_native_def Let_def)

text \<open>What a baseline reads of the world survives the constructor's preparation.\<close>

lemma same_world:
  assumes "support_of_engine E" and "ld w2 = ld w" and "w_cvars w2 = w_cvars w" and "w_state w2 = w_state w"
  shows "file_name f w2 = file_name f w" and "registered_files w2 = registered_files w"
    and "RequiredStubPayloadForClient E slot w2 = RequiredStubPayloadForClient E slot w"
    and "DecidePinnedFileBaselineForClient E slot n w2 = DecidePinnedFileBaselineForClient E slot n w"
    and "chosen_action E slot action w2 f = chosen_action E slot action w f"
    and "pinned_file E slot action w2 f = pinned_file E slot action w f"
    and "native_file E slot action w2 f = native_file E slot action w f"
    and "advertised S E L BE slot action payload w2 f = advertised S E L BE slot action payload w f"
proof -
  show name: "file_name f w2 = file_name f w" and "registered_files w2 = registered_files w"
    by (simp_all add: file_name_def registered_files_def string_item_def assms(2))
  show "RequiredStubPayloadForClient E slot w2 = RequiredStubPayloadForClient E slot w"
    unfolding RequiredStubPayloadForClient_def IsEnabled_def client_of_def assms(3,4) ..
  show dec: "DecidePinnedFileBaselineForClient E slot n w2 = DecidePinnedFileBaselineForClient E slot n w" for n
    unfolding DecidePinnedFileBaselineForClient_def IsEnabled_def client_of_def assms(3,4) ..
  show act: "chosen_action E slot action w2 f = chosen_action E slot action w f"
    unfolding chosen_action_def file_action_def name dec ..
  show "pinned_file E slot action w2 f = pinned_file E slot action w f"
    "native_file E slot action w2 f = native_file E slot action w f"
    unfolding pinned_file_def native_file_def name act by (rule refl)+
  have "ResolveClientLuaBaselineHash S E L BE f n a payload w2 = ResolveClientLuaBaselineHash S E L BE f n a payload w" for n a
    using assms(1) by (rule Resolve_same) (simp_all add: assms(2,3))
  then show "advertised S E L BE slot action payload w2 f = advertised S E L BE slot action payload w f"
    unfolding advertised_def name act by simp
qed

text \<open>A failed baseline leaves the table alone; a valid one comes from a loop over all files.\<close>

lemma constructor_cases:
  assumes "ScopedClientLuaBaseline S E L BE slot action w = (b, w')" and "support_of_engine E"
  obtains (failed) "\<not> bl_valid b" "bl_overrides b = []" "ld_table (ld w') = ld_table (ld w)"
  | (loop) track w2 c3 payload where "track_native E slot action (reset_pins E slot w) = (track, w2)" "bl_valid b" "bl_overrides b = bl_overrides (fst c3)"
      "loop_inv S E L BE slot action track payload w2 (set (registered_files w)) c3"
      "payload = (if IsValidSlot E slot \<and> action = BaBasePlusDelta then RequiredStubPayloadForClient E slot w2 else None)"
      "IsValidSlot E slot \<and> action = BaBasePlusDelta \<Longrightarrow> \<exists>p. payload = Some p \<and> 32 \<le> length p"
      "ld w' = ld (snd c3)" "w_state w' = w_state (snd c3)" "w_cvars w' = w_cvars (snd c3)"
      "track \<Longrightarrow> dp_nativeHashes (dp w') slot = bl_nativeHashes (fst c3) ++ dp_nativeHashes (dp (snd c3)) slot"
      "payload \<noteq> None \<Longrightarrow> dp_pinnedPayloads (dp w') slot = payload \<and> dp_pinnedFiles (dp w') slot = bl_pinnedFiles (fst c3)"
proof -
  obtain track w2 where bl: "track_native E slot action (reset_pins E slot w) = (track, w2)" by (metis surj_pair)
  have frame: "ld w2 = ld w" "w_cvars w2 = w_cvars w"
    using start_frame(4,5) [of E slot action "reset_pins E slot w"] by (simp_all add: bl)
  define payload where "payload = (if IsValidSlot E slot \<and> action = BaBasePlusDelta then RequiredStubPayloadForClient E slot w2 else None)"
  note eq = assms(1) [unfolded ScopedClientLuaBaseline_def Let_def bl fst_conv snd_conv payload_def [symmetric]]
  show thesis
  proof (cases "action \<noteq> BaBasePlusDelta \<and> action \<noteq> BaCanonicalStub \<and> action \<noteq> BaNativeSource")
    case True
    then show ?thesis using eq by (intro failed) (auto simp: baseline_failure_def ClientLuaBaseline_new_def)
  next
    case 1: False
    note eq1 = eq [unfolded if_not_P [OF 1]]
    show ?thesis
    proof (cases "ld_table (ld (reset_pins E slot w)) = None")
      case True
      then show ?thesis using eq1 by (intro failed) (auto simp: baseline_failure_def ClientLuaBaseline_new_def)
    next
      case 2: False
      note eq2 = eq1 [unfolded if_not_P [OF 2]]
      show ?thesis
      proof (cases "\<not> be_items BE (ld_engine (ld w2))")
        case True
        then show ?thesis using eq2 frame by (intro failed) (auto simp: baseline_failure_def ClientLuaBaseline_new_def)
      next
        case 3: False
        note eq3 = eq2 [unfolded if_not_P [OF 3]]
        show ?thesis
        proof (cases "IsValidSlot E slot \<and> action = BaBasePlusDelta \<and> (case payload of None \<Rightarrow> True | Some p \<Rightarrow> length p < 32)")
          case True
          then show ?thesis using eq3 frame by (intro failed) (auto simp: baseline_failure_def ClientLuaBaseline_new_def)
        next
          case 4: False
          note eq4 = eq3 [unfolded if_not_P [OF 4]]
          obtain ok c3 where c3: "baseline_files S E L BE slot action track (registered_files w2)
              (ClientLuaBaseline_new\<lparr>bl_requiredPayload := payload\<rparr>, w2) = (ok, c3)" by (metis surj_pair)
          have files: "registered_files w2 = registered_files w" by (simp add: registered_files_def frame)
          have "distinct (registered_files w2)" "\<forall>f \<in> set (registered_files w2). 0 \<le> f"
            by (auto simp: registered_files_def distinct_map split: option.split)
          note all = loop_all [OF loop_start this(1) _ this(2) assms(2) c3]
          show ?thesis
          proof (cases ok)
            case False
            then have "b = fst c3" "w' = snd c3" using eq4 c3 by (auto split: prod.splits)
            moreover have "bl_valid (fst c3) = False" using all False by simp
            ultimately show ?thesis using all False frame by (intro failed) simp_all
          next
            case True
            have inv: "loop_inv S E L BE slot action track payload w2 (set (registered_files w)) c3"
              using all True files by simp
            show ?thesis
              by (rule loop [OF bl _ _ inv payload_def])
                (use eq4 c3 True 4 in \<open>auto split: prod.splits option.splits if_splits\<close>)
          qed
        qed
      qed
    qed
  qed
qed

text \<open>A baseline succeeds if no file is rejected and each has an identity.\<close>

lemma file_succeeds:
  assumes "loop_inv S E L BE slot action track payload w0 finished c" and "support_of_engine E"
    and "file_name f w0 = Some n" and "advertised S E L BE slot action payload w0 f \<noteq> None"
    and "\<not> (action = BaBasePlusDelta \<and> chosen_action E slot action w0 f = BaReject)"
  shows "fst (baseline_file S E L BE slot action track f n c)"
proof -
  obtain t where t: "snd c = with_table t w0" using assms(1) unfolding loop_inv_def by blast
  have p: "bl_requiredPayload (fst c) = payload" using assms(1) by (simp add: loop_inv_def)
  have "bd_action (file_action E slot action n w0) = chosen_action E slot action w0 f" by (simp add: chosen_action_def assms(3))
  then show ?thesis
    using assms(3-5) by (auto simp: baseline_file_def Let_def t p Resolve_with_table [OF assms(2)] advertised_def
        split: option.split)
qed

lemma loop_succeeds:
  assumes "loop_inv S E L BE slot action track payload w0 finished c" and "distinct fs" and "set fs \<inter> finished = {}"
    and "\<forall>f \<in> set fs. 0 \<le> f" and "support_of_engine E"
    and "\<forall>f \<in> set fs. file_name f w0 \<noteq> None \<longrightarrow> advertised S E L BE slot action payload w0 f \<noteq> None \<and>
      \<not> (action = BaBasePlusDelta \<and> chosen_action E slot action w0 f = BaReject)"
  shows "fst (baseline_files S E L BE slot action track fs c)"
  using assms
proof (induction fs arbitrary: c finished)
  case (Cons f fs)
  obtain t where t: "snd c = with_table t w0" "restore_table (bl_overrides (fst c)) t = ld_table (ld w0)"
    using Cons.prems(1) unfolding loop_inv_def by blast
  have o: "ov_item ` set (bl_overrides (fst c)) \<subseteq> finished" using Cons.prems(1) by (simp add: loop_inv_def)
  have f: "f \<notin> finished" using Cons.prems(3) by simp
  have rest: "distinct fs" "set fs \<inter> insert f finished = {}" "\<forall>f \<in> set fs. 0 \<le> f"
    using Cons.prems(2-4) by auto
  have later: "\<forall>f \<in> set fs. file_name f w0 \<noteq> None \<longrightarrow> advertised S E L BE slot action payload w0 f \<noteq> None \<and>
      \<not> (action = BaBasePlusDelta \<and> chosen_action E slot action w0 f = BaReject)" using Cons.prems(6) by simp
  show ?case
  proof (cases "file_name f w0")
    case None
    from Cons.IH [OF loop_skip [OF Cons.prems(1) None] rest Cons.prems(5) later] None
    show ?thesis by (simp add: name_in_loop [OF t o f])
  next
    case (Some n)
    obtain ok c1 where s: "baseline_file S E L BE slot action track f n c = (ok, c1)" by (metis surj_pair)
    have "ok" using file_succeeds [OF Cons.prems(1,5) Some] Cons.prems(6) Some s by simp
    moreover from this have "loop_inv S E L BE slot action track payload w0 (insert f finished) c1"
      using loop_step [OF Cons.prems(1) f _ Cons.prems(5) Some s] Cons.prems(4) by simp
    from Cons.IH [OF this rest Cons.prems(5) later] have "fst (baseline_files S E L BE slot action track fs c1)" .
    ultimately show ?thesis by (simp add: name_in_loop [OF t o f] Some s)
  qed
qed simp

lemma baseline_valid:
  assumes "IsValidSlot E slot" and "support_of_engine E" and "ld_table (ld w) \<noteq> None" and "be_items BE (ld_engine (ld w))"
    and "RequiredStubPayloadForClient E slot w = Some p" and "32 \<le> length p"
    and "\<And>f n. \<lbrakk>f \<in> set (registered_files w); file_name f w = Some n\<rbrakk> \<Longrightarrow>
      bd_action (DecidePinnedFileBaselineForClient E slot n w) \<noteq> BaReject \<and>
      ResolveClientLuaBaselineHash S E L BE f n (bd_action (DecidePinnedFileBaselineForClient E slot n w)) (Some p) w \<noteq> None"
  shows "bl_valid (fst (ScopedClientLuaBaseline S E L BE slot BaBasePlusDelta w))"
proof -
  define w2 where "w2 = snd (track_native E slot BaBasePlusDelta (reset_pins E slot w))"
  have track: "fst (track_native E slot BaBasePlusDelta (reset_pins E slot w)) = True"
    using track_pinned(1) [OF assms(1)] by blast
  have w2: "ld w2 = ld w" "w_cvars w2 = w_cvars w" "w_state w2 = w_state w"
    using track_pinned(2) [OF assms(1), of "reset_pins E slot w"] by (simp_all add: w2_def)
  note same = same_world [OF assms(2) w2]
  have files: "distinct (registered_files w)" "\<forall>f \<in> set (registered_files w). 0 \<le> f"
    by (auto simp: registered_files_def distinct_map split: option.split)
  have good: "\<forall>f \<in> set (registered_files w). file_name f w2 \<noteq> None \<longrightarrow> advertised S E L BE slot BaBasePlusDelta (Some p) w2 f \<noteq> None \<and>
      \<not> (BaBasePlusDelta = BaBasePlusDelta \<and> chosen_action E slot BaBasePlusDelta w2 f = BaReject)"
    using assms(7) unfolding same by (auto simp: advertised_def chosen_action_def file_action_def)
  obtain b w3 where loop: "baseline_files S E L BE slot BaBasePlusDelta True (registered_files w)
      (ClientLuaBaseline_new\<lparr>bl_requiredPayload := Some p\<rparr>, w2) = (True, b, w3)"
    using loop_succeeds [OF loop_start files(1) _ files(2) assms(2) good, where track = True] by (metis Int_empty_right prod.collapse)
  obtain items where "ld_table (ld w) = Some items" using assms(3) by blast
  then show ?thesis
    unfolding ScopedClientLuaBaseline_def Let_def w2_def [symmetric] track same(2,3) assms(5)
    using assms(1,4,6) by (simp add: loop w2)
qed

text \<open>What the loop leaves when it succeeds for a client with a pinned map base.\<close>

definition current_source :: "'y BaselineEngine \<Rightarrow> int \<Rightarrow> string \<Rightarrow> 'y LdWorld \<Rightarrow> string option" where
  "current_source BE f n w =
     (case GetPackEntry f w of
        Some e \<Rightarrow> if le_hasSourceContent e then Some (le_sourceContent e) else be_cachedSource BE (ld_engine (ld w)) n
      | None \<Rightarrow> be_cachedSource BE (ld_engine (ld w)) n)"

lemma Resolve_native:
  assumes "ld_ok B S w" and "\<not> IsInitFile n"
    and "ResolveClientLuaBaselineHash S E L BE f n BaNativeSource payload w = Some (h, origin)"
  shows "\<exists>src. current_source BE f n w = Some src \<and> h = HashClientLuaString S src"
proof -
  have e: "le_sourceHashReady e \<Longrightarrow> le_sourceHash e = HashClientLuaString S (le_sourceContent e)"
    if "GetPackEntry f w = Some e" for e
    using that assms(1) by (auto simp: GetPackEntry_def ld_ok_def entry_ok_def split: if_splits)
  show ?thesis
    using assms(2,3) e
    by (auto simp: ResolveClientLuaBaselineHash_def current_source_def Let_def split: option.splits if_splits)
qed

lemma Resolve_init:
  assumes "ld_ok B S w" and "canon_ok L w" and "IsInitFile n" and "file_name f w = Some n"
    and "IsEnabled w" and "SupportsCanonicalRegistration E w"
    and "ResolveClientLuaBaselineHash S E L BE f n a payload w = Some (h, origin)"
  shows "\<exists>src. current_source BE f n w = Some src \<and> h = HashClientLuaString S (lde_clientBootstrap L @ [CHR 0x0A] @ src)"
proof -
  have vanilla: "PrepareVanillaFile (lde_clientBootstrap L) E w n s = lde_clientBootstrap L @ [CHR 0x0A] @ s" for s
    using assms(3,5,6) by (simp add: PrepareVanillaFile_def)
  have e: "le_hasSourceContent e \<and> le_contentHash e = HashClientLuaString S (lde_clientBootstrap L @ [CHR 0x0A] @ le_sourceContent e)"
    if "GetPackEntry f w = Some e" "le_luapackCanonical e" "le_contentHashReady e" for e
  proof -
    have "item_name f w = Some (Some n)"
      using assms(4) by (auto simp: file_name_def item_name_def split: option.splits)
    moreover have "canon_entry (lde_clientBootstrap L) (item_name f w) (ld_entries (ld w) f)" "entry_ok B S (ld_entries (ld w) f)"
      using assms(1,2) unfolding canon_ok_def ld_ok_def by blast+
    moreover have "e = ld_entries (ld w) f" using that(1) by (simp add: GetPackEntry_def split: if_splits)
    ultimately have "canon_entry (lde_clientBootstrap L) (Some (Some n)) e" "entry_ok B S e" by simp_all
    then show ?thesis using that(2,3) assms(3) by (simp add: canon_entry_def canonical_content_def entry_ok_def)
  qed
  show ?thesis
    using assms(3,7) e
    by (auto simp: ResolveClientLuaBaselineHash_def current_source_def Let_def vanilla split: option.splits if_splits)
qed

lemma Resolve_canonical:
  assumes "\<not> IsInitFile n" and "32 \<le> length p"
  shows "ResolveClientLuaBaselineHash S E L BE f n BaCanonicalStub (Some p) w = Some (take 32 p, Cached)"
  using assms by (simp add: ResolveClientLuaBaselineHash_def)

lemma pinned_action_cases:
  "bd_action (DecidePinnedFileBaselineForClient E slot n w) \<in> {BaCanonicalStub, BaNativeSource, BaReject}"
  by (auto simp: DecidePinnedFileBaselineForClient_def reject_baseline_def accept_baseline_def Let_def
      split: option.splits Action.splits)

lemma pinned_action_init:
  "IsInitFile n \<Longrightarrow> bd_action (DecidePinnedFileBaselineForClient E slot n w) \<noteq> BaCanonicalStub"
  by (auto simp: DecidePinnedFileBaselineForClient_def reject_baseline_def accept_baseline_def Let_def SelectFile_def
      split: option.split)

text \<open>A valid baseline of a client with a pinned map base, file by file.\<close>

lemma pinned_baseline:
  assumes "ScopedClientLuaBaseline S E L BE slot BaBasePlusDelta w = (b, w')" and "bl_valid b"
    and "IsValidSlot E slot" and sup: "support_of_engine E"
  obtains payload where "RequiredStubPayloadForClient E slot w = Some payload" "dp_pinnedPayloads (dp w') slot = Some payload"
    "32 \<le> length payload"
    "\<And>f. \<lbrakk>f \<in> set (registered_files w); file_name f w \<noteq> None\<rbrakk> \<Longrightarrow>
      advertised S E L BE slot BaBasePlusDelta (Some payload) w f \<noteq> None \<and>
      user_data f w' = advertised S E L BE slot BaBasePlusDelta (Some payload) w f \<and>
      chosen_action E slot BaBasePlusDelta w f \<noteq> BaReject"
    "pinned_ids (dp_pinnedFiles (dp w') slot) =
      {f \<in> set (registered_files w). pinned_file E slot BaBasePlusDelta w f \<and> f < int MAX_TRACKED_LUA_FILES}"
    "\<And>f. dp_nativeHashes (dp w') slot f = (if f \<in> set (registered_files w) \<and> native_file E slot BaBasePlusDelta w f
      then advertised S E L BE slot BaBasePlusDelta (Some payload) w f else None)"
proof (rule constructor_cases [OF assms(1) sup])
  fix track w2 c3 payload
  assume t: "track_native E slot BaBasePlusDelta (reset_pins E slot w) = (track, w2)"
    and inv: "loop_inv S E L BE slot BaBasePlusDelta track payload w2 (set (registered_files w)) c3"
    and p: "payload = (if IsValidSlot E slot \<and> BaBasePlusDelta = BaBasePlusDelta then RequiredStubPayloadForClient E slot w2 else None)"
    and p32: "IsValidSlot E slot \<and> BaBasePlusDelta = BaBasePlusDelta \<Longrightarrow> \<exists>p. payload = Some p \<and> 32 \<le> length p"
    and w': "ld w' = ld (snd c3)"
    and nat: "track \<Longrightarrow> dp_nativeHashes (dp w') slot = bl_nativeHashes (fst c3) ++ dp_nativeHashes (dp (snd c3)) slot"
    and pin: "payload \<noteq> None \<Longrightarrow> dp_pinnedPayloads (dp w') slot = payload \<and> dp_pinnedFiles (dp w') slot = bl_pinnedFiles (fst c3)"
  obtain pl where pl: "payload = Some pl" "32 \<le> length pl" using p32 assms(3) by blast
  have w2: "ld w2 = ld w" "w_cvars w2 = w_cvars w" "w_state w2 = w_state w" "track" "dp_nativeHashes (dp w2) slot = Map.empty"
    using track_pinned [OF assms(3), of "reset_pins E slot w"] start_frame(4,5) [of E slot BaBasePlusDelta "reset_pins E slot w"]
    by (simp_all add: t)
  note same = same_world [OF sup w2(1-3)]
  obtain tt where "snd c3 = with_table tt w2" using inv unfolding loop_inv_def by blast
  then have "dp_nativeHashes (dp (snd c3)) slot = Map.empty"
    by (simp add: with_table_def with_ld_def with_rest_def with_dp_def w2)
  then have native: "dp_nativeHashes (dp w') slot = bl_nativeHashes (fst c3)" using nat w2(4) by simp
  have ud: "user_data f w' = user_data f (snd c3)" for f by (simp add: user_data_table w')
  have pins: "dp_pinnedPayloads (dp w') slot = Some pl" "dp_pinnedFiles (dp w') slot = bl_pinnedFiles (fst c3)"
    using pin pl by simp_all
  have req: "RequiredStubPayloadForClient E slot w = Some pl" using p pl assms(3) same(3) by simp
  note loop = inv [unfolded loop_inv_def pl(1) same]
  show thesis
    by (rule that [OF req pins(1) pl(2)]; unfold native ud pins(2)) (use loop w2(4) in auto)
qed (use assms(2) in simp)

text \<open>C3.  What a client is told and what it will be sent agree.  When the baseline of a client
  with a pinned map base is valid, the table the engine then serialises advertises every registered
  file: a file served as placeholder with the first 32 bytes of the very payload the queue will send,
  and it is pinned; the init files with the hash of the client bootstrap, a line feed and their current
  source; every other file with the hash of its current source, which is also recorded as the native
  identity the client was told.  Nothing else is pinned or recorded.  (A baseline of this kind is
  chosen only when canonical registration is supported.)\<close>

theorem baseline_advertises_delivery:
  assumes "ScopedClientLuaBaseline S E L BE slot BaBasePlusDelta w = (b, w')" and "bl_valid b"
    and "IsValidSlot E slot" and "support_of_engine E" and "SupportsCanonicalRegistration E w"
    and "ld_ok B S w" and "canon_ok L w"
  shows "\<exists>payload. RequiredStubPayloadForClient E slot w = Some payload \<and> dp_pinnedPayloads (dp w') slot = Some payload \<and>
    (\<forall>f n. f \<in> set (registered_files w) \<and> file_name f w = Some n \<longrightarrow>
      (let a = bd_action (DecidePinnedFileBaselineForClient E slot n w);
           pinned = (PinnedCanonicalFileSet_Contains f (dp_pinnedFiles (dp w') slot));
           native = dp_nativeHashes (dp w') slot f
       in if a = BaCanonicalStub
          then \<not> IsInitFile n \<and> user_data f w' = Some (take 32 payload) \<and> pinned = (f < int MAX_TRACKED_LUA_FILES) \<and> native = None
          else a = BaNativeSource \<and> \<not> pinned \<and>
            (\<exists>src. current_source BE f n w = Some src \<and>
              (if IsInitFile n
               then user_data f w' = Some (HashClientLuaString S (lde_clientBootstrap L @ [CHR 0x0A] @ src)) \<and> native = None
               else user_data f w' = Some (HashClientLuaString S src) \<and> native = Some (HashClientLuaString S src))))) \<and>
    (\<forall>f. f \<notin> set (registered_files w) \<or> file_name f w = None \<longrightarrow>
      \<not> PinnedCanonicalFileSet_Contains f (dp_pinnedFiles (dp w') slot) \<and> dp_nativeHashes (dp w') slot f = None)"
proof (rule pinned_baseline [OF assms(1-4)])
  fix payload
  assume req: "RequiredStubPayloadForClient E slot w = Some payload" "dp_pinnedPayloads (dp w') slot = Some payload"
    and p32: "32 \<le> length payload"
    and files: "\<And>f. \<lbrakk>f \<in> set (registered_files w); file_name f w \<noteq> None\<rbrakk> \<Longrightarrow>
      advertised S E L BE slot BaBasePlusDelta (Some payload) w f \<noteq> None \<and>
      user_data f w' = advertised S E L BE slot BaBasePlusDelta (Some payload) w f \<and>
      chosen_action E slot BaBasePlusDelta w f \<noteq> BaReject"
    and pins: "pinned_ids (dp_pinnedFiles (dp w') slot) =
      {f \<in> set (registered_files w). pinned_file E slot BaBasePlusDelta w f \<and> f < int MAX_TRACKED_LUA_FILES}"
    and natives: "\<And>f. dp_nativeHashes (dp w') slot f = (if f \<in> set (registered_files w) \<and> native_file E slot BaBasePlusDelta w f
      then advertised S E L BE slot BaBasePlusDelta (Some payload) w f else None)"
  have enabled: "IsEnabled w" using req(1) by (simp add: RequiredStubPayloadForClient_def split: if_splits)
  show ?thesis
  proof (intro exI [of _ payload] conjI allI impI req)
    fix f
    assume "f \<notin> set (registered_files w) \<or> file_name f w = None"
    then show "\<not> PinnedCanonicalFileSet_Contains f (dp_pinnedFiles (dp w') slot)" "dp_nativeHashes (dp w') slot f = None"
      using pins natives [of f] unfolding pinned_ids_def by (auto simp: pinned_file_def native_file_def)
  next
    fix f n
    assume f: "f \<in> set (registered_files w) \<and> file_name f w = Some n"
    let ?a = "bd_action (DecidePinnedFileBaselineForClient E slot n w)"
    have action: "chosen_action E slot BaBasePlusDelta w f = ?a" using f by (simp add: chosen_action_def file_action_def)
    obtain h origin where r: "ResolveClientLuaBaselineHash S E L BE f n ?a (Some payload) w = Some (h, origin)"
      and adv: "advertised S E L BE slot BaBasePlusDelta (Some payload) w f = Some h"
      using files [of f] f action by (auto simp: advertised_def)
    have u: "user_data f w' = Some h" and a: "?a = BaCanonicalStub \<or> ?a = BaNativeSource"
      using files [of f] f adv action pinned_action_cases [of E slot n w] by auto
    have pf: "PinnedCanonicalFileSet_Contains f (dp_pinnedFiles (dp w') slot) \<longleftrightarrow>
        ?a = BaCanonicalStub \<and> \<not> IsInitFile n \<and> f < int MAX_TRACKED_LUA_FILES"
      using pins f action unfolding pinned_ids_def by (auto simp: pinned_file_def)
    have nh: "dp_nativeHashes (dp w') slot f = (if ?a = BaNativeSource \<and> \<not> IsInitFile n then Some h else None)"
      using natives [of f] f action adv by (simp add: native_file_def)
    note init = Resolve_init [OF assms(6,7) _ _ enabled assms(5) r]
    note source = Resolve_native [OF assms(6), where E = E and L = L and BE = BE and f = f and n = n]
    note stub = Resolve_canonical [OF _ p32, where S = S and E = E and L = L and BE = BE and f = f and n = n and w = w]
    show "let a = ?a; pinned = PinnedCanonicalFileSet_Contains f (dp_pinnedFiles (dp w') slot);
           native = dp_nativeHashes (dp w') slot f
       in if a = BaCanonicalStub
          then \<not> IsInitFile n \<and> user_data f w' = Some (take 32 payload) \<and> pinned = (f < int MAX_TRACKED_LUA_FILES) \<and> native = None
          else a = BaNativeSource \<and> \<not> pinned \<and>
            (\<exists>src. current_source BE f n w = Some src \<and>
              (if IsInitFile n
               then user_data f w' = Some (HashClientLuaString S (lde_clientBootstrap L @ [CHR 0x0A] @ src)) \<and> native = None
               else user_data f w' = Some (HashClientLuaString S src) \<and> native = Some (HashClientLuaString S src)))"
      unfolding Let_def pf nh u using a init source stub r f pinned_action_init [of n E slot w]
      by (cases "IsInitFile n"; cases "?a = BaCanonicalStub") fastforce+
  qed
qed

section \<open>The table after a send\<close>

lemma Begin_engine: "w_engine (snd (BeginPendingRecoveryBaseline E slot w)) = w_engine w"
  by (auto simp: BeginPendingRecoveryBaseline_def ConsumeAtBaseline_def Let_def set_handoff_def set_client_def set_tracker_def
      split: list.split prod.split option.split)

lemma Decide_engine: "w_engine (snd (DecideBaselineForClient E slot w)) = w_engine w"
proof -
  obtain r w1 where b: "BeginPendingRecoveryBaseline E slot w = (r, w1)" by (metis surj_pair)
  have "w_engine w1 = w_engine w" using Begin_engine [of E slot w] by (simp add: b)
  then show ?thesis
    by (cases r) (auto simp: DecideBaselineForClient_def b Let_def)
qed

text \<open>Neither the engine's own send nor a disconnect changes the string table.\<close>

definition engine_keeps_table :: "'y LuaData Datapack Engine \<Rightarrow> 'y BaselineEngine \<Rightarrow> bool" where
  "engine_keeps_table E BE \<longleftrightarrow>
     (\<forall>c w. ld_table (ld (snd (be_sendServerInfo BE c w))) = ld_table (ld w)) \<and>
     (\<forall>slot reason w. ld_table (ld (eng_disconnect E slot reason w)) = ld_table (ld w))"

lemma disconnect_table: "engine_keeps_table E BE \<Longrightarrow> ld_table (ld (disconnect_client E client reason w)) = ld_table (ld w)"
  by (simp add: disconnect_client_def engine_keeps_table_def split: option.split)

lemma Ensure_table: "ld_table (ld (snd (EnsureRequiredLuaReliableCapacity E BE client slot action w))) = ld_table (ld w)"
  by (simp add: EnsureRequiredLuaReliableCapacity_def Let_def split: option.split)

lemma telemetry_ld [simp]: "ld (baseline_telemetry E slot b ms w) = ld w" "ld (engine_telemetry E slot ms w) = ld w"
  by (simp_all add: baseline_telemetry_def engine_telemetry_def upd_queue_def)

lemma clear_pinned_ld: "ld (with_dp (ClearClientPinnedRequiredDeliveryState E slot) w) = ld w"
  by (simp add: ClearClientPinnedRequiredDeliveryState_def ClearClientRequiredStubQueue_def upd_queue_def Let_def)

lemma scoped_restores:
  assumes "ScopedClientLuaBaseline S E L BE slot action w = (b, w')" and "support_of_engine E"
    and "ld_table (ld w'') = ld_table (ld w')"
  shows "ld_table (ld (snd (ScopedClientLuaBaseline_Restore (b, w'')))) = ld_table (ld w)"
proof (rule constructor_cases [OF assms(1,2)])
  assume "\<not> bl_valid b" "bl_overrides b = []" "ld_table (ld w') = ld_table (ld w)"
  then show ?thesis using assms(3) by (simp add: Restore_table restore_table_def)
next
  fix track w2 c3 payload
  assume t: "track_native E slot action (reset_pins E slot w) = (track, w2)" and o: "bl_overrides b = bl_overrides (fst c3)"
    and inv: "loop_inv S E L BE slot action track payload w2 (set (registered_files w)) c3" and w': "ld w' = ld (snd c3)"
  have w2: "ld w2 = ld w" using start_frame(4) [of E slot action "reset_pins E slot w"] by (simp add: t)
  obtain tt where "snd c3 = with_table tt w2" "restore_table (bl_overrides (fst c3)) tt = ld_table (ld w2)"
    using inv unfolding loop_inv_def by blast
  then show ?thesis using assms(3) w' by (simp add: Restore_table o w2)
qed

text \<open>C28.  The per-client identities never stay in the shared table.  Whatever
  \<^verbatim>\<open>SendLuaPackServerInfoNow\<close> decides, rejecting, disconnecting, failing half-way through the files or
  handing the table to the engine, afterwards every item carries the data it had before, so the next
  client's baseline starts from the published hashes.\<close>

theorem server_info_restores_table:
  assumes "engine_keeps_table E BE" and "support_of_engine E"
  shows "ld_table (ld (snd (SendLuaPackServerInfoNow S E L BE client w))) = ld_table (ld w)"
proof -
  define slot where "slot = (case client of Some c \<Rightarrow> se_playerSlot c | None \<Rightarrow> - 1)"
  define w0 where "w0 = with_dp (ClearClientPinnedRequiredDeliveryState E slot) w"
  obtain baseline w1 where d: "DecideBaselineForClient E slot w0 = (baseline, w1)" by (metis surj_pair)
  have w1: "ld_table (ld w1) = ld_table (ld w)"
  proof -
    have "ld w0 = ld w" unfolding w0_def by (rule clear_pinned_ld)
    then show ?thesis using Decide_engine [of E slot w0] by (simp add: d)
  qed
  obtain failure w2 where e: "EnsureRequiredLuaReliableCapacity E BE client slot (bd_action baseline) w1 = (failure, w2)"
    by (metis surj_pair)
  have w2: "ld_table (ld w2) = ld_table (ld w)"
    using Ensure_table [of E BE client slot "bd_action baseline" w1] w1 by (simp add: e)
  obtain b w3 where s: "ScopedClientLuaBaseline S E L BE slot (bd_action baseline) w2 = (b, w3)" by (metis surj_pair)
  define w4 where "w4 = baseline_telemetry E slot b ((eng_time E (dp w3) - eng_time E (dp w2)) * 1000) w3"
  obtain result w5 where r: "be_sendServerInfo BE client w4 = (result, w5)" by (metis surj_pair)
  have w5: "ld_table (ld w5) = ld_table (ld w3)"
    using assms(1) r unfolding engine_keeps_table_def w4_def by (metis snd_conv telemetry_ld(1))
  have unchanged: "ld_table (ld (snd (be_sendServerInfo BE client w2))) = ld_table (ld w)"
    using assms(1) w2 by (simp add: engine_keeps_table_def)
  note disconnect = disconnect_table [OF assms(1)]
  have "ld_table (ld w4) = ld_table (ld w3)" by (simp add: w4_def)
  then have failed: "ld_table (ld (snd (ScopedClientLuaBaseline_Restore (b, disconnect_client E client reason w4)))) = ld_table (ld w)" for reason
    using scoped_restores [OF s assms(2), of "disconnect_client E client reason w4"] disconnect w2 by simp
  have sent: "ld_table (ld (snd (ScopedClientLuaBaseline_Restore (b, engine_telemetry E slot ms w5)))) = ld_table (ld w)" for ms
    using scoped_restores [OF s assms(2), of "engine_telemetry E slot ms w5"] w5 w2 by simp
  show ?thesis
    unfolding SendLuaPackServerInfoNow_def Let_def slot_def [symmetric] w0_def [symmetric] d prod.case e s w4_def [symmetric] r
    by (simp only: snd_conv w1 w2 unchanged failed sent disconnect simp_thms split: if_split)
qed

section \<open>A concrete send\<close>

definition send_generation :: Generation where
  "send_generation = \<lparr>gen_id = ''g'', gen_md5 = ''g'', gen_salt = '''', gen_resourcePath = ''r'', gen_sourceRevision = 1,
     gen_publishedAt = 0, gen_engineDownloadable = True, gen_compressedStub = None,
     gen_compressedRequiredStub = Some (replicate 40 1), gen_files = [''a.lua'' \<mapsto> ''x''], gen_nativeDeltas = {},
     gen_pins = 1\<rparr>"

definition send_world :: "unit LdWorld" where
  "send_world =
     \<lparr>w_state = State_new\<lparr>st_clients := (\<lambda>_. ClientPin_new\<lparr>cp_generation := ''g'', cp_requiredLane := True\<rparr>),
        st_generations := [''g'' \<mapsto> send_generation], st_currentGeneration := ''g'',
        st_featureEnabledLastFrame := True, st_canonicalRegistrationAvailableLastFrame := True\<rparr>,
      w_cvars = demo_cvars,
      w_engine = Datapack_new 2 (cache_ld\<lparr>ld_table := Some [\<lparr>si_name = Some ''paths'', si_userData = None\<rparr>,
        \<lparr>si_name = Some ''a.lua'', si_userData = Some [9]\<rparr>]\<rparr>)\<rparr>"

definition send_engine :: "unit BaselineEngine" where
  "send_engine =
     \<lparr>be_items = (\<lambda>_. True), be_cachedSource = (\<lambda>_ _. Some ''x''), be_maxBits = (\<lambda>_ _. 8 * 70000),
      be_bitsWritten = (\<lambda>_ _. 0), be_setMaxBufferSize = (\<lambda>_ _ y. y), be_sendServerInfo = (\<lambda>_ w. (True, w)),
      be_requiredStubBudget = (\<lambda>_. 1), be_serverInfoBudget = (\<lambda>_. 1), be_parked = (\<lambda>_ _. False),
      be_shared = (\<lambda>_. True), be_cachedName = (\<lambda>_ n. n), be_registrationBudget = (\<lambda>_. 1)\<rparr>"

lemma send_support: "support_of_engine cache_eng"
  by (simp add: support_of_engine_def SupportsCanonicalRegistration_def cache_eng_def)

lemma send_keeps: "engine_keeps_table cache_eng send_engine"
  by (simp add: engine_keeps_table_def cache_eng_def send_engine_def)

lemma send_enabled [simp]: "IsEnabled send_world"
  by (simp add: send_world_def IsEnabled_def demo_cvars_def)

lemma send_slot [simp]: "IsValidSlot cache_eng 0"
  by (simp add: IsValidSlot_def cache_eng_def)

lemma send_ok: "ld_ok cache_bootil cache_hashes send_world"
proof -
  have "ld_reach cache_bootil cache_hashes cache_eng cache_lde (send_world, [])"
    by (rule ld_reach.start) (simp_all add: send_world_def cache_ld_def Datapack_new_def)
  from ld_inv_reach [OF this cache_laws] show ?thesis by (simp add: ld_inv_def)
qed

lemma send_table: "ld_table (ld send_world) = Some [\<lparr>si_name = Some ''paths'', si_userData = None\<rparr>,
    \<lparr>si_name = Some ''a.lua'', si_userData = Some [9]\<rparr>]"
  by (simp add: send_world_def Datapack_new_def)

lemma send_payload: "RequiredStubPayloadForClient cache_eng 0 send_world = Some (replicate 40 1)"
  using send_enabled by (simp add: RequiredStubPayloadForClient_def client_of_def, simp add: send_world_def send_generation_def)

lemma send_action: "bd_action (DecidePinnedFileBaselineForClient cache_eng 0 ''a.lua'' send_world) = BaCanonicalStub"
proof -
  have n: "NormalizePath ''a.lua'' = ''a.lua''" by code_simp
  have "client_of send_world 0 = ClientPin_new\<lparr>cp_generation := ''g'', cp_requiredLane := True\<rparr>"
    by (simp add: client_of_def send_world_def)
  moreover have "st_generations (w_state send_world) ''g'' = Some send_generation" by (simp add: send_world_def)
  ultimately show ?thesis
    by (simp add: DecidePinnedFileBaselineForClient_def ClientLane_def ClientPin_new_def send_generation_def SelectFile_def
        cache_not_init IsGenerationNativeDelta_def n accept_baseline_def)
qed

text \<open>The same server with an init file in the table.\<close>

definition init_world :: "unit LdWorld" where
  "init_world = with_table (Some [\<lparr>si_name = Some ''paths'', si_userData = None\<rparr>,
     \<lparr>si_name = Some ''a.lua'', si_userData = Some [9]\<rparr>,
     \<lparr>si_name = Some ''includes/init.lua'', si_userData = Some [9]\<rparr>]) send_world"

lemma init_table: "ld_table (ld init_world) = Some [\<lparr>si_name = Some ''paths'', si_userData = None\<rparr>,
     \<lparr>si_name = Some ''a.lua'', si_userData = Some [9]\<rparr>,
     \<lparr>si_name = Some ''includes/init.lua'', si_userData = Some [9]\<rparr>]"
  by (simp add: init_world_def)

lemma init_name: "IsInitFile ''includes/init.lua''"
  by code_simp

lemma init_entries: "GetPackEntry f init_world = (if 0 \<le> f \<and> f < int MAX_TRACKED_LUA_FILES then Some LuaPackEntry_new else None)"
  by (simp add: GetPackEntry_def init_world_def send_world_def cache_ld_def Datapack_new_def)

lemma init_ok: "ld_ok cache_bootil cache_hashes init_world" "canon_ok cache_lde init_world"
proof -
  have "ld_reach cache_bootil cache_hashes cache_eng cache_lde (init_world, [])"
    by (rule ld_reach.start) (simp_all add: init_world_def send_world_def cache_ld_def Datapack_new_def)
  from ld_inv_reach [OF this cache_laws] canon_reach [OF this cache_laws(1) cache_names]
  show "ld_ok cache_bootil cache_hashes init_world" "canon_ok cache_lde init_world" by (simp_all add: ld_inv_def)
qed

lemma init_support: "SupportsCanonicalRegistration cache_eng init_world"
  by (simp add: SupportsCanonicalRegistration_def cache_eng_def)

lemma init_payload: "RequiredStubPayloadForClient cache_eng 0 init_world = Some (replicate 40 1)"
  using send_payload unfolding RequiredStubPayloadForClient_def IsEnabled_def client_of_def init_world_def with_table_simps .

lemma init_actions:
  "bd_action (DecidePinnedFileBaselineForClient cache_eng 0 ''a.lua'' init_world) = BaCanonicalStub"
  "bd_action (DecidePinnedFileBaselineForClient cache_eng 0 ''includes/init.lua'' init_world) = BaNativeSource"
proof -
  show "bd_action (DecidePinnedFileBaselineForClient cache_eng 0 ''a.lua'' init_world) = BaCanonicalStub"
    using send_action unfolding DecidePinnedFileBaselineForClient_def IsEnabled_def client_of_def init_world_def with_table_simps .
  have "client_of init_world 0 = ClientPin_new\<lparr>cp_generation := ''g'', cp_requiredLane := True\<rparr>"
    "st_generations (w_state init_world) ''g'' = Some send_generation" "IsEnabled init_world"
    by (simp_all add: client_of_def init_world_def send_world_def IsEnabled_def demo_cvars_def)
  then show "bd_action (DecidePinnedFileBaselineForClient cache_eng 0 ''includes/init.lua'' init_world) = BaNativeSource"
    using init_name by (simp add: DecidePinnedFileBaselineForClient_def ClientLane_def ClientPin_new_def send_generation_def
        SelectFile_def accept_baseline_def)
qed

lemma init_files:
  "registered_files init_world = [1, 2]" "file_name 1 init_world = Some ''a.lua''"
  "file_name 2 init_world = Some ''includes/init.lua''"
  by (simp_all add: init_table registered_files_def file_name_def string_item_def upt_rec)

lemma init_valid: "bl_valid (fst (ScopedClientLuaBaseline cache_hashes cache_eng cache_lde send_engine 0 BaBasePlusDelta init_world))"
proof (rule baseline_valid [OF send_slot send_support _ _ init_payload])
  fix f n
  assume "f \<in> set (registered_files init_world)" "file_name f init_world = Some n"
  then have "f = 1 \<and> n = ''a.lua'' \<or> f = 2 \<and> n = ''includes/init.lua''" by (auto simp: init_files)
  then show "bd_action (DecidePinnedFileBaselineForClient cache_eng 0 n init_world) \<noteq> BaReject \<and>
      ResolveClientLuaBaselineHash cache_hashes cache_eng cache_lde send_engine f n
        (bd_action (DecidePinnedFileBaselineForClient cache_eng 0 n init_world)) (Some (replicate 40 1)) init_world \<noteq> None"
    using cache_not_init init_name
    by (auto simp: init_actions ResolveClientLuaBaselineHash_def Let_def init_entries send_engine_def LuaPackEntry_new_def)
qed (simp_all add: init_table send_engine_def)

theorem baseline_advertises_delivery_witness:
  "let w' = snd (ScopedClientLuaBaseline cache_hashes cache_eng cache_lde send_engine 0 BaBasePlusDelta init_world)
   in user_data 1 init_world = Some [9] \<and> user_data 1 w' = Some (replicate 32 1) \<and>
      PinnedCanonicalFileSet_Contains 1 (dp_pinnedFiles (dp w') 0) \<and>
      user_data 2 w' = Some (HashClientLuaString cache_hashes (''b'' @ [CHR 0x0A] @ ''x'')) \<and>
      \<not> PinnedCanonicalFileSet_Contains 2 (dp_pinnedFiles (dp w') 0) \<and> dp_nativeHashes (dp w') 0 2 = None"
proof -
  let ?w' = "snd (ScopedClientLuaBaseline cache_hashes cache_eng cache_lde send_engine 0 BaBasePlusDelta init_world)"
  obtain payload where p: "RequiredStubPayloadForClient cache_eng 0 init_world = Some payload"
    and all: "\<forall>f n. f \<in> set (registered_files init_world) \<and> file_name f init_world = Some n \<longrightarrow>
      (let a = bd_action (DecidePinnedFileBaselineForClient cache_eng 0 n init_world);
           pinned = PinnedCanonicalFileSet_Contains f (dp_pinnedFiles (dp ?w') 0);
           native = dp_nativeHashes (dp ?w') 0 f
       in if a = BaCanonicalStub
          then \<not> IsInitFile n \<and> user_data f ?w' = Some (take 32 payload) \<and> pinned = (f < int MAX_TRACKED_LUA_FILES) \<and> native = None
          else a = BaNativeSource \<and> \<not> pinned \<and>
            (\<exists>src. current_source send_engine f n init_world = Some src \<and>
              (if IsInitFile n
               then user_data f ?w' = Some (HashClientLuaString cache_hashes (lde_clientBootstrap cache_lde @ [CHR 0x0A] @ src)) \<and> native = None
               else user_data f ?w' = Some (HashClientLuaString cache_hashes src) \<and>
                 native = Some (HashClientLuaString cache_hashes src))))"
    using baseline_advertises_delivery [OF surjective_pairing init_valid send_slot send_support init_support init_ok]
    by (elim exE conjE) (rule that)
  have payload: "take 32 payload = replicate 32 1" using p by (auto simp: init_payload)
  have src: "current_source send_engine 2 ''includes/init.lua'' init_world = Some ''x''"
    by (simp add: current_source_def init_entries send_engine_def LuaPackEntry_new_def MAX_TRACKED_LUA_FILES_def)
  have "user_data 1 ?w' = Some (replicate 32 1) \<and> PinnedCanonicalFileSet_Contains 1 (dp_pinnedFiles (dp ?w') 0)"
    using all [rule_format, of 1 "''a.lua''"] payload by (simp add: init_files init_actions Let_def MAX_TRACKED_LUA_FILES_def)
  moreover have "user_data 2 ?w' = Some (HashClientLuaString cache_hashes (''b'' @ [CHR 0x0A] @ ''x'')) \<and>
      \<not> PinnedCanonicalFileSet_Contains 2 (dp_pinnedFiles (dp ?w') 0) \<and> dp_nativeHashes (dp ?w') 0 2 = None"
    using all [rule_format, of 2 "''includes/init.lua''"] src init_name
    by (simp add: init_files init_actions Let_def) (simp add: cache_lde_def)
  moreover have "user_data 1 init_world = Some [9]" by (simp add: user_data_table init_table table_item_def)
  ultimately show ?thesis by (simp add: Let_def)
qed

theorem server_info_restores_table_witness:
  "ld_table (ld (snd (SendLuaPackServerInfoNow cache_hashes cache_eng cache_lde send_engine
      (Some \<lparr>se_client = 4, se_channel = Some 5, se_playerSlot = 0, se_userID = 1, se_clientChallenge = 7, se_signonState = 2,
        se_sendServerInfo = True, se_active = False, se_connected = True\<rparr>) send_world))) =
     Some [\<lparr>si_name = Some ''paths'', si_userData = None\<rparr>, \<lparr>si_name = Some ''a.lua'', si_userData = Some [9]\<rparr>]"
  using server_info_restores_table [OF send_keeps send_support] send_table by metis

end
