(* ===== verification/ServerInfoQueue.thy ===== *)
theory ServerInfoQueue
  imports BaselineTable
begin

text \<open>
  The reserved stream takes a frame's placeholders, and the queue of server-info sends: whom it
  serves, in which order, and how often.
\<close>

section \<open>The reserved stream\<close>

lemma bits_to_bytes:
  assumes "0 \<le> b" and "b < 2 ^ 31"
  shows "unat ((of_int b + 7) div 8 :: size_t) = (nat b + 7) div 8"
proof -
  have "(of_int b + 7 :: size_t) = of_nat (nat b + 7)" using assms(1) by simp
  moreover have "unat (of_nat (nat b + 7) :: size_t) = nat b + 7" using assms by (intro unat_of_nat_small) simp
  ultimately show ?thesis by (simp add: unat_div)
qed

text \<open>A successful reservation for a client with a pinned base leaves at least the planned capacity.\<close>

lemma Ensure_capacity:
  assumes "EnsureRequiredLuaReliableCapacity E BE (Some c) slot BaBasePlusDelta w = (None, w')"
    and "se_channel c = Some channel" and "ld_table (ld w) = Some items"
  defines "cap \<equiv> RequiredStubReliableCapacityBytes
      (min (of_nat (length items - 1)) (of_int (max 1 (be_requiredStubBudget BE (ld_engine (ld w))))))
      (of_nat (RequiredStubCompressedBytesForClient E slot w)) RequiredStubReliableReserveBytes"
  shows "cap \<noteq> SIZE_MAX \<and> 0 < be_maxBits BE (ld_engine (ld w')) channel \<and>
    cap \<le> (of_int (be_maxBits BE (ld_engine (ld w')) channel) + 7) div 8"
proof -
  note eq = assms(1) [unfolded EnsureRequiredLuaReliableCapacity_def assms(2,3) prod.case option.case Let_def,
      folded cap_def]
  show ?thesis
    using eq by (simp only: prod.inject option.distinct split: if_split_asm) (simp_all add: not_less not_le)
qed

lemma capacity_value:
  assumes "RequiredStubReliableCapacityBytes n c r \<noteq> SIZE_MAX"
  shows "unat (RequiredStubReliableCapacityBytes n c r) = (stub_bits (unat c) * unat n + 7) div 8 + unat r"
  using assms unfolding eq_SIZE_MAX unat_CapacityBytes by (auto split: if_splits)

lemma reserve_value: "unat RequiredStubReliableReserveBytes = 64 * 1024"
  by (simp add: RequiredStubReliableReserveBytes_def)

text \<open>C30.  The reservation is enough for every frame.  When
  \<^verbatim>\<open>EnsureRequiredLuaReliableCapacity\<close> lets a required client go on, an empty reliable stream
  of the capacity the engine then reports takes the placeholders of any set of files a frame may
  drain, as many as the budget and the table allow, without one rejection, and 64 KiB stay free for
  the engine's own sign-on traffic.\<close>

theorem reserved_stream_takes_burst:
  assumes "EnsureRequiredLuaReliableCapacity E BE (Some c) slot BaBasePlusDelta w = (None, w')"
    and "se_channel c = Some channel" and "ld_table (ld w) = Some items"
    and "RequiredStubPayloadForClient E slot w = Some payload"
    and "bit_writer W bits room" and "\<not> IsOverflowed W s" and "8 dvd room s" and "room s < 2 ^ 31"
    and "be_maxBits BE (ld_engine (ld w')) channel = int (room s)"
    and "length fids < length items" and "int (length fids) \<le> max 1 (be_requiredStubBudget BE (ld_engine (ld w)))"
    and "length items < 2 ^ 31" and "be_requiredStubBudget BE (ld_engine (ld w)) < 2 ^ 31"
    and "length payload < 2 ^ 17 - 3" and "list_all (stub_fields st mt) fids"
  shows "\<exists>s'. append_stubs W s st mt fids payload (of_nat (length payload)) = (True, s') \<and>
    appended W bits room s (concat (map (\<lambda>f. stub_record st mt f payload) fids)) s' \<and>
    8 * (64 * 1024) \<le> room s'"
proof -
  let ?budget = "max 1 (be_requiredStubBudget BE (ld_engine (ld w)))"
  let ?n = "min (of_nat (length items - 1)) (of_int ?budget) :: size_t"
  let ?cb = "of_nat (length payload) :: size_t"
  let ?cap = "RequiredStubReliableCapacityBytes ?n ?cb RequiredStubReliableReserveBytes"
  have comp: "RequiredStubCompressedBytesForClient E slot w = length payload"
    using assms(4) by (simp add: RequiredStubCompressedBytesForClient_def)
  have cap: "?cap \<noteq> SIZE_MAX" "?cap \<le> (of_int (int (room s)) + 7) div 8"
    using Ensure_capacity [OF assms(1-3)] unfolding comp assms(9) by blast+
  have ucb: "unat ?cb = length payload" using assms(14) by (intro unat_of_nat_small) simp
  have "unat (of_nat (length items - 1) :: size_t) = length items - 1" using assms(12) by (intro unat_of_nat_small) simp
  moreover have "unat (of_int ?budget :: size_t) = nat ?budget"
  proof -
    have "(of_int ?budget :: size_t) = of_nat (nat ?budget)" by simp
    moreover have "unat (of_nat (nat ?budget) :: size_t) = nat ?budget" using assms(13) by (intro unat_of_nat_small) simp
    ultimately show ?thesis by simp
  qed
  ultimately have un: "length fids \<le> unat ?n"
    using assms(10,11) by (auto simp: min_def le_nat_iff)
  have "unat ?cap \<le> unat ((of_int (int (room s)) + 7) div 8 :: size_t)" using cap(2) by (simp add: word_le_nat_alt)
  also have "\<dots> = (room s + 7) div 8" using bits_to_bytes [of "int (room s)"] assms(8) by simp
  also have "8 * \<dots> = room s" using assms(7) by (auto simp: dvd_def)
  finally have le: "8 * unat ?cap \<le> room s" by simp
  have "unat ?cap = (stub_bits (length payload) * unat ?n + 7) div 8 + 64 * 1024"
    using capacity_value [OF cap(1)] by (simp only: ucb reserve_value)
  then have room: "stub_bits (length payload) * unat ?n + 8 * (64 * 1024) \<le> room s" using le by linarith
  have b: "length fids * stub_bits (length payload) \<le> stub_bits (length payload) * unat ?n" using un by (simp add: mult.commute)
  then have fit: "length fids * stub_bits (length payload) \<le> room s" using room by linarith
  have "24 + 8 * unat ?cb \<le> 1048575" using assms(14) by (simp add: ucb)
  then obtain s' where s': "append_stubs W s st mt fids payload ?cb = (True, s')"
    "appended W bits room s (concat (map (\<lambda>f. stub_record st mt f payload) fids)) s'"
    using bit_writer.append_stubs_fit [OF assms(5,6,8) ucb [symmetric] _ assms(15) fit] by blast
  have "length (concat (map (\<lambda>f. stub_record st mt f payload) fids)) = length fids * stub_bits (length payload)"
    by (induction fids) simp_all
  then have "room s' + length fids * stub_bits (length payload) = room s" using s'(2) by (simp add: appended_def)
  then have "8 * (64 * 1024) \<le> room s'" using room b by linarith
  with s' show ?thesis by blast
qed

definition send_session :: Session where
  "send_session = \<lparr>se_client = 4, se_channel = Some 5, se_playerSlot = 0, se_userID = 1, se_clientChallenge = 7,
     se_signonState = 2, se_sendServerInfo = True, se_active = False, se_connected = True\<rparr>"

lemma send_reserved:
  "EnsureRequiredLuaReliableCapacity cache_eng send_engine (Some send_session) 0 BaBasePlusDelta send_world = (None, send_world)"
proof -
  have c: "unat (RequiredStubReliableCapacityBytes 1 40 RequiredStubReliableReserveBytes) = (stub_bits 40 + 7) div 8 + 65536"
    by (simp add: unat_CapacityBytes RequiredStubReliableReserveBytes_def stub_bits_def)
  then have cap: "RequiredStubReliableCapacityBytes 1 40 RequiredStubReliableReserveBytes \<noteq> SIZE_MAX"
    "unat (RequiredStubReliableCapacityBytes 1 40 RequiredStubReliableReserveBytes) \<le> INT_MAX"
    "RequiredStubReliableCapacityBytes 1 40 RequiredStubReliableReserveBytes \<le> 70000"
    by (simp_all add: eq_SIZE_MAX stub_bits_def INT_MAX_def word_le_nat_alt)
  have "RequiredStubCompressedBytesForClient cache_eng 0 send_world = 40"
    by (simp add: RequiredStubCompressedBytesForClient_def send_payload)
  then show ?thesis
    using cap by (simp add: EnsureRequiredLuaReliableCapacity_def send_session_def send_engine_def send_table)
qed

theorem reserved_stream_takes_burst_witness:
  "\<exists>s'. append_stubs TestBitWriter_ops (TestBitWriter_new 560000) 31 4 [1] (replicate 40 1) 40 = (True, s') \<and>
    8 * (64 * 1024) \<le> tbw_room s'"
  using reserved_stream_takes_burst [OF send_reserved _ send_table send_payload tbw.bit_writer_axioms,
      of 5 "TestBitWriter_new 560000" "[1]" 31 4]
  by (auto simp: send_session_def send_engine_def tbw_room_def TestBitWriter_new_def stub_fields_def simp del: append_stubs.simps)

section \<open>Who is queued\<close>

abbreviation info_active :: "'y LdWorld \<Rightarrow> int list" where
  "info_active w \<equiv> rrs_active (dp_serverInfoScheduler (dp w))"

definition same_identity :: "PendingLuaPackServerInfo \<Rightarrow> Session \<Rightarrow> bool" where
  "same_identity pending c \<longleftrightarrow>
     ps_client pending = Some (se_client c) \<and> ps_channel pending = se_channel c \<and>
     ps_userID pending = se_userID c \<and> ps_clientChallenge pending = se_clientChallenge c"

text \<open>C31.  The queue holds at most one send per slot, for the connection that asked last.  After an
  accepted request the slot is queued once and its record matches the client that asked; asking again
  on the same connection keeps the place in the queue, while another connection in the same slot goes
  to the end and does not inherit the place of its predecessor.  No other slot is affected.\<close>

theorem server_info_queue_identity:
  assumes "QueueLuaPackServerInfo E (Some c) w = (True, w')" and "rrs_inv (dp_serverInfoScheduler (dp w))"
  defines "slot \<equiv> se_playerSlot c"
  shows "rrs_inv (dp_serverInfoScheduler (dp w')) \<and> slot \<in> set (info_active w') \<and>
    info_active w' =
      (if slot \<in> set (info_active w) \<and> same_identity (dp_serverInfos (dp w) slot) c then info_active w
       else removeAll slot (info_active w) @ [slot]) \<and>
    server_info_matches E slot (dp_serverInfos (dp w') slot) c \<and>
    (\<forall>other. other \<noteq> slot \<longrightarrow> dp_serverInfos (dp w') other = dp_serverInfos (dp w) other) \<and>
    ld w' = ld w"
proof -
  let ?s = "dp_serverInfoScheduler (dp w)"
  let ?p = "dp_serverInfos (dp w) slot"
  have guard: "ShouldScheduleLuaPackServerInfo (IsEnabled w) (SupportsCanonicalRegistration E w)
      (RegistrationRefreshPending E w) (se_sendServerInfo c) (se_signonState c = eng_signonConnected E)
      (IsValidSlot E slot) (se_channel c \<noteq> None)"
    using assms(1) by (auto simp: QueueLuaPackServerInfo_def Let_def slot_def split: if_splits)
  then have sess: "se_sendServerInfo c" "se_signonState c = eng_signonConnected E" "se_channel c \<noteq> None"
    by (simp_all add: ShouldScheduleLuaPackServerInfo_def)
  have is_sched: "RoundRobinSlotScheduler_IsScheduled slot ?s \<longleftrightarrow> slot \<in> set (info_active w)"
    by (rule IsScheduled_iff [OF assms(2)])
  show ?thesis
  proof (cases "slot \<in> set (info_active w) \<and> same_identity ?p c")
    case True
    then have "w' = with_dp (with_server_info slot (\<lambda>p. p\<lparr>ps_coalescedPolls := ps_coalescedPolls p + 1\<rparr>)) w"
      using assms(1) guard is_sched
      by (simp add: QueueLuaPackServerInfo_def Let_def slot_def [symmetric] same_identity_def)
    then show ?thesis using True assms(2) sess
      by (simp add: with_server_info_def server_info_matches_def QueuedServerInfoIdentityMatches_def same_identity_def slot_def)
  next
    case False
    let ?u = "if RoundRobinSlotScheduler_IsScheduled slot ?s then RoundRobinSlotScheduler_Unschedule slot ?s else ?s"
    let ?new = "\<lparr>ps_client = Some (se_client c), ps_channel = se_channel c, ps_userID = se_userID c,
        ps_clientChallenge = se_clientChallenge c, ps_queuedAt = eng_time E (dp w), ps_coalescedPolls = 0\<rparr>"
    obtain ok s' where s': "RoundRobinSlotScheduler_Schedule slot ?u = (ok, s')" by (metis surj_pair)
    have "(True, w') = (ok, with_dp (\<lambda>d. with_server_info slot (\<lambda>_. if ok then ?new else PendingLuaPackServerInfo_new)
        (d\<lparr>dp_serverInfoScheduler := s'\<rparr>)) w)"
      using assms(1) guard is_sched False s'
      by (simp add: QueueLuaPackServerInfo_def Let_def slot_def [symmetric] same_identity_def split: if_splits)
    then have ok: "ok" and w': "w' = with_dp (\<lambda>d. with_server_info slot (\<lambda>_. ?new) (d\<lparr>dp_serverInfoScheduler := s'\<rparr>)) w"
      by simp_all
    have u: "rrs_inv ?u" using assms(2) by (simp add: rrs_inv_Unschedule)
    have act: "rrs_active ?u = removeAll slot (info_active w)"
    proof (cases "slot \<in> set (info_active w)")
      case True
      then have "0 \<le> slot" "slot < int (length (rrs_scheduled ?s))"
        by (rule rrs_active_nonneg [OF assms(2)], rule rrs_active_range [OF assms(2)])
      then show ?thesis using True is_sched by (auto simp: RoundRobinSlotScheduler_Unschedule_def)
    next
      case False
      then show ?thesis using is_sched by simp
    qed
    have "rrs_inv s'" using rrs_inv_Schedule [OF u, of slot] by (simp add: s')
    moreover have "rrs_active s' = removeAll slot (info_active w) @ [slot]"
      using s' ok act by (auto simp: RoundRobinSlotScheduler_Schedule_def split: if_splits)
    ultimately show ?thesis
      using False sess by (auto simp: w' with_server_info_def server_info_matches_def QueuedServerInfoIdentityMatches_def slot_def)
  qed
qed

theorem server_info_queue_identity_witness:
  "let w' = snd (QueueLuaPackServerInfo cache_eng (Some send_session) send_world)
   in info_active w' = [0] \<and> server_info_matches cache_eng 0 (dp_serverInfos (dp w') 0) send_session"
proof -
  have start: "info_active send_world = []" "rrs_inv (dp_serverInfoScheduler (dp send_world))"
    "length (rrs_scheduled (dp_serverInfoScheduler (dp send_world))) = 2"
    by (simp_all add: send_world_def Datapack_new_def) (simp_all add: RoundRobinSlotScheduler_new_def)
  have guard: "ShouldScheduleLuaPackServerInfo (IsEnabled send_world) (SupportsCanonicalRegistration cache_eng send_world)
      (RegistrationRefreshPending cache_eng send_world) True True True True"
    by (simp add: ShouldScheduleLuaPackServerInfo_def SupportsCanonicalRegistration_def cache_eng_def)
  have "fst (QueueLuaPackServerInfo cache_eng (Some send_session) send_world)"
    using start guard IsScheduled_iff [OF start(2), of 0]
    by (cases "rrs_scheduled (dp_serverInfoScheduler (dp send_world))")
      (simp_all add: QueueLuaPackServerInfo_def send_session_def RoundRobinSlotScheduler_Schedule_def cache_eng_def
        IsValidSlot_def Let_def RoundRobinSlotScheduler_IsScheduled_def split: prod.split)
  then have "QueueLuaPackServerInfo cache_eng (Some send_session) send_world =
      (True, snd (QueueLuaPackServerInfo cache_eng (Some send_session) send_world))" by (simp add: prod_eq_iff)
  from server_info_queue_identity [OF this start(2)] show ?thesis
    by (simp add: send_session_def start Let_def)
qed

section \<open>The drain of a frame\<close>

text \<open>The queue of sends, which a send itself leaves alone.\<close>

definition info_queue :: "'x Datapack \<Rightarrow> RoundRobinSlotScheduler \<times> (int \<Rightarrow> PendingLuaPackServerInfo)" where
  "info_queue d = (dp_serverInfoScheduler d, dp_serverInfos d)"

lemma info_queue_with [simp]: "info_queue (dp (with_ld f w)) = info_queue (dp w)"
  "info_queue (d\<lparr>dp_rest := x\<rparr>) = info_queue d"
  by (simp_all add: info_queue_def)

lemma info_queue_item [simp]: "info_queue (dp (set_item_data f d w)) = info_queue (dp w)"
  by (simp add: set_item_data_def info_queue_def)

lemma info_queue_hash [simp]: "info_queue (dp (snd (baseline_hash f h origin c))) = info_queue (dp (snd c))"
  by (simp add: baseline_hash_def Let_def split: option.split)

lemma info_queue_restore [simp]: "info_queue (dp (snd (ScopedClientLuaBaseline_Restore c))) = info_queue (dp (snd c))"
proof -
  have "info_queue (dp (fold (\<lambda>ov. set_item_data (ov_item ov) (ov_originalData ov)) ovs w)) = info_queue (dp w)"
    for ovs and w :: "'a LdWorld"
    by (induction ovs arbitrary: w) simp_all
  then show ?thesis by (simp add: ScopedClientLuaBaseline_Restore_def)
qed

lemma info_queue_file: "info_queue (dp (snd (snd (baseline_file S E L BE slot action track f n c)))) = info_queue (dp (snd c))"
  by (simp add: baseline_file_def baseline_failure_def Let_def split: option.split prod.split)

lemma info_queue_files: "info_queue (dp (snd (snd (baseline_files S E L BE slot action track fs c)))) = info_queue (dp (snd c))"
proof (induction fs arbitrary: c)
  case (Cons f fs)
  show ?case
  proof (cases "case string_item f (snd c) of None \<Rightarrow> None | Some item \<Rightarrow> si_name item")
    case None
    then show ?thesis using Cons.IH by simp
  next
    case (Some n)
    obtain ok c' where b: "baseline_file S E L BE slot action track f n c = (ok, c')" by (metis surj_pair)
    then show ?thesis using Cons.IH [of c'] info_queue_file [of S E L BE slot action track f n c] by (simp add: Some)
  qed
qed simp

lemma info_queue_start [simp]: "info_queue (dp (reset_pins E slot w)) = info_queue (dp w)"
  "info_queue (dp (snd (track_native E slot action w))) = info_queue (dp w)"
  by (simp_all add: reset_pins_def track_native_def info_queue_def Let_def)

lemma info_queue_scoped: "info_queue (dp (snd (ScopedClientLuaBaseline S E L BE slot action w))) = info_queue (dp w)"
proof -
  define w2 where "w2 = snd (track_native E slot action (reset_pins E slot w))"
  have w2: "info_queue (dp w2) = info_queue (dp w)" by (simp add: w2_def)
  define t where "t = fst (track_native E slot action (reset_pins E slot w))"
  define req where "req = (if IsValidSlot E slot \<and> action = BaBasePlusDelta then RequiredStubPayloadForClient E slot w2 else None)"
  obtain ok b w3 where bf: "baseline_files S E L BE slot action t (registered_files w2)
      (ClientLuaBaseline_new\<lparr>bl_requiredPayload := req\<rparr>, w2) = (ok, b, w3)" by (metis surj_pair)
  have w3: "info_queue (dp w3) = info_queue (dp w)"
    using info_queue_files [of S E L BE slot action t "registered_files w2" "(ClientLuaBaseline_new\<lparr>bl_requiredPayload := req\<rparr>, w2)"] w2
    by (simp add: bf)
  have upd: "info_queue (d\<lparr>dp_pinnedFiles := p, dp_pinnedPayloads := q\<rparr>) = info_queue d"
    "info_queue (d\<lparr>dp_nativeHashes := h\<rparr>) = info_queue d" for d :: "'a LuaData Datapack" and p q h
    by (simp_all add: info_queue_def)
  show ?thesis
    unfolding ScopedClientLuaBaseline_def Let_def w2_def [symmetric] t_def [symmetric] req_def [symmetric] bf prod.case
      baseline_failure_def
    by (simp only: snd_conv w2 w3 dp_with upd info_queue_start simp_thms split: if_split)
qed

text \<open>The queue as a list of slots with their records, in the order they are served.\<close>

definition queued_infos :: "'x Datapack \<Rightarrow> (int \<times> PendingLuaPackServerInfo) list" where
  "queued_infos d = map (\<lambda>s. (s, dp_serverInfos d s)) (rrs_active (dp_serverInfoScheduler d))"

lemma queued_of_queue: "info_queue d' = info_queue d \<Longrightarrow> queued_infos d' = queued_infos d"
  by (simp add: info_queue_def queued_infos_def)

lemma queued_slots: "map fst (queued_infos d) = rrs_active (dp_serverInfoScheduler d)"
  by (simp add: queued_infos_def comp_def)

text \<open>
  The engine's own send does not come back to the queue; a disconnect may take the slot it
  disconnects out of it.
\<close>

definition engine_keeps_queue :: "'y LuaData Datapack Engine \<Rightarrow> 'y BaselineEngine \<Rightarrow> bool" where
  "engine_keeps_queue E BE \<longleftrightarrow>
     (\<forall>c w. queued_infos (dp (snd (be_sendServerInfo BE c w))) = queued_infos (dp w)) \<and>
     (\<forall>slot reason w. queued_infos (dp (eng_disconnect E slot reason w)) \<in>
       {queued_infos (dp w), List.filter (\<lambda>q. fst q \<noteq> slot) (queued_infos (dp w))})"

lemma disconnect_queued:
  assumes "engine_keeps_queue E BE" and "se_playerSlot c \<notin> fst ` set (queued_infos (dp w))"
  shows "queued_infos (dp (disconnect_client E (Some c) reason w)) = queued_infos (dp w)"
proof -
  have "List.filter (\<lambda>q. fst q \<noteq> se_playerSlot c) (queued_infos (dp w)) = queued_infos (dp w)"
    using assms(2) by (force simp: filter_id_conv)
  then show ?thesis using assms(1) unfolding engine_keeps_queue_def disconnect_client_def option.case by (metis insertE singletonD)
qed

lemma info_queue_Ensure: "info_queue (dp (snd (EnsureRequiredLuaReliableCapacity E BE client slot action w))) = info_queue (dp w)"
  by (simp add: EnsureRequiredLuaReliableCapacity_def Let_def split: option.split)

lemma info_queue_upd [simp]: "info_queue (upd_queue slot f d) = info_queue d"
  by (simp add: upd_queue_def info_queue_def)

lemma info_queue_clear: "info_queue (ClearClientPinnedRequiredDeliveryState E slot d) = info_queue d"
  by (simp add: ClearClientPinnedRequiredDeliveryState_def ClearClientRequiredStubQueue_def upd_queue_def info_queue_def Let_def)

lemma info_queue_telemetry [simp]:
  "info_queue (dp (baseline_telemetry E slot b ms w)) = info_queue (dp w)"
  "info_queue (dp (engine_telemetry E slot ms w)) = info_queue (dp w)"
  by (simp_all add: baseline_telemetry_def engine_telemetry_def)

lemma queued_send:
  assumes "engine_keeps_queue E BE" and "se_playerSlot c \<notin> fst ` set (queued_infos (dp w))"
  shows "queued_infos (dp (snd (SendLuaPackServerInfoNow S E L BE (Some c) w))) = queued_infos (dp w)"
proof -
  define slot where "slot = se_playerSlot c"
  define w0 where "w0 = with_dp (ClearClientPinnedRequiredDeliveryState E slot) w"
  obtain baseline w1 where d: "DecideBaselineForClient E slot w0 = (baseline, w1)" by (metis surj_pair)
  obtain failure w2 where e: "EnsureRequiredLuaReliableCapacity E BE (Some c) slot (bd_action baseline) w1 = (failure, w2)"
    by (metis surj_pair)
  obtain b w3 where s: "ScopedClientLuaBaseline S E L BE slot (bd_action baseline) w2 = (b, w3)" by (metis surj_pair)
  define w4 where "w4 = baseline_telemetry E slot b ((eng_time E (dp w3) - eng_time E (dp w2)) * 1000) w3"
  obtain result w5 where r: "be_sendServerInfo BE (Some c) w4 = (result, w5)" by (metis surj_pair)
  have "info_queue (dp w0) = info_queue (dp w)" by (simp add: w0_def info_queue_clear)
  moreover have "dp w1 = dp w0" using Decide_engine [of E slot w0] by (simp add: d)
  ultimately have "info_queue (dp w1) = info_queue (dp w)" by simp
  then have w1: "queued_infos (dp w1) = queued_infos (dp w)" by (rule queued_of_queue)
  have w2: "queued_infos (dp w2) = queued_infos (dp w)"
    using queued_of_queue [OF info_queue_Ensure [of E BE "Some c" slot "bd_action baseline" w1]] w1 by (simp add: e)
  have "queued_infos (dp w3) = queued_infos (dp w)"
    using queued_of_queue [OF info_queue_scoped [of S E L BE slot "bd_action baseline" w2]] w2 by (simp add: s)
  then have w4: "queued_infos (dp w4) = queued_infos (dp w)"
    unfolding w4_def queued_of_queue [OF info_queue_telemetry(1)] .
  have w5: "queued_infos (dp w5) = queued_infos (dp w)"
    using assms(1) [unfolded engine_keeps_queue_def, THEN conjunct1, rule_format, of "Some c" w4] w4 by (simp add: r)
  have unchanged: "queued_infos (dp (snd (be_sendServerInfo BE (Some c) w2))) = queued_infos (dp w)"
    using assms(1) w2 by (simp add: engine_keeps_queue_def)
  have disconnect: "queued_infos (dp (disconnect_client E (Some c) reason w')) = queued_infos (dp w)"
    if "queued_infos (dp w') = queued_infos (dp w)" for reason w'
    using disconnect_queued [OF assms(1), of c w' reason] assms(2) that by simp
  note restore = queued_of_queue [OF info_queue_restore]
  note telemetry = queued_of_queue [OF info_queue_telemetry(2)]
  show ?thesis
    unfolding SendLuaPackServerInfoNow_def Let_def option.case slot_def [symmetric] w0_def [symmetric] d prod.case e s
      w4_def [symmetric] r
    by (simp only: snd_conv restore telemetry w1 w2 w4 w5 unchanged disconnect simp_thms split: if_split)
qed

text \<open>
  A frame against the list: every step takes the first entry; it is sent when the slot's client is
  still the one recorded, and dropped otherwise.
\<close>

definition take_info :: "int \<Rightarrow> 'y LdWorld \<Rightarrow> 'y LdWorld" where
  "take_info slot w = with_dp (with_server_info slot (\<lambda>_. PendingLuaPackServerInfo_new))
     (with_dp (\<lambda>d. d\<lparr>dp_serverInfoScheduler := snd (RoundRobinSlotScheduler_TakeNext (dp_serverInfoScheduler d))\<rparr>) w)"

definition info_client ::
  "'y LuaData Datapack Engine \<Rightarrow> ('y, 'w) LdEngine \<Rightarrow> int \<Rightarrow> PendingLuaPackServerInfo \<Rightarrow> 'y LdWorld \<Rightarrow> Session option" where
  "info_client E L slot p w =
     (case lde_client L (ld_engine (ld w)) slot of
        None \<Rightarrow> None | Some c \<Rightarrow> if server_info_matches E slot p c then Some c else None)"

inductive info_run ::
  "Hashes \<Rightarrow> 'y LuaData Datapack Engine \<Rightarrow> ('y, 'w) LdEngine \<Rightarrow> 'y BaselineEngine
     \<Rightarrow> 'y LdWorld \<Rightarrow> (int \<times> bool) list \<Rightarrow> 'y LdWorld \<Rightarrow> bool"
  for S E L BE where
  stop: "info_run S E L BE w [] w"
| send: "\<lbrakk>queued_infos (dp w) = (slot, p) # q; info_client E L slot p w = Some c;
    info_run S E L BE (snd (SendLuaPackServerInfoNow S E L BE (Some c) (take_info slot w))) es w'\<rbrakk>
    \<Longrightarrow> info_run S E L BE w ((slot, True) # es) w'"
| stale: "\<lbrakk>queued_infos (dp w) = (slot, p) # q; info_client E L slot p w = None;
    info_run S E L BE (take_info slot w) es w'\<rbrakk>
    \<Longrightarrow> info_run S E L BE w ((slot, False) # es) w'"

abbreviation sends :: "(int \<times> bool) list \<Rightarrow> nat" where
  "sends es \<equiv> length (List.filter snd es)"

lemma take_info_queued:
  assumes "queued_infos (dp w) = (slot, p) # q" and "distinct (map fst (queued_infos (dp w)))"
  shows "queued_infos (dp (take_info slot w)) = q" and "ld_engine (ld (take_info slot w)) = ld_engine (ld w)"
proof -
  obtain rest where a: "rrs_active (dp_serverInfoScheduler (dp w)) = slot # rest" and q: "q = map (\<lambda>s. (s, dp_serverInfos (dp w) s)) rest"
    using assms(1) by (auto simp: queued_infos_def)
  have "slot \<notin> set rest" using assms(2) a by (simp add: queued_slots)
  then show "queued_infos (dp (take_info slot w)) = q"
    by (auto simp: q queued_infos_def take_info_def with_server_info_def RoundRobinSlotScheduler_TakeNext_def a)
  show "ld_engine (ld (take_info slot w)) = ld_engine (ld w)"
    by (simp add: take_info_def with_server_info_def)
qed

lemma drain_unfold:
  assumes "queued_infos (dp w) = (slot, p) # q" and "IsValidSlot E slot"
  shows "drain_server_infos S E L BE budget (Suc n) serviced w =
    (if budget \<le> serviced then w
     else case info_client E L slot p w of
            None \<Rightarrow> drain_server_infos S E L BE budget n serviced (take_info slot w)
          | Some c \<Rightarrow> drain_server_infos S E L BE budget n (serviced + 1)
              (snd (SendLuaPackServerInfoNow S E L BE (Some c) (take_info slot w))))"
proof -
  obtain rest where a: "rrs_active (dp_serverInfoScheduler (dp w)) = slot # rest" and p: "p = dp_serverInfos (dp w) slot"
    using assms(1) by (auto simp: queued_infos_def)
  have ld: "ld_engine (ld (take_info slot w)) = ld_engine (ld w)" by (simp add: take_info_def with_server_info_def)
  obtain s' where t: "RoundRobinSlotScheduler_TakeNext (dp_serverInfoScheduler (dp w)) = (slot, s')"
    by (simp add: RoundRobinSlotScheduler_TakeNext_def a)
  have take: "with_dp (with_server_info slot (\<lambda>_. PendingLuaPackServerInfo_new))
      (with_dp (\<lambda>d. d\<lparr>dp_serverInfoScheduler := s'\<rparr>) w) = take_info slot w"
    by (simp add: take_info_def with_dp_def t)
  have ne: "\<not> RoundRobinSlotScheduler_Empty (dp_serverInfoScheduler (dp w))" by (simp add: RoundRobinSlotScheduler_Empty_def a)
  have rec: "dp_serverInfos (dp (with_dp (\<lambda>d. d\<lparr>dp_serverInfoScheduler := s\<rparr>) w)) slot = p" for s by (simp add: p)
  show ?thesis
    unfolding drain_server_infos.simps Let_def t prod.case take rec ld info_client_def
    using ne assms(2) by (simp split: option.split)
qed

lemma info_client_slot: "info_client E L slot p w = Some c \<Longrightarrow> se_playerSlot c = slot"
  by (auto simp: info_client_def server_info_matches_def QueuedServerInfoIdentityMatches_def split: option.splits if_splits)

lemma drain_run:
  assumes "engine_keeps_queue E BE" and "distinct (map fst (queued_infos (dp w)))"
    and "\<forall>q \<in> set (queued_infos (dp w)). IsValidSlot E (fst q)"
    and "n = length (queued_infos (dp w))" and "serviced \<le> budget"
  shows "\<exists>es. info_run S E L BE w es (drain_server_infos S E L BE budget n serviced w) \<and>
    map fst es = map fst (take (length es) (queued_infos (dp w))) \<and>
    queued_infos (dp (drain_server_infos S E L BE budget n serviced w)) = drop (length es) (queued_infos (dp w)) \<and>
    serviced + sends es \<le> budget \<and> (length es < length (queued_infos (dp w)) \<longrightarrow> serviced + sends es = budget)"
  using assms(2-)
proof (induction n arbitrary: w serviced)
  case 0
  then show ?case by (intro exI [of _ "[]"]) (simp add: info_run.stop)
next
  case (Suc n)
  obtain slot p q where q: "queued_infos (dp w) = (slot, p) # q"
    using Suc.prems(3) by (metis length_Suc_conv surj_pair)
  have valid: "IsValidSlot E slot" using Suc.prems(2) by (simp add: q)
  note take = take_info_queued [OF q Suc.prems(1)]
  show ?case
  proof (cases "budget \<le> serviced")
    case True
    then have "drain_server_infos S E L BE budget (Suc n) serviced w = w" by (simp add: drain_unfold [OF q valid] del: drain_server_infos.simps)
    then show ?thesis using Suc.prems(4) True by (intro exI [of _ "[]"]) (simp add: info_run.stop)
  next
    case False
    show ?thesis
    proof (cases "info_client E L slot p w")
      case None
      let ?w = "take_info slot w"
      have "distinct (map fst (queued_infos (dp ?w)))" "\<forall>q \<in> set (queued_infos (dp ?w)). IsValidSlot E (fst q)"
        "n = length (queued_infos (dp ?w))"
        using Suc.prems(1-3) by (simp_all add: q take)
      from Suc.IH [OF this Suc.prems(4)] obtain es where
        "info_run S E L BE ?w es (drain_server_infos S E L BE budget n serviced ?w)"
        "map fst es = map fst (take (length es) q)"
        "queued_infos (dp (drain_server_infos S E L BE budget n serviced ?w)) = drop (length es) q"
        "serviced + sends es \<le> budget" "length es < length q \<longrightarrow> serviced + sends es = budget"
        unfolding take by blast
      then show ?thesis using False info_run.stale [OF q None] unfolding drain_unfold [OF q valid] None
        by (intro exI [of _ "(slot, False) # es"]) (simp add: q)
    next
      case (Some c)
      let ?w = "snd (SendLuaPackServerInfoNow S E L BE (Some c) (take_info slot w))"
      have "se_playerSlot c \<notin> fst ` set (queued_infos (dp (take_info slot w)))"
        using Suc.prems(1) by (simp add: info_client_slot [OF Some] take q)
      from queued_send [OF assms(1) this] have queue: "queued_infos (dp ?w) = q" unfolding take .
      have "distinct (map fst (queued_infos (dp ?w)))" "\<forall>q \<in> set (queued_infos (dp ?w)). IsValidSlot E (fst q)"
        "n = length (queued_infos (dp ?w))" "Suc serviced \<le> budget"
        using Suc.prems(1-3) False by (simp_all add: q queue)
      from Suc.IH [OF this] obtain es where
        "info_run S E L BE ?w es (drain_server_infos S E L BE budget n (Suc serviced) ?w)"
        "map fst es = map fst (take (length es) q)"
        "queued_infos (dp (drain_server_infos S E L BE budget n (Suc serviced) ?w)) = drop (length es) q"
        "Suc serviced + sends es \<le> budget" "length es < length q \<longrightarrow> Suc serviced + sends es = budget"
        unfolding queue by blast
      then show ?thesis using False info_run.send [OF q Some] unfolding drain_unfold [OF q valid] Some
        by (intro exI [of _ "(slot, True) # es"]) (simp add: q)
    qed
  qed
qed

text \<open>C29.  A frame serves the queue from the front.  The drain is a run of the list of queued sends:
  it takes a prefix in order, sends to each slot whose client is still the connection that asked,
  drops the others without spending budget, and stops only at the end of the queue or when
  \<^verbatim>\<open>max 1 budget\<close> sends were made; what it did not reach keeps its place and its record.  In
  particular a queue that is not empty always loses its first entry.\<close>

theorem server_info_drain_serves:
  fixes S :: Hashes and L :: "('y, 'w) LdEngine" and E :: "'y LuaData Datapack Engine"
  assumes "engine_keeps_queue E BE" and "rrs_inv (dp_serverInfoScheduler (dp w))"
    and "int (length (rrs_scheduled (dp_serverInfoScheduler (dp w)))) \<le> eng_playerLimit E"
    and "\<not> BaselinePreparationPending E w"
  defines "budget \<equiv> nat (max 1 (be_serverInfoBudget BE (ld_engine (ld w))))"
    and "w' \<equiv> DrainQueuedLuaPackServerInfos S E L BE w"
  shows "\<exists>es. info_run S E L BE w es w' \<and>
    map fst es = map fst (take (length es) (queued_infos (dp w))) \<and>
    queued_infos (dp w') = drop (length es) (queued_infos (dp w)) \<and>
    sends es \<le> budget \<and> (queued_infos (dp w') \<noteq> [] \<longrightarrow> sends es = budget) \<and>
    (queued_infos (dp w) \<noteq> [] \<longrightarrow> es \<noteq> [])"
proof -
  have "distinct (map fst (queued_infos (dp w)))" using assms(2) by (simp add: queued_slots rrs_inv_def)
  moreover have "\<forall>q \<in> set (queued_infos (dp w)). IsValidSlot E (fst q)"
    using rrs_active_nonneg [OF assms(2)] rrs_active_range [OF assms(2)] assms(3)
    by (force simp: queued_infos_def IsValidSlot_def)
  moreover have "RoundRobinSlotScheduler_Size (dp_serverInfoScheduler (dp w)) = length (queued_infos (dp w))"
    by (simp add: RoundRobinSlotScheduler_Size_def queued_infos_def)
  ultimately obtain es where es: "info_run S E L BE w es w'"
    "map fst es = map fst (take (length es) (queued_infos (dp w)))"
    "queued_infos (dp w') = drop (length es) (queued_infos (dp w))"
    "0 + sends es \<le> budget" "length es < length (queued_infos (dp w)) \<longrightarrow> 0 + sends es = budget"
    using drain_run [OF assms(1), of w "RoundRobinSlotScheduler_Size (dp_serverInfoScheduler (dp w))" 0 budget S L] assms(4)
    by (auto simp: w'_def budget_def DrainQueuedLuaPackServerInfos_def)
  moreover have "1 \<le> budget" by (simp add: budget_def)
  ultimately show ?thesis by (intro exI [of _ es]) fastforce
qed

inductive_cases info_run_one: "info_run S E L BE w [(slot, sent)] w'"

definition queue_lde :: "(unit, unit) LdEngine" where
  "queue_lde = cache_lde\<lparr>lde_client := (\<lambda>_ slot. if slot = 0 then Some send_session else None)\<rparr>"

definition queued_world :: "unit LdWorld" where
  "queued_world = snd (QueueLuaPackServerInfo cache_eng (Some send_session) send_world)"

lemma queued_world_queue:
  "queued_world = with_dp (\<lambda>d. d\<lparr>dp_serverInfoScheduler := \<lparr>rrs_active = [0], rrs_scheduled = [True, False]\<rparr>,
     dp_serverInfos := (\<lambda>_. PendingLuaPackServerInfo_new)(0 := \<lparr>ps_client = Some 4, ps_channel = Some 5, ps_userID = 1,
       ps_clientChallenge = 7, ps_queuedAt = 0, ps_coalescedPolls = 0\<rparr>)\<rparr>) send_world"
proof -
  have d: "dp_serverInfoScheduler (dp send_world) = \<lparr>rrs_active = [], rrs_scheduled = [False, False]\<rparr>"
    "dp_serverInfos (dp send_world) = (\<lambda>_. PendingLuaPackServerInfo_new)"
    by (simp_all add: send_world_def Datapack_new_def RoundRobinSlotScheduler_new_def numeral_2_eq_2)
  have "ShouldScheduleLuaPackServerInfo (IsEnabled send_world) (SupportsCanonicalRegistration cache_eng send_world)
      (RegistrationRefreshPending cache_eng send_world) True True True True"
    by (simp add: ShouldScheduleLuaPackServerInfo_def SupportsCanonicalRegistration_def cache_eng_def)
  then show ?thesis
    by (simp add: queued_world_def QueueLuaPackServerInfo_def send_session_def cache_eng_def IsValidSlot_def Let_def d
        RoundRobinSlotScheduler_IsScheduled_def RoundRobinSlotScheduler_Schedule_def with_server_info_def with_dp_def)
qed

lemma queued_world_start:
  "rrs_inv (dp_serverInfoScheduler (dp queued_world))"
  "int (length (rrs_scheduled (dp_serverInfoScheduler (dp queued_world)))) \<le> eng_playerLimit cache_eng"
  "\<not> BaselinePreparationPending cache_eng queued_world"
  "\<exists>p. queued_infos (dp queued_world) = [(0, p)] \<and> info_client cache_eng queue_lde 0 p queued_world = Some send_session"
proof -
  have "bitset_elems [True, False] = {0}" by (auto simp: bitset_elems_def less_Suc_eq)
  then show "rrs_inv (dp_serverInfoScheduler (dp queued_world))" by (simp add: queued_world_queue rrs_inv_def)
  show "int (length (rrs_scheduled (dp_serverInfoScheduler (dp queued_world)))) \<le> eng_playerLimit cache_eng"
    by (simp add: queued_world_queue cache_eng_def)
  show "\<not> BaselinePreparationPending cache_eng queued_world"
    by (simp add: queued_world_queue BaselinePreparationPending_def RegistrationRefreshPending_def IsEnabled_def
        UsesCanonicalRegistration_def SupportsCanonicalRegistration_def cache_eng_def InitialMapBasePending_def
        send_world_def demo_cvars_def State_new_def)
  show "\<exists>p. queued_infos (dp queued_world) = [(0, p)] \<and> info_client cache_eng queue_lde 0 p queued_world = Some send_session"
    by (simp add: queued_world_queue queued_infos_def info_client_def queue_lde_def send_session_def server_info_matches_def
        QueuedServerInfoIdentityMatches_def cache_eng_def)
qed

theorem server_info_drain_serves_witness:
  "info_run cache_hashes cache_eng queue_lde send_engine queued_world [(0, True)]
     (DrainQueuedLuaPackServerInfos cache_hashes cache_eng queue_lde send_engine queued_world)"
proof -
  obtain p where p: "queued_infos (dp queued_world) = [(0, p)]"
    "info_client cache_eng queue_lde 0 p queued_world = Some send_session"
    using queued_world_start(4) by blast
  have "engine_keeps_queue cache_eng send_engine" by (simp add: engine_keeps_queue_def cache_eng_def send_engine_def)
  from server_info_drain_serves [OF this queued_world_start(1-3), of cache_hashes queue_lde] obtain es where
    es: "info_run cache_hashes cache_eng queue_lde send_engine queued_world es
      (DrainQueuedLuaPackServerInfos cache_hashes cache_eng queue_lde send_engine queued_world)"
    "map fst es = map fst (take (length es) [(0, p)])" "es \<noteq> []"
    unfolding p by blast
  then obtain sent where "es = [(0, sent)]" by (cases es) auto
  moreover from es(1) this have sent by (auto elim!: info_run_one simp: p)
  ultimately show ?thesis using es(1) by simp
qed

end
