(* ===== verification/LuaRequests.thy ===== *)
theory LuaRequests
  imports LuaBaseline RequestBatch
begin

text \<open>
  The requests of clients in \<^verbatim>\<open>gmoddatapack.cpp\<close>: \<^verbatim>\<open>SendFileToClient\<close> answers a
  request for one file with a placeholder, a native body or a disconnect, and keeps what the client
  was told about the file in step; \<^verbatim>\<open>OnFilesRequested\<close> decodes a whole batch.
\<close>

section \<open>The engine around a request\<close>

text \<open>
  \<open>rqe_sendOriginal\<close> is the engine's own \<^verbatim>\<open>GModDataPack::SendFileToClient\<close>,
  \<open>rqe_onFilesRequested\<close> its \<^verbatim>\<open>OnFilesRequested\<close>, \<open>rqe_sendToClient\<close> is
  \<^verbatim>\<open>GMOD_SendToClient\<close>, \<open>rqe_buffer n\<close> an empty \<^verbatim>\<open>bf_write\<close> over \<open>n\<close> bytes,
  and \<open>rqe_probe\<close> a \<^verbatim>\<open>bf_read\<close> over the two bytes 1, 0.  The others are constants of the
  engine and its string table.
\<close>

record ('y, 'w, 'r) RequestEngine =
  rqe_supportsCanonical :: "'y \<Rightarrow> bool"
  rqe_updateStringTable :: u32
  rqe_tableBits :: int
  rqe_tableId :: "'y \<Rightarrow> int"
  rqe_entryBits :: "'y \<Rightarrow> int"
  rqe_fastNetworking :: "'y \<Rightarrow> bool"
  rqe_buffer :: "nat \<Rightarrow> 'w"
  rqe_sendToClient :: "int \<Rightarrow> 'w \<Rightarrow> 'y LdWorld \<Rightarrow> 'y LdWorld"
  rqe_sendOriginal :: "int \<Rightarrow> int \<Rightarrow> 'y LdWorld \<Rightarrow> 'y LdWorld"
  rqe_probe :: 'r
  rqe_onFilesRequested :: "int \<Rightarrow> 'r option \<Rightarrow> int \<Rightarrow> 'y LdWorld \<Rightarrow> 'y LdWorld"

definition lua_dp :: "('y, 'w) LdEngine \<Rightarrow> ('y, 'w, 'r) RequestEngine \<Rightarrow> ('y LuaData, 'w) DpEngine" where
  "lua_dp L RQ =
     \<lparr>dpe_client = (\<lambda>x. lde_client L (ld_engine x)), dpe_reliable = (\<lambda>x. lde_reliable L (ld_engine x)),
      dpe_setReliable = (\<lambda>channel stream x. x\<lparr>ld_engine := lde_setReliable L channel stream (ld_engine x)\<rparr>),
      dpe_strings = (\<lambda>x. map_option (map si_name) (ld_table x)),
      dpe_supportsCanonical = (\<lambda>x. rqe_supportsCanonical RQ (ld_engine x))\<rparr>"

section \<open>Sending\<close>

definition SendCompressedLuaFile ::
  "'w BitWriter \<Rightarrow> ('y, 'w, 'r) RequestEngine \<Rightarrow> int \<Rightarrow> int \<Rightarrow> u8 list \<Rightarrow> 'y LdWorld \<Rightarrow> 'y LdWorld" where
  "SendCompressedLuaFile W RQ clientIdx fileID compressed w =
     (let msg = rqe_buffer RQ (push_bit 16 1);
          m1 = WriteUBitLong W LuaFileDownload 8 msg;
          m2 = WriteUBitLong W (of_int fileID) 16 m1;
          m3 = WriteBytes W compressed (int (length compressed)) m2
      in rqe_sendToClient RQ clientIdx m3 w)"

definition SendLuaFile ::
  "'w BitWriter \<Rightarrow> 'e Engine \<Rightarrow> ('y, 'w, 'r) RequestEngine \<Rightarrow> int \<Rightarrow> int \<Rightarrow> LuaPackEntry \<Rightarrow> bool \<Rightarrow> 'y LdWorld \<Rightarrow> 'y LdWorld" where
  "SendLuaFile W E RQ clientIdx fileID pEntry bNoFastTransmit w =
     (if \<not> bNoFastTransmit \<and> rqe_fastNetworking RQ (ld_engine (ld w)) \<and> clientIdx < eng_playerLimit E
      then with_ld (\<lambda>l. l\<lparr>ld_playerQueues := (ld_playerQueues l)(clientIdx := (ld_playerQueues l clientIdx)
             \<lparr>pq_queue := pq_queue (ld_playerQueues l clientIdx) @ [fileID],
              pq_requestCount := pq_requestCount (ld_playerQueues l clientIdx) + 1\<rparr>)\<rparr>) w
      else SendCompressedLuaFile W RQ clientIdx fileID (le_compressed pEntry) w)"

definition SendClientLuaHashUpdate ::
  "'w BitWriter \<Rightarrow> ('y, 'w) LdEngine \<Rightarrow> ('y, 'w, 'r) RequestEngine \<Rightarrow> int \<Rightarrow> int \<Rightarrow> u8 list \<Rightarrow> 'y LdWorld
     \<Rightarrow> bool \<times> 'y LdWorld" where
  "SendClientLuaHashUpdate W L RQ clientIdx fileID hash w =
     (case (ld_table (ld w), length hash = 32) of
        (Some items, True) \<Rightarrow>
          (let y = ld_engine (ld w)
           in case (case lde_client L y clientIdx of None \<Rightarrow> None | Some client \<Rightarrow> se_channel client) of
                None \<Rightarrow> (False, w)
              | Some channel \<Rightarrow>
                  if fileID \<le> 0 \<or> int (length items) \<le> fileID then (False, w)
                  else if (case si_userData (items ! nat fileID) of None \<Rightarrow> True | Some published \<Rightarrow> length published \<noteq> 32)
                  then (False, w)
                  else
                    (let (appended, stream) = AppendClientLuaHashUpdateWire W (lde_reliable L y channel)
                           (rqe_updateStringTable RQ) (int RequiredStubServiceTypeBits) (of_int (rqe_tableId RQ y))
                           (rqe_tableBits RQ) (of_int fileID) (rqe_entryBits RQ y) (Some hash) (of_nat (length hash)) 0
                     in (appended, with_ld (\<lambda>l. l\<lparr>ld_engine := lde_setReliable L channel stream (ld_engine l)\<rparr>) w)))
      | _ \<Rightarrow> (False, w))"

definition AppendCanonicalLuaStub ::
  "'w BitWriter \<Rightarrow> ('y, 'w) LdEngine \<Rightarrow> ('y, 'w, 'r) RequestEngine \<Rightarrow> int \<Rightarrow> int \<Rightarrow> u8 list \<Rightarrow> 'y LdWorld
     \<Rightarrow> bool \<times> 'y LdWorld" where
  "AppendCanonicalLuaStub W L RQ clientIdx fileID compressed w =
     (let (action, channel) = PrepareCanonicalLuaStubAppend W (lua_dp L RQ) clientIdx compressed True True True (ld w)
      in if action \<noteq> DrainAppend then (False, w)
         else
           (let (appended, x) = AppendCanonicalLuaStubToChannel W (lua_dp L RQ) channel fileID compressed (ld w)
            in (appended, with_ld (\<lambda>_. x) w)))"

section \<open>The identity of a native body\<close>

text \<open>\<open>luaFile\<close> is the contents of the file in the shared cache.\<close>

definition GetNativeLuaHash :: "Hashes \<Rightarrow> int \<Rightarrow> string option \<Rightarrow> 'y LdWorld \<Rightarrow> u8 list option" where
  "GetNativeLuaHash S fileID luaFile w =
     (let entry = GetPackEntry fileID w
      in case entry of
           Some e \<Rightarrow>
             if le_hasSourceContent e \<and> le_sourceHashReady e \<and>
                (case luaFile of None \<Rightarrow> True | Some contents \<Rightarrow> le_sourceContent e = contents)
             then Some (le_sourceHash e)
             else
               (case luaFile of
                  Some contents \<Rightarrow> Some (HashClientLuaString S contents)
                | None \<Rightarrow> if le_hasSourceContent e then Some (HashClientLuaString S (le_sourceContent e)) else None)
         | None \<Rightarrow> map_option (HashClientLuaString S) luaFile)"

definition RefreshRegistrationModeForRequest ::
  "Hashes \<Rightarrow> 'y LuaData Datapack Engine \<Rightarrow> ('y, 'w) LdEngine \<Rightarrow> int \<Rightarrow> string \<Rightarrow> string option \<Rightarrow> 'y LdWorld
     \<Rightarrow> bool \<times> 'y LdWorld" where
  "RefreshRegistrationModeForRequest S E L fileID fileName luaFile w =
     (case GetPackEntry fileID w of
        None \<Rightarrow> (True, w)
      | Some entry \<Rightarrow>
          (let enabled = IsEnabled w;
               canonicalRegistration = SupportsCanonicalRegistration E w;
               modeMatches = RegistrationModeMatches (le_luapackCanonical entry) (le_luapackPassthrough entry)
                 enabled canonicalRegistration;
               stale = (\<not> modeMatches \<or> \<not> le_hasSourceContent entry)
           in if \<not> RegistrationNeedsHashPublication (le_luapackCanonical entry) (le_luapackPassthrough entry)
                    (le_hasSourceContent entry) (IsContentReady entry) (le_hashPublished entry) enabled canonicalRegistration
              then (True, w)
              else if stale
              then
                (case (case luaFile of Some contents \<Rightarrow> Some contents
                       | None \<Rightarrow> if le_hasSourceContent entry then Some (le_sourceContent entry) else None) of
                   None \<Rightarrow> (False, w)
                 | Some source \<Rightarrow>
                     PublishRegistrationHash S E L fileID (AddFileContents S E L fileName source False
                       (if enabled then CaptureFileContents S E fileName source w else w)))
              else PublishRegistrationHash S E L fileID w))"

definition upd_slot_hashes ::
  "int \<Rightarrow> ((int \<Rightarrow> u8 list option) \<Rightarrow> (int \<Rightarrow> u8 list option)) \<Rightarrow> ((int \<Rightarrow> u8 list option) \<Rightarrow> (int \<Rightarrow> u8 list option))
     \<Rightarrow> 'y LdWorld \<Rightarrow> 'y LdWorld" where
  "upd_slot_hashes slot f g = with_dp (\<lambda>d. d\<lparr>dp_nativeHashes := (dp_nativeHashes d)(slot := f (dp_nativeHashes d slot)),
     dp_hashUpdatesPending := (dp_hashUpdatesPending d)(slot := g (dp_hashUpdatesPending d slot))\<rparr>)"

definition native_acknowledged :: "int \<Rightarrow> int \<Rightarrow> u8 list \<Rightarrow> 'y LdWorld \<Rightarrow> 'y LdWorld" where
  "native_acknowledged clientIdx fileID hash w =
     (if dp_hashUpdatesPending (dp w) clientIdx fileID = Some hash
      then with_ld (\<lambda>l. l\<lparr>ld_nativeAcknowledgements := ld_nativeAcknowledgements l + 1\<rparr>) w else w)"

definition SendNativeLuaFile ::
  "'w BitWriter \<Rightarrow> Hashes \<Rightarrow> 'y LuaData Datapack Engine \<Rightarrow> ('y, 'w) LdEngine \<Rightarrow> ('y, 'w, 'r) RequestEngine \<Rightarrow> int \<Rightarrow> int
     \<Rightarrow> string \<Rightarrow> string option \<Rightarrow> 'y LdWorld \<Rightarrow> bool \<times> 'y LdWorld" where
  "SendNativeLuaFile W S E L RQ clientIdx fileID fileName luaFile w =
     (let (needs, w1) = NeedsNativeHashUpdate E clientIdx w;
          fail = DisconnectLuaHashFailure E (lua_dp L RQ) clientIdx fileName
      in if needs \<and> \<not> IsInitFile fileName
         then
           (case GetNativeLuaHash S fileID luaFile w1 of
              None \<Rightarrow> (False, fail w1)
            | Some nativeHash \<Rightarrow>
                (let w2 = native_acknowledged clientIdx fileID nativeHash w1;
                     (sent, w3) =
                       (if \<not> LatestAdvertisedHashMatches (dp_nativeHashes (dp w2) clientIdx)
                              (dp_hashUpdatesPending (dp w2) clientIdx) fileID nativeHash
                        then SendClientLuaHashUpdate W L RQ clientIdx fileID nativeHash w2 else (True, w2))
                 in if \<not> sent then (False, fail w3)
                    else (True, rqe_sendOriginal RQ clientIdx fileID
                           (upd_slot_hashes clientIdx (\<lambda>hashes. RememberNativeHash hashes fileID nativeHash)
                              (\<lambda>pending. pending(fileID := None)) w3))))
         else (True, rqe_sendOriginal RQ clientIdx fileID
                (if IsValidSlot E clientIdx
                 then upd_slot_hashes clientIdx (\<lambda>hashes. hashes) (\<lambda>pending. pending(fileID := None)) w1 else w1)))"

section \<open>A request for one file\<close>

text \<open>A placeholder that was decided for this request.\<close>

definition restore_canonical ::
  "'w BitWriter \<Rightarrow> ('y, 'w) LdEngine \<Rightarrow> ('y, 'w, 'r) RequestEngine \<Rightarrow> int \<Rightarrow> int \<Rightarrow> u8 list \<Rightarrow> 'y LdWorld
     \<Rightarrow> bool \<times> 'y LdWorld" where
  "restore_canonical W L RQ clientIdx fileID compressed w =
     (let nativeKnown = (dp_nativeHashes (dp w) clientIdx fileID \<noteq> None);
          clientActive = (case lde_client L (ld_engine (ld w)) clientIdx of None \<Rightarrow> False | Some client \<Rightarrow> se_active client);
          publishedMatches = (dp_hashUpdatesPending (dp w) clientIdx fileID = Some (take 32 compressed));
          w1 = (if publishedMatches
                then with_ld (\<lambda>l. l\<lparr>ld_canonicalAcknowledgements := ld_canonicalAcknowledgements l + 1\<rparr>) w else w);
          (sent, w2) = (if NeedsOrderedCanonicalHash clientActive nativeKnown publishedMatches
             then SendClientLuaHashUpdate W L RQ clientIdx fileID (take 32 compressed) w1 else (True, w1));
          w3 = (if NeedsOrderedCanonicalHash clientActive nativeKnown publishedMatches
             then upd_slot_hashes clientIdx (\<lambda>hashes. snd (RestoreCanonicalHash hashes fileID)) (\<lambda>pending. pending) w2 else w2)
      in if \<not> sent then (False, w2)
         else (True, upd_slot_hashes clientIdx (\<lambda>hashes. hashes) (\<lambda>pending. pending(fileID := None)) w3))"

definition request_stub ::
  "'w BitWriter \<Rightarrow> 'y LuaData Datapack Engine \<Rightarrow> ('y, 'w) LdEngine \<Rightarrow> ('y, 'w, 'r) RequestEngine \<Rightarrow> int \<Rightarrow> int \<Rightarrow> string
     \<Rightarrow> u8 list \<Rightarrow> 'y LdWorld \<Rightarrow> 'y LdWorld" where
  "request_stub W E L RQ clientIdx fileID fileName compressed w =
     (let fail = DisconnectLuaHashFailure E (lua_dp L RQ) clientIdx fileName
      in if length compressed < 32 then fail w
         else
           (let (restored, w1) = (if IsValidSlot E clientIdx
                  then restore_canonical W L RQ clientIdx fileID compressed w else (True, w))
            in if \<not> restored then fail w1
               else (let (appended, w2) = AppendCanonicalLuaStub W L RQ clientIdx fileID compressed w1
                     in if appended then w2 else fail w2)))"

text \<open>The cached body of the module, compressed here when the worker has not come to it.\<close>

definition request_cached ::
  "'w BitWriter \<Rightarrow> Bootil \<Rightarrow> Hashes \<Rightarrow> 'y LuaData Datapack Engine \<Rightarrow> ('y, 'w) LdEngine \<Rightarrow> ('y, 'w, 'r) RequestEngine
     \<Rightarrow> int \<Rightarrow> int \<Rightarrow> string \<Rightarrow> string \<Rightarrow> 'y LdWorld \<Rightarrow> 'y LdWorld" where
  "request_cached W B S E L RQ clientIdx fileID fileName contents w =
     (if IsReady (ld_entries (ld w) fileID)
      then SendLuaFile W E RQ clientIdx fileID (ld_entries (ld w) fileID) False w
      else
        (let w1 = (if \<not> IsContentReady (ld_entries (ld w) fileID) then ProcessContent S E L True fileID w else w);
             (compressed, entry) = (if IsContentReady (ld_entries (ld w1) fileID)
                then CompressFile B S (ld_entries (ld w1) fileID) else (False, ld_entries (ld w1) fileID));
             w2 = upd_entry fileID (\<lambda>_. entry) w1
         in if compressed then SendLuaFile W E RQ clientIdx fileID entry False w2
            else if IsEnabled w2
            then snd (SendNativeLuaFile W S E L RQ clientIdx fileID fileName (Some contents) w2) else w2))"

text \<open>Everything after the delivery decision.\<close>

definition request_decided ::
  "'w BitWriter \<Rightarrow> Bootil \<Rightarrow> Hashes \<Rightarrow> 'y LuaData Datapack Engine \<Rightarrow> ('y, 'w) LdEngine \<Rightarrow> ('y, 'w, 'r) RequestEngine
     \<Rightarrow> int \<Rightarrow> int \<Rightarrow> string \<Rightarrow> string option \<Rightarrow> DeliveryDecision \<Rightarrow> 'y LdWorld \<Rightarrow> 'y LdWorld" where
  "request_decided W B S E L RQ clientIdx fileID fileName luaFile delivery w =
     (if dd_action delivery = DaStub \<and> dd_compressed delivery \<noteq> None
      then request_stub W E L RQ clientIdx fileID fileName (the (dd_compressed delivery)) w
      else if dd_action delivery = DaReject then DisconnectRequiredClient E clientIdx w
      else
        (let fail = DisconnectLuaHashFailure E (lua_dp L RQ) clientIdx fileName
         in case luaFile of
              None \<Rightarrow>
                if \<not> IsEnabled w then w
                else if IsInitFile fileName then fail w
                else snd (SendNativeLuaFile W S E L RQ clientIdx fileID fileName None w)
            | Some contents \<Rightarrow>
                if IsEnabled w \<and> \<not> IsInitFile fileName
                then snd (SendNativeLuaFile W S E L RQ clientIdx fileID fileName luaFile w)
                else if GetPackEntry fileID w = None
                then
                  (if \<not> IsEnabled w then w
                   else if IsInitFile fileName then fail w
                   else snd (SendNativeLuaFile W S E L RQ clientIdx fileID fileName luaFile w))
                else request_cached W B S E L RQ clientIdx fileID fileName contents w))"

text \<open>A file the slot's baseline pinned, whose payload can be used.\<close>

definition pinned_usable :: "'y LuaData Datapack Engine \<Rightarrow> int \<Rightarrow> int \<Rightarrow> 'y LdWorld \<Rightarrow> bool" where
  "pinned_usable E clientIdx fileID w \<longleftrightarrow>
     IsValidSlot E clientIdx \<and>
     (let payload = dp_pinnedPayloads (dp w) clientIdx
      in CanUsePinnedRequiredStub (IsEnabled w) (SupportsCanonicalRegistration E w)
           (PinnedCanonicalFileSet_Contains fileID (dp_pinnedFiles (dp w) clientIdx)) (payload \<noteq> None)
           (of_nat (case payload of None \<Rightarrow> 0 | Some p \<Rightarrow> length p)))"

text \<open>Staging, with the disconnect of a failure; the flag is whether it was staged.\<close>

definition enqueue_pinned ::
  "'y LuaData Datapack Engine \<Rightarrow> ('y, 'w) LdEngine \<Rightarrow> ('y, 'w, 'r) RequestEngine \<Rightarrow> int \<Rightarrow> int \<Rightarrow> 'y LdWorld \<Rightarrow> bool \<times> 'y LdWorld" where
  "enqueue_pinned E L RQ clientIdx fileID w =
     (let (queued, d) = EnqueuePinnedRequiredStub E clientIdx fileID (dp w);
          w1 = with_dp (\<lambda>_. d) w
      in (queued, if queued then w1
           else DisconnectLuaHashFailure E (lua_dp L RQ) clientIdx (registered_name (lua_dp L RQ) fileID (ld w1)) w1))"

definition request_name :: "int \<Rightarrow> 'y LdWorld \<Rightarrow> string" where
  "request_name fileID w =
     (case (case string_item fileID w of None \<Rightarrow> None | Some item \<Rightarrow> si_name item) of None \<Rightarrow> '''' | Some n \<Rightarrow> n)"

definition hook_GModDataPack_SendFileToClient ::
  "'w BitWriter \<Rightarrow> Bootil \<Rightarrow> Hashes \<Rightarrow> 'y LuaData Datapack Engine \<Rightarrow> ('y, 'w) LdEngine \<Rightarrow> 'y BaselineEngine
     \<Rightarrow> ('y, 'w, 'r) RequestEngine \<Rightarrow> int \<Rightarrow> int \<Rightarrow> 'y LdWorld \<Rightarrow> 'y LdWorld" where
  "hook_GModDataPack_SendFileToClient W B S E L BE RQ clientIdx fileID w =
     (if ld_probeSlot (ld w) = clientIdx then with_ld (\<lambda>l. l\<lparr>ld_probeAccepted := True\<rparr>) w
      else
        (case ld_table (ld w) of
           None \<Rightarrow> w
         | Some items \<Rightarrow>
             if fileID \<le> 0 \<or> int (length items) \<le> fileID then w
             else if pinned_usable E clientIdx fileID w then snd (enqueue_pinned E L RQ clientIdx fileID w)
             else
               (let fileName = request_name fileID w;
                    luaFile = be_cachedSource BE (ld_engine (ld w)) fileName;
                    (registrationReady, w1) = RefreshRegistrationModeForRequest S E L fileID fileName luaFile w
                in if \<not> registrationReady then DisconnectLuaHashFailure E (lua_dp L RQ) clientIdx fileName w1
                   else
                     (let (delivery, w2) = DecideDeliveryForClient E clientIdx fileName
                            (of_nat (case luaFile of None \<Rightarrow> 0 | Some contents \<Rightarrow> length contents)) w1
                      in request_decided W B S E L RQ clientIdx fileID fileName luaFile delivery w2))))"

section \<open>A batch of requests\<close>

text \<open>The loop over the file IDs; it stops when a pinned file cannot be queued.\<close>

fun serve_batch ::
  "'w BitWriter \<Rightarrow> Bootil \<Rightarrow> Hashes \<Rightarrow> 'y LuaData Datapack Engine \<Rightarrow> ('y, 'w) LdEngine \<Rightarrow> 'y BaselineEngine
     \<Rightarrow> ('y, 'w, 'r) RequestEngine \<Rightarrow> int \<Rightarrow> PinnedCanonicalFileSet \<Rightarrow> int list \<Rightarrow> 'y LdWorld \<Rightarrow> 'y LdWorld" where
  "serve_batch W B S E L BE RQ clientIdx requested [] w = w"
| "serve_batch W B S E L BE RQ clientIdx requested (fileID # files) w =
     (if \<not> PinnedCanonicalFileSet_Contains fileID requested
      then serve_batch W B S E L BE RQ clientIdx requested files w
      else if PinnedCanonicalFileSet_Contains fileID (dp_pinnedFiles (dp w) clientIdx)
      then
        (case enqueue_pinned E L RQ clientIdx fileID w of
           (queued, w1) \<Rightarrow> if queued then serve_batch W B S E L BE RQ clientIdx requested files w1 else w1)
      else serve_batch W B S E L BE RQ clientIdx requested files
             (hook_GModDataPack_SendFileToClient W B S E L BE RQ clientIdx fileID w))"

definition batch_counted :: "int \<Rightarrow> size_t \<Rightarrow> 'y LdWorld \<Rightarrow> 'y LdWorld" where
  "batch_counted clientIdx uniqueRequests = with_dp (upd_queue clientIdx (\<lambda>q. q\<lparr>
     rq_requestBatches := rq_requestBatches q + 1, rq_requestedFiles := rq_requestedFiles q + ucast uniqueRequests\<rparr>))"

definition batch_timed :: "int \<Rightarrow> real \<Rightarrow> 'y LdWorld \<Rightarrow> 'y LdWorld" where
  "batch_timed clientIdx elapsed = with_dp (upd_queue clientIdx (\<lambda>q. q\<lparr>
     rq_requestBatchMilliseconds := rq_requestBatchMilliseconds q + elapsed,
     rq_peakRequestBatchMilliseconds := max (rq_peakRequestBatchMilliseconds q) elapsed\<rparr>))"

text \<open>The engine's request allowance, asked for with one harmless ID.\<close>

definition probe_allowance ::
  "('y, 'w, 'r) RequestEngine \<Rightarrow> int \<Rightarrow> 'y LdWorld \<Rightarrow> bool \<times> 'y LdWorld" where
  "probe_allowance RQ clientIdx w =
     (let w1 = rqe_onFilesRequested RQ clientIdx (Some (rqe_probe RQ)) 16
            (with_ld (\<lambda>l. l\<lparr>ld_probeSlot := clientIdx, ld_probeAccepted := False\<rparr>) w)
      in (ld_probeAccepted (ld w1), with_ld (\<lambda>l. l\<lparr>ld_probeAccepted := False, ld_probeSlot := - 1\<rparr>) w1))"

definition hook_GModDataPack_OnFilesRequested ::
  "'w BitWriter \<Rightarrow> 'r BitReader \<Rightarrow> Bootil \<Rightarrow> Hashes \<Rightarrow> 'y LuaData Datapack Engine \<Rightarrow> ('y, 'w) LdEngine \<Rightarrow> 'y BaselineEngine
     \<Rightarrow> ('y, 'w, 'r) RequestEngine \<Rightarrow> int \<Rightarrow> 'r option \<Rightarrow> int \<Rightarrow> 'y LdWorld \<Rightarrow> 'y LdWorld" where
  "hook_GModDataPack_OnFilesRequested W R B S E L BE RQ clientIdx message bits w =
     (case (ld_table (ld w), message) of
        (Some items, Some r) \<Rightarrow>
          (let payload = dp_pinnedPayloads (dp w) clientIdx;
               registeredFiles = int (length items)
           in if \<not> IsValidSlot E clientIdx \<or>
                 \<not> CanDecodePinnedRequiredRequestBatch (IsEnabled w) (SupportsCanonicalRegistration E w) (payload \<noteq> None)
                     (of_nat (case payload of None \<Rightarrow> 0 | Some p \<Rightarrow> length p)) bits (br_GetNumBitsLeft R r)
                     registeredFiles MAX_TRACKED_LUA_FILES
              then rqe_onFilesRequested RQ clientIdx message bits w
              else
                (let startedAt = eng_time E (dp w);
                     (accepted, w1) = probe_allowance RQ clientIdx w
                 in if \<not> accepted then w1
                    else
                      (case DecodeRequiredRequestIds R r bits registeredFiles (PinnedCanonicalFileSet_new MAX_TRACKED_LUA_FILES) of
                         (decoded, _, requested, uniqueRequests) \<Rightarrow>
                           if \<not> decoded
                           then DisconnectLuaHashFailure E (lua_dp L RQ) clientIdx ''the required Lua request batch'' w1
                           else
                             (let w2 = serve_batch W B S E L BE RQ clientIdx requested [1..registeredFiles - 1]
                                    (batch_counted clientIdx uniqueRequests w1)
                              in batch_timed clientIdx ((eng_time E (dp w2) - startedAt) * 1000) w2))))
      | _ \<Rightarrow> rqe_onFilesRequested RQ clientIdx message bits w)"

end
