(* ===== verification/RequestDelivery.thy ===== *)
theory RequestDelivery
  imports LuaRequests BaselineTable
begin

text \<open>
  What a client is sent on a request, against what it was told: a native body goes out only under
  the hash of its source, a placeholder only under its own hash, and a batch of pinned files is the
  same as the single requests.
\<close>

section \<open>Records on the reliable stream\<close>

definition client_stream :: "('y, 'w) LdEngine \<Rightarrow> int \<Rightarrow> 'y LdWorld \<Rightarrow> 'w option" where
  "client_stream L slot w =
     (case lde_client L (ld_engine (ld w)) slot of
        None \<Rightarrow> None | Some c \<Rightarrow> map_option (lde_reliable L (ld_engine (ld w))) (se_channel c))"

definition update_record :: "('y, 'w, 'r) RequestEngine \<Rightarrow> int \<Rightarrow> u8 list \<Rightarrow> 'y LdWorld \<Rightarrow> bool list" where
  "update_record RQ fileID hash w =
     hash_wire_record RequiredStubServiceTypeBits (rqe_updateStringTable RQ) (nat (rqe_tableBits RQ))
       (of_int (rqe_tableId RQ (ld_engine (ld w)))) (nat (rqe_entryBits RQ (ld_engine (ld w)))) (of_int fileID) hash"

text \<open>Only the streams of the engine differ.\<close>

definition same_module :: "'y LdWorld \<Rightarrow> 'y LdWorld \<Rightarrow> bool" where
  "same_module w w' \<longleftrightarrow> (\<exists>y. w' = with_ld (\<lambda>l. l\<lparr>ld_engine := y\<rparr>) w)"

lemma same_module_simps:
  assumes "same_module w w'"
  shows "w_state w' = w_state w" "w_cvars w' = w_cvars w" "dp_nativeHashes (dp w') = dp_nativeHashes (dp w)"
    "dp_hashUpdatesPending (dp w') = dp_hashUpdatesPending (dp w)" "ld_table (ld w') = ld_table (ld w)"
    "ld_entries (ld w') = ld_entries (ld w)"
  using assms by (auto simp: same_module_def)

lemma lua_dp_simps [simp]:
  "dpe_client (lua_dp L RQ) x = lde_client L (ld_engine x)"
  "dpe_reliable (lua_dp L RQ) x = lde_reliable L (ld_engine x)"
  "dpe_setReliable (lua_dp L RQ) c s x = x\<lparr>ld_engine := lde_setReliable L c s (ld_engine x)\<rparr>"
  by (simp_all add: lua_dp_def)

lemma stream_set:
  assumes "stream_laws (lua_dp L RQ)"
  shows "lde_reliable L (lde_setReliable L c s y) c = s" "lde_client L (lde_setReliable L c s y) = lde_client L y"
proof -
  have "dpe_reliable (lua_dp L RQ) (dpe_setReliable (lua_dp L RQ) c s (x\<lparr>ld_engine := y\<rparr>)) =
      (dpe_reliable (lua_dp L RQ) (x\<lparr>ld_engine := y\<rparr>))(c := s)"
    "dpe_client (lua_dp L RQ) (dpe_setReliable (lua_dp L RQ) c s (x\<lparr>ld_engine := y\<rparr>)) = dpe_client (lua_dp L RQ) (x\<lparr>ld_engine := y\<rparr>)"
    for x :: "'a LuaData"
    using assms unfolding stream_laws_def by blast+
  then show "lde_reliable L (lde_setReliable L c s y) c = s" "lde_client L (lde_setReliable L c s y) = lde_client L y" by simp_all
qed

lemma update_sent:
  assumes "bit_writer W bits room" and "stream_laws (lua_dp L RQ)"
    and "SendClientLuaHashUpdate W L RQ slot f h w = (True, w')"
  shows "\<exists>s s'. client_stream L slot w = Some s \<and> client_stream L slot w' = Some s' \<and>
    appended W bits room s (update_record RQ f h w) s' \<and> same_module w w'"
proof -
  let ?y = "ld_engine (ld w)"
  obtain items where items: "ld_table (ld w) = Some items"
    using assms(3) by (cases "ld_table (ld w)") (simp_all add: SendClientLuaHashUpdate_def)
  have len: "length h = 32"
    using assms(3) by (cases "length h = 32") (simp_all add: SendClientLuaHashUpdate_def items)
  obtain client channel where c: "lde_client L ?y slot = Some client" "se_channel client = Some channel"
  proof (cases "lde_client L ?y slot")
    case None
    then show ?thesis using assms(3) by (simp add: SendClientLuaHashUpdate_def items len)
  next
    case (Some client)
    then show ?thesis
      using assms(3) that by (cases "se_channel client") (simp_all add: SendClientLuaHashUpdate_def items len)
  qed
  let ?out = "lde_reliable L ?y channel"
  obtain ok stream where app: "AppendClientLuaHashUpdateWire W ?out (rqe_updateStringTable RQ) (int RequiredStubServiceTypeBits)
      (of_int (rqe_tableId RQ ?y)) (rqe_tableBits RQ) (of_int f) (rqe_entryBits RQ ?y) (Some h) (of_nat (length h)) 0 = (ok, stream)"
    by (metis surj_pair)
  have res: "ok" "w' = with_ld (\<lambda>l. l\<lparr>ld_engine := lde_setReliable L channel stream (ld_engine l)\<rparr>) w"
    using assms(3) app by (auto simp: SendClientLuaHashUpdate_def items len c Let_def split: if_splits)
  have fits: "hash_wire_args (rqe_updateStringTable RQ) (int RequiredStubServiceTypeBits) (of_int (rqe_tableId RQ ?y))
      (rqe_tableBits RQ) (of_int f) (rqe_entryBits RQ ?y) (Some h) (of_nat (length h)) \<and> \<not> IsOverflowed W ?out \<and>
      nat (int RequiredStubServiceTypeBits) + nat (rqe_tableBits RQ) + nat (rqe_entryBits RQ ?y) + 299 + unat (0 :: size_t) \<le> room ?out"
    using bit_writer.hash_wire_rejected [OF assms(1)] app res(1) by (metis fst_conv)
  from bit_writer.hash_wire_accepted [OF assms(1) _ _ len] fits app
  have "appended W bits room ?out (update_record RQ f h w) stream" by (fastforce simp: update_record_def)
  moreover have "w' = with_ld (\<lambda>l. l\<lparr>ld_engine := lde_setReliable L channel stream ?y\<rparr>) w"
    unfolding res(2) by (simp add: with_ld_def with_rest_def)
  then have "same_module w w'" unfolding same_module_def by (rule exI)
  ultimately show ?thesis
    using c stream_set [OF assms(2)] by (simp add: client_stream_def res(2))
qed

text \<open>An update that is not sent leaves every stream as it was.\<close>

lemma stream_other:
  assumes X: "stream_laws (lua_dp L RQ)" and k: "lde_client L (ld_engine (ld w)) slot = Some k" "se_channel k = Some c"
    and "other \<noteq> slot" and y: "ld_engine (ld w') = lde_setReliable L c s (ld_engine (ld w))"
  shows "client_stream L other w' = client_stream L other w"
proof -
  let ?y = "ld_engine (ld w)"
  have "dpe_reliable (lua_dp L RQ) (dpe_setReliable (lua_dp L RQ) c s (ld w)) = (dpe_reliable (lua_dp L RQ) (ld w))(c := s)"
    and inj: "dpe_client (lua_dp L RQ) (ld w) a = Some k1 \<and> dpe_client (lua_dp L RQ) (ld w) b = Some k2 \<and>
      se_channel k1 = Some d \<and> se_channel k2 = Some d \<longrightarrow> a = b" for a b k1 k2 d
    using X unfolding stream_laws_def by blast+
  then have "lde_reliable L (lde_setReliable L c s ?y) = (lde_reliable L ?y)(c := s)" by simp
  moreover have "d \<noteq> c" if "lde_client L ?y other = Some k2" "se_channel k2 = Some d" for k2 d
    using inj [of slot k other k2 c] k that assms(4) by auto
  ultimately show ?thesis
    unfolding client_stream_def y stream_set(2) [OF X] by (auto split: option.split intro!: map_option_cong)
qed

lemma with_engine_same: "same_module w (with_ld (\<lambda>l. l\<lparr>ld_engine := f (ld_engine l)\<rparr>) w)"
proof -
  have "with_ld (\<lambda>l. l\<lparr>ld_engine := f (ld_engine l)\<rparr>) w = with_ld (\<lambda>l. l\<lparr>ld_engine := f (ld_engine (ld w))\<rparr>) w"
    by (simp add: with_ld_def with_rest_def)
  then show ?thesis unfolding same_module_def by blast
qed

lemma same_module_refl: "same_module w w"
  unfolding same_module_def by (rule exI [of _ "ld_engine (ld w)"]) (simp add: with_ld_def with_rest_def)

lemma update_not_sent:
  assumes W: "bit_writer W bits room" and X: "stream_laws (lua_dp L RQ)"
    and send: "SendClientLuaHashUpdate W L RQ slot f h w = (False, w')"
  shows "same_module w w' \<and> (\<forall>s. client_stream L s w' = client_stream L s w)"
proof (cases "w' = w")
  case True
  then show ?thesis using same_module_refl by simp
next
  case changed: False
  let ?y = "ld_engine (ld w)"
  obtain items where items: "ld_table (ld w) = Some items"
    using send changed by (cases "ld_table (ld w)") (simp_all add: SendClientLuaHashUpdate_def)
  have len: "length h = 32"
    using send changed by (cases "length h = 32") (simp_all add: SendClientLuaHashUpdate_def items)
  obtain client channel where c: "lde_client L ?y slot = Some client" "se_channel client = Some channel"
  proof (cases "lde_client L ?y slot")
    case None
    then show ?thesis using send changed by (simp add: SendClientLuaHashUpdate_def items len)
  next
    case (Some client)
    then show ?thesis
      using send changed that by (cases "se_channel client") (simp_all add: SendClientLuaHashUpdate_def items len)
  qed
  let ?out = "lde_reliable L ?y channel"
  obtain ok stream where app: "AppendClientLuaHashUpdateWire W ?out (rqe_updateStringTable RQ) (int RequiredStubServiceTypeBits)
      (of_int (rqe_tableId RQ ?y)) (rqe_tableBits RQ) (of_int f) (rqe_entryBits RQ ?y) (Some h) (of_nat (length h)) 0 = (ok, stream)"
    by (metis surj_pair)
  have res: "\<not> ok" "w' = with_ld (\<lambda>l. l\<lparr>ld_engine := lde_setReliable L channel stream (ld_engine l)\<rparr>) w"
    using send changed app by (auto simp: SendClientLuaHashUpdate_def items len c Let_def split: if_splits)
  have "\<not> (hash_wire_args (rqe_updateStringTable RQ) (int RequiredStubServiceTypeBits) (of_int (rqe_tableId RQ ?y))
      (rqe_tableBits RQ) (of_int f) (rqe_entryBits RQ ?y) (Some h) (of_nat (length h)) \<and> \<not> IsOverflowed W ?out \<and>
      nat (int RequiredStubServiceTypeBits) + nat (rqe_tableBits RQ) + nat (rqe_entryBits RQ ?y) + 299 + unat (0 :: size_t) \<le> room ?out)"
    using bit_writer.hash_wire_accepted [OF W _ _ len] app res(1) by fastforce
  from bit_writer.hash_wire_rejected [OF W this] have o': "stream = ?out" using app by simp
  have y: "ld_engine (ld w') = lde_setReliable L channel ?out ?y" by (simp add: res(2) o')
  have "client_stream L slot w' = client_stream L slot w" using c stream_set [OF X] by (simp add: client_stream_def y)
  then show ?thesis
    using stream_other [OF X c _ y] with_engine_same [of w "lde_setReliable L channel stream"] unfolding res(2) by metis
qed

section \<open>Native bodies\<close>

lemma GetNative_source:
  assumes "ld_ok B S w" and "GetNativeLuaHash S f luaFile w = Some h"
  shows "\<exists>src. h = HashClientLuaString S src \<and>
    (case luaFile of Some contents \<Rightarrow> src = contents
     | None \<Rightarrow> (\<exists>e. GetPackEntry f w = Some e \<and> le_hasSourceContent e \<and> src = le_sourceContent e))"
proof -
  have "le_sourceHash e = HashClientLuaString S (le_sourceContent e)"
    if "GetPackEntry f w = Some e" "le_sourceHashReady e" for e
    using that assms(1) by (auto simp: GetPackEntry_def ld_ok_def entry_ok_def split: if_splits)
  then show ?thesis
    using assms(2) by (auto simp: GetNativeLuaHash_def Let_def split: option.splits if_splits)
qed

lemma native_acknowledged_same:
  "dp_nativeHashes (dp (native_acknowledged slot f h w)) = dp_nativeHashes (dp w)"
  "dp_hashUpdatesPending (dp (native_acknowledged slot f h w)) = dp_hashUpdatesPending (dp w)"
  "client_stream L slot' (native_acknowledged slot f h w) = client_stream L slot' w"
  "update_record RQ f' h' (native_acknowledged slot f h w) = update_record RQ f' h' w"
proof -
  have "ld_engine (ld (native_acknowledged slot f h w)) = ld_engine (ld w)" by (simp add: native_acknowledged_def)
  then show "client_stream L slot' (native_acknowledged slot f h w) = client_stream L slot' w"
    "update_record RQ f' h' (native_acknowledged slot f h w) = update_record RQ f' h' w"
    unfolding client_stream_def update_record_def by (simp_all only:)
qed (simp_all add: native_acknowledged_def)

lemma native_acknowledged_view:
  "\<exists>n. native_acknowledged slot f h w = with_ld (\<lambda>l. l\<lparr>ld_nativeAcknowledgements := n\<rparr>) w"
proof -
  have "w = with_ld (\<lambda>l. l\<lparr>ld_nativeAcknowledgements := ld_nativeAcknowledgements (ld w)\<rparr>) w"
    by (simp add: with_ld_def with_rest_def)
  moreover have "with_ld (\<lambda>l. l\<lparr>ld_nativeAcknowledgements := ld_nativeAcknowledgements l + 1\<rparr>) w =
      with_ld (\<lambda>l. l\<lparr>ld_nativeAcknowledgements := ld_nativeAcknowledgements (ld w) + 1\<rparr>) w"
    by (simp add: with_ld_def with_rest_def)
  ultimately show ?thesis unfolding native_acknowledged_def by metis
qed

text \<open>The engine's own send does not enter into a failure.\<close>

lemma lua_dp_send [simp]: "lua_dp L (RQ\<lparr>rqe_sendOriginal := g\<rparr>) = lua_dp L RQ"
  by (simp add: lua_dp_def)

lemma update_send [simp]:
  "SendClientLuaHashUpdate W L (RQ\<lparr>rqe_sendOriginal := g\<rparr>) slot f h w = SendClientLuaHashUpdate W L RQ slot f h w"
proof -
  have sel: "rqe_updateStringTable (RQ\<lparr>rqe_sendOriginal := g\<rparr>) = rqe_updateStringTable RQ"
    "rqe_tableId (RQ\<lparr>rqe_sendOriginal := g\<rparr>) = rqe_tableId RQ" "rqe_tableBits (RQ\<lparr>rqe_sendOriginal := g\<rparr>) = rqe_tableBits RQ"
    "rqe_entryBits (RQ\<lparr>rqe_sendOriginal := g\<rparr>) = rqe_entryBits RQ"
    by simp_all
  show ?thesis unfolding SendClientLuaHashUpdate_def sel by (rule refl)
qed

lemma failure_sends_nothing:
  assumes "SendNativeLuaFile W S E L RQ slot f n luaFile w = (False, w')"
  shows "SendNativeLuaFile W S E L (RQ\<lparr>rqe_sendOriginal := g\<rparr>) slot f n luaFile w = (False, w')"
  using assms unfolding SendNativeLuaFile_def lua_dp_send update_send
  by (auto simp: Let_def split: prod.splits if_splits option.splits)

text \<open>The correcting update, if one is needed: sent to the client, or the send fails without a trace.\<close>

lemma update_if_needed:
  assumes "bit_writer W bits room" and "stream_laws (lua_dp L RQ)"
    and "(if \<not> match then SendClientLuaHashUpdate W L RQ slot f h (native_acknowledged slot f h w) else (True, native_acknowledged slot f h w)) =
      (sent, w3)"
  shows "ld_playerQueues (ld w3) = ld_playerQueues (ld w) \<and> dp_stubQueues (dp w3) = dp_stubQueues (dp w) \<and>
    dp_nativeHashes (dp w3) = dp_nativeHashes (dp w) \<and> dp_hashUpdatesPending (dp w3) = dp_hashUpdatesPending (dp w)"
    and "\<not> sent \<Longrightarrow> client_stream L s w3 = client_stream L s w"
    and "sent \<Longrightarrow> if match then client_stream L slot w3 = client_stream L slot w
      else \<exists>s s'. client_stream L slot w = Some s \<and> client_stream L slot w3 = Some s' \<and> appended W bits room s (update_record RQ f h w) s'"
proof -
  let ?w2 = "native_acknowledged slot f h w"
  have frame: "same_module ?w2 w3 \<and> (\<not> sent \<longrightarrow> client_stream L s w3 = client_stream L s ?w2) \<and>
    (sent \<longrightarrow> (if match then client_stream L slot w3 = client_stream L slot ?w2
      else \<exists>s s'. client_stream L slot ?w2 = Some s \<and> client_stream L slot w3 = Some s' \<and> appended W bits room s (update_record RQ f h ?w2) s'))"
  proof (cases match)
    case True
    then show ?thesis using assms(3) same_module_refl by auto
  next
    case False
    then have "SendClientLuaHashUpdate W L RQ slot f h ?w2 = (sent, w3)" using assms(3) by simp
    then show ?thesis
      using False update_sent [OF assms(1,2), of slot f h ?w2 w3] update_not_sent [OF assms(1,2), of slot f h ?w2 w3]
      by (cases sent) auto
  qed
  obtain k where k: "?w2 = with_ld (\<lambda>l. l\<lparr>ld_nativeAcknowledgements := k\<rparr>) w" using native_acknowledged_view by blast
  moreover obtain y where "w3 = with_ld (\<lambda>l. l\<lparr>ld_engine := y\<rparr>) ?w2" using frame unfolding same_module_def by blast
  ultimately show "ld_playerQueues (ld w3) = ld_playerQueues (ld w) \<and> dp_stubQueues (dp w3) = dp_stubQueues (dp w) \<and>
      dp_nativeHashes (dp w3) = dp_nativeHashes (dp w) \<and> dp_hashUpdatesPending (dp w3) = dp_hashUpdatesPending (dp w)"
    by simp
  show "\<not> sent \<Longrightarrow> client_stream L s w3 = client_stream L s w"
    "sent \<Longrightarrow> if match then client_stream L slot w3 = client_stream L slot w
      else \<exists>s s'. client_stream L slot w = Some s \<and> client_stream L slot w3 = Some s' \<and> appended W bits room s (update_record RQ f h w) s'"
    using frame by (auto simp: native_acknowledged_same split: if_splits)
qed

text \<open>The two ways out of a native delivery with a per-client identity.\<close>

lemma native_send:
  assumes "NeedsNativeHashUpdate E slot w = (True, w1)" and "\<not> IsInitFile n" and "GetNativeLuaHash S f luaFile w1 = Some h"
  obtains sent w3 where "(if \<not> LatestAdvertisedHashMatches (dp_nativeHashes (dp w1) slot) (dp_hashUpdatesPending (dp w1) slot) f h
      then SendClientLuaHashUpdate W L RQ slot f h (native_acknowledged slot f h w1) else (True, native_acknowledged slot f h w1)) = (sent, w3)"
    "SendNativeLuaFile W S E L RQ slot f n luaFile w =
      (if \<not> sent then (False, DisconnectLuaHashFailure E (lua_dp L RQ) slot n w3)
       else (True, rqe_sendOriginal RQ slot f (upd_slot_hashes slot (\<lambda>hashes. RememberNativeHash hashes f h)
              (\<lambda>pending. pending(f := None)) w3)))"
proof -
  obtain sent w3 where "(if \<not> LatestAdvertisedHashMatches (dp_nativeHashes (dp w1) slot) (dp_hashUpdatesPending (dp w1) slot) f h
      then SendClientLuaHashUpdate W L RQ slot f h (native_acknowledged slot f h w1) else (True, native_acknowledged slot f h w1)) = (sent, w3)"
    by (metis surj_pair)
  then show thesis
    using assms by (intro that [of sent w3]) (simp_all add: SendNativeLuaFile_def Let_def native_acknowledged_same)
qed

lemma native_failure:
  assumes "bit_writer W bits room" and "stream_laws (lua_dp L RQ)" and needs: "NeedsNativeHashUpdate E slot w = (True, w1)"
    and "\<not> IsInitFile n" and send: "SendNativeLuaFile W S E L RQ slot f n luaFile w = (False, w')"
  shows "\<exists>v. w' = DisconnectLuaHashFailure E (lua_dp L RQ) slot n v \<and>
    (\<forall>s. client_stream L s v = client_stream L s w) \<and> ld_playerQueues (ld v) = ld_playerQueues (ld w) \<and>
    dp_stubQueues (dp v) = dp_stubQueues (dp w) \<and>
    dp_nativeHashes (dp v) = dp_nativeHashes (dp w) \<and> dp_hashUpdatesPending (dp v) = dp_hashUpdatesPending (dp w)"
proof -
  have dp: "dp w1 = dp w" using Needs_engine [of E slot w] by (simp add: needs)
  have stream: "client_stream L s w1 = client_stream L s w" for s unfolding client_stream_def dp ..
  show ?thesis
  proof (cases "GetNativeLuaHash S f luaFile w1")
    case None
    then have "w' = DisconnectLuaHashFailure E (lua_dp L RQ) slot n w1"
      using assms(4) send needs by (simp add: SendNativeLuaFile_def)
    then show ?thesis by (intro exI [of _ w1]) (simp add: stream dp)
  next
    case (Some h)
    show ?thesis
    proof (rule native_send [OF needs assms(4) Some])
      fix sent w3
      assume u: "(if \<not> LatestAdvertisedHashMatches (dp_nativeHashes (dp w1) slot) (dp_hashUpdatesPending (dp w1) slot) f h
          then SendClientLuaHashUpdate W L RQ slot f h (native_acknowledged slot f h w1) else (True, native_acknowledged slot f h w1)) = (sent, w3)"
        and s: "SendNativeLuaFile W S E L RQ slot f n luaFile w =
          (if \<not> sent then (False, DisconnectLuaHashFailure E (lua_dp L RQ) slot n w3)
           else (True, rqe_sendOriginal RQ slot f (upd_slot_hashes slot (\<lambda>hashes. RememberNativeHash hashes f h)
              (\<lambda>pending. pending(f := None)) w3)))"
      then have "\<not> sent" "w' = DisconnectLuaHashFailure E (lua_dp L RQ) slot n w3" using send by (simp_all split: if_splits)
      then show ?thesis
        using update_if_needed(1,2) [OF assms(1,2) u] by (intro exI [of _ w3]) (simp add: stream dp)
    qed
  qed
qed

text \<open>C6.  A native body goes out only under the hash of its source.  When
  \<^verbatim>\<open>SendNativeLuaFile\<close> hands a file of a client with per-client identities to the engine,
  the client's recorded identity of the file is the SHA-256 of the source that is sent, no other
  identity is pending, no other file's identity has changed, and if the client had last been told
  anything else, the correcting update is in its reliable stream, in front of the body.  In every other
  case nothing is sent and the client is disconnected: up to the disconnect no client's stream, no
  queue of the fast transmission and no recorded or pending identity has changed, and the result is the
  same whatever the engine's own way of sending a file would do.\<close>

theorem native_body_has_its_hash:
  assumes "bit_writer W bits room" and "stream_laws (lua_dp L RQ)" and "ld_ok B S w"
    and "NeedsNativeHashUpdate E slot w = (True, w1)" and "\<not> IsInitFile n"
    and "SendNativeLuaFile W S E L RQ slot f n luaFile w = (ok, w')"
  shows "if ok
    then \<exists>h v src. w' = rqe_sendOriginal RQ slot f v \<and> h = HashClientLuaString S src \<and>
      (luaFile = Some src \<or> luaFile = None \<and> (\<exists>e. GetPackEntry f w = Some e \<and> le_hasSourceContent e \<and> src = le_sourceContent e)) \<and>
      dp_nativeHashes (dp v) = (dp_nativeHashes (dp w))(slot := (dp_nativeHashes (dp w) slot)(f \<mapsto> h)) \<and>
      dp_hashUpdatesPending (dp v) = (dp_hashUpdatesPending (dp w))(slot := (dp_hashUpdatesPending (dp w) slot)(f := None)) \<and>
      (if LatestAdvertisedHashMatches (dp_nativeHashes (dp w) slot) (dp_hashUpdatesPending (dp w) slot) f h
       then client_stream L slot v = client_stream L slot w
       else \<exists>s s'. client_stream L slot w = Some s \<and> client_stream L slot v = Some s' \<and>
              appended W bits room s (update_record RQ f h w) s')
    else (\<exists>v. w' = DisconnectLuaHashFailure E (lua_dp L RQ) slot n v \<and>
        (\<forall>s. client_stream L s v = client_stream L s w) \<and> ld_playerQueues (ld v) = ld_playerQueues (ld w) \<and>
        dp_stubQueues (dp v) = dp_stubQueues (dp w) \<and>
        dp_nativeHashes (dp v) = dp_nativeHashes (dp w) \<and> dp_hashUpdatesPending (dp v) = dp_hashUpdatesPending (dp w)) \<and>
      (\<forall>send. SendNativeLuaFile W S E L (RQ\<lparr>rqe_sendOriginal := send\<rparr>) slot f n luaFile w = (False, w'))"
proof (cases ok)
  case False
  then have "SendNativeLuaFile W S E L RQ slot f n luaFile w = (False, w')" using assms(6) by simp
  from native_failure [OF assms(1,2,4,5) this] failure_sends_nothing [OF this] show ?thesis
    unfolding if_not_P [OF False] by blast
next
  case True
  have dp: "dp w1 = dp w" using Needs_engine [of E slot w] by (simp add: assms(4))
  have stream: "client_stream L s w1 = client_stream L s w" "update_record RQ f h w1 = update_record RQ f h w" for s h
    unfolding client_stream_def update_record_def dp by (rule refl)+
  have entry: "GetPackEntry f w1 = GetPackEntry f w" unfolding GetPackEntry_def dp ..
  obtain h where h: "GetNativeLuaHash S f luaFile w1 = Some h"
    using True assms(4-6) by (cases "GetNativeLuaHash S f luaFile w1") (auto simp: SendNativeLuaFile_def)
  have "ld_ok B S w1" using assms(3) ld_ok_cong [of w1 w] dp by simp
  from GetNative_source [OF this h] obtain source where source: "h = HashClientLuaString S source" and
    "case luaFile of Some contents \<Rightarrow> source = contents
      | None \<Rightarrow> (\<exists>e. GetPackEntry f w = Some e \<and> le_hasSourceContent e \<and> source = le_sourceContent e)"
    unfolding entry by blast
  then have choice: "luaFile = Some source \<or>
      luaFile = None \<and> (\<exists>e. GetPackEntry f w = Some e \<and> le_hasSourceContent e \<and> source = le_sourceContent e)"
    by (cases luaFile) simp_all
  show ?thesis
  proof (rule native_send [OF assms(4,5) h])
    fix sent w3
    assume u: "(if \<not> LatestAdvertisedHashMatches (dp_nativeHashes (dp w1) slot) (dp_hashUpdatesPending (dp w1) slot) f h
        then SendClientLuaHashUpdate W L RQ slot f h (native_acknowledged slot f h w1) else (True, native_acknowledged slot f h w1)) = (sent, w3)"
    define v where "v = upd_slot_hashes slot (\<lambda>hashes. RememberNativeHash hashes f h) (\<lambda>pending. pending(f := None)) w3"
    assume "SendNativeLuaFile W S E L RQ slot f n luaFile w =
        (if \<not> sent then (False, DisconnectLuaHashFailure E (lua_dp L RQ) slot n w3)
         else (True, rqe_sendOriginal RQ slot f (upd_slot_hashes slot (\<lambda>hashes. RememberNativeHash hashes f h)
            (\<lambda>pending. pending(f := None)) w3)))"
    then have sent: "sent" "w' = rqe_sendOriginal RQ slot f v" using assms(6) True by (simp_all add: v_def split: if_splits)
    note w3 = update_if_needed(1,3) [OF assms(1,2) u, unfolded dp stream]
    have v: "dp_nativeHashes (dp v) = (dp_nativeHashes (dp w))(slot := (dp_nativeHashes (dp w) slot)(f \<mapsto> h))"
      "dp_hashUpdatesPending (dp v) = (dp_hashUpdatesPending (dp w))(slot := (dp_hashUpdatesPending (dp w) slot)(f := None))"
      "ld_engine (ld v) = ld_engine (ld w3)"
      using w3(1) by (simp_all add: v_def upd_slot_hashes_def RememberNativeHash_def)
    have vs: "client_stream L slot v = client_stream L slot w3" unfolding client_stream_def v(3) ..
    show ?thesis
      unfolding if_P [OF True]
      by (rule exI [of _ h], rule exI [of _ v], rule exI [of _ source], intro conjI)
        (fact sent(2) source choice v(1,2) w3(2) [OF sent(1), folded vs])+
  qed
qed

section \<open>A concrete request\<close>

text \<open>One active player on channel 5, whose reliable stream is a test writer of 4000 bits, and the file
\<^verbatim>\<open>a.lua\<close> as item 1 of the table.\<close>

definition req_lde :: "(u64 \<Rightarrow> TestBitWriter, TestBitWriter) LdEngine" where
  "req_lde =
     \<lparr>lde_client = (\<lambda>_ slot. if slot = 0 then Some \<lparr>se_client = 4, se_channel = Some 5, se_playerSlot = 0, se_userID = 1,
        se_clientChallenge = 7, se_signonState = 6, se_sendServerInfo = False, se_active = True, se_connected = True\<rparr> else None),
      lde_reliable = (\<lambda>y. y), lde_setReliable = (\<lambda>c s y. y(c := s)),
      lde_findString = (\<lambda>_ _. None), lde_addString = (\<lambda>_ items. (None, items)),
      lde_clientBootstrap = ''b'', lde_luaError = (\<lambda>_. Some ''error''), lde_tokenizeHook = (\<lambda>_ t. t),
      lde_undefined = (\<lambda>_. '''')\<rparr>"

definition req_eng :: "(u64 \<Rightarrow> TestBitWriter) LuaData Datapack Engine" where
  "req_eng =
     \<lparr>eng_playerLimit = 2, eng_signonConnected = 2, eng_time = (\<lambda>_. 0), eng_clientBySlot = (\<lambda>_ _. None),
      eng_supportsCanonical = (\<lambda>_. True), eng_fileExists = (\<lambda>_ _. True), eng_setSendServerInfo = (\<lambda>_ w. w),
      eng_sendServerInfo = (\<lambda>_ w. (True, w)), eng_reconnect = (\<lambda>_ w. w), eng_disconnect = (\<lambda>_ _ w. w)\<rparr>"

definition req_engine :: "(u64 \<Rightarrow> TestBitWriter, TestBitWriter, unit) RequestEngine" where
  "req_engine =
     \<lparr>rqe_supportsCanonical = (\<lambda>_. True), rqe_updateStringTable = 12, rqe_tableBits = 5, rqe_tableId = (\<lambda>_. 3),
      rqe_entryBits = (\<lambda>_. 13), rqe_fastNetworking = (\<lambda>_. False), rqe_buffer = (\<lambda>n. TestBitWriter_new (8 * n)),
      rqe_sendToClient = (\<lambda>_ _ w. w), rqe_sendOriginal = (\<lambda>_ _ w. w), rqe_probe = (),
      rqe_onFilesRequested = (\<lambda>_ _ _ w. w)\<rparr>"

definition req_world :: "(u64 \<Rightarrow> TestBitWriter) LdWorld" where
  "req_world =
     \<lparr>w_state = State_new\<lparr>st_clients := (\<lambda>_. ClientPin_new\<lparr>cp_requiredLane := True, cp_deliveryLaneResolved := True\<rparr>)\<rparr>,
      w_cvars = demo_cvars,
      w_engine = Datapack_new 2
        \<lparr>ld_entries = (\<lambda>_. LuaPackEntry_new), ld_compressQueue = [], ld_stringTableUpdateQueue = [], ld_refreshQueue = [],
         ld_refreshTargets = Map.empty, ld_forcedRefreshes = Map.empty, ld_refreshNextSlots = Map.empty,
         ld_refreshFailedSlots = Map.empty, ld_refreshRetryAfter = Map.empty,
         ld_table = Some [\<lparr>si_name = Some ''paths'', si_userData = None\<rparr>,
           \<lparr>si_name = Some ''a.lua'', si_userData = Some (replicate 32 9)\<rparr>],
         ld_playerQueues = (\<lambda>_. PlayerQueue_new), ld_registration = LuaPackRegistrationRefresh_new,
         ld_nativeAcknowledgements = 0, ld_canonicalAcknowledgements = 0, ld_probeSlot = - 1, ld_probeAccepted = False,
         ld_removeserverif = False, ld_removecomments = False, ld_engine = (\<lambda>_. TestBitWriter_new 4000)\<rparr>\<rparr>"

lemma req_laws: "stream_laws (lua_dp req_lde req_engine)" "ld_ok cache_bootil cache_hashes req_world"
proof -
  show "stream_laws (lua_dp req_lde req_engine)"
    by (auto simp: stream_laws_def req_lde_def split: if_splits)
  have "ld_reach cache_bootil cache_hashes req_eng req_lde (req_world, [])"
    by (rule ld_reach.start) (simp_all add: req_world_def Datapack_new_def)
  moreover have "table_laws req_lde" by (simp add: table_laws_def req_lde_def)
  ultimately show "ld_ok cache_bootil cache_hashes req_world"
    using ld_inv_reach cache_laws(2) by (force simp: ld_inv_def)
qed

lemma req_needs: "NeedsNativeHashUpdate req_eng 0 req_world = (True, req_world)"
  by (simp add: NeedsNativeHashUpdate_def ResolveDeliveryLane_def client_of_def req_world_def req_eng_def IsEnabled_def
      demo_cvars_def IsValidSlot_def SupportsCanonicalRegistration_def ClientLane_def ClientPin_new_def NeedsPerClientNativeHashes_def)

lemma req_update:
  assumes len: "length h = 32"
  shows "fst (SendClientLuaHashUpdate TestBitWriter_ops req_lde req_engine 0 1 h req_world)"
proof -
  have table: "ld_table (ld req_world) = Some [\<lparr>si_name = Some ''paths'', si_userData = None\<rparr>,
      \<lparr>si_name = Some ''a.lua'', si_userData = Some (replicate 32 9)\<rparr>]" "ld_engine (ld req_world) = (\<lambda>_. TestBitWriter_new 4000)"
    by (simp_all add: req_world_def Datapack_new_def)
  have args: "hash_wire_args 12 (int RequiredStubServiceTypeBits) 3 5 1 13 (Some h) (of_nat (length h))"
    by (simp add: hash_wire_args_def field_ok_def RequiredStubServiceTypeBits_def len)
  from tbw.hash_wire_accepted [OF args _ len, of "TestBitWriter_new 4000" 0] obtain s where
    "AppendClientLuaHashUpdateWire TestBitWriter_ops (TestBitWriter_new 4000) 12 (int RequiredStubServiceTypeBits) 3 5 1 13 (Some h)
       (of_nat (length h)) 0 = (True, s)"
    by (auto simp: TestBitWriter_ops_def TestBitWriter_new_def tbw_room_def RequiredStubServiceTypeBits_def)
  then show ?thesis by (simp add: SendClientLuaHashUpdate_def table len req_lde_def req_engine_def)
qed

lemma req_sent: "fst (SendNativeLuaFile TestBitWriter_ops cache_hashes req_eng req_lde req_engine 0 1 ''a.lua'' (Some ''x'') req_world)"
proof -
  have len: "length (HashClientLuaString cache_hashes ''x'') = 32" by (simp add: HashClientLuaString_def cache_hashes_def)
  have "GetPackEntry 1 req_world = Some LuaPackEntry_new"
    by (simp add: GetPackEntry_def req_world_def Datapack_new_def MAX_TRACKED_LUA_FILES_def)
  then have h: "GetNativeLuaHash cache_hashes 1 (Some ''x'') req_world = Some (HashClientLuaString cache_hashes ''x'')"
    by (simp add: GetNativeLuaHash_def LuaPackEntry_new_def)
  have "dp_nativeHashes (dp req_world) 0 = Map.empty" "dp_hashUpdatesPending (dp req_world) 0 = Map.empty"
    by (simp_all add: req_world_def Datapack_new_def)
  then have n: "native_acknowledged 0 1 h req_world = req_world"
    "\<not> LatestAdvertisedHashMatches (dp_nativeHashes (dp req_world) 0) (dp_hashUpdatesPending (dp req_world) 0) 1 h" for h
    by (simp_all add: native_acknowledged_def LatestAdvertisedHashMatches_def NativeHashMatches_def)
  show ?thesis
    using req_update [OF len] cache_not_init
    by (cases "SendClientLuaHashUpdate TestBitWriter_ops req_lde req_engine 0 1 (HashClientLuaString cache_hashes ''x'') req_world")
      (simp add: SendNativeLuaFile_def req_needs h n Let_def)
qed

theorem native_body_has_its_hash_witness:
  "let w' = snd (SendNativeLuaFile TestBitWriter_ops cache_hashes req_eng req_lde req_engine 0 1 ''a.lua'' (Some ''x'') req_world)
   in dp_nativeHashes (dp w') 0 1 = Some (HashClientLuaString cache_hashes ''x'') \<and>
      (\<exists>s. client_stream req_lde 0 w' = Some s \<and>
         tbw_bits s = update_record req_engine 1 (HashClientLuaString cache_hashes ''x'') req_world)"
proof -
  have told: "\<not> LatestAdvertisedHashMatches (dp_nativeHashes (dp req_world) 0) (dp_hashUpdatesPending (dp req_world) 0) 1 h" for h
    by (simp add: req_world_def Datapack_new_def LatestAdvertisedHashMatches_def NativeHashMatches_def)
  have empty: "client_stream req_lde 0 req_world = Some (TestBitWriter_new 4000)" "tbw_bits (TestBitWriter_new 4000) = []"
    by (simp_all add: client_stream_def req_lde_def req_world_def Datapack_new_def TestBitWriter_new_def)
  have original: "rqe_sendOriginal req_engine c f v = v" for c f v by (simp add: req_engine_def)
  show ?thesis
    using native_body_has_its_hash [OF tbw.bit_writer_axioms req_laws req_needs cache_not_init surjective_pairing, of 1 "Some ''x''"]
      told empty
    unfolding if_P [OF req_sent] original by (auto simp: appended_def)
qed

end
