(* ===== verification/LuaRegistration.thy ===== *)
theory LuaRegistration
  imports LuaBaseline
begin

text \<open>
  The registration sweep of \<^verbatim>\<open>CGModDataPackModule::Think\<close>: when the delivery mode changes,
  every file of the string table is registered again, a bounded number per frame, and baselines wait
  until the sweep is complete.
\<close>

section \<open>The record\<close>

definition LuaPackRegistrationRefresh_Begin :: "int \<Rightarrow> bool \<Rightarrow> real \<Rightarrow> LuaPackRegistrationRefresh" where
  "LuaPackRegistrationRefresh_Begin fileCount capture now =
     LuaPackRegistrationRefresh_new
       \<lparr>rr_active := True, rr_captureForMapBase := capture, rr_targetFileCount := max 0 fileCount,
        rr_nextFileID := uint (FirstClientLuaRegistration (of_int (max 0 fileCount))), rr_startedAt := now\<rparr>"

abbreviation registration :: "'y LdWorld \<Rightarrow> LuaPackRegistrationRefresh" where
  "registration w \<equiv> ld_registration (ld w)"

definition with_registration ::
  "(LuaPackRegistrationRefresh \<Rightarrow> LuaPackRegistrationRefresh) \<Rightarrow> 'y LdWorld \<Rightarrow> 'y LdWorld" where
  "with_registration f = with_ld (\<lambda>l. l\<lparr>ld_registration := f (ld_registration l)\<rparr>)"

section \<open>One file\<close>

text \<open>The source of a file: the shared cache, or else the entry.\<close>

definition refresh_source :: "'y BaselineEngine \<Rightarrow> int \<Rightarrow> string \<Rightarrow> 'y LdWorld \<Rightarrow> string option" where
  "refresh_source BE fileID fileName w =
     (case be_cachedSource BE (ld_engine (ld w)) fileName of
        Some source \<Rightarrow> Some source
      | None \<Rightarrow>
          (case GetPackEntry fileID w of
             None \<Rightarrow> None
           | Some entry \<Rightarrow> if le_hasSourceContent entry then Some (le_sourceContent entry) else None))"

text \<open>Registration under the sweep's mode: captured for the map base, added, published.\<close>

definition refresh_register ::
  "Hashes \<Rightarrow> 'y LuaData Datapack Engine \<Rightarrow> ('y, 'w) LdEngine \<Rightarrow> string \<Rightarrow> string \<Rightarrow> 'y LdWorld \<Rightarrow> 'y LdWorld" where
  "refresh_register S E L fileName source w =
     AddFileContents S E L fileName source False
       (if rr_captureForMapBase (registration w) then CaptureFileContents S E fileName source w else w)"

definition refresh_published :: "int \<Rightarrow> bool \<Rightarrow> 'y LdWorld \<Rightarrow> 'y LdWorld" where
  "refresh_published fileID initFile w =
     with_registration (\<lambda>r. r\<lparr>
         rr_pendingSourceHashFileIDs := rr_pendingSourceHashFileIDs r @
           (if rr_captureForMapBase r \<and>
               (case GetPackEntry fileID w of None \<Rightarrow> False
                | Some entry \<Rightarrow> le_hasSourceContent entry \<and> \<not> le_sourceHashReady entry)
            then [fileID] else []),
         rr_refreshed := rr_refreshed r + 1,
         rr_initRefreshed := rr_initRefreshed r \<or> initFile\<rparr>) w"

definition refreshFile ::
  "Hashes \<Rightarrow> 'y LuaData Datapack Engine \<Rightarrow> ('y, 'w) LdEngine \<Rightarrow> 'y BaselineEngine \<Rightarrow> int \<Rightarrow> 'y LdWorld
     \<Rightarrow> bool \<times> 'y LdWorld" where
  "refreshFile S E L BE fileID w =
     (case (case string_item fileID w of None \<Rightarrow> None | Some item \<Rightarrow> si_name item) of
        None \<Rightarrow> (True, w)
      | Some fileName \<Rightarrow>
          if fileName = '''' then (True, w)
          else
            (let initFile = IsInitFile fileName;
                 w1 = (if initFile then with_registration (\<lambda>r. r\<lparr>rr_registeredInitName := fileName\<rparr>) w else w)
             in case refresh_source BE fileID fileName w1 of
                  None \<Rightarrow> (False, w1)
                | Some source \<Rightarrow>
                    (case PublishRegistrationHash S E L fileID (refresh_register S E L fileName source w1) of
                       (published, w2) \<Rightarrow>
                         if \<not> published then (False, w2) else (True, refresh_published fileID initFile w2))))"

section \<open>The passes\<close>

text \<open>One iteration of the initial pass and one of a pass over the unresolved files.\<close>

definition initial_file ::
  "Hashes \<Rightarrow> 'y LuaData Datapack Engine \<Rightarrow> ('y, 'w) LdEngine \<Rightarrow> 'y BaselineEngine \<Rightarrow> int \<Rightarrow> 'y LdWorld \<Rightarrow> 'y LdWorld" where
  "initial_file S E L BE fileID w =
     (case refreshFile S E L BE fileID (with_registration (\<lambda>r. r\<lparr>rr_nextFileID := fileID + 1\<rparr>) w) of
        (ok, w1) \<Rightarrow>
          if ok then w1
          else with_registration (\<lambda>r. r\<lparr>rr_unresolvedFileIDs := rr_unresolvedFileIDs r @ [fileID]\<rparr>) w1)"

definition retry_file ::
  "Hashes \<Rightarrow> 'y LuaData Datapack Engine \<Rightarrow> ('y, 'w) LdEngine \<Rightarrow> 'y BaselineEngine \<Rightarrow> int \<Rightarrow> 'y LdWorld \<Rightarrow> 'y LdWorld" where
  "retry_file S E L BE fileID w =
     (case refreshFile S E L BE fileID (with_registration (\<lambda>r. r\<lparr>rr_nextUnresolved := rr_nextUnresolved r + 1\<rparr>) w) of
        (ok, w1) \<Rightarrow>
          if ok then w1
          else with_registration (\<lambda>r. r\<lparr>rr_retryFileIDs := rr_retryFileIDs r @ [fileID]\<rparr>) w1)"

definition refresh_budget :: "'y BaselineEngine \<Rightarrow> 'y LdWorld \<Rightarrow> size_t" where
  "refresh_budget BE w = of_int (max 1 (be_registrationBudget BE (ld_engine (ld w))))"

text \<open>The files a frame attempts, in order.\<close>

definition initial_files :: "'y BaselineEngine \<Rightarrow> 'y LdWorld \<Rightarrow> int list" where
  "initial_files BE w =
     (let r = registration w
      in [rr_nextFileID r .. uint (BoundedRegistrationRefreshEnd (of_int (rr_nextFileID r))
            (of_int (rr_targetFileCount r)) (refresh_budget BE w)) - 1])"

definition retry_files :: "'y BaselineEngine \<Rightarrow> 'y LdWorld \<Rightarrow> int list" where
  "retry_files BE w =
     (let r = registration w;
          end = unat (BoundedRegistrationRefreshEnd (of_nat (rr_nextUnresolved r))
            (of_nat (length (rr_unresolvedFileIDs r))) (refresh_budget BE w))
      in take (end - rr_nextUnresolved r) (drop (rr_nextUnresolved r) (rr_unresolvedFileIDs r)))"

definition refresh_pass ::
  "Hashes \<Rightarrow> 'y LuaData Datapack Engine \<Rightarrow> ('y, 'w) LdEngine \<Rightarrow> 'y BaselineEngine \<Rightarrow> 'y LdWorld \<Rightarrow> 'y LdWorld" where
  "refresh_pass S E L BE w =
     (if \<not> rr_initialPassComplete (registration w)
      then with_registration (\<lambda>r. r\<lparr>rr_initialPassComplete := rr_targetFileCount r \<le> rr_nextFileID r\<rparr>)
             (fold (initial_file S E L BE) (initial_files BE w) w)
      else if rr_unresolvedFileIDs (registration w) \<noteq> []
      then with_registration (\<lambda>r. if length (rr_unresolvedFileIDs r) \<le> rr_nextUnresolved r
               then r\<lparr>rr_unresolvedFileIDs := rr_retryFileIDs r, rr_retryFileIDs := [], rr_nextUnresolved := 0\<rparr> else r)
             (fold (retry_file S E L BE) (retry_files BE w) w)
      else w)"

text \<open>The init file through its canonical alias, and the warning.\<close>

definition refresh_init ::
  "Hashes \<Rightarrow> 'y LuaData Datapack Engine \<Rightarrow> ('y, 'w) LdEngine \<Rightarrow> 'y BaselineEngine \<Rightarrow> 'y LdWorld \<Rightarrow> 'y LdWorld" where
  "refresh_init S E L BE w =
     (if rr_initialPassComplete (registration w) \<and> \<not> rr_initRefreshed (registration w)
      then
        (let y = ld_engine (ld w);
             initAlias = (if be_cachedSource BE y ''includes/init.lua'' \<noteq> None then ''includes/init.lua''
                          else ''lua/includes/init.lua'')
         in case be_cachedSource BE y initAlias of
              None \<Rightarrow> w
            | Some contents \<Rightarrow>
                (let initPath = (if rr_registeredInitName (registration w) = '''' then be_cachedName BE y initAlias
                                 else rr_registeredInitName (registration w));
                     w1 = refresh_register S E L initPath contents w
                 in case (case ld_table (ld w1) of None \<Rightarrow> None | Some items \<Rightarrow> lde_findString L initPath items) of
                      None \<Rightarrow> with_registration (\<lambda>r. r\<lparr>rr_initRefreshed := False\<rparr>) w1
                    | Some initID \<Rightarrow>
                        (case PublishRegistrationHash S E L initID w1 of
                           (published, w2) \<Rightarrow> with_registration (\<lambda>r. r\<lparr>rr_initRefreshed := published\<rparr>) w2)))
      else w)"

definition refresh_warning :: "LuaPackRegistrationRefresh \<Rightarrow> LuaPackRegistrationRefresh" where
  "refresh_warning r =
     (if rr_initialPassComplete r \<and> (\<not> rr_initRefreshed r \<or> rr_unresolvedFileIDs r \<noteq> []) \<and> \<not> rr_waitingWarningEmitted r
      then r\<lparr>rr_waitingWarningEmitted := True\<rparr> else r)"

text \<open>The wait for the worker's source hashes.\<close>

definition source_hash_ready :: "'y LdWorld \<Rightarrow> int \<Rightarrow> bool" where
  "source_hash_ready w fileID \<longleftrightarrow>
     (case GetPackEntry fileID w of None \<Rightarrow> False
      | Some entry \<Rightarrow> le_hasSourceContent entry \<and> le_sourceHashReady entry)"

definition refresh_hashes :: "'y BaselineEngine \<Rightarrow> 'y LdWorld \<Rightarrow> 'y LdWorld" where
  "refresh_hashes BE w =
     with_registration (\<lambda>r.
       if rr_initialPassComplete r \<and> rr_initRefreshed r \<and> rr_unresolvedFileIDs r = [] \<and> rr_pendingSourceHashFileIDs r \<noteq> []
       then
         (let end = unat (BoundedRegistrationRefreshEnd (of_nat (rr_nextSourceHash r))
                (of_nat (length (rr_pendingSourceHashFileIDs r))) (refresh_budget BE w));
              checked = take (end - rr_nextSourceHash r) (drop (rr_nextSourceHash r) (rr_pendingSourceHashFileIDs r));
              r1 = r\<lparr>rr_nextSourceHash := max (rr_nextSourceHash r) end,
                     rr_retrySourceHashFileIDs := rr_retrySourceHashFileIDs r @
                       List.filter (\<lambda>fileID. \<not> source_hash_ready w fileID) checked\<rparr>
          in if length (rr_pendingSourceHashFileIDs r1) \<le> rr_nextSourceHash r1
             then r1\<lparr>rr_pendingSourceHashFileIDs := rr_retrySourceHashFileIDs r1, rr_retrySourceHashFileIDs := [],
                     rr_nextSourceHash := 0\<rparr>
             else r1)
       else r) w"

section \<open>A frame\<close>

definition refresh_complete :: "'y LdWorld \<Rightarrow> 'y LdWorld" where
  "refresh_complete w =
     (let r = registration w
      in if CanCompleteRegistrationRefresh (rr_initialPassComplete r) (rr_initRefreshed r)
              (of_nat (length (rr_unresolvedFileIDs r))) (of_nat (length (rr_pendingSourceHashFileIDs r)))
         then with_state CompleteRegistrationRefresh (with_registration (\<lambda>_. LuaPackRegistrationRefresh_new) w)
         else w)"

definition registration_frame ::
  "Hashes \<Rightarrow> 'y LuaData Datapack Engine \<Rightarrow> ('y, 'w) LdEngine \<Rightarrow> 'y BaselineEngine \<Rightarrow> 'y LdWorld \<Rightarrow> 'y LdWorld" where
  "registration_frame S E L BE w =
     (if rr_active (registration w) \<and> ld_table (ld w) \<noteq> None \<and> be_shared BE (ld_engine (ld w))
      then refresh_complete (refresh_hashes BE (with_registration refresh_warning (refresh_init S E L BE
             (refresh_pass S E L BE (with_registration (\<lambda>r. r\<lparr>rr_frames := rr_frames r + 1\<rparr>) w)))))
      else w)"

definition registration_begin ::
  "'y LuaData Datapack Engine \<Rightarrow> 'y BaselineEngine \<Rightarrow> 'y LdWorld \<Rightarrow> 'y LdWorld" where
  "registration_begin E BE w =
     (case ld_table (ld w) of
        None \<Rightarrow> w
      | Some items \<Rightarrow>
          if \<not> be_shared BE (ld_engine (ld w)) then w
          else
            (let (refresh, s) = ConsumeBootstrapRefresh (w_state w);
                 w1 = with_state (\<lambda>_. s) w
             in if refresh
                then with_registration (\<lambda>_. LuaPackRegistrationRefresh_Begin (int (length items)) (IsEnabled w1)
                       (eng_time E (dp w1))) w1
                else w1))"

end
