(* ===== verification/RegistrationSweep.thy ===== *)
theory RegistrationSweep
  imports LuaRegistration BaselineTable
begin

text \<open>
  What the registration sweep guarantees: when it is complete every file of the string table was
  registered again, in the delivery mode of the time, and its hash was published.
\<close>

section \<open>What the operations leave of the sweep's record\<close>

lemma Capture_engine [simp]:
  "w_engine (CaptureFileContents S E n c w) = w_engine w" "w_cvars (CaptureFileContents S E n c w) = w_cvars w"
  by (simp_all add: CaptureFileContents_def Let_def with_state_def)

lemma with_registration_simps [simp]:
  "registration (with_registration f w) = f (registration w)"
  "ld_table (ld (with_registration f w)) = ld_table (ld w)"
  "ld_entries (ld (with_registration f w)) = ld_entries (ld w)"
  "ld_engine (ld (with_registration f w)) = ld_engine (ld w)"
  "w_cvars (with_registration f w) = w_cvars w" "w_state (with_registration f w) = w_state w"
  by (simp_all add: with_registration_def)

lemma upd_entry_registration [simp]: "registration (upd_entry f g w) = registration w"
  by (simp add: upd_entry_def)

lemma Queue_registration [simp]: "ld_registration (QueueActiveHashRefresh E L f b t l) = ld_registration l"
  by (simp add: QueueActiveHashRefresh_def Let_def)

lemma set_user_data_registration [simp]: "registration (set_user_data f d w) = registration w"
  by (simp add: set_user_data_def)

lemma Publish_registration [simp]: "registration (PublishEntryHash E L f w) = registration w"
  by (simp add: PublishEntryHash_def Let_def)

lemma PublishRegistration_registration [simp]: "registration (snd (PublishRegistrationHash S E L f w)) = registration w"
  by (simp add: PublishRegistrationHash_def ProcessContent_entry Let_def)

lemma Add_registration [simp]: "registration (AddFileContents S E L n c force w) = registration w"
proof (cases "ld_table (ld w)")
  case (Some items)
  obtain found items' where "(case lde_findString L n items of Some i \<Rightarrow> (Some i, items) | None \<Rightarrow> lde_addString L n items) = (found, items')"
    by (metis surj_pair)
  then show ?thesis by (cases found) (simp_all add: AddFileContents_def Some Let_def)
qed (simp add: AddFileContents_def)

lemma refresh_register_registration [simp]: "registration (refresh_register S E L n c w) = registration w"
  by (simp add: refresh_register_def)

text \<open>The part of the record that says which files were attempted.\<close>

definition sweep_part :: "LuaPackRegistrationRefresh \<Rightarrow> bool \<times> int \<times> int \<times> bool \<times> int list \<times> int list \<times> nat" where
  "sweep_part r = (rr_active r, rr_targetFileCount r, rr_nextFileID r, rr_initialPassComplete r,
     rr_unresolvedFileIDs r, rr_retryFileIDs r, rr_nextUnresolved r)"

lemma refreshFile_part: "sweep_part (registration (snd (refreshFile S E L BE f w))) = sweep_part (registration w)"
proof -
  have p: "registration w2 = registration w1"
    if "PublishRegistrationHash S E L f (refresh_register S E L n c w1) = (b, w2)" for b n c and w1 w2 :: "'a LdWorld"
    using PublishRegistration_registration [of S E L f "refresh_register S E L n c w1"] that by simp
  show ?thesis
    by (auto simp: refreshFile_def sweep_part_def refresh_published_def Let_def split: option.split prod.split dest!: p)
qed

section \<open>A successful attempt\<close>

text \<open>
  An attempt that took \<open>w\<close> to \<open>w'\<close> settled the file: it has no name, or the table finds
  another ID under its name, or its entry now holds the source of the shared file cache, and where the
  cache has none the source it held before, and is processed for the current mode with its hash in
  the string table.
\<close>

definition settled ::
  "'y LuaData Datapack Engine \<Rightarrow> ('y, 'w) LdEngine \<Rightarrow> 'y BaselineEngine \<Rightarrow> int \<Rightarrow> 'y LdWorld \<Rightarrow> 'y LdWorld \<Rightarrow> bool" where
  "settled E L BE f w w' \<longleftrightarrow>
     (case file_name f w of
        None \<Rightarrow> True
      | Some n \<Rightarrow>
          n = '''' \<or> (\<exists>items. ld_table (ld w) = Some items \<and> lde_findString L n items \<noteq> Some f) \<or>
          (let before = ld_entries (ld w) f;
               e = ld_entries (ld w') f
           in (case be_cachedSource BE (ld_engine (ld w)) n of
                 Some source \<Rightarrow> le_sourceContent e = source
               | None \<Rightarrow> le_hasSourceContent before \<and> le_sourceContent e = le_sourceContent before) \<and>
              le_hasSourceContent e \<and> le_processed e \<and> le_hashPublished e \<and>
              user_data f w' = Some (le_contentHash e) \<and>
              RegistrationModeMatches (le_luapackCanonical e) (le_luapackPassthrough e)
                (IsEnabled w) (SupportsCanonicalRegistration E w)))"

text \<open>The fields of an entry that only a registration changes.\<close>

definition entry_mode :: "LuaPackEntry \<Rightarrow> (bool \<times> string) \<times> bool \<times> bool" where
  "entry_mode e = ((le_hasSourceContent e, le_sourceContent e), le_luapackCanonical e, le_luapackPassthrough e)"

lemma entry_mode_simps [simp]:
  "entry_mode (e\<lparr>le_hashPublished := a\<rparr>) = entry_mode e"
  "entry_mode (e\<lparr>le_activeHashRefreshPending := a\<rparr>) = entry_mode e"
  "entry_mode (e\<lparr>le_forceActiveHashRefreshPending := a\<rparr>) = entry_mode e"
  "entry_mode (e\<lparr>le_processed := a\<rparr>) = entry_mode e"
  "entry_mode (e\<lparr>le_content := c\<rparr>) = entry_mode e"
  "entry_mode (e\<lparr>le_contentHash := h\<rparr>) = entry_mode e"
  "entry_mode (e\<lparr>le_contentHashReady := a\<rparr>) = entry_mode e"
  "entry_mode (ensure_content_hash S e) = entry_mode e"
  "entry_mode (processed_entry S L f e) = entry_mode e"
  "entry_mode (snd (EnsureSourceHash S e)) = entry_mode e"
  by (simp_all add: entry_mode_def ensure_content_hash_def processed_entry_def EnsureSourceHash_def Let_def split: prod.split)

lemma entry_mode_replaced [simp]:
  "entry_mode (replaced_entry S source c a b enabled canonical force e) =
    ((True, source), canonical, UsesPassthroughProcessing enabled)"
  by (simp add: entry_mode_def replaced_entry_def Let_def)

lemma Publish_mode [simp]: "entry_mode (ld_entries (ld (PublishEntryHash E L f w)) g) = entry_mode (ld_entries (ld w) g)"
  using Publish_entry [of E L f w g] by auto

lemma PublishRegistration_mode [simp]:
  "entry_mode (ld_entries (ld (snd (PublishRegistrationHash S E L f w))) g) = entry_mode (ld_entries (ld w) g)"
  by (simp add: PublishRegistrationHash_def ProcessContent_entry Let_def)

lemma Add_mode:
  assumes "ld_table (ld w) = Some items" and "lde_findString L n items = Some f"
  shows "\<exists>canonical passthrough. entry_mode (ld_entries (ld (AddFileContents S E L n c force w)) f) = ((True, c), canonical, passthrough) \<and>
    RegistrationModeMatches canonical passthrough (IsEnabled w) (SupportsCanonicalRegistration E w)"
  using assms by (auto simp: AddFileContents_def Let_def) (auto simp: entry_mode_def RegistrationModeMatches_def)

text \<open>The last thing a registration that succeeds does is to publish the entry's hash.\<close>

lemma Add_cases:
  assumes "ld_table (ld w) = Some items" and "lde_findString L n items = Some f" and "registered w f"
  shows "(\<exists>v. AddFileContents S E L n c force w = PublishEntryHash E L f v \<and> registered v f \<and> le_processed (ld_entries (ld v) f)) \<or>
    (\<not> le_processed (ld_entries (ld (AddFileContents S E L n c force w)) f) \<and> registered (AddFileContents S E L n c force w) f)"
proof -
  let ?e = "ld_entries (ld w) f"
  let ?same = "le_hasSourceContent ?e \<and> le_sourceContent ?e = c \<and> le_processed ?e \<and>
      le_removeServerCode ?e = (ld_removeserverif (ld w) \<and> \<not> IsEnabled w) \<and>
      le_removeComments ?e = (ld_removecomments (ld w) \<and> \<not> IsEnabled w) \<and>
      RegistrationModeMatches (le_luapackCanonical ?e) (le_luapackPassthrough ?e) (IsEnabled w) (SupportsCanonicalRegistration E w)"
  let ?w0 = "with_ld (\<lambda>l. l\<lparr>ld_table := Some items\<rparr>) w"
  show ?thesis
  proof (cases ?same)
    case True
    let ?w1 = "if force then upd_entry f (\<lambda>e. (snd (EnsureSourceHash S e))\<lparr>le_activeHashRefreshPending := True,
        le_forceActiveHashRefreshPending := True\<rparr>) ?w0 else ?w0"
    have "AddFileContents S E L n c force w = PublishEntryHash E L f (upd_entry f (ensure_content_hash S) ?w1)"
      using True by (simp add: AddFileContents_def assms(1,2) Let_def IsContentReady_def)
    moreover have "registered (upd_entry f (ensure_content_hash S) ?w1) f"
      using assms(1,3) by (simp add: registered_def string_item_def)
    moreover have "le_processed (ld_entries (ld (upd_entry f (ensure_content_hash S) ?w1)) f)"
      using True by (simp add: ensure_content_hash_def EnsureSourceHash_def)
    ultimately show ?thesis by blast
  next
    case False
    then have "\<not> le_processed (ld_entries (ld (AddFileContents S E L n c force w)) f) \<and>
        registered (AddFileContents S E L n c force w) f"
      using assms by (auto simp: AddFileContents_def Let_def IsContentReady_def replaced_entry_def registered_def string_item_def)
    then show ?thesis by blast
  qed
qed

lemma Add_publishes:
  assumes "ld_table (ld w) = Some items" and "lde_findString L n items = Some f" and "registered w f"
    and "PublishRegistrationHash S E L f (AddFileContents S E L n c force w) = (True, w2)"
  shows "user_data f w2 = Some (le_contentHash (ld_entries (ld w2) f))"
proof -
  let ?v = "AddFileContents S E L n c force w"
  have "\<exists>v. w2 = PublishEntryHash E L f v \<and> registered v f"
  proof (cases "\<exists>v. ?v = PublishEntryHash E L f v \<and> registered v f \<and> le_processed (ld_entries (ld v) f)")
    case True
    then obtain v where v: "?v = PublishEntryHash E L f v" "registered v f" "le_processed (ld_entries (ld v) f)" by blast
    then have "IsContentReady (ld_entries (ld ?v) f) \<and> le_hashPublished (ld_entries (ld ?v) f)"
      by (simp add: Publish_effect(1) IsContentReady_def)
    then have "w2 = ?v" using assms(4) by (simp add: PublishRegistrationHash_def Let_def split: if_splits)
    then show ?thesis using v by blast
  next
    case False
    then have raw: "\<not> IsContentReady (ld_entries (ld ?v) f)" "registered ?v f"
      using Add_cases [OF assms(1-3), where S = S and E = E and c = c and force = force] unfolding IsContentReady_def by blast+
    let ?p = "PublishEntryHash E L f (upd_entry f (processed_entry S L f) ?v)"
    have r: "registered (upd_entry f (processed_entry S L f) ?v) f" using raw(2) by (simp add: registered_def string_item_def)
    then have "IsContentReady (ld_entries (ld ?p) f) \<and> le_hashPublished (ld_entries (ld ?p) f)"
      by (simp add: Publish_effect(1) IsContentReady_def) (simp add: processed_entry_def Let_def split: prod.split)
    then have "w2 = ?p"
      using assms(4) raw(1) by (simp add: PublishRegistrationHash_def ProcessContent_entry Let_def split: if_splits)
    then show ?thesis using r by blast
  qed
  then show ?thesis by (auto simp: user_data_def Publish_effect registered_def)
qed

lemma refreshFile_settles:
  assumes "refreshFile S E L BE f w = (True, w')" and "support_of_engine E"
    and "ld_table (ld w0) = ld_table (ld w)" and "ld_engine (ld w0) = ld_engine (ld w)" and "w_cvars w0 = w_cvars w"
    and "ld_entries (ld w0) = ld_entries (ld w)"
  shows "settled E L BE f w0 w'"
proof (cases "file_name f w")
  case None
  then show ?thesis using assms(3) by (simp add: settled_def file_name_def string_item_def)
next
  case (Some n)
  have name: "file_name f w0 = Some n" using Some assms(3) by (simp add: file_name_def string_item_def)
  let ?init = "IsInitFile n"
  let ?w1 = "if ?init then with_registration (\<lambda>r. r\<lparr>rr_registeredInitName := n\<rparr>) w else w"
  show ?thesis
  proof (cases "n = ''''")
    case False
    have eq: "(case refresh_source BE f n ?w1 of None \<Rightarrow> (False, ?w1)
        | Some source \<Rightarrow>
            (case PublishRegistrationHash S E L f (refresh_register S E L n source ?w1) of
               (published, w2) \<Rightarrow> if \<not> published then (False, w2) else (True, refresh_published f ?init w2))) = (True, w')"
      using assms(1) False Some by (simp add: refreshFile_def file_name_def Let_def)
    then obtain source where src: "refresh_source BE f n ?w1 = Some source" by (auto split: option.splits)
    then have source: "case be_cachedSource BE (ld_engine (ld w0)) n of
          Some s \<Rightarrow> source = s
        | None \<Rightarrow> le_hasSourceContent (ld_entries (ld w0) f) \<and> source = le_sourceContent (ld_entries (ld w0) f)"
      using assms(4,6) by (auto simp: refresh_source_def GetPackEntry_def split: option.splits if_splits)
    obtain p w2 where p: "PublishRegistrationHash S E L f (refresh_register S E L n source ?w1) = (p, w2)" by (metis surj_pair)
    have p': "p" "w' = refresh_published f ?init w2" using eq src p by (simp_all split: if_splits)
    show ?thesis
    proof (cases "\<exists>items. ld_table (ld w0) = Some items \<and> lde_findString L n items \<noteq> Some f")
      case True
      then show ?thesis by (simp add: settled_def name)
    next
      case find: False
      define wc where "wc = (if rr_captureForMapBase (registration ?w1) then CaptureFileContents S E n source ?w1 else ?w1)"
      have wc: "ld_table (ld wc) = ld_table (ld w0)" "ld_engine (ld wc) = ld_engine (ld w0)" "w_cvars wc = w_cvars w0"
        using assms(3-5) by (simp_all add: wc_def)
      have "file_name f w \<noteq> None" using Some by simp
      then obtain items where "ld_table (ld w0) = Some items"
        using assms(3) by (auto simp: file_name_def string_item_def split: option.splits)
      then have items: "ld_table (ld wc) = Some items" "lde_findString L n items = Some f" using find wc(1) by simp_all
      have r: "registered wc f" using name wc(1) by (auto simp: registered_def file_name_def string_item_def split: option.splits)
      have support: "SupportsCanonicalRegistration E wc = SupportsCanonicalRegistration E w0"
        using assms(2) wc(2) unfolding support_of_engine_def by blast
      have enabled: "IsEnabled wc = IsEnabled w0" using wc(3) by (simp add: IsEnabled_def)
      have reg: "refresh_register S E L n source ?w1 = AddFileContents S E L n source False wc"
        by (simp add: refresh_register_def wc_def)
      have w2: "PublishRegistrationHash S E L f (AddFileContents S E L n source False wc) = (True, w2)"
        using p p'(1) reg by simp
      have "entry_mode (ld_entries (ld w2) f) = entry_mode (ld_entries (ld (AddFileContents S E L n source False wc)) f)"
        using PublishRegistration_mode [of S E L f "AddFileContents S E L n source False wc" f] by (simp add: w2)
      then have mode: "le_hasSourceContent (ld_entries (ld w2) f)" "le_sourceContent (ld_entries (ld w2) f) = source"
        "RegistrationModeMatches (le_luapackCanonical (ld_entries (ld w2) f)) (le_luapackPassthrough (ld_entries (ld w2) f))
          (IsEnabled w0) (SupportsCanonicalRegistration E w0)"
        using Add_mode [OF items, where S = S and E = E and c = source and force = False]
        by (auto simp: entry_mode_def support enabled)
      have "le_processed (ld_entries (ld w2) f) \<and> le_hashPublished (ld_entries (ld w2) f)"
        using w2 by (auto simp: PublishRegistrationHash_def IsContentReady_def Let_def split: if_split_asm)
      moreover have "user_data f w' = Some (le_contentHash (ld_entries (ld w2) f))"
        using Add_publishes [OF items r w2] by (simp add: p'(2) refresh_published_def user_data_def string_item_def)
      moreover have "ld_entries (ld w') f = ld_entries (ld w2) f" by (simp add: p'(2) refresh_published_def)
      ultimately show ?thesis using mode source name unfolding settled_def Let_def by (simp split: option.splits)
    qed
  qed (simp add: settled_def name)
qed

section \<open>The attempts of a frame\<close>

lemma initial_file_attempt:
  assumes "support_of_engine E"
  shows "\<exists>ok. sweep_part (registration (initial_file S E L BE f w)) =
      sweep_part ((registration w)\<lparr>rr_nextFileID := f + 1,
        rr_unresolvedFileIDs := rr_unresolvedFileIDs (registration w) @ (if ok then [] else [f])\<rparr>) \<and>
    (ok \<longrightarrow> settled E L BE f w (initial_file S E L BE f w))"
proof -
  let ?w = "with_registration (\<lambda>r. r\<lparr>rr_nextFileID := f + 1\<rparr>) w"
  obtain ok w1 where r: "refreshFile S E L BE f ?w = (ok, w1)" by (metis surj_pair)
  have part: "sweep_part (registration w1) = sweep_part ((registration w)\<lparr>rr_nextFileID := f + 1\<rparr>)"
    using refreshFile_part [of S E L BE f ?w] unfolding r by simp
  have "ok \<Longrightarrow> settled E L BE f w w1"
    using refreshFile_settles [OF _ assms, of S L BE f ?w w1 w] r by simp
  moreover have "initial_file S E L BE f w =
      (if ok then w1 else with_registration (\<lambda>r. r\<lparr>rr_unresolvedFileIDs := rr_unresolvedFileIDs r @ [f]\<rparr>) w1)"
    unfolding initial_file_def r prod.case ..
  ultimately show ?thesis using part
    by (intro exI [of _ ok]) (auto simp: sweep_part_def)
qed

lemma retry_file_attempt:
  assumes "support_of_engine E"
  shows "\<exists>ok. sweep_part (registration (retry_file S E L BE f w)) =
      sweep_part ((registration w)\<lparr>rr_nextUnresolved := rr_nextUnresolved (registration w) + 1,
        rr_retryFileIDs := rr_retryFileIDs (registration w) @ (if ok then [] else [f])\<rparr>) \<and>
    (ok \<longrightarrow> settled E L BE f w (retry_file S E L BE f w))"
proof -
  let ?w = "with_registration (\<lambda>r. r\<lparr>rr_nextUnresolved := rr_nextUnresolved r + 1\<rparr>) w"
  obtain ok w1 where r: "refreshFile S E L BE f ?w = (ok, w1)" by (metis surj_pair)
  have part: "sweep_part (registration w1) = sweep_part ((registration w)\<lparr>rr_nextUnresolved := rr_nextUnresolved (registration w) + 1\<rparr>)"
    using refreshFile_part [of S E L BE f ?w] unfolding r by simp
  have "ok \<Longrightarrow> settled E L BE f w w1"
    using refreshFile_settles [OF _ assms, of S L BE f ?w w1 w] r by simp
  moreover have "retry_file S E L BE f w =
      (if ok then w1 else with_registration (\<lambda>r. r\<lparr>rr_retryFileIDs := rr_retryFileIDs r @ [f]\<rparr>) w1)"
    unfolding retry_file_def r prod.case ..
  ultimately show ?thesis using part
    by (intro exI [of _ ok]) (auto simp: sweep_part_def)
qed

text \<open>The worlds before and after every attempt of a pass.\<close>

primrec pass_moments :: "(int \<Rightarrow> 'a \<Rightarrow> 'a) \<Rightarrow> int list \<Rightarrow> 'a \<Rightarrow> (int \<times> 'a \<times> 'a) list" where
  "pass_moments attempt [] w = []"
| "pass_moments attempt (f # fs) w = (f, w, attempt f w) # pass_moments attempt fs (attempt f w)"

definition settled_files ::
  "'y LuaData Datapack Engine \<Rightarrow> ('y, 'w) LdEngine \<Rightarrow> 'y BaselineEngine \<Rightarrow> (int \<times> 'y LdWorld \<times> 'y LdWorld) list \<Rightarrow> int set" where
  "settled_files E L BE ms = {f. \<exists>w w'. (f, w, w') \<in> set ms \<and> settled E L BE f w w'}"

lemma settled_files_simps [simp]:
  "settled_files E L BE [] = {}"
  "settled_files E L BE ((f, w, w') # ms) = (if settled E L BE f w w' then insert f (settled_files E L BE ms) else settled_files E L BE ms)"
  by (auto simp: settled_files_def)

definition begin_frame :: "'y LdWorld \<Rightarrow> 'y LdWorld" where
  "begin_frame = with_registration (\<lambda>r. r\<lparr>rr_frames := rr_frames r + 1\<rparr>)"

definition frame_moments ::
  "Hashes \<Rightarrow> 'y LuaData Datapack Engine \<Rightarrow> ('y, 'w) LdEngine \<Rightarrow> 'y BaselineEngine \<Rightarrow> 'y LdWorld
     \<Rightarrow> (int \<times> 'y LdWorld \<times> 'y LdWorld) list" where
  "frame_moments S E L BE w =
     (let w1 = begin_frame w
      in if \<not> (rr_active (registration w) \<and> ld_table (ld w) \<noteq> None \<and> be_shared BE (ld_engine (ld w))) then []
         else if \<not> rr_initialPassComplete (registration w)
         then pass_moments (initial_file S E L BE) (initial_files BE w1) w1
         else pass_moments (retry_file S E L BE) (retry_files BE w1) w1)"

section \<open>The invariant\<close>

text \<open>
  \<open>G\<close> is the set of files some attempt has settled: of the files the cursor has passed, all others
  are waiting for a retry.
\<close>

definition waiting :: "LuaPackRegistrationRefresh \<Rightarrow> int set" where
  "waiting r = set (drop (rr_nextUnresolved r) (rr_unresolvedFileIDs r)) \<union> set (rr_retryFileIDs r)"

definition sweep_inv :: "int \<Rightarrow> int set \<Rightarrow> LuaPackRegistrationRefresh \<Rightarrow> bool" where
  "sweep_inv n G r \<longleftrightarrow>
     rr_targetFileCount r = n \<and> min 1 n \<le> rr_nextFileID r \<and> rr_nextFileID r \<le> n \<and>
     {1..<rr_nextFileID r} \<subseteq> G \<union> waiting r \<and>
     int (length (rr_unresolvedFileIDs r)) \<le> rr_nextFileID r \<and>
     length (rr_retryFileIDs r) \<le> rr_nextUnresolved r \<and>
     (if rr_initialPassComplete r
      then rr_nextFileID r = n \<and> rr_nextUnresolved r \<le> length (rr_unresolvedFileIDs r)
      else rr_nextUnresolved r = 0)"

lemma sweep_inv_part: "sweep_part r = sweep_part r' \<Longrightarrow> sweep_inv n G r = sweep_inv n G r'"
  by (simp add: sweep_part_def sweep_inv_def waiting_def)

lemma sweep_inv_initial:
  assumes "support_of_engine E" and "sweep_inv n G (registration w)" and "\<not> rr_initialPassComplete (registration w)"
    and "rr_nextFileID (registration w) = f" and "f < n" and "1 \<le> n"
  shows "sweep_inv n (G \<union> settled_files E L BE [(f, w, initial_file S E L BE f w)]) (registration (initial_file S E L BE f w))"
    and "\<not> rr_initialPassComplete (registration (initial_file S E L BE f w))"
    and "rr_nextFileID (registration (initial_file S E L BE f w)) = f + 1"
proof -
  obtain ok where p: "sweep_part (registration (initial_file S E L BE f w)) =
      sweep_part ((registration w)\<lparr>rr_nextFileID := f + 1,
        rr_unresolvedFileIDs := rr_unresolvedFileIDs (registration w) @ (if ok then [] else [f])\<rparr>)"
    and s: "ok \<longrightarrow> settled E L BE f w (initial_file S E L BE f w)"
    using initial_file_attempt [OF assms(1)] by blast
  have "1 \<le> f" using assms(2,4,6) by (simp add: sweep_inv_def)
  then have "{1..<f + 1} = insert f {1..<f}" by auto
  then show "sweep_inv n (G \<union> settled_files E L BE [(f, w, initial_file S E L BE f w)]) (registration (initial_file S E L BE f w))"
    unfolding sweep_inv_part [OF p] using assms(2-6) s by (auto simp: sweep_inv_def waiting_def)
  show "\<not> rr_initialPassComplete (registration (initial_file S E L BE f w))"
    "rr_nextFileID (registration (initial_file S E L BE f w)) = f + 1"
    using p assms(3) by (simp_all add: sweep_part_def)
qed

lemma sweep_inv_retry:
  assumes "support_of_engine E" and "sweep_inv n G (registration w)" and "rr_initialPassComplete (registration w)"
    and "drop (rr_nextUnresolved (registration w)) (rr_unresolvedFileIDs (registration w)) = f # rest"
  shows "sweep_inv n (G \<union> settled_files E L BE [(f, w, retry_file S E L BE f w)]) (registration (retry_file S E L BE f w))"
    and "rr_initialPassComplete (registration (retry_file S E L BE f w))"
    and "drop (rr_nextUnresolved (registration (retry_file S E L BE f w)))
      (rr_unresolvedFileIDs (registration (retry_file S E L BE f w))) = rest"
proof -
  obtain ok where p: "sweep_part (registration (retry_file S E L BE f w)) =
      sweep_part ((registration w)\<lparr>rr_nextUnresolved := rr_nextUnresolved (registration w) + 1,
        rr_retryFileIDs := rr_retryFileIDs (registration w) @ (if ok then [] else [f])\<rparr>)"
    and s: "ok \<longrightarrow> settled E L BE f w (retry_file S E L BE f w)"
    using retry_file_attempt [OF assms(1)] by blast
  have len: "rr_nextUnresolved (registration w) < length (rr_unresolvedFileIDs (registration w))"
    using arg_cong [OF assms(4), of length] by simp
  have rest: "drop (Suc (rr_nextUnresolved (registration w))) (rr_unresolvedFileIDs (registration w)) = rest"
    using arg_cong [OF assms(4), of tl] by (simp add: drop_Suc tl_drop)
  show "sweep_inv n (G \<union> settled_files E L BE [(f, w, retry_file S E L BE f w)]) (registration (retry_file S E L BE f w))"
    unfolding sweep_inv_part [OF p] using assms(2-4) s len rest by (auto simp: sweep_inv_def waiting_def)
  show "rr_initialPassComplete (registration (retry_file S E L BE f w))"
    "drop (rr_nextUnresolved (registration (retry_file S E L BE f w)))
      (rr_unresolvedFileIDs (registration (retry_file S E L BE f w))) = rest"
    using p assms(3) rest by (simp_all add: sweep_part_def)
qed

lemma initial_pass:
  assumes "support_of_engine E" and "1 \<le> n" and "b < n"
    and "sweep_inv n G (registration w)" and "\<not> rr_initialPassComplete (registration w)"
    and "rr_nextFileID (registration w) = a" and "a \<le> b + 1"
  shows "sweep_inv n (G \<union> settled_files E L BE (pass_moments (initial_file S E L BE) [a..b] w)) (registration (fold (initial_file S E L BE) [a..b] w)) \<and>
    \<not> rr_initialPassComplete (registration (fold (initial_file S E L BE) [a..b] w)) \<and> rr_nextFileID (registration (fold (initial_file S E L BE) [a..b] w)) = b + 1"
  using assms(4-7)
proof (induction "nat (b + 1 - a)" arbitrary: a w G)
  case 0
  then have "a = b + 1" by simp
  then show ?case using 0 by simp
next
  case (Suc m)
  then have ab: "a \<le> b" by simp
  let ?w = "initial_file S E L BE a w"
  have "a < n" using ab assms(3) by simp
  note step = sweep_inv_initial [OF assms(1) Suc.prems(1-3) this assms(2), where S = S and L = L and BE = BE]
  have "m = nat (b + 1 - (a + 1))" "a + 1 \<le> b + 1" using Suc.hyps(2) ab by simp_all
  from Suc.hyps(1) [OF this(1) step this(2)] show ?case
    by (cases "settled E L BE a w ?w") (simp_all add: upto_rec1 [OF ab] Un_assoc)
qed

lemma retry_pass:
  assumes "support_of_engine E" and "sweep_inv n G (registration w)" and "rr_initialPassComplete (registration w)"
    and "drop (rr_nextUnresolved (registration w)) (rr_unresolvedFileIDs (registration w)) = fs @ rest"
  shows "sweep_inv n (G \<union> settled_files E L BE (pass_moments (retry_file S E L BE) fs w)) (registration (fold (retry_file S E L BE) fs w)) \<and>
    rr_initialPassComplete (registration (fold (retry_file S E L BE) fs w))"
  using assms(2-4)
proof (induction fs arbitrary: w G)
  case (Cons f fs)
  from Cons.prems(3) have "drop (rr_nextUnresolved (registration w)) (rr_unresolvedFileIDs (registration w)) = f # (fs @ rest)"
    by simp
  note step = sweep_inv_retry [OF assms(1) Cons.prems(1,2) this, where S = S and L = L and BE = BE]
  from Cons.IH [OF step] show ?case
    by (cases "settled E L BE f w (retry_file S E L BE f w)") (simp_all add: Un_assoc)
qed simp

lemma begin_frame_simps [simp]:
  "sweep_part (registration (begin_frame w)) = sweep_part (registration w)"
  "rr_initialPassComplete (registration (begin_frame w)) = rr_initialPassComplete (registration w)"
  "rr_unresolvedFileIDs (registration (begin_frame w)) = rr_unresolvedFileIDs (registration w)"
  "rr_nextUnresolved (registration (begin_frame w)) = rr_nextUnresolved (registration w)"
  "rr_nextFileID (registration (begin_frame w)) = rr_nextFileID (registration w)"
  "rr_targetFileCount (registration (begin_frame w)) = rr_targetFileCount (registration w)"
  "rr_active (registration (begin_frame w)) = rr_active (registration w)"
  by (simp_all add: begin_frame_def sweep_part_def)

lemma sweep_end:
  assumes "0 \<le> i" and "i \<le> n" and "n < 2 ^ 31"
  shows "i \<le> uint (BoundedRegistrationRefreshEnd (of_int i) (of_int n) budget)"
    and "uint (BoundedRegistrationRefreshEnd (of_int i) (of_int n) budget) \<le> n"
proof -
  have u: "unat (of_int i :: size_t) = nat i" "unat (of_int n :: size_t) = nat n"
    using assms by (simp_all flip: of_nat_nat add: unat_of_nat_small)
  then have "unat (BoundedRegistrationRefreshEnd (of_int i) (of_int n) budget) = min (nat n) (nat i + unat budget)"
    using BoundedRegistrationRefreshEnd_unat [of "of_int i" "of_int n" budget] assms by simp
  then have "uint (BoundedRegistrationRefreshEnd (of_int i) (of_int n) budget) = int (min (nat n) (nat i + unat budget))"
    by (metis uint_nat)
  then show "i \<le> uint (BoundedRegistrationRefreshEnd (of_int i) (of_int n) budget)"
    "uint (BoundedRegistrationRefreshEnd (of_int i) (of_int n) budget) \<le> n"
    using assms by auto
qed

definition pass_of ::
  "Hashes \<Rightarrow> 'y LuaData Datapack Engine \<Rightarrow> ('y, 'w) LdEngine \<Rightarrow> 'y BaselineEngine \<Rightarrow> 'y LdWorld
     \<Rightarrow> (int \<times> 'y LdWorld \<times> 'y LdWorld) list" where
  "pass_of S E L BE w =
     (if \<not> rr_initialPassComplete (registration w)
      then pass_moments (initial_file S E L BE) (initial_files BE w) w
      else pass_moments (retry_file S E L BE) (retry_files BE w) w)"

lemma refresh_pass_inv:
  assumes "support_of_engine E" and "0 \<le> n" and "n < 2 ^ 31" and inv: "sweep_inv n G (registration w)"
  shows "sweep_inv n (G \<union> settled_files E L BE (pass_of S E L BE w)) (registration (refresh_pass S E L BE w))"
proof (cases "rr_initialPassComplete (registration w)")
  case False
  let ?i = "rr_nextFileID (registration w)"
  let ?e = "uint (BoundedRegistrationRefreshEnd (of_int ?i) (of_int n) (refresh_budget BE w))"
  have i: "min 1 n \<le> ?i" "?i \<le> n" "rr_targetFileCount (registration w) = n" using inv by (simp_all add: sweep_inv_def)
  then have e: "?i \<le> ?e" "?e \<le> n" using sweep_end [of ?i n] assms(2,3) by simp_all
  have files: "initial_files BE w = [?i..?e - 1]" by (simp add: initial_files_def i Let_def)
  let ?G = "G \<union> settled_files E L BE (pass_moments (initial_file S E L BE) [?i..?e - 1] w)"
  let ?w = "fold (initial_file S E L BE) [?i..?e - 1] w"
  have "sweep_inv n ?G (registration ?w) \<and> \<not> rr_initialPassComplete (registration ?w)"
  proof (cases "?i \<le> ?e - 1")
    case True
    then have "1 \<le> n" "?e - 1 < n" using i e by simp_all
    from initial_pass [OF assms(1) this inv False refl, where S = S and L = L and BE = BE] e(1) show ?thesis by simp
  next
    case empty: False
    then show ?thesis using inv False by simp
  qed
  then have "sweep_inv n ?G ((registration ?w)\<lparr>rr_initialPassComplete := rr_targetFileCount (registration ?w) \<le> rr_nextFileID (registration ?w)\<rparr>)"
    by (auto simp: sweep_inv_def waiting_def)
  then show ?thesis using False by (simp add: pass_of_def refresh_pass_def files)
next
  case True
  let ?fs = "retry_files BE w"
  let ?G = "G \<union> settled_files E L BE (pass_moments (retry_file S E L BE) ?fs w)"
  let ?w = "fold (retry_file S E L BE) ?fs w"
  have "\<exists>rest. drop (rr_nextUnresolved (registration w)) (rr_unresolvedFileIDs (registration w)) = ?fs @ rest"
    unfolding retry_files_def Let_def by (metis append_take_drop_id)
  then obtain rest where rest: "drop (rr_nextUnresolved (registration w)) (rr_unresolvedFileIDs (registration w)) = ?fs @ rest" ..
  have w: "sweep_inv n ?G (registration ?w)" "rr_initialPassComplete (registration ?w)"
    using retry_pass [OF assms(1) inv True rest] by blast+
  show ?thesis
  proof (cases "rr_unresolvedFileIDs (registration w) = []")
    case True
    then have "?fs = []" by (simp add: retry_files_def Let_def)
    then show ?thesis using \<open>rr_initialPassComplete (registration w)\<close> True inv by (simp add: pass_of_def refresh_pass_def)
  next
    case False
    have "sweep_inv n ?G (if length (rr_unresolvedFileIDs (registration ?w)) \<le> rr_nextUnresolved (registration ?w)
        then (registration ?w)\<lparr>rr_unresolvedFileIDs := rr_retryFileIDs (registration ?w), rr_retryFileIDs := [], rr_nextUnresolved := 0\<rparr>
        else registration ?w)"
      using w by (auto simp: sweep_inv_def waiting_def)
    then show ?thesis using \<open>rr_initialPassComplete (registration w)\<close> False by (simp add: pass_of_def refresh_pass_def)
  qed
qed

lemma refresh_init_part: "sweep_part (registration (refresh_init S E L BE w)) = sweep_part (registration w)"
proof -
  have p: "registration w2 = registration w1"
    if "PublishRegistrationHash S E L f w1 = (b, w2)" for b f and w1 w2 :: "'a LdWorld"
    using PublishRegistration_registration [of S E L f w1] that by simp
  show ?thesis
    by (auto simp: refresh_init_def sweep_part_def Let_def split: option.split prod.split dest!: p)
qed

lemma refresh_rest_part:
  "sweep_part (refresh_warning r) = sweep_part r"
  "sweep_part (registration (refresh_hashes BE w)) = sweep_part (registration w)"
  by (simp_all add: refresh_warning_def refresh_hashes_def sweep_part_def Let_def)

lemma refresh_complete_cases:
  assumes "sweep_inv n G (registration w)" and "n < 2 ^ 31"
  shows "rr_active (registration (refresh_complete w)) \<Longrightarrow> sweep_inv n G (registration (refresh_complete w))"
    and "\<lbrakk>rr_active (registration w); \<not> rr_active (registration (refresh_complete w))\<rbrakk> \<Longrightarrow> {1..<n} \<subseteq> G"
proof -
  let ?r = "registration w"
  let ?done = "CanCompleteRegistrationRefresh (rr_initialPassComplete ?r) (rr_initRefreshed ?r)
              (of_nat (length (rr_unresolvedFileIDs ?r))) (of_nat (length (rr_pendingSourceHashFileIDs ?r)))"
  have c: "registration (refresh_complete w) = (if ?done then LuaPackRegistrationRefresh_new else ?r)"
    by (simp add: refresh_complete_def Let_def with_state_def with_registration_def)
  show "rr_active (registration (refresh_complete w)) \<Longrightarrow> sweep_inv n G (registration (refresh_complete w))"
    using assms(1) unfolding c by (auto simp: LuaPackRegistrationRefresh_new_def split: if_splits)
  assume "rr_active ?r" "\<not> rr_active (registration (refresh_complete w))"
  then have ?done unfolding c by (auto split: if_splits)
  then have complete: "rr_initialPassComplete ?r" and zero: "(of_nat (length (rr_unresolvedFileIDs ?r)) :: size_t) = 0"
    by (simp_all add: CanCompleteRegistrationRefresh_def)
  have "length (rr_unresolvedFileIDs ?r) < 2 ^ 31" using assms by (auto simp: sweep_inv_def)
  then have "unat (of_nat (length (rr_unresolvedFileIDs ?r)) :: size_t) = length (rr_unresolvedFileIDs ?r)"
    by (intro unat_of_nat_small) simp
  then have "rr_unresolvedFileIDs ?r = []" using zero by simp
  then show "{1..<n} \<subseteq> G" using assms(1) complete by (auto simp: sweep_inv_def waiting_def)
qed

section \<open>Sweeps\<close>

lemma frame_inv:
  assumes "support_of_engine E" and "0 \<le> n" and "n < 2 ^ 31" and inv: "sweep_inv n G (registration w)"
  shows "rr_active (registration (registration_frame S E L BE w)) \<Longrightarrow>
      sweep_inv n (G \<union> settled_files E L BE (frame_moments S E L BE w)) (registration (registration_frame S E L BE w))"
    and "\<lbrakk>rr_active (registration w); \<not> rr_active (registration (registration_frame S E L BE w))\<rbrakk> \<Longrightarrow>
      {1..<n} \<subseteq> G \<union> settled_files E L BE (frame_moments S E L BE w)"
proof -
  let ?on = "rr_active (registration w) \<and> ld_table (ld w) \<noteq> None \<and> be_shared BE (ld_engine (ld w))"
  let ?w1 = "begin_frame w"
  let ?w2 = "refresh_pass S E L BE ?w1"
  let ?w5 = "refresh_hashes BE (with_registration refresh_warning (refresh_init S E L BE ?w2))"
  have "sweep_inv n G (registration ?w1)" using inv sweep_inv_part [OF begin_frame_simps(1)] by blast
  from refresh_pass_inv [OF assms(1-3) this]
  have "sweep_inv n (G \<union> settled_files E L BE (pass_of S E L BE ?w1)) (registration ?w2)" .
  then have w5: "sweep_inv n (G \<union> settled_files E L BE (pass_of S E L BE ?w1)) (registration ?w5)"
    using sweep_inv_part [of "registration ?w5" "registration ?w2"]
    by (simp add: refresh_rest_part refresh_init_part)
  have frame: "registration_frame S E L BE w = (if ?on then refresh_complete ?w5 else w)"
    by (simp only: registration_frame_def begin_frame_def)
  have moments: "frame_moments S E L BE w = (if ?on then pass_of S E L BE ?w1 else [])"
    by (simp add: frame_moments_def pass_of_def Let_def)
  have act: "rr_active (registration ?w5) = rr_active (registration w)"
  proof -
    have "fst (sweep_part (registration (fold (initial_file S E L BE) fs v))) = fst (sweep_part (registration v))" for fs v
    proof (induction fs arbitrary: v)
      case (Cons f fs)
      obtain ok where "sweep_part (registration (initial_file S E L BE f v)) =
          sweep_part ((registration v)\<lparr>rr_nextFileID := f + 1,
            rr_unresolvedFileIDs := rr_unresolvedFileIDs (registration v) @ (if ok then [] else [f])\<rparr>)"
        using initial_file_attempt [OF assms(1), where S = S and L = L and BE = BE] by blast
      then show ?case using Cons.IH [of "initial_file S E L BE f v"] by (simp add: sweep_part_def)
    qed simp
    moreover have "fst (sweep_part (registration (fold (retry_file S E L BE) fs v))) = fst (sweep_part (registration v))" for fs v
    proof (induction fs arbitrary: v)
      case (Cons f fs)
      obtain ok where "sweep_part (registration (retry_file S E L BE f v)) =
          sweep_part ((registration v)\<lparr>rr_nextUnresolved := rr_nextUnresolved (registration v) + 1,
            rr_retryFileIDs := rr_retryFileIDs (registration v) @ (if ok then [] else [f])\<rparr>)"
        using retry_file_attempt [OF assms(1), where S = S and L = L and BE = BE] by blast
      then show ?case using Cons.IH [of "retry_file S E L BE f v"] by (simp add: sweep_part_def)
    qed simp
    ultimately have "fst (sweep_part (registration ?w2)) = fst (sweep_part (registration ?w1))"
      by (simp add: refresh_pass_def) (simp add: sweep_part_def)
    then have "fst (sweep_part (registration ?w5)) = fst (sweep_part (registration w))"
      by (simp add: refresh_rest_part refresh_init_part)
    then show ?thesis by (simp add: sweep_part_def)
  qed
  note complete = refresh_complete_cases [OF w5 assms(3)]
  have on: "registration_frame S E L BE w = refresh_complete ?w5" "frame_moments S E L BE w = pass_of S E L BE ?w1" if ?on
    unfolding frame moments if_P [OF that] by (rule refl)+
  have off: "registration_frame S E L BE w = w" "frame_moments S E L BE w = []" if "\<not> ?on"
    unfolding frame moments if_not_P [OF that] by (rule refl)+
  show "rr_active (registration (registration_frame S E L BE w)) \<Longrightarrow>
      sweep_inv n (G \<union> settled_files E L BE (frame_moments S E L BE w)) (registration (registration_frame S E L BE w))"
  proof (cases ?on)
    case True
    show "rr_active (registration (registration_frame S E L BE w)) \<Longrightarrow> ?thesis" unfolding on [OF True] by (rule complete(1))
  next
    case False
    show ?thesis unfolding off [OF False] settled_files_simps Un_empty_right by (rule inv)
  qed
  assume a: "rr_active (registration w)" "\<not> rr_active (registration (registration_frame S E L BE w))"
  have ?on using a off(1) by force
  show "{1..<n} \<subseteq> G \<union> settled_files E L BE (frame_moments S E L BE w)"
    using a complete(2) act unfolding on [OF \<open>?on\<close>] by simp
qed

text \<open>
  A sweep over a table of \<open>n\<close> strings: started by \<^verbatim>\<open>Begin\<close>, then frames, and between
  them whatever else changes the world without touching the sweep's record.  The set collects the
  files some attempt has settled.
\<close>

inductive sweep ::
  "Hashes \<Rightarrow> 'y LuaData Datapack Engine \<Rightarrow> ('y, 'w) LdEngine \<Rightarrow> 'y BaselineEngine \<Rightarrow> int \<Rightarrow> 'y LdWorld \<Rightarrow> int set \<Rightarrow> bool"
  for S E L BE n where
  started: "registration w = LuaPackRegistrationRefresh_Begin n capture now \<Longrightarrow> sweep S E L BE n w {}"
| frame: "\<lbrakk>sweep S E L BE n w G; rr_active (registration (registration_frame S E L BE w))\<rbrakk> \<Longrightarrow>
    sweep S E L BE n (registration_frame S E L BE w) (G \<union> settled_files E L BE (frame_moments S E L BE w))"
| elsewhere: "\<lbrakk>sweep S E L BE n w G; registration w' = registration w\<rbrakk> \<Longrightarrow> sweep S E L BE n w' G"

lemma sweep_inv_begin:
  assumes "0 \<le> n" and "n < 2 ^ 31"
  shows "sweep_inv n {} (LuaPackRegistrationRefresh_Begin n capture now)"
proof -
  have "unat (of_int n :: size_t) = nat n" using assms by (simp flip: of_nat_nat add: unat_of_nat_small)
  then have "((of_int n :: size_t) = 0) = (n = 0)" using assms(1) by (metis nat_0_iff order_antisym unat_eq_0 order_refl)
  then show ?thesis using assms
    by (auto simp: sweep_inv_def LuaPackRegistrationRefresh_Begin_def LuaPackRegistrationRefresh_new_def
        FirstClientLuaRegistration_def waiting_def)
qed

lemma sweep_keeps:
  "\<lbrakk>sweep S E L BE n w G; support_of_engine E; 0 \<le> n; n < 2 ^ 31\<rbrakk> \<Longrightarrow> sweep_inv n G (registration w)"
proof (induction rule: sweep.induct)
  case (started w capture now)
  then show ?case using sweep_inv_begin by simp
next
  case (frame w G)
  then show ?case using frame_inv(1) by blast
next
  case (elsewhere w G w')
  then show ?case by simp
qed

text \<open>C24.  A complete sweep has registered every file.  When a frame ends the sweep, which releases
  the baselines that waited for it, each file of the table had been settled by one of its attempts:
  at that moment the shared file cache's source of the file, or where the cache has none the one its
  entry held, was its entry's source, processed for the delivery mode of that moment, and the string
  table carried its hash (or the file had no name of its own).  Files whose source was missing are
  tried again until they are; whatever else happens between the frames, none is forgotten.\<close>

theorem sweep_settles_every_file:
  assumes "sweep S E L BE n w G" and "rr_active (registration w)"
    and "\<not> rr_active (registration (registration_frame S E L BE w))"
    and "support_of_engine E" and "0 \<le> n" and "n < 2 ^ 31"
  shows "{1..<n} \<subseteq> G \<union> settled_files E L BE (frame_moments S E L BE w)"
  using frame_inv(2) [OF assms(4-6) sweep_keeps [OF assms(1,4-6)] assms(2,3)] .

section \<open>A concrete sweep\<close>

lemma PublishRegistration_ok:
  assumes "registered w f" and "GetPackEntry f w \<noteq> None"
  shows "fst (PublishRegistrationHash S E L f w)"
proof -
  have r: "registered (upd_entry f g w) f" for g using assms(1) by (simp add: registered_def string_item_def)
  show ?thesis
    using registered_table [OF assms(1)] assms
    by (auto simp: PublishRegistrationHash_def Let_def ProcessContent_entry Publish_effect(1) [OF r] Publish_effect(1) [OF assms(1)]
        IsContentReady_def processed_entry_def split: prod.split)
qed

lemma refreshFile_ok:
  assumes "file_name f w = Some n" and "n \<noteq> ''''"
    and "w1 = (if IsInitFile n then with_registration (\<lambda>r. r\<lparr>rr_registeredInitName := n\<rparr>) w else w)"
    and "refresh_source BE f n w1 = Some source"
    and "registered (refresh_register S E L n source w1) f" and "GetPackEntry f (refresh_register S E L n source w1) \<noteq> None"
  shows "\<exists>w2. refreshFile S E L BE f w = (True, refresh_published f (IsInitFile n) w2) \<and> registration w2 = registration w1"
proof -
  obtain w2 where p: "PublishRegistrationHash S E L f (refresh_register S E L n source w1) = (True, w2)"
    using PublishRegistration_ok [OF assms(5,6), of S E L] by (metis prod.collapse)
  have "registration w2 = registration w1"
    using PublishRegistration_registration [of S E L f "refresh_register S E L n source w1"] by (simp add: p)
  moreover have "refreshFile S E L BE f w = (True, refresh_published f (IsInitFile n) w2)"
    using assms(1,2,4) p unfolding assms(3)
    by (cases "IsInitFile n") (simp_all add: refreshFile_def file_name_def Let_def)
  ultimately show ?thesis by blast
qed

definition sweep_world :: "unit LdWorld" where
  "sweep_world = with_ld (\<lambda>l. l\<lparr>ld_table := Some [\<lparr>si_name = Some ''paths'', si_userData = None\<rparr>,
       \<lparr>si_name = Some ''includes/init.lua'', si_userData = None\<rparr>],
     ld_registration := LuaPackRegistrationRefresh_Begin 2 False 0\<rparr>) send_world"

lemma sweep_world_ok: "ld_ok cache_bootil cache_hashes (with_registration f sweep_world)"
proof -
  have "ld_reach cache_bootil cache_hashes cache_eng cache_lde (with_registration f sweep_world, [])"
    by (rule ld_reach.start) (simp_all add: with_registration_def sweep_world_def send_world_def cache_ld_def Datapack_new_def)
  from ld_inv_reach [OF this cache_laws] show ?thesis by (simp add: ld_inv_def)
qed

lemma sweep_world_attempt:
  assumes "w = with_registration g sweep_world" and "\<not> rr_captureForMapBase (registration w)"
  shows "\<exists>w2. refreshFile cache_hashes cache_eng cache_lde send_engine 1 w = (True, refresh_published 1 True w2) \<and>
    registration w2 = (registration w)\<lparr>rr_registeredInitName := ''includes/init.lua''\<rparr>"
proof -
  let ?n = "''includes/init.lua''"
  have init: "IsInitFile ?n" by code_simp
  let ?w1 = "with_registration (\<lambda>r. r\<lparr>rr_registeredInitName := ?n\<rparr>) w"
  have ok: "ld_ok cache_bootil cache_hashes ?w1"
    using sweep_world_ok [of "\<lambda>r. (g r)\<lparr>rr_registeredInitName := ?n\<rparr>"] by (simp add: assms(1) with_registration_def with_ld_def with_rest_def with_dp_def)
  have "registered ?w1 1" by (simp add: assms(1) registered_def string_item_def sweep_world_def)
  from registered_add [OF cache_laws(1) ok this]
  have "registered (refresh_register cache_hashes cache_eng cache_lde ?n ''x'' ?w1) 1"
    using assms(2) by (simp add: refresh_register_def)
  moreover have "GetPackEntry 1 (refresh_register cache_hashes cache_eng cache_lde ?n ''x'' ?w1) \<noteq> None"
    by (simp add: GetPackEntry_def MAX_TRACKED_LUA_FILES_def)
  moreover have "refresh_source send_engine 1 ?n ?w1 = Some ''x''" by (simp add: refresh_source_def send_engine_def)
  moreover have "file_name 1 w = Some ?n" by (simp add: assms(1) file_name_def string_item_def sweep_world_def)
  ultimately show ?thesis using refreshFile_ok [of 1 w ?n ?w1 send_engine "''x''"] init by simp
qed

lemma sweep_world_files: "initial_files send_engine (begin_frame sweep_world) = [1]"
  by (simp add: initial_files_def begin_frame_def sweep_world_def LuaPackRegistrationRefresh_Begin_def
      LuaPackRegistrationRefresh_new_def FirstClientLuaRegistration_def refresh_budget_def send_engine_def
      BoundedRegistrationRefreshEnd_def Let_def word_le_nat_alt)

lemma sweep_world_frame: "\<not> rr_active (registration (registration_frame cache_hashes cache_eng cache_lde send_engine sweep_world))"
proof -
  have begun: "registration sweep_world = LuaPackRegistrationRefresh_Begin 2 False 0" by (simp add: sweep_world_def)
  have on: "rr_active (registration sweep_world) \<and> ld_table (ld sweep_world) \<noteq> None \<and> be_shared send_engine (ld_engine (ld sweep_world))"
    by (simp add: begun LuaPackRegistrationRefresh_Begin_def) (simp add: sweep_world_def send_engine_def)
  let ?w = "begin_frame sweep_world"
  let ?v = "with_registration (\<lambda>r. r\<lparr>rr_nextFileID := 2\<rparr>) ?w"
  have "?v = with_registration (\<lambda>r. r\<lparr>rr_frames := rr_frames r + 1, rr_nextFileID := 2\<rparr>) sweep_world"
    by (simp add: begin_frame_def with_registration_def with_ld_def with_rest_def with_dp_def)
  from sweep_world_attempt [OF this] obtain w2 where a:
    "refreshFile cache_hashes cache_eng cache_lde send_engine 1 ?v = (True, refresh_published 1 True w2)"
    "registration w2 = (registration ?v)\<lparr>rr_registeredInitName := ''includes/init.lua''\<rparr>"
    by (auto simp: begun begin_frame_def LuaPackRegistrationRefresh_Begin_def LuaPackRegistrationRefresh_new_def)
  have pass: "refresh_pass cache_hashes cache_eng cache_lde send_engine ?w =
      with_registration (\<lambda>r. r\<lparr>rr_initialPassComplete := rr_targetFileCount r \<le> rr_nextFileID r\<rparr>) (refresh_published 1 True w2)"
    using a(1) by (simp add: refresh_pass_def sweep_world_files begun initial_file_def LuaPackRegistrationRefresh_Begin_def LuaPackRegistrationRefresh_new_def)
  define w3 where "w3 = refresh_pass cache_hashes cache_eng cache_lde send_engine ?w"
  have r: "rr_initialPassComplete (registration w3)" "rr_initRefreshed (registration w3)"
    "rr_unresolvedFileIDs (registration w3) = []" "rr_pendingSourceHashFileIDs (registration w3) = []"
    unfolding w3_def pass
    by (simp_all add: refresh_published_def a(2) begun begin_frame_def LuaPackRegistrationRefresh_Begin_def LuaPackRegistrationRefresh_new_def)
  have "refresh_init cache_hashes cache_eng cache_lde send_engine w3 = w3" using r by (simp add: refresh_init_def)
  then have "registration (registration_frame cache_hashes cache_eng cache_lde send_engine sweep_world) =
      registration (refresh_complete (refresh_hashes send_engine (with_registration refresh_warning w3)))"
    using on unfolding registration_frame_def begin_frame_def [symmetric] w3_def by simp
  moreover have "registration (refresh_complete (refresh_hashes send_engine (with_registration refresh_warning w3))) = LuaPackRegistrationRefresh_new"
    using r by (simp add: refresh_complete_def refresh_hashes_def refresh_warning_def CanCompleteRegistrationRefresh_def Let_def with_state_def)
  ultimately show ?thesis by (simp add: LuaPackRegistrationRefresh_new_def)
qed

lemma sweep_world_find: "lde_findString cache_lde ''includes/init.lua'' (the (ld_table (ld sweep_world))) = Some 1"
  by (simp add: sweep_world_def cache_lde_def)

theorem sweep_settles_every_file_witness:
  "\<exists>w'. (1, begin_frame sweep_world, w') \<in> set (frame_moments cache_hashes cache_eng cache_lde send_engine sweep_world) \<and>
     le_sourceContent (ld_entries (ld w') 1) = ''x'' \<and> le_hashPublished (ld_entries (ld w') 1)"
proof -
  let ?ms = "frame_moments cache_hashes cache_eng cache_lde send_engine sweep_world"
  have begun: "registration sweep_world = LuaPackRegistrationRefresh_Begin 2 False 0" by (simp add: sweep_world_def)
  then have "rr_active (registration sweep_world)" by (simp add: LuaPackRegistrationRefresh_Begin_def)
  from sweep_settles_every_file [OF sweep.started [OF begun] this sweep_world_frame send_support]
  have "1 \<in> settled_files cache_eng cache_lde send_engine ?ms" by (simp add: subset_iff)
  then obtain w w' where m: "(1, w, w') \<in> set ?ms" "settled cache_eng cache_lde send_engine 1 w w'"
    by (auto simp: settled_files_def)
  have w: "w = begin_frame sweep_world"
    using m(1) sweep_world_files
    by (auto simp: frame_moments_def begun LuaPackRegistrationRefresh_Begin_def LuaPackRegistrationRefresh_new_def Let_def
        split: if_splits)
  have "file_name 1 w = Some ''includes/init.lua''"
    by (simp add: w begin_frame_def file_name_def string_item_def sweep_world_def)
  moreover have "ld_table (ld w) = ld_table (ld sweep_world)" "be_cachedSource send_engine (ld_engine (ld w)) ''includes/init.lua'' = Some ''x''"
    by (simp_all add: w begin_frame_def send_engine_def)
  ultimately have "le_sourceContent (ld_entries (ld w') 1) = ''x'' \<and> le_hashPublished (ld_entries (ld w') 1)"
    using m(2) sweep_world_find by (auto simp: settled_def Let_def)
  then show ?thesis using m(1) w by blast
qed

end
