(* ===== verification/RequestSafety.thy ===== *)
theory RequestSafety
  imports RequestDelivery RegistrationSweep
begin

text \<open>
  Whatever a client asks for, the cache stays well formed; and a file the client must get as a
  placeholder is never sent in another form.
\<close>

section \<open>What a request leaves of the module\<close>

lemma enqueue_rest [simp]: "dp_rest (snd (EnqueuePinnedRequiredStub E slot f d)) = dp_rest d"
  by (auto simp: EnqueuePinnedRequiredStub_def upd_queue_def Let_def split: prod.split RequiredStubEnqueueResult.split)

lemma Record_engine [simp]: "w_engine (snd (RecordPinnedRequiredStubForClient E slot w)) = w_engine w"
  by (simp add: RecordPinnedRequiredStubForClient_def Let_def set_client_def with_state_def)

lemma FileBaseline_engine [simp]: "w_engine (snd (DecideFileBaselineForClient E slot path w)) = w_engine w"
  by (simp add: DecideFileBaselineForClient_def Let_def)

lemma DecideDelivery_engine [simp]: "w_engine (snd (DecideDeliveryForClient E slot path bytes w)) = w_engine w"
  by (auto simp: DecideDeliveryForClient_def Let_def with_state_def split: prod.split option.split)
    (metis FileBaseline_engine Resolve_cvars(2) snd_conv Record_engine)+

text \<open>The parts of the cache that \<open>ld_ok\<close> speaks of.\<close>

lemma ld_ok_view:
  assumes "ld_entries (ld w') = ld_entries (ld w)" "ld_table (ld w') = ld_table (ld w)"
    "ld_compressQueue (ld w') = ld_compressQueue (ld w)" "ld_stringTableUpdateQueue (ld w') = ld_stringTableUpdateQueue (ld w)"
  shows "ld_ok B S w' = ld_ok B S w"
  using assms by (simp add: ld_ok_def user_data_def registered_def string_item_def)

text \<open>The engine's own handlers leave the cache well formed.\<close>

definition request_engine_keeps ::
  "Bootil \<Rightarrow> Hashes \<Rightarrow> 'y LuaData Datapack Engine \<Rightarrow> ('y, 'w, 'r) RequestEngine \<Rightarrow> bool" where
  "request_engine_keeps B S E RQ \<longleftrightarrow>
     (\<forall>slot reason w. ld_ok B S w \<longrightarrow> ld_ok B S (eng_disconnect E slot reason w)) \<and>
     (\<forall>slot msg w. ld_ok B S w \<longrightarrow> ld_ok B S (rqe_sendToClient RQ slot msg w)) \<and>
     (\<forall>slot f w. ld_ok B S w \<longrightarrow> ld_ok B S (rqe_sendOriginal RQ slot f w)) \<and>
     (\<forall>slot message bits w. ld_ok B S w \<longrightarrow> ld_ok B S (rqe_onFilesRequested RQ slot message bits w))"

lemma ld_ok_fail:
  "\<lbrakk>request_engine_keeps B S E RQ; ld_ok B S w\<rbrakk> \<Longrightarrow> ld_ok B S (DisconnectLuaHashFailure E X slot n w)"
  by (simp add: DisconnectLuaHashFailure_def request_engine_keeps_def split: option.split)

lemma ld_ok_reject:
  assumes "request_engine_keeps B S E RQ" and "ld_ok B S w"
  shows "ld_ok B S (DisconnectRequiredClient E slot w)"
proof -
  have "ld_ok B S (set_client slot f w) = ld_ok B S w" for f
    by (rule ld_ok_cong) (simp add: set_client_def with_state_def)
  then show ?thesis
    using assms by (simp add: DisconnectRequiredClient_def request_engine_keeps_def Let_def split: option.split)
qed

lemma ld_ok_with_dp:
  "(\<And>d. dp_rest (f d) = dp_rest d) \<Longrightarrow> ld_ok B S (with_dp f w) = ld_ok B S w"
  by (rule ld_ok_cong) simp

lemma ld_ok_upd_hashes [simp]: "ld_ok B S (upd_slot_hashes slot f g w) = ld_ok B S w"
  unfolding upd_slot_hashes_def by (rule ld_ok_with_dp) simp

lemma ld_ok_counted [simp]: "ld_ok B S (batch_counted slot n w) = ld_ok B S w" "ld_ok B S (batch_timed slot t w) = ld_ok B S w"
  unfolding batch_counted_def batch_timed_def by (rule ld_ok_with_dp, simp add: upd_queue_def)+

lemma ld_ok_engine [simp]: "ld_ok B S (with_ld (\<lambda>l. l\<lparr>ld_engine := f l\<rparr>) w) = ld_ok B S w"
  by (rule ld_ok_view) simp_all

lemma ld_ok_update [simp]: "ld_ok B S (snd (SendClientLuaHashUpdate W L RQ slot f h w)) = ld_ok B S w"
  by (auto simp: SendClientLuaHashUpdate_def Let_def split: option.split bool.split prod.split)

lemma ld_ok_updated: "SendClientLuaHashUpdate W L RQ slot f h w = (b, w') \<Longrightarrow> ld_ok B S w' = ld_ok B S w"
  using ld_ok_update [of B S W L RQ slot f h w] by simp

lemma ld_ok_acknowledged [simp]: "ld_ok B S (native_acknowledged slot f h w) = ld_ok B S w"
  by (rule ld_ok_view) (simp_all add: native_acknowledged_def)

lemma ld_ok_stub [simp]: "ld_ok B S (snd (AppendCanonicalLuaStub W L RQ slot f c w)) = ld_ok B S w"
  by (rule ld_ok_view) (auto simp: AppendCanonicalLuaStub_def AppendCanonicalLuaStubToChannel_def Let_def split: prod.split option.split)

section \<open>A well-formed cache stays well formed\<close>

lemma ld_ok_native:
  assumes keeps: "request_engine_keeps B S E RQ" and "ld_ok B S w"
  shows "ld_ok B S (snd (SendNativeLuaFile W S E L RQ slot f n luaFile w))"
proof -
  obtain needs w1 where nd: "NeedsNativeHashUpdate E slot w = (needs, w1)" by (metis surj_pair)
  have w1: "ld_ok B S w1" using assms(2) Needs_engine(1) [of E slot w] ld_ok_cong [of w1 w] by (simp add: nd)
  have original: "ld_ok B S v \<Longrightarrow> ld_ok B S (rqe_sendOriginal RQ slot f v)" for v
    using keeps by (simp add: request_engine_keeps_def)
  note fail = ld_ok_fail [OF keeps]
  show ?thesis
  proof (cases "needs \<and> \<not> IsInitFile n")
    case False
    then show ?thesis
      using w1 original by (cases needs; cases "IsInitFile n") (simp_all add: SendNativeLuaFile_def nd Let_def)
  next
    case True
    show ?thesis
    proof (cases "GetNativeLuaHash S f luaFile w1")
      case None
      then show ?thesis using True w1 fail by (simp add: SendNativeLuaFile_def nd)
    next
      case (Some h)
      define w2 where "w2 = native_acknowledged slot f h w1"
      define known where "known = LatestAdvertisedHashMatches (dp_nativeHashes (dp w2) slot) (dp_hashUpdatesPending (dp w2) slot) f h"
      obtain sent w3 where s: "(if \<not> known then SendClientLuaHashUpdate W L RQ slot f h w2 else (True, w2)) = (sent, w3)"
        by (metis surj_pair)
      have "ld_ok B S w3" using w1 s by (cases known) (auto simp: w2_def ld_ok_updated)
      then show ?thesis
        using True original fail
        unfolding SendNativeLuaFile_def nd Let_def prod.case Some option.case w2_def [symmetric] known_def [symmetric] s by auto
    qed
  qed
qed

lemma ld_ok_request_stub:
  assumes keeps: "request_engine_keeps B S E RQ" and "ld_ok B S w"
  shows "ld_ok B S (request_stub W E L RQ slot f n c w)"
proof -
  have restore: "ld_ok B S (snd (restore_canonical W L RQ slot f c w))"
  proof -
    define known where "known = (dp_nativeHashes (dp w) slot f \<noteq> None)"
    define active where "active = (case lde_client L (ld_engine (ld w)) slot of None \<Rightarrow> False | Some client \<Rightarrow> se_active client)"
    define matches where "matches = (dp_hashUpdatesPending (dp w) slot f = Some (take 32 c))"
    define w1 where "w1 = (if matches
      then with_ld (\<lambda>l. l\<lparr>ld_canonicalAcknowledgements := ld_canonicalAcknowledgements l + 1\<rparr>) w else w)"
    have w1: "ld_ok B S w1" unfolding w1_def using assms(2) by (subst ld_ok_view) simp_all
    obtain sent w2 where s: "(if NeedsOrderedCanonicalHash active known matches
        then SendClientLuaHashUpdate W L RQ slot f (take 32 c) w1 else (True, w1)) = (sent, w2)" by (metis surj_pair)
    have "ld_ok B S w2" using w1 s by (cases "NeedsOrderedCanonicalHash active known matches") (simp_all add: ld_ok_updated)
    then show ?thesis
      unfolding restore_canonical_def Let_def known_def [symmetric] active_def [symmetric] matches_def [symmetric] w1_def [symmetric] s
      by simp
  qed
  obtain r w1 where r: "(if IsValidSlot E slot then restore_canonical W L RQ slot f c w else (True, w)) = (r, w1)" by (metis surj_pair)
  have w1: "ld_ok B S w1" using restore assms(2) r by (auto split: if_splits)
  obtain a w2 where a: "AppendCanonicalLuaStub W L RQ slot f c w1 = (a, w2)" by (metis surj_pair)
  have w2: "ld_ok B S w2" using ld_ok_stub [of B S W L RQ slot f c w1] w1 by (simp add: a)
  show ?thesis
    using assms(2) w1 w2 ld_ok_fail [OF keeps] by (auto simp: request_stub_def Let_def r a)
qed

lemma ld_ok_send:
  assumes "request_engine_keeps B S E RQ" and "ld_ok B S w"
  shows "ld_ok B S (SendLuaFile W E RQ slot f e fast w)"
proof -
  have "ld_ok B S (with_ld (\<lambda>l. l\<lparr>ld_playerQueues := q l\<rparr>) w)" for q
    using assms(2) by (subst ld_ok_view) simp_all
  then show ?thesis
    using assms by (simp add: SendLuaFile_def SendCompressedLuaFile_def request_engine_keeps_def Let_def)
qed

text \<open>Compressing an entry that was processed.\<close>

lemma entry_ok_CompressFile:
  assumes "entry_ok B S e" and "IsContentReady e" and "\<not> IsReady e"
  shows "entry_ok B S (snd (CompressFile B S e))"
    and "le_hashPublished (snd (CompressFile B S e)) \<Longrightarrow>
      le_hashPublished e \<and> le_contentHash (snd (CompressFile B S e)) = le_contentHash e"
proof -
  have e: "entry_ok B S (snd (EnsureSourceHash S e))" by (rule entry_ok_source [OF assms(1)])
  have p: "le_processed (snd (EnsureSourceHash S e))" using assms(2) by (simp add: IsContentReady_def)
  have r: "\<not> IsReady (snd (EnsureSourceHash S e))" using assms(3) by simp
  note c = entry_ok_Compress [OF e p r]
  show "entry_ok B S (snd (CompressFile B S e))" using c(1) by (simp add: CompressFile_def)
  assume "le_hashPublished (snd (CompressFile B S e))"
  then show "le_hashPublished e \<and> le_contentHash (snd (CompressFile B S e)) = le_contentHash e"
    using c(2,3) by (simp add: CompressFile_def)
qed

lemma ready_process: "IsReady (ld_entries (ld (ProcessContent S E L True f w)) f) = IsReady (ld_entries (ld w) f)"
proof -
  have p: "IsReady (processed_entry S L f e) = IsReady e" for e
    by (auto simp: processed_entry_def IsReady_def Let_def split: prod.split)
  have "IsReady (ld_entries (ld (PublishEntryHash E L f v)) f) = IsReady (ld_entries (ld v) f)" for v :: "'a LdWorld"
    using Publish_entry [of E L f v f] by (auto simp: IsReady_def)
  then show ?thesis by (simp add: ProcessContent_entry Let_def p)
qed

lemma ld_ok_cached:
  assumes keeps: "request_engine_keeps B S E RQ" and "ld_ok B S w" and "registered w f"
  shows "ld_ok B S (request_cached W B S E L RQ slot f n contents w)"
proof (cases "IsReady (ld_entries (ld w) f)")
  case True
  then show ?thesis using ld_ok_send [OF keeps assms(2)] by (simp add: request_cached_def)
next
  case False
  define w1 where "w1 = (if \<not> IsContentReady (ld_entries (ld w) f) then ProcessContent S E L True f w else w)"
  define c where "c = (if IsContentReady (ld_entries (ld w1) f) then CompressFile B S (ld_entries (ld w1) f) else (False, ld_entries (ld w1) f))"
  have w1: "ld_ok B S w1"
    using assms(2,3) by (auto simp: w1_def IsContentReady_def intro: ld_ok_process)
  have e: "entry_ok B S (ld_entries (ld w1) f)" using w1 by (simp add: ld_ok_def)
  show ?thesis
  proof (cases "IsReady (ld_entries (ld w1) f)")
    case True
    have "IsReady (ld_entries (ld w1) f) = IsReady (ld_entries (ld w) f)"
      by (simp add: w1_def ready_process)
    then show ?thesis using True \<open>\<not> IsReady (ld_entries (ld w) f)\<close> by simp
  next
    case unready: False
    have w2: "ld_ok B S (upd_entry f (\<lambda>_. snd c) w1)"
      using e unready entry_ok_CompressFile [OF e _ unready]
      by (intro ld_ok_entry [OF w1]) (auto simp: c_def)
    obtain compressed entry where ce: "c = (compressed, entry)" by (metis surj_pair)
    show ?thesis
      using False w2 ld_ok_send [OF keeps w2] ld_ok_native [OF keeps w2]
      unfolding request_cached_def Let_def w1_def [symmetric] c_def [symmetric] ce by simp
  qed
qed

lemma ld_ok_mode:
  assumes laws: "table_laws L" "hash_laws S" and ok: "ld_ok B S w" and reg: "registered w f"
  shows "ld_ok B S (snd (RefreshRegistrationModeForRequest S E L f n luaFile w))"
    and "registered (snd (RefreshRegistrationModeForRequest S E L f n luaFile w)) f"
proof -
  have cap: "ld_ok B S (if b then CaptureFileContents S E n c w else w)"
    "registered (if b then CaptureFileContents S E n c w else w) f" for b c
    using ok reg by (simp_all add: ld_ok_cong [of "CaptureFileContents S E n c w" w] registered_def string_item_def)
  have add: "ld_ok B S (AddFileContents S E L n c False (if b then CaptureFileContents S E n c w else w))"
    "registered (AddFileContents S E L n c False (if b then CaptureFileContents S E n c w else w)) f" for b c
    using ld_ok_add [OF laws cap(1), where E = E and n = n and c = c and force = False]
      registered_add [OF laws(1) cap, where E = E and n = n and c = c and force = False] by blast+
  have pub: "registered (snd (PublishRegistrationHash S E L f v)) f" if "registered v f" for v
    by (simp add: registration_keeps that)
  let ?published = "\<lambda>v. snd (PublishRegistrationHash S E L f v)"
  have p: "ld_ok B S (?published v) \<and> registered (?published v) f" if "ld_ok B S v" "registered v f" for v
    using ld_ok_registration [OF that] pub [OF that(2)] by blast
  have stale: "ld_ok B S (?published (AddFileContents S E L n c False (CaptureFileContents S E n c w))) \<and>
      registered (?published (AddFileContents S E L n c False (CaptureFileContents S E n c w))) f"
    "ld_ok B S (?published (AddFileContents S E L n c False w)) \<and> registered (?published (AddFileContents S E L n c False w)) f" for c
    using p [OF add(1) [where b = True] add(2) [where b = True]] p [OF add(1) [where b = False] add(2) [where b = False]] by simp_all
  have "ld_ok B S (snd (RefreshRegistrationModeForRequest S E L f n luaFile w)) \<and>
      registered (snd (RefreshRegistrationModeForRequest S E L f n luaFile w)) f"
    using ok reg p [OF ok reg] stale by (simp add: RefreshRegistrationModeForRequest_def Let_def split: option.split)
  then show "ld_ok B S (snd (RefreshRegistrationModeForRequest S E L f n luaFile w))"
    "registered (snd (RefreshRegistrationModeForRequest S E L f n luaFile w)) f" by blast+
qed

lemma ld_ok_decided:
  assumes keeps: "request_engine_keeps B S E RQ" and ok: "ld_ok B S w" and "registered w f"
  shows "ld_ok B S (request_decided W B S E L RQ slot f n luaFile delivery w)"
proof -
  note fail = ld_ok_fail [OF keeps ok] and native = ld_ok_native [OF keeps ok] and stub = ld_ok_request_stub [OF keeps ok]
    and cached = ld_ok_cached [OF keeps ok assms(3)] and reject = ld_ok_reject [OF keeps ok]
  show ?thesis
    by (cases luaFile) (simp_all add: request_decided_def Let_def ok fail native stub cached reject)
qed

lemma ld_ok_enqueue:
  assumes keeps: "request_engine_keeps B S E RQ" and ok: "ld_ok B S w"
  shows "ld_ok B S (snd (enqueue_pinned E L RQ slot f w))"
proof -
  obtain q d where e: "EnqueuePinnedRequiredStub E slot f (dp w) = (q, d)" by (metis surj_pair)
  have "dp_rest d = dp_rest (dp w)" using enqueue_rest [of E slot f "dp w"] by (simp add: e)
  then have w1: "ld_ok B S (with_dp (\<lambda>_. d) w)" using ok ld_ok_cong [of "with_dp (\<lambda>_. d) w" w] by simp
  then show ?thesis using ld_ok_fail [OF keeps w1] by (auto simp: enqueue_pinned_def e Let_def)
qed

lemma ld_ok_hook:
  assumes laws: "table_laws L" "hash_laws S" and keeps: "request_engine_keeps B S E RQ" and ok: "ld_ok B S w"
  shows "ld_ok B S (hook_GModDataPack_SendFileToClient W B S E L BE RQ slot f w)"
proof -
  have probe: "ld_ok B S (with_ld (\<lambda>l. l\<lparr>ld_probeAccepted := True\<rparr>) w)" using ok by (subst ld_ok_view) simp_all
  show ?thesis
  proof (cases "ld_probeSlot (ld w) = slot \<or> ld_table (ld w) = None \<or> f \<le> 0 \<or> \<not> registered w f \<or> pinned_usable E slot f w")
    case True
    then show ?thesis
      using ok probe ld_ok_enqueue [OF keeps ok]
      by (auto simp: hook_GModDataPack_SendFileToClient_def registered_def string_item_def split: option.splits if_splits)
  next
    case False
    then have reg: "registered w f" by simp
    obtain items where items: "ld_table (ld w) = Some items" using False by auto
    let ?n = "request_name f w" and ?luaFile = "be_cachedSource BE (ld_engine (ld w)) (request_name f w)"
    obtain ready w1 where m: "RefreshRegistrationModeForRequest S E L f ?n ?luaFile w = (ready, w1)" by (metis surj_pair)
    have w1: "ld_ok B S w1" "registered w1 f"
      using ld_ok_mode [OF laws ok reg, where E = E and n = ?n and luaFile = ?luaFile] by (simp_all add: m)
    obtain delivery w2 where d: "DecideDeliveryForClient E slot ?n
        (of_nat (case ?luaFile of None \<Rightarrow> 0 | Some contents \<Rightarrow> length contents)) w1 = (delivery, w2)" by (metis surj_pair)
    have "w_engine w2 = w_engine w1" using DecideDelivery_engine [of E slot ?n _ w1] d by (metis snd_conv)
    then have w2: "ld_ok B S w2" "registered w2 f"
      using w1 ld_ok_cong [of w2 w1] by (simp_all add: registered_def string_item_def)
    note decided = ld_ok_decided [OF keeps w2, where W = W and L = L and slot = slot and n = ?n and luaFile = ?luaFile and delivery = delivery]
    show ?thesis
      using False ok decided ld_ok_fail [OF keeps w1(1)]
      unfolding hook_GModDataPack_SendFileToClient_def Let_def items option.case m d prod.case by auto
  qed
qed

lemma ld_ok_serve:
  assumes "table_laws L" "hash_laws S" and keeps: "request_engine_keeps B S E RQ" and "ld_ok B S w"
  shows "ld_ok B S (serve_batch W B S E L BE RQ slot requested files w)"
  using assms(4)
proof (induction files arbitrary: w)
  case (Cons f files)
  obtain queued w1 where q: "enqueue_pinned E L RQ slot f w = (queued, w1)" by (metis surj_pair)
  have w1: "ld_ok B S w1"
    using ld_ok_enqueue [OF keeps Cons.prems, where L = L and slot = slot and f = f] by (simp add: q)
  note hook = ld_ok_hook [OF assms(1,2) keeps Cons.prems, where W = W and BE = BE and slot = slot and f = f]
  show ?case using Cons.prems Cons.IH [OF Cons.prems] Cons.IH [OF hook] Cons.IH [OF w1] w1 by (simp add: q)
qed simp

lemma ld_ok_probe:
  assumes "request_engine_keeps B S E RQ" and "ld_ok B S w"
  shows "ld_ok B S (snd (probe_allowance RQ slot w))"
proof -
  have set: "ld_ok B S (with_ld (\<lambda>l. l\<lparr>ld_probeSlot := a, ld_probeAccepted := b\<rparr>) v) = ld_ok B S v"
    "ld_ok B S (with_ld (\<lambda>l. l\<lparr>ld_probeAccepted := b, ld_probeSlot := a\<rparr>) v) = ld_ok B S v" for a b and v :: "'a LdWorld"
    by (rule ld_ok_view; simp)+
  show ?thesis
    unfolding probe_allowance_def Let_def snd_conv set using assms by (simp add: request_engine_keeps_def set)
qed

text \<open>C25.  No request breaks the cache.  Whatever file ID a client asks for, and whatever bytes a
  batch of requests holds, afterwards every entry of the cache still satisfies its type: hashes are
  those of the contents they stand for, a published hash is the one in the string table, a compressed
  body starts with the hash of its contents, and both work queues hold registered files only.\<close>

theorem requests_keep_cache_well_formed:
  assumes "table_laws L" and "hash_laws S" and "request_engine_keeps B S E RQ" and "ld_ok B S w"
  shows "ld_ok B S (hook_GModDataPack_SendFileToClient W B S E L BE RQ slot f w) \<and>
    ld_ok B S (hook_GModDataPack_OnFilesRequested W R B S E L BE RQ slot message bits w)"
proof
  note hook = ld_ok_hook [OF assms] and fail = ld_ok_fail [OF assms(3)] and serve = ld_ok_serve [OF assms(1-3)]
    and probe = ld_ok_probe [OF assms(3,4)]
  have original: "ld_ok B S (rqe_onFilesRequested RQ slot message bits w)" using assms(3,4) by (simp add: request_engine_keeps_def)
  show "ld_ok B S (hook_GModDataPack_SendFileToClient W B S E L BE RQ slot f w)" by (rule hook)
  show "ld_ok B S (hook_GModDataPack_OnFilesRequested W R B S E L BE RQ slot message bits w)"
  proof (cases "\<exists>items r. ld_table (ld w) = Some items \<and> message = Some r")
    case False
    then show ?thesis
      using original by (auto simp: hook_GModDataPack_OnFilesRequested_def split: option.split)
  next
    case True
    then obtain items r where m: "ld_table (ld w) = Some items" "message = Some r" by blast
    obtain accepted w1 where p: "probe_allowance RQ slot w = (accepted, w1)" by (metis surj_pair)
    have w1: "ld_ok B S w1" using probe [of slot] by (simp add: p)
    obtain decoded r' requested n where d: "DecodeRequiredRequestIds R r bits (int (length items))
        (PinnedCanonicalFileSet_new MAX_TRACKED_LUA_FILES) = (decoded, r', requested, n)" by (metis prod_cases4)
    have served: "ld_ok B S (serve_batch W B S E L BE RQ slot requested files (batch_counted slot n w1))" for files
      by (rule serve) (simp add: w1)
    show ?thesis
      unfolding hook_GModDataPack_OnFilesRequested_def m prod.case option.case Let_def p d
      using original [unfolded m] w1 served by (simp add: fail [OF w1])
  qed
qed

lemma req_keeps: "request_engine_keeps cache_bootil cache_hashes req_eng req_engine"
  by (simp add: request_engine_keeps_def req_eng_def req_engine_def)

definition req_baseline :: "(u64 \<Rightarrow> TestBitWriter) BaselineEngine" where
  "req_baseline =
     \<lparr>be_items = (\<lambda>_. True), be_cachedSource = (\<lambda>_ _. Some ''x''), be_maxBits = (\<lambda>_ _. 8 * 70000),
      be_bitsWritten = (\<lambda>_ _. 0), be_setMaxBufferSize = (\<lambda>_ _ y. y), be_sendServerInfo = (\<lambda>_ w. (True, w)),
      be_requiredStubBudget = (\<lambda>_. 1), be_serverInfoBudget = (\<lambda>_. 1), be_parked = (\<lambda>_ _. False),
      be_shared = (\<lambda>_. True), be_cachedName = (\<lambda>_ n. n), be_registrationBudget = (\<lambda>_. 1)\<rparr>"

theorem requests_keep_cache_well_formed_witness:
  "ld_ok cache_bootil cache_hashes (hook_GModDataPack_SendFileToClient TestBitWriter_ops cache_bootil cache_hashes
     req_eng req_lde req_baseline req_engine 0 1 req_world)"
proof -
  have "table_laws req_lde" by (simp add: table_laws_def req_lde_def)
  from requests_keep_cache_well_formed [OF this cache_laws(2) req_keeps req_laws(2)] show ?thesis by blast
qed

section \<open>Required clients get placeholders only\<close>

lemma Publish_world [simp]: "w_state (PublishEntryHash E L f w) = w_state w" "w_state (upd_entry f g w) = w_state w"
  "w_cvars (upd_entry f g w) = w_cvars w" "w_state (set_user_data f d w) = w_state w"
  by (simp_all add: PublishEntryHash_def Let_def upd_entry_def set_user_data_def)

lemma PublishRegistration_world [simp]:
  "w_state (snd (PublishRegistrationHash S E L f w)) = w_state w"
  "w_cvars (snd (PublishRegistrationHash S E L f w)) = w_cvars w"
  by (simp_all add: PublishRegistrationHash_def ProcessContent_entry Let_def)

lemma Add_world [simp]:
  "w_state (AddFileContents S E L n c force w) = w_state w" "w_cvars (AddFileContents S E L n c force w) = w_cvars w"
proof -
  have "w_state (AddFileContents S E L n c force w) = w_state w \<and> w_cvars (AddFileContents S E L n c force w) = w_cvars w"
  proof (cases "ld_table (ld w)")
    case (Some items)
    obtain found items' where "(case lde_findString L n items of Some i \<Rightarrow> (Some i, items) | None \<Rightarrow> lde_addString L n items) = (found, items')"
      by (metis surj_pair)
    then show ?thesis by (cases found) (simp_all add: AddFileContents_def Some Let_def)
  qed (simp add: AddFileContents_def)
  then show "w_state (AddFileContents S E L n c force w) = w_state w" "w_cvars (AddFileContents S E L n c force w) = w_cvars w" by blast+
qed

lemma Capture_clients [simp]: "client_of (CaptureFileContents S E n c w) = client_of w"
  by (auto simp: CaptureFileContents_def Let_def client_of_def fun_eq_iff)

lemma mode_frame:
  "client_of (snd (RefreshRegistrationModeForRequest S E L f n luaFile w)) = client_of w"
  "IsEnabled (snd (RefreshRegistrationModeForRequest S E L f n luaFile w)) = IsEnabled w"
proof -
  have a: "client_of (snd (PublishRegistrationHash S E L f v)) = client_of v"
    "client_of (AddFileContents S E L n c force v) = client_of v" for v :: "'a LdWorld" and c force
    by (simp_all add: client_of_def fun_eq_iff)
  show "client_of (snd (RefreshRegistrationModeForRequest S E L f n luaFile w)) = client_of w"
    by (simp add: RefreshRegistrationModeForRequest_def Let_def a split: option.split)
  show "IsEnabled (snd (RefreshRegistrationModeForRequest S E L f n luaFile w)) = IsEnabled w"
    by (simp add: RefreshRegistrationModeForRequest_def Let_def IsEnabled_def split: option.split)
qed

text \<open>On the required lane a file of the pinned base is a placeholder or a rejection.\<close>

lemma required_decision:
  assumes "IsEnabled w" and "IsValidSlot E slot" and lane: "cp_deliveryLaneResolved (client_of w slot)"
    "ClientLane (client_of w slot) = RequiredLane" and "\<not> native_for w slot path"
    and d: "DecideDeliveryForClient E slot path bytes w = (delivery, w')"
  shows "dd_action delivery = DaStub \<and> dd_compressed delivery \<noteq> None \<or> dd_action delivery = DaReject"
proof -
  have r: "ResolveDeliveryLane E slot w = w" using lane(1) by (simp add: ResolveDeliveryLane_def)
  note spec = DecideFileBaseline_spec [OF assms(1,2) refl, of path, unfolded r]
  obtain fb w2 where fb: "DecideFileBaselineForClient E slot path w = (fb, w2)" by (metis surj_pair)
  have "bd_action fb = BaReject \<or> bd_action fb = BaCanonicalStub"
    using spec(2) lane(2) assms(5) by (auto simp: fb delivery_spec_def)
  then show ?thesis
    using d assms(1,2) by (auto simp: DecideDeliveryForClient_def Let_def r fb reject_delivery_def split: option.splits)
qed

text \<open>C5.  A client in the required lane gets no source.  When such a client asks for a file of its
  pinned base that is not a native delta, the module's answer does not depend on the ways a body could
  go out: neither the engine's own \<^verbatim>\<open>SendFileToClient\<close> nor \<^verbatim>\<open>GMOD_SendToClient\<close>, which
  carries the compressed source, is called, whatever fails on the way.  Changing what they do changes
  nothing.\<close>

theorem required_client_gets_no_source:
  assumes "IsEnabled w" and "IsValidSlot E slot" and "cp_deliveryLaneResolved (client_of w slot)"
    and "ClientLane (client_of w slot) = RequiredLane"
    and "\<not> native_for (snd (RefreshRegistrationModeForRequest S E L f (request_name f w)
            (be_cachedSource BE (ld_engine (ld w)) (request_name f w)) w)) slot (request_name f w)"
  shows "hook_GModDataPack_SendFileToClient W B S E L BE (RQ\<lparr>rqe_sendOriginal := original, rqe_sendToClient := send\<rparr>) slot f w =
    hook_GModDataPack_SendFileToClient W B S E L BE RQ slot f w"
proof -
  let ?RQ = "RQ\<lparr>rqe_sendOriginal := original, rqe_sendToClient := send\<rparr>"
  let ?n = "request_name f w" and ?luaFile = "be_cachedSource BE (ld_engine (ld w)) (request_name f w)"
  have dp: "lua_dp L ?RQ = lua_dp L RQ" by (simp add: lua_dp_def)
  have stub: "request_stub W E L ?RQ slot f n c v = request_stub W E L RQ slot f n c v" for n c v
  proof -
    have sel: "rqe_updateStringTable ?RQ = rqe_updateStringTable RQ" "rqe_tableId ?RQ = rqe_tableId RQ"
      "rqe_tableBits ?RQ = rqe_tableBits RQ" "rqe_entryBits ?RQ = rqe_entryBits RQ" by simp_all
    have update: "SendClientLuaHashUpdate W L ?RQ = SendClientLuaHashUpdate W L RQ"
      by (intro ext) (simp only: SendClientLuaHashUpdate_def sel)
    show ?thesis unfolding request_stub_def restore_canonical_def AppendCanonicalLuaStub_def dp update ..
  qed
  obtain ready w1 where m: "RefreshRegistrationModeForRequest S E L f ?n ?luaFile w = (ready, w1)" by (metis surj_pair)
  have w1: "IsEnabled w1" "client_of w1 = client_of w" "\<not> native_for w1 slot ?n"
    using mode_frame [of S E L f ?n ?luaFile w] assms(1,5) by (simp_all add: m)
  obtain delivery w2 where d: "DecideDeliveryForClient E slot ?n
      (of_nat (case ?luaFile of None \<Rightarrow> 0 | Some contents \<Rightarrow> length contents)) w1 = (delivery, w2)" by (metis surj_pair)
  have "dd_action delivery = DaStub \<and> dd_compressed delivery \<noteq> None \<or> dd_action delivery = DaReject"
    by (rule required_decision [OF w1(1) assms(2) _ _ w1(3) d]) (simp_all add: w1(2) assms)
  then have decided: "request_decided W B S E L ?RQ slot f ?n ?luaFile delivery w2 = request_decided W B S E L RQ slot f ?n ?luaFile delivery w2"
    by (auto simp: request_decided_def stub)
  show ?thesis
    unfolding hook_GModDataPack_SendFileToClient_def Let_def m prod.case d dp enqueue_pinned_def decided ..
qed

definition req_pinned :: "(u64 \<Rightarrow> TestBitWriter) LdWorld" where
  "req_pinned = with_ld (\<lambda>l. l\<lparr>ld_entries := (\<lambda>_. LuaPackEntry_new\<lparr>le_luapackCanonical := True, le_luapackPassthrough := True,
       le_hasSourceContent := True, le_processed := True, le_hashPublished := True\<rparr>)\<rparr>)
     (req_world\<lparr>w_state := (w_state req_world)\<lparr>
        st_clients := (\<lambda>_. ClientPin_new\<lparr>cp_generation := ''g'', cp_requiredLane := True, cp_deliveryLaneResolved := True\<rparr>),
        st_generations := [''g'' \<mapsto> send_generation], st_currentGeneration := ''g''\<rparr>\<rparr>)"

lemma req_pinned_frame:
  "IsEnabled req_pinned" "SupportsCanonicalRegistration req_eng req_pinned"
  "client_of req_pinned slot = ClientPin_new\<lparr>cp_generation := ''g'', cp_requiredLane := True, cp_deliveryLaneResolved := True\<rparr>"
  "st_generations (w_state req_pinned) = [''g'' \<mapsto> send_generation]" "request_name 1 req_pinned = ''a.lua''"
  "GetPackEntry 1 req_pinned = Some (LuaPackEntry_new\<lparr>le_luapackCanonical := True, le_luapackPassthrough := True,
       le_hasSourceContent := True, le_processed := True, le_hashPublished := True\<rparr>)"
  by (simp_all add: req_pinned_def req_world_def IsEnabled_def demo_cvars_def SupportsCanonicalRegistration_def req_eng_def
      client_of_def request_name_def string_item_def Datapack_new_def GetPackEntry_def MAX_TRACKED_LUA_FILES_def)

lemma req_pinned_mode: "RefreshRegistrationModeForRequest S req_eng L 1 n luaFile req_pinned = (True, req_pinned)"
  by (simp add: RefreshRegistrationModeForRequest_def req_pinned_frame RegistrationNeedsHashPublication_def
      RegistrationModeMatches_def UsesCanonicalRegistration_def UsesPassthroughProcessing_def IsContentReady_def)

theorem required_client_gets_no_source_witness:
  "hook_GModDataPack_SendFileToClient TestBitWriter_ops cache_bootil cache_hashes req_eng req_lde req_baseline
     (req_engine\<lparr>rqe_sendOriginal := (\<lambda>_ _. with_ld (\<lambda>l. l\<lparr>ld_table := None\<rparr>)), rqe_sendToClient := (\<lambda>_ _. with_ld (\<lambda>l. l\<lparr>ld_table := None\<rparr>))\<rparr>)
     0 1 req_pinned =
   hook_GModDataPack_SendFileToClient TestBitWriter_ops cache_bootil cache_hashes req_eng req_lde req_baseline req_engine 0 1 req_pinned"
proof (rule required_client_gets_no_source)
  have n: "NormalizePath ''a.lua'' = ''a.lua''" by code_simp
  show "\<not> native_for (snd (RefreshRegistrationModeForRequest cache_hashes req_eng req_lde 1 (request_name 1 req_pinned)
      (be_cachedSource req_baseline (ld_engine (ld req_pinned)) (request_name 1 req_pinned)) req_pinned)) 0 (request_name 1 req_pinned)"
    using cache_not_init
    by (simp add: req_pinned_mode req_pinned_frame native_for_def pinned_base_def send_generation_def IsGenerationNativeDelta_def n
        ClientPin_new_def)
qed (simp_all add: req_pinned_frame ClientLane_def ClientPin_new_def IsValidSlot_def req_eng_def)

end
