(* ===== verification/PlaceholderDelivery.thy ===== *)
theory PlaceholderDelivery
  imports RequestSafety
begin

text \<open>
  A placeholder goes out in front of nothing but its own hash, and a batch of pinned files is
  queued exactly as the single requests would be.
\<close>

section \<open>A placeholder on the stream\<close>

lemma stub_sent_stream:
  assumes W: "bit_writer W bits room" and X: "stream_laws (lua_dp L RQ)" and f: "0 \<le> f" "f < 65536" and len: "length c < 2 ^ 32"
    and room: "\<And>s. client_stream L slot w = Some s \<Longrightarrow> room s < 2 ^ 31"
    and app: "AppendCanonicalLuaStub W L RQ slot f c w = (True, w')"
  shows "\<exists>s s'. client_stream L slot w = Some s \<and> client_stream L slot w' = Some s' \<and>
    appended W bits room s (stub_msg f c) s' \<and> same_module w w'"
proof -
  let ?y = "ld_engine (ld w)"
  obtain action channel where p: "PrepareCanonicalLuaStubAppend W (lua_dp L RQ) slot c True True True (ld w) = (action, channel)"
    by (metis surj_pair)
  have act: "action = DrainAppend" using app by (cases "action = DrainAppend") (simp_all add: AppendCanonicalLuaStub_def p)
  obtain ok x where a: "AppendCanonicalLuaStubToChannel W (lua_dp L RQ) channel f c (ld w) = (ok, x)" by (metis surj_pair)
  have w': "ok" "w' = with_ld (\<lambda>_. x) w" using app by (simp_all add: AppendCanonicalLuaStub_def p act a)
  obtain ch where ch: "channel = Some ch"
    using a w'(1) by (cases channel) (simp_all add: AppendCanonicalLuaStubToChannel_def)
  obtain k where k: "lde_client L ?y slot = Some k" "se_channel k = Some ch" and left: "0 \<le> GetNumBitsLeft W (lde_reliable L ?y ch)"
    and can: "CanAppendRequiredStub (IsOverflowed W (lde_reliable L ?y ch)) (of_int (GetNumBitsLeft W (lde_reliable L ?y ch))) (of_nat (length c))"
    using p act ch
    by (auto simp: PrepareCanonicalLuaStubAppend_def Let_def SelectRequiredStubDrainAction_Append_iff split: option.splits if_splits)
  let ?s = "lde_reliable L ?y ch"
  have s: "client_stream L slot w = Some ?s" by (simp add: client_stream_def k)
  have left: "GetNumBitsLeft W ?s = int (room ?s)"
    using can bit_writer.bits_left [OF W] by (auto simp: CanAppendRequiredStub_def Let_def)
  have "unat (of_int f :: u32) < 65536" using f by (auto simp: unat_eq_nat_uint uint_word_of_int nat_less_iff)
  then have fields: "stub_fields svc_GMod_ServerToClient LuaFileDownload (of_int f)"
    by (simp add: stub_fields_def svc_GMod_ServerToClient_def LuaFileDownload_def)
  have "length c = unat (of_nat (length c) :: size_t)" using len by (subst unat_of_nat_small) simp_all
  from bit_writer.stub_accepted [OF W fields _ room [OF s] this] can left obtain s' where
    s': "AppendRequiredStubWire W ?s svc_GMod_ServerToClient LuaFileDownload (of_int f) (Some c) (of_nat (length c)) = (True, s')"
      "appended W bits room ?s (stub_msg f c) s'" by auto
  have x: "x = (ld w)\<lparr>ld_engine := lde_setReliable L ch s' ?y\<rparr>"
    using a s'(1) by (simp add: AppendCanonicalLuaStubToChannel_def ch)
  have "w' = with_ld (\<lambda>l. l\<lparr>ld_engine := lde_setReliable L ch s' ?y\<rparr>) w"
    unfolding w'(2) x by (simp add: with_ld_def with_rest_def)
  then have "same_module w w'" unfolding same_module_def by (rule exI)
  moreover have "client_stream L slot w' = Some s'"
    using stream_set [OF X] k by (simp add: client_stream_def w'(2) x)
  ultimately show ?thesis using s s'(2) by blast
qed

text \<open>A client has to be told of the placeholder's hash when it is in the game or last heard of another one.\<close>

definition must_tell :: "('y, 'w) LdEngine \<Rightarrow> int \<Rightarrow> int \<Rightarrow> u8 list \<Rightarrow> 'y LdWorld \<Rightarrow> bool" where
  "must_tell L slot f c w \<longleftrightarrow>
     (case lde_client L (ld_engine (ld w)) slot of None \<Rightarrow> False | Some k \<Rightarrow> se_active k) \<or>
     dp_nativeHashes (dp w) slot f \<noteq> None \<or> dp_hashUpdatesPending (dp w) slot f = Some (take 32 c)"

lemma upd_slot_hashes_stream [simp]: "client_stream L s (upd_slot_hashes slot f g w) = client_stream L s w"
proof -
  have "ld_engine (ld (upd_slot_hashes slot f g w)) = ld_engine (ld w)" by (simp add: upd_slot_hashes_def)
  then show ?thesis unfolding client_stream_def by (simp only:)
qed

lemma restored_stream:
  assumes W: "bit_writer W bits room" and X: "stream_laws (lua_dp L RQ)"
    and r: "restore_canonical W L RQ slot f c w = (True, w')"
  shows "(if must_tell L slot f c w
     then \<exists>s s'. client_stream L slot w = Some s \<and> client_stream L slot w' = Some s' \<and>
       appended W bits room s (update_record RQ f (take 32 c) w) s'
     else client_stream L slot w' = client_stream L slot w) \<and>
    dp_nativeHashes (dp w') = (dp_nativeHashes (dp w))(slot := (dp_nativeHashes (dp w) slot)(f := None)) \<and>
    dp_hashUpdatesPending (dp w') = (dp_hashUpdatesPending (dp w))(slot := (dp_hashUpdatesPending (dp w) slot)(f := None))"
proof -
  define known where "known = (dp_nativeHashes (dp w) slot f \<noteq> None)"
  define active where "active = (case lde_client L (ld_engine (ld w)) slot of None \<Rightarrow> False | Some client \<Rightarrow> se_active client)"
  define matches where "matches = (dp_hashUpdatesPending (dp w) slot f = Some (take 32 c))"
  define w1 where "w1 = (if matches
    then with_ld (\<lambda>l. l\<lparr>ld_canonicalAcknowledgements := ld_canonicalAcknowledgements l + 1\<rparr>) w else w)"
  have tell: "must_tell L slot f c w = NeedsOrderedCanonicalHash active known matches"
    by (simp add: must_tell_def NeedsOrderedCanonicalHash_def active_def known_def matches_def)
  have w1: "ld_engine (ld w1) = ld_engine (ld w)" "dp_nativeHashes (dp w1) = dp_nativeHashes (dp w)"
    "dp_hashUpdatesPending (dp w1) = dp_hashUpdatesPending (dp w)" by (simp_all add: w1_def)
  have stream1: "client_stream L slot w1 = client_stream L slot w" "update_record RQ f h w1 = update_record RQ f h w" for h
    unfolding client_stream_def update_record_def w1(1) by (rule refl)+
  obtain sent w2 where s: "(if NeedsOrderedCanonicalHash active known matches
      then SendClientLuaHashUpdate W L RQ slot f (take 32 c) w1 else (True, w1)) = (sent, w2)" by (metis surj_pair)
  define w3 where "w3 = (if NeedsOrderedCanonicalHash active known matches
      then upd_slot_hashes slot (\<lambda>hashes. snd (RestoreCanonicalHash hashes f)) (\<lambda>pending. pending) w2 else w2)"
  have all: "(if \<not> sent then (False, w2)
      else (True, upd_slot_hashes slot (\<lambda>hashes. hashes) (\<lambda>pending. pending(f := None)) w3)) = (True, w')"
    using r unfolding restore_canonical_def Let_def known_def [symmetric] active_def [symmetric] matches_def [symmetric]
      w1_def [symmetric] s prod.case w3_def [symmetric] .
  have w': "sent" "w' = upd_slot_hashes slot (\<lambda>hashes. hashes) (\<lambda>pending. pending(f := None)) w3"
    using all by (auto split: if_splits)
  show ?thesis
  proof (cases "NeedsOrderedCanonicalHash active known matches")
    case True
    then have send: "SendClientLuaHashUpdate W L RQ slot f (take 32 c) w1 = (True, w2)" using s w'(1) by simp
    from update_sent [OF W X send] obtain s s' where st: "client_stream L slot w1 = Some s" "client_stream L slot w2 = Some s'"
      "appended W bits room s (update_record RQ f (take 32 c) w1) s'" "same_module w1 w2" by blast
    have "dp_nativeHashes (dp w2) = dp_nativeHashes (dp w)" "dp_hashUpdatesPending (dp w2) = dp_hashUpdatesPending (dp w)"
      using same_module_simps(3,4) [OF st(4)] w1 by simp_all
    then have "dp_nativeHashes (dp w') = (dp_nativeHashes (dp w))(slot := (dp_nativeHashes (dp w) slot)(f := None))"
      "dp_hashUpdatesPending (dp w') = (dp_hashUpdatesPending (dp w))(slot := (dp_hashUpdatesPending (dp w) slot)(f := None))"
      using True by (simp_all add: w'(2) w3_def upd_slot_hashes_def RestoreCanonicalHash_def)
    moreover have "client_stream L slot w' = client_stream L slot w2" unfolding w'(2) w3_def by simp
    ultimately show ?thesis using True st unfolding tell stream1 by simp
  next
    case False
    then have w2: "w2 = w1" using s by simp
    have none: "dp_nativeHashes (dp w) slot f = None" using False by (simp add: NeedsOrderedCanonicalHash_def known_def)
    then have same: "(dp_nativeHashes (dp w))(slot := (dp_nativeHashes (dp w) slot)(f := None)) = dp_nativeHashes (dp w)"
      by (simp add: fun_upd_idem)
    have stream: "client_stream L slot w' = client_stream L slot w"
      unfolding w'(2) w3_def using False by (simp add: w2 stream1)
    show ?thesis
      unfolding stream tell same using False by (simp add: w'(2) w3_def w2 upd_slot_hashes_def w1)
  qed
qed




text \<open>C8.  A placeholder goes out only under its own hash.  When a request is answered with the
  placeholder, the client's reliable stream grows by exactly the placeholder's record, preceded by the
  update to its hash if the client is already in the game, was last told a native hash or is waiting for
  this one; afterwards no other identity of the file is recorded or pending for the client, and no other
  client's or file's changed.  Everything else ends in a disconnect.\<close>

theorem placeholder_has_its_hash:
  assumes W: "bit_writer W bits room" and X: "stream_laws (lua_dp L RQ)" and slot: "IsValidSlot E slot"
    and f: "0 \<le> f" "f < 65536" and len: "length c < 2 ^ 32"
    and room: "\<And>s. client_stream L slot w = Some s \<Longrightarrow> room s < 2 ^ 31"
  shows "(\<exists>v. request_stub W E L RQ slot f n c w = DisconnectLuaHashFailure E (lua_dp L RQ) slot n v) \<or>
    (\<exists>s s'. client_stream L slot w = Some s \<and> client_stream L slot (request_stub W E L RQ slot f n c w) = Some s' \<and>
       appended W bits room s ((if must_tell L slot f c w then update_record RQ f (take 32 c) w else []) @ stub_msg f c) s' \<and>
       dp_nativeHashes (dp (request_stub W E L RQ slot f n c w)) =
         (dp_nativeHashes (dp w))(slot := (dp_nativeHashes (dp w) slot)(f := None)) \<and>
       dp_hashUpdatesPending (dp (request_stub W E L RQ slot f n c w)) =
         (dp_hashUpdatesPending (dp w))(slot := (dp_hashUpdatesPending (dp w) slot)(f := None)))"
proof -
  obtain r w1 where r: "restore_canonical W L RQ slot f c w = (r, w1)" by (metis surj_pair)
  obtain a w2 where a: "AppendCanonicalLuaStub W L RQ slot f c w1 = (a, w2)" by (metis surj_pair)
  have eq: "request_stub W E L RQ slot f n c w =
      (if length c < 32 then DisconnectLuaHashFailure E (lua_dp L RQ) slot n w
       else if \<not> r then DisconnectLuaHashFailure E (lua_dp L RQ) slot n w1
       else if a then w2 else DisconnectLuaHashFailure E (lua_dp L RQ) slot n w2)"
    using slot by (simp add: request_stub_def Let_def r a)
  show ?thesis
  proof (cases "\<not> length c < 32 \<and> r \<and> a")
    case False
    then show ?thesis unfolding eq by auto
  next
    case True
    then have w2: "request_stub W E L RQ slot f n c w = w2" by (simp add: eq)
    note restored = restored_stream [OF W X r [simplified True]]
    have bound: "room s < 2 ^ 31" if "client_stream L slot w1 = Some s" for s
      using that restored room by (auto simp: appended_def split: if_splits)
    have stub: "AppendCanonicalLuaStub W L RQ slot f c w1 = (True, w2)" using a True by simp
    from stub_sent_stream [OF W X f len bound stub] obtain s1 s2 where s: "client_stream L slot w1 = Some s1"
      "client_stream L slot w2 = Some s2" "appended W bits room s1 (stub_msg f c) s2" "same_module w1 w2" by blast
    have told: "\<exists>s. client_stream L slot w = Some s \<and>
        appended W bits room s ((if must_tell L slot f c w then update_record RQ f (take 32 c) w else []) @ stub_msg f c) s2"
      using restored s bit_writer.appended_trans [OF W] by (auto split: if_splits)
    show ?thesis
      unfolding w2 same_module_simps(3,4) [OF s(4)] using told s(2) restored by blast
  qed
qed

section \<open>A concrete placeholder\<close>

text \<open>An engine whose disconnect can be seen.\<close>

definition req_drop :: "(u64 \<Rightarrow> TestBitWriter) LuaData Datapack Engine" where
  "req_drop = req_eng\<lparr>eng_disconnect := (\<lambda>_ _. with_ld (\<lambda>l. l\<lparr>ld_table := None\<rparr>))\<rparr>"

lemma req_stub_appended:
  assumes s: "client_stream req_lde 0 w = Some s" and "\<not> tbw_overflowed s" and room: "1000 \<le> tbw_room s" "tbw_room s < 2 ^ 31"
    and len: "length c = 40"
  shows "fst (AppendCanonicalLuaStub TestBitWriter_ops req_lde req_engine 0 1 c w)"
proof -
  have s5: "ld_engine (ld w) 5 = s" using s by (simp add: client_stream_def req_lde_def)
  have left: "GetNumBitsLeft TestBitWriter_ops s = int (tbw_room s)" "IsOverflowed TestBitWriter_ops s = tbw_overflowed s"
    using room(1) by (auto simp: TestBitWriter_ops_def tbw_room_def)
  have ur: "unat (of_nat (tbw_room s) :: size_t) = tbw_room s" using room(2) by (intro unat_of_nat_small) simp
  have can: "CanAppendRequiredStub (tbw_overflowed s) (of_nat (tbw_room s)) 40"
    using assms(2) room(1) by (simp add: CanAppendRequiredStub_iff ur stub_bits_def)
  have use: "CanUsePinnedRequiredStub True True True True 40" by (simp add: CanUsePinnedRequiredStub_def)
  have p: "PrepareCanonicalLuaStubAppend TestBitWriter_ops (lua_dp req_lde req_engine) 0 c True True True (ld w) = (DrainAppend, Some 5)"
    using can use assms(2)
    by (simp add: PrepareCanonicalLuaStubAppend_def Let_def) (simp add: req_lde_def s5 left SelectRequiredStubDrainAction_Append_iff len)
  have "stub_fields svc_GMod_ServerToClient LuaFileDownload 1"
    by (simp add: stub_fields_def svc_GMod_ServerToClient_def LuaFileDownload_def)
  from tbw.stub_accepted [OF this _ room(2), of 40 c] can obtain s' where
    "AppendRequiredStubWire TestBitWriter_ops s svc_GMod_ServerToClient LuaFileDownload 1 (Some c) 40 = (True, s')"
    by (auto simp: left len)
  then show ?thesis
    by (simp add: AppendCanonicalLuaStub_def p AppendCanonicalLuaStubToChannel_def len) (simp add: req_lde_def s5)
qed

lemma req_restored:
  assumes len: "length c = 40"
  shows "\<exists>w'. restore_canonical TestBitWriter_ops req_lde req_engine 0 1 c req_world = (True, w') \<and>
    ld_table (ld w') \<noteq> None \<and> must_tell req_lde 0 1 c req_world"
proof -
  have "fst (SendClientLuaHashUpdate TestBitWriter_ops req_lde req_engine 0 1 (take 32 c) req_world)"
    by (rule req_update) (simp add: len)
  then obtain w2 where s: "SendClientLuaHashUpdate TestBitWriter_ops req_lde req_engine 0 1 (take 32 c) req_world = (True, w2)"
    by (metis (full_types) prod.collapse)
  have hashes: "dp_nativeHashes (dp req_world) 0 = Map.empty" "dp_hashUpdatesPending (dp req_world) 0 = Map.empty"
    by (simp_all add: req_world_def Datapack_new_def)
  have active: "(case lde_client req_lde (ld_engine (ld req_world)) 0 of None \<Rightarrow> False | Some client \<Rightarrow> se_active client)"
    by (simp add: req_lde_def)
  from update_sent [OF tbw.bit_writer_axioms req_laws(1) s] have "ld_table (ld w2) = ld_table (ld req_world)"
    using same_module_simps(5) by blast
  then have "ld_table (ld w2) \<noteq> None" by (simp add: req_world_def Datapack_new_def)
  then show ?thesis
    using active by (simp add: restore_canonical_def Let_def hashes NeedsOrderedCanonicalHash_def s must_tell_def)
      (simp add: upd_slot_hashes_def)
qed

theorem placeholder_has_its_hash_witness:
  "\<exists>s. client_stream req_lde 0
      (request_stub TestBitWriter_ops req_drop req_lde req_engine 0 1 ''a.lua'' (replicate 40 1) req_world) = Some s \<and>
     tbw_bits s = update_record req_engine 1 (replicate 32 1) req_world @ stub_msg 1 (replicate 40 1)"
proof -
  let ?c = "replicate 40 1 :: u8 list"
  have slot: "IsValidSlot req_drop 0" by (simp add: IsValidSlot_def req_drop_def req_eng_def)
  have stream: "client_stream req_lde 0 req_world = Some (TestBitWriter_new 4000)"
    by (simp add: client_stream_def req_lde_def req_world_def Datapack_new_def)
  have s0: "tbw_room (TestBitWriter_new 4000) = 4000" "tbw_bits (TestBitWriter_new 4000) = []"
    by (simp_all add: tbw_room_def TestBitWriter_new_def)
  obtain w1 where r: "restore_canonical TestBitWriter_ops req_lde req_engine 0 1 ?c req_world = (True, w1)"
    "ld_table (ld w1) \<noteq> None" "must_tell req_lde 0 1 ?c req_world"
    using req_restored [of ?c] by auto
  from restored_stream [OF tbw.bit_writer_axioms req_laws(1) r(1)] r(3) stream obtain s1 where s1:
    "client_stream req_lde 0 w1 = Some s1"
    "tbw_appended (TestBitWriter_new 4000) (update_record req_engine 1 (take 32 ?c) req_world) s1" by auto
  have "length (update_record req_engine 1 (take 32 ?c) req_world) = 323"
    by (simp add: update_record_def hash_wire_record_def req_engine_def RequiredStubServiceTypeBits_def)
  then have room: "1000 \<le> tbw_room s1" "tbw_room s1 < 2 ^ 31" "\<not> tbw_overflowed s1"
    using s1(2) s0 by (simp_all add: appended_def TestBitWriter_ops_def)
  have "fst (AppendCanonicalLuaStub TestBitWriter_ops req_lde req_engine 0 1 ?c w1)"
    by (rule req_stub_appended [OF s1(1) room(3,1,2)]) simp
  then obtain w2 where a: "AppendCanonicalLuaStub TestBitWriter_ops req_lde req_engine 0 1 ?c w1 = (True, w2)"
    by (metis (full_types) prod.collapse)
  have eq: "request_stub TestBitWriter_ops req_drop req_lde req_engine 0 1 ''a.lua'' ?c req_world = w2"
    using slot by (simp add: request_stub_def Let_def r(1) a)
  have "client_stream req_lde 0 w1 = Some s \<Longrightarrow> tbw_room s < 2 ^ 31" for s using s1(1) room(2) by simp
  from stub_sent_stream [OF tbw.bit_writer_axioms req_laws(1) _ _ _ this a] have "same_module w1 w2" by auto
  then have "ld_table (ld w2) \<noteq> None" using r(2) same_module_simps(5) by metis
  then have "w2 \<noteq> DisconnectLuaHashFailure req_drop (lua_dp req_lde req_engine) 0 ''a.lua'' v" for v
    by (auto simp: DisconnectLuaHashFailure_def req_lde_def req_drop_def)
  then show ?thesis
    using placeholder_has_its_hash [OF tbw.bit_writer_axioms req_laws(1) slot, of 1 ?c req_world "''a.lua''"] r(3) stream s0
    by (auto simp: eq appended_def)
qed

end
