(* ===== verification/BatchDelivery.thy ===== *)
theory BatchDelivery
  imports PlaceholderDelivery
begin

text \<open>
  A batch of pinned files is queued exactly as the single requests would be, each file once.
\<close>

section \<open>One file\<close>

text \<open>What staging may not change.\<close>

definition slot_pins :: "int \<Rightarrow> 'y LdWorld \<Rightarrow> int set \<times> u8 list option" where
  "slot_pins slot w = (pinned_ids (dp_pinnedFiles (dp w) slot), dp_pinnedPayloads (dp w) slot)"

lemma enqueue_frame:
  assumes "stubs_ok E {} (dp w)" and "IsValidSlot E slot" and "0 \<le> f" and "f < int MAX_TRACKED_LUA_FILES"
  shows "\<exists>w'. enqueue_pinned E L RQ slot f w = (True, w') \<and> ld w' = ld w \<and> w_cvars w' = w_cvars w \<and> w_state w' = w_state w \<and>
    slot_pins slot w' = slot_pins slot w \<and> stubs_ok E {} (dp w') \<and>
    stub_files (dp w') slot = (if f \<in> set (stub_files (dp w) slot) then stub_files (dp w) slot else stub_files (dp w) slot @ [f])"
proof -
  let ?q = "rq_pending (dp_stubQueues (dp w) slot)"
  have q: "rsq_inv ?q" "length (rsq_queued ?q) = MAX_TRACKED_LUA_FILES"
    using assms(1) by (simp_all add: stubs_ok_def queue_ok_def)
  obtain queued d where e: "EnqueuePinnedRequiredStub E slot f (dp w) = (queued, d)" by (metis surj_pair)
  have fits: "\<not> (f < 0 \<or> length (rsq_queued ?q) \<le> nat f)" using assms(3,4) q(2) by auto
  have effect: "queued" "dp_pinnedFiles d = dp_pinnedFiles (dp w)" "dp_pinnedPayloads d = dp_pinnedPayloads (dp w)"
    "dp_rest d = dp_rest (dp w)"
    "stub_files d slot = rsq_files (snd (RequiredStubQueue_Enqueue f ?q))"
    using e assms(2) fits
    by (auto simp: EnqueuePinnedRequiredStub_def RequiredStubQueue_Enqueue_def upd_queue_def Let_def split: if_splits)
  have ok: "stubs_ok E {} d" using stubs_ok_enqueue [OF assms(1), of slot f] by (simp add: e)
  have "stub_files d slot = (if f \<in> set (stub_files (dp w) slot) then stub_files (dp w) slot else stub_files (dp w) slot @ [f])"
    using rsq.items_enq [OF q(1), of f] assms(3,4) q(2) effect(5) by simp
  then show ?thesis
    using effect(1-4) ok by (simp add: enqueue_pinned_def e Let_def slot_pins_def)
qed

lemma pinned_usable_cong:
  assumes "support_of_engine E" and "ld w' = ld w" and "w_cvars w' = w_cvars w" and "slot_pins slot w' = slot_pins slot w"
  shows "pinned_usable E slot f w' = pinned_usable E slot f w"
proof -
  have "SupportsCanonicalRegistration E w' = SupportsCanonicalRegistration E w"
    using assms(1,2) unfolding support_of_engine_def by metis
  then show ?thesis using assms(3,4) by (simp add: pinned_usable_def slot_pins_def IsEnabled_def Let_def)
qed

section \<open>The loop\<close>

lemma serve_pinned:
  assumes "support_of_engine E" and "IsValidSlot E slot" and "ld_table (ld w) = Some items" and "ld_probeSlot (ld w) \<noteq> slot"
    and "int (length items) \<le> int MAX_TRACKED_LUA_FILES"
    and "stubs_ok E {} (dp w)" and "\<forall>f \<in> set files. 0 < f \<and> f < int (length items)" and "distinct files"
    and "\<forall>f \<in> set files. f \<in> pinned_ids requested \<longrightarrow> pinned_usable E slot f w"
  shows "serve_batch W B S E L BE RQ slot requested files w =
      fold (hook_GModDataPack_SendFileToClient W B S E L BE RQ slot) (filter (\<lambda>f. f \<in> pinned_ids requested) files) w \<and>
    stub_files (dp (serve_batch W B S E L BE RQ slot requested files w)) slot =
      stub_files (dp w) slot @ filter (\<lambda>f. f \<in> pinned_ids requested \<and> f \<notin> set (stub_files (dp w) slot)) files"
  using assms(3-9)
proof (induction files arbitrary: w)
  case (Cons f files)
  show ?case
  proof (cases "f \<in> pinned_ids requested")
    case False
    have rest: "\<forall>f \<in> set files. 0 < f \<and> f < int (length items)" "distinct files"
      "\<forall>f \<in> set files. f \<in> pinned_ids requested \<longrightarrow> pinned_usable E slot f w"
      using Cons.prems(5-7) by simp_all
    note IH = Cons.IH [OF Cons.prems(1-4) rest]
    show ?thesis using False conjunct1 [OF IH] conjunct2 [OF IH] by simp
  next
    case True
    then have pin: "pinned_usable E slot f w" "0 < f" "f < int (length items)" using Cons.prems(5,7) by auto
    have f: "0 \<le> f" "f < int MAX_TRACKED_LUA_FILES" using pin(2,3) Cons.prems(3) by linarith+
    obtain w' where w': "enqueue_pinned E L RQ slot f w = (True, w')" "ld w' = ld w" "w_cvars w' = w_cvars w"
      "slot_pins slot w' = slot_pins slot w" "stubs_ok E {} (dp w')"
      "stub_files (dp w') slot = (if f \<in> set (stub_files (dp w) slot) then stub_files (dp w) slot else stub_files (dp w) slot @ [f])"
      using enqueue_frame [OF Cons.prems(4) assms(2) f, where L = L and RQ = RQ] by blast
    have "f \<in> pinned_ids (dp_pinnedFiles (dp w) slot)"
      using pin(1) by (simp add: pinned_usable_def CanUsePinnedRequiredStub_def Let_def)
    then have serve: "serve_batch W B S E L BE RQ slot requested (f # files) w = serve_batch W B S E L BE RQ slot requested files w'"
      using True w'(1) by simp
    have hook: "hook_GModDataPack_SendFileToClient W B S E L BE RQ slot f w = w'"
      using pin w'(1) Cons.prems(1,2) by (simp add: hook_GModDataPack_SendFileToClient_def)
    have usable: "\<forall>f \<in> set files. f \<in> pinned_ids requested \<longrightarrow> pinned_usable E slot f w'"
      using Cons.prems(7) pinned_usable_cong [OF assms(1) w'(2,3,4)] by simp
    have new: "filter (\<lambda>g. g \<in> pinned_ids requested \<and> g \<notin> set (stub_files (dp w') slot)) files =
        filter (\<lambda>g. g \<in> pinned_ids requested \<and> g \<notin> set (stub_files (dp w) slot)) files"
      using Cons.prems(6) by (intro filter_cong) (auto simp: w'(6))
    have "ld_table (ld w') = Some items" "ld_probeSlot (ld w') \<noteq> slot" using Cons.prems(1,2) w'(2) by simp_all
    note frame = this
    have rest: "\<forall>f \<in> set files. 0 < f \<and> f < int (length items)" "distinct files" using Cons.prems(5,6) by simp_all
    note IH' = Cons.IH [OF frame Cons.prems(3) w'(5) rest usable]
    have IH: "serve_batch W B S E L BE RQ slot requested files w' =
        fold (hook_GModDataPack_SendFileToClient W B S E L BE RQ slot) (filter (\<lambda>f. f \<in> pinned_ids requested) files) w'"
      "stub_files (dp (serve_batch W B S E L BE RQ slot requested files w')) slot =
        stub_files (dp w') slot @ filter (\<lambda>f. f \<in> pinned_ids requested \<and> f \<notin> set (stub_files (dp w') slot)) files"
      using conjunct1 [OF IH'] conjunct2 [OF IH'] by blast+
    show ?thesis
      unfolding serve IH(2) new using IH(1) True w'(6) by (simp add: hook)
  qed
qed simp

section \<open>The batch\<close>

lemma filter_upto: "A \<subseteq> {1..n - 1} \<Longrightarrow> filter (\<lambda>f. f \<in> A) [1..n - 1] = sorted_list_of_set (A :: int set)"
  by (rule sorted_distinct_set_unique)
    (auto simp: finite_subset [OF _ finite_atLeastAtMost_int] intro: sorted_wrt_filter)

lemma batch_frame [simp]:
  "ld (batch_counted slot n w) = ld w" "w_cvars (batch_counted slot n w) = w_cvars w"
  "slot_pins slot' (batch_counted slot n w) = slot_pins slot' w"
  "stub_files (dp (batch_counted slot n w)) slot' = stub_files (dp w) slot'"
  "stub_files (dp (batch_timed slot t w)) slot' = stub_files (dp w) slot'"
  by (simp_all add: batch_counted_def batch_timed_def slot_pins_def upd_queue_def)

lemma stubs_ok_counted: "stubs_ok E {} (dp (batch_counted slot n w)) = stubs_ok E {} (dp w)"
  by (auto simp: batch_counted_def stubs_ok_def upd_queue_def queue_ok_def)

text \<open>C23.  A batch is its single requests, each once.  When the engine's allowance admits a batch of
  pinned files, whatever IDs in whatever order and number of repetitions its bytes hold, the result is that
  of single requests for the registered files it names, in increasing order, and the slot's queue grows by
  exactly those of them that were not waiting already; the batch counters count each file once.\<close>

theorem batch_is_single_requests:
  assumes R: "bit_reader R intact words" "intact r" and E: "support_of_engine E" and slot: "IsValidSlot E slot"
    and items: "ld_table (ld w) = Some items" and bits: "bits < 2 ^ 31"
    and guard: "CanDecodePinnedRequiredRequestBatch (IsEnabled w) (SupportsCanonicalRegistration E w)
      (dp_pinnedPayloads (dp w) slot \<noteq> None)
      (of_nat (case dp_pinnedPayloads (dp w) slot of None \<Rightarrow> 0 | Some p \<Rightarrow> length p)) bits (br_GetNumBitsLeft R r)
      (int (length items)) MAX_TRACKED_LUA_FILES"
    and probe: "probe_allowance RQ slot w = (True, w1)" "ld_table (ld w1) = Some items" "stubs_ok E {} (dp w1)"
    and ids: "ids = valid_requests (int (length items)) (take (nat (bits div 16)) (words r))"
    and pinned: "\<forall>f \<in> ids. pinned_usable E slot f w1"
  shows "(\<exists>ms n. unat n = card ids \<and> hook_GModDataPack_OnFilesRequested W R B S E L BE RQ slot (Some r) bits w =
      batch_timed slot ms (fold (hook_GModDataPack_SendFileToClient W B S E L BE RQ slot) (sorted_list_of_set ids) (batch_counted slot n w1))) \<and>
    stub_files (dp (hook_GModDataPack_OnFilesRequested W R B S E L BE RQ slot (Some r) bits w)) slot =
      stub_files (dp w1) slot @ sorted_list_of_set (ids - set (stub_files (dp w1) slot))"
proof -
  let ?n = "int (length items)"
  have new: "pinned_ids (PinnedCanonicalFileSet_new MAX_TRACKED_LUA_FILES) = {}" by simp
  have guard': "CanDecodePinnedRequiredRequestBatch (IsEnabled w) (SupportsCanonicalRegistration E w)
      (dp_pinnedPayloads (dp w) slot \<noteq> None)
      (of_nat (case dp_pinnedPayloads (dp w) slot of None \<Rightarrow> 0 | Some p \<Rightarrow> length p)) bits (br_GetNumBitsLeft R r)
      ?n (length (PinnedCanonicalFileSet_new MAX_TRACKED_LUA_FILES))"
    using guard unfolding length_PinnedNew .
  from request_batch_decoded_exactly [OF R guard' bits] obtain r' requested u where dec:
    "DecodeRequiredRequestIds R r bits ?n (PinnedCanonicalFileSet_new MAX_TRACKED_LUA_FILES) = (True, r', requested, u)"
    "pinned_ids requested = ids" "unat u = card ids"
    unfolding new ids by auto
  define w2 where "w2 = batch_counted slot u w1"
  have w2: "ld w2 = ld w1" "w_cvars w2 = w_cvars w1" "slot_pins slot w2 = slot_pins slot w1" "stubs_ok E {} (dp w2)"
    "stub_files (dp w2) slot = stub_files (dp w1) slot"
    using probe(3) by (simp_all add: w2_def stubs_ok_counted)
  have slot': "ld_probeSlot (ld w2) \<noteq> slot"
    using probe(1) slot by (auto simp: w2 probe_allowance_def Let_def IsValidSlot_def)
  have size: "?n \<le> int MAX_TRACKED_LUA_FILES" using guard by (simp add: CanDecodePinnedRequiredRequestBatch_def)
  have range: "ids \<subseteq> {1..?n - 1}" by (auto simp: ids valid_requests_def)
  have usable: "\<forall>f \<in> set [1..?n - 1]. f \<in> pinned_ids requested \<longrightarrow> pinned_usable E slot f w2"
    using pinned pinned_usable_cong [OF E w2(1-3)] by (simp add: dec(2))
  have table: "ld_table (ld w2) = Some items" using probe(2) by (simp add: w2(1))
  have files: "\<forall>f \<in> set [1..?n - 1]. 0 < f \<and> f < ?n" "distinct [1..?n - 1]" by auto
  note serve = serve_pinned [OF E slot table slot' size w2(4) files usable, where W = W and B = B and S = S and L = L and BE = BE and RQ = RQ]
  have lists: "filter (\<lambda>f. f \<in> ids) [1..?n - 1] = sorted_list_of_set ids"
    "filter (\<lambda>f. f \<in> ids \<and> f \<notin> A) [1..?n - 1] = sorted_list_of_set (ids - A)" for A
    using filter_upto [OF range] filter_upto [of "ids - A" ?n] range by auto
  obtain ms where hook: "hook_GModDataPack_OnFilesRequested W R B S E L BE RQ slot (Some r) bits w =
      batch_timed slot ms (serve_batch W B S E L BE RQ slot requested [1..?n - 1] w2)"
    using guard slot unfolding hook_GModDataPack_OnFilesRequested_def items prod.case option.case Let_def probe(1) dec(1) w2_def [symmetric]
    by auto
  show ?thesis
  proof
    show "\<exists>ms n. unat n = card ids \<and> hook_GModDataPack_OnFilesRequested W R B S E L BE RQ slot (Some r) bits w =
        batch_timed slot ms (fold (hook_GModDataPack_SendFileToClient W B S E L BE RQ slot) (sorted_list_of_set ids) (batch_counted slot n w1))"
      unfolding hook conjunct1 [OF serve] dec(2) lists(1) unfolding w2_def using dec(3) by blast
    show "stub_files (dp (hook_GModDataPack_OnFilesRequested W R B S E L BE RQ slot (Some r) bits w)) slot =
        stub_files (dp w1) slot @ sorted_list_of_set (ids - set (stub_files (dp w1) slot))"
      unfolding hook batch_frame(5) conjunct2 [OF serve] dec(2) lists(2) w2(5) ..
  qed
qed

section \<open>A concrete batch\<close>

text \<open>The engine's handler admits the probe; file 1 is pinned for slot 0 and asked for twice.\<close>

definition batch_engine :: "(u64 \<Rightarrow> TestBitWriter, TestBitWriter, TestBitReader) RequestEngine" where
  "batch_engine =
     \<lparr>rqe_supportsCanonical = (\<lambda>_. True), rqe_updateStringTable = 12, rqe_tableBits = 5, rqe_tableId = (\<lambda>_. 3),
      rqe_entryBits = (\<lambda>_. 13), rqe_fastNetworking = (\<lambda>_. False), rqe_buffer = (\<lambda>n. TestBitWriter_new (8 * n)),
      rqe_sendToClient = (\<lambda>_ _ w. w), rqe_sendOriginal = (\<lambda>_ _ w. w), rqe_probe = TestBitReader_new [1] (- 1),
      rqe_onFilesRequested = (\<lambda>_ _ _. with_ld (\<lambda>l. l\<lparr>ld_probeAccepted := True\<rparr>))\<rparr>"

definition batch_world :: "(u64 \<Rightarrow> TestBitWriter) LdWorld" where
  "batch_world = with_dp (\<lambda>d. d\<lparr>dp_pinnedPayloads := [0 \<mapsto> replicate 40 1],
     dp_pinnedFiles := (dp_pinnedFiles d)(0 := PinnedCanonicalFileSet_Mark 1 (PinnedCanonicalFileSet_new MAX_TRACKED_LUA_FILES))\<rparr>) req_world"

definition batch_probed :: "(u64 \<Rightarrow> TestBitWriter) LdWorld" where
  "batch_probed = snd (probe_allowance batch_engine 0 batch_world)"

lemma batch_world_simps:
  "ld batch_world = ld req_world" "w_cvars batch_world = w_cvars req_world" "dp_pinnedPayloads (dp batch_world) 0 = Some (replicate 40 1)"
  "pinned_ids (dp_pinnedFiles (dp batch_world) 0) = {1}" "dp_stubQueues (dp batch_world) = dp_stubQueues (dp req_world)"
  by (simp_all add: batch_world_def pinned_ids_Mark MAX_TRACKED_LUA_FILES_def)

lemma batch_probed_simps:
  "probe_allowance batch_engine 0 batch_world = (True, batch_probed)" "w_cvars batch_probed = w_cvars req_world"
  "ld_table (ld batch_probed) = ld_table (ld req_world)" "slot_pins 0 batch_probed = slot_pins 0 batch_world"
  "dp_stubQueues (dp batch_probed) = dp_stubQueues (dp req_world)"
  "dp_stubScheduler (dp batch_probed) = dp_stubScheduler (dp req_world)"
  by (simp_all add: batch_probed_def probe_allowance_def batch_engine_def Let_def batch_world_simps slot_pins_def)
    (simp add: batch_world_def)

lemma batch_enabled: "IsEnabled batch_world" "IsEnabled batch_probed" "SupportsCanonicalRegistration req_eng w" "support_of_engine req_eng"
  by (simp_all add: IsEnabled_def batch_world_simps batch_probed_simps SupportsCanonicalRegistration_def support_of_engine_def req_eng_def)
    (simp_all add: req_world_def demo_cvars_def)

lemma batch_stubs: "stubs_ok req_eng {} (dp batch_probed)" "stub_files (dp batch_probed) 0 = []"
proof -
  have "stubs_ok req_eng {} (dp req_world)"
    using stubs_ok_new [of req_eng] by (simp add: req_world_def req_eng_def)
  then show "stubs_ok req_eng {} (dp batch_probed)" by (simp add: stubs_ok_def batch_probed_simps)
  show "stub_files (dp batch_probed) 0 = []"
    by (simp add: batch_probed_simps req_world_def Datapack_new_def ClientRequiredStubQueue_fresh_def RequiredStubQueue_new_def)
qed

theorem batch_is_single_requests_witness:
  "stub_files (dp (hook_GModDataPack_OnFilesRequested TestBitWriter_ops TestBitReader_ops cache_bootil cache_hashes req_eng req_lde
     req_baseline batch_engine 0 (Some (TestBitReader_new [1, 1] (- 1))) 32 batch_world)) 0 = [1]"
proof -
  let ?r = "TestBitReader_new [1, 1] (- 1)"
  let ?items = "[\<lparr>si_name = Some ''paths'', si_userData = None\<rparr>,
      \<lparr>si_name = Some ''a.lua'', si_userData = Some (replicate 32 9)\<rparr>]"
  have r: "tbr_intact ?r" "tbr_words ?r = [1, 1]" "br_GetNumBitsLeft TestBitReader_ops ?r = 32"
    by (simp_all add: TestBitReader_new_def tbr_intact_def tbr_left_def tbr_words_def TestBitReader_ops_def)
  have items: "ld_table (ld batch_world) = Some ?items"
    by (simp add: batch_world_simps) (simp add: req_world_def Datapack_new_def)
  have items': "ld_table (ld batch_probed) = Some ?items"
    using items by (simp add: batch_probed_simps batch_world_simps)
  have slot: "IsValidSlot req_eng 0" by (simp add: IsValidSlot_def req_eng_def)
  have guard: "CanDecodePinnedRequiredRequestBatch (IsEnabled batch_world) (SupportsCanonicalRegistration req_eng batch_world)
      (dp_pinnedPayloads (dp batch_world) 0 \<noteq> None)
      (of_nat (case dp_pinnedPayloads (dp batch_world) 0 of None \<Rightarrow> 0 | Some p \<Rightarrow> length p)) 32
      (br_GetNumBitsLeft TestBitReader_ops ?r) (int (length ?items)) MAX_TRACKED_LUA_FILES"
    unfolding r(3) batch_world_simps(3)
    by (simp add: CanDecodePinnedRequiredRequestBatch_def CanUsePinnedRequiredStub_def batch_enabled word_le_nat_alt MAX_TRACKED_LUA_FILES_def)
  have ids: "{1} = valid_requests (int (length ?items)) (take (nat (32 div 16)) (tbr_words ?r))" by (simp add: r(2))
  have "slot_pins 0 batch_probed = ({1}, Some (replicate 40 1))"
    by (simp add: batch_probed_simps) (simp add: slot_pins_def batch_world_simps)
  then have pinned: "\<forall>f \<in> {1}. pinned_usable req_eng 0 f batch_probed"
    using slot by (simp add: pinned_usable_def slot_pins_def CanUsePinnedRequiredStub_def batch_enabled word_le_nat_alt Let_def)
  have bits: "(32 :: int) < 2 ^ 31" by simp
  note batch = batch_is_single_requests [OF tbr.bit_reader_axioms r(1) batch_enabled(4) slot items bits guard
    batch_probed_simps(1) items' batch_stubs(1) ids pinned]
  show ?thesis using conjunct2 [OF batch] by (simp add: batch_stubs(2))
qed

end
