(* ===== verification/Spec2Isabelle.thy ===== *)
theory Spec2Isabelle
  imports SlotQueues DeliveryPolicy RefreshDrain RecoveryTracker RecoveryHandoff RefreshPaths
    RequestBatch LuaHashWire StubBudget PackFormat LuaPackDelivery LuaPackFailures LuaPackStorage ClientResolver LuaCondition
    StubDrain LuaEntriesCanonical ServerInfoQueue BatchDelivery
begin

text \<open>
  HolyLib's luapack: client Lua delivery through one immutable, compressed map-base object.

  Garry's Mod sends every client-side Lua file to every joining player over the net channel.  The
  luapack component of HolyLib (\<^verbatim>\<open>src/source/modules/gmoddatapack_luapack.cpp\<close>, its policy
  header \<^verbatim>\<open>gmoddatapack_luapack_policy.h\<close> and its callers in
  \<^verbatim>\<open>gmoddatapack.cpp\<close>) builds one pack of all files per map, publishes it as a FastDL
  download and sends each client only a fixed stub per file; the stub asks a Lua bootstrap on the
  client for the file's contents in the pack.  Files that changed since the build are sent
  natively.  When a required client cannot serve a stub, the server arms a one-shot latch for its
  account and reconnects it once with native delivery, or disconnects it.

  The pure decisions, \<^verbatim>\<open>gmoddatapack_luapack_policy.h\<close>.
  \<^item> SlotQueues: \<^verbatim>\<open>PinnedCanonicalFileSet\<close>, \<^verbatim>\<open>RequiredStubQueue\<close> and
    \<^verbatim>\<open>RoundRobinSlotScheduler\<close> with a queue contract as a locale, interpreted on both
    queues: uniqueness, order and bounded waiting.
  \<^item> DeliveryPolicy: the lane, baseline, file, registration and refresh decisions, and the record
    of which hash a client was last told.
  \<^item> RefreshDrain: the slot loop of \<^verbatim>\<open>DrainActiveLuaHashRefreshes\<close> in
    \<^verbatim>\<open>gmoddatapack.cpp\<close> for one file, with its budget and retry entry.
  \<^item> RecoveryTracker and RecoveryHandoff: the one-shot latch of an account and the per-slot
    reconnect gate, each refined against a small automaton.
  \<^item> RefreshPaths, CppString: the normalisation of the spellings of one file.
  \<^item> BitStream, RequestBatch, LuaHashWire, StubBudget: the engine messages bit by bit, over the
    template parameters \<^verbatim>\<open>BitWriter\<close> and \<^verbatim>\<open>BitReader\<close>, whose
    contracts are locales discharged on the writer and reader of the repository's policy tests.

  The module, \<^verbatim>\<open>gmoddatapack_luapack.cpp\<close>.
  \<^item> PackFormat: local keys, hexadecimal transport, the pack's byte format, its build and its
    validation (\<^verbatim>\<open>BuildPack\<close>, \<^verbatim>\<open>ValidatePack\<close>, \<^verbatim>\<open>WritePackKey\<close>).
  \<^item> LuaPackState: the \<^verbatim>\<open>State\<close> with generations, client pins, trackers and handoffs,
    the console variables and the engine's state as one world; pins, epochs, the manifest.
  \<^item> LuaPackPins and LuaPackRecovery: exact pin counts; fail-closed disconnects, recovery baselines,
    \<^verbatim>\<open>ProcessRequiredRecoveryHandoffs\<close> and \<^verbatim>\<open>ResolveDeliveryLane\<close>.
  \<^item> LuaPackClients: the decisions for a baseline and for a file, and the callbacks and console
    commands of a client.
  \<^item> LuaPackBuild and LuaPackThink: salt, immutable object, ingest upload, downloadable budget,
    housekeeping, captures, the build and the frame function \<^verbatim>\<open>Think\<close>.
  \<^item> LuaPackSteps, LuaPackModule, LuaPackReach: every operation decomposed into primitive changes of
    the state, and the reachable worlds under any order of entry points, worker completions and
    engine callbacks.
  \<^item> LuaPackRegistry, LuaPackDelivery, LuaPackFailures: the properties of the module.  LuaPackDemo is a
    concrete platform and run that shows their hypotheses can hold.
  \<^item> LuaPackStorage: the pack objects on disk and in the level's download list, over the laws
    \<open>disk_laws\<close> and \<open>string_table_laws\<close> of the host, discharged on a small disk.

  The client, the Lua chunk embedded in \<^verbatim>\<open>gmoddatapack_luapack.cpp\<close>.
  \<^item> ClientBootstrap: the manifest snapshot, the pack parser, \<^verbatim>\<open>tryMount\<close>,
    \<^verbatim>\<open>normalizedForms\<close> and \<^verbatim>\<open>findSource\<close>; the server's manifest and the
    server's pack are read back.
  \<^item> ClientResolver: the recovery flags, \<^verbatim>\<open>__holypack\<close>, the boot pass and the mount
    timer as a step relation, during which the files of the game change and its hash and
    decompression functions do not; what a client tells the server, and that a stub yields the file
    the server captured.

  The preparation of a file for clients, \<^verbatim>\<open>gmoddatapack.cpp\<close>.
  \<^item> LuaTokens: the Lua lexer \<^verbatim>\<open>TokenizeContent\<close>; its tokens are the content.
  \<^item> LuaStrip: the removal of comments and server blocks, \<^verbatim>\<open>ProcessTokens\<close>.  Its loop
    moves back over spaces, so it is a \<open>partial_function (option)\<close> and is shown to end; the
    inner result \<open>None\<close> is an access outside the token vector.  The number of lines is kept.
  \<^item> LuaCondition: a grammar of conditions with its meaning on the client; a condition the code
    calls server-only is false there.  Runs that differ from the intent are at its end.

  The delivery of files to clients, \<^verbatim>\<open>gmoddatapack.cpp\<close>.
  \<^item> DatapackQueues: the delivery state of every slot (pinned files, stub queue, advertised hashes,
    pending server info), the operations that clear it, and the invariant \<open>stubs_ok\<close>: a slot
    with a queued placeholder is scheduled.
  \<^item> StubDrain: \<^verbatim>\<open>DrainRequiredStubQueues\<close>, a loop with three ways to go on and so a
    \<open>partial_function (option)\<close>; it is shown to end, and to refine the contract
    \<open>delivery_event\<close>: a placeholder sent in order, a client that waits, a client disconnected
    and its queue cleared.
  \<^item> LuaEntries: the file cache \<^verbatim>\<open>LuaDataPack\<close> and the string table it publishes hashes
    in: registration, the two passes of the worker, refresh payloads, the diversion of the engine's
    reload broadcast.  LuaEntriesInvariant, LuaEntriesRuns and LuaEntriesCanonical: what holds in every
    order of these operations.
  \<^item> LuaBaseline: the identity every file is advertised with to one client
    (\<^verbatim>\<open>ResolveClientLuaBaselineHash\<close>) and \<^verbatim>\<open>ScopedClientLuaBaseline\<close>, which puts
    these identities into the shared string table for the time of one engine call.  ServerInfo:
    the reservation of the reliable stream, \<^verbatim>\<open>SendLuaPackServerInfoNow\<close> and its queue.
    BaselineTable: what is advertised is what will be delivered, and the table is restored.
    ServerInfoQueue: the reservation against the bursts of StubBudget, and the queue as a list of
    connections a frame serves from the front.
  \<^item> LuaRegistration: the sweep of \<^verbatim>\<open>Think\<close> that registers every file again when the
    delivery mode changes, a bounded number per frame.  RegistrationSweep: when it is complete, every
    file was registered with its source in the mode of the time.
  \<^item> LuaRequests: \<^verbatim>\<open>SendFileToClient\<close> and \<^verbatim>\<open>OnFilesRequested\<close>, the answers to a
    client's requests.  RequestDelivery and PlaceholderDelivery: a body goes out only under its own hash,
    as records on the client's stream.  RequestSafety: no request breaks the cache, and a required
    client gets no source.  BatchDelivery: a batch is its single requests, each once.

  Conventions.  A C++ struct is a record with the field's name behind a prefix; an enum is a
  datatype; \<^verbatim>\<open>uint64_t\<close>, \<^verbatim>\<open>unsigned int\<close> and bytes are words and wrap; a
  \<^verbatim>\<open>std::map\<close> is a partial map; a \<^verbatim>\<open>std::string\<close> is a list of characters, one
  per byte; an early return is a branch.  Server time and the seconds of the configuration are real
  numbers: rounding of \<^verbatim>\<open>double\<close> is not modelled.  Operations that mutate return the
  changed world.  Loops are recursive functions, shown to terminate where the recursion is not
  structural (pack bytes, path segments, Lua text and tokens), so no fuel is used.  Well-formedness
  predicates in hypotheses (\<open>stubs_ok\<close>, \<open>ld_ok\<close>, \<open>canon_ok\<close>) hold at load
  time and are kept by every operation (\<open>stubs_ok_new\<close>, \<open>ld_inv_reach\<close>,
  \<open>canon_reach\<close>).

  Parameters.  The engine (\<^verbatim>\<open>CBaseClient\<close>, string tables, the signon state), the host (file
  system, clock, HTTP, random device), Bootil's MD5 and LZMA and SHA-256 are arguments, collected in
  the records \<^verbatim>\<open>Engine\<close>, \<^verbatim>\<open>Host\<close>, \<^verbatim>\<open>Bootil\<close> and \<^verbatim>\<open>Hashes\<close>; on
  the client, the game's file, hash and decompression functions are \<^verbatim>\<open>Game\<close>.  What is
  assumed of them is named: \<^verbatim>\<open>md5_hex\<close> and \<^verbatim>\<open>md5_object_names\<close> (an MD5 is 32
  hexadecimal digits), \<^verbatim>\<open>u32_files\<close> (files below 4 GiB), \<^verbatim>\<open>same_tools\<close> (the
  game's MD5 and decompressor are the server's) and \<^verbatim>\<open>engine_reenters\<close>: an engine call the
  module makes may re-enter it only through the entry points the engine calls anyway;
  \<open>disconnect_clears\<close> (a disconnect re-enters the module only through its own callback),
  \<open>stream_laws\<close> (the streams of channels are a store), \<open>table_laws\<close> and \<open>table_names\<close> (an index found or added
  is in the string table and carries the name), \<open>hash_laws\<close> (SHA-256 has 32 bytes),
  \<open>support_of_engine\<close> (whether the hooks are installed is a fact of the engine),
  \<open>engine_keeps_table\<close> and \<open>request_engine_keeps\<close> (the engine's own handlers leave
  the module's string table and cache as well formed as they find them).

  Concurrency.  The build and upload threads write only their own task before setting its
  completion flag; a completion is one step of the reachability relation at any moment between
  frames.  Mutexes around the registry are not modelled.

  Not modelled.  The installation of the detours of \<^verbatim>\<open>gmoddatapack.cpp\<close>, its Lua functions
  and the console reload of a file from disk; the experimental pacing of native files over the
  unreliable stream (off by default, with its rate in \<^verbatim>\<open>float\<close> arithmetic), of which only
  the queueing is modelled; log messages; the Lua stack; the other modules of HolyLib, which are
  bindings of engine or third-party interfaces to Lua, and the vendored libraries.
\<close>

end
